(* ===== verification/Prelude.thy ===== *)
theory Prelude
  imports
    Main
    "HOL-Library.AList"
    "HOL-Library.Char_ord"
    "HOL-Library.List_Lexorder"
    "HOL-Library.State_Monad"
begin

text \<open>
  What every component of the development shares: Go's machine integers, its error values, its
  optional pointers, its maps, the parts of \<^verbatim>\<open>strconv\<close> and \<^verbatim>\<open>strings\<close> the controller calls, and a
  small weakest-precondition calculus for the state monad in which the effectful operations are
  written.

  Conventions. A Go \<^verbatim>\<open>int\<close> or \<^verbatim>\<open>int32\<close> field is an \<^typ>\<open>int\<close>; arithmetic that the code performs
  on 64-bit (32-bit) values goes through \<open>wrap64\<close> (\<open>wrap32\<close>), so that overflow wraps as in Go.
  A pointer \<^verbatim>\<open>*T\<close> is an \<^typ>\<open>'a option\<close>, and \<open>value_or z\<close> is the helper \<^verbatim>\<open>value\<close> of
  \<^verbatim>\<open>cloud.go\<close> at the zero value \<open>z\<close> of the pointed-to type.  An \<^verbatim>\<open>error\<close> result is a
  \<open>go_error option\<close> (\<^const>\<open>None\<close> is \<^verbatim>\<open>nil\<close>), a \<^verbatim>\<open>(T, error)\<close> result a sum with the error on the
  left.  A Go map is an association list with distinct keys: its order stands for the iteration
  order, which Go leaves unspecified, so a theorem about every such list holds for every order.
\<close>

section \<open>Collections of facts\<close>

named_theorems wp_rules \<open>weakest preconditions of the monadic building blocks\<close>
named_theorems gomap_simps \<open>lookups and updates of Go maps\<close>
named_theorems error_simps \<open>classification of Go errors\<close>

section \<open>Machine integers\<close>

definition wrap64 :: "int \<Rightarrow> int" where
  "wrap64 x = (x + 2 ^ 63) mod 2 ^ 64 - 2 ^ 63"

definition wrap32 :: "int \<Rightarrow> int" where
  "wrap32 x = (x + 2 ^ 31) mod 2 ^ 32 - 2 ^ 31"

definition is_int64 :: "int \<Rightarrow> bool" where
  "is_int64 x \<longleftrightarrow> - (2 ^ 63) \<le> x \<and> x < 2 ^ 63"

definition is_int32 :: "int \<Rightarrow> bool" where
  "is_int32 x \<longleftrightarrow> - (2 ^ 31) \<le> x \<and> x < 2 ^ 31"

section \<open>Pointers and maps\<close>

definition value_or :: "'a \<Rightarrow> 'a option \<Rightarrow> 'a" where
  "value_or z p = (case p of None \<Rightarrow> z | Some x \<Rightarrow> x)"

type_synonym ('k, 'v) gomap = "('k \<times> 'v) list"

text \<open>\<open>get_or z m k\<close> is the Go expression \<^verbatim>\<open>m[k]\<close>: the zero value for a missing key.\<close>

definition get_or :: "'v \<Rightarrow> ('k, 'v) gomap \<Rightarrow> 'k \<Rightarrow> 'v" where
  "get_or z m k = value_or z (map_of m k)"

definition has_key :: "('k, 'v) gomap \<Rightarrow> 'k \<Rightarrow> bool" where
  "has_key m k \<longleftrightarrow> map_of m k \<noteq> None"

definition map_keys :: "('k, 'v) gomap \<Rightarrow> 'k list" where
  "map_keys m = map fst m"

definition map_values :: "('k, 'v) gomap \<Rightarrow> 'v list" where
  "map_values m = map snd m"

text \<open>\<^verbatim>\<open>reflect.DeepEqual\<close> on two non-nil maps: the same bindings, in whatever order.\<close>

definition same_map :: "('k, 'v) gomap \<Rightarrow> ('k, 'v) gomap \<Rightarrow> bool" where
  "same_map m m' \<longleftrightarrow> length m = length m' \<and> list_all (\<lambda>(k, v). map_of m' k = Some v) m"

definition wf_map :: "('k, 'v) gomap \<Rightarrow> bool" where
  "wf_map m \<longleftrightarrow> distinct (map fst m)"

section \<open>Errors\<close>

datatype go_error =
    Errorf string
  | EndpointReadError go_error
  | BackendUnavailable int int
  | BackendCapacityError string
  | ClusterEndpointGap
  | ValidationError string
  | ImmutableTargetError
  | NotFound string
  | ApiError string
  | ContextError string
  | RuntimePanic string
  | Diverges

text \<open>
  \<^const>\<open>NotFound\<close> is an API error for which \<^verbatim>\<open>apierrors.IsNotFound\<close> holds, \<^const>\<open>ApiError\<close> any
  other error of a Kubernetes or OCI client.  \<^const>\<open>RuntimePanic\<close> is an index out of range;
  \<^const>\<open>Diverges\<close> marks a service-driven loop that used up its fuel, that is, one that has not
  returned.  The remaining constructors are the error types of the source.
\<close>

definition is_not_found :: "go_error \<Rightarrow> bool" where
  "is_not_found e \<longleftrightarrow> (case e of NotFound _ \<Rightarrow> True | _ \<Rightarrow> False)"

text \<open>\<^verbatim>\<open>errors.As\<close>: the first error of the wanted type along the \<^verbatim>\<open>Unwrap\<close> chain.\<close>

fun as_endpoint_read :: "go_error \<Rightarrow> bool" where
  "as_endpoint_read (EndpointReadError _) = True"
| "as_endpoint_read _ = False"

fun as_backend_unavailable :: "go_error \<Rightarrow> (int \<times> int) option" where
  "as_backend_unavailable (BackendUnavailable np hp) = Some (np, hp)"
| "as_backend_unavailable (EndpointReadError e) = as_backend_unavailable e"
| "as_backend_unavailable _ = None"

fun as_capacity :: "go_error \<Rightarrow> bool" where
  "as_capacity (BackendCapacityError _) = True"
| "as_capacity (EndpointReadError e) = as_capacity e"
| "as_capacity _ = False"

fun as_cluster_gap :: "go_error \<Rightarrow> bool" where
  "as_cluster_gap ClusterEndpointGap = True"
| "as_cluster_gap (EndpointReadError e) = as_cluster_gap e"
| "as_cluster_gap _ = False"

section \<open>Strings\<close>

definition has_prefix :: "string \<Rightarrow> string \<Rightarrow> bool" where
  "has_prefix s pre \<longleftrightarrow> take (length pre) s = pre"

definition trim_prefix :: "string \<Rightarrow> string \<Rightarrow> string" where
  "trim_prefix s pre = (if has_prefix s pre then drop (length pre) s else s)"

definition digit_char :: "nat \<Rightarrow> char" where
  "digit_char d = char_of (48 + d)"

definition is_digit :: "char \<Rightarrow> bool" where
  "is_digit c \<longleftrightarrow> (48 :: nat) \<le> of_char c \<and> of_char c \<le> (57 :: nat)"

definition digit_val :: "char \<Rightarrow> nat" where
  "digit_val c = of_char c - 48"

fun nat_digits :: "nat \<Rightarrow> string" where
  "nat_digits n = (if n < 10 then [digit_char n] else nat_digits (n div 10) @ [digit_char (n mod 10)])"

declare nat_digits.simps [simp del]

definition itoa :: "int \<Rightarrow> string" where
  "itoa i = (if i < 0 then CHR ''-'' # nat_digits (nat (- i)) else nat_digits (nat i))"

definition digits_val :: "string \<Rightarrow> nat" where
  "digits_val s = foldl (\<lambda>a c. 10 * a + digit_val c) 0 s"

text \<open>
  \<^verbatim>\<open>strconv.ParseInt(s, 10, bits)\<close>: an optional sign, at least one digit, digits only, and a value
  of the given width.  \<^verbatim>\<open>strconv.Atoi\<close> is the same at 64 bits.
\<close>

definition parse_int :: "nat \<Rightarrow> string \<Rightarrow> int option" where
  "parse_int bits s =
     (let neg = (s \<noteq> [] \<and> hd s = CHR ''-'');
          body = (if s \<noteq> [] \<and> (hd s = CHR ''-'' \<or> hd s = CHR ''+'') then tl s else s);
          v = (if neg then - int (digits_val body) else int (digits_val body))
      in if body = [] \<or> \<not> list_all is_digit body \<or> v < - (2 ^ (bits - 1)) \<or> 2 ^ (bits - 1) \<le> v
         then None else Some v)"

definition atoi :: "string \<Rightarrow> int option" where
  "atoi s = parse_int 64 s"

fun error_text :: "go_error \<Rightarrow> string" where
  "error_text (Errorf m) = m"
| "error_text (EndpointReadError e) = ''unable to observe tunnel endpoint: '' @ error_text e"
| "error_text (BackendUnavailable _ _) =
     ''waiting for one ready endpoint; any retained NodePort remains subject to native health checks''"
| "error_text (BackendCapacityError m) = m"
| "error_text ClusterEndpointGap =
     ''waiting for one ready endpoint; stable worker NodePorts retained under kube-proxy health checks''"
| "error_text (ValidationError m) = m"
| "error_text ImmutableTargetError =
     ''Route backend Service/port and listener port are immutable once bound; restore the original target or migrate to a new endpoint''"
| "error_text (NotFound m) = m"
| "error_text (ApiError m) = m"
| "error_text (ContextError m) = m"
| "error_text (RuntimePanic m) = m"
| "error_text Diverges = []"

section \<open>Weakest preconditions\<close>

text \<open>
  Operations that talk to the Kubernetes or the OCI API are values of the library's state monad.
  \<open>wp m Q s\<close> says that running \<open>m\<close> from \<open>s\<close> ends with a result and a state related by \<open>Q\<close>;
  the monad is total, so this is total correctness.
\<close>

definition wp :: "('s, 'a) state \<Rightarrow> ('a \<Rightarrow> 's \<Rightarrow> bool) \<Rightarrow> 's \<Rightarrow> bool" where
  "wp m Q s = (case run_state m s of (a, s') \<Rightarrow> Q a s')"

text \<open>\<open>tryM m f\<close> is the ubiquitous \<^verbatim>\<open>x, err := m; if err != nil \<lbrace> return err \<rbrace>; f(x)\<close>.\<close>

definition tryM :: "('s, 'e + 'a) state \<Rightarrow> ('a \<Rightarrow> ('s, 'e + 'b) state) \<Rightarrow> ('s, 'e + 'b) state" where
  "tryM m f = do {
     r \<leftarrow> m;
     case r of Inl e \<Rightarrow> State_Monad.return (Inl e) | Inr x \<Rightarrow> f x
   }"

definition gets :: "('s \<Rightarrow> 'a) \<Rightarrow> ('s, 'a) state" where
  "gets f = State (\<lambda>s. (f s, s))"

definition modify :: "('s \<Rightarrow> 's) \<Rightarrow> ('s, unit) state" where
  "modify f = State (\<lambda>s. ((), f s))"

section \<open>Lemmas on integers\<close>

lemma wrap64_id: "is_int64 x \<Longrightarrow> wrap64 x = x"
  by (simp add: wrap64_def is_int64_def)

lemma wrap32_id: "is_int32 x \<Longrightarrow> wrap32 x = x"
  by (simp add: wrap32_def is_int32_def)

lemma wrap64_range: "is_int64 (wrap64 x)"
  by (simp add: wrap64_def is_int64_def)

lemma wrap64_small [simp]: "\<bar>x\<bar> \<le> 1000000000 \<Longrightarrow> wrap64 x = x"
  by (rule wrap64_id) (simp add: is_int64_def, arith)

lemma wrap32_small [simp]: "\<bar>x\<bar> \<le> 1000000000 \<Longrightarrow> wrap32 x = x"
  by (rule wrap32_id) (simp add: is_int32_def, arith)

section \<open>Lemmas on pointers and maps\<close>

lemma value_or_simps [simp]: "value_or z None = z" "value_or z (Some x) = x"
  by (simp_all add: value_or_def)

lemma get_or_Nil [simp]: "get_or z [] k = z"
  by (simp add: get_or_def)

lemma get_or_Cons [simp]: "get_or z ((k', v) # m) k = (if k = k' then v else get_or z m k)"
  by (simp add: get_or_def)

lemma map_of_AList_update [gomap_simps]: "map_of (AList.update k v m) = (map_of m)(k \<mapsto> v)"
  by (rule update_conv')

lemma AList_update_fresh [gomap_simps]: "map_of m k = None \<Longrightarrow> AList.update k v m = m @ [(k, v)]"
  by (induction m) (auto split: if_splits)

lemma length_AList_update [gomap_simps]:
  "length (AList.update k v m) = (if map_of m k = None then Suc (length m) else length m)"
  by (induction m) (auto split: if_splits)

lemma wf_map_Nil [simp]: "wf_map []"
  by (simp add: wf_map_def)

lemma wf_map_update [simp, intro]: "wf_map m \<Longrightarrow> wf_map (AList.update k v m)"
  by (simp add: wf_map_def distinct_update)

lemma wf_map_map_of: "wf_map m \<Longrightarrow> (k, v) \<in> set m \<longleftrightarrow> map_of m k = Some v"
  by (simp add: wf_map_def)

lemma map_values_iff: "wf_map m \<Longrightarrow> v \<in> set (map_values m) \<longleftrightarrow> (\<exists>k. map_of m k = Some v)"
  by (force simp: map_values_def wf_map_map_of [symmetric])

lemma set_AList_update: "set (AList.update k v m) \<subseteq> insert (k, v) (set m)"
  by (induction m) auto

lemma has_key_map_keys: "has_key m k \<longleftrightarrow> k \<in> set (map_keys m)"
  by (simp add: has_key_def map_keys_def map_of_eq_None_iff)

lemma same_map_map_of:
  assumes "wf_map m" "wf_map m'" "same_map m m'"
  shows "map_of m = map_of m'"
proof -
  have sub: "set m \<subseteq> set m'"
    using assms by (auto simp: same_map_def list_all_iff dest: map_of_SomeD)
  have "card (set m) = card (set m')"
    using assms by (simp add: same_map_def wf_map_def distinct_card distinct_map)
  with sub have "set m = set m'" by (simp add: card_subset_eq)
  with assms(1,2) show ?thesis by (simp add: wf_map_def map_of_inject_set)
qed

lemma same_map_refl [simp]: "wf_map m \<Longrightarrow> same_map m m"
  by (auto simp: same_map_def list_all_iff wf_map_def)

text \<open>Replacing the value of a key that is there.\<close>

lemma update_keys: "map_of m k = Some a \<Longrightarrow> fst ` set (AList.update k v m) = fst ` set m"
  by (auto simp: gomap_simps dom_def simp flip: dom_map_of_conv_image_fst)

lemma update_values:
  assumes "distinct (map fst m)" "map_of m uid = Some a"
  shows "f a' = f a \<Longrightarrow> f ` snd ` set (AList.update uid a' m) = f ` snd ` set m"
  using assms
proof (induction m)
  case (Cons x m)
  then show ?case by (cases x) (simp split: if_splits)
qed simp

lemma length_filter_update:
  assumes "distinct (map fst m)" "map_of m k = Some a"
  shows "length (filter P (AList.update k v m)) + (if P (k, a) then 1 else 0) = length (filter P m) + (if P (k, v) then 1 else 0)"
  using assms
proof (induction m)
  case (Cons x m)
  have "AList.update k v m = m @ [(k, v)]" if "k \<notin> fst ` set m" using that by (intro AList_update_fresh) (simp add: map_of_eq_None_iff)
  with Cons show ?case by (cases x) auto
qed simp

section \<open>Lemmas on lists and sums\<close>

lemma find_SomeD: "find P xs = Some x \<Longrightarrow> x \<in> set xs \<and> P x"
  by (induction xs) (auto split: if_splits)

lemma find_append: "find P (xs @ ys) = (case find P xs of None \<Rightarrow> find P ys | Some x \<Rightarrow> Some x)"
  by (induction xs) auto

lemma length_filter_map_less:
  assumes "\<And>x. x \<in> set xs \<Longrightarrow> P (f x) \<Longrightarrow> P x" "x \<in> set xs" "P x" "\<not> P (f x)"
  shows "length (filter P (map f xs)) < length (filter P xs)"
proof -
  have "filter (P \<circ> f) xs = filter (P \<circ> f) (filter P xs)" using assms(1) by (induction xs) auto
  moreover have "length (filter (P \<circ> f) (filter P xs)) < length (filter P xs)"
    using assms(2-4) by (intro length_filter_less [of x]) auto
  ultimately show ?thesis by (simp add: filter_map)
qed

lemma sum_list_drop:
  fixes f g :: "'a \<Rightarrow> nat"
  assumes "\<And>x. x \<in> set xs \<Longrightarrow> f x \<le> g x" "y \<in> set xs" "f y + d \<le> g y"
  shows "sum_list (map f xs) + d \<le> sum_list (map g xs)"
  using assms
proof (induction xs)
  case (Cons x xs)
  have rest: "sum_list (map f xs) \<le> sum_list (map g xs)" by (rule sum_list_mono) (use Cons.prems(1) in simp)
  show ?case
  proof (cases "y \<in> set xs")
    case True
    with Cons have "sum_list (map f xs) + d \<le> sum_list (map g xs)" by simp
    moreover have "f x \<le> g x" using Cons.prems(1) by simp
    ultimately show ?thesis by simp
  next
    case False
    with Cons.prems(2,3) rest show ?thesis by simp
  qed
qed simp

lemma sum_changed_at:
  fixes f g :: "'a \<Rightarrow> nat"
  assumes "finite A" "\<And>n. n \<in> A \<Longrightarrow> n \<noteq> n0 \<Longrightarrow> f n = g n"
  shows "f n0 \<le> k \<Longrightarrow> sum f (insert n0 A) \<le> sum g A + k"
    and "n0 \<in> A \<Longrightarrow> f n0 < g n0 \<Longrightarrow> sum f A < sum g A"
proof -
  have same: "sum f (A - {n0}) = sum g (A - {n0})" using assms(2) by (intro sum.cong) auto
  have "sum g (A - {n0}) \<le> sum g A" using assms(1) by (intro sum_mono2) auto
  then show "f n0 \<le> k \<Longrightarrow> sum f (insert n0 A) \<le> sum g A + k" using assms(1) by (simp add: sum.insert_remove same)
  show "n0 \<in> A \<Longrightarrow> f n0 < g n0 \<Longrightarrow> sum f A < sum g A" using assms(1) by (simp add: sum.remove [of A n0] same)
qed

section \<open>Lemmas on errors\<close>

lemma as_endpoint_read_iff [error_simps]: "as_endpoint_read e \<longleftrightarrow> (\<exists>e'. e = EndpointReadError e')"
  by (cases e) auto

lemma is_not_found_iff [error_simps]: "is_not_found e \<longleftrightarrow> (\<exists>m. e = NotFound m)"
  by (cases e) (auto simp: is_not_found_def)

section \<open>Lemmas on decimal numerals\<close>

lemma digit_char_val [simp]: "d < 10 \<Longrightarrow> digit_val (digit_char d) = d"
  by (simp add: digit_val_def digit_char_def)

lemma digit_char_is_digit [simp]: "d < 10 \<Longrightarrow> is_digit (digit_char d)"
  by (simp add: is_digit_def digit_char_def)

lemma nat_digits_all: "list_all is_digit (nat_digits n)"
proof (induction n rule: nat_digits.induct)
  case (1 n)
  then show ?case
    by (cases "n < 10") (auto simp: nat_digits.simps [of n])
qed

lemma nat_digits_nonempty [simp]: "nat_digits n \<noteq> []"
  by (subst nat_digits.simps) simp

lemma digits_val_snoc: "digits_val (s @ [c]) = 10 * digits_val s + digit_val c"
  by (simp add: digits_val_def)

lemma digits_val_nat_digits [simp]: "digits_val (nat_digits n) = n"
proof (induction n rule: nat_digits.induct)
  case (1 n)
  then show ?case
    by (cases "n < 10") (auto simp: nat_digits.simps [of n] digits_val_snoc digits_val_def)
qed

lemma nat_digits_inject [simp]: "nat_digits m = nat_digits n \<longleftrightarrow> m = n"
  by (metis digits_val_nat_digits)

lemma is_digit_sign [simp]: "\<not> is_digit CHR ''-''" "\<not> is_digit CHR ''+''" "\<not> is_digit CHR '':''"
  by (simp_all add: is_digit_def)

lemma nat_digits_hd: "is_digit (hd (nat_digits n))"
  using nat_digits_all [of n] by (cases "nat_digits n") auto

lemma itoa_inject [simp]: "itoa i = itoa j \<longleftrightarrow> i = j"
proof -
  have sep: "CHR ''-'' # nat_digits m \<noteq> nat_digits n" for m n
    using nat_digits_hd [of n] by (metis is_digit_sign(1) list.sel(1))
  show ?thesis
    using sep sep [symmetric] by (auto simp: itoa_def)
qed

lemma itoa_no_colon: "CHR '':'' \<notin> set (itoa i)"
  using nat_digits_all [of "nat (- i)"] nat_digits_all [of "nat i"]
  by (auto simp: itoa_def list_all_iff)

lemma parse_int_itoa:
  assumes "- (2 ^ (bits - 1)) \<le> i" "i < 2 ^ (bits - 1)"
  shows "parse_int bits (itoa i) = Some i"
proof (cases "i < 0")
  case True
  with assms show ?thesis
    by (simp add: parse_int_def itoa_def nat_digits_all)
next
  case False
  have "hd (nat_digits (nat i)) \<noteq> CHR ''-''" "hd (nat_digits (nat i)) \<noteq> CHR ''+''"
    using nat_digits_hd [of "nat i"] by (metis is_digit_sign)+
  with False assms show ?thesis
    by (simp add: parse_int_def itoa_def nat_digits_all)
qed

lemma atoi_itoa: "is_int64 i \<Longrightarrow> atoi (itoa i) = Some i"
  unfolding atoi_def by (rule parse_int_itoa) (simp_all add: is_int64_def)

section \<open>Lemmas on the state monad\<close>

lemma wp_return [wp_rules]: "wp (State_Monad.return a) Q s = Q a s"
  by (simp add: wp_def)

lemma wp_bind [wp_rules]: "wp (State_Monad.bind m f) Q s = wp m (\<lambda>a. wp (f a) Q) s"
  by (simp add: wp_def split: prod.split)

lemma wp_gets [wp_rules]: "wp (gets f) Q s = Q (f s) s"
  by (simp add: wp_def gets_def)

lemma wp_modify [wp_rules]: "wp (modify f) Q s = Q () (f s)"
  by (simp add: wp_def modify_def)

lemma wp_tryM [wp_rules]:
  "wp (tryM m f) Q s = wp m (\<lambda>r. case r of Inl e \<Rightarrow> Q (Inl e) | Inr x \<Rightarrow> wp (f x) Q) s"
  by (simp add: tryM_def wp_bind wp_return cong: sum.case_cong)
     (simp add: wp_def split: prod.split sum.split)

lemma wp_mono: "wp m P s \<Longrightarrow> (\<And>a s'. P a s' \<Longrightarrow> Q a s') \<Longrightarrow> wp m Q s"
  by (auto simp: wp_def split: prod.splits)

lemma wp_conj: "wp m P s \<Longrightarrow> wp m Q s \<Longrightarrow> wp m (\<lambda>a s'. P a s' \<and> Q a s') s"
  by (auto simp: wp_def split: prod.splits)

lemma wp_run: "wp m Q s \<Longrightarrow> run_state m s = (a, s') \<Longrightarrow> Q a s'"
  by (simp add: wp_def)

end
