(* ===== verification/Kube_Types.thy ===== *)
theory Kube_Types
  imports Prelude
begin

text \<open>
  The Kubernetes objects the controller reads, as records of the fields the source uses.  The types
  belong to \<^verbatim>\<open>k8s.io/api\<close> and \<^verbatim>\<open>k8s.io/apimachinery\<close>; only their shape is fixed here.  A non-zero
  \<^verbatim>\<open>DeletionTimestamp\<close> is the flag \<open>om_Deleting\<close>, and timestamps of conditions are left out: no
  decision of the source reads them.

  The functions of those packages that the source calls on the objects are not defined but collected
  in \<open>kube_lib\<close>, a parameter of every operation that needs one; \<open>finalizer_laws\<close> states what the
  source relies on.
\<close>

record owner_reference =
  or_APIVersion :: string
  or_Kind :: string
  or_Name :: string
  or_UID :: string
  or_Controller :: "bool option"
  or_BlockOwnerDeletion :: "bool option"

record object_meta =
  om_Name :: string
  om_Namespace :: string
  om_UID :: string
  om_ResourceVersion :: string
  om_Generation :: int
  om_CreationTimestamp :: int
  om_Deleting :: bool
  om_Finalizers :: "string list"
  om_Labels :: "(string, string) gomap"
  om_Annotations :: "(string, string) gomap"
  om_OwnerReferences :: "owner_reference list"

record condition =
  cn_Type :: string
  cn_Status :: string
  cn_Reason :: string
  cn_Message :: string
  cn_ObservedGeneration :: int

record int_or_string =
  is_Type :: int
  is_IntVal :: int
  is_StrVal :: string

record service_port =
  sp_Name :: string
  sp_Protocol :: string
  sp_Port :: int
  sp_TargetPort :: int_or_string
  sp_NodePort :: int

record service =
  sv_Meta :: object_meta
  sv_Type :: string
  sv_ExternalTrafficPolicy :: string
  sv_PublishNotReadyAddresses :: bool
  sv_Selector :: "(string, string) gomap"
  sv_Ports :: "service_port list"

record target_ref =
  tr_Kind :: string
  tr_Namespace :: string
  tr_Name :: string
  tr_UID :: string

record endpoint =
  ep_Addresses :: "string list"
  ep_Ready :: "bool option"
  ep_Serving :: "bool option"
  ep_Terminating :: "bool option"
  ep_TargetRef :: "target_ref option"
  ep_NodeName :: "string option"

record endpoint_port =
  pt_Name :: "string option"
  pt_Protocol :: "string option"
  pt_Port :: "int option"

record endpoint_slice =
  es_Meta :: object_meta
  es_AddressType :: string
  es_Ports :: "endpoint_port list"
  es_Endpoints :: "endpoint list"

record container_port =
  cp_Name :: string
  cp_Protocol :: string
  cp_ContainerPort :: int

record pod =
  pd_Meta :: object_meta
  pd_NodeName :: string
  pd_HostNetwork :: bool
  pd_Containers :: "container_port list list"
  pd_Conditions :: "(string \<times> string) list"
  pd_PodIP :: string

record node =
  nd_Meta :: object_meta
  nd_ProviderID :: string
  nd_Conditions :: "(string \<times> string) list"
  nd_Addresses :: "(string \<times> string) list"

text \<open>A namespaced key; cluster-scoped objects have the empty namespace.\<close>

type_synonym object_key = "string \<times> string"

definition key_of :: "object_meta \<Rightarrow> object_key" where
  "key_of m = (om_Namespace m, om_Name m)"

record kube_lib =
  containsFinalizer :: "string list \<Rightarrow> string \<Rightarrow> bool"
  addFinalizer :: "string list \<Rightarrow> string \<Rightarrow> string list"
  removeFinalizer :: "string list \<Rightarrow> string \<Rightarrow> string list"
  setStatusCondition :: "condition list \<Rightarrow> condition \<Rightarrow> condition list"
  findStatusCondition :: "condition list \<Rightarrow> string \<Rightarrow> condition option"
  controllerOf :: "owner_reference list \<Rightarrow> owner_reference option"
  selectorMatches :: "(string, string) gomap \<Rightarrow> (string, string) gomap \<Rightarrow> bool"

text \<open>
  The documented behaviour of \<^verbatim>\<open>controllerutil\<close>: adding makes the finalizer present, removing makes it
  absent, and neither touches any other finalizer.
\<close>

definition finalizer_laws :: "kube_lib \<Rightarrow> bool" where
  "finalizer_laws L \<longleftrightarrow>
     (\<forall>fs f g. containsFinalizer L (addFinalizer L fs f) g \<longleftrightarrow> g = f \<or> containsFinalizer L fs g) \<and>
     (\<forall>fs f g. containsFinalizer L (removeFinalizer L fs f) g \<longleftrightarrow> g \<noteq> f \<and> containsFinalizer L fs g)"

text \<open>A concrete instance, for evaluation at concrete inputs.\<close>

definition set_condition_list :: "condition list \<Rightarrow> condition \<Rightarrow> condition list" where
  "set_condition_list cs c =
     (if list_ex (\<lambda>d. cn_Type d = cn_Type c) cs
      then map (\<lambda>d. if cn_Type d = cn_Type c then c else d) cs else cs @ [c])"

definition list_lib :: kube_lib where
  "list_lib = \<lparr>containsFinalizer = (\<lambda>fs f. f \<in> set fs),
     addFinalizer = (\<lambda>fs f. if f \<in> set fs then fs else fs @ [f]),
     removeFinalizer = (\<lambda>fs f. filter (\<lambda>g. g \<noteq> f) fs),
     setStatusCondition = set_condition_list, findStatusCondition = (\<lambda>cs t. find (\<lambda>c. cn_Type c = t) cs),
     controllerOf = find (\<lambda>r. or_Controller r = Some True),
     selectorMatches = (\<lambda>sel ls. list_all (\<lambda>(k, v). map_of ls k = Some v) sel)\<rparr>"

lemma finalizer_laws_list_lib: "finalizer_laws list_lib"
  by (auto simp: finalizer_laws_def list_lib_def)

text \<open>An object's metadata with nothing but a name, from which examples are built.\<close>

definition meta_named :: "string \<Rightarrow> string \<Rightarrow> string \<Rightarrow> object_meta" where
  "meta_named ns n uid = \<lparr>om_Name = n, om_Namespace = ns, om_UID = uid, om_ResourceVersion = [],
     om_Generation = 1, om_CreationTimestamp = 0, om_Deleting = False, om_Finalizers = [],
     om_Labels = [], om_Annotations = [], om_OwnerReferences = []\<rparr>"

end
