(* ===== verification/Api_Types.thy ===== *)
theory Api_Types
  imports Kube_Types
begin

text \<open>
  The custom resources of \<^verbatim>\<open>api/types.go\<close> and \<^verbatim>\<open>api/gateway_pool.go\<close>: the pool of network load
  balancers with its ledger of leases, the tunnel binding, and the Gateway pool with its own ledger.
  Type metadata (\<^verbatim>\<open>TypeMeta\<close>) carries no information here and is left out.
\<close>

definition Finalizer :: string where
  "Finalizer = ''nlb.independent.dev/cleanup''"

record pool_spec =
  ps_CompartmentID :: string
  ps_SubnetID :: string
  ps_Occupancy :: int
  ps_MaxShards :: int
  ps_PortStart :: int
  ps_PreserveSource :: bool
  ps_AllocationMode :: string
  ps_ProvisionEmpty :: bool
  ps_MaxWorkers :: int

record worker_identity =
  wi_UID :: string
  wi_InstanceID :: string
  wi_IP :: string

record shard =
  sh_ID :: string
  sh_PublicIP :: string

record allocation =
  al_BindingName :: string
  al_ServiceName :: string
  al_ServiceUID :: string
  al_PortName :: string
  al_Mode :: string
  al_Shard :: int
  al_Port :: int
  al_Name :: string
  al_Tombstone :: bool
  al_NodePort :: int

record pool_status =
  st_PendingWork :: string
  st_Allocations :: "(string, allocation) gomap"
  st_Shards :: "shard list"
  st_FrozenSpec :: "pool_spec option"
  st_Conditions :: "condition list"
  st_Used :: int
  st_Available :: int
  st_Workers :: "(string, worker_identity) gomap"

record nlb_pool =
  np_Meta :: object_meta
  np_Spec :: pool_spec
  np_Status :: pool_status

record binding_spec =
  bs_Pool :: string
  bs_Service :: string
  bs_PortName :: string
  bs_Mode :: string
  bs_HealthPort :: int
  bs_RequestedPort :: int
  bs_Suspended :: bool

record binding_status =
  bt_ExternalIP :: string
  bt_ExternalPort :: int
  bt_BackendSet :: string
  bt_NLBID :: string
  bt_Conditions :: "condition list"

record tunnel_binding =
  tb_Meta :: object_meta
  tb_Spec :: binding_spec
  tb_Status :: binding_status

record gateway_pool_spec =
  gs_GatewayClassName :: string
  gs_Occupancy :: int
  gs_MaxGateways :: int
  gs_PortStart :: int
  gs_MaxWorkers :: int

record gateway_allocation =
  ga_RouteName :: string
  ga_ServiceName :: string
  ga_ServiceUID :: string
  ga_ServicePort :: int
  ga_HealthPort :: int
  ga_GatewayName :: string
  ga_Shard :: int
  ga_ListenerName :: string
  ga_Port :: int
  ga_Tombstone :: bool
  ga_Attached :: bool
  ga_Mode :: string

record gateway_pool_status =
  gt_Allocations :: "(string, gateway_allocation) gomap"
  gt_Gateways :: "(string, string) gomap"
  gt_FrozenSpec :: "gateway_pool_spec option"
  gt_RejectedRoutes :: "(string, string) gomap"
  gt_Conditions :: "condition list"
  gt_Used :: int
  gt_Available :: int

record gateway_pool =
  gp_Meta :: object_meta
  gp_Spec :: gateway_pool_spec
  gp_Status :: gateway_pool_status

section \<open>Accessors\<close>

abbreviation pool_allocations :: "nlb_pool \<Rightarrow> (string, allocation) gomap" where
  "pool_allocations p \<equiv> st_Allocations (np_Status p)"

abbreviation pool_shards :: "nlb_pool \<Rightarrow> shard list" where
  "pool_shards p \<equiv> st_Shards (np_Status p)"

abbreviation binding_uid :: "tunnel_binding \<Rightarrow> string" where
  "binding_uid b \<equiv> om_UID (tb_Meta b)"

definition set_allocations :: "(string, allocation) gomap \<Rightarrow> nlb_pool \<Rightarrow> nlb_pool" where
  "set_allocations m p = p\<lparr>np_Status := (np_Status p)\<lparr>st_Allocations := m\<rparr>\<rparr>"

text \<open>\<^verbatim>\<open>p.Status.Allocations[uid] = a\<close>\<close>

definition put_allocation :: "string \<Rightarrow> allocation \<Rightarrow> nlb_pool \<Rightarrow> nlb_pool" where
  "put_allocation uid a p = set_allocations (AList.update uid a (pool_allocations p)) p"

definition put_gateway_allocation :: "string \<Rightarrow> gateway_allocation \<Rightarrow> gateway_pool \<Rightarrow> gateway_pool" where
  "put_gateway_allocation uid a p =
     p\<lparr>gp_Status := (gp_Status p)\<lparr>gt_Allocations := AList.update uid a (gt_Allocations (gp_Status p))\<rparr>\<rparr>"

text \<open>
  \<^verbatim>\<open>p.Status.Shards[i]\<close>, with the index range written out: \<^const>\<open>None\<close> where Go would panic.
\<close>

definition shard_at :: "shard list \<Rightarrow> int \<Rightarrow> shard option" where
  "shard_at ss i = (if 0 \<le> i \<and> i < int (length ss) then Some (ss ! nat i) else None)"

definition empty_status :: pool_status where
  "empty_status = \<lparr>st_PendingWork = [], st_Allocations = [], st_Shards = [], st_FrozenSpec = None,
     st_Conditions = [], st_Used = 0, st_Available = 0, st_Workers = []\<rparr>"

definition empty_binding_status :: binding_status where
  "empty_binding_status = \<lparr>bt_ExternalIP = [], bt_ExternalPort = 0, bt_BackendSet = [],
     bt_NLBID = [], bt_Conditions = []\<rparr>"

lemma put_allocation_simps [simp]:
  "np_Meta (put_allocation uid a p) = np_Meta p"
  "np_Spec (put_allocation uid a p) = np_Spec p"
  "pool_allocations (put_allocation uid a p) = AList.update uid a (pool_allocations p)"
  "pool_shards (put_allocation uid a p) = pool_shards p"
  by (simp_all add: put_allocation_def set_allocations_def)

lemma put_gateway_allocation_simps [simp]:
  "gp_Meta (put_gateway_allocation uid a p) = gp_Meta p"
  "gp_Spec (put_gateway_allocation uid a p) = gp_Spec p"
  "gt_Allocations (gp_Status (put_gateway_allocation uid a p)) =
     AList.update uid a (gt_Allocations (gp_Status p))"
  by (simp_all add: put_gateway_allocation_def)

end
