(* ===== verification/Lease_Ledger.thy ===== *)
theory Lease_Ledger
  imports Prelude
begin

text \<open>
  The contract that the two allocators of the controller share.  Both \<^verbatim>\<open>Allocate\<close> of
  \<^verbatim>\<open>internalcontroller/allocation.go\<close> and \<^verbatim>\<open>reserve\<close> of \<^verbatim>\<open>internalgatewaypool/reconciler.go\<close> keep a
  ledger of leases keyed by the UID of the requesting object, search the shards and their ports for
  the first free pair, and never give a pair out twice, not even after the lease was retired.

  This theory holds the search loop, with its equivalence to a one-line reference search, and the
  locales \<open>lease_ledger\<close> and \<open>bounded_ledger\<close>: their assumptions are what an allocator promises
  for one request, their lemmas what follows for any sequence of requests.
\<close>

section \<open>The search for a free slot\<close>

function try_offsets :: "(int \<times> int) list \<Rightarrow> int \<Rightarrow> int \<Rightarrow> int \<Rightarrow> int \<Rightarrow> int option" where
  "try_offsets occupied start occupancy shard offset =
     (if offset < occupancy then
        (if (shard, wrap64 (start + offset)) \<notin> set occupied then Some (wrap64 (start + offset))
         else try_offsets occupied start occupancy shard (offset + 1))
      else None)"
  by pat_completeness auto
termination
  by (relation "measure (\<lambda>(occupied, start, occupancy, shard, offset). nat (occupancy - offset))") auto

function try_shards :: "(int \<times> int) list \<Rightarrow> int \<Rightarrow> int \<Rightarrow> int \<Rightarrow> int \<Rightarrow> (int \<times> int) option" where
  "try_shards occupied start occupancy max_shards shard =
     (if shard < max_shards then
        (case try_offsets occupied start occupancy shard 0 of
           Some port \<Rightarrow> Some (shard, port)
         | None \<Rightarrow> try_shards occupied start occupancy max_shards (shard + 1))
      else None)"
  by pat_completeness auto
termination
  by (relation "measure (\<lambda>(occupied, start, occupancy, max_shards, shard). nat (max_shards - shard))") auto

declare try_offsets.simps [simp del] try_shards.simps [simp del]

text \<open>The slots in the order in which the loops visit them, and the reference search over them.\<close>

definition slot_order :: "int \<Rightarrow> int \<Rightarrow> int \<Rightarrow> (int \<times> int) list" where
  "slot_order start occupancy max_shards =
     concat (map (\<lambda>s. map (\<lambda>k. (s, wrap64 (start + k))) [0..occupancy - 1]) [0..max_shards - 1])"

definition first_free :: "(int \<times> int) list \<Rightarrow> int \<Rightarrow> int \<Rightarrow> int \<Rightarrow> (int \<times> int) option" where
  "first_free occupied start occupancy max_shards =
     find (\<lambda>x. x \<notin> set occupied) (slot_order start occupancy max_shards)"

section \<open>Ledgers\<close>

definition ledger_ok :: "('a \<Rightarrow> int \<times> int) \<Rightarrow> (string, 'a) gomap \<Rightarrow> bool" where
  "ledger_ok slot m \<longleftrightarrow> wf_map m \<and> distinct (map (slot \<circ> snd) m)"

text \<open>A sequence of requests; a refused request leaves the ledger as it was.\<close>

fun serve :: "('p \<Rightarrow> 'r \<Rightarrow> go_error + ('a \<times> 'p)) \<Rightarrow> 'p \<Rightarrow> 'r list \<Rightarrow> 'p" where
  "serve grant p [] = p"
| "serve grant p (r # rs) =
     serve grant (case grant p r of Inl _ \<Rightarrow> p | Inr (a, p') \<Rightarrow> p') rs"

section \<open>The loops find what the reference finds\<close>

lemma try_offsets_find:
  "try_offsets occ start n s k =
     map_option snd (find (\<lambda>x. x \<notin> set occ) (map (\<lambda>k. (s, wrap64 (start + k))) [k..n - 1]))"
proof (induction occ start n s k rule: try_offsets.induct)
  case (1 occ start n s k)
  show ?case
  proof (cases "k < n")
    case True
    then have "[k..n - 1] = k # [k + 1..n - 1]"
      by (simp add: upto.simps [of k])
    with True 1 show ?thesis
      by (subst try_offsets.simps) simp
  next
    case False
    then show ?thesis by (subst try_offsets.simps) simp
  qed
qed

lemma find_same_fst:
  assumes "\<And>x. x \<in> set xs \<Longrightarrow> fst x = s"
  shows "map_option (Pair s) (map_option snd (find P xs)) = find P xs"
  using assms by (induction xs) (auto simp: prod_eq_iff)

lemma try_shards_find:
  "try_shards occ start n m s =
     find (\<lambda>x. x \<notin> set occ)
       (concat (map (\<lambda>s. map (\<lambda>k. (s, wrap64 (start + k))) [0..n - 1]) [s..m - 1]))"
proof (induction occ start n m s rule: try_shards.induct)
  case (1 occ start n m s)
  let ?row = "\<lambda>s. map (\<lambda>k. (s, wrap64 (start + k))) [0..n - 1]"
  show ?case
  proof (cases "s < m")
    case True
    then have list: "[s..m - 1] = s # [s + 1..m - 1]"
      by (simp add: upto.simps [of s])
    have row: "map_option (Pair s) (try_offsets occ start n s 0) = find (\<lambda>x. x \<notin> set occ) (?row s)"
      unfolding try_offsets_find by (rule find_same_fst) auto
    show ?thesis
    proof (cases "try_offsets occ start n s 0")
      case None
      with row have "find (\<lambda>x. x \<notin> set occ) (?row s) = None" by simp
      with True None 1 list show ?thesis
        by (simp add: try_shards.simps [of occ start n m s] find_append)
    next
      case (Some port)
      with row have "find (\<lambda>x. x \<notin> set occ) (?row s) = Some (s, port)" by simp
      with True Some list show ?thesis
        by (simp add: try_shards.simps [of occ start n m s] find_append)
    qed
  next
    case False
    then show ?thesis by (simp add: try_shards.simps [of occ start n m s])
  qed
qed

lemma try_shards_first_free: "try_shards occ start n m 0 = first_free occ start n m"
  by (simp add: try_shards_find first_free_def slot_order_def)

lemma set_slot_order:
  "set (slot_order start n m) = {(s, wrap64 (start + k)) | s k. 0 \<le> s \<and> s < m \<and> 0 \<le> k \<and> k < n}"
  by (force simp: slot_order_def)

lemma slot_order_plain:
  assumes "0 \<le> start" "start + n \<le> 2 ^ 63"
  shows "set (slot_order start n m) = {0..<m} \<times> {start..<start + n}"
proof -
  have w: "wrap64 (start + k) = start + k" if "0 \<le> k" "k < n" for k
    by (rule wrap64_id) (use assms that in \<open>simp add: is_int64_def\<close>)
  show ?thesis
    unfolding set_slot_order
  proof (intro equalityI subsetI)
    fix x assume "x \<in> {(s, wrap64 (start + k)) | s k. 0 \<le> s \<and> s < m \<and> 0 \<le> k \<and> k < n}"
    then show "x \<in> {0..<m} \<times> {start..<start + n}" by (auto simp: w)
  next
    fix x assume x: "x \<in> {0..<m} \<times> {start..<start + n}"
    obtain s q where sq: "x = (s, q)" by (cases x)
    with x w [of "q - start"] have "q = wrap64 (start + (q - start))" by simp
    with x sq show "x \<in> {(s, wrap64 (start + k)) | s k. 0 \<le> s \<and> s < m \<and> 0 \<le> k \<and> k < n}"
      by (auto intro!: exI [of _ "q - start"])
  qed
qed

lemma first_free_Some:
  assumes "first_free occ start n m = Some x"
  shows "x \<in> set (slot_order start n m)" "x \<notin> set occ"
  using assms unfolding first_free_def find_Some_iff by auto

lemma first_free_None: "first_free occ start n m = None \<longleftrightarrow> set (slot_order start n m) \<subseteq> set occ"
  by (auto simp: first_free_def find_None_iff)

text \<open>What the loops skipped was occupied.\<close>

lemma try_offsets_Some:
  assumes "try_offsets occ start n s k = Some q"
  shows "\<exists>k'\<ge>k. k' < n \<and> q = wrap64 (start + k') \<and> (\<forall>j. k \<le> j \<and> j < k' \<longrightarrow> (s, wrap64 (start + j)) \<in> set occ)"
  using assms
proof (induction occ start n s k rule: try_offsets.induct)
  case (1 occ start n s k)
  show ?case
  proof (cases "(s, wrap64 (start + k)) \<in> set occ")
    case True
    with 1 have "k < n" "try_offsets occ start n s (k + 1) = Some q"
      by (auto simp: try_offsets.simps [of occ start n s k] split: if_splits)
    with True 1 obtain k' where k': "k + 1 \<le> k'" "k' < n" "q = wrap64 (start + k')"
      "\<forall>j. k + 1 \<le> j \<and> j < k' \<longrightarrow> (s, wrap64 (start + j)) \<in> set occ"
      by blast
    have "(s, wrap64 (start + j)) \<in> set occ" if "k \<le> j" "j < k'" for j
      using that True k'(4) by (cases "j = k") auto
    with k' show ?thesis by (intro exI [of _ k']) auto
  next
    case False
    with 1(2) show ?thesis
      by (intro exI [of _ k]) (auto simp: try_offsets.simps [of occ start n s k] split: if_splits)
  qed
qed

lemma try_offsets_None:
  assumes "try_offsets occ start n s 0 = None" "0 \<le> j" "j < n"
  shows "(s, wrap64 (start + j)) \<in> set occ"
  using assms by (auto simp: try_offsets_find find_None_iff)

lemma try_shards_Some:
  assumes "try_shards occ start n m s = Some (t, q)"
  shows "s \<le> t \<and> t < m \<and> try_offsets occ start n t 0 = Some q \<and>
    (\<forall>r j. s \<le> r \<and> r < t \<and> 0 \<le> j \<and> j < n \<longrightarrow> (r, wrap64 (start + j)) \<in> set occ)"
  using assms
proof (induction occ start n m s rule: try_shards.induct)
  case (1 occ start n m s)
  show ?case
  proof (cases "try_offsets occ start n s 0")
    case None
    with 1 have "s < m" and
      IH: "s + 1 \<le> t \<and> t < m \<and> try_offsets occ start n t 0 = Some q \<and>
        (\<forall>r j. s + 1 \<le> r \<and> r < t \<and> 0 \<le> j \<and> j < n \<longrightarrow> (r, wrap64 (start + j)) \<in> set occ)"
      by (auto simp: try_shards.simps [of occ start n m s] split: if_splits)
    have "(r, wrap64 (start + j)) \<in> set occ" if "s \<le> r" "r < t" "0 \<le> j" "j < n" for r j
      using that IH try_offsets_None [OF None, of j] by (cases "r = s") auto
    with IH show ?thesis by auto
  next
    case (Some q')
    with 1(2) show ?thesis
      by (auto simp: try_shards.simps [of occ start n m s] split: if_splits)
  qed
qed

lemma first_free_least:
  assumes "first_free occ start n m = Some (t, q)" "0 \<le> start" "start + n \<le> 2 ^ 63"
  shows "0 \<le> t \<and> t < m \<and> start \<le> q \<and> q < start + n \<and>
    (\<forall>r v. 0 \<le> r \<and> r < m \<and> start \<le> v \<and> v < start + n \<and> (r < t \<or> r = t \<and> v < q) \<longrightarrow> (r, v) \<in> set occ)"
proof -
  have w: "wrap64 (start + k) = start + k" if "0 \<le> k" "k < n" for k
    by (rule wrap64_id) (use assms that in \<open>simp add: is_int64_def\<close>)
  have t: "0 \<le> t" "t < m" and off: "try_offsets occ start n t 0 = Some q"
    and rows: "\<And>r j. 0 \<le> r \<Longrightarrow> r < t \<Longrightarrow> 0 \<le> j \<Longrightarrow> j < n \<Longrightarrow> (r, wrap64 (start + j)) \<in> set occ"
    using try_shards_Some [of occ start n m 0 t q] assms(1) by (auto simp: try_shards_first_free)
  obtain k where k: "0 \<le> k" "k < n" "q = wrap64 (start + k)"
    and skipped: "\<And>j. 0 \<le> j \<Longrightarrow> j < k \<Longrightarrow> (t, wrap64 (start + j)) \<in> set occ"
    using try_offsets_Some [OF off] by blast
  have "(r, v) \<in> set occ"
    if "0 \<le> r" "start \<le> v" "v < start + n" "r < t \<or> r = t \<and> v < q" for r v
    using that rows [of r "v - start"] skipped [of "v - start"] w [of "v - start"] w [of k] k
    by auto
  with t k w [of k] show ?thesis by auto
qed

section \<open>The abstract register\<close>

text \<open>
  What a ledger promises, without its representation: every requester has at most one slot and the slot
  may be retired.  A step leaves the register as it is, gives a free slot to a requester without one, or
  retires a slot.  The two controllers refine it.
\<close>

type_synonym register = "string \<rightharpoonup> (int \<times> int) \<times> bool"

inductive register_step :: "(int \<times> int) set \<Rightarrow> register \<Rightarrow> register \<Rightarrow> bool" for U where
  keep: "register_step U r r"
| grant: "r uid = None \<Longrightarrow> x \<in> U \<Longrightarrow> x \<notin> fst ` ran r \<Longrightarrow> register_step U r (r(uid \<mapsto> (x, False)))"
| retire: "r uid = Some (x, b) \<Longrightarrow> register_step U r (r(uid \<mapsto> (x, True)))"

definition register_ok :: "(int \<times> int) set \<Rightarrow> register \<Rightarrow> bool" where
  "register_ok U r \<longleftrightarrow> fst ` ran r \<subseteq> U \<and> (\<forall>u v x b c. r u = Some (x, b) \<longrightarrow> r v = Some (x, c) \<longrightarrow> u = v)"

definition register_extends :: "register \<Rightarrow> register \<Rightarrow> bool" where
  "register_extends r r' \<longleftrightarrow> (\<forall>u x b. r u = Some (x, b) \<longrightarrow> (\<exists>b'. r' u = Some (x, b') \<and> (b \<longrightarrow> b')))"

definition register_of :: "('a \<Rightarrow> int \<times> int) \<Rightarrow> ('a \<Rightarrow> bool) \<Rightarrow> (string, 'a) gomap \<Rightarrow> register" where
  "register_of slot retired m = (\<lambda>uid. map_option (\<lambda>a. (slot a, retired a)) (map_of m uid))"

lemma register_okD: "register_ok U r \<Longrightarrow> r u = Some (x, b) \<Longrightarrow> r v = Some (x, c) \<Longrightarrow> u = v"
  unfolding register_ok_def by blast

lemma register_okI:
  "fst ` ran r \<subseteq> U \<Longrightarrow> (\<And>u v x b c. r u = Some (x, b) \<Longrightarrow> r v = Some (x, c) \<Longrightarrow> u = v) \<Longrightarrow> register_ok U r"
  unfolding register_ok_def by blast

lemma register_ok_range: "register_ok U r \<Longrightarrow> fst ` ran r \<subseteq> U"
  by (simp add: register_ok_def)

lemma register_step_extends: "register_step U r r' \<Longrightarrow> register_extends r r'"
  by (induction rule: register_step.induct) (auto simp: register_extends_def)

lemma register_step_ok: "register_step U r r' \<Longrightarrow> register_ok U r \<Longrightarrow> register_ok U r'"
proof (induction rule: register_step.induct)
  case (grant r uid x)
  have free: "r v \<noteq> Some (x, b)" for v b using grant(3) by (force simp: ran_def)
  show ?case
  proof (rule register_okI)
    have "fst ` ran (r(uid \<mapsto> (x, False))) \<subseteq> insert x (fst ` ran r)" by (force simp: ran_def split: if_splits)
    with grant(2) register_ok_range [OF grant(4)] show "fst ` ran (r(uid \<mapsto> (x, False))) \<subseteq> U" by (meson insert_subset subset_trans)
    fix u v y c d
    assume "(r(uid \<mapsto> (x, False))) u = Some (y, c)" "(r(uid \<mapsto> (x, False))) v = Some (y, d)"
    then show "u = v" using free register_okD [OF grant(4), of u y c v d] by (cases "u = uid"; cases "v = uid") auto
  qed
next
  case (retire r uid x b)
  show ?case
  proof (rule register_okI)
    have "fst ` ran (r(uid \<mapsto> (x, True))) \<subseteq> fst ` ran r"
      using retire(1) by (force simp: ran_def split: if_splits)
    with register_ok_range [OF retire(2)] show "fst ` ran (r(uid \<mapsto> (x, True))) \<subseteq> U" by (meson subset_trans)
    fix u v y c d
    assume "(r(uid \<mapsto> (x, True))) u = Some (y, c)" "(r(uid \<mapsto> (x, True))) v = Some (y, d)"
    then show "u = v"
      using retire(1) register_okD [OF retire(2), of u y "if u = uid then b else c" v "if v = uid then b else d"]
      by (cases "u = uid"; cases "v = uid") auto
  qed
qed simp

lemma register_extends_trans: "register_extends r r' \<Longrightarrow> register_extends r' r'' \<Longrightarrow> register_extends r r''"
  unfolding register_extends_def by metis

lemma register_extends_empty: "register_extends r Map.empty \<Longrightarrow> r = Map.empty"
proof
  fix u
  assume "register_extends r Map.empty"
  then show "r u = None" by (cases "r u") (auto simp: register_extends_def)
qed

lemma register_run_extends: "(register_step U)\<^sup>*\<^sup>* r r' \<Longrightarrow> register_extends r r'"
proof (induction rule: rtranclp_induct)
  case base
  then show ?case by (simp add: register_extends_def)
next
  case (step r' r'')
  then show ?case using register_step_extends register_extends_trans by blast
qed

lemma register_run_ok: "(register_step U)\<^sup>*\<^sup>* r r' \<Longrightarrow> register_ok U r \<Longrightarrow> register_ok U r'"
  by (induction rule: rtranclp_induct) (auto intro: register_step_ok)

text \<open>The point of the register: a slot once given to a requester is never given to another.\<close>

lemma register_never_reuses:
  assumes "register_ok U r'" "register_extends r r'" "r u = Some (x, b)" "r' v = Some (x, c)"
  shows "u = v"
proof -
  obtain b' where "r' u = Some (x, b')" using assms(2,3) unfolding register_extends_def by blast
  then show ?thesis by (rule register_okD [OF assms(1) _ assms(4)])
qed

lemma register_of_ok:
  assumes "ledger_ok slot m" "slot ` snd ` set m \<subseteq> U"
  shows "register_ok U (register_of slot retired m)"
proof -
  have inj: "inj_on (slot \<circ> snd) (set m)" using assms(1) by (simp add: ledger_ok_def distinct_map)
  have "u = v" if "map_of m u = Some a" "map_of m v = Some b" "slot a = slot b" for u v a b
    using inj_onD [OF inj, of "(u, a)" "(v, b)"] that by (auto dest: map_of_SomeD)
  moreover have "fst ` ran (register_of slot retired m) \<subseteq> U"
    using assms(2) by (force simp: register_of_def ran_def dest: map_of_SomeD)
  ultimately show ?thesis by (auto simp: register_ok_def register_of_def)
qed

text \<open>Replacing a lease by one with the same slot, or with the same key among the active leases.\<close>

lemma map_update_same:
  assumes "wf_map m" "map_of m k = Some a" "f a' = f a"
  shows "map (f \<circ> snd) (AList.update k a' m) = map (f \<circ> snd) m"
  using assms by (induction m) (auto simp: wf_map_def split: if_splits dest: map_of_SomeD)

lemma active_keys_update:
  assumes "wf_map m" "map_of m k = Some a" "key a' = key a" "retired a \<Longrightarrow> retired a'"
  shows "set (map key (filter (\<lambda>a. \<not> retired a) (map_values (AList.update k a' m)))) \<subseteq>
      set (map key (filter (\<lambda>a. \<not> retired a) (map_values m))) \<and>
    (distinct (map key (filter (\<lambda>a. \<not> retired a) (map_values m))) \<longrightarrow>
       distinct (map key (filter (\<lambda>a. \<not> retired a) (map_values (AList.update k a' m)))))"
  using assms(1,2)
proof (induction m)
  case (Cons x m)
  obtain k' v where x: "x = (k', v)" by fastforce
  show ?case
  proof (cases "k' = k")
    case True
    then have "v = a" using Cons.prems x by simp
    with True x assms(3,4) show ?thesis by (auto simp: map_values_def)
  next
    case False
    then have "wf_map m" "map_of m k = Some a" using Cons.prems x by (auto simp: wf_map_def)
    with Cons.IH x False show ?thesis by (auto simp: map_values_def)
  qed
qed simp

lemma ledger_ok_update:
  assumes "ledger_ok slot m" "map_of m k = Some a" "slot a' = slot a"
  shows "ledger_ok slot (AList.update k a' m)" "slot ` snd ` set (AList.update k a' m) = slot ` snd ` set m"
proof -
  have wf: "wf_map m" using assms(1) by (simp add: ledger_ok_def)
  note slots = map_update_same [OF wf assms(2,3)]
  show "ledger_ok slot (AList.update k a' m)" using assms(1) slots wf by (simp add: ledger_ok_def)
  show "slot ` snd ` set (AList.update k a' m) = slot ` snd ` set m"
    using arg_cong [OF slots, of set] by (simp add: image_comp)
qed

lemma register_of_update:
  "register_of slot retired (AList.update k a m) = (register_of slot retired m)(k \<mapsto> (slot a, retired a))"
  by (auto simp: register_of_def map_of_AList_update fun_eq_iff)

section \<open>The contract of one request\<close>

locale lease_ledger =
  fixes leases :: "'p \<Rightarrow> (string, 'a) gomap"
    and slot :: "'a \<Rightarrow> int \<times> int"
    and retired :: "'a \<Rightarrow> bool"
    and requester :: "'r \<Rightarrow> string"
    and grant :: "'p \<Rightarrow> 'r \<Rightarrow> go_error + ('a \<times> 'p)"
  assumes grant_held:
      "map_of (leases p) (requester r) = Some a \<Longrightarrow> grant p r = Inr (a', p') \<Longrightarrow> a' = a \<and> p' = p"
    and grant_fresh:
      "map_of (leases p) (requester r) = None \<Longrightarrow> grant p r = Inr (a, p') \<Longrightarrow>
         leases p' = leases p @ [(requester r, a)] \<and> slot a \<notin> slot ` snd ` set (leases p) \<and> \<not> retired a"
begin

lemma grant_extends:
  assumes "grant p r = Inr (a, p')"
  shows "\<exists>new. leases p' = leases p @ new"
proof (cases "map_of (leases p) (requester r)")
  case None
  then show ?thesis using grant_fresh assms by blast
next
  case (Some a0)
  have "p' = p" using grant_held [OF Some assms] by blast
  then show ?thesis by simp
qed

lemma grant_recorded:
  assumes "grant p r = Inr (a, p')"
  shows "map_of (leases p') (requester r) = Some a"
proof (cases "map_of (leases p) (requester r)")
  case None
  have "leases p' = leases p @ [(requester r, a)]" using grant_fresh [OF None assms] by blast
  with None show ?thesis by (simp add: map_add_def)
next
  case (Some a0)
  with grant_held [OF Some assms] show ?thesis by simp
qed

lemma grant_ok:
  assumes "ledger_ok slot (leases p)" "grant p r = Inr (a, p')"
  shows "ledger_ok slot (leases p')"
proof (cases "map_of (leases p) (requester r)")
  case None
  with assms(2) have "leases p' = leases p @ [(requester r, a)]" "slot a \<notin> slot ` snd ` set (leases p)"
    using grant_fresh by blast+
  with None assms(1) show ?thesis
    by (auto simp: ledger_ok_def wf_map_def map_of_eq_None_iff)
next
  case (Some a0)
  have "p' = p" using grant_held [OF Some assms(2)] by blast
  with assms(1) show ?thesis by simp
qed

lemma serve_extends: "\<exists>new. leases (serve grant p rs) = leases p @ new"
proof (induction rs arbitrary: p)
  case Nil
  then show ?case by simp
next
  case (Cons r rs)
  show ?case
  proof (cases "grant p r")
    case (Inl e)
    then show ?thesis using Cons [of p] by simp
  next
    case (Inr ap)
    obtain a p' where ap: "ap = (a, p')" by (cases ap)
    obtain new where "leases p' = leases p @ new" using grant_extends Inr ap by blast
    moreover obtain new' where "leases (serve grant p' rs) = leases p' @ new'" using Cons by blast
    ultimately show ?thesis using Inr ap by auto
  qed
qed

lemma serve_ok: "ledger_ok slot (leases p) \<Longrightarrow> ledger_ok slot (leases (serve grant p rs))"
proof (induction rs arbitrary: p)
  case Nil
  then show ?case by simp
next
  case (Cons r rs)
  then show ?case by (auto split: sum.splits prod.splits dest: grant_ok)
qed

lemma serve_keeps:
  assumes "map_of (leases p) uid = Some a"
  shows "map_of (leases (serve grant p rs)) uid = Some a"
proof -
  obtain new where "leases (serve grant p rs) = leases p @ new" using serve_extends by blast
  with assms show ?thesis by (simp add: map_add_def)
qed

text \<open>
  However many requests are served in between, a later grant to another requester never reuses the
  slot of an earlier lease, retired or not.
\<close>

lemma serve_never_reuses:
  assumes ok: "ledger_ok slot (leases p)"
    and held: "map_of (leases p) uid = Some a"
    and later: "grant (serve grant p rs) r = Inr (b, p')"
    and other: "requester r \<noteq> uid"
  shows "slot b \<noteq> slot a"
proof
  assume same: "slot b = slot a"
  let ?q = "serve grant p rs"
  have ok': "ledger_ok slot (leases p')"
    using grant_ok [OF serve_ok [OF ok] later] .
  have "map_of (leases p') (requester r) = Some b"
    using grant_recorded [OF later] .
  moreover have "map_of (leases p') uid = Some a"
  proof -
    obtain new where "leases p' = leases ?q @ new" using grant_extends [OF later] by blast
    with serve_keeps [OF held, of rs] show ?thesis by (simp add: map_add_def)
  qed
  ultimately have "(requester r, b) \<in> set (leases p')" "(uid, a) \<in> set (leases p')"
    by (auto dest: map_of_SomeD)
  with ok' same other show False
    by (force simp: ledger_ok_def distinct_map inj_on_def)
qed

end

text \<open>An allocator whose slots come from a finite set cannot hold more leases than slots.\<close>

locale bounded_ledger = lease_ledger leases slot retired requester grant
  for leases :: "'p \<Rightarrow> (string, 'a) gomap"
    and slot :: "'a \<Rightarrow> int \<times> int"
    and retired :: "'a \<Rightarrow> bool"
    and requester :: "'r \<Rightarrow> string"
    and grant :: "'p \<Rightarrow> 'r \<Rightarrow> go_error + ('a \<times> 'p)" +
  fixes slots :: "'p \<Rightarrow> (int \<times> int) set"
  assumes finite_slots: "finite (slots p)"
    and grant_slots: "grant p r = Inr (a, p') \<Longrightarrow> slots p' = slots p"
    and grant_in_slots:
      "map_of (leases p) (requester r) = None \<Longrightarrow> grant p r = Inr (a, p') \<Longrightarrow> slot a \<in> slots p"
begin

lemma grant_stays_in_slots:
  assumes "slot ` snd ` set (leases p) \<subseteq> slots p" "grant p r = Inr (a, p')"
  shows "slot ` snd ` set (leases p') \<subseteq> slots p'"
proof (cases "map_of (leases p) (requester r)")
  case None
  have "leases p' = leases p @ [(requester r, a)]" using grant_fresh [OF None assms(2)] by blast
  moreover have "slot a \<in> slots p" by (rule grant_in_slots [OF None assms(2)])
  ultimately show ?thesis using assms(1) grant_slots [OF assms(2)] by auto
next
  case (Some a0)
  have "p' = p" using grant_held [OF Some assms(2)] by blast
  with assms(1) show ?thesis by simp
qed

lemma serve_in_slots:
  "slot ` snd ` set (leases p) \<subseteq> slots p \<Longrightarrow>
   slot ` snd ` set (leases (serve grant p rs)) \<subseteq> slots p \<and> slots (serve grant p rs) = slots p"
proof (induction rs arbitrary: p)
  case Nil
  then show ?case by simp
next
  case (Cons r rs)
  show ?case
  proof (cases "grant p r")
    case (Inl e)
    then show ?thesis using Cons by simp
  next
    case (Inr ap)
    obtain a p' where ap: "ap = (a, p')" by (cases ap)
    have "slots p' = slots p" using grant_slots Inr ap by blast
    moreover have "slot ` snd ` set (leases p') \<subseteq> slots p'"
      using grant_stays_in_slots Cons.prems Inr ap by blast
    ultimately show ?thesis using Cons.IH [of p'] Inr ap by simp
  qed
qed

lemma leases_bounded:
  assumes "ledger_ok slot (leases p)" "slot ` snd ` set (leases p) \<subseteq> slots p"
  shows "length (leases p) \<le> card (slots p)"
proof -
  have "length (leases p) = card (set (map (slot \<circ> snd) (leases p)))"
    using assms(1) by (metis distinct_card ledger_ok_def length_map)
  also have "\<dots> \<le> card (slots p)"
    using assms(2) by (intro card_mono finite_slots) (auto simp: image_comp)
  finally show ?thesis .
qed

text \<open>A grant is a step of the register.\<close>

lemma grant_register_step:
  assumes "grant p r = Inr (a, p')"
  shows "register_step (slots p) (register_of slot retired (leases p)) (register_of slot retired (leases p'))"
proof (cases "map_of (leases p) (requester r)")
  case None
  have new: "leases p' = leases p @ [(requester r, a)]" "slot a \<notin> slot ` snd ` set (leases p)" "\<not> retired a"
    using grant_fresh [OF None assms] by blast+
  have "register_of slot retired (leases p') = (register_of slot retired (leases p))(requester r \<mapsto> (slot a, False))"
    using None new by (auto simp: register_of_def map_add_def fun_eq_iff split: option.split)
  moreover have "slot a \<notin> fst ` ran (register_of slot retired (leases p))"
    using new(2) by (force simp: register_of_def ran_def dest: map_of_SomeD)
  ultimately show ?thesis
    using None grant_in_slots [OF None assms] by (auto intro: register_step.grant simp: register_of_def)
next
  case (Some a0)
  have "p' = p" using grant_held [OF Some assms] by blast
  then show ?thesis by (simp add: register_step.keep)
qed

end

end
