(* ===== verification/Sha256.thy ===== *)
theory Sha256
  imports Prelude "HOL-Library.Word"
begin

text \<open>
  \<^verbatim>\<open>crypto/sha256\<close> of Go's standard library, as FIPS 180-4 specifies it, on lists of bytes.  The
  controller names every cloud object and generated Kubernetes object by the first twelve bytes of
  a digest, printed in hexadecimal (\<^verbatim>\<open>fmt.Sprintf("%x", h[:12])\<close>): \<open>sha_hex12\<close>.  The fact the
  other theories use is that such a name has exactly 24 characters.
\<close>

unbundle bit_operations_syntax

type_synonym word32 = "32 word"

definition sha_k :: "word32 list" where
  "sha_k = [
   1116352408, 1899447441, 3049323471, 3921009573, 961987163, 1508970993,
   2453635748, 2870763221, 3624381080, 310598401, 607225278, 1426881987,
   1925078388, 2162078206, 2614888103, 3248222580, 3835390401, 4022224774,
   264347078, 604807628, 770255983, 1249150122, 1555081692, 1996064986,
   2554220882, 2821834349, 2952996808, 3210313671, 3336571891, 3584528711,
   113926993, 338241895, 666307205, 773529912, 1294757372, 1396182291,
   1695183700, 1986661051, 2177026350, 2456956037, 2730485921, 2820302411,
   3259730800, 3345764771, 3516065817, 3600352804, 4094571909, 275423344,
   430227734, 506948616, 659060556, 883997877, 958139571, 1322822218,
   1537002063, 1747873779, 1955562222, 2024104815, 2227730452, 2361852424,
   2428436474, 2756734187, 3204031479, 3329325298]"

definition sha_h0 :: "word32 list" where
  "sha_h0 = [1779033703, 3144134277, 1013904242, 2773480762,
   1359893119, 2600822924, 528734635, 1541459225]"

definition rotr :: "nat \<Rightarrow> word32 \<Rightarrow> word32" where
  "rotr n x = drop_bit n x OR push_bit (32 - n) x"

definition small_sigma0 :: "word32 \<Rightarrow> word32" where
  "small_sigma0 x = rotr 7 x XOR rotr 18 x XOR drop_bit 3 x"

definition small_sigma1 :: "word32 \<Rightarrow> word32" where
  "small_sigma1 x = rotr 17 x XOR rotr 19 x XOR drop_bit 10 x"

definition big_sigma0 :: "word32 \<Rightarrow> word32" where
  "big_sigma0 x = rotr 2 x XOR rotr 13 x XOR rotr 22 x"

definition big_sigma1 :: "word32 \<Rightarrow> word32" where
  "big_sigma1 x = rotr 6 x XOR rotr 11 x XOR rotr 25 x"

definition sha_ch :: "word32 \<Rightarrow> word32 \<Rightarrow> word32 \<Rightarrow> word32" where
  "sha_ch e f g = (e AND f) XOR (NOT e AND g)"

definition sha_maj :: "word32 \<Rightarrow> word32 \<Rightarrow> word32 \<Rightarrow> word32" where
  "sha_maj a b c = (a AND b) XOR (a AND c) XOR (b AND c)"

text \<open>Padding to a multiple of 64 bytes: 128, zeros, and the bit length in eight bytes.\<close>

definition sha_pad :: "nat list \<Rightarrow> nat list" where
  "sha_pad bs =
     bs @ [128] @ replicate ((119 - length bs mod 64) mod 64) 0
        @ map (\<lambda>i. (8 * length bs) div 256 ^ (7 - i) mod 256) [0..<8]"

fun words_of :: "nat list \<Rightarrow> word32 list" where
  "words_of (a # b # c # d # bs) = of_nat (((a * 256 + b) * 256 + c) * 256 + d) # words_of bs"
| "words_of _ = []"

fun chunks16 :: "'a list \<Rightarrow> 'a list list" where
  "chunks16 [] = []"
| "chunks16 (x # xs) = take 16 (x # xs) # chunks16 (drop 15 xs)"

text \<open>The message schedule is a window of sixteen words that advances by one word a round.\<close>

fun next_window :: "word32 list \<Rightarrow> word32 list" where
  "next_window [w0, w1, w2, w3, w4, w5, w6, w7, w8, w9, w10, w11, w12, w13, w14, w15] =
     [w1, w2, w3, w4, w5, w6, w7, w8, w9, w10, w11, w12, w13, w14, w15,
      small_sigma1 w14 + w9 + small_sigma0 w1 + w0]"
| "next_window ws = ws"

fun round_t1 :: "word32 list \<Rightarrow> word32 \<Rightarrow> word32" where
  "round_t1 [a, b, c, d, e, f, g, h] kw = h + big_sigma1 e + sha_ch e f g + kw"
| "round_t1 st kw = kw"

fun round_out :: "word32 list \<Rightarrow> word32 \<Rightarrow> word32 list" where
  "round_out [a, b, c, d, e, f, g, h] t1 =
     [t1 + (big_sigma0 a + sha_maj a b c), a, b, c, d + t1, e, f, g]"
| "round_out st t1 = st"

fun rounds :: "word32 list \<Rightarrow> word32 list \<Rightarrow> word32 list \<Rightarrow> word32 list" where
  "rounds (k # ks) ws st = rounds ks (next_window ws) (round_out st (round_t1 st (k + hd ws)))"
| "rounds [] ws st = st"

definition compress :: "word32 list \<Rightarrow> word32 list \<Rightarrow> word32 list" where
  "compress st chunk = map2 (+) st (rounds sha_k chunk st)"

definition sha256_words :: "nat list \<Rightarrow> word32 list" where
  "sha256_words bs = foldl compress sha_h0 (chunks16 (words_of (sha_pad bs)))"

definition bytes_of_word :: "word32 \<Rightarrow> nat list" where
  "bytes_of_word w =
     [unat w div 16777216 mod 256, unat w div 65536 mod 256, unat w div 256 mod 256, unat w mod 256]"

definition sha256 :: "string \<Rightarrow> nat list" where
  "sha256 s = concat (map bytes_of_word (sha256_words (map of_char s)))"

definition hex_digit :: "nat \<Rightarrow> char" where
  "hex_digit d = (if d < 10 then char_of (48 + d) else char_of (87 + d))"

definition hex_byte :: "nat \<Rightarrow> string" where
  "hex_byte b = [hex_digit (b div 16), hex_digit (b mod 16)]"

definition sha_hex12 :: "string \<Rightarrow> string" where
  "sha_hex12 s = concat (map hex_byte (take 12 (sha256 s)))"

section \<open>The shape of a generated name\<close>

lemma length_round_out: "length (round_out st t) = length st"
  by (induction st t rule: round_out.induct) simp_all

lemma length_rounds: "length (rounds ks ws st) = length st"
  by (induction ks ws st rule: rounds.induct) (simp_all add: length_round_out)

lemma length_compress: "length (compress st chunk) = length st"
  by (simp add: compress_def length_rounds)

lemma length_sha256_words: "length (sha256_words bs) = 8"
proof -
  have "length (foldl compress st cs) = length st" for st cs
    by (induction cs arbitrary: st) (simp_all add: length_compress)
  then show ?thesis by (simp add: sha256_words_def sha_h0_def)
qed

lemma length_sha256: "length (sha256 s) = 32"
proof -
  have "length (concat (map bytes_of_word ws)) = 4 * length ws" for ws
    by (induction ws) (simp_all add: bytes_of_word_def)
  then show ?thesis by (simp add: sha256_def length_sha256_words)
qed

lemma length_sha_hex12: "length (sha_hex12 s) = 24"
proof -
  have "length (concat (map hex_byte bs)) = 2 * length bs" for bs
    by (induction bs) (simp_all add: hex_byte_def)
  then show ?thesis by (simp add: sha_hex12_def length_sha256)
qed

lemma sha_hex12_nonempty [simp]: "sha_hex12 s \<noteq> []"
  using length_sha_hex12 [of s] by auto

end
