(* ===== verification/Allocation.thy ===== *)
theory Allocation
  imports Api_Types Lease_Ledger Sha256
begin

text \<open>
  \<^verbatim>\<open>internalcontroller/allocation.go\<close>: the validation of a pool specification and the allocator that
  leases a public port on a shard to a binding.  The allocator satisfies the contract of
  \<open>lease_ledger\<close>, and of \<open>bounded_ledger\<close> on the slots of its pool; the properties of sequences of
  allocations come from there.
\<close>

section \<open>Definitions\<close>

definition workerLimit :: "pool_spec \<Rightarrow> int" where
  "workerLimit s = (if ps_MaxWorkers s = 0 then 20 else ps_MaxWorkers s)"

definition validateMode :: "pool_spec \<Rightarrow> go_error option" where
  "validateMode s =
     (if ps_AllocationMode s = '''' \<or> ps_AllocationMode s = ''Dynamic'' then
        (if ps_PortStart s < 1024 \<or> 65535 < wrap64 (wrap64 (ps_PortStart s + ps_Occupancy s) - 1)
         then Some (Errorf ''invalid dynamic port bounds'') else None)
      else if ps_AllocationMode s = ''Explicit'' then
        (if ps_MaxShards s \<noteq> 1 \<or> ps_PortStart s \<noteq> 1
         then Some (Errorf ''Explicit pools require maxShards=1 and portStart=1'') else None)
      else Some (Errorf ''unsupported allocationMode''))"

definition ValidatePool :: "pool_spec \<Rightarrow> go_error option" where
  "ValidatePool s =
     (if ps_MaxWorkers s < 0 \<or> 512 < ps_MaxWorkers s \<or> 1024 < wrap64 (ps_Occupancy s * workerLimit s)
      then Some (Errorf ''worker capacity requires occupancy * maxWorkers <= 1024; maxWorkers defaults to 20 and includes surge'')
      else if ps_Occupancy s < 1 \<or> 50 < ps_Occupancy s \<or> ps_MaxShards s < 1 \<or> 100 < ps_MaxShards s
      then Some (Errorf ''invalid pool capacity/port bounds'')
      else (case validateMode s of
              Some e \<Rightarrow> Some e
            | None \<Rightarrow>
                (if ps_CompartmentID s = '''' \<or> ps_SubnetID s = ''''
                 then Some (Errorf ''compartment and subnet required'') else None)))"

text \<open>The name of a lease's listener and backend set: \<^verbatim>\<open>fmt.Sprintf("t-%x", h[:12])\<close>.\<close>

definition leaseName :: "string \<Rightarrow> string" where
  "leaseName uid = ''t-'' @ sha_hex12 uid"

text \<open>The loop over the ledger: it refuses a Service port in use and collects the occupied slots.\<close>

fun scanLeases :: "allocation list \<Rightarrow> string \<Rightarrow> string \<Rightarrow> (int \<times> int) list \<Rightarrow>
    go_error + (int \<times> int) list" where
  "scanLeases [] serviceUID portName occupied = Inr occupied"
| "scanLeases (a # as) serviceUID portName occupied =
     (if \<not> al_Tombstone a \<and> al_ServiceUID a = serviceUID \<and> al_PortName a = portName
      then Inl (Errorf (''Service port already has an active binding in this pool: '' @ al_BindingName a))
      else scanLeases as serviceUID portName ((al_Shard a, al_Port a) # occupied))"

definition newAllocation :: "tunnel_binding \<Rightarrow> string \<Rightarrow> int \<Rightarrow> int \<Rightarrow> allocation" where
  "newAllocation b serviceUID shard port =
     \<lparr>al_BindingName = om_Name (tb_Meta b), al_ServiceName = bs_Service (tb_Spec b),
      al_ServiceUID = serviceUID, al_PortName = bs_PortName (tb_Spec b), al_Mode = bs_Mode (tb_Spec b),
      al_Shard = shard, al_Port = port, al_Name = leaseName (binding_uid b), al_Tombstone = False,
      al_NodePort = 0\<rparr>"

definition allocateSlot :: "nlb_pool \<Rightarrow> tunnel_binding \<Rightarrow> string \<Rightarrow> (int \<times> int) list \<Rightarrow>
    go_error + (allocation \<times> nlb_pool)" where
  "allocateSlot p b serviceUID occupied =
     (let grantAt = (\<lambda>shard port.
            let a = newAllocation b serviceUID shard port
            in Inr (a, put_allocation (binding_uid b) a p))
      in if ps_AllocationMode (np_Spec p) = ''Explicit'' then
           (if (0, bs_RequestedPort (tb_Spec b)) \<in> set occupied
            then Inl (Errorf ''requested port already leased, including permanent tombstones'')
            else if ps_Occupancy (np_Spec p) \<le> int (length (pool_allocations p))
            then Inl (Errorf ''pool exhausted (including unreusable tombstones)'')
            else grantAt 0 (bs_RequestedPort (tb_Spec b)))
         else (case try_shards occupied (ps_PortStart (np_Spec p)) (ps_Occupancy (np_Spec p))
                      (ps_MaxShards (np_Spec p)) 0 of
                 Some (shard, port) \<Rightarrow> grantAt shard port
               | None \<Rightarrow> Inl (Errorf ''pool exhausted (including unreusable tombstones)'')))"

definition requestedPortError :: "nlb_pool \<Rightarrow> tunnel_binding \<Rightarrow> go_error option" where
  "requestedPortError p b =
     (if ps_AllocationMode (np_Spec p) = ''Explicit'' then
        (if bs_RequestedPort (tb_Spec b) < 1 \<or> 65535 < bs_RequestedPort (tb_Spec b)
         then Some (Errorf ''Explicit allocation requires requestedPort in 1..65535'') else None)
      else if bs_RequestedPort (tb_Spec b) \<noteq> 0
      then Some (Errorf ''requestedPort requires an Explicit pool'') else None)"

definition Allocate :: "nlb_pool \<Rightarrow> tunnel_binding \<Rightarrow> string \<Rightarrow> go_error + (allocation \<times> nlb_pool)" where
  "Allocate p b serviceUID =
     (if bs_Suspended (tb_Spec b) then Inl (Errorf ''binding suspended'')
      else (case ValidatePool (np_Spec p) of Some e \<Rightarrow> Inl e | None \<Rightarrow>
        if binding_uid b = '''' \<or> serviceUID = '''' then Inl (Errorf ''binding and Service UIDs required'')
        else (case requestedPortError p b of Some e \<Rightarrow> Inl e | None \<Rightarrow>
          (case map_of (pool_allocations p) (binding_uid b) of
             Some a \<Rightarrow>
               (if ps_AllocationMode (np_Spec p) = ''Explicit'' \<and> al_Port a \<noteq> bs_RequestedPort (tb_Spec b)
                then Inl (Errorf ''requestedPort immutable after allocation'') else Inr (a, p))
           | None \<Rightarrow>
               (case scanLeases (map_values (pool_allocations p)) serviceUID (bs_PortName (tb_Spec b)) [] of
                  Inl e \<Rightarrow> Inl e
                | Inr occupied \<Rightarrow> allocateSlot p b serviceUID occupied)))))"

section \<open>Reference notions\<close>

text \<open>
  What a valid pool is, in unbounded arithmetic; this is the rule set of the custom resource
  definition in \<^verbatim>\<open>deploy/nlbpools.json\<close>.
\<close>

definition pool_spec_ok :: "pool_spec \<Rightarrow> bool" where
  "pool_spec_ok s \<longleftrightarrow>
     0 \<le> ps_MaxWorkers s \<and> ps_MaxWorkers s \<le> 512 \<and> ps_Occupancy s * workerLimit s \<le> 1024 \<and>
     1 \<le> ps_Occupancy s \<and> ps_Occupancy s \<le> 50 \<and> 1 \<le> ps_MaxShards s \<and> ps_MaxShards s \<le> 100 \<and>
     (if ps_AllocationMode s = ''Explicit'' then ps_MaxShards s = 1 \<and> ps_PortStart s = 1
      else (ps_AllocationMode s = '''' \<or> ps_AllocationMode s = ''Dynamic'') \<and>
           1024 \<le> ps_PortStart s \<and> ps_PortStart s + ps_Occupancy s - 1 \<le> 65535) \<and>
     ps_CompartmentID s \<noteq> '''' \<and> ps_SubnetID s \<noteq> ''''"

definition alloc_slot :: "allocation \<Rightarrow> int \<times> int" where
  "alloc_slot a = (al_Shard a, al_Port a)"

definition pool_slots :: "nlb_pool \<Rightarrow> (int \<times> int) set" where
  "pool_slots p =
     (if ps_AllocationMode (np_Spec p) = ''Explicit'' then {0} \<times> {1..65535}
      else set (slot_order (ps_PortStart (np_Spec p)) (ps_Occupancy (np_Spec p)) (ps_MaxShards (np_Spec p))))"

definition pool_capacity :: "nlb_pool \<Rightarrow> int" where
  "pool_capacity p = ps_Occupancy (np_Spec p) * ps_MaxShards (np_Spec p)"

text \<open>No Service port has two active leases.\<close>

definition service_ports_unique :: "(string, allocation) gomap \<Rightarrow> bool" where
  "service_ports_unique m \<longleftrightarrow>
     distinct (map (\<lambda>a. (al_ServiceUID a, al_PortName a)) (filter (\<lambda>a. \<not> al_Tombstone a) (map_values m)))"

text \<open>The invariant of a pool whose specification was accepted.\<close>

definition pool_ok :: "nlb_pool \<Rightarrow> bool" where
  "pool_ok p \<longleftrightarrow>
     pool_spec_ok (np_Spec p) \<and> ledger_ok alloc_slot (pool_allocations p) \<and>
     alloc_slot ` snd ` set (pool_allocations p) \<subseteq> pool_slots p \<and>
     int (length (pool_allocations p)) \<le> pool_capacity p \<and>
     service_ports_unique (pool_allocations p) \<and>
     (\<forall>(uid, a) \<in> set (pool_allocations p). al_Name a = leaseName uid)"

lemma pool_ok_cong:
  "np_Spec p = np_Spec q \<Longrightarrow> pool_allocations p = pool_allocations q \<Longrightarrow> pool_ok p \<longleftrightarrow> pool_ok q"
  unfolding pool_ok_def pool_slots_def pool_capacity_def by simp

section \<open>Validation\<close>

lemma wrap64_top:
  assumes "0 \<le> x" "x < 2 ^ 63 + 2 ^ 62"
  shows "wrap64 (wrap64 x - 1) =
    (if x < 2 ^ 63 then x - 1 else if x = 2 ^ 63 then 2 ^ 63 - 1 else x - 2 ^ 64 - 1)"
proof -
  have "wrap64 x = (if x < 2 ^ 63 then x else x - 2 ^ 64)"
  proof (cases "x < 2 ^ 63")
    case True
    with assms show ?thesis by (intro trans [OF wrap64_id]) (simp_all add: is_int64_def)
  next
    case False
    then have "(x + 2 ^ 63) mod 2 ^ 64 = (x - 2 ^ 63) mod 2 ^ 64"
      using mod_add_self2 [of "x - 2 ^ 63" "2 ^ 64 :: int"] by (simp add: add.commute)
    with False assms show ?thesis by (simp add: wrap64_def)
  qed
  then show ?thesis
    using assms wrap64_id [of "wrap64 x - 1"] by (auto simp: is_int64_def wrap64_def)
qed

lemma workerLimit_range:
  "0 \<le> ps_MaxWorkers s \<Longrightarrow> ps_MaxWorkers s \<le> 512 \<Longrightarrow> 1 \<le> workerLimit s \<and> workerLimit s \<le> 512"
  by (simp add: workerLimit_def)

lemma product_no_wrap:
  assumes "0 \<le> ps_MaxWorkers s" "ps_MaxWorkers s \<le> 512" "1 \<le> ps_Occupancy s" "ps_Occupancy s \<le> 50"
  shows "wrap64 (ps_Occupancy s * workerLimit s) = ps_Occupancy s * workerLimit s"
proof (rule wrap64_small)
  have w: "1 \<le> workerLimit s" "workerLimit s \<le> 512" using workerLimit_range assms by auto
  have "ps_Occupancy s * workerLimit s \<le> 50 * 512" using w assms by (intro mult_mono) auto
  moreover have "0 \<le> ps_Occupancy s * workerLimit s" using w assms by simp
  ultimately show "\<bar>ps_Occupancy s * workerLimit s\<bar> \<le> 1000000000" by simp
qed

lemma ValidatePool_core:
  "ValidatePool s = None \<longleftrightarrow>
     0 \<le> ps_MaxWorkers s \<and> ps_MaxWorkers s \<le> 512 \<and> ps_Occupancy s * workerLimit s \<le> 1024 \<and>
     1 \<le> ps_Occupancy s \<and> ps_Occupancy s \<le> 50 \<and> 1 \<le> ps_MaxShards s \<and> ps_MaxShards s \<le> 100 \<and>
     validateMode s = None \<and> ps_CompartmentID s \<noteq> '''' \<and> ps_SubnetID s \<noteq> ''''"
  using product_no_wrap [of s] by (auto simp: ValidatePool_def split: option.splits)

lemma validateMode_plain:
  assumes "ps_PortStart s \<le> 65535" "1 \<le> ps_Occupancy s" "ps_Occupancy s \<le> 50"
  shows "validateMode s = None \<longleftrightarrow>
    (if ps_AllocationMode s = ''Explicit'' then ps_MaxShards s = 1 \<and> ps_PortStart s = 1
     else (ps_AllocationMode s = '''' \<or> ps_AllocationMode s = ''Dynamic'') \<and>
          1024 \<le> ps_PortStart s \<and> ps_PortStart s + ps_Occupancy s - 1 \<le> 65535)"
proof (cases "1024 \<le> ps_PortStart s")
  case True
  with assms have "wrap64 (wrap64 (ps_PortStart s + ps_Occupancy s) - 1) = ps_PortStart s + ps_Occupancy s - 1"
    by simp
  with True show ?thesis by (auto simp: validateMode_def)
next
  case False
  then show ?thesis by (auto simp: validateMode_def)
qed

lemma ValidatePool_iff_ok:
  "ps_PortStart s \<le> 65535 \<Longrightarrow> ValidatePool s = None \<longleftrightarrow> pool_spec_ok s"
  using validateMode_plain [of s] by (auto simp: ValidatePool_core pool_spec_ok_def)

lemma pool_spec_ok_PortStart: "pool_spec_ok s \<Longrightarrow> 1 \<le> ps_PortStart s \<and> ps_PortStart s \<le> 65535"
  by (auto simp: pool_spec_ok_def split: if_splits)

lemma pool_spec_ok_valid: "pool_spec_ok s \<Longrightarrow> ValidatePool s = None"
  using ValidatePool_iff_ok pool_spec_ok_PortStart by blast

lemma pool_ok_empty: "pool_spec_ok (np_Spec p) \<Longrightarrow> pool_allocations p = [] \<Longrightarrow> pool_ok p"
  by (auto simp: pool_ok_def pool_capacity_def pool_spec_ok_def ledger_ok_def wf_map_def service_ports_unique_def map_values_def)

section \<open>One allocation\<close>

lemma scanLeases_Inr:
  "scanLeases as u pn occ = Inr occ' \<longleftrightarrow>
     (\<forall>a \<in> set as. al_Tombstone a \<or> al_ServiceUID a \<noteq> u \<or> al_PortName a \<noteq> pn) \<and>
     occ' = rev (map alloc_slot as) @ occ"
  by (induction as u pn occ rule: scanLeases.induct) (auto simp: alloc_slot_def)

lemma scanLeases_set:
  "scanLeases as u pn [] = Inr occ' \<Longrightarrow> set occ' = alloc_slot ` set as"
  by (simp add: scanLeases_Inr)

lemma allocateSlot_Inr:
  assumes "allocateSlot p b u occ = Inr (a, p')"
  obtains shard port where
    "a = newAllocation b u shard port" "p' = put_allocation (binding_uid b) a p"
    "(shard, port) \<notin> set occ"
    "ps_AllocationMode (np_Spec p) = ''Explicit'' \<longrightarrow>
       shard = 0 \<and> port = bs_RequestedPort (tb_Spec b) \<and>
       int (length (pool_allocations p)) < ps_Occupancy (np_Spec p)"
    "ps_AllocationMode (np_Spec p) \<noteq> ''Explicit'' \<longrightarrow>
       first_free occ (ps_PortStart (np_Spec p)) (ps_Occupancy (np_Spec p)) (ps_MaxShards (np_Spec p))
         = Some (shard, port)"
  using assms
  by (auto simp: allocateSlot_def Let_def try_shards_first_free split: if_splits option.splits
      dest: first_free_Some)

lemma Allocate_fresh:
  assumes "map_of (pool_allocations p) (binding_uid b) = None" "Allocate p b u = Inr (a, p')"
  shows "allocateSlot p b u (rev (map (alloc_slot \<circ> snd) (pool_allocations p))) = Inr (a, p')"
    and "ValidatePool (np_Spec p) = None" and "requestedPortError p b = None"
    and "\<forall>c \<in> snd ` set (pool_allocations p).
       al_Tombstone c \<or> al_ServiceUID c \<noteq> u \<or> al_PortName c \<noteq> bs_PortName (tb_Spec b)"
  using assms
  by (auto simp: Allocate_def map_values_def scanLeases_Inr split: if_splits option.splits sum.splits)

lemma Allocate_held:
  assumes "map_of (pool_allocations p) (binding_uid b) = Some a" "Allocate p b u = Inr (a', p')"
  shows "a' = a \<and> p' = p"
  using assms by (auto simp: Allocate_def split: if_splits option.splits)

lemma alloc_slot_new [simp]: "alloc_slot (newAllocation b u s q) = (s, q)"
  by (simp add: alloc_slot_def newAllocation_def)

lemma Allocate_fresh_spec:
  assumes "map_of (pool_allocations p) (binding_uid b) = None" "Allocate p b u = Inr (a, p')"
  shows "pool_allocations p' = pool_allocations p @ [(binding_uid b, a)]"
    and "np_Spec p' = np_Spec p"
    and "alloc_slot a \<notin> alloc_slot ` snd ` set (pool_allocations p)"
    and "\<not> al_Tombstone a"
    and "al_Name a = leaseName (binding_uid b)"
    and "al_ServiceUID a = u" "al_PortName a = bs_PortName (tb_Spec b)"
    and "alloc_slot a \<in> pool_slots p"
proof -
  let ?occ = "rev (map (alloc_slot \<circ> snd) (pool_allocations p))"
  obtain shard port where a: "a = newAllocation b u shard port"
    and p': "p' = put_allocation (binding_uid b) a p" and free: "(shard, port) \<notin> set ?occ"
    and explicit: "ps_AllocationMode (np_Spec p) = ''Explicit'' \<longrightarrow>
       shard = 0 \<and> port = bs_RequestedPort (tb_Spec b) \<and>
       int (length (pool_allocations p)) < ps_Occupancy (np_Spec p)"
    and dynamic: "ps_AllocationMode (np_Spec p) \<noteq> ''Explicit'' \<longrightarrow>
       first_free ?occ (ps_PortStart (np_Spec p)) (ps_Occupancy (np_Spec p)) (ps_MaxShards (np_Spec p))
         = Some (shard, port)"
    by (rule allocateSlot_Inr [OF Allocate_fresh(1) [OF assms]])
  show "pool_allocations p' = pool_allocations p @ [(binding_uid b, a)]"
    using assms(1) by (simp add: p' AList_update_fresh)
  show "np_Spec p' = np_Spec p" by (simp add: p')
  show "alloc_slot a \<notin> alloc_slot ` snd ` set (pool_allocations p)" using a free by (simp add: image_comp)
  show "\<not> al_Tombstone a" "al_Name a = leaseName (binding_uid b)" "al_ServiceUID a = u"
    "al_PortName a = bs_PortName (tb_Spec b)"
    by (simp_all add: a newAllocation_def)
  show "alloc_slot a \<in> pool_slots p"
    using explicit dynamic Allocate_fresh(3) [OF assms]
    by (auto simp: a pool_slots_def requestedPortError_def split: if_splits dest: first_free_Some(1))
qed

text \<open>The allocator satisfies the ledger contract; a request is a binding with its Service's UID.\<close>

interpretation pool_ledger: bounded_ledger
  "\<lambda>p. pool_allocations p" alloc_slot al_Tombstone "\<lambda>(b, u). binding_uid b"
  "\<lambda>p (b, u). Allocate p b u" pool_slots
proof (unfold_locales, goal_cases)
  case (1 p r a a' p')
  then show ?case using Allocate_held [of p "fst r" a "snd r" a' p'] by (simp add: case_prod_beta)
next
  case (2 p r a p')
  then show ?case using Allocate_fresh_spec [of p "fst r" "snd r" a p'] by (simp add: case_prod_beta)
next
  case (3 p)
  then show ?case by (simp add: pool_slots_def)
next
  case (4 p r a p')
  then show ?case
    using Allocate_fresh_spec(2) [of p "fst r" "snd r" a p'] Allocate_held [of p "fst r" _ "snd r" a p']
    by (cases "map_of (pool_allocations p) (binding_uid (fst r))")
       (simp_all add: case_prod_beta pool_slots_def)
next
  case (5 p r a p')
  then show ?case using Allocate_fresh_spec(8) [of p "fst r" "snd r" a p'] by (simp add: case_prod_beta)
qed

section \<open>The pool invariant\<close>

lemma card_pool_slots:
  assumes "pool_spec_ok (np_Spec p)" "ps_AllocationMode (np_Spec p) \<noteq> ''Explicit''"
  shows "pool_slots p = {0..<ps_MaxShards (np_Spec p)} \<times>
      {ps_PortStart (np_Spec p)..<ps_PortStart (np_Spec p) + ps_Occupancy (np_Spec p)}"
    and "int (card (pool_slots p)) = pool_capacity p"
proof -
  have b: "0 \<le> ps_PortStart (np_Spec p)" "ps_PortStart (np_Spec p) + ps_Occupancy (np_Spec p) \<le> 2 ^ 63"
    "0 \<le> ps_Occupancy (np_Spec p)" "0 \<le> ps_MaxShards (np_Spec p)"
    using assms(1) pool_spec_ok_PortStart [OF assms(1)] by (auto simp: pool_spec_ok_def)
  show eq: "pool_slots p = {0..<ps_MaxShards (np_Spec p)} \<times>
      {ps_PortStart (np_Spec p)..<ps_PortStart (np_Spec p) + ps_Occupancy (np_Spec p)}"
    using assms(2) slot_order_plain [OF b(1,2)] by (simp add: pool_slots_def)
  show "int (card (pool_slots p)) = pool_capacity p"
    using b(3,4) by (simp add: eq pool_capacity_def card_cartesian_product)
qed

lemma Allocate_Explicit_room:
  assumes "map_of (pool_allocations p) (binding_uid b) = None" "Allocate p b u = Inr (a, p')"
    and "ps_AllocationMode (np_Spec p) = ''Explicit''"
  shows "int (length (pool_allocations p)) < ps_Occupancy (np_Spec p)"
  by (rule allocateSlot_Inr [OF Allocate_fresh(1) [OF assms(1,2)]]) (use assms(3) in simp)

lemma service_ports_unique_snoc:
  assumes "service_ports_unique m"
    and "\<forall>c \<in> snd ` set m. al_Tombstone c \<or> al_ServiceUID c \<noteq> al_ServiceUID a \<or> al_PortName c \<noteq> al_PortName a"
  shows "service_ports_unique (m @ [(uid, a)])"
  using assms by (auto simp: service_ports_unique_def map_values_def)

lemma Allocate_length:
  assumes ok: "pool_ok p" and fresh: "map_of (pool_allocations p) (binding_uid b) = None"
    and alloc: "Allocate p b u = Inr (a, p')"
  shows "int (length (pool_allocations p')) \<le> pool_capacity p'"
proof (cases "ps_AllocationMode (np_Spec p) = ''Explicit''")
  case True
  have "ps_MaxShards (np_Spec p) = 1" using ok True by (simp add: pool_ok_def pool_spec_ok_def)
  with Allocate_Explicit_room [OF fresh alloc True] Allocate_fresh_spec(1,2) [OF fresh alloc]
  show ?thesis by (simp add: pool_capacity_def)
next
  case False
  have spec: "np_Spec p' = np_Spec p" by (rule Allocate_fresh_spec(2) [OF fresh alloc])
  then have slots: "pool_slots p' = pool_slots p" by (simp add: pool_slots_def)
  have grant: "(case (b, u) of (b, u) \<Rightarrow> Allocate p b u) = Inr (a, p')" using alloc by simp
  have "ledger_ok alloc_slot (pool_allocations p')"
    using pool_ledger.grant_ok [OF _ grant] ok by (simp add: pool_ok_def)
  moreover have "alloc_slot ` snd ` set (pool_allocations p') \<subseteq> pool_slots p'"
    using pool_ledger.grant_stays_in_slots [OF _ grant] ok by (simp add: pool_ok_def)
  ultimately have "length (pool_allocations p') \<le> card (pool_slots p')"
    by (rule pool_ledger.leases_bounded)
  with card_pool_slots(2) [of p] ok False show ?thesis
    by (simp add: slots pool_ok_def pool_capacity_def spec)
qed

lemma Allocate_pool_ok:
  assumes ok: "pool_ok p" and alloc: "Allocate p b u = Inr (a, p')"
  shows "pool_ok p'"
proof (cases "map_of (pool_allocations p) (binding_uid b)")
  case None
  note spec = Allocate_fresh_spec [OF None alloc]
  have grant: "(case (b, u) of (b, u) \<Rightarrow> Allocate p b u) = Inr (a, p')" using alloc by simp
  have "service_ports_unique (pool_allocations p')"
    unfolding spec(1)
  proof (rule service_ports_unique_snoc)
    show "service_ports_unique (pool_allocations p)" using ok by (simp add: pool_ok_def)
    show "\<forall>c \<in> snd ` set (pool_allocations p).
        al_Tombstone c \<or> al_ServiceUID c \<noteq> al_ServiceUID a \<or> al_PortName c \<noteq> al_PortName a"
      using Allocate_fresh(4) [OF None alloc] spec(6,7) by simp
  qed
  moreover have "ledger_ok alloc_slot (pool_allocations p')"
    using pool_ledger.grant_ok [OF _ grant] ok by (simp add: pool_ok_def)
  moreover have "alloc_slot ` snd ` set (pool_allocations p') \<subseteq> pool_slots p'"
    using pool_ledger.grant_stays_in_slots [OF _ grant] ok by (simp add: pool_ok_def)
  moreover have "\<forall>(uid, a) \<in> set (pool_allocations p'). al_Name a = leaseName uid"
    using ok spec(1,5) by (auto simp: pool_ok_def)
  ultimately show ?thesis
    using ok spec(2) Allocate_length [OF ok None alloc] by (simp add: pool_ok_def)
next
  case (Some a0)
  with Allocate_held [OF Some alloc] ok show ?thesis by simp
qed

section \<open>Room in a pool\<close>

lemma occupied_all_iff:
  assumes ok: "pool_ok p" and dyn: "ps_AllocationMode (np_Spec p) \<noteq> ''Explicit''"
  shows "pool_slots p \<subseteq> alloc_slot ` snd ` set (pool_allocations p) \<longleftrightarrow>
    \<not> int (length (pool_allocations p)) < pool_capacity p"
proof -
  let ?used = "alloc_slot ` snd ` set (pool_allocations p)"
  have "length (pool_allocations p) = card (set (map (alloc_slot \<circ> snd) (pool_allocations p)))"
    using ok by (metis distinct_card ledger_ok_def length_map pool_ok_def)
  then have used: "length (pool_allocations p) = card ?used" by (simp add: image_comp)
  have sub: "?used \<subseteq> pool_slots p" using ok by (simp add: pool_ok_def)
  have fin: "finite (pool_slots p)" by (rule pool_ledger.finite_slots)
  have card: "int (card (pool_slots p)) = pool_capacity p"
    using card_pool_slots(2) ok dyn by (simp add: pool_ok_def)
  show ?thesis
  proof
    assume "pool_slots p \<subseteq> ?used"
    with sub have "?used = pool_slots p" by blast
    with used card show "\<not> int (length (pool_allocations p)) < pool_capacity p" by simp
  next
    assume "\<not> int (length (pool_allocations p)) < pool_capacity p"
    with used card have "card (pool_slots p) \<le> card ?used" by simp
    with card_seteq [OF fin sub] show "pool_slots p \<subseteq> ?used" by simp
  qed
qed

lemma Allocate_unfold_fresh:
  assumes "pool_spec_ok (np_Spec p)" "\<not> bs_Suspended (tb_Spec b)" "binding_uid b \<noteq> ''''" "u \<noteq> ''''"
    and "requestedPortError p b = None"
    and "map_of (pool_allocations p) (binding_uid b) = None"
    and "\<forall>c \<in> snd ` set (pool_allocations p).
       al_Tombstone c \<or> al_ServiceUID c \<noteq> u \<or> al_PortName c \<noteq> bs_PortName (tb_Spec b)"
  shows "Allocate p b u = allocateSlot p b u (rev (map (alloc_slot \<circ> snd) (pool_allocations p)))"
proof -
  have "scanLeases (map_values (pool_allocations p)) u (bs_PortName (tb_Spec b)) [] =
      Inr (rev (map (alloc_slot \<circ> snd) (pool_allocations p)))"
    using assms(7) by (simp add: scanLeases_Inr map_values_def)
  with assms pool_spec_ok_valid show ?thesis by (simp add: Allocate_def)
qed

section \<open>Concrete pools\<close>

definition demo_spec :: pool_spec where
  "demo_spec = \<lparr>ps_CompartmentID = ''comp'', ps_SubnetID = ''subnet'', ps_Occupancy = 2, ps_MaxShards = 2,
     ps_PortStart = 20000, ps_PreserveSource = False, ps_AllocationMode = '''', ps_ProvisionEmpty = False,
     ps_MaxWorkers = 0\<rparr>"

definition demo_pool :: nlb_pool where
  "demo_pool = \<lparr>np_Meta = meta_named ''ns'' ''pool'' ''pool-uid'', np_Spec = demo_spec, np_Status = empty_status\<rparr>"

definition demo_binding :: "string \<Rightarrow> string \<Rightarrow> int \<Rightarrow> tunnel_binding" where
  "demo_binding uid svc requested = \<lparr>tb_Meta = meta_named ''ns'' uid uid,
     tb_Spec = \<lparr>bs_Pool = ''pool'', bs_Service = svc, bs_PortName = ''udp'', bs_Mode = ''PodIP'',
       bs_HealthPort = 8080, bs_RequestedPort = requested, bs_Suspended = False\<rparr>,
     tb_Status = empty_binding_status\<rparr>"

definition demo_lease :: "string \<Rightarrow> string \<Rightarrow> int \<Rightarrow> int \<Rightarrow> bool \<Rightarrow> allocation" where
  "demo_lease uid svc shard port tomb =
     (newAllocation (demo_binding uid svc 0) svc shard port)\<lparr>al_Tombstone := tomb\<rparr>"

text \<open>A pool with a retired lease on its first slot and an active one on the second.\<close>

definition demo_used_pool :: nlb_pool where
  "demo_used_pool = set_allocations
     [(''u1'', demo_lease ''u1'' ''s1'' 0 20000 True), (''u2'', demo_lease ''u2'' ''s2'' 0 20001 False)] demo_pool"

lemmas demo_defs = demo_spec_def demo_pool_def demo_binding_def demo_lease_def demo_used_pool_def
  meta_named_def empty_status_def empty_binding_status_def set_allocations_def newAllocation_def

lemma demo_spec_ok [simp]: "pool_spec_ok demo_spec"
  by (simp add: pool_spec_ok_def workerLimit_def demo_spec_def)

lemma demo_used_pool_ok [simp]: "pool_ok demo_used_pool"
proof -
  have "pool_spec_ok (np_Spec demo_used_pool)"
    using demo_spec_ok by (simp add: demo_used_pool_def demo_pool_def set_allocations_def)
  moreover have "pool_slots demo_used_pool = {0..<2} \<times> {20000..<20002}"
    using card_pool_slots(1) [of demo_used_pool] calculation by (simp add: demo_defs)
  ultimately show ?thesis
    by (simp add: pool_ok_def ledger_ok_def wf_map_def pool_capacity_def service_ports_unique_def
        map_values_def alloc_slot_def demo_defs)
qed

section \<open>Properties\<close>

text \<open>
  C24. Allocation keeps the pool invariant: after any successful \<^verbatim>\<open>Allocate\<close>, every lease has its own
  (shard, port) pair, every pair belongs to the pool, there are at most occupancy times maxShards
  leases (so \<^verbatim>\<open>Available\<close> never becomes negative), no Service port has two active leases, every lease
  carries the name derived from its binding's UID, and the specification is untouched.
\<close>

theorem Allocate_preserves_invariant:
  assumes "pool_ok p" "Allocate p b u = Inr (a, p')"
  shows "pool_ok p' \<and> np_Spec p' = np_Spec p \<and> map_of (pool_allocations p') (binding_uid b) = Some a"
proof -
  have grant: "(case (b, u) of (b, u) \<Rightarrow> Allocate p b u) = Inr (a, p')" using assms(2) by simp
  have "np_Spec p' = np_Spec p"
    using Allocate_fresh_spec(2) [of p b u a p'] Allocate_held [of p b _ u a p'] assms(2)
    by (cases "map_of (pool_allocations p) (binding_uid b)") auto
  then show ?thesis
    using Allocate_pool_ok [OF assms] pool_ledger.grant_recorded [OF grant] by simp
qed

lemma demo_allocate:
  "Allocate demo_used_pool (demo_binding ''u3'' ''s3'' 0) ''s3'' =
     Inr (newAllocation (demo_binding ''u3'' ''s3'' 0) ''s3'' 1 20000,
          put_allocation ''u3'' (newAllocation (demo_binding ''u3'' ''s3'' 0) ''s3'' 1 20000) demo_used_pool)"
proof -
  have occ: "rev (map (alloc_slot \<circ> snd) (pool_allocations demo_used_pool)) = [(0, 20001), (0, 20000)]"
    by (simp add: alloc_slot_def demo_defs)
  have spec: "np_Spec demo_used_pool = demo_spec"
    by (simp add: demo_used_pool_def demo_pool_def set_allocations_def)
  have "Allocate demo_used_pool (demo_binding ''u3'' ''s3'' 0) ''s3'' =
      allocateSlot demo_used_pool (demo_binding ''u3'' ''s3'' 0) ''s3'' [(0, 20001), (0, 20000)]"
    unfolding occ [symmetric]
    by (rule Allocate_unfold_fresh) (simp add: spec, simp_all add: requestedPortError_def demo_defs)
  also have "\<dots> = Inr (newAllocation (demo_binding ''u3'' ''s3'' 0) ''s3'' 1 20000,
      put_allocation ''u3'' (newAllocation (demo_binding ''u3'' ''s3'' 0) ''s3'' 1 20000) demo_used_pool)"
    by (simp add: allocateSlot_def Let_def spec)
       (simp add: try_shards.simps try_offsets.simps demo_spec_def demo_binding_def meta_named_def)
  finally show ?thesis .
qed

theorem Allocate_preserves_invariant_witness:
  "\<exists>a p'. Allocate demo_used_pool (demo_binding ''u3'' ''s3'' 0) ''s3'' = Inr (a, p') \<and> pool_ok p'"
  using demo_allocate Allocate_preserves_invariant [OF demo_used_pool_ok demo_allocate] by blast

text \<open>
  A public endpoint is never handed to a second tenant: whatever requests are served after a lease
  was granted, and whether or not it was retired since, no later grant to another binding gets its
  (shard, port) pair.
\<close>

theorem Allocate_never_reuses:
  assumes "pool_ok p" "map_of (pool_allocations p) uid = Some a"
    and "Allocate (serve (\<lambda>p (b, u). Allocate p b u) p requests) b u = Inr (c, p')"
    and "binding_uid b \<noteq> uid"
  shows "alloc_slot c \<noteq> alloc_slot a"
  using pool_ledger.serve_never_reuses [of p uid a requests "(b, u)" c p'] assms
  by (simp add: pool_ok_def)

theorem Allocate_never_reuses_witness:
  "\<exists>c p'. Allocate (serve (\<lambda>p (b, u). Allocate p b u) demo_used_pool []) (demo_binding ''u3'' ''s3'' 0) ''s3''
      = Inr (c, p') \<and> alloc_slot c \<noteq> alloc_slot (demo_lease ''u1'' ''s1'' 0 20000 True)"
proof -
  have held: "map_of (pool_allocations demo_used_pool) ''u1'' = Some (demo_lease ''u1'' ''s1'' 0 20000 True)"
    by (simp add: demo_used_pool_def set_allocations_def)
  have other: "binding_uid (demo_binding ''u3'' ''s3'' 0) \<noteq> ''u1''"
    by (simp add: demo_binding_def meta_named_def)
  have run: "Allocate (serve (\<lambda>p (b, u). Allocate p b u) demo_used_pool []) (demo_binding ''u3'' ''s3'' 0) ''s3'' =
     Inr (newAllocation (demo_binding ''u3'' ''s3'' 0) ''s3'' 1 20000,
          put_allocation ''u3'' (newAllocation (demo_binding ''u3'' ''s3'' 0) ''s3'' 1 20000) demo_used_pool)"
    using demo_allocate by simp
  show ?thesis
    using run Allocate_never_reuses [OF demo_used_pool_ok held run other] by blast
qed

text \<open>
  Dynamic allocation is first fit: the granted port lies in the pool's port range on one of its
  shards, and every pair that comes earlier (a lower shard, or the same shard and a lower port) is
  already leased.
\<close>

theorem Allocate_first_fit:
  assumes "pool_ok p" "ps_AllocationMode (np_Spec p) \<noteq> ''Explicit''"
    and "map_of (pool_allocations p) (binding_uid b) = None" "Allocate p b u = Inr (a, p')"
  shows "0 \<le> al_Shard a \<and> al_Shard a < ps_MaxShards (np_Spec p) \<and>
    ps_PortStart (np_Spec p) \<le> al_Port a \<and> al_Port a < ps_PortStart (np_Spec p) + ps_Occupancy (np_Spec p) \<and>
    al_Port a \<le> 65535 \<and>
    (\<forall>s q. 0 \<le> s \<and> s < ps_MaxShards (np_Spec p) \<and> ps_PortStart (np_Spec p) \<le> q \<and>
       q < ps_PortStart (np_Spec p) + ps_Occupancy (np_Spec p) \<and>
       (s < al_Shard a \<or> s = al_Shard a \<and> q < al_Port a) \<longrightarrow>
       (\<exists>uid c. map_of (pool_allocations p) uid = Some c \<and> alloc_slot c = (s, q)))"
proof -
  let ?occ = "rev (map (alloc_slot \<circ> snd) (pool_allocations p))"
  have ok: "pool_spec_ok (np_Spec p)" "wf_map (pool_allocations p)"
    using assms(1) by (simp_all add: pool_ok_def ledger_ok_def)
  obtain shard port where a: "a = newAllocation b u shard port"
    and ff: "first_free ?occ (ps_PortStart (np_Spec p)) (ps_Occupancy (np_Spec p)) (ps_MaxShards (np_Spec p))
      = Some (shard, port)"
    using allocateSlot_Inr [OF Allocate_fresh(1) [OF assms(3,4)]] assms(2) by metis
  have range: "0 \<le> ps_PortStart (np_Spec p)" "ps_PortStart (np_Spec p) + ps_Occupancy (np_Spec p) \<le> 65536"
    using ok(1) assms(2) by (auto simp: pool_spec_ok_def)
  note least = first_free_least [OF ff]
  have "\<exists>uid c. map_of (pool_allocations p) uid = Some c \<and> alloc_slot c = (s, q)"
    if "(s, q) \<in> set ?occ" for s q
    using that ok(2) by (auto simp: wf_map_map_of [symmetric]) blast
  with least range show ?thesis by (simp add: a newAllocation_def)
qed

theorem Allocate_first_fit_witness:
  "\<exists>a p'. Allocate demo_used_pool (demo_binding ''u3'' ''s3'' 0) ''s3'' = Inr (a, p') \<and>
     al_Shard a = 1 \<and> al_Port a = 20000 \<and>
     (\<exists>uid c. map_of (pool_allocations demo_used_pool) uid = Some c \<and> alloc_slot c = (0, 20001))"
proof -
  have "ps_AllocationMode (np_Spec demo_used_pool) \<noteq> ''Explicit''"
    "map_of (pool_allocations demo_used_pool) (binding_uid (demo_binding ''u3'' ''s3'' 0)) = None"
    by (simp_all add: demo_defs)
  note fit = Allocate_first_fit [OF demo_used_pool_ok this demo_allocate]
  have "\<exists>uid c. map_of (pool_allocations demo_used_pool) uid = Some c \<and> alloc_slot c = (0, 20001)"
    by (rule fit [THEN conjunct2, THEN conjunct2, THEN conjunct2, THEN conjunct2, THEN conjunct2,
        rule_format]) (simp add: demo_defs)
  then show ?thesis using demo_allocate by (auto simp: newAllocation_def)
qed

text \<open>
  C38. A pool refuses a well-formed request for a free Service port, from a binding without a lease, in two
  cases only.  In an Explicit pool the port it asks for has a lease, retired or not: the error says that the
  port is leased.  Otherwise the request succeeds exactly when fewer than occupancy times maxShards leases
  exist, tombstones included, with the port asked for in an Explicit pool and with a slot that no lease has;
  if that many exist the error says that the pool is exhausted.
\<close>

theorem Allocate_succeeds_iff_room:
  assumes ok: "pool_ok p" and b: "\<not> bs_Suspended (tb_Spec b)" "binding_uid b \<noteq> ''''" "u \<noteq> ''''"
    and port: "if ps_AllocationMode (np_Spec p) = ''Explicit'' then 1 \<le> bs_RequestedPort (tb_Spec b) \<and> bs_RequestedPort (tb_Spec b) \<le> 65535
       else bs_RequestedPort (tb_Spec b) = 0"
    and fresh: "map_of (pool_allocations p) (binding_uid b) = None"
    and free: "\<forall>c \<in> snd ` set (pool_allocations p).
       al_Tombstone c \<or> al_ServiceUID c \<noteq> u \<or> al_PortName c \<noteq> bs_PortName (tb_Spec b)"
  shows "if ps_AllocationMode (np_Spec p) = ''Explicit'' \<and> (\<exists>c \<in> snd ` set (pool_allocations p). al_Port c = bs_RequestedPort (tb_Spec b))
    then Allocate p b u = Inl (Errorf ''requested port already leased, including permanent tombstones'')
    else if int (length (pool_allocations p)) < pool_capacity p
    then \<exists>a p'. Allocate p b u = Inr (a, p') \<and> alloc_slot a \<notin> alloc_slot ` snd ` set (pool_allocations p) \<and>
      (ps_AllocationMode (np_Spec p) = ''Explicit'' \<longrightarrow> al_Port a = bs_RequestedPort (tb_Spec b))
    else Allocate p b u = Inl (Errorf ''pool exhausted (including unreusable tombstones)'')"
proof -
  let ?occ = "rev (map (alloc_slot \<circ> snd) (pool_allocations p))" and ?used = "alloc_slot ` snd ` set (pool_allocations p)"
  have spec: "pool_spec_ok (np_Spec p)" using ok by (simp add: pool_ok_def)
  have eq: "Allocate p b u = allocateSlot p b u ?occ"
    by (rule Allocate_unfold_fresh [OF spec b _ fresh free]) (use port in \<open>auto simp: requestedPortError_def split: if_splits\<close>)
  have occ: "set ?occ = ?used" by (simp add: image_comp)
  have new: "alloc_slot a \<notin> ?used" if "Allocate p b u = Inr (a, p')" for a p'
    by (rule allocateSlot_Inr [OF that [unfolded eq]]) (use occ in \<open>auto simp: alloc_slot_def newAllocation_def\<close>)
  show ?thesis
  proof (cases "ps_AllocationMode (np_Spec p) = ''Explicit''")
    case True
    have slot: "al_Shard c = 0" if "c \<in> snd ` set (pool_allocations p)" for c
      using ok True that by (force simp: pool_ok_def pool_slots_def alloc_slot_def)
    have taken: "(0, q) \<in> set ?occ \<longleftrightarrow> (\<exists>c \<in> snd ` set (pool_allocations p). al_Port c = q)" for q
      unfolding occ using slot by (force simp: alloc_slot_def)
    have cap: "pool_capacity p = ps_Occupancy (np_Spec p)" using spec True by (simp add: pool_spec_ok_def pool_capacity_def)
    have "int (length (pool_allocations p)) < pool_capacity p \<Longrightarrow> (0, bs_RequestedPort (tb_Spec b)) \<notin> set ?occ \<Longrightarrow>
        \<exists>a p'. Allocate p b u = Inr (a, p') \<and> al_Port a = bs_RequestedPort (tb_Spec b)"
      using True cap by (simp add: eq allocateSlot_def Let_def newAllocation_def)
    then show ?thesis
      using True cap new taken [of "bs_RequestedPort (tb_Spec b)"] by (auto simp: eq allocateSlot_def Let_def)
  next
    case False
    have "first_free ?occ (ps_PortStart (np_Spec p)) (ps_Occupancy (np_Spec p)) (ps_MaxShards (np_Spec p)) = None
        \<longleftrightarrow> pool_slots p \<subseteq> ?used"
      using False by (simp add: first_free_None pool_slots_def image_comp)
    with occupied_all_iff [OF ok False] False
    have "if int (length (pool_allocations p)) < pool_capacity p then \<exists>a p'. Allocate p b u = Inr (a, p')
        else Allocate p b u = Inl (Errorf ''pool exhausted (including unreusable tombstones)'')"
      by (auto simp: eq allocateSlot_def Let_def try_shards_first_free split: option.split)
    with False new show ?thesis by auto
  qed
qed

text \<open>The same pool in Explicit mode, with one retired lease.\<close>

definition demo_explicit_pool :: nlb_pool where
  "demo_explicit_pool = set_allocations [(''u1'', demo_lease ''u1'' ''s1'' 0 20000 True)]
     (demo_pool\<lparr>np_Spec := demo_spec\<lparr>ps_AllocationMode := ''Explicit'', ps_MaxShards := 1, ps_PortStart := 1\<rparr>\<rparr>)"

theorem Allocate_succeeds_iff_room_witness:
  "(\<exists>a p'. Allocate demo_used_pool (demo_binding ''u3'' ''s3'' 0) ''s3'' = Inr (a, p')) \<and>
   (\<exists>a p'. Allocate demo_explicit_pool (demo_binding ''u3'' ''s3'' 30000) ''s3'' = Inr (a, p') \<and> al_Port a = 30000) \<and>
   Allocate demo_explicit_pool (demo_binding ''u3'' ''s3'' 20000) ''s3'' = Inl (Errorf ''requested port already leased, including permanent tombstones'')"
proof -
  have b: "\<not> bs_Suspended (tb_Spec (demo_binding ''u3'' ''s3'' n))" "binding_uid (demo_binding ''u3'' ''s3'' n) \<noteq> ''''" "''s3'' \<noteq> ''''"
    "bs_RequestedPort (tb_Spec (demo_binding ''u3'' ''s3'' n)) = n" for n
    by (simp_all add: demo_defs)
  have used: "map_of (pool_allocations demo_used_pool) (binding_uid (demo_binding ''u3'' ''s3'' n)) = None"
    "\<forall>c \<in> snd ` set (pool_allocations demo_used_pool). al_Tombstone c \<or> al_ServiceUID c \<noteq> ''s3'' \<or>
       al_PortName c \<noteq> bs_PortName (tb_Spec (demo_binding ''u3'' ''s3'' n))" "ps_AllocationMode (np_Spec demo_used_pool) \<noteq> ''Explicit''"
    "int (length (pool_allocations demo_used_pool)) < pool_capacity demo_used_pool" for n
    by (simp_all add: pool_capacity_def demo_defs)
  have expl: "map_of (pool_allocations demo_explicit_pool) (binding_uid (demo_binding ''u3'' ''s3'' n)) = None"
    "\<forall>c \<in> snd ` set (pool_allocations demo_explicit_pool). al_Tombstone c \<or> al_ServiceUID c \<noteq> ''s3'' \<or>
       al_PortName c \<noteq> bs_PortName (tb_Spec (demo_binding ''u3'' ''s3'' n))" "ps_AllocationMode (np_Spec demo_explicit_pool) = ''Explicit''"
    "int (length (pool_allocations demo_explicit_pool)) < pool_capacity demo_explicit_pool" for n
    by (simp_all add: demo_explicit_pool_def pool_capacity_def demo_defs)
  have ok: "pool_ok demo_explicit_pool"
    by (simp add: pool_ok_def demo_explicit_pool_def pool_spec_ok_def workerLimit_def ledger_ok_def wf_map_def pool_slots_def alloc_slot_def pool_capacity_def
        service_ports_unique_def map_values_def demo_defs)
  have ports: "(\<exists>c \<in> set (pool_allocations demo_explicit_pool). al_Port (snd c) = n) \<longleftrightarrow> n = 20000" for n
    by (auto simp: demo_explicit_pool_def demo_defs)
  show ?thesis
    using Allocate_succeeds_iff_room [OF demo_used_pool_ok b(1-3) _ used(1,2), of 0] Allocate_succeeds_iff_room [OF ok b(1-3) _ expl(1,2), of 30000]
      Allocate_succeeds_iff_room [OF ok b(1-3) _ expl(1,2), of 20000] used(3,4) expl(3,4)
    by (simp add: b(4) ports) blast
qed

text \<open>
  Retrying is harmless: a binding that was granted a lease gets the same lease again from the
  resulting pool, which the second call leaves unchanged, even if its Service was replaced.
\<close>

theorem Allocate_idempotent:
  assumes "Allocate p b u = Inr (a, p')" "v \<noteq> ''''"
  shows "Allocate p' b v = Inr (a, p')"
proof -
  have grant: "(case (b, u) of (b, u) \<Rightarrow> Allocate p b u) = Inr (a, p')" using assms(1) by simp
  have rec: "map_of (pool_allocations p') (binding_uid b) = Some a"
    using pool_ledger.grant_recorded [OF grant] by simp
  have spec: "np_Spec p' = np_Spec p"
    using Allocate_fresh_spec(2) [of p b u a p'] Allocate_held [of p b _ u a p'] assms(1)
    by (cases "map_of (pool_allocations p) (binding_uid b)") auto
  have port: "al_Port a = bs_RequestedPort (tb_Spec b)" if "ps_AllocationMode (np_Spec p) = ''Explicit''"
  proof (cases "map_of (pool_allocations p) (binding_uid b)")
    case None
    show ?thesis
      by (rule allocateSlot_Inr [OF Allocate_fresh(1) [OF None assms(1)]])
         (use that in \<open>simp add: newAllocation_def\<close>)
  next
    case (Some a0)
    with that assms(1) show ?thesis by (auto simp: Allocate_def split: if_splits option.splits)
  qed
  show ?thesis
    using assms rec port
    by (auto simp: Allocate_def spec requestedPortError_def split: if_splits option.splits)
qed

theorem Allocate_idempotent_witness:
  "\<exists>a p'. Allocate demo_used_pool (demo_binding ''u3'' ''s3'' 0) ''s3'' = Inr (a, p') \<and>
     Allocate p' (demo_binding ''u3'' ''s3'' 0) ''replaced'' = Inr (a, p')"
proof -
  have "''replaced'' \<noteq> ''''" by simp
  from Allocate_idempotent [OF demo_allocate this] demo_allocate show ?thesis by blast
qed

text \<open>
  C39. What \<^verbatim>\<open>ValidatePool\<close>, computed in 64-bit arithmetic, accepts: exactly the pools that satisfy the
  rules of the custom resource definition, and, because the sum in the port check can wrap around,
  also the otherwise valid dynamic pools whose port start is within the occupancy of \<open>2 ^ 63\<close>.  The
  product of occupancy and worker limit, computed first, never lets a wrong pool through.
\<close>

theorem ValidatePool_exact:
  assumes "is_int64 (ps_PortStart s)"
  shows "ValidatePool s = None \<longleftrightarrow>
    pool_spec_ok s \<or>
    (ps_AllocationMode s \<noteq> ''Explicit'' \<and> pool_spec_ok (s\<lparr>ps_PortStart := 1024\<rparr>) \<and>
     2 ^ 63 < ps_PortStart s + ps_Occupancy s)"
proof (cases "1 \<le> ps_Occupancy s \<and> ps_Occupancy s \<le> 50 \<and> 1024 \<le> ps_PortStart s")
  case True
  have "wrap64 (wrap64 (ps_PortStart s + ps_Occupancy s) - 1) =
      (if ps_PortStart s + ps_Occupancy s < 2 ^ 63 then ps_PortStart s + ps_Occupancy s - 1
       else if ps_PortStart s + ps_Occupancy s = 2 ^ 63 then 2 ^ 63 - 1
       else ps_PortStart s + ps_Occupancy s - 2 ^ 64 - 1)"
    using assms True by (simp add: wrap64_top is_int64_def)
  with assms True show ?thesis
    by (auto simp: ValidatePool_core validateMode_def pool_spec_ok_def workerLimit_def is_int64_def)
next
  case False
  then show ?thesis
    by (auto simp: ValidatePool_core validateMode_def pool_spec_ok_def workerLimit_def split: if_splits)
qed

theorem ValidatePool_exact_witness:
  "ValidatePool demo_spec = None \<and> ValidatePool (demo_spec\<lparr>ps_PortStart := 2 ^ 63 - 1\<rparr>) = None"
proof -
  have r: "is_int64 (ps_PortStart demo_spec)" "is_int64 (ps_PortStart (demo_spec\<lparr>ps_PortStart := 2 ^ 63 - 1\<rparr>))"
    by (simp_all add: is_int64_def demo_spec_def)
  have "pool_spec_ok (demo_spec\<lparr>ps_PortStart := 2 ^ 63 - 1, ps_PortStart := 1024\<rparr>)"
    by (simp add: pool_spec_ok_def workerLimit_def demo_spec_def)
  with ValidatePool_exact [OF r(2)] have "ValidatePool (demo_spec\<lparr>ps_PortStart := 2 ^ 63 - 1\<rparr>) = None"
    by (simp add: demo_spec_def)
  with ValidatePool_exact [OF r(1)] show ?thesis by simp
qed

lemma ValidatePool_overflow:
  "ValidatePool (demo_spec\<lparr>ps_PortStart := 2 ^ 63 - 1\<rparr>) = None \<and>
   \<not> pool_spec_ok (demo_spec\<lparr>ps_PortStart := 2 ^ 63 - 1\<rparr>)"
  by (simp add: ValidatePool_def validateMode_def workerLimit_def pool_spec_ok_def demo_spec_def wrap64_def)

end
