(* ===== verification/Calls.thy ===== *)
theory Calls
  imports Prelude
begin

text \<open>
  Operations that call a service.  The service is a function over an unspecified world \<open>'w\<close>: a call may
  answer anything and may change the world.  The state of an operation is the world and the list of
  writes it has issued, in order; the three controllers of the program have their own type \<open>'e\<close> of
  writes, and the engine adds a field of its own.  The list is what the theorems on ordering and on the
  number of writes speak about.

  \<open>emits m R\<close> says that from every state, whatever the services answer, the operation ends with a
  result \<open>r\<close> after appending writes \<open>ws\<close> with \<open>R r ws\<close>.  The rules follow the structure of a program.
\<close>

named_theorems silent_ops \<open>operations that write nothing\<close>

section \<open>State and calls\<close>

record ('w, 'e) io_state =
  world :: 'w
  writes :: "'e list"

type_synonym ('w, 'e, 'z, 'a) io = "(('w, 'e, 'z) io_state_scheme, 'a) state"

definition call :: "('w \<Rightarrow> 'a \<times> 'w) \<Rightarrow> ('w, 'e, 'z, 'a) io" where
  "call f = State (\<lambda>s. case f (world s) of (a, w) \<Rightarrow> (a, s\<lparr>world := w\<rparr>))"

definition emit :: "'e \<Rightarrow> ('w, 'e, 'z, unit) io" where
  "emit e = modify (\<lambda>s. s\<lparr>writes := writes s @ [e]\<rparr>)"

text \<open>A write is recorded when it is issued, whatever the service answers.\<close>

definition issue :: "'e \<Rightarrow> ('w \<Rightarrow> 'a \<times> 'w) \<Rightarrow> ('w, 'e, 'z, 'a) io" where
  "issue e f = do { emit e; call f }"

text \<open>\<^verbatim>\<open>ctrl.Result\<close>: requeue after three seconds, after fifteen, or not at all.\<close>

datatype ctrl_result = RequeueSoon | RequeueLater | NoRequeue

type_synonym answer = "ctrl_result \<times> go_error option"

lemma wp_call [wp_rules]: "wp (call f) Q s = (case f (world s) of (a, w) \<Rightarrow> Q a (s\<lparr>world := w\<rparr>))"
  by (simp add: wp_def call_def split: prod.split)

lemma wp_issue [wp_rules]:
  "wp (issue e f) Q s = (case f (world s) of (a, w) \<Rightarrow> Q a (s\<lparr>writes := writes s @ [e], world := w\<rparr>))"
  by (simp add: issue_def emit_def wp_rules)

section \<open>A calculus for writes\<close>

definition emits :: "('w, 'e, 'z, 'a) io \<Rightarrow> ('a \<Rightarrow> 'e list \<Rightarrow> bool) \<Rightarrow> bool" where
  "emits m R \<longleftrightarrow> (\<forall>s. wp m (\<lambda>r s'. \<exists>ws. writes s' = writes s @ ws \<and> R r ws) s)"

definition silent :: "('w, 'e, 'z, 'a) io \<Rightarrow> bool" where
  "silent m \<longleftrightarrow> emits m (\<lambda>r ws. ws = [])"

section \<open>Structural rules\<close>

lemma emits_mono: "emits m R \<Longrightarrow> (\<And>r ws. R r ws \<Longrightarrow> Q r ws) \<Longrightarrow> emits m Q"
  unfolding emits_def by (blast intro: wp_mono)

lemma emits_run: "emits m R \<Longrightarrow> run_state m s = (r, s') \<Longrightarrow> \<exists>ws. writes s' = writes s @ ws \<and> R r ws"
  unfolding emits_def by (drule spec, drule (1) wp_run)

lemma emits_return: "R a [] \<Longrightarrow> emits (State_Monad.return a) R"
  by (simp add: emits_def wp_rules)

lemma emits_if: "emits m R \<Longrightarrow> emits m' R \<Longrightarrow> emits (if c then m else m') R"
  by simp

lemma emits_gets: "(\<And>a. R a []) \<Longrightarrow> emits (gets f) R"
  by (simp add: emits_def wp_rules)

lemma emits_call: "(\<And>a. R a []) \<Longrightarrow> emits (call f) R"
  by (simp add: emits_def wp_rules split: prod.split)

text \<open>The continuation of a call may rely on the answer being one the service gives in some world.\<close>

lemma emits_call_then:
  assumes "\<And>w. emits (f (fst (g w))) R"
  shows "emits (State_Monad.bind (call g) f) R"
  unfolding emits_def wp_bind wp_call
proof (intro allI)
  fix s :: "('a, 'b, 'c) io_state_scheme"
  obtain a w where g: "g (world s) = (a, w)" by fastforce
  have "wp (f a) (\<lambda>r s'. \<exists>ws. writes s' = writes (s\<lparr>world := w\<rparr>) @ ws \<and> R r ws) (s\<lparr>world := w\<rparr>)"
    using assms [of "world s"] unfolding emits_def g fst_conv by (rule spec)
  then show "case g (world s) of (a, w) \<Rightarrow> wp (f a) (\<lambda>r s'. \<exists>ws. writes s' = writes s @ ws \<and> R r ws) (s\<lparr>world := w\<rparr>)"
    by (simp add: g)
qed

lemma emits_issue: "(\<And>a. R a [e]) \<Longrightarrow> emits (issue e f) R"
  by (simp add: emits_def wp_rules split: prod.split)

lemma emits_modify: "(\<And>s. writes (f s) = writes s) \<Longrightarrow> R () [] \<Longrightarrow> emits (modify f) R"
  by (simp add: emits_def wp_rules)

lemma emits_bind:
  assumes "emits m (\<lambda>a ws. emits (f a) (\<lambda>r ws'. R r (ws @ ws')))"
  shows "emits (State_Monad.bind m f) R"
  unfolding emits_def wp_bind
proof (intro allI)
  fix s
  have "wp m (\<lambda>a s'. \<exists>ws. writes s' = writes s @ ws \<and> emits (f a) (\<lambda>r ws'. R r (ws @ ws'))) s"
    using assms by (simp add: emits_def)
  then show "wp m (\<lambda>a. wp (f a) (\<lambda>r s'. \<exists>ws. writes s' = writes s @ ws \<and> R r ws)) s"
  proof (rule wp_mono, goal_cases)
    case (1 a s')
    then obtain ws where ws: "writes s' = writes s @ ws" "emits (f a) (\<lambda>r ws'. R r (ws @ ws'))" by blast
    from ws(2) have "wp (f a) (\<lambda>r t. \<exists>ws'. writes t = writes s' @ ws' \<and> R r (ws @ ws')) s'"
      unfolding emits_def by (rule spec)
    then show ?case by (rule wp_mono) (auto simp: ws(1))
  qed
qed

lemma emits_tryM:
  assumes "emits m (\<lambda>r ws. case r of Inl e \<Rightarrow> R (Inl e) ws | Inr x \<Rightarrow> emits (f x) (\<lambda>r ws'. R r (ws @ ws')))"
  shows "emits (tryM m f) R"
  unfolding tryM_def
  by (rule emits_bind, rule emits_mono [OF assms]) (auto intro: emits_return split: sum.split)

text \<open>After a silent operation only its continuation counts.\<close>

lemma emits_bind_silent:
  assumes "silent m" "\<And>a. emits (f a) R"
  shows "emits (State_Monad.bind m f) R"
  by (rule emits_bind, rule emits_mono [OF assms(1) [unfolded silent_def]]) (simp add: assms(2))

lemma emits_tryM_silent:
  assumes "silent m" "\<And>e. R (Inl e) []" "\<And>x. emits (f x) R"
  shows "emits (tryM m f) R"
  by (rule emits_tryM, rule emits_mono [OF assms(1) [unfolded silent_def]]) (auto simp: assms split: sum.split)

lemma emits_silent: "silent m \<Longrightarrow> (\<And>r. R r []) \<Longrightarrow> emits m R"
  unfolding silent_def by (erule emits_mono) simp

lemma silent_return [silent_ops]: "silent (State_Monad.return a)"
  by (simp add: silent_def emits_return)

lemma silent_gets [silent_ops]: "silent (gets f)"
  by (simp add: silent_def emits_gets)

lemma silent_call [silent_ops]: "silent (call f)"
  by (simp add: silent_def emits_call)

lemma silent_bind [silent_ops]: "silent m \<Longrightarrow> (\<And>a. silent (f a)) \<Longrightarrow> silent (State_Monad.bind m f)"
  unfolding silent_def [of "State_Monad.bind m f"] by (rule emits_bind_silent) (simp_all add: silent_def)

lemma silent_tryM [silent_ops]: "silent m \<Longrightarrow> (\<And>a. silent (f a)) \<Longrightarrow> silent (tryM m f)"
  unfolding tryM_def by (rule silent_bind) (auto intro: silent_return split: sum.split)

lemma silent_modify [silent_ops]: "(\<And>s. writes (f s) = writes s) \<Longrightarrow> silent (modify f)"
  by (simp add: silent_def emits_modify)

section \<open>A property of every write\<close>

definition emits_all :: "('e \<Rightarrow> bool) \<Rightarrow> ('w, 'e, 'z, 'a) io \<Rightarrow> bool" where
  "emits_all P m \<longleftrightarrow> emits m (\<lambda>_. list_all P)"

lemma emits_all_return: "emits_all P (State_Monad.return a)"
  by (simp add: emits_all_def emits_return)

lemma emits_all_if: "emits_all P m \<Longrightarrow> emits_all P m' \<Longrightarrow> emits_all P (if c then m else m')"
  by simp

lemma emits_all_issue: "P e \<Longrightarrow> emits_all P (issue e f)"
  unfolding emits_all_def by (rule emits_issue) simp

lemma emits_all_silent: "silent m \<Longrightarrow> emits_all P m"
  unfolding emits_all_def by (erule emits_silent) simp

lemma emits_all_bind:
  assumes "emits_all P m" "\<And>a. emits_all P (f a)"
  shows "emits_all P (State_Monad.bind m f)"
  unfolding emits_all_def
proof (rule emits_bind, rule emits_mono [OF assms(1) [unfolded emits_all_def]])
  fix a ws assume "list_all P ws"
  with assms(2) [of a] show "emits (f a) (\<lambda>_ ws'. list_all P (ws @ ws'))" by (simp add: emits_all_def)
qed

lemma emits_all_tryM:
  assumes "emits_all P m" "\<And>a. emits_all P (f a)"
  shows "emits_all P (tryM m f)"
  unfolding tryM_def by (rule emits_all_bind [OF assms(1)]) (auto intro: emits_all_return assms(2) split: sum.split)

text \<open>An answer the service gives, in some world; what follows a call may rely on it.\<close>

definition answers :: "('w \<Rightarrow> 'a \<times> 'w) \<Rightarrow> 'a \<Rightarrow> bool" where
  "answers f a \<longleftrightarrow> (\<exists>w. fst (f w) = a)"

lemma answersI: "answers f (fst (f w))"
  by (auto simp: answers_def)

lemma emits_all_call_then: "(\<And>a. answers g a \<Longrightarrow> emits_all P (f a)) \<Longrightarrow> emits_all P (State_Monad.bind (call g) f)"
  unfolding emits_all_def by (rule emits_call_then) (simp add: answersI)

lemma emits_all_call_tryM: "(\<And>a. answers g (Inr a) \<Longrightarrow> emits_all P (f a)) \<Longrightarrow> emits_all P (tryM (call g) f)"
  unfolding tryM_def by (rule emits_all_call_then) (auto intro: emits_all_return split: sum.split)

section \<open>A property of the result\<close>

definition yields :: "('w, 'e, 'z, 'a) io \<Rightarrow> ('a \<Rightarrow> bool) \<Rightarrow> bool" where
  "yields m R \<longleftrightarrow> emits m (\<lambda>r _. R r)"

lemma yields_return: "R a \<Longrightarrow> yields (State_Monad.return a) R"
  by (simp add: yields_def emits_return)

lemma yields_mono: "yields m Q \<Longrightarrow> (\<And>a. Q a \<Longrightarrow> R a) \<Longrightarrow> yields m R"
  unfolding yields_def by (erule emits_mono) blast

lemma yields_emits: "emits_all P m \<Longrightarrow> yields m (\<lambda>_. True)"
  unfolding yields_def emits_all_def by (erule emits_mono) simp

lemma yields_call: "yields (call g) (answers g)"
  unfolding yields_def emits_def by (auto simp: wp_rules answers_def split: prod.split) (metis fst_conv)

lemma yields_issue: "yields (issue e g) (answers g)"
  unfolding yields_def emits_def by (auto simp: wp_rules answers_def split: prod.split) (metis fst_conv)

lemma yields_bind: "yields m Q \<Longrightarrow> (\<And>a. Q a \<Longrightarrow> yields (f a) R) \<Longrightarrow> yields (State_Monad.bind m f) R"
  unfolding yields_def by (rule emits_bind, erule emits_mono) auto

lemma yields_tryM:
  "yields m Q \<Longrightarrow> (\<And>e. R (Inl e)) \<Longrightarrow> (\<And>a. Q (Inr a) \<Longrightarrow> yields (f a) R) \<Longrightarrow> yields (tryM m f) R"
  unfolding tryM_def by (erule yields_bind) (auto intro: yields_return split: sum.split)

text \<open>What follows an operation may rely on its result.\<close>

lemma emits_all_bind_yields:
  assumes "emits_all P m" "yields m Q" "\<And>a. Q a \<Longrightarrow> emits_all P (f a)"
  shows "emits_all P (State_Monad.bind m f)"
  unfolding emits_all_def
proof (rule emits_bind)
  have both: "emits m (\<lambda>r ws. list_all P ws \<and> Q r)"
    unfolding emits_def
  proof
    fix s
    have "wp m (\<lambda>r s'. (\<exists>ws. writes s' = writes s @ ws \<and> list_all P ws) \<and> (\<exists>ws. writes s' = writes s @ ws \<and> Q r)) s"
      using assms(1,2) unfolding emits_all_def yields_def emits_def by (intro wp_conj) blast+
    then show "wp m (\<lambda>r s'. \<exists>ws. writes s' = writes s @ ws \<and> list_all P ws \<and> Q r) s" by (rule wp_mono) auto
  qed
  then show "emits m (\<lambda>a ws. emits (f a) (\<lambda>_ ws'. list_all P (ws @ ws')))"
    by (rule emits_mono) (use assms(3) in \<open>simp add: emits_all_def\<close>)
qed

end
