(* ===== verification/Services.thy ===== *)
theory Services
  imports Api_Types Calls
begin

text \<open>
  The services the engine talks to.  The OCI network load balancer API and the Kubernetes API are not
  part of the repository: they are records of functions over an unspecified world \<open>'w\<close>, and every
  operation takes them as an argument.  A call may answer anything and may change the world, so a
  theorem without a hypothesis on the services holds whatever they do, other clients included.

  \<open>engine_state\<close> is what one reconciliation of the engine carries along: the world and the list of
  writes issued, and the snapshot of load balancers read so far (the field \<^verbatim>\<open>snapshot\<close> of \<^verbatim>\<open>Cloud\<close>).
\<close>

section \<open>The types of the OCI SDK\<close>

record oci_backend =
  ob_Name :: "string option"
  ob_IpAddress :: "string option"
  ob_TargetId :: "string option"
  ob_Port :: "int option"
  ob_Weight :: "int option"
  ob_IsOffline :: "bool option"
  ob_IsDrain :: "bool option"
  ob_IsBackup :: "bool option"

record health_checker =
  hc_Protocol :: string
  hc_Port :: "int option"
  hc_UrlPath :: "string option"
  hc_ReturnCode :: "int option"
  hc_IntervalInMillis :: "int option"
  hc_TimeoutInMillis :: "int option"
  hc_Retries :: "int option"
  hc_RequestData :: "nat list"
  hc_ResponseData :: "nat list"
  hc_ResponseBodyRegex :: "string option"

record backend_set =
  os_Policy :: string
  os_HealthChecker :: "health_checker option"
  os_Backends :: "oci_backend list"
  os_IsPreserveSource :: "bool option"
  os_IsFailOpen :: "bool option"
  os_IsInstantFailoverEnabled :: "bool option"

record listener =
  ol_DefaultBackendSetName :: "string option"
  ol_Port :: "int option"
  ol_Protocol :: string
  ol_IsPpv2Enabled :: "bool option"
  ol_UdpIdleTimeout :: "int option"

record nlb =
  lb_CompartmentId :: "string option"
  lb_SubnetId :: "string option"
  lb_LifecycleState :: string
  lb_FreeformTags :: "(string, string) gomap"
  lb_IpAddresses :: "(string option \<times> bool option) list"
  lb_Listeners :: "(string, listener) gomap"
  lb_BackendSets :: "(string, backend_set) gomap"

record nlb_summary =
  ns_Id :: "string option"
  ns_LifecycleState :: string
  ns_FreeformTags :: "(string, string) gomap"

record create_nlb =
  cl_OpcRetryToken :: string
  cl_CompartmentId :: string
  cl_SubnetId :: string
  cl_DisplayName :: string
  cl_IsPrivate :: bool
  cl_IsPreserveSourceDestination :: bool
  cl_FreeformTags :: "(string, string) gomap"

text \<open>The mutating requests; the first argument is the load balancer's identifier.\<close>

datatype oci_mutation =
    CreateNetworkLoadBalancer create_nlb
  | DeleteListener string string
  | DeleteBackendSet string string
  | CreateBackendSet string string backend_set
  | UpdateBackendSet string string backend_set
  | CreateListener string string listener

section \<open>The clients\<close>

text \<open>
  \<open>oc_Mutate\<close> answers with the identifier of the created object (for a new load balancer) and with
  the work request that carries the change out.
\<close>

record 'w oci_client =
  oc_GetNLB :: "string \<Rightarrow> 'w \<Rightarrow> (go_error + nlb) \<times> 'w"
  oc_ListNLBs :: "string \<Rightarrow> string option \<Rightarrow> 'w \<Rightarrow> (go_error + (nlb_summary list \<times> string option)) \<times> 'w"
  oc_Mutate :: "oci_mutation \<Rightarrow> 'w \<Rightarrow> (go_error + (string option \<times> string option)) \<times> 'w"
  oc_GetWorkRequest :: "string \<Rightarrow> 'w \<Rightarrow> (go_error + string) \<times> 'w"

record 'w kube_client =
  kc_GetPool :: "object_key \<Rightarrow> 'w \<Rightarrow> (go_error + nlb_pool) \<times> 'w"
  kc_ListBindings :: "string \<Rightarrow> 'w \<Rightarrow> (go_error + tunnel_binding list) \<times> 'w"
  kc_GetService :: "object_key \<Rightarrow> 'w \<Rightarrow> (go_error + service) \<times> 'w"
  kc_ListServices :: "string \<Rightarrow> 'w \<Rightarrow> (go_error + service list) \<times> 'w"
  kc_ListSlices :: "string \<Rightarrow> 'w \<Rightarrow> (go_error + endpoint_slice list) \<times> 'w"
  kc_ListPods :: "string \<Rightarrow> 'w \<Rightarrow> (go_error + pod list) \<times> 'w"
  kc_ListNodes :: "'w \<Rightarrow> (go_error + node list) \<times> 'w"
  kc_UpdatePool :: "nlb_pool \<Rightarrow> 'w \<Rightarrow> go_error option \<times> 'w"
  kc_UpdatePoolStatus :: "nlb_pool \<Rightarrow> 'w \<Rightarrow> go_error option \<times> 'w"
  kc_PatchPoolStatus :: "nlb_pool \<Rightarrow> 'w \<Rightarrow> go_error option \<times> 'w"
  kc_UpdateBinding :: "tunnel_binding \<Rightarrow> 'w \<Rightarrow> go_error option \<times> 'w"
  kc_PatchBindingStatus :: "tunnel_binding \<Rightarrow> 'w \<Rightarrow> go_error option \<times> 'w"

section \<open>The state of one reconciliation\<close>

datatype api_write =
    OciWrite oci_mutation
  | PoolUpdate nlb_pool
  | PoolStatusUpdate nlb_pool
  | PoolStatusPatch nlb_pool
  | BindingUpdate tunnel_binding
  | BindingStatusPatch tunnel_binding

record 'w engine_state = "('w, api_write) io_state" +
  snapshot :: "(string, nlb) gomap option"

type_synonym ('w, 'a) engine_op = "('w engine_state, 'a) state"

fun is_oci_write :: "api_write \<Rightarrow> bool" where
  "is_oci_write (OciWrite _) = True"
| "is_oci_write _ = False"

definition oci_writes :: "api_write list \<Rightarrow> oci_mutation list" where
  "oci_writes ws = List.map_filter (\<lambda>w. case w of OciWrite m \<Rightarrow> Some m | _ \<Rightarrow> None) ws"

lemma oci_writes_simps [simp]:
  "oci_writes [] = []"
  "oci_writes (OciWrite m # ws) = m # oci_writes ws"
  "oci_writes (PoolUpdate p # ws) = oci_writes ws"
  "oci_writes (PoolStatusUpdate p # ws) = oci_writes ws"
  "oci_writes (PoolStatusPatch p # ws) = oci_writes ws"
  "oci_writes (BindingUpdate b # ws) = oci_writes ws"
  "oci_writes (BindingStatusPatch b # ws) = oci_writes ws"
  "oci_writes (ws @ ws') = oci_writes ws @ oci_writes ws'"
  by (simp_all add: oci_writes_def List.map_filter_def)

end
