(* ===== verification/Cloud.thy ===== *)
theory Cloud
  imports Allocation Services "HOL-Library.Multiset"
begin

text \<open>
  \<^verbatim>\<open>internalcontroller/cloud.go\<close> and \<^verbatim>\<open>cloud_cluster.go\<close>: ownership of a load balancer, discovery and
  creation of a shard, the description of the wanted backend set and listener, and the step that
  brings a load balancer one mutation closer to it.

  \<open>stepDecision\<close> is the part of \<^verbatim>\<open>StepBackends\<close> between the read and the mutation: it maps the load
  balancer that was read to an error, to nothing (converged) or to the one mutation to issue.
\<close>

abbreviation vstr :: "string option \<Rightarrow> string" where "vstr \<equiv> value_or ''''"
abbreviation vint :: "int option \<Rightarrow> int" where "vint \<equiv> value_or 0"
abbreviation vbool :: "bool option \<Rightarrow> bool" where "vbool \<equiv> value_or False"

section \<open>Definitions\<close>

record backend =
  bk_IP :: string
  bk_TargetID :: string
  bk_Port :: int

text \<open>
  The struct \<^verbatim>\<open>Cloud\<close>, with the context's \<^verbatim>\<open>Err\<close> method and the fuel for the paging loop of
  \<^verbatim>\<open>EnsureShard\<close>; its snapshot is part of the engine state.
\<close>

record 'w cloud =
  cd_Client :: "'w oci_client"
  cd_Installation :: string
  cd_CtxErr :: "'w \<Rightarrow> go_error option"
  cd_PageFuel :: nat

definition ResetSnapshot :: "('w, unit) engine_op" where
  "ResetSnapshot = modify (\<lambda>s. s\<lparr>snapshot := Some []\<rparr>)"

definition cloud_get :: "'w cloud \<Rightarrow> string \<Rightarrow> ('w, go_error + nlb) engine_op" where
  "cloud_get C nid = do {
     snap \<leftarrow> gets snapshot;
     case Option.bind snap (\<lambda>m. map_of m nid) of
       Some response \<Rightarrow> State_Monad.return (Inr response)
     | None \<Rightarrow> do {
         r \<leftarrow> call (oc_GetNLB (cd_Client C) nid);
         (case r of
            Inl e \<Rightarrow> State_Monad.return ()
          | Inr response \<Rightarrow> modify (\<lambda>s. s\<lparr>snapshot := map_option (AList.update nid response) (snapshot s)\<rparr>));
         State_Monad.return r
       }
   }"

text \<open>\<^verbatim>\<open>delete(c.snapshot, id)\<close> followed by the mutation; the answer's work request, or its error.\<close>

definition cloud_mutate :: "'w cloud \<Rightarrow> string \<Rightarrow> oci_mutation \<Rightarrow> ('w, go_error + string) engine_op" where
  "cloud_mutate C nid m = do {
     modify (\<lambda>s. s\<lparr>snapshot := map_option (AList.delete nid) (snapshot s)\<rparr>);
     r \<leftarrow> issue (OciWrite m) (oc_Mutate (cd_Client C) m);
     State_Monad.return (case r of Inl e \<Rightarrow> Inl e | Inr (i, work) \<Rightarrow> Inr (vstr work))
   }"

definition tags :: "'w cloud \<Rightarrow> nlb_pool \<Rightarrow> int \<Rightarrow> (string, string) gomap" where
  "tags C p shard =
     [(''controller'', ''independent-shared-nlb''), (''installation'', cd_Installation C),
      (''project'', cd_Installation C), (''pool-uid'', om_UID (np_Meta p)), (''shard'', itoa shard)]"

definition owns :: "'w cloud \<Rightarrow> nlb_pool \<Rightarrow> int \<Rightarrow> nlb \<Rightarrow> bool" where
  "owns C p shard lb \<longleftrightarrow>
     vstr (lb_CompartmentId lb) = ps_CompartmentID (np_Spec p) \<and>
     vstr (lb_SubnetId lb) = ps_SubnetID (np_Spec p) \<and>
     list_all (\<lambda>(k, v). k = ''project'' \<or> get_or '''' (lb_FreeformTags lb) k = v) (tags C p shard)"

definition Work :: "'w cloud \<Rightarrow> string \<Rightarrow> ('w, bool \<times> go_error option) engine_op" where
  "Work C nid = do {
     r \<leftarrow> call (oc_GetWorkRequest (cd_Client C) nid);
     State_Monad.return (case r of
         Inl e \<Rightarrow> (False, Some e)
       | Inr status \<Rightarrow>
           (if status = ''SUCCEEDED'' then (True, None)
            else if status = ''FAILED'' \<or> status = ''CANCELED''
            then (True, Some (Errorf (''OCI work request '' @ nid @ '' ended '' @ status)))
            else (False, None)))
   }"

text \<open>The discovery of a shard: one page of the listing, then the loop over the pages.\<close>

fun scanSummaries :: "string \<Rightarrow> string \<Rightarrow> int \<Rightarrow> nlb_summary list \<Rightarrow> string \<Rightarrow> go_error + string" where
  "scanSummaries installation poolUID index [] nid = Inr nid"
| "scanSummaries installation poolUID index (s # ss) nid =
     (if get_or '''' (ns_FreeformTags s) ''installation'' = installation \<and>
         get_or '''' (ns_FreeformTags s) ''pool-uid'' = poolUID \<and>
         get_or '''' (ns_FreeformTags s) ''shard'' = itoa index \<and> ns_LifecycleState s \<noteq> ''DELETED''
      then (if nid \<noteq> '''' then Inl (Errorf ''duplicate owned shard; manual repair required'')
            else scanSummaries installation poolUID index ss (vstr (ns_Id s)))
      else scanSummaries installation poolUID index ss nid)"

primrec listShards :: "nat \<Rightarrow> 'w cloud \<Rightarrow> nlb_pool \<Rightarrow> int \<Rightarrow> string option \<Rightarrow> string \<Rightarrow>
    ('w, go_error + string) engine_op" where
  "listShards 0 C p index page nid = State_Monad.return (Inl Diverges)"
| "listShards (Suc fuel) C p index page nid =
     tryM (call (oc_ListNLBs (cd_Client C) (ps_CompartmentID (np_Spec p)) page)) (\<lambda>(items, nextPage).
       (case scanSummaries (cd_Installation C) (om_UID (np_Meta p)) index items nid of
          Inl e \<Rightarrow> State_Monad.return (Inl e)
        | Inr nid' \<Rightarrow>
            (case nextPage of
               None \<Rightarrow> State_Monad.return (Inr nid')
             | Some token \<Rightarrow> listShards fuel C p index (Some token) nid')))"

definition createDetails :: "'w cloud \<Rightarrow> nlb_pool \<Rightarrow> int \<Rightarrow> create_nlb" where
  "createDetails C p index =
     (let token = om_UID (np_Meta p) @ ''-'' @ itoa index
      in \<lparr>cl_OpcRetryToken = token, cl_CompartmentId = ps_CompartmentID (np_Spec p),
          cl_SubnetId = ps_SubnetID (np_Spec p), cl_DisplayName = ''shared-nlb-'' @ token,
          cl_IsPrivate = False, cl_IsPreserveSourceDestination = False,
          cl_FreeformTags = tags C p index\<rparr>)"

definition publicIP :: "(string option \<times> bool option) list \<Rightarrow> string" where
  "publicIP ips = foldl (\<lambda>acc (ip, public). if vbool public then vstr ip else acc) '''' ips"

text \<open>
  With the error for a load balancer that is not active the source also returns a shard with its identifier; every
  caller drops it, so an error carries nothing here.
\<close>

definition EnsureShard :: "'w cloud \<Rightarrow> nlb_pool \<Rightarrow> int \<Rightarrow> ('w, go_error + (shard \<times> string)) engine_op" where
  "EnsureShard C p index =
     (if index < 0 \<or> ps_MaxShards (np_Spec p) \<le> index
      then State_Monad.return (Inl (Errorf (''invalid shard index '' @ itoa index)))
      else
        let known = (case shard_at (pool_shards p) index of None \<Rightarrow> '''' | Some s \<Rightarrow> sh_ID s)
        in tryM (if known = '''' then listShards (cd_PageFuel C) C p index None ''''
                 else State_Monad.return (Inr known)) (\<lambda>nid.
          if nid = '''' then do {
            r \<leftarrow> issue (OciWrite (CreateNetworkLoadBalancer (createDetails C p index)))
                   (oc_Mutate (cd_Client C) (CreateNetworkLoadBalancer (createDetails C p index)));
            State_Monad.return (case r of
                Inl e \<Rightarrow> Inl e
              | Inr (i, work) \<Rightarrow> Inr (\<lparr>sh_ID = vstr i, sh_PublicIP = ''''\<rparr>, vstr work))
          }
          else tryM (cloud_get C nid) (\<lambda>lb. State_Monad.return
            (if \<not> owns C p index lb then Inl (Errorf ''refusing NLB ownership/scope mismatch'')
             else if lb_LifecycleState lb \<noteq> ''ACTIVE''
             then Inl (Errorf (''owned NLB not ACTIVE: '' @ lb_LifecycleState lb))
             else Inr (\<lparr>sh_ID = nid, sh_PublicIP = publicIP (lb_IpAddresses lb)\<rparr>, '''')))))"

subsection \<open>Backends and health checks\<close>

definition health :: "int \<Rightarrow> health_checker" where
  "health port = \<lparr>hc_Protocol = ''TCP'', hc_Port = Some port, hc_UrlPath = None, hc_ReturnCode = None,
     hc_IntervalInMillis = Some 10000, hc_TimeoutInMillis = Some 3000, hc_Retries = Some 3,
     hc_RequestData = [], hc_ResponseData = [], hc_ResponseBodyRegex = None\<rparr>"

definition backendName :: "string \<Rightarrow> backend \<Rightarrow> string" where
  "backendName bindingName b =
     bindingName @ ''-'' @ sha_hex12 (bk_TargetID b @ [CHR 0x00] @ bk_IP b @ [CHR 0x00] @ itoa (bk_Port b))"

definition backendDetails :: "backend option \<Rightarrow> string \<Rightarrow> oci_backend list" where
  "backendDetails b bindingName =
     (case b of
        None \<Rightarrow> []
      | Some b \<Rightarrow>
          [\<lparr>ob_Name = Some (backendName bindingName b), ob_IpAddress = Some (bk_IP b),
            ob_TargetId = (if bk_TargetID b \<noteq> '''' then Some (bk_TargetID b) else None),
            ob_Port = Some (bk_Port b), ob_Weight = Some 1, ob_IsOffline = Some False,
            ob_IsDrain = Some False, ob_IsBackup = Some False\<rparr>])"

text \<open>The destination an existing backend stands for, and whether its flags are the wanted ones.\<close>

definition destination :: "oci_backend \<Rightarrow> backend" where
  "destination x = \<lparr>bk_IP = vstr (ob_IpAddress x), bk_TargetID = vstr (ob_TargetId x), bk_Port = vint (ob_Port x)\<rparr>"

definition plain_flags :: "oci_backend \<Rightarrow> bool" where
  "plain_flags x \<longleftrightarrow>
     vint (ob_Weight x) = 1 \<and> \<not> vbool (ob_IsOffline x) \<and> \<not> vbool (ob_IsDrain x) \<and> \<not> vbool (ob_IsBackup x)"

definition backendDetailsForUpdate :: "backend option \<Rightarrow> string \<Rightarrow> oci_backend list \<Rightarrow> oci_backend list" where
  "backendDetailsForUpdate b bindingName current =
     (case b of
        None \<Rightarrow> backendDetails b bindingName
      | Some d \<Rightarrow>
          (case find (\<lambda>x. vstr (ob_Name x) \<noteq> '''' \<and> vstr (ob_IpAddress x) = bk_IP d \<and>
                          vstr (ob_TargetId x) = bk_TargetID d \<and> vint (ob_Port x) = bk_Port d) current of
             Some existing \<Rightarrow> map (\<lambda>x. x\<lparr>ob_Name := ob_Name existing\<rparr>) (backendDetails b bindingName)
           | None \<Rightarrow> backendDetails b bindingName))"

definition backendListDetails :: "backend list \<Rightarrow> string \<Rightarrow> oci_backend list \<Rightarrow> oci_backend list" where
  "backendListDetails backends name current =
     concat (map (\<lambda>b. backendDetailsForUpdate (Some b) name current) backends)"

definition sameBackends :: "oci_backend list \<Rightarrow> backend option \<Rightarrow> bool" where
  "sameBackends current b =
     (case b of
        None \<Rightarrow> current = []
      | Some b \<Rightarrow>
          (case current of
             [x] \<Rightarrow> vstr (ob_IpAddress x) = bk_IP b \<and> vstr (ob_TargetId x) = bk_TargetID b \<and>
                    vint (ob_Port x) = bk_Port b \<and> vint (ob_Weight x) = 1 \<and>
                    \<not> vbool (ob_IsOffline x) \<and> \<not> vbool (ob_IsDrain x) \<and> \<not> vbool (ob_IsBackup x)
           | _ \<Rightarrow> False))"

fun sameBackendsLoop :: "oci_backend list \<Rightarrow> backend list \<Rightarrow> backend list \<Rightarrow> bool" where
  "sameBackendsLoop current [] seen = True"
| "sameBackendsLoop current (b # bs) seen =
     (if b \<in> set seen then False
      else if \<not> list_ex (\<lambda>existing. sameBackends [existing] (Some b)) current then False
      else sameBackendsLoop current bs (b # seen))"

definition sameBackendList :: "oci_backend list \<Rightarrow> backend list \<Rightarrow> bool" where
  "sameBackendList current desired \<longleftrightarrow>
     length current = length desired \<and> sameBackendsLoop current desired []"

definition sameHealth :: "health_checker option \<Rightarrow> int \<Rightarrow> bool" where
  "sameHealth h port =
     (case h of None \<Rightarrow> False
      | Some h \<Rightarrow> hc_Protocol h = ''TCP'' \<and> vint (hc_Port h) = port \<and>
          vint (hc_IntervalInMillis h) = 10000 \<and> vint (hc_TimeoutInMillis h) = 3000 \<and>
          vint (hc_Retries h) = 3 \<and> length (hc_RequestData h) = 0 \<and> length (hc_ResponseData h) = 0)"

definition modeHealth :: "string \<Rightarrow> int \<Rightarrow> health_checker" where
  "modeHealth mode port =
     (if mode = ''NodePortCluster''
      then (health port)\<lparr>hc_Protocol := ''HTTP'', hc_Port := Some 10256, hc_UrlPath := Some ''/healthz'',
              hc_ReturnCode := Some 200\<rparr>
      else health port)"

definition sameModeHealth :: "health_checker option \<Rightarrow> string \<Rightarrow> int \<Rightarrow> bool" where
  "sameModeHealth h mode port =
     (if mode \<noteq> ''NodePortCluster'' then sameHealth h port
      else (case h of None \<Rightarrow> False
        | Some h \<Rightarrow> hc_Protocol h = ''HTTP'' \<and> vint (hc_Port h) = 10256 \<and> vstr (hc_UrlPath h) = ''/healthz'' \<and>
            vint (hc_ReturnCode h) = 200 \<and> vint (hc_IntervalInMillis h) = 10000 \<and>
            vint (hc_TimeoutInMillis h) = 3000 \<and> vint (hc_Retries h) = 3 \<and>
            length (hc_RequestData h) = 0 \<and> length (hc_ResponseData h) = 0 \<and>
            vstr (hc_ResponseBodyRegex h) = ''''))"

text \<open>The key \<^verbatim>\<open>fmt.Sprintf("%s:%d", b.IP, b.Port)\<close> under which a desired destination is counted.\<close>

definition destinationKey :: "backend \<Rightarrow> string" where
  "destinationKey b = bk_IP b @ '':'' @ itoa (bk_Port b)"

fun duplicateKeys :: "backend list \<Rightarrow> string list \<Rightarrow> bool" where
  "duplicateKeys [] seen = False"
| "duplicateKeys (b # bs) seen =
     (if destinationKey b \<in> set seen then True else duplicateKeys bs (destinationKey b # seen))"

definition backendTotal :: "(string, backend_set) gomap \<Rightarrow> string \<Rightarrow> int" where
  "backendTotal sets own =
     (\<Sum>(name, bs) \<leftarrow> filter (\<lambda>(name, bs). name \<noteq> own) sets. int (length (os_Backends bs)))"

definition validateBackendBudget :: "nlb \<Rightarrow> string \<Rightarrow> backend list \<Rightarrow> go_error option" where
  "validateBackendBudget lb own desired =
     (if 512 < length desired then Some (BackendCapacityError ''backend set exceeds 512 destinations'')
      else if duplicateKeys desired [] then Some (Errorf ''duplicate desired backend destination'')
      else if 1024 < int (length desired) + backendTotal (lb_BackendSets lb) own
      then Some (BackendCapacityError ''NLB backend capacity exceeded: maximum 1024 including all backend sets'')
      else None)"

subsection \<open>The step\<close>

definition ownedNames :: "nlb_pool \<Rightarrow> int \<Rightarrow> string list" where
  "ownedNames p shard = map al_Name (filter (\<lambda>v. al_Shard v = shard) (map_values (pool_allocations p)))"

definition wantedSet :: "nlb_pool \<Rightarrow> allocation \<Rightarrow> backend list \<Rightarrow> int \<Rightarrow> oci_backend list \<Rightarrow> backend_set" where
  "wantedSet p a backends healthPort current =
     \<lparr>os_Policy = ''FIVE_TUPLE'', os_HealthChecker = Some (modeHealth (al_Mode a) healthPort),
      os_Backends = backendListDetails backends (al_Name a) current,
      os_IsPreserveSource = Some (ps_PreserveSource (np_Spec p)), os_IsFailOpen = Some False,
      os_IsInstantFailoverEnabled = Some True\<rparr>"

definition wantedListener :: "allocation \<Rightarrow> listener" where
  "wantedListener a =
     \<lparr>ol_DefaultBackendSetName = Some (al_Name a), ol_Port = Some (al_Port a), ol_Protocol = ''UDP'',
      ol_IsPpv2Enabled = None, ol_UdpIdleTimeout = Some 120\<rparr>"

definition setMatches :: "nlb_pool \<Rightarrow> allocation \<Rightarrow> backend list \<Rightarrow> int \<Rightarrow> backend_set \<Rightarrow> bool" where
  "setMatches p a backends healthPort bs \<longleftrightarrow>
     sameBackendList (os_Backends bs) backends \<and> sameModeHealth (os_HealthChecker bs) (al_Mode a) healthPort \<and>
     os_Policy bs = ''FIVE_TUPLE'' \<and> vbool (os_IsPreserveSource bs) = ps_PreserveSource (np_Spec p) \<and>
     \<not> vbool (os_IsFailOpen bs) \<and> vbool (os_IsInstantFailoverEnabled bs)"

definition listenerMatches :: "allocation \<Rightarrow> listener \<Rightarrow> bool" where
  "listenerMatches a l \<longleftrightarrow>
     vint (ol_Port l) = al_Port a \<and> vstr (ol_DefaultBackendSetName l) = al_Name a \<and>
     ol_Protocol l = ''UDP'' \<and> \<not> vbool (ol_IsPpv2Enabled l) \<and> vint (ol_UdpIdleTimeout l) = 120"

text \<open>What precedes the changes: ownership, lifecycle, and no object the ledger does not know.\<close>

definition stepRefusal :: "'w cloud \<Rightarrow> nlb_pool \<Rightarrow> allocation \<Rightarrow> nlb \<Rightarrow> go_error option" where
  "stepRefusal C p a lb =
     (if \<not> owns C p (al_Shard a) lb then Some (Errorf ''refusing NLB ownership mismatch'')
      else if lb_LifecycleState lb \<noteq> ''ACTIVE'' then Some (Errorf ''NLB update in progress'')
      else if \<not> list_all (\<lambda>n. n \<in> set (ownedNames p (al_Shard a))) (map_keys (lb_Listeners lb))
      then Some (Errorf ''unowned listener on shard'')
      else if \<not> list_all (\<lambda>n. n \<in> set (ownedNames p (al_Shard a))) (map_keys (lb_BackendSets lb))
      then Some (Errorf ''unowned backend set on shard'') else None)"

definition admissionError :: "nlb_pool \<Rightarrow> allocation \<Rightarrow> backend list \<Rightarrow> nlb \<Rightarrow> go_error option" where
  "admissionError p a backends lb =
     (if list_ex (\<lambda>b. ps_PreserveSource (np_Spec p) \<and> (bk_TargetID b = '''' \<or> al_Mode a = ''NodePortCluster'')) backends
      then Some (Errorf ''source preservation requires verified instance target and is unsupported in NodePortCluster'')
      else if al_Mode a = ''NodePortCluster'' \<and> workerLimit (np_Spec p) < int (length backends)
      then Some (BackendCapacityError ''desired workers exceed configured maxWorkers including surge'')
      else validateBackendBudget lb (al_Name a) backends)"

definition stepDecision :: "'w cloud \<Rightarrow> nlb_pool \<Rightarrow> allocation \<Rightarrow> backend list \<Rightarrow> int \<Rightarrow> bool \<Rightarrow> string \<Rightarrow> nlb \<Rightarrow>
    go_error + oci_mutation option" where
  "stepDecision C p a backends healthPort remove nid lb =
     (case stepRefusal C p a lb of Some e \<Rightarrow> Inl e | None \<Rightarrow>
       (let hasListener = has_key (lb_Listeners lb) (al_Name a); hasSet = has_key (lb_BackendSets lb) (al_Name a)
        in if remove then
             (if hasListener then Inr (Some (DeleteListener nid (al_Name a)))
              else if hasSet then Inr (Some (DeleteBackendSet nid (al_Name a)))
              else Inr None)
           else
             (case admissionError p a backends lb of Some e \<Rightarrow> Inl e | None \<Rightarrow>
               (case map_of (lb_BackendSets lb) (al_Name a) of
                  None \<Rightarrow> Inr (Some (CreateBackendSet nid (al_Name a) (wantedSet p a backends healthPort [])))
                | Some bs \<Rightarrow>
                    (if \<not> setMatches p a backends healthPort bs
                     then Inr (Some (UpdateBackendSet nid (al_Name a)
                            (wantedSet p a backends healthPort (os_Backends bs))))
                     else (case map_of (lb_Listeners lb) (al_Name a) of
                             None \<Rightarrow> Inr (Some (CreateListener nid (al_Name a) (wantedListener a)))
                           | Some l \<Rightarrow>
                               (if \<not> listenerMatches a l
                                then Inl (Errorf ''listener drift requires operator repair'')
                                else Inr None)))))))"

text \<open>The identifier of the allocation's shard, or the refusal if there is none.\<close>

definition provisionedShard :: "nlb_pool \<Rightarrow> allocation \<Rightarrow> string option" where
  "provisionedShard p a =
     (case shard_at (pool_shards p) (al_Shard a) of
        None \<Rightarrow> None | Some s \<Rightarrow> (if sh_ID s = '''' then None else Some (sh_ID s)))"

definition StepBackends :: "'w cloud \<Rightarrow> nlb_pool \<Rightarrow> allocation \<Rightarrow> backend list \<Rightarrow> int \<Rightarrow> bool \<Rightarrow>
    ('w, go_error + string) engine_op" where
  "StepBackends C p a backends healthPort remove = do {
     cancelled \<leftarrow> gets (\<lambda>s. cd_CtxErr C (world s));
     case cancelled of
       Some e \<Rightarrow> State_Monad.return (Inl e)
     | None \<Rightarrow>
         (case provisionedShard p a of
            None \<Rightarrow> State_Monad.return (Inl (Errorf ''allocation has no provisioned shard''))
          | Some nid \<Rightarrow>
              tryM (cloud_get C nid) (\<lambda>lb.
                (case stepDecision C p a backends healthPort remove nid lb of
                   Inl e \<Rightarrow> State_Monad.return (Inl e)
                 | Inr None \<Rightarrow> State_Monad.return (Inr '''')
                 | Inr (Some m) \<Rightarrow> cloud_mutate C nid m)))
   }"

definition Step :: "'w cloud \<Rightarrow> nlb_pool \<Rightarrow> allocation \<Rightarrow> backend option \<Rightarrow> int \<Rightarrow> bool \<Rightarrow>
    ('w, go_error + string) engine_op" where
  "Step C p a b healthPort remove =
     StepBackends C p a (case b of None \<Rightarrow> [] | Some b \<Rightarrow> [b]) healthPort remove"

definition conflictsWith :: "nlb \<Rightarrow> string \<Rightarrow> backend \<Rightarrow> bool" where
  "conflictsWith lb own b \<longleftrightarrow>
     list_ex (\<lambda>(name, bs). name \<noteq> own \<and>
       list_ex (\<lambda>x. vstr (ob_IpAddress x) = bk_IP b \<and> vint (ob_Port x) = bk_Port b) (os_Backends bs))
     (lb_BackendSets lb)"

definition destinationConflict :: "'w cloud \<Rightarrow> nlb_pool \<Rightarrow> allocation \<Rightarrow> backend \<Rightarrow> ('w, go_error + bool) engine_op" where
  "destinationConflict C p a b =
     (case provisionedShard p a of
        None \<Rightarrow> State_Monad.return (Inl (Errorf ''allocation has no provisioned shard''))
      | Some nid \<Rightarrow>
          tryM (cloud_get C nid) (\<lambda>lb. State_Monad.return
            (if \<not> owns C p (al_Shard a) lb then Inl (Errorf ''refusing NLB ownership mismatch'')
             else Inr (conflictsWith lb (al_Name a) b))))"

definition legacyPortProof :: "nlb \<Rightarrow> string \<Rightarrow> int \<Rightarrow> bool" where
  "legacyPortProof lb name port =
     (case map_of (lb_BackendSets lb) name of
        None \<Rightarrow> False
      | Some bs \<Rightarrow> os_Backends bs \<noteq> [] \<and>
          list_all (\<lambda>x. vint (ob_Port x) = port \<and> vstr (ob_IpAddress x) \<noteq> '''' \<and> vstr (ob_TargetId x) \<noteq> '''')
            (os_Backends bs))"

definition verifyLegacyNodePort :: "'w cloud \<Rightarrow> nlb_pool \<Rightarrow> allocation \<Rightarrow> int \<Rightarrow> ('w, go_error + bool) engine_op" where
  "verifyLegacyNodePort C p a port = do {
     cancelled \<leftarrow> gets (\<lambda>s. cd_CtxErr C (world s));
     case cancelled of
       Some e \<Rightarrow> State_Monad.return (Inl e)
     | None \<Rightarrow>
         (case provisionedShard p a of
            None \<Rightarrow> State_Monad.return (Inr False)
          | Some nid \<Rightarrow>
              tryM (cloud_get C nid) (\<lambda>lb. State_Monad.return
                (if \<not> owns C p (al_Shard a) lb \<or> lb_LifecycleState lb \<noteq> ''ACTIVE''
                 then Inl (Errorf ''cannot verify legacy NodePort on unowned or inactive NLB'')
                 else if \<not> list_all (\<lambda>n. n \<in> set (ownedNames p (al_Shard a))) (map_keys (lb_Listeners lb))
                 then Inl (Errorf ''unowned listener prevents NodePort migration'')
                 else if \<not> list_all (\<lambda>n. n \<in> set (ownedNames p (al_Shard a))) (map_keys (lb_BackendSets lb))
                 then Inl (Errorf ''unowned backend set prevents NodePort migration'')
                 else Inr (legacyPortProof lb (al_Name a) port))))
   }"

section \<open>Comparing backends\<close>

lemma sameBackends_singleton: "sameBackends [x] (Some b) \<longleftrightarrow> destination x = b \<and> plain_flags x"
  by (cases b) (auto simp: sameBackends_def destination_def plain_flags_def)

lemma sameBackendsLoop_iff:
  "sameBackendsLoop current desired seen \<longleftrightarrow>
     distinct desired \<and> set desired \<inter> set seen = {} \<and>
     (\<forall>b \<in> set desired. \<exists>x \<in> set current. destination x = b \<and> plain_flags x)"
  by (induction current desired seen rule: sameBackendsLoop.induct)
     (auto simp: list_ex_iff sameBackends_singleton)

lemma sameBackendList_mset:
  "sameBackendList current desired \<longleftrightarrow>
     distinct desired \<and> mset (map destination current) = mset desired \<and> list_all plain_flags current"
proof
  assume same: "sameBackendList current desired"
  let ?good = "filter plain_flags current"
  have len: "length current = length desired" and dist: "distinct desired"
    and found: "set desired \<subseteq> set (map destination ?good)"
    using same by (auto simp: sameBackendList_def sameBackendsLoop_iff)
  have "length desired = card (set desired)" using dist by (simp add: distinct_card)
  also have "\<dots> \<le> card (set (map destination ?good))" using found by (intro card_mono) auto
  also have "\<dots> \<le> length (map destination ?good)" by (rule card_length)
  finally have "length current \<le> length ?good" using len by simp
  then have all: "?good = current"
    by (metis length_filter_le filter_id_conv length_filter_less linorder_not_le)
  then have flags: "list_all plain_flags current" by (metis filter_id_conv list_all_iff)
  have sub: "set desired \<subseteq> set (map destination current)" using found all by simp
  have "card (set (map destination current)) \<le> length current" using card_length [of "map destination current"] by simp
  then have cards: "card (set (map destination current)) \<le> card (set desired)"
    using len dist by (simp add: distinct_card)
  then have eq: "set (map destination current) = set desired"
    using card_seteq [OF finite_set sub] by simp
  then have "distinct (map destination current)"
    using len dist by (metis card_distinct distinct_card length_map)
  then have "mset (map destination current) = mset desired"
    using eq dist set_eq_iff_mset_eq_distinct by blast
  with dist flags show "distinct desired \<and> mset (map destination current) = mset desired \<and> list_all plain_flags current"
    by simp
next
  assume r: "distinct desired \<and> mset (map destination current) = mset desired \<and> list_all plain_flags current"
  then have "length current = length desired" by (metis length_map size_mset)
  moreover have "set desired = destination ` set current" using r by (metis list.set_map set_mset_mset)
  ultimately show "sameBackendList current desired"
    using r by (auto simp: sameBackendList_def sameBackendsLoop_iff list_all_iff)
qed

lemma destinationKey_inject:
  "destinationKey b = destinationKey c \<longleftrightarrow> bk_IP b = bk_IP c \<and> bk_Port b = bk_Port c"
proof
  assume eq: "destinationKey b = destinationKey c"
  have split: "dropWhile (\<lambda>x. x \<noteq> CHR '':'') (rev (destinationKey d)) = CHR '':'' # rev (bk_IP d)"
    "takeWhile (\<lambda>x. x \<noteq> CHR '':'') (rev (destinationKey d)) = rev (itoa (bk_Port d))" for d
  proof -
    have no: "\<forall>x \<in> set (rev (itoa (bk_Port d))). x \<noteq> CHR '':''" using itoa_no_colon [of "bk_Port d"] by auto
    have eq: "rev (destinationKey d) = rev (itoa (bk_Port d)) @ CHR '':'' # rev (bk_IP d)"
      by (simp add: destinationKey_def)
    show "dropWhile (\<lambda>x. x \<noteq> CHR '':'') (rev (destinationKey d)) = CHR '':'' # rev (bk_IP d)"
      unfolding eq using no by (subst dropWhile_append2) auto
    show "takeWhile (\<lambda>x. x \<noteq> CHR '':'') (rev (destinationKey d)) = rev (itoa (bk_Port d))"
      unfolding eq using no by (subst takeWhile_append2) auto
  qed
  from eq split [of b] split [of c] show "bk_IP b = bk_IP c \<and> bk_Port b = bk_Port c" by simp
next
  assume "bk_IP b = bk_IP c \<and> bk_Port b = bk_Port c"
  then show "destinationKey b = destinationKey c" by (simp add: destinationKey_def)
qed

lemma duplicateKeys_iff:
  "\<not> duplicateKeys bs seen \<longleftrightarrow> distinct (map destinationKey bs) \<and> set (map destinationKey bs) \<inter> set seen = {}"
  by (induction bs seen rule: duplicateKeys.induct) auto

lemma duplicateKeys_destinations:
  "\<not> duplicateKeys bs [] \<longleftrightarrow> distinct (map (\<lambda>b. (bk_IP b, bk_Port b)) bs)"
  by (auto simp: duplicateKeys_iff distinct_map inj_on_def destinationKey_inject)

section \<open>The wanted configuration is a fixed point\<close>

lemma destination_details:
  assumes "x \<in> set (backendDetailsForUpdate (Some b) name current)"
  shows "destination x = b" "plain_flags x"
  using assms
  by (auto simp: backendDetailsForUpdate_def backendDetails_def destination_def plain_flags_def
      split: option.splits if_splits)

lemma length_details: "length (backendDetailsForUpdate (Some b) name current) = 1"
  by (simp add: backendDetailsForUpdate_def backendDetails_def split: option.split)

lemma backendListDetails_destinations:
  "map destination (backendListDetails bs name current) = bs"
  "list_all plain_flags (backendListDetails bs name current)"
proof (induction bs)
  case Nil
  { case 1 then show ?case by (simp add: backendListDetails_def) }
  { case 2 then show ?case by (simp add: backendListDetails_def) }
next
  case (Cons b bs)
  obtain x where x: "backendDetailsForUpdate (Some b) name current = [x]"
    using length_details [of b name current] by (auto simp: length_Suc_conv)
  then have "destination x = b" "plain_flags x" using destination_details [of x b name current] by auto
  note facts = x this Cons
  { case 1 then show ?case using facts by (simp add: backendListDetails_def) }
  { case 2 then show ?case using facts by (simp add: backendListDetails_def) }
qed

lemma sameBackendList_details:
  "distinct bs \<Longrightarrow> sameBackendList (backendListDetails bs name current) bs"
  by (simp add: sameBackendList_mset backendListDetails_destinations)

lemma sameModeHealth_wanted: "sameModeHealth (Some (modeHealth mode port)) mode port"
  by (simp add: sameModeHealth_def sameHealth_def modeHealth_def health_def)

lemma setMatches_wanted:
  "distinct backends \<Longrightarrow> setMatches p a backends hp (wantedSet p a backends hp current)"
  by (simp add: setMatches_def wantedSet_def sameBackendList_details sameModeHealth_wanted)

lemma listenerMatches_wanted: "listenerMatches a (wantedListener a)"
  by (simp add: listenerMatches_def wantedListener_def)

lemma admission_distinct:
  assumes "admissionError p a backends lb = None"
  shows "distinct backends"
proof -
  have "\<not> duplicateKeys backends []"
    using assms by (auto simp: admissionError_def validateBackendBudget_def split: if_splits)
  then show ?thesis by (simp add: duplicateKeys_destinations distinct_map)
qed

end
