(* ===== verification/Net_IP.thy ===== *)
theory Net_IP
  imports Prelude
begin

text \<open>
  \<^verbatim>\<open>net.ParseIP\<close> and \<^verbatim>\<open>IP.To4\<close> of Go's standard library, on strings.  The resolvers accept an address
  when \<^verbatim>\<open>net.ParseIP(a).To4() != nil\<close>, which is \<open>is_ipv4 a\<close> here: dotted decimal without leading
  zeros, or the IPv6 spelling of a mapped IPv4 address.
\<close>

fun split_on :: "char \<Rightarrow> string \<Rightarrow> string list" where
  "split_on c [] = [[]]"
| "split_on c (x # xs) =
     (if x = c then [] # split_on c xs
      else (case split_on c xs of [] \<Rightarrow> [[x]] | p # ps \<Rightarrow> (x # p) # ps))"

definition parse_octet :: "string \<Rightarrow> nat option" where
  "parse_octet s =
     (if s = [] \<or> \<not> list_all is_digit s \<or> (1 < length s \<and> hd s = CHR ''0'') \<or> 255 < digits_val s
      then None else Some (digits_val s))"

definition parse_ipv4 :: "string \<Rightarrow> nat list option" where
  "parse_ipv4 s =
     (let ps = map parse_octet (split_on (CHR ''.'') s)
      in if length ps = 4 \<and> list_all (\<lambda>p. p \<noteq> None) ps then Some (map the ps) else None)"

definition hex_val :: "char \<Rightarrow> nat option" where
  "hex_val c =
     (let n = (of_char c :: nat)
      in if 48 \<le> n \<and> n \<le> 57 then Some (n - 48)
         else if 97 \<le> n \<and> n \<le> 102 then Some (n - 87)
         else if 65 \<le> n \<and> n \<le> 70 then Some (n - 55) else None)"

definition is_hex :: "char \<Rightarrow> bool" where
  "is_hex c \<longleftrightarrow> hex_val c \<noteq> None"

definition hex_num :: "string \<Rightarrow> nat" where
  "hex_num s = foldl (\<lambda>a c. 16 * a + value_or 0 (hex_val c)) 0 s"

text \<open>
  The loop of \<^verbatim>\<open>netip.parseIPv6\<close>: the first argument bounds the sixteen-bit groups still to come,
  \<open>bs\<close> are the bytes read, \<open>ell\<close> is the position of the ellipsis.
\<close>

fun ipv6_groups :: "nat \<Rightarrow> string \<Rightarrow> nat list \<Rightarrow> nat option \<Rightarrow> (nat list \<times> nat option) option" where
  "ipv6_groups 0 s bs ell = (if s = [] then Some (bs, ell) else None)"
| "ipv6_groups (Suc n) s bs ell =
     (let h = takeWhile is_hex s; rest = dropWhile is_hex s;
          bs' = bs @ [hex_num h div 256, hex_num h mod 256]
      in if h = [] \<or> 4 < length h then None
         else if rest \<noteq> [] \<and> hd rest = CHR ''.'' then
           (if (ell = None \<and> length bs \<noteq> 12) \<or> 12 < length bs then None
            else map_option (\<lambda>q. (bs @ q, ell)) (parse_ipv4 s))
         else if rest = [] then Some (bs', ell)
         else if hd rest \<noteq> CHR '':'' \<or> tl rest = [] then None
         else if hd (tl rest) = CHR '':'' then
           (if ell \<noteq> None then None
            else if tl (tl rest) = [] then Some (bs', Some (length bs'))
            else ipv6_groups n (tl (tl rest)) bs' (Some (length bs')))
         else ipv6_groups n (tl rest) bs' ell)"

definition expand_ellipsis :: "nat list \<times> nat option \<Rightarrow> nat list option" where
  "expand_ellipsis r = (case r of (bs, ell) \<Rightarrow>
     if length bs < 16
     then (case ell of None \<Rightarrow> None
           | Some e \<Rightarrow> Some (take e bs @ replicate (16 - length bs) 0 @ drop e bs))
     else if ell = None then Some bs else None)"

definition parse_ipv6 :: "string \<Rightarrow> nat list option" where
  "parse_ipv6 s =
     (if take 2 s = ''::'' then
        (if drop 2 s = [] then Some (replicate 16 0)
         else Option.bind (ipv6_groups 8 (drop 2 s) [] (Some 0)) expand_ellipsis)
      else Option.bind (ipv6_groups 8 s [] None) expand_ellipsis)"

text \<open>An address with a zone is refused by \<^verbatim>\<open>net.ParseIP\<close>; the result is the 16-byte form.\<close>

definition parse_ip :: "string \<Rightarrow> nat list option" where
  "parse_ip s =
     (if CHR ''%'' \<in> set s then None
      else (case dropWhile (\<lambda>c. c \<noteq> CHR ''.'' \<and> c \<noteq> CHR '':'') s of
              [] \<Rightarrow> None
            | c # _ \<Rightarrow> (if c = CHR ''.''
                        then map_option (\<lambda>q. replicate 10 0 @ [255, 255] @ q) (parse_ipv4 s)
                        else parse_ipv6 s)))"

definition to4 :: "nat list \<Rightarrow> nat list option" where
  "to4 b = (if length b = 16 \<and> take 10 b = replicate 10 0 \<and> b ! 10 = 255 \<and> b ! 11 = 255
            then Some (drop 12 b) else None)"

definition is_ipv4 :: "string \<Rightarrow> bool" where
  "is_ipv4 s \<longleftrightarrow> (case parse_ip s of None \<Rightarrow> False | Some b \<Rightarrow> to4 b \<noteq> None)"

section \<open>Facts the resolvers use\<close>

lemma is_ipv4_Nil [simp]: "\<not> is_ipv4 []"
  by (simp add: is_ipv4_def parse_ip_def)

lemmas ip_eval = is_ipv4_def parse_ip_def parse_ipv4_def parse_octet_def to4_def is_digit_def
  digits_val_def digit_val_def

lemma is_ipv4_node [simp]: "is_ipv4 ''10.0.0.1''" "is_ipv4 ''10.0.0.2''" "is_ipv4 ''10.1.2.3''"
  by (simp_all add: ip_eval numeral_eq_Suc)

end
