(* ===== verification/Endpoints.thy ===== *)
theory Endpoints
  imports Cloud Net_IP
begin

text \<open>
  \<^verbatim>\<open>endpoint_snapshot.go\<close>, \<^verbatim>\<open>endpoints.go\<close> and \<^verbatim>\<open>endpoints_podip.go\<close>: how a binding is resolved to one
  verified destination, by the node port of the node its single ready Pod runs on or by the address of
  that Pod.

  A resolver reads through the interface \<^verbatim>\<open>client.Reader\<close>, here the record \<open>reader\<close>.  The engine passes
  it a snapshot that was listed once, so a read answers the same however often it is made; a cancelled
  context shows up as an error of every read.  Label selectors are evaluated by \<open>selectorMatches\<close> of
  \<^typ>\<open>kube_lib\<close>.
\<close>

section \<open>Reading\<close>

record reader =
  rd_GetService :: "object_key \<Rightarrow> go_error + service"
  rd_GetPod :: "object_key \<Rightarrow> go_error + pod"
  rd_GetNode :: "object_key \<Rightarrow> go_error + node"
  rd_ListSlices :: "string \<Rightarrow> (string, string) gomap \<Rightarrow> go_error + endpoint_slice list"
  rd_ListNodes :: "go_error + node list"

record endpoint_snapshot =
  sn_services :: "(object_key, service) gomap"
  sn_pods :: "(object_key, pod) gomap"
  sn_nodes :: "(object_key, node) gomap"
  sn_slices :: "endpoint_slice list"

text \<open>\<^verbatim>\<open>snapshot.xs[client.ObjectKeyFromObject(&item)] = item\<close> for every item: a later one wins.\<close>

definition index_by :: "('a \<Rightarrow> object_meta) \<Rightarrow> 'a list \<Rightarrow> (object_key, 'a) gomap" where
  "index_by meta items = fold (\<lambda>x m. AList.update (key_of (meta x)) x m) items []"

definition readList :: "('w \<Rightarrow> (go_error + 'a) \<times> 'w) \<Rightarrow> ('w, go_error + 'a) engine_op" where
  "readList f = do {
     r \<leftarrow> call f;
     State_Monad.return (case r of Inl e \<Rightarrow> Inl (EndpointReadError e) | Inr xs \<Rightarrow> Inr xs)
   }"

definition newEndpointSnapshot :: "'w kube_client \<Rightarrow> string \<Rightarrow> ('w, go_error + endpoint_snapshot) engine_op" where
  "newEndpointSnapshot K namespace =
     tryM (readList (kc_ListServices K namespace)) (\<lambda>services.
     tryM (readList (kc_ListSlices K namespace)) (\<lambda>slices.
     tryM (readList (kc_ListPods K namespace)) (\<lambda>pods.
     tryM (readList (kc_ListNodes K)) (\<lambda>nodes.
       State_Monad.return (Inr \<lparr>sn_services = index_by sv_Meta services, sn_pods = index_by pd_Meta pods,
         sn_nodes = index_by nd_Meta nodes, sn_slices = slices\<rparr>)))))"

text \<open>The methods \<^verbatim>\<open>Get\<close> and \<^verbatim>\<open>List\<close> of the snapshot; \<open>cancelled\<close> is \<^verbatim>\<open>ctx.Err()\<close>.\<close>

definition snapshotGet :: "go_error option \<Rightarrow> (object_key, 'a) gomap \<Rightarrow> object_key \<Rightarrow> go_error + 'a" where
  "snapshotGet cancelled items k =
     (case cancelled of Some e \<Rightarrow> Inl e
      | None \<Rightarrow> (case map_of items k of None \<Rightarrow> Inl (NotFound (snd k)) | Some item \<Rightarrow> Inr item))"

definition snapshotMatches :: "kube_lib \<Rightarrow> string \<Rightarrow> (string, string) gomap option \<Rightarrow> object_meta \<Rightarrow> bool" where
  "snapshotMatches L namespace selector m \<longleftrightarrow>
     (namespace = '''' \<or> namespace = om_Namespace m) \<and>
     (case selector of None \<Rightarrow> True | Some sel \<Rightarrow> selectorMatches L sel (om_Labels m))"

definition snapshotListSlices :: "kube_lib \<Rightarrow> go_error option \<Rightarrow> endpoint_snapshot \<Rightarrow> string \<Rightarrow>
    (string, string) gomap \<Rightarrow> go_error + endpoint_slice list" where
  "snapshotListSlices L cancelled S namespace selector =
     (case cancelled of Some e \<Rightarrow> Inl e
      | None \<Rightarrow> Inr (filter (\<lambda>x. snapshotMatches L namespace (Some selector) (es_Meta x)) (sn_slices S)))"

definition snapshotListNodes :: "kube_lib \<Rightarrow> go_error option \<Rightarrow> endpoint_snapshot \<Rightarrow> go_error + node list" where
  "snapshotListNodes L cancelled S =
     (case cancelled of Some e \<Rightarrow> Inl e
      | None \<Rightarrow> Inr (filter (\<lambda>x. snapshotMatches L '''' None (nd_Meta x)) (map_values (sn_nodes S))))"

definition snapshotReader :: "kube_lib \<Rightarrow> go_error option \<Rightarrow> endpoint_snapshot \<Rightarrow> reader" where
  "snapshotReader L cancelled S =
     \<lparr>rd_GetService = snapshotGet cancelled (sn_services S), rd_GetPod = snapshotGet cancelled (sn_pods S),
      rd_GetNode = snapshotGet cancelled (sn_nodes S), rd_ListSlices = snapshotListSlices L cancelled S,
      rd_ListNodes = snapshotListNodes L cancelled S\<rparr>"

definition endpointGetError :: "go_error \<Rightarrow> go_error" where
  "endpointGetError e = (if is_not_found e then e else EndpointReadError e)"

definition LabelServiceName :: string where
  "LabelServiceName = ''kubernetes.io/service-name''"

definition listServiceSlices :: "reader \<Rightarrow> tunnel_binding \<Rightarrow> service \<Rightarrow> go_error + endpoint_slice list" where
  "listServiceSlices R b svc =
     (case rd_ListSlices R (om_Namespace (tb_Meta b)) [(LabelServiceName, om_Name (sv_Meta svc))] of
        Inl e \<Rightarrow> Inl (EndpointReadError e) | Inr slices \<Rightarrow> Inr slices)"

section \<open>Checks on one object\<close>

text \<open>A loop that sets a flag when one of the conditions is the given one and \<^verbatim>\<open>True\<close>.\<close>

definition hasCondition :: "string \<Rightarrow> (string \<times> string) list \<Rightarrow> bool" where
  "hasCondition ty conds \<longleftrightarrow> list_ex (\<lambda>(t, v). t = ty \<and> v = ''True'') conds"

definition podReady :: "pod \<Rightarrow> bool" where
  "podReady pod = hasCondition ''Ready'' (pd_Conditions pod)"

definition nodeReady :: "node \<Rightarrow> bool" where
  "nodeReady node = hasCondition ''Ready'' (nd_Conditions node)"

definition instanceID :: "node \<Rightarrow> string" where
  "instanceID node = trim_prefix (nd_ProviderID node) ''oci://''"

definition sliceOwned :: "service \<Rightarrow> endpoint_slice \<Rightarrow> bool" where
  "sliceOwned svc s \<longleftrightarrow>
     list_ex (\<lambda>o'. or_UID o' = om_UID (sv_Meta svc) \<and> or_Kind o' = ''Service'') (om_OwnerReferences (es_Meta s))"

definition refersToPod :: "tunnel_binding \<Rightarrow> endpoint \<Rightarrow> bool" where
  "refersToPod b ep \<longleftrightarrow>
     (case ep_TargetRef ep of None \<Rightarrow> False
      | Some r \<Rightarrow> tr_Kind r = ''Pod'' \<and> tr_Namespace r = om_Namespace (tb_Meta b) \<and> tr_UID r \<noteq> '''')"

definition soleIPv4 :: "endpoint \<Rightarrow> bool" where
  "soleIPv4 ep \<longleftrightarrow> length (ep_Addresses ep) = 1 \<and> is_ipv4 (hd (ep_Addresses ep))"

definition refUID :: "endpoint \<Rightarrow> string" where
  "refUID ep = (case ep_TargetRef ep of None \<Rightarrow> '''' | Some r \<Rightarrow> tr_UID r)"

definition refName :: "endpoint \<Rightarrow> string" where
  "refName ep = (case ep_TargetRef ep of None \<Rightarrow> '''' | Some r \<Rightarrow> tr_Name r)"

definition readEndpointPod :: "kube_lib \<Rightarrow> reader \<Rightarrow> tunnel_binding \<Rightarrow> service \<Rightarrow> endpoint \<Rightarrow> go_error + pod" where
  "readEndpointPod L R b svc ep =
     (if \<not> refersToPod b ep then Inl (Errorf ''endpoint lacks same-namespace Pod ownership'')
      else if \<not> soleIPv4 ep then Inl (Errorf ''endpoint must contain exactly one IPv4 address'')
      else (case rd_GetPod R (om_Namespace (tb_Meta b), refName ep) of
          Inl e \<Rightarrow> Inl (endpointGetError e)
        | Inr pod \<Rightarrow>
            (if om_UID (pd_Meta pod) \<noteq> refUID ep then Inl (Errorf ''stale Pod identity'')
             else if 0 < length (sv_Selector svc) \<and> \<not> selectorMatches L (sv_Selector svc) (om_Labels (pd_Meta pod))
             then Inl (Errorf ''Pod no longer matches Service selector'')
             else if ep_NodeName ep \<noteq> None \<and> ep_NodeName ep \<noteq> Some (pd_NodeName pod)
             then Inl (Errorf ''endpoint node does not match Pod node'')
             else if hd (ep_Addresses ep) \<noteq> pd_PodIP pod then Inl (Errorf ''Pod address does not match endpoint'')
             else Inr pod)))"

definition readServiceFor :: "reader \<Rightarrow> tunnel_binding \<Rightarrow> allocation \<Rightarrow> go_error + service" where
  "readServiceFor R b a =
     (case rd_GetService R (om_Namespace (tb_Meta b), bs_Service (tb_Spec b)) of
        Inl e \<Rightarrow> Inl (endpointGetError e)
      | Inr svc \<Rightarrow>
          (if om_UID (sv_Meta svc) \<noteq> al_ServiceUID a \<or> om_Deleting (sv_Meta svc)
           then Inl (Errorf ''Service UID changed; create a new binding'') else Inr svc))"

section \<open>Resolution to a node port\<close>

text \<open>The endpoints of one slice: \<open>found\<close> maps Pod UIDs to ready endpoints, \<open>draining\<close> collects the others.\<close>

fun scanEndpoints :: "tunnel_binding \<Rightarrow> endpoint list \<Rightarrow> (string, endpoint) gomap \<Rightarrow> endpoint list \<Rightarrow>
    go_error + ((string, endpoint) gomap \<times> endpoint list)" where
  "scanEndpoints b [] found draining = Inr (found, draining)"
| "scanEndpoints b (ep # eps) found draining =
     (if vbool (ep_Terminating ep) then
        scanEndpoints b eps found
          (if ep_Serving ep = None \<or> vbool (ep_Serving ep) then draining @ [ep] else draining)
      else if ep_Ready ep = None then Inl (Errorf ''endpoint readiness is unknown'')
      else if \<not> vbool (ep_Ready ep) then scanEndpoints b eps found draining
      else if \<not> refersToPod b ep then Inl (Errorf ''endpoint lacks same-namespace Pod ownership'')
      else if \<not> soleIPv4 ep then Inl (Errorf ''endpoint must contain exactly one IPv4 address'')
      else if (case map_of found (refUID ep) of None \<Rightarrow> False
               | Some old \<Rightarrow> refName old \<noteq> refName ep \<or> hd (ep_Addresses old) \<noteq> hd (ep_Addresses ep) \<or>
                   vstr (ep_NodeName old) \<noteq> vstr (ep_NodeName ep))
      then Inl (Errorf ''conflicting EndpointSlices for the same Pod'')
      else scanEndpoints b eps (AList.update (refUID ep) ep found) draining)"

definition hasUdpPort :: "tunnel_binding \<Rightarrow> endpoint_slice \<Rightarrow> bool" where
  "hasUdpPort b s \<longleftrightarrow>
     list_ex (\<lambda>p. vstr (pt_Name p) = bs_PortName (tb_Spec b) \<and> pt_Protocol p = Some ''UDP'' \<and>
        (case pt_Port p of None \<Rightarrow> False | Some n \<Rightarrow> 0 < n)) (es_Ports s)"

fun scanSlices :: "tunnel_binding \<Rightarrow> service \<Rightarrow> endpoint_slice list \<Rightarrow> (string, endpoint) gomap \<Rightarrow> endpoint list \<Rightarrow>
    go_error + ((string, endpoint) gomap \<times> endpoint list)" where
  "scanSlices b svc [] found draining = Inr (found, draining)"
| "scanSlices b svc (s # ss) found draining =
     (if \<not> sliceOwned svc s then Inl (Errorf ''Service has an EndpointSlice with unverified ownership'')
      else if es_AddressType s \<noteq> ''IPv4'' \<or> \<not> hasUdpPort b s then scanSlices b svc ss found draining
      else (case scanEndpoints b (es_Endpoints s) found draining of
              Inl e \<Rightarrow> Inl e
            | Inr (found', draining') \<Rightarrow> scanSlices b svc ss found' draining'))"

text \<open>The closure \<^verbatim>\<open>gap\<close>: the draining Pods are verified, and more than one is ambiguous.\<close>

fun drainingOwners :: "kube_lib \<Rightarrow> reader \<Rightarrow> tunnel_binding \<Rightarrow> service \<Rightarrow> endpoint list \<Rightarrow> string list \<Rightarrow>
    go_error + string list" where
  "drainingOwners L R b svc [] owners = Inr owners"
| "drainingOwners L R b svc (ep # eps) owners =
     (case readEndpointPod L R b svc ep of
        Inl e \<Rightarrow> Inl e
      | Inr _ \<Rightarrow> drainingOwners L R b svc eps (List.insert (refUID ep) owners))"

definition resolveGap :: "kube_lib \<Rightarrow> reader \<Rightarrow> tunnel_binding \<Rightarrow> service \<Rightarrow> int \<Rightarrow> endpoint list \<Rightarrow> go_error + backend" where
  "resolveGap L R b svc nodePort draining =
     (case drainingOwners L R b svc draining [] of
        Inl e \<Rightarrow> Inl e
      | Inr owners \<Rightarrow>
          (if 1 < length owners then Inl (Errorf ''multiple serving terminating endpoints are ambiguous'')
           else Inl (BackendUnavailable nodePort (bs_HealthPort (tb_Spec b)))))"

text \<open>The node of the Pod: ready, an OCI instance, with an IPv4 internal address.\<close>

definition nodeBackend :: "node \<Rightarrow> int \<Rightarrow> go_error + backend" where
  "nodeBackend node nodePort =
     (if \<not> nodeReady node \<or> om_Deleting (nd_Meta node) then Inl (Errorf ''active node not ready'')
      else if \<not> has_prefix (instanceID node) ''ocid1.instance.'' then Inl (Errorf ''missing OCI node instance identity'')
      else (case find (\<lambda>(t, a). t = ''InternalIP'' \<and> is_ipv4 a) (nd_Addresses node) of
              Some (_, a) \<Rightarrow> Inr \<lparr>bk_IP = a, bk_TargetID = instanceID node, bk_Port = nodePort\<rparr>
            | None \<Rightarrow> Inl (Errorf ''node has no IPv4 internal address'')))"

definition healthNodePort :: "tunnel_binding \<Rightarrow> service \<Rightarrow> bool" where
  "healthNodePort b svc \<longleftrightarrow>
     list_ex (\<lambda>p. sp_Protocol p = ''TCP'' \<and> sp_NodePort p = bs_HealthPort (tb_Spec b)) (sv_Ports svc)"

text \<open>The last UDP port with the binding's port name, or the zero value of a Service port.\<close>

definition udpNodePort :: "tunnel_binding \<Rightarrow> service \<Rightarrow> int" where
  "udpNodePort b svc =
     foldl (\<lambda>acc v. if sp_Name v = bs_PortName (tb_Spec b) \<and> sp_Protocol v = ''UDP'' then sp_NodePort v else acc) 0 (sv_Ports svc)"

definition resolveNodePort :: "kube_lib \<Rightarrow> reader \<Rightarrow> tunnel_binding \<Rightarrow> service \<Rightarrow> go_error + backend" where
  "resolveNodePort L R b svc =
     (if bs_Mode (tb_Spec b) \<noteq> ''NodePort'' \<or> sv_Type svc \<noteq> ''NodePort'' \<or> sv_ExternalTrafficPolicy svc \<noteq> ''Local''
      then Inl (Errorf ''requires NodePort Service with externalTrafficPolicy Local'')
      else if sv_PublishNotReadyAddresses svc then Inl (Errorf ''publishNotReadyAddresses is unsafe'')
      else if \<not> healthNodePort b svc
      then Inl (Errorf ''healthPort must match a TCP NodePort on the referenced Service'')
      else if udpNodePort b svc = 0 then Inl (Errorf ''named UDP NodePort missing'')
      else (case listServiceSlices R b svc of Inl e \<Rightarrow> Inl e | Inr slices \<Rightarrow>
        (case scanSlices b svc slices [] [] of Inl e \<Rightarrow> Inl e | Inr (found, draining) \<Rightarrow>
          (case found of
             [] \<Rightarrow> resolveGap L R b svc (udpNodePort b svc) draining
           | [(_, ep)] \<Rightarrow>
               (case readEndpointPod L R b svc ep of Inl e \<Rightarrow> Inl e | Inr pod \<Rightarrow>
                 (if \<not> podReady pod \<or> om_Deleting (pd_Meta pod)
                  then resolveGap L R b svc (udpNodePort b svc) draining
                  else (case rd_GetNode R ('''', pd_NodeName pod) of
                          Inl e \<Rightarrow> Inl (endpointGetError e)
                        | Inr node \<Rightarrow> nodeBackend node (udpNodePort b svc))))
           | _ \<Rightarrow> Inl (Errorf (''requires exactly one ready nonterminating endpoint, found '' @ itoa (int (length found))))))))"

section \<open>Resolution to a Pod address\<close>

definition validateBindingService :: "tunnel_binding \<Rightarrow> service \<Rightarrow> bool \<Rightarrow> go_error option" where
  "validateBindingService b svc preserveSource =
     (let s = tb_Spec b
      in if bs_HealthPort s < 1 \<or> 65535 < bs_HealthPort s then Some (Errorf ''valid healthPort required'')
         else if bs_Mode s = ''NodePortCluster'' then
           (if preserveSource \<or> bs_HealthPort s \<noteq> 10256 \<or> sv_Type svc \<noteq> ''NodePort'' \<or>
               sv_ExternalTrafficPolicy svc \<noteq> ''Cluster'' \<or> length (sv_Selector svc) = 0 \<or> sv_PublishNotReadyAddresses svc
            then Some (Errorf ''NodePortCluster requires selector-backed NodePort Service, externalTrafficPolicy Cluster, healthPort 10256, publishNotReadyAddresses false and preserveSource false'')
            else None)
         else if bs_Mode s = ''NodePort'' then
           (if sv_Type svc \<noteq> ''NodePort'' then Some (Errorf ''NodePort mode requires a NodePort Service'') else None)
         else if bs_Mode s = ''PodIP'' then
           (if sv_Type svc \<noteq> ''ClusterIP'' \<or> length (sv_Selector svc) = 0
            then Some (Errorf ''PodIP mode requires a selector-backed ClusterIP Service'')
            else if preserveSource then Some (Errorf ''PodIP mode requires preserveSource false'') else None)
         else Some (Errorf ''unsupported binding mode''))"

fun slicePort_loop :: "endpoint_port list \<Rightarrow> string \<Rightarrow> string \<Rightarrow> int \<Rightarrow> go_error + int" where
  "slicePort_loop [] name protocol found = Inr found"
| "slicePort_loop (port # ports) name protocol found =
     (if vstr (pt_Name port) \<noteq> name \<or> pt_Protocol port \<noteq> Some protocol then slicePort_loop ports name protocol found
      else (case pt_Port port of
              None \<Rightarrow> Inl (Errorf ''invalid or ambiguous EndpointSlice port'')
            | Some n \<Rightarrow>
                (if n < 1 \<or> 65535 < n \<or> found \<noteq> 0 then Inl (Errorf ''invalid or ambiguous EndpointSlice port'')
                 else slicePort_loop ports name protocol n)))"

definition slicePort :: "endpoint_port list \<Rightarrow> string \<Rightarrow> string \<Rightarrow> go_error + int" where
  "slicePort ports name protocol = slicePort_loop ports name protocol 0"

fun namedPort_loop :: "container_port list \<Rightarrow> string \<Rightarrow> string \<Rightarrow> int \<Rightarrow> go_error + int" where
  "namedPort_loop [] name protocol found = Inr found"
| "namedPort_loop (c # cs) name protocol found =
     (if cp_Name c = name \<and> cp_Protocol c = protocol
      then (if found \<noteq> 0 \<or> cp_ContainerPort c < 1 \<or> 65535 < cp_ContainerPort c then Inl (Errorf ''ambiguous named targetPort'')
            else namedPort_loop cs name protocol (cp_ContainerPort c))
      else namedPort_loop cs name protocol found)"

definition podTargetPort :: "service_port \<Rightarrow> pod \<Rightarrow> go_error + int" where
  "podTargetPort port pod =
     (if is_Type (sp_TargetPort port) = 0 then
        (let target = (if is_IntVal (sp_TargetPort port) = 0 then sp_Port port else is_IntVal (sp_TargetPort port))
         in if 0 < target \<and> target \<le> 65535 then Inr target else Inl (Errorf ''invalid numeric targetPort''))
      else (case namedPort_loop (concat (pd_Containers pod)) (is_StrVal (sp_TargetPort port)) (sp_Protocol port) 0 of
              Inl e \<Rightarrow> Inl e
            | Inr found \<Rightarrow>
                (if found = 0 then Inl (Errorf ''named targetPort not found in Pod containers'') else Inr found)))"

text \<open>The one UDP port of the Service with the given name, if there is one.\<close>

fun soleUdpPort :: "service_port list \<Rightarrow> string \<Rightarrow> service_port option \<Rightarrow> go_error + service_port option" where
  "soleUdpPort [] name udp = Inr udp"
| "soleUdpPort (p # ps) name udp =
     (if sp_Name p = name \<and> sp_Protocol p = ''UDP''
      then (if udp \<noteq> None then Inl (Errorf ''ambiguous UDP Service port'') else soleUdpPort ps name (Some p))
      else soleUdpPort ps name udp)"

text \<open>Some TCP port of the Service reaches the health port of this Pod, and the slice agrees.\<close>

fun podHealthFound :: "service_port list \<Rightarrow> pod \<Rightarrow> endpoint_port list \<Rightarrow> int \<Rightarrow> bool \<Rightarrow> go_error + bool" where
  "podHealthFound [] pod slicePorts healthPort found = Inr found"
| "podHealthFound (h # hs) pod slicePorts healthPort found =
     (if sp_Protocol h \<noteq> ''TCP'' then podHealthFound hs pod slicePorts healthPort found
      else (case podTargetPort h pod of
              Inl _ \<Rightarrow> podHealthFound hs pod slicePorts healthPort found
            | Inr target \<Rightarrow>
                (if target \<noteq> healthPort then podHealthFound hs pod slicePorts healthPort found
                 else (case slicePort slicePorts (sp_Name h) ''TCP'' of
                         Inl e \<Rightarrow> Inl e
                       | Inr sliceHealth \<Rightarrow>
                           podHealthFound hs pod slicePorts healthPort (found \<or> sliceHealth = target)))))"

text \<open>One ready endpoint of a slice, from the Pod to the candidate and the Pod's UID.\<close>

definition podIPCandidate :: "kube_lib \<Rightarrow> reader \<Rightarrow> tunnel_binding \<Rightarrow> service \<Rightarrow> service_port \<Rightarrow> endpoint_slice \<Rightarrow> int \<Rightarrow>
    endpoint \<Rightarrow> go_error + (backend \<times> string)" where
  "podIPCandidate L R b svc udp s udpPort ep =
     (case readEndpointPod L R b svc ep of Inl e \<Rightarrow> Inl e | Inr pod \<Rightarrow>
       (if pd_HostNetwork pod \<or> om_Deleting (pd_Meta pod) \<or> \<not> podReady pod
        then Inl (Errorf ''PodIP requires a ready nonterminating Pod without hostNetwork'')
        else if podTargetPort udp pod \<noteq> Inr udpPort
        then Inl (Errorf ''UDP EndpointSlice port does not match the Pod's Service targetPort'')
        else (case podHealthFound (sv_Ports svc) pod (es_Ports s) (bs_HealthPort (tb_Spec b)) False of
                Inl e \<Rightarrow> Inl e
              | Inr healthFound \<Rightarrow>
                  (if \<not> healthFound
                   then Inl (Errorf ''healthPort must match a TCP Service targetPort and EndpointSlice port for the same Pod'')
                   else (case rd_GetNode R ('''', pd_NodeName pod) of
                           Inl e \<Rightarrow> Inl (endpointGetError e)
                         | Inr node \<Rightarrow>
                             (if \<not> nodeReady node \<or> om_Deleting (nd_Meta node)
                              then Inl (Errorf ''active node not ready'')
                              else Inr (\<lparr>bk_IP = pd_PodIP pod, bk_TargetID = '''', bk_Port = udpPort\<rparr>,
                                        om_UID (pd_Meta pod))))))))"

fun podIPEndpoints :: "(endpoint \<Rightarrow> go_error + (backend \<times> string)) \<Rightarrow> endpoint list \<Rightarrow> (backend \<times> string) option \<Rightarrow>
    go_error + (backend \<times> string) option" where
  "podIPEndpoints candidate [] chosen = Inr chosen"
| "podIPEndpoints candidate (ep # eps) chosen =
     (if vbool (ep_Terminating ep) then podIPEndpoints candidate eps chosen
      else if ep_Ready ep = None then Inl (Errorf ''endpoint readiness is unknown'')
      else if \<not> vbool (ep_Ready ep) then podIPEndpoints candidate eps chosen
      else (case candidate ep of
              Inl e \<Rightarrow> Inl e
            | Inr c \<Rightarrow>
                (if chosen \<noteq> None \<and> chosen \<noteq> Some c
                 then Inl (Errorf ''requires exactly one unambiguous ready Pod endpoint'')
                 else podIPEndpoints candidate eps (Some c))))"

fun podIPSlices :: "kube_lib \<Rightarrow> reader \<Rightarrow> tunnel_binding \<Rightarrow> service \<Rightarrow> service_port \<Rightarrow> endpoint_slice list \<Rightarrow>
    (backend \<times> string) option \<Rightarrow> go_error + (backend \<times> string) option" where
  "podIPSlices L R b svc udp [] chosen = Inr chosen"
| "podIPSlices L R b svc udp (s # ss) chosen =
     (if \<not> sliceOwned svc s then Inl (Errorf ''Service has an EndpointSlice with unverified ownership'')
      else if es_AddressType s \<noteq> ''IPv4'' then podIPSlices L R b svc udp ss chosen
      else (case slicePort (es_Ports s) (sp_Name udp) ''UDP'' of
              Inl e \<Rightarrow> Inl e
            | Inr udpPort \<Rightarrow>
                (if udpPort = 0 then podIPSlices L R b svc udp ss chosen
                 else (case podIPEndpoints (podIPCandidate L R b svc udp s udpPort) (es_Endpoints s) chosen of
                         Inl e \<Rightarrow> Inl e
                       | Inr chosen' \<Rightarrow> podIPSlices L R b svc udp ss chosen'))))"

definition resolvePodIP :: "kube_lib \<Rightarrow> reader \<Rightarrow> tunnel_binding \<Rightarrow> service \<Rightarrow> go_error + backend" where
  "resolvePodIP L R b svc =
     (case validateBindingService b svc False of Some e \<Rightarrow> Inl e | None \<Rightarrow>
       (if sv_PublishNotReadyAddresses svc then Inl (Errorf ''publishNotReadyAddresses is unsafe'')
        else (case soleUdpPort (sv_Ports svc) (bs_PortName (tb_Spec b)) None of
                Inl e \<Rightarrow> Inl e
              | Inr None \<Rightarrow> Inl (Errorf ''named UDP Service port missing'')
              | Inr (Some udp) \<Rightarrow>
                  (case listServiceSlices R b svc of Inl e \<Rightarrow> Inl e | Inr slices \<Rightarrow>
                    (case podIPSlices L R b svc udp slices None of
                       Inl e \<Rightarrow> Inl e
                     | Inr None \<Rightarrow> Inl (Errorf ''PodIP requires exactly one ready nonterminating endpoint'')
                     | Inr (Some (chosen, _)) \<Rightarrow> Inr chosen)))))"

definition Resolve :: "kube_lib \<Rightarrow> reader \<Rightarrow> tunnel_binding \<Rightarrow> allocation \<Rightarrow> go_error + backend" where
  "Resolve L R b a =
     (case readServiceFor R b a of
        Inl e \<Rightarrow> Inl e
      | Inr svc \<Rightarrow> (if bs_Mode (tb_Spec b) = ''PodIP'' then resolvePodIP L R b svc else resolveNodePort L R b svc))"

section \<open>What the loops compute\<close>

definition active :: "endpoint \<Rightarrow> bool" where
  "active ep \<longleftrightarrow> \<not> vbool (ep_Terminating ep) \<and> vbool (ep_Ready ep)"

definition drains :: "endpoint \<Rightarrow> bool" where
  "drains ep \<longleftrightarrow> vbool (ep_Terminating ep) \<and> (ep_Serving ep = None \<or> vbool (ep_Serving ep))"

definition readiness_known :: "endpoint \<Rightarrow> bool" where
  "readiness_known ep \<longleftrightarrow> (ep_Ready ep = None \<longrightarrow> vbool (ep_Terminating ep))"

text \<open>The endpoints the node-port resolution looks at.\<close>

definition routed_endpoints :: "tunnel_binding \<Rightarrow> endpoint_slice list \<Rightarrow> endpoint list" where
  "routed_endpoints b slices =
     concat (map es_Endpoints (filter (\<lambda>s. es_AddressType s = ''IPv4'' \<and> hasUdpPort b s) slices))"

text \<open>What the map of ready endpoints records of an endpoint.\<close>

definition same_place :: "endpoint \<Rightarrow> endpoint \<Rightarrow> bool" where
  "same_place x ep \<longleftrightarrow> refName x = refName ep \<and> hd (ep_Addresses x) = hd (ep_Addresses ep) \<and>
     vstr (ep_NodeName x) = vstr (ep_NodeName ep)"

definition covers :: "(string, endpoint) gomap \<Rightarrow> endpoint \<Rightarrow> bool" where
  "covers found ep \<longleftrightarrow> (\<exists>x. map_of found (refUID ep) = Some x \<and> same_place x ep)"

lemma vbool_cases: "vbool x \<longleftrightarrow> x = Some True"
  by (cases x) auto

lemma covers_update:
  assumes "covers found ep" "\<And>old. map_of found (refUID x) = Some old \<Longrightarrow> same_place old x"
  shows "covers (AList.update (refUID x) x found) ep"
  using assms by (auto simp: covers_def update_conv' same_place_def)

lemma scanEndpoints_Cons:
  assumes "scanEndpoints b (ep # eps) found draining = Inr r"
  obtains (terminating) "vbool (ep_Terminating ep)"
      "scanEndpoints b eps found (draining @ filter drains [ep]) = Inr r"
    | (idle) "\<not> vbool (ep_Terminating ep)" "ep_Ready ep = Some False" "scanEndpoints b eps found draining = Inr r"
    | (ready) "active ep" "refersToPod b ep" "soleIPv4 ep"
      "\<forall>old. map_of found (refUID ep) = Some old \<longrightarrow> same_place old ep"
      "scanEndpoints b eps (AList.update (refUID ep) ep found) draining = Inr r"
proof -
  consider "vbool (ep_Terminating ep)" | "\<not> vbool (ep_Terminating ep)" "ep_Ready ep = Some False"
    | "\<not> vbool (ep_Terminating ep)" "ep_Ready ep = None" | "active ep"
    by (cases "ep_Ready ep") (auto simp: active_def)
  then show thesis
  proof cases
    case 1 then show thesis using assms terminating by (auto simp: drains_def split: if_splits)
  next
    case 2 then show thesis using assms idle by simp
  next
    case 3 then show thesis using assms by simp
  next
    case 4
    then have "\<not> vbool (ep_Terminating ep)" "ep_Ready ep \<noteq> None" "vbool (ep_Ready ep)" by (auto simp: active_def vbool_cases)
    with assms have ok: "refersToPod b ep" "soleIPv4 ep" "scanEndpoints b eps (AList.update (refUID ep) ep found) draining = Inr r"
      "\<not> (case map_of found (refUID ep) of None \<Rightarrow> False | Some old \<Rightarrow> refName old \<noteq> refName ep \<or>
        hd (ep_Addresses old) \<noteq> hd (ep_Addresses ep) \<or> vstr (ep_NodeName old) \<noteq> vstr (ep_NodeName ep))"
      by (simp_all split: if_splits)
    show thesis by (rule ready [OF 4 ok(1,2) _ ok(3)]) (use ok(4) in \<open>simp add: same_place_def split: option.splits\<close>)
  qed
qed

definition scanned :: "tunnel_binding \<Rightarrow> endpoint list \<Rightarrow> (string, endpoint) gomap \<Rightarrow> endpoint list \<Rightarrow>
    (string, endpoint) gomap \<Rightarrow> endpoint list \<Rightarrow> bool" where
  "scanned b eps found draining found' draining' \<longleftrightarrow>
     draining' = draining @ filter drains eps \<and> (\<forall>ep \<in> set eps. readiness_known ep) \<and>
     (\<forall>ep \<in> set eps. active ep \<longrightarrow> refersToPod b ep \<and> soleIPv4 ep \<and> covers found' ep) \<and>
     (\<forall>ep. covers found ep \<longrightarrow> covers found' ep) \<and>
     dom (map_of found') = dom (map_of found) \<union> refUID ` set (filter active eps) \<and>
     ran (map_of found') \<subseteq> ran (map_of found) \<union> set (filter active eps) \<and>
     (wf_map found \<longrightarrow> wf_map found')"

lemma ran_update: "ran (map_of (AList.update k v m)) \<subseteq> insert v (ran (map_of m))"
  by (auto simp: update_conv' ran_def)

lemma scanEndpoints_scanned:
  "scanEndpoints b eps found draining = Inr (found', draining') \<Longrightarrow> scanned b eps found draining found' draining'"
proof (induction eps arbitrary: found draining)
  case Nil
  then show ?case by (simp add: scanned_def)
next
  case (Cons ep eps)
  from Cons.prems show ?case
  proof (cases rule: scanEndpoints_Cons)
    case terminating
    with Cons.IH [OF terminating(2)] show ?thesis by (simp add: scanned_def active_def readiness_known_def)
  next
    case idle
    with Cons.IH [OF idle(3)] show ?thesis by (simp add: scanned_def active_def readiness_known_def drains_def)
  next
    case ready
    let ?f = "AList.update (refUID ep) ep found"
    have rest: "scanned b eps ?f draining found' draining'" by (rule Cons.IH [OF ready(5)])
    have self: "covers ?f ep" by (simp add: covers_def update_conv' same_place_def)
    have keep: "covers ?f x" if "covers found x" for x
      using covers_update [OF that, of ep] ready(4) by blast
    have "\<not> drains ep" "readiness_known ep" using ready(1) by (auto simp: drains_def readiness_known_def active_def vbool_cases)
    moreover have "ran (map_of found') \<subseteq> ran (map_of found) \<union> set (filter active (ep # eps))"
      using rest ran_update [of "refUID ep" ep found] ready(1) by (auto simp: scanned_def)
    moreover have "dom (map_of ?f) = insert (refUID ep) (dom (map_of found))" by (simp add: update_conv')
    ultimately show ?thesis using rest self keep ready(1,2,3) by (simp add: scanned_def)
  qed
qed

lemma scanned_append:
  "scanned b xs f d f' d' \<Longrightarrow> scanned b ys f' d' f'' d'' \<Longrightarrow> scanned b (xs @ ys) f d f'' d''"
  unfolding scanned_def by auto

lemma scanSlices_scanned:
  assumes "scanSlices b svc ss found draining = Inr (found', draining')"
  shows "list_all (sliceOwned svc) ss \<and> scanned b (routed_endpoints b ss) found draining found' draining'"
  using assms
proof (induction ss arbitrary: found draining)
  case Nil
  then show ?case by (simp add: routed_endpoints_def scanned_def)
next
  case (Cons s ss)
  then have own: "sliceOwned svc s" by (auto split: if_splits)
  show ?case
  proof (cases "es_AddressType s = ''IPv4'' \<and> hasUdpPort b s")
    case False
    with Cons own show ?thesis by (auto simp: routed_endpoints_def split: if_splits)
  next
    case True
    then obtain f d where fd: "scanEndpoints b (es_Endpoints s) found draining = Inr (f, d)"
      "scanSlices b svc ss f d = Inr (found', draining')"
      using Cons.prems own by (auto split: sum.splits)
    with Cons.IH [OF fd(2)] scanned_append [OF scanEndpoints_scanned [OF fd(1)]] own True show ?thesis
      by (simp add: routed_endpoints_def)
  qed
qed

lemma readEndpointPod_Inr:
  assumes "readEndpointPod L R b svc ep = Inr pod"
  shows "refersToPod b ep" "soleIPv4 ep" "rd_GetPod R (om_Namespace (tb_Meta b), refName ep) = Inr pod"
    "om_UID (pd_Meta pod) = refUID ep" "pd_PodIP pod = hd (ep_Addresses ep)" "is_ipv4 (pd_PodIP pod)"
    "sv_Selector svc \<noteq> [] \<Longrightarrow> selectorMatches L (sv_Selector svc) (om_Labels (pd_Meta pod))"
    "ep_NodeName ep = None \<or> ep_NodeName ep = Some (pd_NodeName pod)"
  using assms by (auto simp: readEndpointPod_def soleIPv4_def split: if_splits sum.splits)

lemma drainingOwners_Inr:
  assumes "drainingOwners L R b svc eps owners = Inr owners'" "distinct owners"
  shows "distinct owners' \<and> set owners' = set owners \<union> refUID ` set eps \<and>
    (\<forall>ep \<in> set eps. \<exists>pod. readEndpointPod L R b svc ep = Inr pod)"
  using assms
proof (induction eps arbitrary: owners)
  case (Cons ep eps)
  then obtain pod where pod: "readEndpointPod L R b svc ep = Inr pod"
    and rest: "drainingOwners L R b svc eps (List.insert (refUID ep) owners) = Inr owners'"
    by (auto split: sum.splits)
  from Cons.IH [OF rest] Cons.prems(2) pod show ?case by auto
qed simp

subsection \<open>Pod addresses\<close>

text \<open>The ready endpoints the Pod-address resolution looks at, each with its slice and the slice's UDP port.\<close>

definition ready_candidates :: "string \<Rightarrow> endpoint_slice list \<Rightarrow> (endpoint_slice \<times> int \<times> endpoint) list" where
  "ready_candidates portName slices =
     concat (map (\<lambda>s.
       if es_AddressType s = ''IPv4'' then
         (case slicePort (es_Ports s) portName ''UDP'' of
            Inl _ \<Rightarrow> []
          | Inr n \<Rightarrow> (if n = 0 then [] else map (\<lambda>ep. (s, n, ep)) (filter active (es_Endpoints s))))
       else []) slices)"

text \<open>No slice is foreign or malformed.\<close>

definition slice_usable :: "service \<Rightarrow> string \<Rightarrow> endpoint_slice \<Rightarrow> bool" where
  "slice_usable svc portName s \<longleftrightarrow>
     sliceOwned svc s \<and>
     (es_AddressType s = ''IPv4'' \<longrightarrow>
        (\<exists>n. slicePort (es_Ports s) portName ''UDP'' = Inr n \<and>
           (n \<noteq> 0 \<longrightarrow> (\<forall>ep \<in> set (es_Endpoints s). readiness_known ep))))"

text \<open>All candidates agree on \<open>r\<close>, starting from what was chosen before.\<close>

definition agreed :: "('e \<Rightarrow> go_error + 'c) \<Rightarrow> 'e list \<Rightarrow> 'c option \<Rightarrow> 'c option \<Rightarrow> bool" where
  "agreed candidate es chosen r \<longleftrightarrow>
     (if es = [] then r = chosen
      else \<exists>c. r = Some c \<and> (chosen = None \<or> chosen = Some c) \<and> (\<forall>e \<in> set es. candidate e = Inr c))"

lemma agreed_append:
  "agreed candidate (xs @ ys) chosen r \<longleftrightarrow> (\<exists>mid. agreed candidate xs chosen mid \<and> agreed candidate ys mid r)"
  unfolding agreed_def by (cases xs; cases ys) auto

lemma agreed_map: "agreed candidate (map f xs) chosen r \<longleftrightarrow> agreed (\<lambda>x. candidate (f x)) xs chosen r"
  by (simp add: agreed_def)

lemma podIPEndpoints_iff:
  "podIPEndpoints candidate eps chosen = Inr r \<longleftrightarrow>
     (\<forall>ep \<in> set eps. readiness_known ep) \<and> agreed candidate (filter active eps) chosen r"
proof (induction eps arbitrary: chosen)
  case Nil
  then show ?case by (auto simp: agreed_def)
next
  case (Cons ep eps)
  consider "vbool (ep_Terminating ep)" | "\<not> vbool (ep_Terminating ep)" "ep_Ready ep = Some False"
    | "\<not> vbool (ep_Terminating ep)" "ep_Ready ep = None" | "\<not> vbool (ep_Terminating ep)" "ep_Ready ep = Some True"
    by (metis (full_types) option.exhaust)
  then show ?case
  proof cases
    case 1 then show ?thesis using Cons by (simp add: active_def readiness_known_def)
  next
    case 2 then show ?thesis using Cons by (simp add: active_def readiness_known_def)
  next
    case 3 then show ?thesis by (simp add: readiness_known_def)
  next
    case 4
    then have a: "active ep" "readiness_known ep" by (simp_all add: active_def readiness_known_def)
    have one: "agreed candidate (filter active (ep # eps)) chosen r \<longleftrightarrow>
        (\<exists>c. candidate ep = Inr c \<and> (chosen = None \<or> chosen = Some c) \<and> agreed candidate (filter active eps) (Some c) r)"
      using a by (auto simp: agreed_def filter_empty_conv)
    show ?thesis unfolding one using 4 a by (cases chosen) (auto simp: Cons split: sum.splits)
  qed
qed

lemma ready_candidates_Nil: "ready_candidates portName [] = []"
  by (simp add: ready_candidates_def)

lemma podIPSlices_iff:
  "podIPSlices L R b svc udp ss chosen = Inr r \<longleftrightarrow>
     (\<forall>s \<in> set ss. slice_usable svc (sp_Name udp) s) \<and>
     agreed (\<lambda>(s, n, ep). podIPCandidate L R b svc udp s n ep) (ready_candidates (sp_Name udp) ss) chosen r"
proof (induction ss arbitrary: chosen)
  case Nil
  then show ?case by (auto simp: agreed_def ready_candidates_Nil)
next
  case (Cons s ss)
  let ?cand = "\<lambda>(s, n, ep). podIPCandidate L R b svc udp s n ep"
  have rc: "ready_candidates (sp_Name udp) (s # ss) = ready_candidates (sp_Name udp) [s] @ ready_candidates (sp_Name udp) ss"
    by (simp add: ready_candidates_def)
  have head: "agreed ?cand (ready_candidates (sp_Name udp) [s]) chosen mid \<longleftrightarrow> mid = chosen"
    if "ready_candidates (sp_Name udp) [s] = []" for mid
    unfolding that by (auto simp: agreed_def)
  consider "\<not> sliceOwned svc s" | "sliceOwned svc s" "es_AddressType s \<noteq> ''IPv4''"
    | e where "sliceOwned svc s" "es_AddressType s = ''IPv4''" "slicePort (es_Ports s) (sp_Name udp) ''UDP'' = Inl e"
    | "sliceOwned svc s" "es_AddressType s = ''IPv4''" "slicePort (es_Ports s) (sp_Name udp) ''UDP'' = Inr 0"
    | n where "sliceOwned svc s" "es_AddressType s = ''IPv4''" "slicePort (es_Ports s) (sp_Name udp) ''UDP'' = Inr n" "n \<noteq> 0"
    by (metis sum.exhaust)
  then show ?case
  proof cases
    case 5
    let ?c = "podIPCandidate L R b svc udp s n"
    have here: "agreed ?cand (ready_candidates (sp_Name udp) [s]) chosen mid \<longleftrightarrow> agreed ?c (filter active (es_Endpoints s)) chosen mid"
      for mid using 5 by (simp add: ready_candidates_def agreed_map)
    have "podIPSlices L R b svc udp (s # ss) chosen = Inr r \<longleftrightarrow>
        (\<exists>mid. podIPEndpoints ?c (es_Endpoints s) chosen = Inr mid \<and> podIPSlices L R b svc udp ss mid = Inr r)"
      using 5 by (auto split: sum.splits)
    then show ?thesis unfolding rc agreed_append podIPEndpoints_iff here Cons using 5 by (auto simp: slice_usable_def)
  qed (use Cons head in \<open>auto simp: rc agreed_append slice_usable_def ready_candidates_def [of _ "[s]"]\<close>)
qed

lemma podIPCandidate_Inr:
  assumes "podIPCandidate L R b svc udp s n ep = Inr (bk, uid)"
  obtains pod node where "readEndpointPod L R b svc ep = Inr pod" "podReady pod" "\<not> om_Deleting (pd_Meta pod)"
    "\<not> pd_HostNetwork pod" "podTargetPort udp pod = Inr n"
    "podHealthFound (sv_Ports svc) pod (es_Ports s) (bs_HealthPort (tb_Spec b)) False = Inr True"
    "rd_GetNode R ('''', pd_NodeName pod) = Inr node" "nodeReady node" "\<not> om_Deleting (nd_Meta node)"
    "bk = \<lparr>bk_IP = pd_PodIP pod, bk_TargetID = '''', bk_Port = n\<rparr>" "uid = om_UID (pd_Meta pod)"
  using assms by (auto simp: podIPCandidate_def split: sum.splits if_splits)

lemma slicePort_range:
  assumes "slicePort ports name protocol = Inr n"
  shows "n = 0 \<or> 1 \<le> n \<and> n \<le> 65535"
proof -
  have "slicePort_loop ports name protocol found = Inr n \<Longrightarrow> n = found \<or> 1 \<le> n \<and> n \<le> 65535" for found
    by (induction ports name protocol found rule: slicePort_loop.induct) (auto split: if_splits option.splits)
  from this [of 0] assms show ?thesis by (simp add: slicePort_def)
qed

text \<open>The health port is the target port of a TCP port of the Service, in the Pod and in the slice.\<close>

lemma podHealthFound_True:
  "podHealthFound hs pod sps hp found = Inr True \<Longrightarrow>
     found \<or> (\<exists>h \<in> set hs. sp_Protocol h = ''TCP'' \<and> podTargetPort h pod = Inr hp \<and> slicePort sps (sp_Name h) ''TCP'' = Inr hp)"
  by (induction hs pod sps hp found rule: podHealthFound.induct) (auto split: if_splits sum.splits)

section \<open>Concrete objects\<close>

definition demo_service :: service where
  "demo_service = \<lparr>sv_Meta = meta_named ''ns'' ''s2'' ''s2'', sv_Type = ''ClusterIP'', sv_ExternalTrafficPolicy = '''',
     sv_PublishNotReadyAddresses = False, sv_Selector = [(''app'', ''tunnel'')],
     sv_Ports = [\<lparr>sp_Name = ''udp'', sp_Protocol = ''UDP'', sp_Port = 7777, sp_TargetPort = \<lparr>is_Type = 0, is_IntVal = 7777, is_StrVal = ''''\<rparr>, sp_NodePort = 0\<rparr>,
       \<lparr>sp_Name = ''health'', sp_Protocol = ''TCP'', sp_Port = 8080, sp_TargetPort = \<lparr>is_Type = 1, is_IntVal = 0, is_StrVal = ''hp''\<rparr>, sp_NodePort = 0\<rparr>]\<rparr>"

definition demo_endpoint :: endpoint where
  "demo_endpoint = \<lparr>ep_Addresses = [''10.0.0.5''], ep_Ready = Some True, ep_Serving = None, ep_Terminating = None,
     ep_TargetRef = Some \<lparr>tr_Kind = ''Pod'', tr_Namespace = ''ns'', tr_Name = ''pod'', tr_UID = ''pu''\<rparr>,
     ep_NodeName = Some ''node''\<rparr>"

definition demo_owner :: owner_reference where
  "demo_owner = \<lparr>or_APIVersion = ''v1'', or_Kind = ''Service'', or_Name = ''s2'', or_UID = ''s2'', or_Controller = None, or_BlockOwnerDeletion = None\<rparr>"

definition demo_slice :: endpoint_slice where
  "demo_slice = \<lparr>es_Meta = (meta_named ''ns'' ''slice'' ''su'')\<lparr>om_Labels := [(LabelServiceName, ''s2'')], om_OwnerReferences := [demo_owner]\<rparr>,
     es_AddressType = ''IPv4'',
     es_Ports = [\<lparr>pt_Name = Some ''udp'', pt_Protocol = Some ''UDP'', pt_Port = Some 7777\<rparr>,
                 \<lparr>pt_Name = Some ''health'', pt_Protocol = Some ''TCP'', pt_Port = Some 8080\<rparr>],
     es_Endpoints = [demo_endpoint]\<rparr>"

definition demo_pod :: "bool \<Rightarrow> pod" where
  "demo_pod ready = \<lparr>pd_Meta = (meta_named ''ns'' ''pod'' ''pu'')\<lparr>om_Labels := [(''app'', ''tunnel'')]\<rparr>, pd_NodeName = ''node'',
     pd_HostNetwork = False, pd_Containers = [[\<lparr>cp_Name = ''hp'', cp_Protocol = ''TCP'', cp_ContainerPort = 8080\<rparr>]],
     pd_Conditions = [(''Ready'', if ready then ''True'' else ''False'')], pd_PodIP = ''10.0.0.5''\<rparr>"

definition demo_node :: node where
  "demo_node = \<lparr>nd_Meta = meta_named '''' ''node'' ''nu'', nd_ProviderID = ''oci://ocid1.instance.a'',
     nd_Conditions = [(''Ready'', ''True'')], nd_Addresses = [(''InternalIP'', ''10.1.0.9'')]\<rparr>"

definition demo_reader :: "service \<Rightarrow> bool \<Rightarrow> reader" where
  "demo_reader svc ready = snapshotReader list_lib None
     \<lparr>sn_services = [((''ns'', ''s2''), svc)], sn_pods = [((''ns'', ''pod''), demo_pod ready)],
      sn_nodes = [(('''', ''node''), demo_node)], sn_slices = [demo_slice]\<rparr>"

text \<open>The same Service published through node ports, and a binding in node-port mode.\<close>

definition demo_nodeport_service :: service where
  "demo_nodeport_service = demo_service\<lparr>sv_Type := ''NodePort'', sv_ExternalTrafficPolicy := ''Local'',
     sv_Ports := map (\<lambda>q. q\<lparr>sp_NodePort := (if sp_Protocol q = ''UDP'' then 30777 else 30080)\<rparr>) (sv_Ports demo_service)\<rparr>"

definition demo_nodeport_binding :: tunnel_binding where
  "demo_nodeport_binding = (demo_binding ''u2'' ''s2'' 0)\<lparr>tb_Spec := (tb_Spec (demo_binding ''u2'' ''s2'' 0))\<lparr>bs_Mode := ''NodePort'', bs_HealthPort := 30080\<rparr>\<rparr>"

definition demo_held :: allocation where
  "demo_held = \<lparr>al_BindingName = ''u2'', al_ServiceName = ''s2'', al_ServiceUID = ''s2'', al_PortName = ''udp'', al_Mode = ''PodIP'',
     al_Shard = 0, al_Port = 20001, al_Name = ''b2'', al_Tombstone = False, al_NodePort = 0\<rparr>"

lemmas demo_endpoint_defs = demo_held_def demo_service_def demo_endpoint_def demo_owner_def demo_slice_def demo_pod_def demo_node_def
  demo_reader_def demo_nodeport_service_def demo_nodeport_binding_def LabelServiceName_def

lemma demo_ipv4: "is_ipv4 ''10.0.0.5''" "is_ipv4 ''10.1.0.9''"
  by code_simp+

lemma demo_resolve_podip:
  "Resolve list_lib (demo_reader demo_service True) (demo_binding ''u2'' ''s2'' 0) demo_held =
     Inr \<lparr>bk_IP = ''10.0.0.5'', bk_TargetID = '''', bk_Port = 7777\<rparr>"
  by code_simp

lemma demo_resolve_nodeport:
  "Resolve list_lib (demo_reader demo_nodeport_service True) demo_nodeport_binding demo_held =
     Inr \<lparr>bk_IP = ''10.1.0.9'', bk_TargetID = ''ocid1.instance.a'', bk_Port = 30777\<rparr>"
  by code_simp

lemma demo_resolve_gap:
  "Resolve list_lib (demo_reader demo_nodeport_service False) demo_nodeport_binding demo_held =
     Inl (BackendUnavailable 30777 30080)"
  by code_simp

section \<open>Properties\<close>

lemma readServiceFor_Inr:
  assumes "readServiceFor R b a = Inr svc"
  shows "rd_GetService R (om_Namespace (tb_Meta b), bs_Service (tb_Spec b)) = Inr svc"
    "om_UID (sv_Meta svc) = al_ServiceUID a" "\<not> om_Deleting (sv_Meta svc)"
  using assms by (auto simp: readServiceFor_def split: sum.splits if_splits)

lemma resolveNodePort_Inr:
  assumes "resolveNodePort L R b svc = Inr bk"
  obtains slices uid ep draining pod node where "listServiceSlices R b svc = Inr slices"
    "scanSlices b svc slices [] [] = Inr ([(uid, ep)], draining)" "readEndpointPod L R b svc ep = Inr pod"
    "podReady pod" "\<not> om_Deleting (pd_Meta pod)" "rd_GetNode R ('''', pd_NodeName pod) = Inr node"
    "nodeBackend node (udpNodePort b svc) = Inr bk" "udpNodePort b svc \<noteq> 0" "healthNodePort b svc"
    "sv_Type svc = ''NodePort''" "sv_ExternalTrafficPolicy svc = ''Local''" "\<not> sv_PublishNotReadyAddresses svc"
    "bs_Mode (tb_Spec b) = ''NodePort''"
  using assms
  by (auto simp: resolveNodePort_def resolveGap_def split: if_splits sum.splits list.splits prod.splits)

lemma find_Some_iff_first: "find P xs = Some x \<Longrightarrow> x \<in> set xs \<and> P x"
  by (auto simp: find_Some_iff)

lemma nodeBackend_Inr:
  assumes "nodeBackend node port = Inr bk"
  shows "nodeReady node" "\<not> om_Deleting (nd_Meta node)" "has_prefix (bk_TargetID bk) ''ocid1.instance.''"
    "bk_TargetID bk = instanceID node" "(''InternalIP'', bk_IP bk) \<in> set (nd_Addresses node)" "is_ipv4 (bk_IP bk)"
    "bk_Port bk = port"
  using assms by (auto simp: nodeBackend_def split: if_splits option.splits dest!: find_Some_iff_first)

text \<open>
  C27. Node-port resolution yields one verified destination.  If \<^verbatim>\<open>Resolve\<close> returns a backend in node-port
  mode, the Service is the one the lease was granted to and is not being deleted, it is a NodePort
  Service with local traffic policy that publishes no unready addresses, every EndpointSlice labelled
  for it is owned by it, every ready endpoint that its UDP port routes to belongs to one and the same
  Pod, which exists with that UID and address, matches the selector and is ready, the node it runs on is
  ready, and the backend is that node's IPv4 internal address and OCI instance with the node port of
  the named UDP port.
\<close>

theorem Resolve_NodePort_sound:
  assumes res: "Resolve L R b a = Inr bk" and mode: "bs_Mode (tb_Spec b) = ''NodePort''"
  shows "\<exists>svc slices pod node.
    rd_GetService R (om_Namespace (tb_Meta b), bs_Service (tb_Spec b)) = Inr svc \<and>
    om_UID (sv_Meta svc) = al_ServiceUID a \<and> \<not> om_Deleting (sv_Meta svc) \<and>
    sv_Type svc = ''NodePort'' \<and> sv_ExternalTrafficPolicy svc = ''Local'' \<and> \<not> sv_PublishNotReadyAddresses svc \<and>
    listServiceSlices R b svc = Inr slices \<and> list_all (sliceOwned svc) slices \<and>
    filter active (routed_endpoints b slices) \<noteq> [] \<and>
    (\<forall>ep \<in> set (filter active (routed_endpoints b slices)).
       refUID ep = om_UID (pd_Meta pod) \<and> rd_GetPod R (om_Namespace (tb_Meta b), refName ep) = Inr pod \<and> hd (ep_Addresses ep) = pd_PodIP pod) \<and>
    (sv_Selector svc \<noteq> [] \<longrightarrow> selectorMatches L (sv_Selector svc) (om_Labels (pd_Meta pod))) \<and>
    podReady pod \<and> \<not> om_Deleting (pd_Meta pod) \<and>
    rd_GetNode R ('''', pd_NodeName pod) = Inr node \<and> nodeReady node \<and> \<not> om_Deleting (nd_Meta node) \<and>
    has_prefix (instanceID node) ''ocid1.instance.'' \<and> bk_TargetID bk = instanceID node \<and>
    (''InternalIP'', bk_IP bk) \<in> set (nd_Addresses node) \<and> is_ipv4 (bk_IP bk) \<and>
    bk_Port bk = udpNodePort b svc \<and> udpNodePort b svc \<noteq> 0"
proof -
  obtain svc where svc: "readServiceFor R b a = Inr svc" "resolveNodePort L R b svc = Inr bk"
    using res mode by (auto simp: Resolve_def split: sum.splits)
  from svc(2) obtain slices uid ep draining pod node where
    r: "listServiceSlices R b svc = Inr slices" "scanSlices b svc slices [] [] = Inr ([(uid, ep)], draining)"
      "readEndpointPod L R b svc ep = Inr pod" "podReady pod" "\<not> om_Deleting (pd_Meta pod)"
      "rd_GetNode R ('''', pd_NodeName pod) = Inr node" "nodeBackend node (udpNodePort b svc) = Inr bk"
      "udpNodePort b svc \<noteq> 0" "sv_Type svc = ''NodePort''" "sv_ExternalTrafficPolicy svc = ''Local''"
      "\<not> sv_PublishNotReadyAddresses svc"
    by (rule resolveNodePort_Inr)
  let ?act = "filter active (routed_endpoints b slices)"
  note sc = scanSlices_scanned [OF r(2)]
  have uids: "refUID ` set ?act = {uid}" using sc by (simp add: scanned_def)
  have "ep \<in> set ?act" using sc by (auto simp: scanned_def ran_def)
  then have "refUID ep \<in> refUID ` set ?act" by (rule imageI)
  then have uid: "uid = refUID ep" unfolding uids by simp
  note pod = readEndpointPod_Inr [OF r(3)]
  have one: "refUID x = om_UID (pd_Meta pod) \<and> rd_GetPod R (om_Namespace (tb_Meta b), refName x) = Inr pod \<and>
      hd (ep_Addresses x) = pd_PodIP pod" if "x \<in> set ?act" for x
  proof -
    have "covers [(uid, ep)] x" using sc that by (simp add: scanned_def)
    then have "same_place ep x" "refUID x = uid" by (auto simp: covers_def split: if_splits)
    with pod(3,4,5) uid show ?thesis by (simp add: same_place_def)
  qed
  have "?act \<noteq> []" using \<open>ep \<in> set ?act\<close> by (auto simp: filter_empty_conv)
  moreover have "list_all (sliceOwned svc) slices" using sc by simp
  moreover note one readServiceFor_Inr [OF svc(1)] nodeBackend_Inr [OF r(7)] r pod(7)
  ultimately show ?thesis by (intro exI [of _ svc] exI [of _ slices] exI [of _ pod] exI [of _ node]) simp
qed

theorem Resolve_NodePort_sound_witness:
  "\<exists>svc pod. rd_GetService (demo_reader demo_nodeport_service True) (''ns'', ''s2'') = Inr svc \<and> podReady pod \<and>
     30777 = udpNodePort demo_nodeport_binding svc"
  using Resolve_NodePort_sound [OF demo_resolve_nodeport]
  by (auto simp: demo_nodeport_binding_def demo_binding_def meta_named_def)

text \<open>
  C29. Pod-address resolution is exact: \<^verbatim>\<open>resolvePodIP\<close> returns a backend if and only if the Service is
  valid for the mode and publishes no unready addresses, has exactly one UDP port of the binding's name,
  the slices could be listed and are all owned by the Service, with an unambiguous port and known
  readiness, there is a ready endpoint, and every ready endpoint passes the checks for one and the same
  Pod with the same address and port.
\<close>

theorem resolvePodIP_exact:
  "resolvePodIP L R b svc = Inr bk \<longleftrightarrow>
     validateBindingService b svc False = None \<and> \<not> sv_PublishNotReadyAddresses svc \<and>
     (\<exists>udp slices uid. soleUdpPort (sv_Ports svc) (bs_PortName (tb_Spec b)) None = Inr (Some udp) \<and>
        listServiceSlices R b svc = Inr slices \<and> (\<forall>s \<in> set slices. slice_usable svc (sp_Name udp) s) \<and>
        ready_candidates (sp_Name udp) slices \<noteq> [] \<and>
        (\<forall>(s, n, ep) \<in> set (ready_candidates (sp_Name udp) slices). podIPCandidate L R b svc udp s n ep = Inr (bk, uid)))"
    (is "?lhs \<longleftrightarrow> ?rhs")
proof
  assume ?lhs
  then obtain udp slices uid where v: "validateBindingService b svc False = None" "\<not> sv_PublishNotReadyAddresses svc"
    "soleUdpPort (sv_Ports svc) (bs_PortName (tb_Spec b)) None = Inr (Some udp)" "listServiceSlices R b svc = Inr slices"
    "podIPSlices L R b svc udp slices None = Inr (Some (bk, uid))"
    by (auto simp: resolvePodIP_def split: option.splits if_splits sum.splits)
  from v(5) have "\<forall>s \<in> set slices. slice_usable svc (sp_Name udp) s"
    "ready_candidates (sp_Name udp) slices \<noteq> [] \<and>
     (\<forall>(s, n, ep) \<in> set (ready_candidates (sp_Name udp) slices). podIPCandidate L R b svc udp s n ep = Inr (bk, uid))"
    unfolding podIPSlices_iff by (auto simp: agreed_def split: if_splits)
  with v show ?rhs by blast
next
  assume ?rhs
  then obtain udp slices uid where v: "validateBindingService b svc False = None" "\<not> sv_PublishNotReadyAddresses svc"
    "soleUdpPort (sv_Ports svc) (bs_PortName (tb_Spec b)) None = Inr (Some udp)" "listServiceSlices R b svc = Inr slices"
    "\<forall>s \<in> set slices. slice_usable svc (sp_Name udp) s" "ready_candidates (sp_Name udp) slices \<noteq> []"
    "\<forall>(s, n, ep) \<in> set (ready_candidates (sp_Name udp) slices). podIPCandidate L R b svc udp s n ep = Inr (bk, uid)"
    by blast
  then have "podIPSlices L R b svc udp slices None = Inr (Some (bk, uid))"
    unfolding podIPSlices_iff by (auto simp: agreed_def)
  with v show ?lhs by (simp add: resolvePodIP_def)
qed

theorem resolvePodIP_exact_witness:
  "\<exists>udp. soleUdpPort (sv_Ports demo_service) ''udp'' None = Inr (Some udp) \<and>
     ready_candidates (sp_Name udp) [demo_slice] \<noteq> []"
proof -
  have "resolvePodIP list_lib (demo_reader demo_service True) (demo_binding ''u2'' ''s2'' 0) demo_service =
      Inr \<lparr>bk_IP = ''10.0.0.5'', bk_TargetID = '''', bk_Port = 7777\<rparr>"
    by code_simp
  then obtain udp slices where u: "soleUdpPort (sv_Ports demo_service) (bs_PortName (tb_Spec (demo_binding ''u2'' ''s2'' 0))) None = Inr (Some udp)"
    "listServiceSlices (demo_reader demo_service True) (demo_binding ''u2'' ''s2'' 0) demo_service = Inr slices"
    "ready_candidates (sp_Name udp) slices \<noteq> []"
    unfolding resolvePodIP_exact by blast
  moreover have "listServiceSlices (demo_reader demo_service True) (demo_binding ''u2'' ''s2'' 0) demo_service = Inr [demo_slice]"
    by (simp add: listServiceSlices_def demo_endpoint_defs snapshotReader_def snapshotListSlices_def snapshotMatches_def list_lib_def
        demo_binding_def meta_named_def)
  ultimately show ?thesis by (auto simp: demo_binding_def)
qed

section \<open>Availability gaps\<close>

text \<open>
  The two errors that stand for a verified gap.  Every check and every read reports some other error,
  so a gap is only reported where the resolver says so.
\<close>

definition no_gap :: "go_error \<Rightarrow> bool" where
  "no_gap e \<longleftrightarrow> (case e of BackendUnavailable _ _ \<Rightarrow> False | ClusterEndpointGap \<Rightarrow> False | _ \<Rightarrow> True)"

lemma no_gap_simps [simp]:
  "no_gap (Errorf m)" "no_gap (EndpointReadError e)" "\<not> no_gap (BackendUnavailable np hp)" "\<not> no_gap ClusterEndpointGap"
  "no_gap (endpointGetError e)"
  by (auto simp: no_gap_def endpointGetError_def is_not_found_def split: go_error.split)

lemma endpointGetError_gap [simp]: "endpointGetError e \<noteq> BackendUnavailable np hp" "endpointGetError e \<noteq> ClusterEndpointGap"
  using no_gap_simps(5) [of e] by (metis no_gap_simps(3), metis no_gap_simps(4))

lemma readEndpointPod_no_gap: "readEndpointPod L R b svc ep = Inl e \<Longrightarrow> no_gap e"
  by (auto simp: readEndpointPod_def split: sum.splits if_splits)

lemma listServiceSlices_no_gap: "listServiceSlices R b svc = Inl e \<Longrightarrow> no_gap e"
  by (auto simp: listServiceSlices_def split: sum.splits)

lemma readServiceFor_no_gap: "readServiceFor R b a = Inl e \<Longrightarrow> no_gap e"
  by (auto simp: readServiceFor_def split: sum.splits if_splits)

lemma drainingOwners_no_gap: "drainingOwners L R b svc eps owners = Inl e \<Longrightarrow> no_gap e"
  by (induction eps arbitrary: owners) (auto split: sum.splits dest: readEndpointPod_no_gap)

lemma scanEndpoints_no_gap: "scanEndpoints b eps found draining = Inl e \<Longrightarrow> no_gap e"
  by (induction b eps found draining rule: scanEndpoints.induct) (auto split: if_splits option.splits)

lemma scanSlices_no_gap: "scanSlices b svc ss found draining = Inl e \<Longrightarrow> no_gap e"
  by (induction ss arbitrary: found draining) (auto split: sum.splits if_splits dest: scanEndpoints_no_gap)

lemma slicePort_no_gap: "slicePort ports name protocol = Inl e \<Longrightarrow> no_gap e"
proof -
  have "slicePort_loop ports name protocol found = Inl e \<Longrightarrow> no_gap e" for found
    by (induction ports name protocol found rule: slicePort_loop.induct) (auto split: option.splits if_splits)
  then show "slicePort ports name protocol = Inl e \<Longrightarrow> no_gap e" by (simp add: slicePort_def)
qed

lemma podHealthFound_no_gap: "podHealthFound hs pod sps hp found = Inl e \<Longrightarrow> no_gap e"
  by (induction hs pod sps hp found rule: podHealthFound.induct) (auto split: sum.splits if_splits dest: slicePort_no_gap)

lemma podIPCandidate_no_gap: "podIPCandidate L R b svc udp s n ep = Inl e \<Longrightarrow> no_gap e"
  by (auto simp: podIPCandidate_def split: sum.splits if_splits dest: readEndpointPod_no_gap podHealthFound_no_gap)

lemma podIPEndpoints_no_gap: "podIPEndpoints (podIPCandidate L R b svc udp s n) eps chosen = Inl e \<Longrightarrow> no_gap e"
  by (induction eps arbitrary: chosen) (auto split: sum.splits if_splits dest: podIPCandidate_no_gap)

lemma podIPSlices_no_gap: "podIPSlices L R b svc udp ss chosen = Inl e \<Longrightarrow> no_gap e"
  by (induction ss arbitrary: chosen)
     (auto split: sum.splits if_splits dest: slicePort_no_gap podIPEndpoints_no_gap)

lemma soleUdpPort_no_gap: "soleUdpPort ps name udp = Inl e \<Longrightarrow> no_gap e"
  by (induction ps name udp rule: soleUdpPort.induct) (auto split: if_splits)

lemma validateBindingService_no_gap: "validateBindingService b svc ps = Some e \<Longrightarrow> no_gap e"
  by (auto simp: validateBindingService_def Let_def split: if_splits)

lemma podIP_no_gap: "resolvePodIP L R b svc = Inl e \<Longrightarrow> no_gap e"
  by (auto simp: resolvePodIP_def split: option.splits sum.splits if_splits
      dest: validateBindingService_no_gap soleUdpPort_no_gap listServiceSlices_no_gap podIPSlices_no_gap)

lemma nodeBackend_no_gap: "nodeBackend node port = Inl e \<Longrightarrow> no_gap e"
  by (auto simp: nodeBackend_def split: option.splits if_splits)

lemmas node_port_no_gap = listServiceSlices_no_gap scanSlices_no_gap readEndpointPod_no_gap nodeBackend_no_gap

lemma resolveNodePort_gap:
  assumes "resolveNodePort L R b svc = Inl (BackendUnavailable np hp)"
  obtains slices found draining where "bs_Mode (tb_Spec b) = ''NodePort''" "healthNodePort b svc"
    "udpNodePort b svc \<noteq> 0" "listServiceSlices R b svc = Inr slices" "scanSlices b svc slices [] [] = Inr (found, draining)"
    "resolveGap L R b svc (udpNodePort b svc) draining = Inl (BackendUnavailable np hp)"
    "\<forall>(u, ep) \<in> set found. \<exists>pod. found = [(u, ep)] \<and> readEndpointPod L R b svc ep = Inr pod \<and> (\<not> podReady pod \<or> om_Deleting (pd_Meta pod))"
  using assms
  by (auto simp: resolveNodePort_def split: if_splits sum.splits list.splits prod.splits dest: node_port_no_gap)

lemma scanEndpoints_keys:
  "scanEndpoints b eps found draining = Inr (found', draining') \<Longrightarrow>
     (\<And>u x. (u, x) \<in> set found \<Longrightarrow> refUID x = u) \<Longrightarrow> (u, x) \<in> set found' \<Longrightarrow> refUID x = u"
proof (induction eps arbitrary: found draining)
  case (Cons ep eps)
  from Cons.prems(1) show ?case
  proof (cases rule: scanEndpoints_Cons)
    case ready
    show ?thesis
      by (rule Cons.IH [OF ready(5) _ Cons.prems(3)])
         (use set_AList_update [of "refUID ep" ep found] Cons.prems(2) in auto)
  qed (rule Cons.IH, use Cons.prems in auto)+
qed auto

lemma found_keys:
  assumes "scanSlices b svc ss [] [] = Inr (found, draining)" "map_of found u = Some x"
  shows "refUID x = u"
proof -
  have "refUID x = u"
    if "scanSlices b svc ss f d = Inr (found, draining)" "\<And>u x. (u, x) \<in> set f \<Longrightarrow> refUID x = u" "(u, x) \<in> set found" for f d
    using that
  proof (induction ss arbitrary: f d)
    case (Cons s ss)
    consider "scanSlices b svc ss f d = Inr (found, draining)"
      | f' d' where "scanEndpoints b (es_Endpoints s) f d = Inr (f', d')" "scanSlices b svc ss f' d' = Inr (found, draining)"
      using Cons.prems(1) by (auto split: if_splits sum.splits)
    then show ?case
    proof cases
      case 1 then show ?thesis by (rule Cons.IH [OF _ Cons.prems(2,3)])
    next
      case 2 show ?thesis
        by (rule Cons.IH [OF 2(2) _ Cons.prems(3)]) (rule scanEndpoints_keys [OF 2(1) Cons.prems(2)])
    qed
  qed auto
  from this [OF assms(1) _ map_of_SomeD [OF assms(2)]] show ?thesis by simp
qed

lemma soleUdpPort_iff:
  "soleUdpPort ps name udp = Inr r \<Longrightarrow>
     (case udp of None \<Rightarrow> filter (\<lambda>q. sp_Name q = name \<and> sp_Protocol q = ''UDP'') ps = (case r of None \<Rightarrow> [] | Some u \<Rightarrow> [u])
      | Some u \<Rightarrow> r = Some u \<and> filter (\<lambda>q. sp_Name q = name \<and> sp_Protocol q = ''UDP'') ps = [])"
  by (induction ps name udp rule: soleUdpPort.induct) (auto split: if_splits option.splits)

lemma soleUdpPort_Some:
  "soleUdpPort ps name None = Inr (Some u) \<Longrightarrow> filter (\<lambda>q. sp_Name q = name \<and> sp_Protocol q = ''UDP'') ps = [u]"
  using soleUdpPort_iff [of ps name None "Some u"] by simp

lemma podIP_result:
  assumes "resolvePodIP L R b svc = Inr bk"
  obtains udp slices uid where "validateBindingService b svc False = None" "\<not> sv_PublishNotReadyAddresses svc"
    "filter (\<lambda>q. sp_Name q = bs_PortName (tb_Spec b) \<and> sp_Protocol q = ''UDP'') (sv_Ports svc) = [udp]" "listServiceSlices R b svc = Inr slices"
    "\<forall>s \<in> set slices. slice_usable svc (sp_Name udp) s" "ready_candidates (sp_Name udp) slices \<noteq> []"
    "\<forall>s n ep. (s, n, ep) \<in> set (ready_candidates (sp_Name udp) slices) \<longrightarrow> podIPCandidate L R b svc udp s n ep = Inr (bk, uid)"
proof -
  obtain udp slices uid where v: "validateBindingService b svc False = None" "\<not> sv_PublishNotReadyAddresses svc"
    "soleUdpPort (sv_Ports svc) (bs_PortName (tb_Spec b)) None = Inr (Some udp)" "listServiceSlices R b svc = Inr slices"
    "podIPSlices L R b svc udp slices None = Inr (Some (bk, uid))"
    using assms by (auto simp: resolvePodIP_def split: option.splits if_splits sum.splits)
  from v(5) have "\<forall>s \<in> set slices. slice_usable svc (sp_Name udp) s" "ready_candidates (sp_Name udp) slices \<noteq> []"
    "\<forall>s n ep. (s, n, ep) \<in> set (ready_candidates (sp_Name udp) slices) \<longrightarrow> podIPCandidate L R b svc udp s n ep = Inr (bk, uid)"
    unfolding podIPSlices_iff by (auto simp: agreed_def split: if_splits)
  with v soleUdpPort_Some [OF v(3)] show thesis by (intro that)
qed

text \<open>
  C28. Pod-address resolution yields one verified Pod.  If \<^verbatim>\<open>Resolve\<close> returns a backend in Pod-address mode, the
  Service is the one the lease was granted to, a ClusterIP Service that publishes no unready addresses and has exactly one
  UDP port of the binding's port name; its slices are all owned by it and have a ready endpoint with that
  port; and for every such endpoint the Pod it refers to, as the reader returns it, has one and the same UID,
  matches the Service's selector, is ready, is not being deleted, does not use the host network, runs on a
  ready node, has the returned address, serves the returned port as the target of that UDP port, and serves the binding's health
  port through a TCP port of the same Service; no instance identity is attached, so that source preservation
  can never be applied to it.
\<close>

theorem Resolve_PodIP_sound:
  assumes res: "Resolve L R b a = Inr bk" and mode: "bs_Mode (tb_Spec b) = ''PodIP''"
  shows "\<exists>svc slices udp uid.
    rd_GetService R (om_Namespace (tb_Meta b), bs_Service (tb_Spec b)) = Inr svc \<and>
    om_UID (sv_Meta svc) = al_ServiceUID a \<and> \<not> om_Deleting (sv_Meta svc) \<and> sv_Type svc = ''ClusterIP'' \<and> \<not> sv_PublishNotReadyAddresses svc \<and>
    filter (\<lambda>q. sp_Name q = bs_PortName (tb_Spec b) \<and> sp_Protocol q = ''UDP'') (sv_Ports svc) = [udp] \<and>
    listServiceSlices R b svc = Inr slices \<and> list_all (sliceOwned svc) slices \<and>
    bk_TargetID bk = '''' \<and> is_ipv4 (bk_IP bk) \<and> 1 \<le> bk_Port bk \<and> bk_Port bk \<le> 65535 \<and>
    ready_candidates (sp_Name udp) slices \<noteq> [] \<and>
    (\<forall>(s, n, ep) \<in> set (ready_candidates (sp_Name udp) slices). n = bk_Port bk \<and> refUID ep = uid \<and>
       (\<exists>pod node. rd_GetPod R (om_Namespace (tb_Meta b), refName ep) = Inr pod \<and> om_UID (pd_Meta pod) = uid \<and> pd_PodIP pod = bk_IP bk \<and>
          podReady pod \<and> \<not> om_Deleting (pd_Meta pod) \<and> \<not> pd_HostNetwork pod \<and>
          selectorMatches L (sv_Selector svc) (om_Labels (pd_Meta pod)) \<and> podTargetPort udp pod = Inr (bk_Port bk) \<and>
          (\<exists>h \<in> set (sv_Ports svc). sp_Protocol h = ''TCP'' \<and> podTargetPort h pod = Inr (bs_HealthPort (tb_Spec b)) \<and>
             slicePort (es_Ports s) (sp_Name h) ''TCP'' = Inr (bs_HealthPort (tb_Spec b))) \<and>
          rd_GetNode R ('''', pd_NodeName pod) = Inr node \<and> nodeReady node \<and> \<not> om_Deleting (nd_Meta node)))"
proof -
  obtain svc where svc: "readServiceFor R b a = Inr svc" "resolvePodIP L R b svc = Inr bk"
    using res mode by (auto simp: Resolve_def split: sum.splits)
  from svc(2) obtain udp slices uid where v: "validateBindingService b svc False = None" "\<not> sv_PublishNotReadyAddresses svc"
      "filter (\<lambda>q. sp_Name q = bs_PortName (tb_Spec b) \<and> sp_Protocol q = ''UDP'') (sv_Ports svc) = [udp]" "listServiceSlices R b svc = Inr slices"
      "\<forall>s \<in> set slices. slice_usable svc (sp_Name udp) s" "ready_candidates (sp_Name udp) slices \<noteq> []"
    and cand: "\<forall>s n ep. (s, n, ep) \<in> set (ready_candidates (sp_Name udp) slices) \<longrightarrow> podIPCandidate L R b svc udp s n ep = Inr (bk, uid)"
    by (rule podIP_result)
  have spec: "sv_Type svc = ''ClusterIP''" "sv_Selector svc \<noteq> []"
    using v(1) mode by (auto simp: validateBindingService_def Let_def split: if_splits)
  let ?good = "\<lambda>s n ep pod node. rd_GetPod R (om_Namespace (tb_Meta b), refName ep) = Inr pod \<and> om_UID (pd_Meta pod) = uid \<and> pd_PodIP pod = bk_IP bk \<and>
          podReady pod \<and> \<not> om_Deleting (pd_Meta pod) \<and> \<not> pd_HostNetwork pod \<and>
          selectorMatches L (sv_Selector svc) (om_Labels (pd_Meta pod)) \<and> podTargetPort udp pod = Inr (bk_Port bk) \<and>
          (\<exists>h \<in> set (sv_Ports svc). sp_Protocol h = ''TCP'' \<and> podTargetPort h pod = Inr (bs_HealthPort (tb_Spec b)) \<and>
             slicePort (es_Ports s) (sp_Name h) ''TCP'' = Inr (bs_HealthPort (tb_Spec b))) \<and>
          rd_GetNode R ('''', pd_NodeName pod) = Inr node \<and> nodeReady node \<and> \<not> om_Deleting (nd_Meta node)"
  have each: "n = bk_Port bk \<and> refUID ep = uid \<and> bk_TargetID bk = '''' \<and> is_ipv4 (bk_IP bk) \<and> 1 \<le> bk_Port bk \<and> bk_Port bk \<le> 65535 \<and>
      (\<exists>pod node. ?good s n ep pod node)"
    if c: "(s, n, ep) \<in> set (ready_candidates (sp_Name udp) slices)" for s n ep
  proof -
    have n: "n \<noteq> 0" "slicePort (es_Ports s) (sp_Name udp) ''UDP'' = Inr n"
      using c by (auto simp: ready_candidates_def split: if_splits sum.splits)
    from cand c have "podIPCandidate L R b svc udp s n ep = Inr (bk, uid)" by blast
    then obtain pod node where p: "readEndpointPod L R b svc ep = Inr pod" "podReady pod" "\<not> om_Deleting (pd_Meta pod)"
      "\<not> pd_HostNetwork pod" "podTargetPort udp pod = Inr n"
      "podHealthFound (sv_Ports svc) pod (es_Ports s) (bs_HealthPort (tb_Spec b)) False = Inr True"
      "rd_GetNode R ('''', pd_NodeName pod) = Inr node" "nodeReady node" "\<not> om_Deleting (nd_Meta node)"
      "bk = \<lparr>bk_IP = pd_PodIP pod, bk_TargetID = '''', bk_Port = n\<rparr>" "uid = om_UID (pd_Meta pod)"
      by (rule podIPCandidate_Inr)
    note pod = readEndpointPod_Inr [OF p(1)]
    have "?good s n ep pod node" using p pod(3) pod(7) [OF spec(2)] podHealthFound_True [OF p(6)] by simp
    moreover have "1 \<le> n \<and> n \<le> 65535" using slicePort_range [OF n(2)] n(1) by simp
    ultimately show ?thesis using p(10,11) pod(4,6) by (intro conjI exI [of _ pod] exI [of _ node]) simp_all
  qed
  obtain s n ep where "(s, n, ep) \<in> set (ready_candidates (sp_Name udp) slices)"
    using v(6) by (metis list.set_intros(1) neq_Nil_conv prod_cases3)
  note first = each [OF this]
  have "list_all (sliceOwned svc) slices" using v(5) by (auto simp: slice_usable_def list_all_iff)
  moreover note readServiceFor_Inr [OF svc(1)] spec(1) v(2-4,6) first
  moreover have "\<forall>(s, n, ep) \<in> set (ready_candidates (sp_Name udp) slices). n = bk_Port bk \<and> refUID ep = uid \<and> (\<exists>pod node. ?good s n ep pod node)"
    using each by blast
  ultimately show ?thesis by (intro exI [of _ svc] exI [of _ slices] exI [of _ udp] exI [of _ uid]) (intro conjI, simp_all)
qed

theorem Resolve_PodIP_sound_witness:
  "\<exists>pod node. rd_GetPod (demo_reader demo_service True) (''ns'', ''pod'') = Inr pod \<and> om_UID (pd_Meta pod) = ''pu'' \<and> pd_PodIP pod = ''10.0.0.5'' \<and>
     podReady pod \<and> \<not> om_Deleting (pd_Meta pod) \<and> \<not> pd_HostNetwork pod \<and>
     rd_GetNode (demo_reader demo_service True) ('''', pd_NodeName pod) = Inr node \<and> nodeReady node"
proof -
  let ?R = "demo_reader demo_service True" and ?b = "demo_binding ''u2'' ''s2'' 0"
  have facts: "rd_GetService ?R (om_Namespace (tb_Meta ?b), bs_Service (tb_Spec ?b)) = Inr demo_service" "listServiceSlices ?R ?b demo_service = Inr [demo_slice]"
    "filter (\<lambda>q. sp_Name q = bs_PortName (tb_Spec ?b) \<and> sp_Protocol q = ''UDP'') (sv_Ports demo_service) = [hd (sv_Ports demo_service)]"
    "ready_candidates ''udp'' [demo_slice] = [(demo_slice, 7777, demo_endpoint)]" "sp_Name (hd (sv_Ports demo_service)) = ''udp''"
    "om_Namespace (tb_Meta ?b) = ''ns''" "refName demo_endpoint = ''pod''" "refUID demo_endpoint = ''pu''" "bs_Mode (tb_Spec ?b) = ''PodIP''"
    by code_simp+
  show ?thesis
    using Resolve_PodIP_sound [OF demo_resolve_podip facts(9)]
  proof (elim exE conjE, goal_cases)
    case (1 svc slices udp uid)
    have svc: "svc = demo_service" using 1(1) facts(1) by simp
    have udp: "sp_Name udp = ''udp''" and slices: "slices = [demo_slice]" using 1(6,7) facts(2,3,5) unfolding svc by simp_all
    show ?case using 1(14) unfolding udp slices facts(4) by (simp add: facts(6-8)) blast
  qed
qed

text \<open>
  C30. Retention is offered only for a verified gap.  \<^verbatim>\<open>Resolve\<close> reports \<^verbatim>\<open>BackendUnavailable\<close> only in
  node-port mode, never for Pod addresses, only when the Service and its slices could be read and are
  all owned, with the node port and health port of that Service, when no routed endpoint is active
  except of a Pod that is itself not ready or being deleted, and when all serving terminating endpoints
  were verified and belong to at most one Pod.
\<close>

theorem Resolve_gap_verified:
  assumes res: "Resolve L R b a = Inl (BackendUnavailable np hp)"
  shows "bs_Mode (tb_Spec b) = ''NodePort'' \<and> (\<exists>svc slices. readServiceFor R b a = Inr svc \<and>
    np = udpNodePort b svc \<and> np \<noteq> 0 \<and> hp = bs_HealthPort (tb_Spec b) \<and> healthNodePort b svc \<and>
    listServiceSlices R b svc = Inr slices \<and> list_all (sliceOwned svc) slices \<and>
    (\<forall>ep \<in> set (filter active (routed_endpoints b slices)). \<exists>ep' pod. refUID ep' = refUID ep \<and>
       readEndpointPod L R b svc ep' = Inr pod \<and> (\<not> podReady pod \<or> om_Deleting (pd_Meta pod))) \<and>
    (\<forall>ep \<in> set (filter drains (routed_endpoints b slices)). \<exists>pod. readEndpointPod L R b svc ep = Inr pod) \<and>
    card (refUID ` set (filter drains (routed_endpoints b slices))) \<le> 1)"
proof -
  obtain svc where svc: "readServiceFor R b a = Inr svc" and r:
    "(if bs_Mode (tb_Spec b) = ''PodIP'' then resolvePodIP L R b svc else resolveNodePort L R b svc) = Inl (BackendUnavailable np hp)"
    using res by (auto simp: Resolve_def split: sum.splits dest: readServiceFor_no_gap)
  have "bs_Mode (tb_Spec b) \<noteq> ''PodIP''" using r by (auto split: if_splits dest: podIP_no_gap)
  with r have np: "resolveNodePort L R b svc = Inl (BackendUnavailable np hp)" by simp
  from np obtain slices found draining where g: "bs_Mode (tb_Spec b) = ''NodePort''" "healthNodePort b svc"
    "udpNodePort b svc \<noteq> 0" "listServiceSlices R b svc = Inr slices" "scanSlices b svc slices [] [] = Inr (found, draining)"
    "resolveGap L R b svc (udpNodePort b svc) draining = Inl (BackendUnavailable np hp)"
    "\<forall>(u, ep) \<in> set found. \<exists>pod. found = [(u, ep)] \<and> readEndpointPod L R b svc ep = Inr pod \<and> (\<not> podReady pod \<or> om_Deleting (pd_Meta pod))"
    by (rule resolveNodePort_gap)
  note sc = scanSlices_scanned [OF g(5)]
  obtain owners where own: "drainingOwners L R b svc draining [] = Inr owners" "length owners \<le> 1" "np = udpNodePort b svc"
    "hp = bs_HealthPort (tb_Spec b)"
    using g(6) by (auto simp: resolveGap_def split: sum.splits if_splits dest: drainingOwners_no_gap)
  have dr: "draining = filter drains (routed_endpoints b slices)" using sc by (simp add: scanned_def)
  have owners: "distinct owners" "set owners = refUID ` set draining" "\<forall>ep \<in> set draining. \<exists>pod. readEndpointPod L R b svc ep = Inr pod"
    using drainingOwners_Inr [OF own(1)] by auto
  have "card (refUID ` set draining) \<le> 1" using own(2) owners(1,2) distinct_card [of owners] by simp
  moreover have "\<exists>ep' pod. refUID ep' = refUID ep \<and> readEndpointPod L R b svc ep' = Inr pod \<and> (\<not> podReady pod \<or> om_Deleting (pd_Meta pod))"
    if "ep \<in> set (filter active (routed_endpoints b slices))" for ep
  proof -
    have "covers found ep" using sc that by (simp add: scanned_def)
    then obtain x where x: "map_of found (refUID ep) = Some x" by (auto simp: covers_def)
    have "refUID x = refUID ep" using found_keys [OF g(5) x] .
    moreover have "(refUID ep, x) \<in> set found" using x by (rule map_of_SomeD)
    ultimately show ?thesis using g(7) by fastforce
  qed
  moreover have "list_all (sliceOwned svc) slices" using sc by simp
  ultimately show ?thesis using svc g own owners(3) dr by auto
qed

theorem Resolve_gap_verified_witness: "\<exists>svc. healthNodePort demo_nodeport_binding svc \<and> udpNodePort demo_nodeport_binding svc = 30777"
  using Resolve_gap_verified [OF demo_resolve_gap] by auto

end
