(* ===== verification/Cloud_Steps.thy ===== *)
theory Cloud_Steps
  imports Cloud
begin

text \<open>
  What the steps of \<^verbatim>\<open>cloud.go\<close> add up to: repeated steps bring a lease's backend set and listener to
  the wanted configuration, or take them away, in at most two mutations and without touching any
  other lease's objects; a step writes at most once and only to a load balancer the pool owns; a shard
  is created only when a full listing shows that none exists.

  Convergence needs the OCI service to carry out what it accepts: \<open>oci_applies\<close> and \<open>oci_serves\<close>
  state that, and \<open>mem_client\<close> is a service that does so.  The safety theorems hold for every service.
\<close>

section \<open>Convergence\<close>

definition wf_nlb :: "nlb \<Rightarrow> bool" where
  "wf_nlb lb \<longleftrightarrow> wf_map (lb_Listeners lb) \<and> wf_map (lb_BackendSets lb)"

definition same_identity :: "nlb \<Rightarrow> nlb \<Rightarrow> bool" where
  "same_identity lb lb' \<longleftrightarrow>
     lb_CompartmentId lb' = lb_CompartmentId lb \<and> lb_SubnetId lb' = lb_SubnetId lb \<and>
     lb_LifecycleState lb' = lb_LifecycleState lb \<and> lb_FreeformTags lb' = lb_FreeformTags lb"

text \<open>
  What the OCI documentation promises of a mutation whose work request has succeeded: the named object
  is created, replaced or gone, every other object and the identity of the load balancer are
  unchanged.  \<open>apply m lb\<close> is the load balancer after the mutation.
\<close>

fun mutation_effect :: "oci_mutation \<Rightarrow> nlb \<Rightarrow> nlb \<Rightarrow> bool" where
  "mutation_effect (DeleteListener nid n) lb lb' \<longleftrightarrow>
     map_of (lb_Listeners lb') = (map_of (lb_Listeners lb))(n := None) \<and>
     map_of (lb_BackendSets lb') = map_of (lb_BackendSets lb)"
| "mutation_effect (DeleteBackendSet nid n) lb lb' \<longleftrightarrow>
     map_of (lb_Listeners lb') = map_of (lb_Listeners lb) \<and>
     map_of (lb_BackendSets lb') = (map_of (lb_BackendSets lb))(n := None)"
| "mutation_effect (CreateBackendSet nid n d) lb lb' \<longleftrightarrow>
     map_of (lb_Listeners lb') = map_of (lb_Listeners lb) \<and>
     map_of (lb_BackendSets lb') = (map_of (lb_BackendSets lb))(n \<mapsto> d)"
| "mutation_effect (UpdateBackendSet nid n d) lb lb' \<longleftrightarrow>
     map_of (lb_Listeners lb') = map_of (lb_Listeners lb) \<and>
     map_of (lb_BackendSets lb') = (map_of (lb_BackendSets lb))(n \<mapsto> d)"
| "mutation_effect (CreateListener nid n l) lb lb' \<longleftrightarrow>
     map_of (lb_Listeners lb') = (map_of (lb_Listeners lb))(n \<mapsto> l) \<and>
     map_of (lb_BackendSets lb') = map_of (lb_BackendSets lb)"
| "mutation_effect (CreateNetworkLoadBalancer d) lb lb' \<longleftrightarrow> True"

definition oci_applies :: "(oci_mutation \<Rightarrow> nlb \<Rightarrow> nlb) \<Rightarrow> bool" where
  "oci_applies apply \<longleftrightarrow>
     (\<forall>m lb. wf_nlb lb \<longrightarrow>
        wf_nlb (apply m lb) \<and> same_identity lb (apply m lb) \<and> mutation_effect m lb (apply m lb))"

text \<open>A service that does so.\<close>

fun ideal_apply :: "oci_mutation \<Rightarrow> nlb \<Rightarrow> nlb" where
  "ideal_apply (DeleteListener nid n) lb = lb\<lparr>lb_Listeners := AList.delete n (lb_Listeners lb)\<rparr>"
| "ideal_apply (DeleteBackendSet nid n) lb = lb\<lparr>lb_BackendSets := AList.delete n (lb_BackendSets lb)\<rparr>"
| "ideal_apply (CreateBackendSet nid n d) lb = lb\<lparr>lb_BackendSets := AList.update n d (lb_BackendSets lb)\<rparr>"
| "ideal_apply (UpdateBackendSet nid n d) lb = lb\<lparr>lb_BackendSets := AList.update n d (lb_BackendSets lb)\<rparr>"
| "ideal_apply (CreateListener nid n l) lb = lb\<lparr>lb_Listeners := AList.update n l (lb_Listeners lb)\<rparr>"
| "ideal_apply (CreateNetworkLoadBalancer d) lb = lb"

text \<open>At most \<open>n\<close> reconciliations, each applying the decision of one step.\<close>

primrec drive :: "nat \<Rightarrow> (nlb \<Rightarrow> go_error + oci_mutation option) \<Rightarrow> (oci_mutation \<Rightarrow> nlb \<Rightarrow> nlb) \<Rightarrow> nlb \<Rightarrow> nlb" where
  "drive 0 decide apply lb = lb"
| "drive (Suc n) decide apply lb =
     (case decide lb of Inr (Some m) \<Rightarrow> drive n decide apply (apply m lb) | _ \<Rightarrow> lb)"

lemma oci_applies_ideal: "oci_applies ideal_apply"
proof -
  have "wf_nlb (ideal_apply m lb) \<and> same_identity lb (ideal_apply m lb) \<and> mutation_effect m lb (ideal_apply m lb)"
    if "wf_nlb lb" for m lb
    using that
    by (cases m) (auto simp: wf_nlb_def wf_map_def same_identity_def distinct_update distinct_delete
        update_conv' delete_conv')
  then show ?thesis by (simp add: oci_applies_def)
qed

lemma owns_same_identity: "same_identity lb lb' \<Longrightarrow> owns C p i lb' = owns C p i lb"
  by (simp add: same_identity_def owns_def)

lemma map_keys_dom: "set (map_keys m) = dom (map_of m)"
  by (simp add: map_keys_def dom_map_of_conv_image_fst)

lemma stepRefusal_None:
  "stepRefusal C p a lb = None \<longleftrightarrow>
     owns C p (al_Shard a) lb \<and> lb_LifecycleState lb = ''ACTIVE'' \<and>
     dom (map_of (lb_Listeners lb)) \<subseteq> set (ownedNames p (al_Shard a)) \<and>
     dom (map_of (lb_BackendSets lb)) \<subseteq> set (ownedNames p (al_Shard a))"
  by (auto simp: stepRefusal_def list_all_iff map_keys_dom subset_iff)

lemma stepRefusal_stable:
  assumes "stepRefusal C p a lb = None" "same_identity lb lb'"
    and "dom (map_of (lb_Listeners lb')) \<subseteq> insert (al_Name a) (dom (map_of (lb_Listeners lb)))"
    and "dom (map_of (lb_BackendSets lb')) \<subseteq> insert (al_Name a) (dom (map_of (lb_BackendSets lb)))"
    and "al_Name a \<in> set (ownedNames p (al_Shard a))"
  shows "stepRefusal C p a lb' = None"
proof -
  have "owns C p (al_Shard a) lb'" using assms(1) owns_same_identity [OF assms(2), of C p "al_Shard a"]
    by (simp add: stepRefusal_None)
  moreover have "lb_LifecycleState lb' = ''ACTIVE''" using assms(1,2) by (simp add: stepRefusal_None same_identity_def)
  ultimately show ?thesis using assms(1,3,4,5) unfolding stepRefusal_None by blast
qed

lemma backendTotal_sum:
  assumes "wf_map sets"
  shows "backendTotal sets own =
    (\<Sum>n \<in> dom (map_of sets) - {own}. int (length (os_Backends (the (map_of sets n)))))"
proof -
  let ?rest = "filter (\<lambda>(n, bs). n \<noteq> own) sets"
  have d: "distinct (map fst ?rest)" using assms by (induction sets) (auto simp: wf_map_def)
  have inj: "inj_on fst (set ?rest)" using d by (simp add: distinct_map)
  have keys: "fst ` set ?rest = dom (map_of sets) - {own}"
    by (force simp: dom_map_of_conv_image_fst)
  have "backendTotal sets own = (\<Sum>(n, bs) \<in> set ?rest. int (length (os_Backends bs)))"
    unfolding backendTotal_def using d by (simp add: sum_list_distinct_conv_sum_set distinct_map)
  also have "\<dots> = (\<Sum>x \<in> set ?rest. int (length (os_Backends (the (map_of sets (fst x))))))"
    using assms by (intro sum.cong) (auto simp: wf_map_def)
  also have "\<dots> = (\<Sum>n \<in> fst ` set ?rest. int (length (os_Backends (the (map_of sets n)))))"
    using inj by (simp add: sum.reindex)
  finally show ?thesis unfolding keys .
qed

lemma backendTotal_cong:
  assumes "wf_map m" "wf_map m'" "\<And>n. n \<noteq> own \<Longrightarrow> map_of m' n = map_of m n"
  shows "backendTotal m' own = backendTotal m own"
proof -
  have "dom (map_of m') - {own} = dom (map_of m) - {own}" using assms(3) by (auto simp: dom_def)
  then show ?thesis using assms by (auto simp: backendTotal_sum intro!: sum.cong)
qed

lemma admission_stable:
  assumes "wf_nlb lb" "wf_nlb lb'" "\<And>n. n \<noteq> al_Name a \<Longrightarrow> map_of (lb_BackendSets lb') n = map_of (lb_BackendSets lb) n"
  shows "admissionError p a backends lb' = admissionError p a backends lb"
  using backendTotal_cong [of "lb_BackendSets lb" "lb_BackendSets lb'" "al_Name a"] assms
  by (simp add: admissionError_def validateBackendBudget_def wf_nlb_def)

text \<open>After a mutation of the lease's own objects the step is still admitted.\<close>

lemma step_stays_admitted:
  assumes ap: "oci_applies apply" and wf: "wf_nlb lb"
    and own: "al_Name a \<in> set (ownedNames p (al_Shard a))" and ok: "stepRefusal C p a lb = None"
    and m: "m = CreateBackendSet nid (al_Name a) d \<or> m = UpdateBackendSet nid (al_Name a) d \<or>
      m = CreateListener nid (al_Name a) l \<or> m = DeleteListener nid (al_Name a) \<or> m = DeleteBackendSet nid (al_Name a)"
  shows "wf_nlb (apply m lb)" "stepRefusal C p a (apply m lb) = None"
    "admissionError p a backends (apply m lb) = admissionError p a backends lb"
    "n \<noteq> al_Name a \<Longrightarrow> map_of (lb_Listeners (apply m lb)) n = map_of (lb_Listeners lb) n"
    "n \<noteq> al_Name a \<Longrightarrow> map_of (lb_BackendSets (apply m lb)) n = map_of (lb_BackendSets lb) n"
proof -
  let ?lb = "apply m lb"
  have e: "wf_nlb ?lb" "same_identity lb ?lb" "mutation_effect m lb ?lb"
    using ap wf by (auto simp: oci_applies_def)
  show "wf_nlb ?lb" by (rule e(1))
  show others: "n \<noteq> al_Name a \<Longrightarrow> map_of (lb_Listeners ?lb) n = map_of (lb_Listeners lb) n"
    "n \<noteq> al_Name a \<Longrightarrow> map_of (lb_BackendSets ?lb) n = map_of (lb_BackendSets lb) n" for n
    using m e(3) by auto
  show "stepRefusal C p a ?lb = None"
    by (rule stepRefusal_stable [OF ok e(2) _ _ own]) (use m e(3) in \<open>auto split: if_splits\<close>)
  show "admissionError p a backends ?lb = admissionError p a backends lb"
    by (rule admission_stable [OF wf e(1)]) (rule others(2))
qed

definition converged :: "nlb_pool \<Rightarrow> allocation \<Rightarrow> backend list \<Rightarrow> int \<Rightarrow> nlb \<Rightarrow> bool" where
  "converged p a backends hp lb \<longleftrightarrow>
     (\<exists>bs l. map_of (lb_BackendSets lb) (al_Name a) = Some bs \<and> setMatches p a backends hp bs \<and>
        map_of (lb_Listeners lb) (al_Name a) = Some l \<and> listenerMatches a l)"

lemma stepDecision_converged:
  assumes "stepRefusal C p a lb = None" "admissionError p a backends lb = None" "converged p a backends hp lb"
  shows "stepDecision C p a backends hp False nid lb = Inr None"
  using assms by (auto simp: stepDecision_def converged_def Let_def)

text \<open>With the backend set in place, one more step is enough.\<close>

lemma drive_listener:
  fixes C p a backends hp nid "apply" lb
  assumes ap: "oci_applies apply" and wf: "wf_nlb lb"
    and own: "al_Name a \<in> set (ownedNames p (al_Shard a))"
    and ok: "stepRefusal C p a lb = None" "admissionError p a backends lb = None"
    and bs: "map_of (lb_BackendSets lb) (al_Name a) = Some bs" "setMatches p a backends hp bs"
    and nodrift: "\<forall>l. map_of (lb_Listeners lb) (al_Name a) = Some l \<longrightarrow> listenerMatches a l"
  defines "dec \<equiv> stepDecision C p a backends hp False nid"
  shows "dec (drive 1 dec apply lb) = Inr None \<and> converged p a backends hp (drive 1 dec apply lb) \<and>
    (\<forall>n. n \<noteq> al_Name a \<longrightarrow> map_of (lb_Listeners (drive 1 dec apply lb)) n = map_of (lb_Listeners lb) n \<and>
       map_of (lb_BackendSets (drive 1 dec apply lb)) n = map_of (lb_BackendSets lb) n)"
proof (cases "map_of (lb_Listeners lb) (al_Name a)")
  case None
  let ?m = "CreateListener nid (al_Name a) (wantedListener a)"
  have d: "dec lb = Inr (Some ?m)" using ok bs None by (simp add: dec_def stepDecision_def Let_def)
  note st = step_stays_admitted [OF ap wf own ok(1), of ?m nid undefined "wantedListener a", simplified]
  have eff: "mutation_effect ?m lb (apply ?m lb)" using ap wf unfolding oci_applies_def by blast
  then have conv: "converged p a backends hp (apply ?m lb)"
    using bs by (simp add: converged_def listenerMatches_wanted)
  have "dec (apply ?m lb) = Inr None"
    unfolding dec_def by (rule stepDecision_converged [OF _ _ conv]) (use st ok in auto)
  with d conv eff show ?thesis by simp
next
  case (Some l)
  then have conv: "converged p a backends hp lb" using bs nodrift by (simp add: converged_def)
  with ok have "dec lb = Inr None" unfolding dec_def by (intro stepDecision_converged) auto
  with conv show ?thesis by simp
qed

lemma drive_to_convergence:
  fixes C p a backends hp nid "apply" lb
  assumes ap: "oci_applies apply" and wf: "wf_nlb lb"
    and own: "al_Name a \<in> set (ownedNames p (al_Shard a))"
    and ok: "stepRefusal C p a lb = None" "admissionError p a backends lb = None"
    and nodrift: "\<forall>l. map_of (lb_Listeners lb) (al_Name a) = Some l \<longrightarrow> listenerMatches a l"
  defines "dec \<equiv> stepDecision C p a backends hp False nid"
  shows "dec (drive 2 dec apply lb) = Inr None \<and> converged p a backends hp (drive 2 dec apply lb) \<and>
    (\<forall>n. n \<noteq> al_Name a \<longrightarrow> map_of (lb_Listeners (drive 2 dec apply lb)) n = map_of (lb_Listeners lb) n \<and>
       map_of (lb_BackendSets (drive 2 dec apply lb)) n = map_of (lb_BackendSets lb) n)"
proof (cases "\<exists>bs. map_of (lb_BackendSets lb) (al_Name a) = Some bs \<and> setMatches p a backends hp bs")
  case True
  then obtain bs where "map_of (lb_BackendSets lb) (al_Name a) = Some bs" "setMatches p a backends hp bs" by blast
  from drive_listener [OF ap wf own ok this nodrift, of nid] show ?thesis
    by (auto simp: dec_def numeral_2_eq_2 split: sum.splits option.splits)
next
  case False
  obtain m cur where m: "m = CreateBackendSet nid (al_Name a) (wantedSet p a backends hp cur) \<or>
      m = UpdateBackendSet nid (al_Name a) (wantedSet p a backends hp cur)" and d: "dec lb = Inr (Some m)"
    using ok False
    by (cases "map_of (lb_BackendSets lb) (al_Name a)") (auto simp: dec_def stepDecision_def Let_def)
  let ?lb = "apply m lb"
  have st: "wf_nlb ?lb" "stepRefusal C p a ?lb = None" "admissionError p a backends ?lb = None"
    "\<And>n. n \<noteq> al_Name a \<Longrightarrow> map_of (lb_BackendSets ?lb) n = map_of (lb_BackendSets lb) n"
    using step_stays_admitted [OF ap wf own ok(1), of m nid "wantedSet p a backends hp cur"] m ok(2) by auto
  have "mutation_effect m lb ?lb" using ap wf unfolding oci_applies_def by blast
  then have set: "map_of (lb_BackendSets ?lb) (al_Name a) = Some (wantedSet p a backends hp cur)"
    and lis: "map_of (lb_Listeners ?lb) = map_of (lb_Listeners lb)"
    using m by auto
  have matches: "setMatches p a backends hp (wantedSet p a backends hp cur)"
    by (rule setMatches_wanted [OF admission_distinct [OF ok(2)]])
  from drive_listener [OF ap st(1) own st(2,3) set matches, of nid] nodrift lis st(4) d show ?thesis
    by (simp add: dec_def numeral_2_eq_2)
qed

lemma drive_removal:
  fixes C p a backends hp nid "apply" lb
  assumes ap: "oci_applies apply" and wf: "wf_nlb lb"
    and own: "al_Name a \<in> set (ownedNames p (al_Shard a))" and ok: "stepRefusal C p a lb = None"
  defines "dec \<equiv> stepDecision C p a backends hp True nid"
  shows "dec (drive 2 dec apply lb) = Inr None \<and>
    map_of (lb_Listeners (drive 2 dec apply lb)) = (map_of (lb_Listeners lb))(al_Name a := None) \<and>
    map_of (lb_BackendSets (drive 2 dec apply lb)) = (map_of (lb_BackendSets lb))(al_Name a := None)"
proof -
  have set_gone: "dec (drive 1 dec apply l) = Inr None \<and>
      map_of (lb_Listeners (drive 1 dec apply l)) = map_of (lb_Listeners l) \<and>
      map_of (lb_BackendSets (drive 1 dec apply l)) = (map_of (lb_BackendSets l))(al_Name a := None)"
    if l: "wf_nlb l" "stepRefusal C p a l = None" "map_of (lb_Listeners l) (al_Name a) = None" for l
  proof (cases "map_of (lb_BackendSets l) (al_Name a)")
    case None
    with l show ?thesis by (simp add: dec_def stepDecision_def Let_def has_key_def fun_upd_idem)
  next
    case (Some bs)
    let ?m = "DeleteBackendSet nid (al_Name a)"
    have d: "dec l = Inr (Some ?m)" using l Some by (simp add: dec_def stepDecision_def Let_def has_key_def)
    have "stepRefusal C p a (apply ?m l) = None"
      using step_stays_admitted(2) [OF ap l(1) own l(2), of ?m nid] by simp
    moreover have "mutation_effect ?m l (apply ?m l)" using ap l(1) unfolding oci_applies_def by blast
    ultimately show ?thesis using d l(3) by (simp add: dec_def stepDecision_def Let_def has_key_def)
  qed
  show ?thesis
  proof (cases "map_of (lb_Listeners lb) (al_Name a)")
    case None
    from set_gone [OF wf ok None] None show ?thesis
      by (auto simp: numeral_2_eq_2 fun_upd_idem split: sum.splits option.splits)
  next
    case (Some x)
    let ?m = "DeleteListener nid (al_Name a)"
    have d: "dec lb = Inr (Some ?m)" using ok Some by (simp add: dec_def stepDecision_def Let_def has_key_def)
    have "wf_nlb (apply ?m lb)" "stepRefusal C p a (apply ?m lb) = None"
      using step_stays_admitted(1,2) [OF ap wf own ok, of ?m nid] by simp_all
    moreover have "mutation_effect ?m lb (apply ?m lb)" using ap wf unfolding oci_applies_def by blast
    ultimately show ?thesis using set_gone [of "apply ?m lb"] d by (simp add: numeral_2_eq_2)
  qed
qed

section \<open>The step against a service\<close>

fun mutation_target :: "oci_mutation \<Rightarrow> (string \<times> string) option" where
  "mutation_target (DeleteListener nid n) = Some (nid, n)"
| "mutation_target (DeleteBackendSet nid n) = Some (nid, n)"
| "mutation_target (CreateBackendSet nid n d) = Some (nid, n)"
| "mutation_target (UpdateBackendSet nid n d) = Some (nid, n)"
| "mutation_target (CreateListener nid n l) = Some (nid, n)"
| "mutation_target (CreateNetworkLoadBalancer d) = None"

text \<open>
  A service that answers: a read returns the load balancer \<open>view w nid\<close> and changes nothing, a
  mutation of an existing load balancer is accepted and carried out, and the context is not cancelled.
\<close>

definition oci_serves :: "'w cloud \<Rightarrow> ('w \<Rightarrow> string \<Rightarrow> nlb option) \<Rightarrow> (oci_mutation \<Rightarrow> nlb \<Rightarrow> nlb) \<Rightarrow> bool" where
  "oci_serves C view apply \<longleftrightarrow>
     (\<forall>nid w lb. view w nid = Some lb \<longrightarrow> oc_GetNLB (cd_Client C) nid w = (Inr lb, w)) \<and>
     (\<forall>m nid n w lb. mutation_target m = Some (nid, n) \<longrightarrow> view w nid = Some lb \<longrightarrow>
        (\<exists>i work w'. oc_Mutate (cd_Client C) m w = (Inr (i, work), w') \<and> view w' nid = Some (apply m lb))) \<and>
     (\<forall>w. cd_CtxErr C w = None)"

text \<open>One reconciliation's worth of work on one lease: a fresh snapshot, then the step.\<close>

definition step_pass :: "'w cloud \<Rightarrow> nlb_pool \<Rightarrow> allocation \<Rightarrow> backend list \<Rightarrow> int \<Rightarrow> bool \<Rightarrow>
    ('w, go_error + string) engine_op" where
  "step_pass C p a backends hp remove = do { ResetSnapshot; StepBackends C p a backends hp remove }"

primrec passes :: "nat \<Rightarrow> ('s, 'a) state \<Rightarrow> 's \<Rightarrow> 's" where
  "passes 0 m s = s"
| "passes (Suc n) m s = passes n m (snd (run_state m s))"

primrec drive_log :: "nat \<Rightarrow> (nlb \<Rightarrow> go_error + oci_mutation option) \<Rightarrow> (oci_mutation \<Rightarrow> nlb \<Rightarrow> nlb) \<Rightarrow> nlb \<Rightarrow>
    oci_mutation list" where
  "drive_log 0 decide apply lb = []"
| "drive_log (Suc n) decide apply lb =
     (case decide lb of Inr (Some m) \<Rightarrow> m # drive_log n decide apply (apply m lb) | _ \<Rightarrow> [])"

text \<open>A service that keeps its load balancers in a map and carries every request out at once.\<close>

definition created_nlb :: "create_nlb \<Rightarrow> nlb" where
  "created_nlb d = \<lparr>lb_CompartmentId = Some (cl_CompartmentId d), lb_SubnetId = Some (cl_SubnetId d),
     lb_LifecycleState = ''ACTIVE'', lb_FreeformTags = cl_FreeformTags d,
     lb_IpAddresses = [(Some ''203.0.113.7'', Some True)], lb_Listeners = [], lb_BackendSets = []\<rparr>"

definition mem_mutate :: "oci_mutation \<Rightarrow> (string, nlb) gomap \<Rightarrow>
    (go_error + (string option \<times> string option)) \<times> (string, nlb) gomap" where
  "mem_mutate m w =
     (case m of
        CreateNetworkLoadBalancer d \<Rightarrow>
          (Inr (Some (cl_OpcRetryToken d), Some ''work''), AList.update (cl_OpcRetryToken d) (created_nlb d) w)
      | _ \<Rightarrow>
          (case mutation_target m of
             None \<Rightarrow> (Inl (ApiError ''bad request''), w)
           | Some (nid, n) \<Rightarrow>
               (case map_of w nid of
                  None \<Rightarrow> (Inl (NotFound nid), w)
                | Some lb \<Rightarrow> (Inr (None, Some ''work''), AList.update nid (ideal_apply m lb) w))))"

definition mem_client :: "(string, nlb) gomap oci_client" where
  "mem_client = \<lparr>oc_GetNLB = (\<lambda>nid w. (case map_of w nid of None \<Rightarrow> Inl (NotFound nid) | Some lb \<Rightarrow> Inr lb, w)),
     oc_ListNLBs = (\<lambda>comp page w.
       (Inr (map (\<lambda>(nid, lb). \<lparr>ns_Id = Some nid, ns_LifecycleState = lb_LifecycleState lb,
                                ns_FreeformTags = lb_FreeformTags lb\<rparr>) w, None), w)),
     oc_Mutate = mem_mutate, oc_GetWorkRequest = (\<lambda>i w. (Inr ''SUCCEEDED'', w))\<rparr>"

definition mem_cloud :: "(string, nlb) gomap cloud" where
  "mem_cloud = \<lparr>cd_Client = mem_client, cd_Installation = ''inst'', cd_CtxErr = (\<lambda>w. None), cd_PageFuel = 1\<rparr>"

definition mem_start :: "'w \<Rightarrow> 'w engine_state" where
  "mem_start w = \<lparr>world = w, writes = [], snapshot = None\<rparr>"

lemma oci_serves_mem: "oci_serves mem_cloud map_of ideal_apply"
proof -
  have "\<exists>i work w'. mem_mutate m w = (Inr (i, work), w') \<and> map_of w' nid = Some (ideal_apply m lb)"
    if "mutation_target m = Some (nid, n)" "map_of w nid = Some lb" for m nid n w lb
    using that by (cases m) (auto simp: mem_mutate_def update_conv')
  then show ?thesis by (simp add: oci_serves_def mem_cloud_def mem_client_def)
qed

lemma stepDecision_target:
  "stepDecision C p a backends hp remove nid lb = Inr (Some m) \<Longrightarrow> mutation_target m = Some (nid, al_Name a)"
  by (auto simp: stepDecision_def Let_def split: option.splits if_splits)

lemma step_pass_effect:
  fixes C p a backends hp remove nid
  assumes sv: "oci_serves C view apply" and sh: "provisionedShard p a = Some nid" and v: "view (world s) nid = Some lb"
  defines "dec \<equiv> stepDecision C p a backends hp remove nid"
  shows "wp (step_pass C p a backends hp remove) (\<lambda>r s'.
     view (world s') nid = Some (drive 1 dec apply lb) \<and>
     writes s' = writes s @ map OciWrite (drive_log 1 dec apply lb) \<and>
     (dec lb = Inr None \<longrightarrow> r = Inr '''')) s"
proof -
  have rd: "oc_GetNLB (cd_Client C) nid (world s) = (Inr lb, world s)" and ctx: "\<And>w. cd_CtxErr C w = None"
    using sv v by (auto simp: oci_serves_def)
  have mut: "\<exists>i work w'. oc_Mutate (cd_Client C) m (world s) = (Inr (i, work), w') \<and> view w' nid = Some (apply m lb)"
    if "dec lb = Inr (Some m)" for m
    using sv v stepDecision_target [of C p a backends hp remove nid lb m] that
    unfolding oci_serves_def dec_def by blast
  show ?thesis
    unfolding step_pass_def ResetSnapshot_def StepBackends_def cloud_get_def cloud_mutate_def
    by (cases "dec lb") (use v mut in \<open>auto simp: wp_rules ctx sh rd dec_def [symmetric] split: option.splits prod.splits\<close>)
qed

lemma drive_stuck: "(\<And>m. decide lb \<noteq> Inr (Some m)) \<Longrightarrow> drive n decide apply lb = lb \<and> drive_log n decide apply lb = []"
  by (cases n) (auto split: sum.splits option.splits)

lemma passes_drive:
  fixes C p a backends hp remove nid
  assumes sv: "oci_serves C view apply" and sh: "provisionedShard p a = Some nid" and v: "view (world s) nid = Some lb"
  defines "dec \<equiv> stepDecision C p a backends hp remove nid" and "pass \<equiv> step_pass C p a backends hp remove"
  shows "view (world (passes n pass s)) nid = Some (drive n dec apply lb) \<and>
    writes (passes n pass s) = writes s @ map OciWrite (drive_log n dec apply lb)"
  using v
proof (induction n arbitrary: s lb)
  case 0
  then show ?case by simp
next
  case (Suc n)
  obtain r s' where run: "run_state pass s = (r, s')" by (cases "run_state pass s")
  from wp_run [OF step_pass_effect [OF sv sh Suc.prems] run [unfolded pass_def]]
  have s': "view (world s') nid = Some (drive 1 dec apply lb)" "writes s' = writes s @ map OciWrite (drive_log 1 dec apply lb)"
    unfolding dec_def by simp_all
  note IH = Suc.IH [OF s'(1)]
  show ?case
  proof (cases "\<exists>m. dec lb = Inr (Some m)")
    case True
    with IH s'(2) run show ?thesis by (auto simp: pass_def)
  next
    case False
    then have "drive k dec apply lb = lb" "drive_log k dec apply lb = []" for k
      using drive_stuck [of dec lb k "apply"] by auto
    with IH s'(2) run show ?thesis by simp
  qed
qed

lemma drive_log_length: "length (drive_log n decide apply lb) \<le> n"
  by (induction n arbitrary: lb) (auto split: sum.split option.split)

section \<open>Discovery of a shard\<close>

text \<open>The paging loop with the scan taken out: the items of all pages, in order.\<close>

primrec readPages :: "nat \<Rightarrow> 'w cloud \<Rightarrow> string \<Rightarrow> string option \<Rightarrow> ('w, go_error + nlb_summary list) engine_op" where
  "readPages 0 C cid page = State_Monad.return (Inl Diverges)"
| "readPages (Suc fuel) C cid page =
     tryM (call (oc_ListNLBs (cd_Client C) cid page)) (\<lambda>(items, nextPage).
       (case nextPage of
          None \<Rightarrow> State_Monad.return (Inr items)
        | Some token \<Rightarrow> tryM (readPages fuel C cid (Some token)) (\<lambda>rest. State_Monad.return (Inr (items @ rest)))))"

definition live_shard :: "'w cloud \<Rightarrow> nlb_pool \<Rightarrow> int \<Rightarrow> nlb_summary \<Rightarrow> bool" where
  "live_shard C p index x \<longleftrightarrow>
     get_or '''' (ns_FreeformTags x) ''installation'' = cd_Installation C \<and>
     get_or '''' (ns_FreeformTags x) ''pool-uid'' = om_UID (np_Meta p) \<and>
     get_or '''' (ns_FreeformTags x) ''shard'' = itoa index \<and> ns_LifecycleState x \<noteq> ''DELETED''"

abbreviation scanFor :: "'w cloud \<Rightarrow> nlb_pool \<Rightarrow> int \<Rightarrow> nlb_summary list \<Rightarrow> string \<Rightarrow> go_error + string" where
  "scanFor C p index \<equiv> scanSummaries (cd_Installation C) (om_UID (np_Meta p)) index"

definition duplicate_error :: go_error where
  "duplicate_error = Errorf ''duplicate owned shard; manual repair required''"

lemma scanFor_simps:
  "scanFor C p index [] nid = Inr nid"
  "scanFor C p index (x # xs) nid =
     (if live_shard C p index x
      then (if nid \<noteq> '''' then Inl duplicate_error else scanFor C p index xs (vstr (ns_Id x)))
      else scanFor C p index xs nid)"
  by (simp_all add: live_shard_def duplicate_error_def)

lemma scanFor_append:
  "scanFor C p index (xs @ ys) nid =
     (case scanFor C p index xs nid of Inl e \<Rightarrow> Inl e | Inr nid' \<Rightarrow> scanFor C p index ys nid')"
  by (induction xs arbitrary: nid) (auto simp: scanFor_simps simp del: scanSummaries.simps)

text \<open>The scan sees exactly the live shards, if every one of them has an identifier.\<close>

lemma scanFor_found:
  assumes "\<forall>x \<in> set xs. live_shard C p index x \<longrightarrow> vstr (ns_Id x) \<noteq> ''''" "nid \<noteq> ''''"
  shows "scanFor C p index xs nid =
    (if filter (live_shard C p index) xs = [] then Inr nid else Inl duplicate_error)"
  using assms by (induction xs) (auto simp: scanFor_simps simp del: scanSummaries.simps)

lemma scanFor_start:
  assumes "\<forall>x \<in> set xs. live_shard C p index x \<longrightarrow> vstr (ns_Id x) \<noteq> ''''"
  shows "scanFor C p index xs '''' =
    (case filter (live_shard C p index) xs of [] \<Rightarrow> Inr '''' | [x] \<Rightarrow> Inr (vstr (ns_Id x)) | _ \<Rightarrow> Inl duplicate_error)"
  using assms
proof (induction xs)
  case (Cons x xs)
  show ?case
  proof (cases "live_shard C p index x")
    case True
    then have "vstr (ns_Id x) \<noteq> ''''" using Cons.prems by simp
    with True Cons.prems scanFor_found [of xs C p index "vstr (ns_Id x)"] show ?thesis
      by (simp add: scanFor_simps split: list.split del: scanSummaries.simps)
  next
    case False
    with Cons show ?thesis by (simp add: scanFor_simps del: scanSummaries.simps)
  qed
qed (simp add: scanFor_simps)

lemma scanFor_empty:
  "scanFor C p index xs nid = Inr '''' \<Longrightarrow>
     nid = '''' \<and> (\<forall>x \<in> set xs. live_shard C p index x \<longrightarrow> vstr (ns_Id x) = '''')"
  by (induction xs arbitrary: nid) (auto simp: scanFor_simps simp del: scanSummaries.simps split: if_splits)

text \<open>The loop is the scan of the items of all pages.\<close>

lemma listShards_readPages:
  "wp (listShards fuel C p index page nid) (\<lambda>r s'.
     writes s' = writes s \<and> snapshot s' = snapshot s \<and>
     (\<forall>nid'. r = Inr nid' \<longrightarrow> (\<exists>items. fst (run_state (readPages fuel C (ps_CompartmentID (np_Spec p)) page) s) = Inr items \<and>
        scanFor C p index items nid = Inr nid'))) s"
proof (induction fuel arbitrary: page nid s)
  case (Suc fuel)
  let ?comp = "ps_CompartmentID (np_Spec p)"
  obtain r w where ans: "oc_ListNLBs (cd_Client C) ?comp page (world s) = (r, w)" by fastforce
  let ?s = "s\<lparr>world := w\<rparr>"
  show ?case
  proof (cases r)
    case (Inl e)
    then show ?thesis using ans by (simp add: wp_rules)
  next
    case (Inr ip)
    obtain items nextPage where ip: "ip = (items, nextPage)" by fastforce
    have go: "wp (listShards fuel C p index (Some token) nid') (\<lambda>r s'.
        writes s' = writes ?s \<and> snapshot s' = snapshot ?s \<and>
        (\<forall>nid''. r = Inr nid'' \<longrightarrow> (\<exists>items'. fst (run_state (readPages fuel C ?comp (Some token)) ?s) = Inr items' \<and>
          scanFor C p index items' nid' = Inr nid''))) ?s" for token nid'
      by (rule Suc.IH)
    have rest: "fst (run_state (readPages (Suc fuel) C ?comp page) s) = Inr (items @ items')"
      if "nextPage = Some token" "fst (run_state (readPages fuel C ?comp (Some token)) ?s) = Inr items'" for token items'
      using that ans Inr ip
      by (cases "run_state (readPages fuel C ?comp (Some token)) ?s") (simp add: tryM_def call_def)
    show ?thesis
    proof (cases "scanFor C p index items nid")
      case (Inl e)
      then show ?thesis using ans Inr ip by (simp add: wp_rules)
    next
      case scan: (Inr nid')
      show ?thesis
      proof (cases nextPage)
        case None
        then show ?thesis using ans Inr ip scan by (simp add: wp_rules) (simp add: tryM_def call_def)
      next
        case (Some token)
        have "wp (listShards fuel C p index (Some token) nid') (\<lambda>r s'. writes s' = writes s \<and> snapshot s' = snapshot s \<and>
          (\<forall>nid''. r = Inr nid'' \<longrightarrow> (\<exists>items. fst (run_state (readPages (Suc fuel) C ?comp page) s) = Inr items \<and>
            scanFor C p index items nid = Inr nid''))) ?s"
          by (rule wp_mono [OF go]) (use rest [OF Some] scan in \<open>fastforce simp: scanFor_append\<close>)
        then show ?thesis using ans Inr ip scan Some by (simp add: wp_rules)
      qed
    qed
  qed
qed (simp add: wp_rules)

text \<open>A listing that ends: following the page tokens from \<open>page\<close> reaches the last page within \<open>n\<close> pages.\<close>

primrec listing :: "nat \<Rightarrow> (string option \<Rightarrow> nlb_summary list \<times> string option) \<Rightarrow> string option \<Rightarrow> nlb_summary list option" where
  "listing 0 pg page = None"
| "listing (Suc n) pg page =
     (case pg page of (items, None) \<Rightarrow> Some items
      | (items, Some token) \<Rightarrow> map_option (\<lambda>rest. items @ rest) (listing n pg (Some token)))"

lemma listShards_listing:
  assumes "\<And>pg. oc_ListNLBs (cd_Client C) (ps_CompartmentID (np_Spec p)) pg (world s) = (Inr (pages pg), world s)"
    and "listing fuel pages page = Some items"
  shows "run_state (listShards fuel C p index page nid) s = (scanFor C p index items nid, s)"
  using assms(2)
proof (induction fuel arbitrary: page items nid)
  case (Suc fuel)
  obtain its nextPage where pg: "pages page = (its, nextPage)" by fastforce
  show ?case
  proof (cases nextPage)
    case None
    then show ?thesis using Suc.prems pg
      by (auto simp: tryM_def call_def assms(1) split: sum.split)
  next
    case (Some token)
    then obtain rest where "listing fuel pages (Some token) = Some rest" "items = its @ rest"
      using Suc.prems pg by auto
    then show ?thesis using Suc.IH [of "Some token" rest] pg Some
      by (auto simp: tryM_def call_def assms(1) scanFor_append split: sum.split)
  qed
qed simp

lemma EnsureShard_discover:
  assumes "0 \<le> index" "index < ps_MaxShards (np_Spec p)"
    and "\<forall>x. shard_at (pool_shards p) index = Some x \<longrightarrow> sh_ID x = ''''"
  shows "EnsureShard C p index =
    tryM (listShards (cd_PageFuel C) C p index None '''') (\<lambda>nid.
      if nid = '''' then do {
        r \<leftarrow> issue (OciWrite (CreateNetworkLoadBalancer (createDetails C p index)))
               (oc_Mutate (cd_Client C) (CreateNetworkLoadBalancer (createDetails C p index)));
        State_Monad.return (case r of
            Inl e \<Rightarrow> Inl e
          | Inr (i, work) \<Rightarrow> Inr (\<lparr>sh_ID = vstr i, sh_PublicIP = ''''\<rparr>, vstr work))
      }
      else tryM (cloud_get C nid) (\<lambda>lb. State_Monad.return
        (if \<not> owns C p index lb then Inl (Errorf ''refusing NLB ownership/scope mismatch'')
         else if lb_LifecycleState lb \<noteq> ''ACTIVE''
         then Inl (Errorf (''owned NLB not ACTIVE: '' @ lb_LifecycleState lb))
         else Inr (\<lparr>sh_ID = nid, sh_PublicIP = publicIP (lb_IpAddresses lb)\<rparr>, ''''))))"
  using assms by (auto simp: EnsureShard_def Let_def split: option.split)

lemma wp_cloud_get:
  "wp (cloud_get C nid) (\<lambda>r s'. writes s' = writes s \<and> r = fst (run_state (cloud_get C nid) s)) s"
proof -
  have "wp (cloud_get C nid) (\<lambda>r s'. writes s' = writes s) s"
    unfolding cloud_get_def by (auto simp: wp_rules split: option.split prod.split sum.split)
  then show ?thesis by (simp add: wp_def split: prod.splits)
qed

lemma wp_cloud_mutate: "wp (cloud_mutate C nid m) (\<lambda>r s'. writes s' = writes s @ [OciWrite m]) s"
  by (simp add: cloud_mutate_def wp_rules split: prod.split)

lemma wp_StepBackends:
  assumes "provisionedShard p a = Some nid" "\<And>e. Q (Inl e) s"
    and "wp (cloud_get C nid) (\<lambda>r. case r of Inl e \<Rightarrow> Q (Inl e) | Inr lb \<Rightarrow>
      wp (case stepDecision C p a backends hp remove nid lb of Inl e \<Rightarrow> State_Monad.return (Inl e)
          | Inr None \<Rightarrow> State_Monad.return (Inr '''') | Inr (Some m) \<Rightarrow> cloud_mutate C nid m) Q) s"
  shows "wp (StepBackends C p a backends hp remove) Q s"
  using assms by (simp add: StepBackends_def wp_rules split: option.split)

lemma wp_cloud_read:
  "wp (tryM (cloud_get C nid) (\<lambda>lb. State_Monad.return (f lb))) (\<lambda>r s'. writes s' = writes s) s"
  unfolding wp_tryM by (rule wp_mono [OF wp_cloud_get]) (simp add: wp_rules split: sum.split)

lemma owns_created:
  assumes "vstr (lb_CompartmentId lb) = cl_CompartmentId (createDetails C p index)"
    "vstr (lb_SubnetId lb) = cl_SubnetId (createDetails C p index)"
    "lb_FreeformTags lb = cl_FreeformTags (createDetails C p index)"
  shows "owns C p index lb"
  using assms by (simp add: owns_def createDetails_def tags_def Let_def)

section \<open>The budget of a shard\<close>

lemma shard_leases_bound:
  assumes ok: "pool_ok p"
  shows "int (card (set (ownedNames p i))) \<le> ps_Occupancy (np_Spec p)"
proof -
  let ?here = "filter (\<lambda>v. al_Shard v = i) (map_values (pool_allocations p))"
  have "card (set (ownedNames p i)) \<le> length ?here"
    unfolding ownedNames_def using card_length [of "map al_Name ?here"] by simp
  moreover have "int (length ?here) \<le> ps_Occupancy (np_Spec p)"
  proof (cases "ps_AllocationMode (np_Spec p) = ''Explicit''")
    case True
    then have one: "ps_MaxShards (np_Spec p) = 1" using ok by (simp add: pool_ok_def pool_spec_ok_def)
    have "int (length (pool_allocations p)) \<le> pool_capacity p" using ok by (simp add: pool_ok_def)
    then have "int (length (pool_allocations p)) \<le> ps_Occupancy (np_Spec p)" by (simp add: pool_capacity_def one)
    moreover have "length ?here \<le> length (pool_allocations p)"
      using length_filter_le [of "\<lambda>v. al_Shard v = i" "map_values (pool_allocations p)"] by (simp add: map_values_def)
    ultimately show ?thesis by linarith
  next
    case False
    let ?s = "np_Spec p"
    have spec: "pool_spec_ok ?s" using ok by (simp add: pool_ok_def)
    have slots: "pool_slots p = {0..<ps_MaxShards ?s} \<times> {ps_PortStart ?s..<ps_PortStart ?s + ps_Occupancy ?s}"
      using card_pool_slots(1) [OF spec] False by simp
    have dist: "distinct (map alloc_slot (map_values (pool_allocations p)))"
      using ok by (simp add: pool_ok_def ledger_ok_def map_values_def o_def)
    then have d: "distinct (map alloc_slot ?here)" by (simp add: distinct_map inj_on_def)
    have "set (map alloc_slot ?here) \<subseteq> {i} \<times> {ps_PortStart ?s..<ps_PortStart ?s + ps_Occupancy ?s}"
    proof
      fix x assume "x \<in> set (map alloc_slot ?here)"
      then have "x \<in> pool_slots p" "fst x = i"
        using ok by (auto simp: pool_ok_def map_values_def alloc_slot_def)
      then show "x \<in> {i} \<times> {ps_PortStart ?s..<ps_PortStart ?s + ps_Occupancy ?s}"
        unfolding slots by (cases x) auto
    qed
    then have "card (set (map alloc_slot ?here)) \<le> card ({i} \<times> {ps_PortStart ?s..<ps_PortStart ?s + ps_Occupancy ?s})"
      by (intro card_mono) auto
    then have "length ?here \<le> nat (ps_Occupancy ?s)"
      using distinct_card [OF d] by (simp add: card_cartesian_product)
    moreover have "1 \<le> ps_Occupancy ?s" using spec by (simp add: pool_spec_ok_def)
    ultimately show ?thesis by linarith
  qed
  ultimately show ?thesis by linarith
qed

lemma backendTotal_bound:
  assumes wf: "wf_map sets" and dom: "dom (map_of sets) \<subseteq> N" and own: "own \<in> N" and fin: "finite N"
    and size: "\<And>n bs. map_of sets n = Some bs \<Longrightarrow> int (length (os_Backends bs)) \<le> w" and w: "0 \<le> w"
  shows "backendTotal sets own \<le> (int (card N) - 1) * w"
proof -
  have "backendTotal sets own \<le> (\<Sum>n \<in> dom (map_of sets) - {own}. w)"
    unfolding backendTotal_sum [OF wf] using size by (intro sum_mono) auto
  also have "\<dots> = int (card (dom (map_of sets) - {own})) * w" by simp
  also have "\<dots> \<le> int (card (N - {own})) * w"
    using dom fin w by (intro mult_right_mono) (auto intro!: card_mono)
  also have "\<dots> = (int (card N) - 1) * w"
    using own fin card_gt_0_iff [of N] by (auto simp: of_nat_diff Suc_le_eq)
  finally show ?thesis .
qed

lemma drive_log_removal:
  assumes ap: "oci_applies apply" and wf: "wf_nlb lb"
    and own: "al_Name a \<in> set (ownedNames p (al_Shard a))" and ok: "stepRefusal C p a lb = None"
  shows "drive_log 2 (stepDecision C p a backends hp True nid) apply lb =
    (if has_key (lb_Listeners lb) (al_Name a) then [DeleteListener nid (al_Name a)] else []) @
    (if has_key (lb_BackendSets lb) (al_Name a) then [DeleteBackendSet nid (al_Name a)] else [])"
proof -
  have next_ok: "stepRefusal C p a (apply m lb) = None" "mutation_effect m lb (apply m lb)"
    if "m = DeleteListener nid (al_Name a) \<or> m = DeleteBackendSet nid (al_Name a)" for m
    using step_stays_admitted(2) [OF ap wf own ok, of m nid] that ap wf by (auto simp: oci_applies_def)
  show ?thesis
    using next_ok [of "DeleteListener nid (al_Name a)"] next_ok [of "DeleteBackendSet nid (al_Name a)"]
    by (simp add: numeral_2_eq_2 stepDecision_def Let_def ok has_key_def)
qed

lemma backend_budget:
  assumes ok: "pool_ok p" and wf: "wf_nlb lb" and names: "dom (map_of (lb_BackendSets lb)) \<subseteq> set (ownedNames p i)"
    and own: "own \<in> set (ownedNames p i)"
    and size: "\<forall>n bs. map_of (lb_BackendSets lb) n = Some bs \<longrightarrow> int (length (os_Backends bs)) \<le> workerLimit (np_Spec p)"
    and want: "int (length desired) \<le> workerLimit (np_Spec p)" "distinct (map (\<lambda>b. (bk_IP b, bk_Port b)) desired)"
  shows "validateBackendBudget lb own desired = None"
proof -
  let ?w = "workerLimit (np_Spec p)" and ?N = "set (ownedNames p i)"
  have spec: "pool_spec_ok (np_Spec p)" using ok by (simp add: pool_ok_def)
  then have w: "0 \<le> ?w" "?w \<le> 512" and cap: "ps_Occupancy (np_Spec p) * ?w \<le> 1024"
    by (auto simp: pool_spec_ok_def workerLimit_def split: if_splits)
  have "backendTotal (lb_BackendSets lb) own \<le> (int (card ?N) - 1) * ?w"
    using wf size by (intro backendTotal_bound [OF _ names own _ _ w(1)]) (auto simp: wf_nlb_def)
  moreover have "int (card ?N) * ?w \<le> ps_Occupancy (np_Spec p) * ?w"
    using shard_leases_bound [OF ok, of i] w(1) by (rule mult_right_mono)
  ultimately have "int (length desired) + backendTotal (lb_BackendSets lb) own \<le> 1024"
    using want(1) cap by (simp add: left_diff_distrib)
  moreover have "\<not> duplicateKeys desired []" using want(2) by (simp add: duplicateKeys_destinations)
  moreover have "\<not> 512 < length desired" using want(1) w(2) by linarith
  ultimately show ?thesis by (simp add: validateBackendBudget_def)
qed

section \<open>Concrete load balancers\<close>

definition demo_cloud_pool :: nlb_pool where
  "demo_cloud_pool = demo_used_pool\<lparr>np_Status := (np_Status demo_used_pool)\<lparr>st_Shards := [\<lparr>sh_ID = ''nlb-1'', sh_PublicIP = ''''\<rparr>]\<rparr>\<rparr>"

definition demo_active :: allocation where
  "demo_active = demo_lease ''u2'' ''s2'' 0 20001 False"

definition demo_backends :: "backend list" where
  "demo_backends = [\<lparr>bk_IP = ''10.0.0.5'', bk_TargetID = '''', bk_Port = 7777\<rparr>]"

text \<open>A load balancer of the pool that still carries the backend set of the retired lease.\<close>

definition demo_nlb :: nlb where
  "demo_nlb = (created_nlb (createDetails mem_cloud demo_cloud_pool 0))
     \<lparr>lb_BackendSets := [(leaseName ''u1'', wantedSet demo_cloud_pool (demo_lease ''u1'' ''s1'' 0 20000 True) [] 8080 [])]\<rparr>"

definition demo_store :: "(string, nlb) gomap" where
  "demo_store = [(''nlb-1'', demo_nlb)]"

lemma demo_cloud_simps [simp]:
  "np_Meta demo_cloud_pool = meta_named ''ns'' ''pool'' ''pool-uid''"
  "np_Spec demo_cloud_pool = demo_spec"
  "pool_allocations demo_cloud_pool =
     [(''u1'', demo_lease ''u1'' ''s1'' 0 20000 True), (''u2'', demo_active)]"
  "pool_shards demo_cloud_pool = [\<lparr>sh_ID = ''nlb-1'', sh_PublicIP = ''''\<rparr>]"
  "al_Name demo_active = leaseName ''u2''" "al_Shard demo_active = 0" "al_Port demo_active = 20001"
  "al_Mode demo_active = ''PodIP''"
  by (simp_all add: demo_cloud_pool_def demo_active_def demo_defs)

lemma demo_step_facts:
  "provisionedShard demo_cloud_pool demo_active = Some ''nlb-1''"
  "al_Name demo_active \<in> set (ownedNames demo_cloud_pool (al_Shard demo_active))"
  "wf_nlb demo_nlb" "stepRefusal mem_cloud demo_cloud_pool demo_active demo_nlb = None"
  "admissionError demo_cloud_pool demo_active demo_backends demo_nlb = None"
  "\<forall>l. map_of (lb_Listeners demo_nlb) (al_Name demo_active) = Some l \<longrightarrow> listenerMatches demo_active l"
proof -
  show own: "al_Name demo_active \<in> set (ownedNames demo_cloud_pool (al_Shard demo_active))"
    by (simp add: ownedNames_def map_values_def)
  show "provisionedShard demo_cloud_pool demo_active = Some ''nlb-1''"
    by (simp add: provisionedShard_def shard_at_def)
  show "wf_nlb demo_nlb" by (simp add: wf_nlb_def wf_map_def demo_nlb_def created_nlb_def)
  have "owns mem_cloud demo_cloud_pool 0 demo_nlb"
    by (rule owns_created) (simp_all add: demo_nlb_def created_nlb_def)
  moreover have "al_Name (demo_lease ''u1'' ''s1'' 0 20000 True) = leaseName ''u1''"
    "al_Shard (demo_lease ''u1'' ''s1'' 0 20000 True) = 0"
    by (simp_all add: demo_defs)
  ultimately show "stepRefusal mem_cloud demo_cloud_pool demo_active demo_nlb = None"
    by (auto simp: stepRefusal_None ownedNames_def map_values_def demo_nlb_def created_nlb_def)
  show "admissionError demo_cloud_pool demo_active demo_backends demo_nlb = None"
    by (simp add: admissionError_def validateBackendBudget_def backendTotal_def demo_backends_def demo_nlb_def
        created_nlb_def demo_spec_def wantedSet_def backendListDetails_def)
  show "\<forall>l. map_of (lb_Listeners demo_nlb) (al_Name demo_active) = Some l \<longrightarrow> listenerMatches demo_active l"
    by (simp add: demo_nlb_def created_nlb_def)
qed

section \<open>Properties\<close>

text \<open>
  C25. Two reconciliations bring an admitted lease to its wanted configuration.  The load balancer of the lease's
  shard belongs to the pool and is active, carries objects of the shard's leases only, its listener for this
  lease, if there is one, is as it was created, and the wanted backends fit (a drifted listener, foreign objects
  and an exceeded budget are errors of the step instead).  Then, against a service that carries out what it
  accepts, after at most two mutations the lease has a backend set with exactly the wanted destinations, health
  check and flags and a UDP listener on its port, every other lease's objects are as they were, and a further
  step writes nothing and reports convergence.
\<close>

theorem StepBackends_converges:
  assumes ap: "oci_applies apply" and sv: "oci_serves C view apply"
    and sh: "provisionedShard p a = Some nid" and v: "view (world s) nid = Some lb" and wf: "wf_nlb lb"
    and own: "al_Name a \<in> set (ownedNames p (al_Shard a))"
    and ok: "stepRefusal C p a lb = None" "admissionError p a backends lb = None"
    and nodrift: "\<forall>l. map_of (lb_Listeners lb) (al_Name a) = Some l \<longrightarrow> listenerMatches a l"
  shows "\<exists>lb' s'. s' = passes 2 (step_pass C p a backends hp False) s \<and> view (world s') nid = Some lb' \<and>
    converged p a backends hp lb' \<and>
    (\<forall>n. n \<noteq> al_Name a \<longrightarrow> map_of (lb_Listeners lb') n = map_of (lb_Listeners lb) n \<and>
       map_of (lb_BackendSets lb') n = map_of (lb_BackendSets lb) n) \<and>
    length (writes s') \<le> length (writes s) + 2 \<and>
    fst (run_state (step_pass C p a backends hp False) s') = Inr '''' \<and>
    writes (snd (run_state (step_pass C p a backends hp False) s')) = writes s'"
proof -
  let ?pass = "step_pass C p a backends hp False" and ?dec = "stepDecision C p a backends hp False nid"
  let ?s = "passes 2 ?pass s" and ?lb = "drive 2 ?dec apply lb"
  have reach: "view (world ?s) nid = Some ?lb" "writes ?s = writes s @ map OciWrite (drive_log 2 ?dec apply lb)"
    using passes_drive [OF sv sh v, of 2 backends hp False] by simp_all
  have conv: "?dec ?lb = Inr None" "converged p a backends hp ?lb"
    "\<forall>n. n \<noteq> al_Name a \<longrightarrow> map_of (lb_Listeners ?lb) n = map_of (lb_Listeners lb) n \<and>
       map_of (lb_BackendSets ?lb) n = map_of (lb_BackendSets lb) n"
    using drive_to_convergence [OF ap wf own ok nodrift, of hp nid] by simp_all
  have "fst (run_state ?pass ?s) = Inr ''''" "writes (snd (run_state ?pass ?s)) = writes ?s"
    using step_pass_effect [OF sv sh reach(1), of backends hp False] conv(1)
    by (auto simp: wp_def split: prod.splits)
  with reach conv drive_log_length [of 2 ?dec "apply" lb] show ?thesis by auto
qed

theorem StepBackends_converges_witness:
  "\<exists>lb' s'. s' = passes 2 (step_pass mem_cloud demo_cloud_pool demo_active demo_backends 8080 False) (mem_start demo_store) \<and>
    map_of (world s') ''nlb-1'' = Some lb' \<and> converged demo_cloud_pool demo_active demo_backends 8080 lb'"
proof -
  have v: "map_of (world (mem_start demo_store)) ''nlb-1'' = Some demo_nlb"
    by (simp add: mem_start_def demo_store_def)
  show ?thesis
    using StepBackends_converges [OF oci_applies_ideal oci_serves_mem demo_step_facts(1) v demo_step_facts(3,2,4,5,6), of 8080]
    by blast
qed

text \<open>
  Removing a lease takes its listener away before its backend set, with one mutation per
  reconciliation and no other write, leaves both absent, leaves every other lease's objects as they
  were, and then reports that nothing is left to do.
\<close>

theorem StepBackends_removes:
  assumes ap: "oci_applies apply" and sv: "oci_serves C view apply"
    and sh: "provisionedShard p a = Some nid" and v: "view (world s) nid = Some lb" and wf: "wf_nlb lb"
    and own: "al_Name a \<in> set (ownedNames p (al_Shard a))" and ok: "stepRefusal C p a lb = None"
  shows "\<exists>lb' s'. s' = passes 2 (step_pass C p a backends hp True) s \<and> view (world s') nid = Some lb' \<and>
    map_of (lb_Listeners lb') = (map_of (lb_Listeners lb))(al_Name a := None) \<and>
    map_of (lb_BackendSets lb') = (map_of (lb_BackendSets lb))(al_Name a := None) \<and>
    writes s' = writes s @
      (if has_key (lb_Listeners lb) (al_Name a) then [OciWrite (DeleteListener nid (al_Name a))] else []) @
      (if has_key (lb_BackendSets lb) (al_Name a) then [OciWrite (DeleteBackendSet nid (al_Name a))] else []) \<and>
    fst (run_state (step_pass C p a backends hp True) s') = Inr ''''"
proof -
  let ?pass = "step_pass C p a backends hp True" and ?dec = "stepDecision C p a backends hp True nid"
  let ?s = "passes 2 ?pass s" and ?lb = "drive 2 ?dec apply lb"
  have reach: "view (world ?s) nid = Some ?lb" "writes ?s = writes s @ map OciWrite (drive_log 2 ?dec apply lb)"
    using passes_drive [OF sv sh v, of 2 backends hp True] by simp_all
  have gone: "?dec ?lb = Inr None" "map_of (lb_Listeners ?lb) = (map_of (lb_Listeners lb))(al_Name a := None)"
    "map_of (lb_BackendSets ?lb) = (map_of (lb_BackendSets lb))(al_Name a := None)"
    using drive_removal [OF ap wf own ok, of backends hp nid] by simp_all
  have "fst (run_state ?pass ?s) = Inr ''''"
    using step_pass_effect [OF sv sh reach(1), of backends hp True] gone(1)
    by (auto simp: wp_def split: prod.splits)
  with reach gone show ?thesis by (auto simp: drive_log_removal [OF ap wf own ok])
qed

theorem StepBackends_removes_witness:
  "\<exists>lb' s'. s' = passes 2 (step_pass mem_cloud demo_cloud_pool demo_active [] 0 True) (mem_start demo_store) \<and>
    map_of (world s') ''nlb-1'' = Some lb' \<and> map_of (lb_BackendSets lb') (leaseName ''u2'') = None"
proof -
  have v: "map_of (world (mem_start demo_store)) ''nlb-1'' = Some demo_nlb"
    by (simp add: mem_start_def demo_store_def)
  show ?thesis
    using StepBackends_removes [OF oci_applies_ideal oci_serves_mem demo_step_facts(1) v demo_step_facts(3,2,4), of "[]" 0]
    by auto
qed

text \<open>
  C26. A step writes at most once, and only where it may: whatever the OCI service answers, the one
  mutation is aimed at the object named after the lease on the lease's own shard, and the load balancer
  read just before carries the pool's ownership tags, compartment and subnet, is ACTIVE, and has no
  listener or backend set that the shard's leases do not account for.  Unless the lease is being
  removed, the wanted backends passed the capacity checks.
\<close>

theorem StepBackends_safe:
  assumes run: "run_state (StepBackends C p a backends hp remove) s = (r, s')"
  shows "writes s' = writes s \<and> (\<forall>work. r = Inr work \<longrightarrow> work = '''') \<or>
    (\<exists>nid lb m. writes s' = writes s @ [OciWrite m] \<and> mutation_target m = Some (nid, al_Name a) \<and>
       provisionedShard p a = Some nid \<and> fst (run_state (cloud_get C nid) s) = Inr lb \<and>
       owns C p (al_Shard a) lb \<and> lb_LifecycleState lb = ''ACTIVE'' \<and>
       dom (map_of (lb_Listeners lb)) \<subseteq> set (ownedNames p (al_Shard a)) \<and>
       dom (map_of (lb_BackendSets lb)) \<subseteq> set (ownedNames p (al_Shard a)) \<and>
       (\<not> remove \<longrightarrow> admissionError p a backends lb = None))"
    (is "?P r s'")
proof -
  have "wp (StepBackends C p a backends hp remove) ?P s"
  proof (cases "provisionedShard p a")
    case None
    then show ?thesis by (simp add: StepBackends_def wp_rules split: option.split)
  next
    case (Some nid)
    let ?dec = "stepDecision C p a backends hp remove nid"
    have mut: "wp (cloud_mutate C nid m) (\<lambda>r u. ?P r u) t"
      if t: "writes t = writes s" and lb: "fst (run_state (cloud_get C nid) s) = Inr lb" and d: "?dec lb = Inr (Some m)"
      for t lb m
    proof -
      have "stepRefusal C p a lb = None" "\<not> remove \<longrightarrow> admissionError p a backends lb = None"
        using d by (auto simp: stepDecision_def Let_def split: option.splits if_splits)
      then have "?P r u" if "writes u = writes s @ [OciWrite m]" for r u
        using that lb Some stepDecision_target [OF d] by (auto simp: stepRefusal_None)
      then show ?thesis using t by (intro wp_mono [OF wp_cloud_mutate]) simp
    qed
    have "wp (cloud_get C nid) (\<lambda>r. case r of Inl e \<Rightarrow> ?P (Inl e) | Inr lb \<Rightarrow>
        wp (case ?dec lb of Inl e \<Rightarrow> State_Monad.return (Inl e) | Inr None \<Rightarrow> State_Monad.return (Inr '''')
            | Inr (Some m) \<Rightarrow> cloud_mutate C nid m) ?P) s"
      by (rule wp_mono [OF wp_cloud_get]) (auto simp: wp_rules mut split: sum.split option.split)
    then show ?thesis by (rule wp_StepBackends [OF Some, rotated]) simp
  qed
  from wp_run [OF this run] show ?thesis .
qed

theorem StepBackends_safe_witness:
  "\<exists>r s'. run_state (StepBackends mem_cloud demo_cloud_pool demo_active [] 0 True) (mem_start demo_store) = (r, s') \<and>
    length (writes s') \<le> 1"
proof -
  obtain r s' where run: "run_state (StepBackends mem_cloud demo_cloud_pool demo_active [] 0 True) (mem_start demo_store) = (r, s')"
    by fastforce
  have "writes (mem_start demo_store) = []" by (simp add: mem_start_def)
  with StepBackends_safe [OF run] have "length (writes s') \<le> 1" by auto
  with run show ?thesis by blast
qed

text \<open>
  C37. The drift check for backends is exact: \<^verbatim>\<open>sameBackendList\<close> accepts the configured backends if and
  only if, as a multiset, their destinations are the wanted ones, no destination is wanted twice, and
  every configured backend has weight 1 and is neither offline, draining nor a backup.
\<close>

theorem sameBackendList_exact:
  "sameBackendList current desired \<longleftrightarrow>
     distinct desired \<and> mset (map destination current) = mset desired \<and>
     (\<forall>x \<in> set current. vint (ob_Weight x) = 1 \<and> \<not> vbool (ob_IsOffline x) \<and> \<not> vbool (ob_IsDrain x) \<and> \<not> vbool (ob_IsBackup x))"
  by (simp add: sameBackendList_mset list_all_iff plain_flags_def)

theorem sameBackendList_exact_witness:
  "sameBackendList (backendListDetails demo_backends ''x'' []) demo_backends \<and>
   \<not> sameBackendList ((backendListDetails demo_backends ''x'' []) @ (backendListDetails demo_backends ''x'' [])) demo_backends"
  using sameBackendList_exact [of "backendListDetails demo_backends ''x'' []" demo_backends]
    sameBackendList_exact [of "(backendListDetails demo_backends ''x'' []) @ (backendListDetails demo_backends ''x'' [])" demo_backends]
    sameBackendList_details [of demo_backends "''x''" "[]"]
  by (simp add: demo_backends_def backendListDetails_destinations)

text \<open>
  C35. A shard is created only when it is missing.  Whatever the service answers, \<^verbatim>\<open>EnsureShard\<close> issues no
  write, or the one creation request for the given shard, and that only for an index inside the pool,
  when the pool records no identifier for the shard, and after a complete listing in which no live load
  balancer with an identifier carries the tags of that shard.
\<close>

theorem EnsureShard_creates_only_missing:
  assumes run: "run_state (EnsureShard C p index) s = (r, s')"
  shows "writes s' = writes s \<or>
    writes s' = writes s @ [OciWrite (CreateNetworkLoadBalancer (createDetails C p index))] \<and>
    0 \<le> index \<and> index < ps_MaxShards (np_Spec p) \<and>
    (\<forall>x. shard_at (pool_shards p) index = Some x \<longrightarrow> sh_ID x = '''') \<and>
    (\<exists>items. fst (run_state (readPages (cd_PageFuel C) C (ps_CompartmentID (np_Spec p)) None) s) = Inr items \<and>
       (\<forall>x \<in> set items. live_shard C p index x \<longrightarrow> vstr (ns_Id x) = ''''))"
    (is "?P s'")
proof -
  consider (bad) "index < 0 \<or> ps_MaxShards (np_Spec p) \<le> index"
    | (known) x where "0 \<le> index" "index < ps_MaxShards (np_Spec p)" "shard_at (pool_shards p) index = Some x" "sh_ID x \<noteq> ''''"
    | (search) "0 \<le> index" "index < ps_MaxShards (np_Spec p)" "\<forall>x. shard_at (pool_shards p) index = Some x \<longrightarrow> sh_ID x = ''''"
    by fastforce
  then have "wp (EnsureShard C p index) (\<lambda>r. ?P) s"
  proof cases
    case bad
    then show ?thesis by (auto simp: EnsureShard_def wp_rules)
  next
    case known
    then show ?thesis by (auto simp: EnsureShard_def Let_def wp_rules intro!: wp_mono [OF wp_cloud_get] split: sum.split)
  next
    case search
    have get: "wp (tryM (cloud_get C nid) (\<lambda>lb. State_Monad.return (f lb))) (\<lambda>r. ?P) t"
      if "writes t = writes s" for t nid and f :: "nlb \<Rightarrow> go_error + shard \<times> string"
      by (rule wp_mono [OF wp_cloud_read]) (simp add: that)
    have new: "wp (do { r \<leftarrow> issue (OciWrite (CreateNetworkLoadBalancer (createDetails C p index))) f;
        State_Monad.return (g r) }) (\<lambda>r. ?P) t"
      if "writes t = writes s" "fst (run_state (readPages (cd_PageFuel C) C (ps_CompartmentID (np_Spec p)) None) s) = Inr items"
        "scanFor C p index items '''' = Inr ''''"
      for t items and f :: "'a \<Rightarrow> (go_error + string option \<times> string option) \<times> 'a"
        and g :: "go_error + string option \<times> string option \<Rightarrow> go_error + shard \<times> string"
      using that search scanFor_empty [OF that(3)] by (simp add: wp_rules split: prod.split)
    show ?thesis
      unfolding EnsureShard_discover [OF search] wp_tryM [of "listShards _ _ _ _ _ _"]
    proof (rule wp_mono [OF listShards_readPages], goal_cases)
      case (1 r t)
      then show ?case
      proof (cases r)
        case (Inr nid)
        with 1 show ?thesis by (cases "nid = ''''") (auto simp: get intro!: new)
      qed simp
    qed
  qed
  from wp_run [OF this run] show ?thesis .
qed

theorem EnsureShard_creates_only_missing_witness:
  "\<exists>r s'. run_state (EnsureShard mem_cloud demo_used_pool 0) (mem_start []) = (r, s') \<and>
    writes s' = [OciWrite (CreateNetworkLoadBalancer (createDetails mem_cloud demo_used_pool 0))]"
proof -
  obtain r s' where run: "run_state (EnsureShard mem_cloud demo_used_pool 0) (mem_start []) = (r, s')" by fastforce
  have "writes s' \<noteq> []"
    using run by (auto simp: EnsureShard_def mem_cloud_def mem_client_def mem_start_def demo_defs shard_at_def tryM_def
        call_def issue_def emit_def modify_def mem_mutate_def Let_def)
  moreover have "writes (mem_start []) = []" by (simp add: mem_start_def)
  ultimately have "writes s' = [OciWrite (CreateNetworkLoadBalancer (createDetails mem_cloud demo_used_pool 0))]"
    using EnsureShard_creates_only_missing [OF run] by auto
  with run show ?thesis by blast
qed

text \<open>
  C36. What becomes of a shard that the pool does not record.  If the service lists its load balancers in finitely many
  pages (at most as many as the fuel), and the live ones tagged for the shard have identifiers, then
  \<^verbatim>\<open>EnsureShard\<close> for an index inside the pool ends, and the listing alone decides what it does.  With no such load balancer it issues exactly the
  creation request and answers with the new identifier and work request, or with the service's error.  With exactly
  one, so in particular after a creation whose answer was lost, it writes nothing: it adopts that load
  balancer if it can be read, belongs to the shard by tags, compartment and subnet, and is active, and otherwise
  reports the failed read, the ownership mismatch or the state.  With two or more it reports the duplicate
  without any write.
\<close>

theorem EnsureShard_unrecorded:
  assumes index: "0 \<le> index" "index < ps_MaxShards (np_Spec p)"
    and unknown: "\<forall>x. shard_at (pool_shards p) index = Some x \<longrightarrow> sh_ID x = ''''"
    and list: "\<And>pg w. oc_ListNLBs (cd_Client C) (ps_CompartmentID (np_Spec p)) pg w = (Inr (pages pg), w)"
      "listing (cd_PageFuel C) pages None = Some items"
    and named: "\<forall>x \<in> set items. live_shard C p index x \<longrightarrow> vstr (ns_Id x) \<noteq> ''''"
    and run: "run_state (EnsureShard C p index) s = (ans, s')"
  shows "case filter (live_shard C p index) items of
      [] \<Rightarrow> writes s' = writes s @ [OciWrite (CreateNetworkLoadBalancer (createDetails C p index))] \<and>
        ans = (case fst (oc_Mutate (cd_Client C) (CreateNetworkLoadBalancer (createDetails C p index)) (world s)) of
          Inl e \<Rightarrow> Inl e | Inr (i, work) \<Rightarrow> Inr (\<lparr>sh_ID = vstr i, sh_PublicIP = ''''\<rparr>, vstr work))
    | [x] \<Rightarrow> writes s' = writes s \<and>
        (case fst (run_state (cloud_get C (vstr (ns_Id x))) s) of
           Inl e \<Rightarrow> ans = Inl e
         | Inr lb \<Rightarrow>
             (if owns C p index lb \<and> lb_LifecycleState lb = ''ACTIVE''
              then ans = Inr (\<lparr>sh_ID = vstr (ns_Id x), sh_PublicIP = publicIP (lb_IpAddresses lb)\<rparr>, '''')
              else ans \<in> {Inl (Errorf ''refusing NLB ownership/scope mismatch''), Inl (Errorf (''owned NLB not ACTIVE: '' @ lb_LifecycleState lb))}))
    | _ \<Rightarrow> ans = Inl duplicate_error \<and> s' = s"
proof -
  have found: "run_state (listShards (cd_PageFuel C) C p index None '''') s = (scanFor C p index items '''', s)"
    by (rule listShards_listing [OF list])
  note scan = scanFor_start [OF named] and ensure = EnsureShard_discover [OF index unknown]
  consider (none) "filter (live_shard C p index) items = []" | (one) x where "filter (live_shard C p index) items = [x]"
    | (many) x y zs where "filter (live_shard C p index) items = x # y # zs"
    by (metis neq_Nil_conv)
  then show ?thesis
  proof cases
    case none
    with scan have "scanFor C p index items '''' = Inr ''''" by simp
    with found run none show ?thesis
      by (auto simp: ensure tryM_def issue_def emit_def modify_def call_def split: prod.splits sum.splits)
  next
    case one
    have "x \<in> set (filter (live_shard C p index) items)" by (simp only: one) simp
    then have id: "vstr (ns_Id x) \<noteq> ''''" using named by simp
    obtain r t where t: "run_state (cloud_get C (vstr (ns_Id x))) s = (r, t)" by fastforce
    have "writes t = writes s" using wp_cloud_get [of C "vstr (ns_Id x)" s] t by (simp add: wp_def)
    moreover from scan one have "scanFor C p index items '''' = Inr (vstr (ns_Id x))" by simp
    ultimately show ?thesis
      using found run one id t by (auto simp: ensure tryM_def split: sum.splits if_splits)
  next
    case many
    with scan have "scanFor C p index items '''' = Inl duplicate_error" by simp
    with found run many show ?thesis by (simp add: ensure tryM_def)
  qed
qed

text \<open>A service that answers the listing in two pages.\<close>
definition fixed_client :: "nlb_summary list \<Rightarrow> nlb \<Rightarrow> unit cloud" where
  "fixed_client items lb = \<lparr>cd_Client = \<lparr>oc_GetNLB = (\<lambda>nid w. (Inr lb, w)), oc_ListNLBs = (\<lambda>c pg w.
       (if pg = None then Inr ([], Some ''2'') else Inr (items, None), w)),
       oc_Mutate = (\<lambda>m w. (Inl (ApiError ''refused''), w)), oc_GetWorkRequest = (\<lambda>i w. (Inr ''SUCCEEDED'', w))\<rparr>,
     cd_Installation = ''inst'', cd_CtxErr = (\<lambda>w. None), cd_PageFuel = 2\<rparr>"

definition demo_summary :: nlb_summary where
  "demo_summary = \<lparr>ns_Id = Some ''nlb-1'', ns_LifecycleState = ''ACTIVE'', ns_FreeformTags = lb_FreeformTags demo_nlb\<rparr>"

theorem EnsureShard_unrecorded_witness:
  "\<exists>s'. run_state (EnsureShard (fixed_client [demo_summary] demo_nlb) demo_used_pool 0) (mem_start ()) =
     (Inr (\<lparr>sh_ID = ''nlb-1'', sh_PublicIP = ''203.0.113.7''\<rparr>, ''''), s') \<and> writes s' = []"
proof -
  let ?C = "fixed_client [demo_summary] demo_nlb" and ?pages = "\<lambda>pg. if pg = None then ([], Some ''2'') else ([demo_summary], None)"
  obtain ans s' where run: "run_state (EnsureShard ?C demo_used_pool 0) (mem_start ()) = (ans, s')" by fastforce
  have 1: "0 \<le> (0::int)" "0 < ps_MaxShards (np_Spec demo_used_pool)"
    "\<forall>x. shard_at (pool_shards demo_used_pool) 0 = Some x \<longrightarrow> sh_ID x = ''''"
    by (simp_all add: demo_defs shard_at_def)
  have 2: "oc_ListNLBs (cd_Client ?C) (ps_CompartmentID (np_Spec demo_used_pool)) pg w = (Inr (?pages pg), w)" for pg w
    by (simp add: fixed_client_def)
  have 3: "listing (cd_PageFuel ?C) ?pages None = Some [demo_summary]" by (simp add: fixed_client_def numeral_2_eq_2)
  have live: "live_shard ?C demo_used_pool 0 demo_summary"
    by (simp add: live_shard_def demo_summary_def demo_nlb_def created_nlb_def createDetails_def tags_def fixed_client_def
        mem_cloud_def demo_defs Let_def)
  have 4: "\<forall>x \<in> set [demo_summary]. live_shard ?C demo_used_pool 0 x \<longrightarrow> vstr (ns_Id x) \<noteq> ''''"
    by (simp add: demo_summary_def)
  have got: "fst (run_state (cloud_get ?C (vstr (ns_Id demo_summary))) (mem_start ())) = Inr demo_nlb"
    by (simp add: cloud_get_def fixed_client_def mem_start_def gets_def call_def modify_def)
  have own: "owns ?C demo_used_pool 0 demo_nlb" "lb_LifecycleState demo_nlb = ''ACTIVE''"
    by (rule owns_created)
       (simp_all add: demo_nlb_def created_nlb_def createDetails_def tags_def fixed_client_def mem_cloud_def demo_defs Let_def)
  from EnsureShard_unrecorded [OF 1 2 3 4 run] live got own
  have "ans = Inr (\<lparr>sh_ID = vstr (ns_Id demo_summary), sh_PublicIP = publicIP (lb_IpAddresses demo_nlb)\<rparr>, '''') \<and> writes s' = writes (mem_start ())" by simp
  with run show ?thesis
    by (simp add: demo_summary_def mem_start_def publicIP_def demo_nlb_def created_nlb_def)
qed

text \<open>
  The capacity check cannot fire on a pool that passed validation: if the pool invariant holds, the
  shard's load balancer carries only objects of the shard's leases with at most \<^verbatim>\<open>workerLimit\<close> backends
  each, and at most \<^verbatim>\<open>workerLimit\<close> destinations are wanted, no two with the same address and port, then
  \<^verbatim>\<open>validateBackendBudget\<close> accepts.
\<close>

theorem validateBackendBudget_accepts:
  assumes ok: "pool_ok p" and wf: "wf_nlb lb" and names: "dom (map_of (lb_BackendSets lb)) \<subseteq> set (ownedNames p i)"
    and own: "own \<in> set (ownedNames p i)"
    and size: "\<forall>n bs. map_of (lb_BackendSets lb) n = Some bs \<longrightarrow> int (length (os_Backends bs)) \<le> workerLimit (np_Spec p)"
    and want: "int (length desired) \<le> workerLimit (np_Spec p)" "distinct (map (\<lambda>b. (bk_IP b, bk_Port b)) desired)"
  shows "validateBackendBudget lb own desired = None"
  by (rule backend_budget [OF ok wf names own size want])

lemma demo_cloud_pool_ok: "pool_ok demo_cloud_pool"
  using demo_used_pool_ok pool_ok_cong [of demo_cloud_pool demo_used_pool] by (simp add: demo_cloud_pool_def)

theorem validateBackendBudget_accepts_witness:
  "validateBackendBudget demo_nlb (leaseName ''u2'') demo_backends = None"
proof (rule validateBackendBudget_accepts [OF demo_cloud_pool_ok demo_step_facts(3), of 0])
  show "dom (map_of (lb_BackendSets demo_nlb)) \<subseteq> set (ownedNames demo_cloud_pool 0)"
    using demo_step_facts(4) by (simp add: stepRefusal_None)
  show "leaseName ''u2'' \<in> set (ownedNames demo_cloud_pool 0)" using demo_step_facts(2) by simp
qed (simp_all add: demo_nlb_def created_nlb_def demo_backends_def demo_spec_def workerLimit_def wantedSet_def backendListDetails_def)

end
