(* ===== verification/Endpoints_Cluster.thy ===== *)
theory Endpoints_Cluster
  imports Endpoints Cloud_Steps
begin

text \<open>
  \<^verbatim>\<open>endpoints_cluster.go\<close>: the inventory of workers that node-port-cluster mode pins before any cloud
  write, and the resolution of a binding to all of them.

  \<^verbatim>\<open>clusterWorkers\<close> and \<^verbatim>\<open>resolveCluster\<close> may return a value together with an error (a capacity error with
  the inventory, an availability gap with the backends), so their results are pairs.
\<close>

section \<open>Definitions\<close>

definition zero_worker :: worker_identity where
  "zero_worker = \<lparr>wi_UID = '''', wi_InstanceID = '''', wi_IP = ''''\<rparr>"

fun internalIPv4 :: "(string \<times> string) list \<Rightarrow> string \<Rightarrow> go_error + string" where
  "internalIPv4 [] ip = Inr ip"
| "internalIPv4 ((ty, addr) # rest) ip =
     (if ty = ''InternalIP'' \<and> is_ipv4 addr
      then (if ip \<noteq> '''' \<and> ip \<noteq> addr then Inl (Errorf ''worker has ambiguous internal IPv4 addresses'')
            else internalIPv4 rest addr)
      else internalIPv4 rest ip)"

text \<open>The guards at the top of the loop body, up to the addresses.\<close>

definition skipNode :: "node \<Rightarrow> bool" where
  "skipNode node \<longleftrightarrow>
     om_Deleting (nd_Meta node) \<or>
     has_key (om_Labels (nd_Meta node)) ''node.kubernetes.io/exclude-from-external-load-balancers'' \<or>
     has_key (om_Labels (nd_Meta node)) ''node-role.kubernetes.io/control-plane'' \<or>
     has_key (om_Labels (nd_Meta node)) ''node-role.kubernetes.io/master'' \<or>
     om_UID (nd_Meta node) = '''' \<or> \<not> has_prefix (instanceID node) ''ocid1.instance.''"

definition nodeIdentity :: "node \<Rightarrow> string \<Rightarrow> worker_identity" where
  "nodeIdentity node ip = \<lparr>wi_UID = om_UID (nd_Meta node), wi_InstanceID = instanceID node, wi_IP = ip\<rparr>"

fun workerLoop :: "(string, worker_identity) gomap \<Rightarrow> node list \<Rightarrow> (string, worker_identity) gomap \<Rightarrow> string list \<Rightarrow>
    string list \<Rightarrow> go_error + (string, worker_identity) gomap" where
  "workerLoop pinned [] result ips instances = Inr result"
| "workerLoop pinned (node # nodes) result ips instances =
     (if skipNode node then workerLoop pinned nodes result ips instances
      else (case internalIPv4 (nd_Addresses node) '''' of
              Inl e \<Rightarrow> Inl e
            | Inr ip \<Rightarrow>
                (if ip = '''' then workerLoop pinned nodes result ips instances
                 else if \<not> nodeReady node \<and> get_or zero_worker pinned (om_Name (nd_Meta node)) \<noteq> nodeIdentity node ip
                 then workerLoop pinned nodes result ips instances
                 else if ip \<in> set ips \<or> instanceID node \<in> set instances
                 then Inl (Errorf ''workers have duplicate IP or instance identity'')
                 else workerLoop pinned nodes (AList.update (om_Name (nd_Meta node)) (nodeIdentity node ip) result)
                        (ip # ips) (instanceID node # instances))))"

definition clusterWorkers :: "reader \<Rightarrow> nlb_pool \<Rightarrow> (string, worker_identity) gomap \<times> go_error option" where
  "clusterWorkers R p =
     (case rd_ListNodes R of
        Inl e \<Rightarrow> ([], Some (EndpointReadError e))
      | Inr nodes \<Rightarrow>
          (case workerLoop (st_Workers (np_Status p)) nodes [] [] [] of
             Inl e \<Rightarrow> ([], Some e)
           | Inr result \<Rightarrow>
               (if workerLimit (np_Spec p) < int (length result)
                then (result, Some (BackendCapacityError (''observed '' @ itoa (int (length result)) @
                        '' workers exceeds maxWorkers '' @ itoa (workerLimit (np_Spec p)) @
                        '' including surge; new worker admission paused'')))
                else (result, None))))"

definition clusterServicePort :: "tunnel_binding \<Rightarrow> service \<Rightarrow> go_error + service_port" where
  "clusterServicePort b svc =
     (case validateBindingService b svc False of Some e \<Rightarrow> Inl e | None \<Rightarrow>
       (case soleUdpPort (sv_Ports svc) (bs_PortName (tb_Spec b)) None of
          Inl e \<Rightarrow> Inl e
        | Inr None \<Rightarrow> Inl (Errorf ''named UDP NodePort missing'')
        | Inr (Some udp) \<Rightarrow>
            (if sp_NodePort udp < 1 \<or> 65535 < sp_NodePort udp then Inl (Errorf ''named UDP NodePort missing'')
             else Inr udp)))"

text \<open>One active endpoint: the Pod's UID, and whether the Pod and its node are ready.\<close>

definition clusterActive :: "kube_lib \<Rightarrow> reader \<Rightarrow> tunnel_binding \<Rightarrow> service \<Rightarrow> service_port \<Rightarrow> int \<Rightarrow> endpoint \<Rightarrow> string \<Rightarrow>
    go_error + (string \<times> bool)" where
  "clusterActive L R b svc udp target ep readyUID =
     (case readEndpointPod L R b svc ep of Inl e \<Rightarrow> Inl e | Inr pod \<Rightarrow>
       (if pd_HostNetwork pod then Inl (Errorf ''NodePortCluster requires a Pod without hostNetwork'')
        else if podTargetPort udp pod \<noteq> Inr target
        then Inl (Errorf ''UDP EndpointSlice port does not match Service targetPort'')
        else if readyUID \<noteq> '''' \<and> readyUID \<noteq> om_UID (pd_Meta pod)
        then Inl (Errorf ''requires exactly one unambiguous active Pod endpoint'')
        else (case rd_GetNode R ('''', pd_NodeName pod) of
                Inl e \<Rightarrow> Inl (endpointGetError e)
              | Inr node \<Rightarrow>
                  (if om_UID (nd_Meta node) = '''' \<or> \<not> has_prefix (instanceID node) ''ocid1.instance.''
                   then Inl (Errorf ''active Pod node lacks verified OCI identity'')
                   else Inr (om_UID (pd_Meta pod), podReady pod \<and> \<not> om_Deleting (pd_Meta pod) \<and>
                             nodeReady node \<and> \<not> om_Deleting (nd_Meta node))))))"

text \<open>The state of the loops: the UID seen, whether a ready endpoint was seen, the draining endpoints.\<close>

type_synonym cluster_scan = "string \<times> bool \<times> (endpoint \<times> int) list"

fun clusterEndpoints :: "(endpoint \<Rightarrow> string \<Rightarrow> go_error + (string \<times> bool)) \<Rightarrow> int \<Rightarrow> endpoint list \<Rightarrow> cluster_scan \<Rightarrow>
    go_error + cluster_scan" where
  "clusterEndpoints check target [] st = Inr st"
| "clusterEndpoints check target (ep # eps) (readyUID, ready, draining) =
     (if vbool (ep_Terminating ep) then
        clusterEndpoints check target eps
          (readyUID, ready, if ep_Serving ep = None \<or> vbool (ep_Serving ep) then draining @ [(ep, target)] else draining)
      else if ep_Ready ep = None then Inl (Errorf ''endpoint readiness is unknown'')
      else if \<not> vbool (ep_Ready ep) then clusterEndpoints check target eps (readyUID, ready, draining)
      else (case check ep readyUID of
              Inl e \<Rightarrow> Inl e
            | Inr (uid, now) \<Rightarrow> clusterEndpoints check target eps (uid, ready \<or> now, draining)))"

fun clusterSlices :: "kube_lib \<Rightarrow> reader \<Rightarrow> tunnel_binding \<Rightarrow> service \<Rightarrow> service_port \<Rightarrow> endpoint_slice list \<Rightarrow> cluster_scan \<Rightarrow>
    go_error + cluster_scan" where
  "clusterSlices L R b svc udp [] st = Inr st"
| "clusterSlices L R b svc udp (s # ss) st =
     (if \<not> sliceOwned svc s then Inl (Errorf ''Service has an EndpointSlice with unverified ownership'')
      else if es_AddressType s \<noteq> ''IPv4'' then clusterSlices L R b svc udp ss st
      else (case slicePort (es_Ports s) (sp_Name udp) ''UDP'' of
              Inl e \<Rightarrow> Inl e
            | Inr target \<Rightarrow>
                (if target = 0 then clusterSlices L R b svc udp ss st
                 else (case clusterEndpoints (clusterActive L R b svc udp target) target (es_Endpoints s) st of
                         Inl e \<Rightarrow> Inl e
                       | Inr st' \<Rightarrow> clusterSlices L R b svc udp ss st'))))"

fun clusterDraining :: "kube_lib \<Rightarrow> reader \<Rightarrow> tunnel_binding \<Rightarrow> service \<Rightarrow> service_port \<Rightarrow> (endpoint \<times> int) list \<Rightarrow> string \<Rightarrow>
    go_error option" where
  "clusterDraining L R b svc udp [] drainingUID = None"
| "clusterDraining L R b svc udp ((ep, port) # rest) drainingUID =
     (case readEndpointPod L R b svc ep of Inl e \<Rightarrow> Some e | Inr pod \<Rightarrow>
       (if pd_HostNetwork pod then Some (Errorf ''hostNetwork draining endpoint unsafe'')
        else if podTargetPort udp pod \<noteq> Inr port
        then Some (Errorf ''draining UDP endpoint does not match Service targetPort'')
        else if drainingUID \<noteq> '''' \<and> drainingUID \<noteq> om_UID (pd_Meta pod)
        then Some (Errorf ''ambiguous serving terminating endpoints'')
        else clusterDraining L R b svc udp rest (om_UID (pd_Meta pod))))"

definition workerBackends :: "(string, worker_identity) gomap \<Rightarrow> int \<Rightarrow> backend list" where
  "workerBackends workers port =
     map (\<lambda>name. let worker = get_or zero_worker workers name
                 in \<lparr>bk_IP = wi_IP worker, bk_TargetID = wi_InstanceID worker, bk_Port = port\<rparr>)
       (sort (map_keys workers))"

definition resolveCluster :: "kube_lib \<Rightarrow> reader \<Rightarrow> tunnel_binding \<Rightarrow> allocation \<Rightarrow> (string, worker_identity) gomap \<Rightarrow>
    backend list \<times> go_error option" where
  "resolveCluster L R b a workers =
     (case readServiceFor R b a of Inl e \<Rightarrow> ([], Some e) | Inr svc \<Rightarrow>
     (case clusterServicePort b svc of Inl e \<Rightarrow> ([], Some e) | Inr udp \<Rightarrow>
       (if al_NodePort a = 0 \<or> al_NodePort a \<noteq> sp_NodePort udp
        then ([], Some (Errorf ''allocated UDP NodePort changed or unverified; restore the original Service NodePort or retire the Route before migration''))
        else
     (case listServiceSlices R b svc of Inl e \<Rightarrow> ([], Some e) | Inr slices \<Rightarrow>
     (case clusterSlices L R b svc udp slices ('''', False, []) of Inl e \<Rightarrow> ([], Some e) | Inr (_, ready, draining) \<Rightarrow>
     (case (if ready then None else clusterDraining L R b svc udp draining '''') of Some e \<Rightarrow> ([], Some e) | None \<Rightarrow>
       (if workerBackends workers (sp_NodePort udp) = [] then ([], Some (Errorf ''no verified worker destinations''))
        else (workerBackends workers (sp_NodePort udp), if ready then None else Some ClusterEndpointGap))))))))"

section \<open>The inventory as a specification\<close>

text \<open>
  Which identity a node contributes, without the loop's state: \<^const>\<open>None\<close> if it is skipped.
  \<open>internal_ips\<close> are the node's IPv4 internal addresses.
\<close>

definition internal_ips :: "node \<Rightarrow> string list" where
  "internal_ips node = map snd (filter (\<lambda>(t, a). t = ''InternalIP'' \<and> is_ipv4 a) (nd_Addresses node))"

definition worker_of :: "(string, worker_identity) gomap \<Rightarrow> node \<Rightarrow> (string \<times> worker_identity) option" where
  "worker_of pinned node =
     (if skipNode node \<or> internal_ips node = [] \<or>
         \<not> nodeReady node \<and> map_of pinned (om_Name (nd_Meta node)) \<noteq> Some (nodeIdentity node (hd (internal_ips node)))
      then None else Some (om_Name (nd_Meta node), nodeIdentity node (hd (internal_ips node))))"

definition inventory_ok :: "(string, worker_identity) gomap \<Rightarrow> node list \<Rightarrow> bool" where
  "inventory_ok pinned nodes \<longleftrightarrow>
     (\<forall>node \<in> set nodes. \<not> skipNode node \<longrightarrow> (\<forall>x \<in> set (internal_ips node). x = hd (internal_ips node))) \<and>
     distinct (map (wi_IP \<circ> snd) (List.map_filter (worker_of pinned) nodes)) \<and>
     distinct (map (wi_InstanceID \<circ> snd) (List.map_filter (worker_of pinned) nodes))"

lemma is_ipv4_nonempty: "is_ipv4 a \<Longrightarrow> a \<noteq> ''''"
proof -
  have "\<not> is_ipv4 ''''" by code_simp
  then show "is_ipv4 a \<Longrightarrow> a \<noteq> ''''" by metis
qed

lemma internalIPv4_acc:
  "ip \<noteq> '''' \<Longrightarrow> internalIPv4 addrs ip =
     (if \<forall>x \<in> set (map snd (filter (\<lambda>(t, a). t = ''InternalIP'' \<and> is_ipv4 a) addrs)). x = ip then Inr ip
      else Inl (Errorf ''worker has ambiguous internal IPv4 addresses''))"
  by (induction addrs ip rule: internalIPv4.induct) auto

lemma internalIPv4_start:
  "internalIPv4 addrs '''' =
     (let ips = map snd (filter (\<lambda>(t, a). t = ''InternalIP'' \<and> is_ipv4 a) addrs)
      in if ips = [] then Inr ''''
         else if \<forall>x \<in> set ips. x = hd ips then Inr (hd ips)
         else Inl (Errorf ''worker has ambiguous internal IPv4 addresses''))"
proof (induction addrs)
  case (Cons x addrs)
  obtain t a where x: "x = (t, a)" by fastforce
  show ?case
  proof (cases "t = ''InternalIP'' \<and> is_ipv4 a")
    case True
    then have "a \<noteq> ''''" using is_ipv4_nonempty by blast
    with True x show ?thesis by (simp add: internalIPv4_acc Let_def)
  next
    case False
    with x Cons show ?thesis by auto
  qed
qed simp

lemma nodeIdentity_not_zero: "\<not> skipNode node \<Longrightarrow> nodeIdentity node ip \<noteq> zero_worker"
  by (simp add: nodeIdentity_def zero_worker_def skipNode_def)

lemma get_or_pinned:
  "\<not> skipNode node \<Longrightarrow> get_or zero_worker pinned k = nodeIdentity node ip \<longleftrightarrow> map_of pinned k = Some (nodeIdentity node ip)"
  using nodeIdentity_not_zero [of node ip] by (cases "map_of pinned k") (auto simp: get_or_def)

lemma workerLoop_step:
  "workerLoop pinned (node # nodes) result ips instances =
     (if skipNode node then workerLoop pinned nodes result ips instances
      else if \<exists>x \<in> set (internal_ips node). x \<noteq> hd (internal_ips node)
      then Inl (Errorf ''worker has ambiguous internal IPv4 addresses'')
      else (case worker_of pinned node of
              None \<Rightarrow> workerLoop pinned nodes result ips instances
            | Some (name, w) \<Rightarrow>
                (if wi_IP w \<in> set ips \<or> wi_InstanceID w \<in> set instances
                 then Inl (Errorf ''workers have duplicate IP or instance identity'')
                 else workerLoop pinned nodes (AList.update name w result) (wi_IP w # ips) (wi_InstanceID w # instances))))"
proof -
  have ips: "internalIPv4 (nd_Addresses node) '''' =
      (if internal_ips node = [] then Inr ''''
       else if \<forall>x \<in> set (internal_ips node). x = hd (internal_ips node) then Inr (hd (internal_ips node))
       else Inl (Errorf ''worker has ambiguous internal IPv4 addresses''))"
    unfolding internalIPv4_start internal_ips_def Let_def ..
  have ne: "hd (internal_ips node) \<noteq> ''''" if "internal_ips node \<noteq> []"
  proof -
    have "hd (internal_ips node) \<in> set (internal_ips node)" using that by simp
    then have "is_ipv4 (hd (internal_ips node))" by (auto simp: internal_ips_def)
    then show ?thesis by (rule is_ipv4_nonempty)
  qed
  have id: "wi_IP (nodeIdentity node ip) = ip" "wi_InstanceID (nodeIdentity node ip) = instanceID node" for ip
    by (simp_all add: nodeIdentity_def)
  show ?thesis
    using ne by (auto simp: ips id worker_of_def get_or_pinned)
qed

declare workerLoop.simps(2) [simp del]

lemma workerLoop_iff:
  "workerLoop pinned nodes result ips instances = Inr m \<longleftrightarrow>
     (\<forall>node \<in> set nodes. \<not> skipNode node \<longrightarrow> (\<forall>x \<in> set (internal_ips node). x = hd (internal_ips node))) \<and>
     distinct (map (wi_IP \<circ> snd) (List.map_filter (worker_of pinned) nodes)) \<and>
     distinct (map (wi_InstanceID \<circ> snd) (List.map_filter (worker_of pinned) nodes)) \<and>
     set ips \<inter> set (map (wi_IP \<circ> snd) (List.map_filter (worker_of pinned) nodes)) = {} \<and>
     set instances \<inter> set (map (wi_InstanceID \<circ> snd) (List.map_filter (worker_of pinned) nodes)) = {} \<and>
     m = fold (\<lambda>(k, v). AList.update k v) (List.map_filter (worker_of pinned) nodes) result"
proof (induction nodes arbitrary: result ips instances)
  case Nil
  then show ?case by (auto simp: List.map_filter_def)
next
  case (Cons node nodes)
  consider "skipNode node" | "\<not> skipNode node" "\<exists>x \<in> set (internal_ips node). x \<noteq> hd (internal_ips node)"
    | "\<not> skipNode node" "\<forall>x \<in> set (internal_ips node). x = hd (internal_ips node)" "worker_of pinned node = None"
    | name w where "\<not> skipNode node" "\<forall>x \<in> set (internal_ips node). x = hd (internal_ips node)" "worker_of pinned node = Some (name, w)"
    by (metis option.exhaust prod.exhaust)
  then show ?case
  proof cases
    case 1
    then have "worker_of pinned node = None" by (simp add: worker_of_def)
    with 1 show ?thesis by (simp add: workerLoop_step Cons List.map_filter_simps)
  next
    case 2 then show ?thesis by (auto simp: workerLoop_step)
  next
    case 3 then show ?thesis by (simp add: workerLoop_step Cons List.map_filter_simps)
  next
    case 4 then show ?thesis by (auto simp: workerLoop_step Cons List.map_filter_simps)
  qed
qed

lemma workerLoop_error:
  "workerLoop pinned nodes result ips instances = Inl e \<Longrightarrow> \<exists>msg. e = Errorf msg"
  by (induction nodes arbitrary: result ips instances) (auto simp: workerLoop_step split: if_splits option.splits)

lemma fold_update_distinct:
  assumes "distinct (map fst ws @ map fst m)"
  shows "fold (\<lambda>(k, v). AList.update k v) ws m = m @ ws"
  using assms
proof (induction ws arbitrary: m)
  case (Cons w ws)
  obtain k v where w: "w = (k, v)" by fastforce
  have "map_of m k = None" using Cons.prems w by (auto simp: map_of_eq_None_iff)
  then have up: "AList.update k v m = m @ [(k, v)]" by (rule AList_update_fresh)
  have "distinct (map fst ws @ map fst (m @ [(k, v)]))" using Cons.prems w by auto
  from Cons.IH [OF this] show ?case by (simp add: w up)
qed simp

lemma worker_of_name: "worker_of pinned node = Some (name, w) \<Longrightarrow> name = om_Name (nd_Meta node)"
  by (auto simp: worker_of_def split: if_splits)

lemma worker_names_distinct:
  assumes "distinct (map (om_Name \<circ> nd_Meta) nodes)"
  shows "distinct (map fst (List.map_filter (worker_of pinned) nodes))"
  using assms
proof (induction nodes)
  case (Cons node nodes)
  have "om_Name (nd_Meta node) \<notin> set (map fst (List.map_filter (worker_of pinned) nodes))"
    using Cons.prems by (force simp: List.map_filter_def dest: worker_of_name)
  then show ?case
  proof (cases "worker_of pinned node")
    case (Some x)
    then have "fst x = om_Name (nd_Meta node)" using worker_of_name [of pinned node "fst x" "snd x"] by simp
    with Cons Some \<open>om_Name (nd_Meta node) \<notin> _\<close> show ?thesis by (simp add: List.map_filter_simps)
  qed (use Cons in \<open>simp add: List.map_filter_simps\<close>)
qed (simp add: List.map_filter_def)

text \<open>The inventory without the loop.\<close>

lemma clusterWorkers_reference:
  fixes p R nodes
  assumes "rd_ListNodes R = Inr nodes" "distinct (map (om_Name \<circ> nd_Meta) nodes)"
  defines "ws \<equiv> List.map_filter (worker_of (st_Workers (np_Status p))) nodes"
  shows "inventory_ok (st_Workers (np_Status p)) nodes \<Longrightarrow>
      fst (clusterWorkers R p) = ws \<and> (snd (clusterWorkers R p) = None \<longleftrightarrow> int (length ws) \<le> workerLimit (np_Spec p))"
    "\<not> inventory_ok (st_Workers (np_Status p)) nodes \<Longrightarrow> \<exists>msg. clusterWorkers R p = ([], Some (Errorf msg))"
proof -
  let ?pin = "st_Workers (np_Status p)"
  have fold: "fold (\<lambda>(k, v). AList.update k v) ws [] = ws"
    using fold_update_distinct [of ws "[]"] worker_names_distinct [OF assms(2)] by (simp add: ws_def)
  { assume "inventory_ok ?pin nodes"
    then have "workerLoop ?pin nodes [] [] [] = Inr ws"
      unfolding workerLoop_iff by (simp add: inventory_ok_def fold [unfolded ws_def] ws_def)
    then show "fst (clusterWorkers R p) = ws \<and> (snd (clusterWorkers R p) = None \<longleftrightarrow> int (length ws) \<le> workerLimit (np_Spec p))"
      by (simp add: clusterWorkers_def assms(1)) }
  { assume bad: "\<not> inventory_ok ?pin nodes"
    have "workerLoop ?pin nodes [] [] [] \<noteq> Inr m" for m
      using bad unfolding workerLoop_iff inventory_ok_def by blast
    then obtain e where e: "workerLoop ?pin nodes [] [] [] = Inl e" by (metis sum.exhaust)
    with workerLoop_error [OF e] show "\<exists>msg. clusterWorkers R p = ([], Some (Errorf msg))"
      by (auto simp: clusterWorkers_def assms(1)) }
qed

section \<open>The resolution to workers\<close>

lemma workerBackends_map_of:
  assumes "wf_map workers"
  shows "workerBackends workers port =
    map (\<lambda>name. let worker = the (map_of workers name)
                in \<lparr>bk_IP = wi_IP worker, bk_TargetID = wi_InstanceID worker, bk_Port = port\<rparr>)
      (sorted_list_of_set (dom (map_of workers)))"
proof -
  have "sort (map_keys workers) = sorted_list_of_set (dom (map_of workers))"
    using assms sorted_list_of_set_sort_remdups [of "map fst workers"]
    by (simp add: map_keys_def wf_map_def dom_map_of_conv_image_fst distinct_remdups_id)
  then show ?thesis
    unfolding workerBackends_def
    by (simp add: get_or_def Let_def map_keys_def dom_map_of_conv_image_fst finite_dom_map_of)
       (auto simp: value_or_def map_of_eq_None_iff split: option.split)
qed

lemma workerBackends_cong:
  "wf_map m \<Longrightarrow> wf_map m' \<Longrightarrow> map_of m = map_of m' \<Longrightarrow> workerBackends m port = workerBackends m' port"
  by (simp add: workerBackends_map_of)

lemma resolveCluster_cong:
  assumes "wf_map m" "wf_map m'" "map_of m = map_of m'"
  shows "resolveCluster L R b a m = resolveCluster L R b a m'"
  unfolding resolveCluster_def workerBackends_cong [OF assms] ..

lemma length_workerBackends: "length (workerBackends m port) = length m"
  by (simp add: workerBackends_def map_keys_def)

lemma workerBackends_set:
  assumes "wf_map m"
  shows "set (workerBackends m port) =
    (\<lambda>w. \<lparr>bk_IP = wi_IP w, bk_TargetID = wi_InstanceID w, bk_Port = port\<rparr>) ` set (map_values m)"
proof -
  have "finite (dom (map_of m))" by (rule finite_dom_map_of)
  then show ?thesis
    unfolding workerBackends_map_of [OF assms]
    by (force simp: map_values_iff [OF assms] Let_def image_iff)
qed

lemma workerBackends_distinct:
  assumes "wf_map m" "distinct (map (wi_IP \<circ> snd) m)"
  shows "distinct (map (\<lambda>b. (bk_IP b, bk_Port b)) (workerBackends m port))"
proof -
  let ?key = "\<lambda>b. (bk_IP b, bk_Port b)"
  have "set (map ?key (workerBackends m port)) = (\<lambda>w. (wi_IP w, port)) ` set (map_values m)"
    using workerBackends_set [OF assms(1), of port] by force
  also have "\<dots> = (\<lambda>x. (x, port)) ` set (map (wi_IP \<circ> snd) m)" by (force simp: map_values_def)
  finally have "card (set (map ?key (workerBackends m port))) = length m"
    using distinct_card [OF assms(2)] by (simp add: card_image inj_on_def)
  then show ?thesis by (intro card_distinct) (simp add: length_workerBackends)
qed

lemma clusterActive_uid:
  "clusterActive L R b svc udp target ep u = Inr (v, now) \<longleftrightarrow>
     clusterActive L R b svc udp target ep '''' = Inr (v, now) \<and> (u = '''' \<or> u = v)"
  by (auto simp: clusterActive_def split: sum.splits)

lemma clusterActive_Inr:
  assumes "clusterActive L R b svc udp target ep u = Inr (v, now)"
  obtains pod node where "readEndpointPod L R b svc ep = Inr pod" "\<not> pd_HostNetwork pod" "podTargetPort udp pod = Inr target"
    "rd_GetNode R ('''', pd_NodeName pod) = Inr node" "v = om_UID (pd_Meta pod)"
    "now \<longleftrightarrow> podReady pod \<and> \<not> om_Deleting (pd_Meta pod) \<and> nodeReady node \<and> \<not> om_Deleting (nd_Meta node)"
    "has_prefix (instanceID node) ''ocid1.instance.''"
  using assms by (auto simp: clusterActive_def split: sum.splits if_splits)

lemma clusterActive_nonempty: "clusterActive L R b svc udp target ep u = Inr (v, now) \<Longrightarrow> v \<noteq> ''''"
proof -
  assume "clusterActive L R b svc udp target ep u = Inr (v, now)"
  then obtain pod where p: "readEndpointPod L R b svc ep = Inr pod" "v = om_UID (pd_Meta pod)" by (rule clusterActive_Inr)
  from readEndpointPod_Inr(1,4) [OF p(1)] p(2) show "v \<noteq> ''''"
    by (auto simp: refersToPod_def refUID_def split: option.splits)
qed

text \<open>The endpoints of one slice: all active ones belong to the Pod with the final UID.\<close>

lemma clusterEndpoints_Inr:
  assumes uid: "\<And>ep u v now. check ep u = Inr (v, now) \<Longrightarrow> check ep '''' = Inr (v, now) \<and> (u = '''' \<or> u = v) \<and> v \<noteq> ''''"
    and run: "clusterEndpoints check target eps (u, r, d) = Inr (u', r', d')"
  shows "(u = '''' \<or> u = u') \<and> (\<forall>ep \<in> set (filter active eps). \<exists>now. check ep '''' = Inr (u', now)) \<and>
    (r' \<longleftrightarrow> r \<or> (\<exists>ep \<in> set (filter active eps). check ep '''' = Inr (u', True)))"
  using run
proof (induction eps arbitrary: u r d)
  case (Cons ep eps)
  show ?case
  proof (cases "active ep")
    case False
    with Cons.prems show ?thesis using Cons.IH by (auto simp: active_def split: if_splits)
  next
    case True
    then have "\<not> vbool (ep_Terminating ep)" "ep_Ready ep \<noteq> None" "vbool (ep_Ready ep)" by (auto simp: active_def vbool_cases)
    with Cons.prems obtain v now where c: "check ep u = Inr (v, now)" and rest: "clusterEndpoints check target eps (v, r \<or> now, d) = Inr (u', r', d')"
      by (auto split: sum.splits)
    note v = uid [OF c]
    note IH = Cons.IH [OF rest]
    have "v = u'" using IH v by simp
    with IH v True show ?thesis by auto
  qed
qed auto

lemma clusterSlices_Inr:
  assumes "clusterSlices L R b svc udp ss (u, r, d) = Inr (u', r', d')"
  shows "list_all (sliceOwned svc) ss \<and> (u = '''' \<or> u = u') \<and>
    (\<forall>(s, n, ep) \<in> set (ready_candidates (sp_Name udp) ss). \<exists>now. clusterActive L R b svc udp n ep '''' = Inr (u', now)) \<and>
    (r' \<longleftrightarrow> r \<or> (\<exists>(s, n, ep) \<in> set (ready_candidates (sp_Name udp) ss). clusterActive L R b svc udp n ep '''' = Inr (u', True)))"
  using assms
proof (induction ss arbitrary: u r d)
  case (Cons s ss)
  have rc: "ready_candidates (sp_Name udp) (s # ss) = ready_candidates (sp_Name udp) [s] @ ready_candidates (sp_Name udp) ss"
    by (simp add: ready_candidates_def)
  consider "sliceOwned svc s" "ready_candidates (sp_Name udp) [s] = []" "clusterSlices L R b svc udp ss (u, r, d) = Inr (u', r', d')"
    | n v q e where "sliceOwned svc s" "ready_candidates (sp_Name udp) [s] = map (\<lambda>ep. (s, n, ep)) (filter active (es_Endpoints s))"
      "clusterEndpoints (clusterActive L R b svc udp n) n (es_Endpoints s) (u, r, d) = Inr (v, q, e)"
      "clusterSlices L R b svc udp ss (v, q, e) = Inr (u', r', d')"
  proof -
    have own: "sliceOwned svc s" using Cons.prems by (auto split: if_splits)
    show thesis
    proof (cases "es_AddressType s = ''IPv4'' \<and> slicePort (es_Ports s) (sp_Name udp) ''UDP'' \<noteq> Inr 0")
      case False
      then show thesis using that(1) own Cons.prems by (auto simp: ready_candidates_def split: if_splits)
    next
      case True
      then obtain n where n: "slicePort (es_Ports s) (sp_Name udp) ''UDP'' = Inr n" "n \<noteq> 0"
        using Cons.prems own by (auto split: sum.splits)
      obtain v q e where "clusterEndpoints (clusterActive L R b svc udp n) n (es_Endpoints s) (u, r, d) = Inr (v, q, e)"
        "clusterSlices L R b svc udp ss (v, q, e) = Inr (u', r', d')"
        using Cons.prems own True n by (auto split: sum.splits)
      with True n own show thesis by (intro that(2) [of n v q e]) (simp_all add: ready_candidates_def)
    qed
  qed
  then show ?case
  proof cases
    case 1
    with Cons.IH [OF 1(3)] show ?thesis by (simp add: rc)
  next
    case 2
    have here: "(u = '''' \<or> u = v) \<and> (\<forall>ep \<in> set (filter active (es_Endpoints s)). \<exists>now. clusterActive L R b svc udp n ep '''' = Inr (v, now)) \<and>
        (q \<longleftrightarrow> r \<or> (\<exists>ep \<in> set (filter active (es_Endpoints s)). clusterActive L R b svc udp n ep '''' = Inr (v, True)))"
    proof (rule clusterEndpoints_Inr [OF _ 2(3)])
      fix ep u v now assume c: "clusterActive L R b svc udp n ep u = Inr (v, now)"
      show "clusterActive L R b svc udp n ep '''' = Inr (v, now) \<and> (u = '''' \<or> u = v) \<and> v \<noteq> ''''"
        using iffD1 [OF clusterActive_uid c] clusterActive_nonempty [OF c] by blast
    qed
    note rest = Cons.IH [OF 2(4)]
    have "filter active (es_Endpoints s) = [] \<or> v = u'"
    proof (cases "filter active (es_Endpoints s)")
      case (Cons ep eps)
      then obtain now where "clusterActive L R b svc udp n ep '''' = Inr (v, now)" using here by auto
      from clusterActive_nonempty [OF this] rest show ?thesis by simp
    qed simp
    then show ?thesis
    proof
      assume none: "filter active (es_Endpoints s) = []"
      have "q \<longleftrightarrow> r" using here by (simp add: none)
      then show ?thesis using here rest 2(1,2) unfolding rc none by auto
    next
      assume "v = u'"
      then show ?thesis using here rest 2(1) unfolding rc 2(2)
        by (simp only: set_append set_map list.pred_inject ball_Un bex_Un) auto
    qed
  qed
qed (simp add: ready_candidates_Nil)

text \<open>The serving terminating endpoints of the slices with the port, each with its slice and the slice's UDP port.\<close>

definition drain_candidates :: "string \<Rightarrow> endpoint_slice list \<Rightarrow> (endpoint_slice \<times> int \<times> endpoint) list" where
  "drain_candidates portName slices =
     concat (map (\<lambda>s.
       if es_AddressType s = ''IPv4'' then
         (case slicePort (es_Ports s) portName ''UDP'' of
            Inl _ \<Rightarrow> []
          | Inr n \<Rightarrow> (if n = 0 then [] else map (\<lambda>ep. (s, n, ep)) (filter drains (es_Endpoints s))))
       else []) slices)"

lemma clusterEndpoints_draining:
  "clusterEndpoints check target eps (u, r, d) = Inr (u', r', d') \<Longrightarrow> d' = d @ map (\<lambda>ep. (ep, target)) (filter drains eps)"
proof (induction eps arbitrary: u r d)
  case (Cons ep eps)
  from Cons.prems show ?case by (auto simp: drains_def dest!: Cons.IH split: if_splits sum.splits)
qed simp

lemma clusterSlices_draining:
  "clusterSlices L R b svc udp ss (u, r, d) = Inr (u', r', d') \<Longrightarrow> d' = d @ map (\<lambda>(s, n, ep). (ep, n)) (drain_candidates (sp_Name udp) ss)"
proof (induction ss arbitrary: u r d)
  case (Cons s ss)
  have dc: "drain_candidates (sp_Name udp) (s # ss) = drain_candidates (sp_Name udp) [s] @ drain_candidates (sp_Name udp) ss"
    by (simp add: drain_candidates_def)
  have own: "sliceOwned svc s" using Cons.prems by (auto split: if_splits)
  show ?case
  proof (cases "es_AddressType s = ''IPv4'' \<and> slicePort (es_Ports s) (sp_Name udp) ''UDP'' \<noteq> Inr 0")
    case False
    then have "drain_candidates (sp_Name udp) [s] = []" "clusterSlices L R b svc udp ss (u, r, d) = Inr (u', r', d')"
      using own Cons.prems by (auto simp: drain_candidates_def split: if_splits)
    with Cons.IH show ?thesis by (simp add: dc)
  next
    case True
    then obtain n where n: "slicePort (es_Ports s) (sp_Name udp) ''UDP'' = Inr n" "n \<noteq> 0"
      using Cons.prems own by (auto split: sum.splits)
    obtain v q e where run: "clusterEndpoints (clusterActive L R b svc udp n) n (es_Endpoints s) (u, r, d) = Inr (v, q, e)"
      "clusterSlices L R b svc udp ss (v, q, e) = Inr (u', r', d')"
      using Cons.prems own True n by (auto split: sum.splits)
    have "drain_candidates (sp_Name udp) [s] = map (\<lambda>ep. (s, n, ep)) (filter drains (es_Endpoints s))" using True n by (simp add: drain_candidates_def)
    with Cons.IH [OF run(2)] clusterEndpoints_draining [OF run(1)] show ?thesis by (simp add: dc comp_def)
  qed
qed (simp add: drain_candidates_def)

text \<open>A Pod that an endpoint leads to under this port, whatever its readiness.\<close>

definition routed_pod :: "kube_lib \<Rightarrow> reader \<Rightarrow> tunnel_binding \<Rightarrow> service \<Rightarrow> service_port \<Rightarrow> int \<Rightarrow> endpoint \<Rightarrow> string \<Rightarrow> pod \<Rightarrow> bool" where
  "routed_pod L R b svc udp n ep uid pod \<longleftrightarrow>
     readEndpointPod L R b svc ep = Inr pod \<and> om_UID (pd_Meta pod) = uid \<and> \<not> pd_HostNetwork pod \<and> podTargetPort udp pod = Inr n"

lemma clusterDraining_None:
  assumes "clusterDraining L R b svc udp ds u = None"
  shows "\<exists>v. (u = '''' \<or> ds = [] \<or> u = v) \<and> (\<forall>(ep, n) \<in> set ds. \<exists>pod. routed_pod L R b svc udp n ep v pod)"
  using assms
proof (induction ds arbitrary: u)
  case (Cons x ds)
  obtain ep n where x: "x = (ep, n)" by fastforce
  with Cons.prems obtain pod where pod: "routed_pod L R b svc udp n ep (om_UID (pd_Meta pod)) pod" "u = '''' \<or> u = om_UID (pd_Meta pod)"
    and rest: "clusterDraining L R b svc udp ds (om_UID (pd_Meta pod)) = None"
    by (auto simp: routed_pod_def split: sum.splits if_splits)
  have "readEndpointPod L R b svc ep = Inr pod" using pod(1) by (simp add: routed_pod_def)
  from readEndpointPod_Inr(1,4) [OF this] have ne: "om_UID (pd_Meta pod) \<noteq> ''''"
    by (auto simp: refersToPod_def refUID_def split: option.splits)
  from Cons.IH [OF rest] ne have "\<forall>(ep, n) \<in> set ds. \<exists>q. routed_pod L R b svc udp n ep (om_UID (pd_Meta pod)) q" by (cases ds) auto
  with pod x show ?case by (intro exI [of _ "om_UID (pd_Meta pod)"]) auto
qed simp

lemma clusterActive_no_gap: "clusterActive L R b svc udp n ep u = Inl e \<Longrightarrow> no_gap e"
  by (auto simp: clusterActive_def split: sum.splits if_splits dest: readEndpointPod_no_gap)

lemma clusterEndpoints_no_gap: "clusterEndpoints (clusterActive L R b svc udp n) n eps (u, r, d) = Inl e \<Longrightarrow> no_gap e"
  by (induction eps arbitrary: u r d) (auto split: sum.splits if_splits dest: clusterActive_no_gap)

lemma clusterSlices_no_gap: "clusterSlices L R b svc udp ss (u, r, d) = Inl e \<Longrightarrow> no_gap e"
  by (induction ss arbitrary: u r d) (auto split: sum.splits if_splits dest: slicePort_no_gap clusterEndpoints_no_gap)

lemma clusterDraining_no_gap: "clusterDraining L R b svc udp ds u = Some e \<Longrightarrow> no_gap e"
  by (induction ds arbitrary: u) (auto split: sum.splits if_splits dest: readEndpointPod_no_gap)

lemma clusterDraining_verdict [simp]: "clusterDraining L R b svc udp ds u \<noteq> Some ClusterEndpointGap"
  using clusterDraining_no_gap [of L R b svc udp ds u ClusterEndpointGap] by auto

lemma clusterServicePort_no_gap: "clusterServicePort b svc = Inl e \<Longrightarrow> no_gap e"
  by (auto simp: clusterServicePort_def split: option.splits sum.splits if_splits
      dest: validateBindingService_no_gap soleUdpPort_no_gap)

lemmas cluster_no_gap = readServiceFor_no_gap clusterServicePort_no_gap listServiceSlices_no_gap clusterSlices_no_gap

lemma resolveCluster_success:
  assumes "resolveCluster L R b a workers = (bs, e)" "e = None \<or> e = Some ClusterEndpointGap \<or> bs \<noteq> []"
  obtains svc udp slices uid ready draining where "readServiceFor R b a = Inr svc" "clusterServicePort b svc = Inr udp"
    "al_NodePort a = sp_NodePort udp" "listServiceSlices R b svc = Inr slices"
    "clusterSlices L R b svc udp slices ('''', False, []) = Inr (uid, ready, draining)"
    "bs = workerBackends workers (sp_NodePort udp)" "bs \<noteq> []" "e = (if ready then None else Some ClusterEndpointGap)"
    "\<not> ready \<longrightarrow> clusterDraining L R b svc udp draining '''' = None"
  using assms
  by (auto simp: resolveCluster_def split: sum.splits option.splits if_splits dest: cluster_no_gap)

lemma clusterServicePort_Inr:
  assumes "clusterServicePort b svc = Inr udp"
  shows "validateBindingService b svc False = None" "1 \<le> sp_NodePort udp" "sp_NodePort udp \<le> 65535"
    "filter (\<lambda>q. sp_Name q = bs_PortName (tb_Spec b) \<and> sp_Protocol q = ''UDP'') (sv_Ports svc) = [udp]"
  using assms soleUdpPort_Some [of "sv_Ports svc" "bs_PortName (tb_Spec b)" udp]
  by (auto simp: clusterServicePort_def split: option.splits sum.splits if_splits)

section \<open>Concrete workers\<close>

definition demo_worker :: "string \<Rightarrow> string \<Rightarrow> bool \<Rightarrow> node" where
  "demo_worker name ip ready = \<lparr>nd_Meta = meta_named '''' name name, nd_ProviderID = ''oci://ocid1.instance.'' @ name,
     nd_Conditions = [(''Ready'', if ready then ''True'' else ''False'')], nd_Addresses = [(''InternalIP'', ip)]\<rparr>"

definition demo_nodes :: "node list" where
  "demo_nodes = [demo_worker ''w2'' ''10.1.0.9'' True, demo_worker ''w1'' ''10.0.0.5'' False]"

definition demo_pinned_pool :: nlb_pool where
  "demo_pinned_pool = demo_cloud_pool\<lparr>np_Status := (np_Status demo_cloud_pool)
     \<lparr>st_Workers := [(''w1'', \<lparr>wi_UID = ''w1'', wi_InstanceID = ''ocid1.instance.w1'', wi_IP = ''10.0.0.5''\<rparr>)]\<rparr>\<rparr>"

definition nodes_reader :: "node list \<Rightarrow> reader" where
  "nodes_reader nodes = (demo_reader demo_service True)\<lparr>rd_ListNodes := Inr nodes\<rparr>"

lemma demo_worker_of:
  "worker_of (st_Workers (np_Status demo_pinned_pool)) (demo_worker ''w2'' ''10.1.0.9'' True) =
     Some (''w2'', \<lparr>wi_UID = ''w2'', wi_InstanceID = ''ocid1.instance.w2'', wi_IP = ''10.1.0.9''\<rparr>)"
  "worker_of (st_Workers (np_Status demo_pinned_pool)) (demo_worker ''w1'' ''10.0.0.5'' False) =
     Some (''w1'', \<lparr>wi_UID = ''w1'', wi_InstanceID = ''ocid1.instance.w1'', wi_IP = ''10.0.0.5''\<rparr>)"
  by (simp_all add: worker_of_def demo_worker_def demo_pinned_pool_def skipNode_def internal_ips_def demo_ipv4 nodeReady_def
      hasCondition_def nodeIdentity_def instanceID_def trim_prefix_def has_prefix_def has_key_def meta_named_def)

lemma demo_inventory: "inventory_ok (st_Workers (np_Status demo_pinned_pool)) demo_nodes"
  using demo_worker_of
  by (simp add: inventory_ok_def demo_nodes_def List.map_filter_def)
     (simp add: internal_ips_def demo_worker_def demo_ipv4)

lemma demo_node_names: "distinct (map (om_Name \<circ> nd_Meta) demo_nodes)"
  by (simp add: demo_nodes_def demo_worker_def meta_named_def)

section \<open>Properties\<close>

text \<open>
  C31. The worker inventory is exact.  Whatever order the nodes are listed in, \<^verbatim>\<open>clusterWorkers\<close> returns
  precisely the identities of the nodes that are not being deleted, not excluded, not control plane, with
  an OCI instance identity and an IPv4 internal address, and either ready or already pinned with exactly
  this identity (so a pinned worker is not dropped for being NotReady, and a NotReady stranger is not
  admitted); all addresses and all instances are distinct; the error is \<^verbatim>\<open>nil\<close> exactly when there are at
  most \<^verbatim>\<open>workerLimit\<close> of them.  If two of them share an address or instance, or one has two addresses,
  there is no inventory at all.
\<close>

theorem clusterWorkers_exact:
  assumes nodes: "rd_ListNodes R = Inr nodes" and names: "distinct (map (om_Name \<circ> nd_Meta) nodes)"
    and m: "clusterWorkers R p = (m, e)"
  shows "if inventory_ok (st_Workers (np_Status p)) nodes
    then wf_map m \<and> distinct (map (wi_IP \<circ> snd) m) \<and> distinct (map (wi_InstanceID \<circ> snd) m) \<and>
      (\<forall>name w. map_of m name = Some w \<longleftrightarrow> (\<exists>node \<in> set nodes. worker_of (st_Workers (np_Status p)) node = Some (name, w))) \<and>
      (e = None \<longleftrightarrow> int (length m) \<le> workerLimit (np_Spec p))
    else m = [] \<and> e \<noteq> None \<and> e \<noteq> Some ClusterEndpointGap"
proof (cases "inventory_ok (st_Workers (np_Status p)) nodes")
  case True
  let ?ws = "List.map_filter (worker_of (st_Workers (np_Status p))) nodes"
  have r: "m = ?ws" "e = None \<longleftrightarrow> int (length ?ws) \<le> workerLimit (np_Spec p)"
    using clusterWorkers_reference(1) [OF nodes names True] m by simp_all
  have wf: "wf_map ?ws" using worker_names_distinct [OF names] by (simp add: wf_map_def)
  have mem: "(name, w) \<in> set ?ws \<longleftrightarrow> (\<exists>node \<in> set nodes. worker_of (st_Workers (np_Status p)) node = Some (name, w))" for name w
    by (force simp: List.map_filter_def)
  show ?thesis using True r wf mem wf_map_map_of [OF wf] by (simp add: inventory_ok_def)
next
  case False
  with clusterWorkers_reference(2) [OF nodes names False] m show ?thesis by auto
qed

theorem clusterWorkers_exact_witness:
  "\<exists>m e. clusterWorkers (nodes_reader demo_nodes) demo_pinned_pool = (m, e) \<and> e = None \<and>
     map_of m ''w1'' = Some \<lparr>wi_UID = ''w1'', wi_InstanceID = ''ocid1.instance.w1'', wi_IP = ''10.0.0.5''\<rparr>"
proof -
  obtain m e where m: "clusterWorkers (nodes_reader demo_nodes) demo_pinned_pool = (m, e)" by fastforce
  have nodes: "rd_ListNodes (nodes_reader demo_nodes) = Inr demo_nodes" by (simp add: nodes_reader_def)
  note ex = clusterWorkers_exact [OF nodes demo_node_names m]
  have "map_of m ''w1'' = Some \<lparr>wi_UID = ''w1'', wi_InstanceID = ''ocid1.instance.w1'', wi_IP = ''10.0.0.5''\<rparr>"
    using ex demo_inventory demo_worker_of(2) by (auto simp: demo_nodes_def)
  moreover have "length m \<le> 2" using clusterWorkers_reference(1) [OF nodes demo_node_names demo_inventory] m
    by (simp add: demo_nodes_def List.map_filter_def)
  moreover have "workerLimit (np_Spec demo_pinned_pool) = 20"
    by (simp add: demo_pinned_pool_def workerLimit_def demo_spec_def)
  ultimately show ?thesis using ex demo_inventory m by auto
qed

text \<open>
  C34. Go's unspecified map iteration order does not reach the cloud: if the nodes come in another order,
  the backends that \<^verbatim>\<open>resolveCluster\<close> computes from the inventory, and its error, are the same, list order
  included, so reordering alone never looks like drift.
\<close>

theorem cluster_order_irrelevant:
  assumes names: "distinct (map (om_Name \<circ> nd_Meta) nodes)" and perm: "mset nodes' = mset nodes"
    and nodes: "rd_ListNodes R = Inr nodes" "rd_ListNodes R' = Inr nodes'"
  shows "(snd (clusterWorkers R p) = None \<longleftrightarrow> snd (clusterWorkers R' p) = None) \<and>
    resolveCluster L Q b a (fst (clusterWorkers R p)) = resolveCluster L Q b a (fst (clusterWorkers R' p))"
proof -
  let ?pin = "st_Workers (np_Status p)"
  have ms: "mset (map f (List.map_filter (worker_of ?pin) nodes')) = mset (map f (List.map_filter (worker_of ?pin) nodes))" for f :: "_ \<Rightarrow> 'x"
    using perm by (simp add: List.map_filter_def)
  have names': "distinct (map (om_Name \<circ> nd_Meta) nodes')"
    using names perm by (metis mset_map mset_eq_imp_distinct_iff)
  have inv: "inventory_ok ?pin nodes' \<longleftrightarrow> inventory_ok ?pin nodes"
    unfolding inventory_ok_def using perm
    by (simp only: mset_eq_imp_distinct_iff [OF ms] mset_eq_setD [OF perm])
  note ref = clusterWorkers_reference [OF nodes(1) names, of p] and ref' = clusterWorkers_reference [OF nodes(2) names', of p]
  show ?thesis
  proof (cases "inventory_ok ?pin nodes")
    case True
    let ?ws = "List.map_filter (worker_of ?pin) nodes" and ?ws' = "List.map_filter (worker_of ?pin) nodes'"
    have d: "distinct (map fst ?ws)" "distinct (map fst ?ws')" by (rule worker_names_distinct, rule names names')+
    have ws: "mset ?ws' = mset ?ws" using ms [of "\<lambda>x. x"] by simp
    then have "length ?ws' = length ?ws" "set ?ws' = set ?ws" by (metis size_mset, metis set_mset_mset)
    moreover have "map_of ?ws = map_of ?ws'" using d \<open>set ?ws' = set ?ws\<close> by (simp add: map_of_inject_set)
    ultimately show ?thesis
      using ref(1) ref'(1) True inv d resolveCluster_cong [of ?ws ?ws' L Q b a] by (simp add: wf_map_def)
  next
    case False
    with ref(2) ref'(2) inv show ?thesis by auto
  qed
qed

theorem cluster_order_irrelevant_witness:
  "snd (clusterWorkers (nodes_reader demo_nodes) demo_pinned_pool) = None \<longleftrightarrow>
   snd (clusterWorkers (nodes_reader (rev demo_nodes)) demo_pinned_pool) = None"
  using cluster_order_irrelevant [OF demo_node_names, of "rev demo_nodes" "nodes_reader demo_nodes" "nodes_reader (rev demo_nodes)" demo_pinned_pool]
  by (simp add: nodes_reader_def)

text \<open>
  C32. Cluster resolution returns every pinned worker, once, under the leased node port, and only after
  verification.  If \<^verbatim>\<open>resolveCluster\<close> returns backends, they are exactly the pinned workers' addresses and
  instances with the node port recorded in the lease, which is the valid node port of the Service's only
  UDP port with the binding's port name; the Service is the leased one and valid for the binding's mode;
  its slices are all owned by it, and all active endpoints with that port lead to one Pod without host network
  that serves the slice's port as the port's target and runs on a node with an OCI identity.  The error is
  \<^verbatim>\<open>nil\<close> exactly if such a Pod and its node are ready and neither is being deleted; otherwise it is the gap, and then all serving terminating
  endpoints with that port were verified in the same way and lead to at most one Pod.  With any other error there are no backends.
\<close>

theorem resolveCluster_sound:
  assumes res: "resolveCluster L R b a workers = (bs, e)" and wf: "wf_map workers"
  shows "bs = [] \<and> e \<noteq> None \<and> e \<noteq> Some ClusterEndpointGap \<or>
    (e = None \<or> e = Some ClusterEndpointGap) \<and>
    set bs = (\<lambda>w. \<lparr>bk_IP = wi_IP w, bk_TargetID = wi_InstanceID w, bk_Port = al_NodePort a\<rparr>) ` set (map_values workers) \<and>
    length bs = length workers \<and> 1 \<le> al_NodePort a \<and> al_NodePort a \<le> 65535 \<and>
    (\<exists>svc udp slices uid. readServiceFor R b a = Inr svc \<and> validateBindingService b svc False = None \<and>
       filter (\<lambda>q. sp_Name q = bs_PortName (tb_Spec b) \<and> sp_Protocol q = ''UDP'') (sv_Ports svc) = [udp] \<and> sp_NodePort udp = al_NodePort a \<and>
       listServiceSlices R b svc = Inr slices \<and> list_all (sliceOwned svc) slices \<and>
       (\<forall>(s, n, ep) \<in> set (ready_candidates (sp_Name udp) slices). \<exists>pod node. routed_pod L R b svc udp n ep uid pod \<and>
          rd_GetNode R ('''', pd_NodeName pod) = Inr node \<and> has_prefix (instanceID node) ''ocid1.instance.'') \<and>
       (e = None \<longleftrightarrow> (\<exists>(s, n, ep) \<in> set (ready_candidates (sp_Name udp) slices). \<exists>pod node.
          readEndpointPod L R b svc ep = Inr pod \<and> podReady pod \<and> \<not> om_Deleting (pd_Meta pod) \<and>
          rd_GetNode R ('''', pd_NodeName pod) = Inr node \<and> nodeReady node \<and> \<not> om_Deleting (nd_Meta node))) \<and>
       (e \<noteq> None \<longrightarrow> (\<exists>gone. \<forall>(s, n, ep) \<in> set (drain_candidates (sp_Name udp) slices). \<exists>pod. routed_pod L R b svc udp n ep gone pod)))"
proof (cases "e = None \<or> e = Some ClusterEndpointGap \<or> bs \<noteq> []")
  case False
  then show ?thesis by simp
next
  case True
  from res True obtain svc udp slices uid ready draining where
    r: "readServiceFor R b a = Inr svc" "clusterServicePort b svc = Inr udp" "al_NodePort a = sp_NodePort udp"
      "listServiceSlices R b svc = Inr slices" "clusterSlices L R b svc udp slices ('''', False, []) = Inr (uid, ready, draining)"
      "bs = workerBackends workers (sp_NodePort udp)" "bs \<noteq> []" "e = (if ready then None else Some ClusterEndpointGap)"
      "\<not> ready \<longrightarrow> clusterDraining L R b svc udp draining '''' = None"
    by (rule resolveCluster_success)
  note sl = clusterSlices_Inr [OF r(5)] and port = clusterServicePort_Inr [OF r(2)]
  let ?live = "\<lambda>ep. \<exists>pod node. readEndpointPod L R b svc ep = Inr pod \<and> podReady pod \<and> \<not> om_Deleting (pd_Meta pod) \<and>
          rd_GetNode R ('''', pd_NodeName pod) = Inr node \<and> nodeReady node \<and> \<not> om_Deleting (nd_Meta node)"
  have each: "(\<exists>pod node. routed_pod L R b svc udp n ep uid pod \<and> rd_GetNode R ('''', pd_NodeName pod) = Inr node \<and>
      has_prefix (instanceID node) ''ocid1.instance.'') \<and> (clusterActive L R b svc udp n ep '''' = Inr (uid, True) \<longleftrightarrow> ?live ep)"
    if c: "(s, n, ep) \<in> set (ready_candidates (sp_Name udp) slices)" for s n ep
  proof -
    obtain now where now: "clusterActive L R b svc udp n ep '''' = Inr (uid, now)" using sl c by fastforce
    then show ?thesis by (rule clusterActive_Inr) (auto simp: routed_pod_def now)
  qed
  have "\<exists>gone. \<forall>(s, n, ep) \<in> set (drain_candidates (sp_Name udp) slices). \<exists>pod. routed_pod L R b svc udp n ep gone pod" if gap: "e \<noteq> None"
  proof -
    have "clusterDraining L R b svc udp (map (\<lambda>(s, n, ep). (ep, n)) (drain_candidates (sp_Name udp) slices)) '''' = None"
      using r(8,9) gap clusterSlices_draining [OF r(5)] by (auto split: if_splits)
    from clusterDraining_None [OF this] show ?thesis by fastforce
  qed
  moreover have "e = None \<longleftrightarrow> (\<exists>(s, n, ep) \<in> set (ready_candidates (sp_Name udp) slices). ?live ep)"
  proof -
    have "e = None \<longleftrightarrow> (\<exists>(s, n, ep) \<in> set (ready_candidates (sp_Name udp) slices). clusterActive L R b svc udp n ep '''' = Inr (uid, True))"
      using sl r(8) by auto
    also have "\<dots> \<longleftrightarrow> (\<exists>(s, n, ep) \<in> set (ready_candidates (sp_Name udp) slices). ?live ep)" using each by blast
    finally show ?thesis .
  qed
  moreover have "(e = None \<or> e = Some ClusterEndpointGap) \<and>
    set bs = (\<lambda>w. \<lparr>bk_IP = wi_IP w, bk_TargetID = wi_InstanceID w, bk_Port = al_NodePort a\<rparr>) ` set (map_values workers) \<and>
    length bs = length workers \<and> 1 \<le> al_NodePort a \<and> al_NodePort a \<le> 65535"
    using r(3,6,8) port(2,3) workerBackends_set [OF wf] length_workerBackends by auto
  moreover have "\<forall>(s, n, ep) \<in> set (ready_candidates (sp_Name udp) slices). \<exists>pod node. routed_pod L R b svc udp n ep uid pod \<and>
      rd_GetNode R ('''', pd_NodeName pod) = Inr node \<and> has_prefix (instanceID node) ''ocid1.instance.''"
    using each by blast
  moreover have "list_all (sliceOwned svc) slices" using sl by simp
  ultimately show ?thesis using r(1,3,4) port(1,4)
    by - (rule disjI2, intro conjI exI [of _ svc] exI [of _ udp] exI [of _ slices] exI [of _ uid], simp_all)
qed

definition demo_cluster_service :: service where
  "demo_cluster_service = demo_nodeport_service\<lparr>sv_ExternalTrafficPolicy := ''Cluster''\<rparr>"

definition demo_cluster_binding :: tunnel_binding where
  "demo_cluster_binding = demo_nodeport_binding\<lparr>tb_Spec := (tb_Spec demo_nodeport_binding)\<lparr>bs_Mode := ''NodePortCluster'', bs_HealthPort := 10256\<rparr>\<rparr>"

definition demo_cluster_lease :: allocation where
  "demo_cluster_lease = demo_held\<lparr>al_Mode := ''NodePortCluster'', al_NodePort := 30777\<rparr>"

definition demo_workers :: "(string, worker_identity) gomap" where
  "demo_workers = [(''w2'', \<lparr>wi_UID = ''w2'', wi_InstanceID = ''ocid1.instance.w2'', wi_IP = ''10.1.0.9''\<rparr>),
     (''w1'', \<lparr>wi_UID = ''w1'', wi_InstanceID = ''ocid1.instance.w1'', wi_IP = ''10.0.0.5''\<rparr>)]"

lemma demo_cluster_resolved:
  "resolveCluster list_lib (demo_reader demo_cluster_service True) demo_cluster_binding demo_cluster_lease demo_workers =
     ([\<lparr>bk_IP = ''10.0.0.5'', bk_TargetID = ''ocid1.instance.w1'', bk_Port = 30777\<rparr>,
       \<lparr>bk_IP = ''10.1.0.9'', bk_TargetID = ''ocid1.instance.w2'', bk_Port = 30777\<rparr>], None)"
  by code_simp

theorem resolveCluster_sound_witness:
  "\<exists>udp slices pod. filter (\<lambda>q. sp_Name q = ''udp'' \<and> sp_Protocol q = ''UDP'') (sv_Ports demo_cluster_service) = [udp] \<and> sp_NodePort udp = 30777 \<and>
     listServiceSlices (demo_reader demo_cluster_service True) demo_cluster_binding demo_cluster_service = Inr slices \<and>
     (\<exists>(s, n, ep) \<in> set (ready_candidates (sp_Name udp) slices).
        readEndpointPod list_lib (demo_reader demo_cluster_service True) demo_cluster_binding demo_cluster_service ep = Inr pod \<and> podReady pod)"
proof -
  have facts: "readServiceFor (demo_reader demo_cluster_service True) demo_cluster_binding demo_cluster_lease = Inr demo_cluster_service"
    "bs_PortName (tb_Spec demo_cluster_binding) = ''udp''" "al_NodePort demo_cluster_lease = 30777"
    by code_simp+
  have wf: "wf_map demo_workers" by (simp add: demo_workers_def wf_map_def)
  show ?thesis
    using resolveCluster_sound [OF demo_cluster_resolved wf] unfolding facts by (simp only: sum.inject) blast
qed

text \<open>
  C33. A complete inventory is always admitted.  In a pool that satisfies its invariant and does not
  preserve source addresses, if the workers were pinned without a capacity error, then the backends that
  \<^verbatim>\<open>resolveCluster\<close> computes pass every admission check of the cloud step, on any load balancer of the
  shard that carries only the shard's leases with at most \<^verbatim>\<open>workerLimit\<close> backends each.
\<close>

theorem cluster_backends_admitted:
  assumes nodes: "rd_ListNodes R = Inr nodes" "distinct (map (om_Name \<circ> nd_Meta) nodes)"
    and inv: "clusterWorkers R p = (workers, None)"
    and res: "resolveCluster L Q b a workers = (backends, e)" "e = None \<or> e = Some ClusterEndpointGap"
    and pool: "pool_ok p" "\<not> ps_PreserveSource (np_Spec p)"
    and lb: "wf_nlb lb" "dom (map_of (lb_BackendSets lb)) \<subseteq> set (ownedNames p (al_Shard a))"
      "al_Name a \<in> set (ownedNames p (al_Shard a))"
      "\<forall>n bs. map_of (lb_BackendSets lb) n = Some bs \<longrightarrow> int (length (os_Backends bs)) \<le> workerLimit (np_Spec p)"
  shows "admissionError p a backends lb = None"
proof -
  have ok: "inventory_ok (st_Workers (np_Status p)) nodes"
    using clusterWorkers_reference(2) [OF nodes, of p] inv by fastforce
  then have ws: "workers = List.map_filter (worker_of (st_Workers (np_Status p))) nodes" "int (length workers) \<le> workerLimit (np_Spec p)"
    using clusterWorkers_reference(1) [OF nodes ok] inv by simp_all
  have wf: "wf_map workers" "distinct (map (wi_IP \<circ> snd) workers)"
    using ok worker_names_distinct [OF nodes(2)] by (simp_all add: wf_map_def inventory_ok_def ws(1))
  obtain port where b: "backends = workerBackends workers port"
    using res by (metis resolveCluster_success)
  have len: "int (length backends) \<le> workerLimit (np_Spec p)" using ws(2) by (simp add: b length_workerBackends)
  have "distinct (map (\<lambda>b. (bk_IP b, bk_Port b)) backends)" unfolding b by (rule workerBackends_distinct [OF wf])
  from backend_budget [OF pool(1) lb(1,2,3,4) len this]
  show ?thesis using pool(2) len by (simp add: admissionError_def list_ex_iff)
qed

lemma demo_pinned_simps:
  "pool_ok demo_pinned_pool" "\<not> ps_PreserveSource (np_Spec demo_pinned_pool)"
  "ownedNames demo_pinned_pool 0 = ownedNames demo_cloud_pool 0" "np_Spec demo_pinned_pool = demo_spec"
  using demo_cloud_pool_ok pool_ok_cong [of demo_pinned_pool demo_cloud_pool]
  by (simp_all add: demo_pinned_pool_def ownedNames_def) (simp add: demo_spec_def)

lemma demo_inventory_result: "clusterWorkers (nodes_reader demo_nodes) demo_pinned_pool = (demo_workers, None)"
proof -
  have nodes: "rd_ListNodes (nodes_reader demo_nodes) = Inr demo_nodes" by (simp add: nodes_reader_def)
  have "List.map_filter (worker_of (st_Workers (np_Status demo_pinned_pool))) demo_nodes = demo_workers"
    by (simp add: demo_nodes_def demo_worker_of List.map_filter_simps demo_workers_def)
  with clusterWorkers_reference(1) [OF nodes demo_node_names demo_inventory]
  show ?thesis by (intro prod_eqI) (simp_all add: demo_pinned_simps(4) workerLimit_def demo_spec_def demo_workers_def)
qed

theorem cluster_backends_admitted_witness:
  "admissionError demo_pinned_pool (demo_cluster_lease\<lparr>al_Name := leaseName ''u2''\<rparr>)
     (workerBackends demo_workers 30777) demo_nlb = None"
proof -
  let ?a = "demo_cluster_lease\<lparr>al_Name := leaseName ''u2''\<rparr>"
  have nodes: "rd_ListNodes (nodes_reader demo_nodes) = Inr demo_nodes" by (simp add: nodes_reader_def)
  have res: "resolveCluster list_lib (demo_reader demo_cluster_service True) demo_cluster_binding ?a demo_workers =
      (workerBackends demo_workers 30777, None)"
  proof -
    have eq: "al_ServiceUID ?a = al_ServiceUID demo_cluster_lease" "al_NodePort ?a = al_NodePort demo_cluster_lease" by simp_all
    have "resolveCluster list_lib (demo_reader demo_cluster_service True) demo_cluster_binding ?a demo_workers =
        resolveCluster list_lib (demo_reader demo_cluster_service True) demo_cluster_binding demo_cluster_lease demo_workers"
      unfolding resolveCluster_def readServiceFor_def eq ..
    also have "\<dots> = (workerBackends demo_workers 30777, None)" unfolding demo_cluster_resolved by code_simp
    finally show ?thesis .
  qed
  have shard: "al_Shard ?a = 0" by (simp add: demo_cluster_lease_def demo_held_def)
  show ?thesis
  proof (rule cluster_backends_admitted [OF nodes demo_node_names demo_inventory_result res _ demo_pinned_simps(1,2) demo_step_facts(3)])
    show "dom (map_of (lb_BackendSets demo_nlb)) \<subseteq> set (ownedNames demo_pinned_pool (al_Shard ?a))"
      using demo_step_facts(4) by (simp add: stepRefusal_None shard demo_pinned_simps(3))
    show "al_Name ?a \<in> set (ownedNames demo_pinned_pool (al_Shard ?a))"
      using demo_step_facts(2) by (simp add: shard demo_pinned_simps(3))
  qed (simp_all add: demo_nlb_def created_nlb_def wantedSet_def backendListDetails_def demo_pinned_simps(4) workerLimit_def demo_spec_def)
qed

end
