(* ===== verification/Engine.thy ===== *)
theory Engine
  imports Endpoints_Cluster
begin

text \<open>
  \<^verbatim>\<open>internalcontroller/reconciler.go\<close>: one reconciliation of a pool.  The body of \<^verbatim>\<open>reconcile\<close> is cut
  into definitions at its comments and early returns; every early return is a \<open>Return\<close>, \<^verbatim>\<open>continue\<close> and
  falling off the end of the loop body are a \<open>Continue\<close> with the local variables as they are then.

  \<^verbatim>\<open>report\<close> of \<^verbatim>\<open>metrics.go\<close>, which publishes the outcome, is here too: it sets the pool's gauges and
  patches its condition.  Events and log lines, which no decision reads, are left out.  A slice index
  that Go would reject is the error \<^const>\<open>RuntimePanic\<close>.
\<close>

section \<open>Definitions\<close>

text \<open>
  The struct \<^verbatim>\<open>Reconciler\<close> with the Kubernetes client, uncached reader included.  \<open>en_ServiceError\<close> is
  \<^verbatim>\<open>common.IsServiceError\<close> of the OCI SDK: the HTTP status, code and message of a service error.
\<close>

record 'w engine =
  en_Cloud :: "'w cloud"
  en_Kube :: "'w kube_client"
  en_Lib :: kube_lib
  en_ServiceError :: "go_error \<Rightarrow> (int \<times> string \<times> string) option"
  en_Namespace :: string
  en_Compartment :: string
  en_Subnet :: string

text \<open>The local variables of \<^verbatim>\<open>reconcile\<close> that change in the loop over the bindings.\<close>

record run =
  rn_pool :: nlb_pool
  rn_reader :: "endpoint_snapshot option"
  rn_workers :: "(string, worker_identity) gomap"
  rn_problem :: "go_error option"
  rn_read :: bool
  rn_live :: nat

datatype flow = Return answer | Continue run

definition again :: "go_error option \<Rightarrow> flow" where
  "again e = Return (RequeueSoon, e)"

definition set_status :: "(pool_status \<Rightarrow> pool_status) \<Rightarrow> nlb_pool \<Rightarrow> nlb_pool" where
  "set_status f p = p\<lparr>np_Status := f (np_Status p)\<rparr>"

definition configured_condition :: "tunnel_binding \<Rightarrow> go_error option \<Rightarrow> condition" where
  "configured_condition b problem =
     (case problem of
        None \<Rightarrow> \<lparr>cn_Type = ''Configured'', cn_Status = ''True'', cn_Reason = ''Configured'',
          cn_Message = ''Native NLB configuration converged; application health must be probed independently'',
          cn_ObservedGeneration = om_Generation (tb_Meta b)\<rparr>
      | Some e \<Rightarrow> \<lparr>cn_Type = ''Configured'', cn_Status = ''False'', cn_Reason = ''NotConfigured'',
          cn_Message = error_text e, cn_ObservedGeneration = om_Generation (tb_Meta b)\<rparr>)"

definition bindingStatus :: "'w engine \<Rightarrow> tunnel_binding \<Rightarrow> allocation option \<Rightarrow> nlb_pool \<Rightarrow> go_error option \<Rightarrow>
    ('w, go_error option) engine_op" where
  "bindingStatus E b a p problem =
     (let st = (tb_Status b)\<lparr>bt_Conditions :=
            setStatusCondition (en_Lib E) (bt_Conditions (tb_Status b)) (configured_condition b problem)\<rparr>;
          place = (\<lambda>a. case shard_at (pool_shards p) (al_Shard a) of
              None \<Rightarrow> st
            | Some s \<Rightarrow> st\<lparr>bt_ExternalIP := sh_PublicIP s, bt_ExternalPort := al_Port a, bt_NLBID := sh_ID s,
                bt_BackendSet := al_Name a\<rparr>);
          st' = (case a of None \<Rightarrow> st | Some a \<Rightarrow> place a);
          b' = b\<lparr>tb_Status := st'\<rparr>
      in if (case a of None \<Rightarrow> False | Some a \<Rightarrow> al_Shard a < 0) then State_Monad.return (Some (RuntimePanic ''shard index''))
         else if st' = tb_Status b then State_Monad.return None
         else issue (BindingStatusPatch b') (kc_PatchBindingStatus (en_Kube E) b'))"

definition account :: "nlb_pool \<Rightarrow> nlb_pool" where
  "account p =
     set_status (\<lambda>st. st\<lparr>st_Used := int (length (st_Allocations st)),
       st_Available := wrap64 (wrap64 (ps_Occupancy (np_Spec p) * ps_MaxShards (np_Spec p)) - int (length (st_Allocations st)))\<rparr>) p"

definition savePool :: "'w engine \<Rightarrow> nlb_pool \<Rightarrow> ('w, go_error option) engine_op" where
  "savePool E p = issue (PoolStatusUpdate (account p)) (kc_UpdatePoolStatus (en_Kube E) (account p))"

definition saveAndReturn :: "'w engine \<Rightarrow> nlb_pool \<Rightarrow> ('w, flow) engine_op" where
  "saveAndReturn E p = do { e \<leftarrow> savePool E p; State_Monad.return (again e) }"

definition updateBinding :: "'w engine \<Rightarrow> tunnel_binding \<Rightarrow> ('w, flow) engine_op" where
  "updateBinding E b = do {
     e \<leftarrow> issue (BindingUpdate b) (kc_UpdateBinding (en_Kube E) b);
     State_Monad.return (again e)
   }"

abbreviation has_finalizer :: "'w engine \<Rightarrow> object_meta \<Rightarrow> bool" where
  "has_finalizer E m \<equiv> containsFinalizer (en_Lib E) (om_Finalizers m) Finalizer"

definition with_finalizer :: "'w engine \<Rightarrow> object_meta \<Rightarrow> object_meta" where
  "with_finalizer E m = m\<lparr>om_Finalizers := addFinalizer (en_Lib E) (om_Finalizers m) Finalizer\<rparr>"

definition without_finalizer :: "'w engine \<Rightarrow> object_meta \<Rightarrow> object_meta" where
  "without_finalizer E m = m\<lparr>om_Finalizers := removeFinalizer (en_Lib E) (om_Finalizers m) Finalizer\<rparr>"

definition ctxErr :: "'w engine \<Rightarrow> ('w, go_error option) engine_op" where
  "ctxErr E = gets (\<lambda>s. cd_CtxErr (en_Cloud E) (world s))"

definition readerOn :: "'w engine \<Rightarrow> endpoint_snapshot \<Rightarrow> ('w, reader) engine_op" where
  "readerOn E snap = do { e \<leftarrow> ctxErr E; State_Monad.return (snapshotReader (en_Lib E) e snap) }"

text \<open>\<^verbatim>\<open>r.bindingStatus(...)\<close> followed by \<^verbatim>\<open>continue\<close>.\<close>

definition reportAndContinue :: "'w engine \<Rightarrow> run \<Rightarrow> tunnel_binding \<Rightarrow> allocation option \<Rightarrow> go_error option \<Rightarrow> ('w, flow) engine_op" where
  "reportAndContinue E rn b a problem = do {
     e \<leftarrow> bindingStatus E b a (rn_pool rn) problem;
     State_Monad.return (case e of Some x \<Rightarrow> again (Some x) | None \<Rightarrow> Continue rn)
   }"

subsection \<open>Workers\<close>

text \<open>The closure \<^verbatim>\<open>prepareWorkers\<close>: the new locals, whether the pool was saved, and the error.\<close>

definition pinWorkers :: "'w engine \<Rightarrow> run \<Rightarrow> endpoint_snapshot \<Rightarrow> ('w, run \<times> bool \<times> go_error option) engine_op" where
  "pinWorkers E rn snap = do {
     R \<leftarrow> readerOn E snap;
     let p = rn_pool rn;
     let (workers, problem) = clusterWorkers R p;
     let rn' = rn\<lparr>rn_workers := workers, rn_problem := problem\<rparr>;
     if problem \<noteq> None then State_Monad.return (rn', False, problem)
     else if workers = [] \<and> st_Workers (np_Status p) = [] then State_Monad.return (rn', False, None)
     else if \<not> same_map workers (st_Workers (np_Status p)) then do {
       let p' = set_status (\<lambda>st. st\<lparr>st_Workers := workers\<rparr>) p;
       e \<leftarrow> savePool E p';
       State_Monad.return (rn'\<lparr>rn_pool := p'\<rparr>, True, e)
     }
     else State_Monad.return (rn', False, None)
   }"

definition prepareWorkers :: "'w engine \<Rightarrow> run \<Rightarrow> ('w, run \<times> bool \<times> go_error option) engine_op" where
  "prepareWorkers E rn =
     (if rn_read rn then State_Monad.return (rn, False, rn_problem rn)
      else let rn = rn\<lparr>rn_read := True\<rparr>
      in case rn_reader rn of
           Some snap \<Rightarrow> pinWorkers E rn snap
         | None \<Rightarrow> do {
             r \<leftarrow> newEndpointSnapshot (en_Kube E) (om_Namespace (np_Meta (rn_pool rn)));
             case r of
               Inl e \<Rightarrow> State_Monad.return (rn\<lparr>rn_problem := Some e\<rparr>, False, Some e)
             | Inr snap \<Rightarrow> pinWorkers E (rn\<lparr>rn_reader := Some snap\<rparr>) snap
           })"

subsection \<open>A binding without a lease\<close>

definition grantLease :: "'w engine \<Rightarrow> run \<Rightarrow> tunnel_binding \<Rightarrow> service \<Rightarrow> int \<Rightarrow> ('w, flow) engine_op" where
  "grantLease E rn b svc nodePort =
     (case Allocate (rn_pool rn) b (om_UID (sv_Meta svc)) of
        Inl e \<Rightarrow> reportAndContinue E rn b None (Some e)
      | Inr (a, p) \<Rightarrow>
          saveAndReturn E (if bs_Mode (tb_Spec b) = ''NodePortCluster''
            then put_allocation (binding_uid b) (a\<lparr>al_NodePort := nodePort\<rparr>) p else p))"

definition checkService :: "tunnel_binding \<Rightarrow> bool \<Rightarrow> go_error + service \<Rightarrow> go_error + (service \<times> int)" where
  "checkService b preserveSource r =
     (case r of Inl e \<Rightarrow> Inl e | Inr svc \<Rightarrow>
       (case validateBindingService b svc preserveSource of Some e \<Rightarrow> Inl e | None \<Rightarrow>
         (if bs_Mode (tb_Spec b) = ''NodePortCluster''
          then (case clusterServicePort b svc of Inl e \<Rightarrow> Inl e | Inr udp \<Rightarrow> Inr (svc, sp_NodePort udp))
          else Inr (svc, 0))))"

definition admitBinding :: "'w engine \<Rightarrow> run \<Rightarrow> tunnel_binding \<Rightarrow> ('w, flow) engine_op" where
  "admitBinding E rn b = do {
     r \<leftarrow> call (kc_GetService (en_Kube E) (om_Namespace (tb_Meta b), bs_Service (tb_Spec b)));
     case checkService b (ps_PreserveSource (np_Spec (rn_pool rn))) r of
       Inl e \<Rightarrow> reportAndContinue E rn b None (Some e)
     | Inr (svc, nodePort) \<Rightarrow>
         (if bs_Mode (tb_Spec b) = ''NodePortCluster'' then do {
            (rn', changed, err) \<leftarrow> prepareWorkers E rn;
            if changed then State_Monad.return (again err)
            else (case err of
                    Some e \<Rightarrow> reportAndContinue E rn' b None (Some e)
                  | None \<Rightarrow>
                      (if rn_workers rn' = []
                       then reportAndContinue E rn' b None (Some (Errorf ''no verified workers; allocation deferred''))
                       else grantLease E rn' b svc nodePort))
          }
          else grantLease E rn b svc nodePort)
   }"

definition newBinding :: "'w engine \<Rightarrow> run \<Rightarrow> tunnel_binding \<Rightarrow> ('w, flow) engine_op" where
  "newBinding E rn b =
     (if om_Deleting (tb_Meta b) then
        (if has_finalizer E (tb_Meta b) then updateBinding E (b\<lparr>tb_Meta := without_finalizer E (tb_Meta b)\<rparr>)
         else State_Monad.return (Continue rn))
      else if om_Deleting (np_Meta (rn_pool rn)) then reportAndContinue E rn b None (Some (Errorf ''pool deleting''))
      else if \<not> has_finalizer E (tb_Meta b) then updateBinding E (b\<lparr>tb_Meta := with_finalizer E (tb_Meta b)\<rparr>)
      else if bs_Suspended (tb_Spec b)
      then reportAndContinue E rn b None (Some (Errorf ''Gateway adapter rejected this route''))
      else admitBinding E rn b)"

subsection \<open>A binding with a lease\<close>

text \<open>\<^verbatim>\<open>a.Shard >= len(p.Status.Shards) || p.Status.Shards[a.Shard].ID == ""\<close>; a negative index panics.\<close>

definition unprovisioned :: "nlb_pool \<Rightarrow> allocation \<Rightarrow> go_error + bool" where
  "unprovisioned p a =
     (if al_Shard a < 0 then Inl (RuntimePanic ''shard index'')
      else Inr (case shard_at (pool_shards p) (al_Shard a) of None \<Rightarrow> True | Some s \<Rightarrow> sh_ID s = ''''))"

text \<open>The loop that appends empty shards up to index \<open>i\<close>, and the assignment to that index.\<close>

definition extend_shards :: "int \<Rightarrow> shard list \<Rightarrow> shard list" where
  "extend_shards i ss = ss @ replicate (nat (i + 1) - length ss) \<lparr>sh_ID = '''', sh_PublicIP = ''''\<rparr>"

definition recordShard :: "int \<Rightarrow> shard \<Rightarrow> string \<Rightarrow> nlb_pool \<Rightarrow> nlb_pool" where
  "recordShard i s work p =
     set_status (\<lambda>st. st\<lparr>st_Shards := (st_Shards st)[nat i := s], st_PendingWork := work\<rparr>) p"

definition targetChanged :: "nlb_pool \<Rightarrow> tunnel_binding \<Rightarrow> allocation \<Rightarrow> bool" where
  "targetChanged p b a \<longleftrightarrow>
     bs_Pool (tb_Spec b) \<noteq> om_Name (np_Meta p) \<or> bs_Service (tb_Spec b) \<noteq> al_ServiceName a \<or>
     bs_PortName (tb_Spec b) \<noteq> al_PortName a \<or> bs_Mode (tb_Spec b) \<noteq> al_Mode a \<or>
     (ps_AllocationMode (np_Spec p) = ''Explicit'' \<and> bs_RequestedPort (tb_Spec b) \<noteq> al_Port a) \<or>
     (ps_AllocationMode (np_Spec p) \<noteq> ''Explicit'' \<and> bs_RequestedPort (tb_Spec b) \<noteq> 0)"

text \<open>
  A lease from a release that did not record the node port: the problem to report, or an early
  return once the port was proved by the load balancer's own configuration and recorded.
\<close>

definition migrateLegacy :: "'w engine \<Rightarrow> run \<Rightarrow> reader \<Rightarrow> tunnel_binding \<Rightarrow> allocation \<Rightarrow>
    ('w, flow + go_error option) engine_op" where
  "migrateLegacy E rn R b a =
     (if al_NodePort a \<noteq> 0 then State_Monad.return (Inr None)
      else (case rd_GetService R (om_Namespace (tb_Meta b), bs_Service (tb_Spec b)) of
              Inl e \<Rightarrow> State_Monad.return (Inr (Some (endpointGetError e)))
            | Inr svc \<Rightarrow>
                (if om_UID (sv_Meta svc) \<noteq> al_ServiceUID a \<or> om_Deleting (sv_Meta svc)
                 then State_Monad.return (Inr (Some (Errorf ''Service UID changed; cannot migrate NodePort allocation'')))
                 else (case clusterServicePort b svc of
                         Inl e \<Rightarrow> State_Monad.return (Inr (Some e))
                       | Inr udp \<Rightarrow> do {
                           v \<leftarrow> verifyLegacyNodePort (en_Cloud E) (rn_pool rn) a (sp_NodePort udp);
                           case v of
                             Inl e \<Rightarrow> State_Monad.return (Inl (again (Some e)))
                           | Inr True \<Rightarrow> do {
                               f \<leftarrow> saveAndReturn E (put_allocation (binding_uid b) (a\<lparr>al_NodePort := sp_NodePort udp\<rparr>) (rn_pool rn));
                               State_Monad.return (Inl f)
                             }
                           | Inr False \<Rightarrow> State_Monad.return (Inr (Some (Errorf ''legacy NodePort allocation has no matching nonempty native port proof; retire and recreate Route for migration'')))
                         }))))"

definition optional_as :: "(go_error \<Rightarrow> bool) \<Rightarrow> go_error option \<Rightarrow> bool" where
  "optional_as f e = (case e of None \<Rightarrow> False | Some x \<Rightarrow> f x)"

text \<open>Workers that are pinned and were seen again with the same identity.\<close>

definition retainedWorkers :: "run \<Rightarrow> (string, worker_identity) gomap" where
  "retainedWorkers rn =
     filter (\<lambda>(name, w). get_or zero_worker (st_Workers (np_Status (rn_pool rn))) name = w) (rn_workers rn)"

definition clusterTargets :: "kube_lib \<Rightarrow> run \<Rightarrow> reader \<Rightarrow> tunnel_binding \<Rightarrow> allocation \<Rightarrow> backend list \<times> go_error option" where
  "clusterTargets L rn R b a =
     (if optional_as as_capacity (rn_problem rn) then
        (case resolveCluster L R b a (retainedWorkers rn) of (backends, problem) \<Rightarrow>
          (backends, if problem = None \<or> optional_as as_cluster_gap problem then rn_problem rn else problem))
      else if rn_problem rn \<noteq> None then ([], rn_problem rn)
      else resolveCluster L R b a (rn_workers rn))"

definition resolveTargets :: "'w engine \<Rightarrow> run \<Rightarrow> reader \<Rightarrow> tunnel_binding \<Rightarrow> allocation \<Rightarrow>
    ('w, flow + (backend list \<times> go_error option)) engine_op" where
  "resolveTargets E rn R b a =
     (if al_Mode a = ''NodePortCluster'' then do {
        m \<leftarrow> migrateLegacy E rn R b a;
        State_Monad.return (case m of
            Inl f \<Rightarrow> Inl f
          | Inr (Some e) \<Rightarrow> Inr ([], Some e)
          | Inr None \<Rightarrow> Inr (clusterTargets (en_Lib E) rn R b a))
      }
      else State_Monad.return (case Resolve (en_Lib E) R b a of Inl e \<Rightarrow> Inr ([], Some e) | Inr bk \<Rightarrow> Inr ([bk], None)))"

text \<open>The wanted backends and the problem to report, or an early return.\<close>

definition desiredBackends :: "'w engine \<Rightarrow> run \<Rightarrow> tunnel_binding \<Rightarrow> allocation \<Rightarrow>
    ('w, flow + (backend list \<times> go_error option)) engine_op" where
  "desiredBackends E rn b a =
     (if om_Deleting (tb_Meta b) then State_Monad.return (Inr ([], None))
      else if bs_Suspended (tb_Spec b) then State_Monad.return (Inr ([], Some (Errorf ''Gateway adapter rejected this route'')))
      else if targetChanged (rn_pool rn) b a
      then State_Monad.return (Inr ([], Some (Errorf ''binding target fields immutable; restore original spec'')))
      else (case rn_reader rn of
              None \<Rightarrow> State_Monad.return (Inl (again (Some (RuntimePanic ''nil reader''))))
            | Some snap \<Rightarrow> do {
                R \<leftarrow> readerOn E snap;
                t \<leftarrow> resolveTargets E rn R b a;
                State_Monad.return (case t of
                    Inl f \<Rightarrow> Inl f
                  | Inr (backends, problem) \<Rightarrow>
                      (if optional_as as_endpoint_read problem then Inl (again problem) else Inr (backends, problem)))
              }))"

definition retainable :: "nlb_pool \<Rightarrow> allocation \<Rightarrow> nlb \<Rightarrow> int \<Rightarrow> int \<Rightarrow> oci_backend option" where
  "retainable p a lb nodePort healthPort =
     (case map_of (lb_BackendSets lb) (al_Name a) of
        None \<Rightarrow> None
      | Some bs \<Rightarrow>
          (case os_Backends bs of
             [x] \<Rightarrow>
               (if \<not> sameHealth (os_HealthChecker bs) healthPort \<or> os_Policy bs \<noteq> ''FIVE_TUPLE'' \<or>
                   vbool (os_IsPreserveSource bs) \<noteq> ps_PreserveSource (np_Spec p) \<or> vbool (os_IsFailOpen bs) \<or>
                   \<not> vbool (os_IsInstantFailoverEnabled bs) then None
                else if vint (ob_Port x) \<noteq> nodePort \<or> vstr (ob_TargetId x) = '''' \<or> vint (ob_Weight x) \<noteq> 1 \<or>
                   vbool (ob_IsBackup x) \<or> vbool (ob_IsOffline x) \<or> vbool (ob_IsDrain x) then None
                else (case map_of (lb_Listeners lb) (al_Name a) of
                        None \<Rightarrow> None
                      | Some l \<Rightarrow> (if listenerMatches a l then Some x else None)))
           | _ \<Rightarrow> None))"

definition nodeCarries :: "oci_backend \<Rightarrow> node \<Rightarrow> bool" where
  "nodeCarries x node \<longleftrightarrow>
     instanceID node = vstr (ob_TargetId x) \<and> \<not> om_Deleting (nd_Meta node) \<and> nodeReady node \<and>
     list_ex (\<lambda>(t, addr). t = ''InternalIP'' \<and> addr = vstr (ob_IpAddress x)) (nd_Addresses node)"

definition canRetainBackend :: "'w engine \<Rightarrow> endpoint_snapshot \<Rightarrow> nlb_pool \<Rightarrow> allocation \<Rightarrow> int \<Rightarrow> int \<Rightarrow>
    ('w, go_error + bool) engine_op" where
  "canRetainBackend E snap p a nodePort healthPort =
     (case shard_at (pool_shards p) (al_Shard a) of
        None \<Rightarrow> State_Monad.return (Inr False)
      | Some s \<Rightarrow>
          tryM (cloud_get (en_Cloud E) (sh_ID s)) (\<lambda>lb.
            if \<not> owns (en_Cloud E) p (al_Shard a) lb \<or> lb_LifecycleState lb \<noteq> ''ACTIVE'' \<or>
               \<not> list_all (\<lambda>n. n \<in> set (ownedNames p (al_Shard a))) (map_keys (lb_Listeners lb)) \<or>
               \<not> list_all (\<lambda>n. n \<in> set (ownedNames p (al_Shard a))) (map_keys (lb_BackendSets lb))
            then State_Monad.return (Inr False)
            else (case retainable p a lb nodePort healthPort of
                    None \<Rightarrow> State_Monad.return (Inr False)
                  | Some x \<Rightarrow> do {
                      R \<leftarrow> readerOn E snap;
                      State_Monad.return (case rd_ListNodes R of
                          Inl e \<Rightarrow> Inl (EndpointReadError e)
                        | Inr nodes \<Rightarrow> Inr (list_ex (nodeCarries x) nodes))
                    })))"

fun destinationConflicts :: "'w cloud \<Rightarrow> nlb_pool \<Rightarrow> allocation \<Rightarrow> backend list \<Rightarrow> ('w, go_error + bool) engine_op" where
  "destinationConflicts C p a [] = State_Monad.return (Inr False)"
| "destinationConflicts C p a (b # bs) =
     tryM (destinationConflict C p a b) (\<lambda>conflict.
       if conflict then State_Monad.return (Inr True) else destinationConflicts C p a bs)"

text \<open>From the step to the end of the loop body.\<close>

definition applyBackends :: "'w engine \<Rightarrow> run \<Rightarrow> tunnel_binding \<Rightarrow> allocation \<Rightarrow> backend list \<Rightarrow> int \<Rightarrow> go_error option \<Rightarrow>
    ('w, flow) engine_op" where
  "applyBackends E rn b a backends healthPort problem = do {
     r \<leftarrow> StepBackends (en_Cloud E) (rn_pool rn) a backends healthPort (om_Deleting (tb_Meta b));
     case r of
       Inl e \<Rightarrow> (if as_capacity e then reportAndContinue E rn b (Some a) (Some e) else State_Monad.return (again (Some e)))
     | Inr work \<Rightarrow>
         (if work \<noteq> '''' then saveAndReturn E (set_status (\<lambda>st. st\<lparr>st_PendingWork := work\<rparr>) (rn_pool rn))
          else if om_Deleting (tb_Meta b)
          then saveAndReturn E (put_allocation (binding_uid b) (a\<lparr>al_Tombstone := True\<rparr>) (rn_pool rn))
          else reportAndContinue E rn b (Some a) problem)
   }"

text \<open>From the destination conflicts on; \<open>clear\<close> withdraws the backends with a problem.\<close>

definition checkConflicts :: "'w engine \<Rightarrow> run \<Rightarrow> tunnel_binding \<Rightarrow> allocation \<Rightarrow> backend list \<Rightarrow> int \<Rightarrow> go_error option \<Rightarrow>
    ('w, flow) engine_op" where
  "checkConflicts E rn b a backends healthPort problem =
     (if om_Deleting (tb_Meta b) then applyBackends E rn b a backends healthPort problem
      else do {
        c \<leftarrow> destinationConflicts (en_Cloud E) (rn_pool rn) a backends;
        case c of
          Inl e \<Rightarrow> State_Monad.return (again (Some e))
        | Inr True \<Rightarrow> applyBackends E rn b a [] healthPort
            (Some (Errorf ''Pod destination is already used by another binding on this NLB''))
        | Inr False \<Rightarrow> applyBackends E rn b a backends healthPort problem
      })"

definition holdOrApply :: "'w engine \<Rightarrow> run \<Rightarrow> tunnel_binding \<Rightarrow> allocation \<Rightarrow> backend list \<Rightarrow> int \<Rightarrow> go_error option \<Rightarrow>
    ('w, flow) engine_op" where
  "holdOrApply E rn b a backends healthPort problem =
     (case (if om_Deleting (tb_Meta b) then None else Option.bind problem as_backend_unavailable) of
        None \<Rightarrow> checkConflicts E rn b a backends healthPort problem
      | Some (gapNodePort, gapHealthPort) \<Rightarrow>
          (case rn_reader rn of
             None \<Rightarrow> State_Monad.return (again (Some (RuntimePanic ''nil reader'')))
           | Some snap \<Rightarrow> do {
               h \<leftarrow> canRetainBackend E snap (rn_pool rn) a gapNodePort gapHealthPort;
               case h of
                 Inl e \<Rightarrow> State_Monad.return (again (Some e))
               | Inr True \<Rightarrow> reportAndContinue E rn b (Some a) problem
               | Inr False \<Rightarrow> checkConflicts E rn b a backends healthPort problem
             }))"

definition configureBinding :: "'w engine \<Rightarrow> run \<Rightarrow> tunnel_binding \<Rightarrow> allocation \<Rightarrow> ('w, flow) engine_op" where
  "configureBinding E rn b a = do {
     d \<leftarrow> desiredBackends E rn b a;
     case d of
       Inl f \<Rightarrow> State_Monad.return f
     | Inr (backends, problem) \<Rightarrow> do {
         cancelled \<leftarrow> ctxErr E;
         case cancelled of
           Some e \<Rightarrow> State_Monad.return (again (Some e))
         | None \<Rightarrow>
             (if bs_HealthPort (tb_Spec b) < 1 \<or> 65535 < bs_HealthPort (tb_Spec b)
              then holdOrApply E rn b a [] 9 (Some (Errorf ''invalid healthPort''))
              else holdOrApply E rn b a backends (bs_HealthPort (tb_Spec b)) problem)
       }
   }"

definition provisionBinding :: "'w engine \<Rightarrow> run \<Rightarrow> tunnel_binding \<Rightarrow> allocation \<Rightarrow> ('w, flow) engine_op" where
  "provisionBinding E rn b a = do {
     r \<leftarrow> EnsureShard (en_Cloud E) (rn_pool rn) (al_Shard a);
     case r of
       Inl e \<Rightarrow> State_Monad.return (again (Some e))
     | Inr (s, work) \<Rightarrow>
         (let p = set_status (\<lambda>st. st\<lparr>st_Shards := extend_shards (al_Shard a) (st_Shards st)\<rparr>) (rn_pool rn)
          in if shard_at (pool_shards p) (al_Shard a) \<noteq> Some s \<or> work \<noteq> ''''
             then saveAndReturn E (recordShard (al_Shard a) s work p)
             else configureBinding E (rn\<lparr>rn_pool := p\<rparr>) b a)
   }"

text \<open>The workers of a lease in cluster mode, and the check for a lease without a recorded node port.\<close>

definition checkLegacy :: "'w engine \<Rightarrow> run \<Rightarrow> tunnel_binding \<Rightarrow> allocation \<Rightarrow> ('w, flow) engine_op" where
  "checkLegacy E rn b a =
     (if al_Mode a = ''NodePortCluster'' \<and> al_NodePort a = 0 \<and> \<not> om_Deleting (tb_Meta b) then
        (case unprovisioned (rn_pool rn) a of
           Inl e \<Rightarrow> State_Monad.return (again (Some e))
         | Inr True \<Rightarrow> reportAndContinue E rn b (Some a)
             (Some (Errorf ''legacy NodePort allocation has no native port proof; retire and recreate Route''))
         | Inr False \<Rightarrow> provisionBinding E rn b a)
      else provisionBinding E rn b a)"

definition observeWorkers :: "'w engine \<Rightarrow> run \<Rightarrow> tunnel_binding \<Rightarrow> allocation \<Rightarrow> ('w, flow) engine_op" where
  "observeWorkers E rn b a =
     (if al_Mode a = ''NodePortCluster'' \<and> \<not> om_Deleting (tb_Meta b) \<and> \<not> bs_Suspended (tb_Spec b) then do {
        (rn', changed, err) \<leftarrow> prepareWorkers E rn;
        if changed \<or> optional_as as_endpoint_read err then State_Monad.return (again err)
        else checkLegacy E rn' b a
      }
      else checkLegacy E rn b a)"

definition leasedBinding :: "'w engine \<Rightarrow> run \<Rightarrow> tunnel_binding \<Rightarrow> allocation \<Rightarrow> ('w, flow) engine_op" where
  "leasedBinding E rn b a =
     (if al_Tombstone a then
        (if om_Deleting (tb_Meta b) \<and> has_finalizer E (tb_Meta b)
         then updateBinding E (b\<lparr>tb_Meta := without_finalizer E (tb_Meta b)\<rparr>)
         else State_Monad.return (Continue rn))
      else if \<not> has_finalizer E (tb_Meta b) \<and> \<not> om_Deleting (tb_Meta b)
      then updateBinding E (b\<lparr>tb_Meta := with_finalizer E (tb_Meta b)\<rparr>)
      else if \<not> om_Deleting (tb_Meta b) \<and> \<not> bs_Suspended (tb_Spec b) \<and> rn_reader rn = None then do {
        r \<leftarrow> newEndpointSnapshot (en_Kube E) (om_Namespace (np_Meta (rn_pool rn)));
        case r of
          Inl e \<Rightarrow> State_Monad.return (again (Some e))
        | Inr snap \<Rightarrow> observeWorkers E (rn\<lparr>rn_reader := Some snap\<rparr>) b a
      }
      else observeWorkers E rn b a)"

subsection \<open>The loop over the bindings and what follows it\<close>

definition reconcileBinding :: "'w engine \<Rightarrow> run \<Rightarrow> tunnel_binding \<Rightarrow> ('w, flow) engine_op" where
  "reconcileBinding E rn b =
     (case map_of (pool_allocations (rn_pool rn)) (binding_uid b) of
        None \<Rightarrow>
          (if bs_Pool (tb_Spec b) \<noteq> om_Name (np_Meta (rn_pool rn)) then State_Monad.return (Continue rn)
           else newBinding E (rn\<lparr>rn_live := Suc (rn_live rn)\<rparr>) b)
      | Some a \<Rightarrow> leasedBinding E (rn\<lparr>rn_live := Suc (rn_live rn)\<rparr>) b a)"

fun reconcileBindings :: "'w engine \<Rightarrow> tunnel_binding list \<Rightarrow> run \<Rightarrow> ('w, flow) engine_op" where
  "reconcileBindings E [] rn = State_Monad.return (Continue rn)"
| "reconcileBindings E (b # bs) rn = do {
     f \<leftarrow> reconcileBinding E rn b;
     case f of Return r \<Rightarrow> State_Monad.return (Return r) | Continue rn' \<Rightarrow> reconcileBindings E bs rn'
   }"

text \<open>A step that removes a lease's objects from its shard; \<open>done\<close> is what follows when nothing is left.\<close>

definition removeObjects :: "'w engine \<Rightarrow> nlb_pool \<Rightarrow> allocation \<Rightarrow> ('w, flow) engine_op \<Rightarrow> ('w, flow) engine_op" where
  "removeObjects E p a done = do {
     r \<leftarrow> Step (en_Cloud E) p a None 9 True;
     case r of
       Inl e \<Rightarrow> State_Monad.return (again (Some e))
     | Inr work \<Rightarrow>
         (if work \<noteq> '''' then saveAndReturn E (set_status (\<lambda>st. st\<lparr>st_PendingWork := work\<rparr>) p) else done)
   }"

definition retireOrphan :: "'w engine \<Rightarrow> nlb_pool \<Rightarrow> string \<Rightarrow> allocation \<Rightarrow> ('w, flow) engine_op" where
  "retireOrphan E p uid a =
     (let retire = saveAndReturn E (put_allocation uid (a\<lparr>al_Tombstone := True\<rparr>) p)
      in case unprovisioned p a of
           Inl e \<Rightarrow> State_Monad.return (again (Some e))
         | Inr True \<Rightarrow> retire
         | Inr False \<Rightarrow> removeObjects E p a retire)"

fun quarantineTombstones :: "'w engine \<Rightarrow> nlb_pool \<Rightarrow> allocation list \<Rightarrow> ('w, flow) engine_op \<Rightarrow> ('w, flow) engine_op" where
  "quarantineTombstones E p [] done = done"
| "quarantineTombstones E p (a # as) done =
     (if \<not> al_Tombstone a then quarantineTombstones E p as done
      else (case unprovisioned p a of
              Inl e \<Rightarrow> State_Monad.return (again (Some e))
            | Inr True \<Rightarrow> quarantineTombstones E p as done
            | Inr False \<Rightarrow> removeObjects E p a (quarantineTombstones E p as done)))"

definition finishPool :: "'w engine \<Rightarrow> run \<Rightarrow> ('w, flow) engine_op" where
  "finishPool E rn =
     (let p = rn_pool rn; p' = p\<lparr>np_Meta := without_finalizer E (np_Meta p)\<rparr>
      in if om_Deleting (np_Meta p) \<and> rn_live rn = 0 then do {
           e \<leftarrow> issue (PoolUpdate p') (kc_UpdatePool (en_Kube E) p');
           State_Monad.return (Return (NoRequeue, e))
         }
         else State_Monad.return (Return (RequeueLater, None)))"

text \<open>
  The loop over the ledger that looks for an orphan always returns at the first one it finds, so it is
  a search; the order of the association list stands for Go's iteration order.
\<close>

definition sweepLedger :: "'w engine \<Rightarrow> tunnel_binding list \<Rightarrow> run \<Rightarrow> ('w, flow) engine_op" where
  "sweepLedger E bindings rn =
     (case find (\<lambda>(uid, a). uid \<notin> set (map binding_uid bindings) \<and> \<not> al_Tombstone a) (pool_allocations (rn_pool rn)) of
        Some (uid, a) \<Rightarrow> retireOrphan E (rn_pool rn) uid a
      | None \<Rightarrow> quarantineTombstones E (rn_pool rn) (map_values (pool_allocations (rn_pool rn))) (finishPool E rn))"

definition reconcileLeases :: "'w engine \<Rightarrow> nlb_pool \<Rightarrow> ('w, flow) engine_op" where
  "reconcileLeases E p = do {
     r \<leftarrow> call (kc_ListBindings (en_Kube E) (om_Namespace (np_Meta p)));
     case r of
       Inl e \<Rightarrow> State_Monad.return (again (Some e))
     | Inr items \<Rightarrow> do {
         let bindings = sort_key (\<lambda>b. om_Name (tb_Meta b)) items;
         f \<leftarrow> reconcileBindings E bindings \<lparr>rn_pool = p, rn_reader = None, rn_workers = [], rn_problem = None,
                rn_read = False, rn_live = 0\<rparr>;
         case f of Return x \<Rightarrow> State_Monad.return (Return x) | Continue rn \<Rightarrow> sweepLedger E bindings rn
       }
   }"

text \<open>A pool that wants its first shard before any binding exists.\<close>

definition provisionEmpty :: "'w engine \<Rightarrow> nlb_pool \<Rightarrow> ('w, flow) engine_op" where
  "provisionEmpty E p =
     (if ps_ProvisionEmpty (np_Spec p) \<and> \<not> om_Deleting (np_Meta p) then do {
        r \<leftarrow> EnsureShard (en_Cloud E) p 0;
        case r of
          Inl e \<Rightarrow> State_Monad.return (again (Some e))
        | Inr (s, work) \<Rightarrow>
            (let p' = set_status (\<lambda>st. st\<lparr>st_Shards := extend_shards 0 (st_Shards st)\<rparr>) p
             in if shard_at (pool_shards p') 0 \<noteq> Some s \<or> work \<noteq> ''''
                then saveAndReturn E (recordShard 0 s work p')
                else reconcileLeases E p')
      }
      else reconcileLeases E p)"

definition finishWork :: "'w engine \<Rightarrow> nlb_pool \<Rightarrow> ('w, flow) engine_op" where
  "finishWork E p = do {
     (finished, e) \<leftarrow> Work (en_Cloud E) (st_PendingWork (np_Status p));
     if \<not> finished then State_Monad.return (again e)
     else do {
       save \<leftarrow> savePool E (set_status (\<lambda>st. st\<lparr>st_PendingWork := ''''\<rparr>) p);
       State_Monad.return (again (case save of Some x \<Rightarrow> Some x | None \<Rightarrow> e))
     }
   }"

text \<open>Everything after the pool was read.\<close>

definition reconcilePool :: "'w engine \<Rightarrow> nlb_pool \<Rightarrow> ('w, flow) engine_op" where
  "reconcilePool E p =
     (case ValidatePool (np_Spec p) of Some e \<Rightarrow> State_Monad.return (again (Some e)) | None \<Rightarrow>
       (if ps_CompartmentID (np_Spec p) \<noteq> en_Compartment E \<or> ps_SubnetID (np_Spec p) \<noteq> en_Subnet E
        then State_Monad.return (again (Some (Errorf ''pool outside configured compartment/subnet'')))
        else if st_FrozenSpec (np_Status p) \<noteq> None \<and> st_FrozenSpec (np_Status p) \<noteq> Some (np_Spec p)
        then State_Monad.return (again (Some (Errorf ''pool spec immutable after first reconciliation; restore original spec'')))
        else if \<not> has_finalizer E (np_Meta p) \<and> \<not> om_Deleting (np_Meta p) then do {
          let p' = p\<lparr>np_Meta := with_finalizer E (np_Meta p)\<rparr>;
          e \<leftarrow> issue (PoolUpdate p') (kc_UpdatePool (en_Kube E) p');
          State_Monad.return (again e)
        }
        else if st_FrozenSpec (np_Status p) = None
        then saveAndReturn E (set_status (\<lambda>st. st\<lparr>st_FrozenSpec := Some (np_Spec p)\<rparr>) p)
        else if st_PendingWork (np_Status p) \<noteq> '''' then finishWork E p
        else provisionEmpty E p))"

definition reconcile :: "'w engine \<Rightarrow> object_key \<Rightarrow> ('w, flow) engine_op" where
  "reconcile E req =
     (if fst req \<noteq> en_Namespace E then State_Monad.return (Return (NoRequeue, None))
      else do {
        r \<leftarrow> call (kc_GetPool (en_Kube E) req);
        case r of
          Inl e \<Rightarrow> State_Monad.return (Return (NoRequeue, if is_not_found e then None else Some e))
        | Inr p \<Rightarrow> reconcilePool E p
      })"

subsection \<open>The published outcome\<close>

text \<open>The values \<^verbatim>\<open>report\<close> gives to the gauges of a pool.\<close>

record pool_gauges =
  pg_Allocated :: int
  pg_Retired :: int
  pg_Available :: int
  pg_Shards :: int
  pg_Pending :: int

definition poolGauges :: "nlb_pool \<Rightarrow> pool_gauges" where
  "poolGauges p =
     (let leases = map_values (pool_allocations p);
          active = int (length (filter (\<lambda>a. \<not> al_Tombstone a) leases));
          retired = int (length (filter al_Tombstone leases))
      in \<lparr>pg_Allocated = active, pg_Retired = retired,
          pg_Available = wrap64 (wrap64 (wrap64 (ps_Occupancy (np_Spec p) * ps_MaxShards (np_Spec p)) - active) - retired),
          pg_Shards = int (length (pool_shards p)),
          pg_Pending = (if st_PendingWork (np_Status p) \<noteq> '''' then 1 else 0)\<rparr>)"

definition problemMessage :: "'w engine \<Rightarrow> go_error \<Rightarrow> string" where
  "problemMessage E e = take 1024
     (case en_ServiceError E e of
        None \<Rightarrow> error_text e
      | Some (status, code, message) \<Rightarrow> ''OCI HTTP '' @ itoa status @ '' '' @ code @ '': '' @ message)"

text \<open>\<^verbatim>\<open>result.RequeueAfter >= 15*time.Second\<close> holds of \<^const>\<open>RequeueLater\<close> only.\<close>

definition reportCondition :: "'w engine \<Rightarrow> nlb_pool \<Rightarrow> ctrl_result \<Rightarrow> go_error option \<Rightarrow> condition" where
  "reportCondition E p result problem =
     (let c = \<lparr>cn_Type = ''Reconciled'', cn_Status = ''False'', cn_Reason = ''Progressing'',
            cn_Message = ''Reconciliation in progress'', cn_ObservedGeneration = om_Generation (np_Meta p)\<rparr>
      in case problem of
           Some e \<Rightarrow> c\<lparr>cn_Reason := ''ReconcileError'', cn_Message := problemMessage E e\<rparr>
         | None \<Rightarrow>
             (if result = RequeueLater
              then c\<lparr>cn_Status := ''True'', cn_Reason := ''Reconciled'',
                cn_Message := ''Pool reconciliation completed; inspect individual binding conditions and application probes''\<rparr>
              else c))"

text \<open>The gauges are the result; a failure of the patch is only logged.\<close>

definition report :: "'w engine \<Rightarrow> object_key \<Rightarrow> ctrl_result \<Rightarrow> go_error option \<Rightarrow> ('w, pool_gauges option) engine_op" where
  "report E req result problem =
     (if fst req \<noteq> en_Namespace E then State_Monad.return None
      else do {
        r \<leftarrow> call (kc_GetPool (en_Kube E) req);
        case r of
          Inl e \<Rightarrow> State_Monad.return None
        | Inr p \<Rightarrow> do {
            let p' = set_status (\<lambda>st. st\<lparr>st_Conditions :=
              setStatusCondition (en_Lib E) (st_Conditions st) (reportCondition E p result problem)\<rparr>) p;
            if np_Status p' \<noteq> np_Status p then do {
              _ \<leftarrow> issue (PoolStatusPatch p') (kc_PatchPoolStatus (en_Kube E) p');
              State_Monad.return (Some (poolGauges p))
            }
            else State_Monad.return (Some (poolGauges p))
          }
      })"

text \<open>
  \<^verbatim>\<open>Reconcile\<close>: a fresh snapshot, the published outcome, and no requeue time beside an error.  A panic
  leaves before \<^verbatim>\<open>report\<close>.
\<close>

fun answer_of :: "flow \<Rightarrow> answer" where
  "answer_of (Return (r, Some e)) = (NoRequeue, Some e)"
| "answer_of (Return (r, None)) = (r, None)"
| "answer_of (Continue rn) = (NoRequeue, Some (RuntimePanic ''no result''))"

fun panics :: "flow \<Rightarrow> bool" where
  "panics (Return (r, Some (RuntimePanic m))) = True"
| "panics (Continue rn) = True"
| "panics _ = False"

fun publish :: "'w engine \<Rightarrow> object_key \<Rightarrow> flow \<Rightarrow> ('w, pool_gauges option) engine_op" where
  "publish E req (Return (r, e)) =
     (if panics (Return (r, e)) then State_Monad.return None else report E req r e)"
| "publish E req (Continue rn) = State_Monad.return None"

definition Reconcile :: "'w engine \<Rightarrow> object_key \<Rightarrow> ('w, answer) engine_op" where
  "Reconcile E req = do {
     ResetSnapshot;
     f \<leftarrow> reconcile E req;
     _ \<leftarrow> publish E req f;
     State_Monad.return (answer_of f)
   }"

end
