(* ===== verification/Effects.thy ===== *)
theory Effects
  imports Cloud_Steps
begin

text \<open>
  The writes of the operations of \<^verbatim>\<open>cloud.go\<close>, one rule of the calculus each.
\<close>

section \<open>The operations of the cloud\<close>

lemma silent_cloud_get [silent_ops]: "silent (cloud_get C nid)"
  unfolding cloud_get_def
  by (intro silent_ops option.case_eq_if) (auto intro!: silent_ops split: option.split sum.split)

lemma silent_Work [silent_ops]: "silent (Work C nid)"
  unfolding Work_def by (intro silent_ops)

lemma silent_listShards [silent_ops]: "silent (listShards fuel C p index page nid)"
proof (induction fuel arbitrary: page nid)
  case (Suc fuel)
  then show ?case
    by (auto intro!: silent_ops split: prod.split sum.split option.split)
qed (simp add: silent_return)

lemma silent_destinationConflict [silent_ops]: "silent (destinationConflict C p a b)"
  unfolding destinationConflict_def by (auto intro!: silent_ops split: option.split)

lemma silent_verifyLegacy [silent_ops]: "silent (verifyLegacyNodePort C p a port)"
  unfolding verifyLegacyNodePort_def by (auto intro!: silent_ops split: option.split)

text \<open>
  What the ordering theorems need of the OCI service: an accepted mutation names its work request, and
  a refusal is not mistaken for the engine's own capacity error.
\<close>

definition oci_reports :: "'w cloud \<Rightarrow> bool" where
  "oci_reports C \<longleftrightarrow>
     (\<forall>m w r w'. oc_Mutate (cd_Client C) m w = (r, w') \<longrightarrow>
        (case r of Inl e \<Rightarrow> \<not> as_capacity e | Inr (i, work) \<Rightarrow> vstr work \<noteq> ''''))"

lemma oci_reports_mem: "oci_reports mem_cloud"
  by (auto simp: oci_reports_def mem_cloud_def mem_client_def mem_mutate_def split: oci_mutation.splits option.splits)

lemma emits_mutation:
  "emits (issue (OciWrite m) (oc_Mutate (cd_Client C) m))
     (\<lambda>r ws. ws = [OciWrite m] \<and> (oci_reports C \<longrightarrow> (case r of Inl e \<Rightarrow> \<not> as_capacity e | Inr (i, work) \<Rightarrow> vstr work \<noteq> '''')))"
  unfolding emits_def wp_issue by (auto simp: oci_reports_def split: prod.split sum.split)

definition step_emits :: "'w cloud \<Rightarrow> nlb_pool \<Rightarrow> allocation \<Rightarrow> go_error + string \<Rightarrow> api_write list \<Rightarrow> bool" where
  "step_emits C p a r ws \<longleftrightarrow>
     ws = [] \<and> (\<forall>work. r = Inr work \<longrightarrow> work = '''') \<or>
     (\<exists>m nid. ws = [OciWrite m] \<and> mutation_target m = Some (nid, al_Name a) \<and> provisionedShard p a = Some nid \<and>
        (oci_reports C \<longrightarrow> (case r of Inl e \<Rightarrow> \<not> as_capacity e | Inr work \<Rightarrow> work \<noteq> '''')))"

lemma emits_cloud_mutate:
  "emits (cloud_mutate C nid m)
     (\<lambda>r ws. ws = [OciWrite m] \<and> (oci_reports C \<longrightarrow> (case r of Inl e \<Rightarrow> \<not> as_capacity e | Inr work \<Rightarrow> work \<noteq> '''')))"
  unfolding cloud_mutate_def
  by (rule emits_bind_silent, rule silent_modify, simp, rule emits_bind, rule emits_mono [OF emits_mutation])
     (auto intro!: emits_return split: sum.splits)

lemma emits_StepBackends: "emits (StepBackends C p a backends hp remove) (step_emits C p a)"
proof -
  have mut: "emits (cloud_mutate C nid m) (step_emits C p a)"
    if "provisionedShard p a = Some nid" "stepDecision C p a backends hp remove nid lb = Inr (Some m)" for nid lb m
    by (rule emits_mono [OF emits_cloud_mutate]) (use that stepDecision_target [OF that(2)] in \<open>auto simp: step_emits_def\<close>)
  show ?thesis
    unfolding StepBackends_def
    by (rule emits_bind_silent [OF silent_gets], split option.split, intro conjI allI impI)
       (auto intro!: emits_return emits_tryM_silent [OF silent_cloud_get] mut
         simp: step_emits_def [of _ _ _ _ "[]"] split: option.split sum.split)
qed

definition shard_emits :: "'w cloud \<Rightarrow> nlb_pool \<Rightarrow> int \<Rightarrow> go_error + (shard \<times> string) \<Rightarrow> api_write list \<Rightarrow> bool" where
  "shard_emits C p index r ws \<longleftrightarrow>
     (\<forall>x. r = Inr x \<longrightarrow> 0 \<le> index \<and> index < ps_MaxShards (np_Spec p)) \<and>
     (ws = [] \<or> ws = [OciWrite (CreateNetworkLoadBalancer (createDetails C p index))] \<and>
        0 \<le> index \<and> index < ps_MaxShards (np_Spec p) \<and>
        (oci_reports C \<longrightarrow> (\<forall>s work. r = Inr (s, work) \<longrightarrow> work \<noteq> '''')))"

lemma emits_EnsureShard: "emits (EnsureShard C p index) (shard_emits C p index)"
proof (cases "index < 0 \<or> ps_MaxShards (np_Spec p) \<le> index")
  case True
  then show ?thesis by (auto simp: EnsureShard_def shard_emits_def intro!: emits_return)
next
  case False
  let ?m = "CreateNetworkLoadBalancer (createDetails C p index)"
  have new: "emits (do { r \<leftarrow> issue (OciWrite ?m) (oc_Mutate (cd_Client C) ?m);
      State_Monad.return (case r of Inl e \<Rightarrow> Inl e | Inr (i, work) \<Rightarrow> Inr (\<lparr>sh_ID = vstr i, sh_PublicIP = ''''\<rparr>, vstr work)) })
      (shard_emits C p index)"
    by (rule emits_bind, rule emits_mono [OF emits_mutation])
       (use False in \<open>auto intro!: emits_return simp: shard_emits_def split: sum.splits\<close>)
  have old: "emits (tryM (cloud_get C nid) (\<lambda>lb. State_Monad.return (f lb))) (shard_emits C p index)" for nid f
    by (rule emits_silent, intro silent_ops) (use False in \<open>simp add: shard_emits_def\<close>)
  have find: "silent (if known = '''' then listShards (cd_PageFuel C) C p index None ''''
                      else State_Monad.return (Inr known))" for known :: string
    by (auto intro!: silent_ops)
  show ?thesis
    unfolding EnsureShard_def Let_def using False
    by (simp only: if_False) (intro emits_tryM_silent [OF find], simp add: shard_emits_def, simp add: new old)
qed

end
