(* ===== verification/Engine_Steps.thy ===== *)
theory Engine_Steps
  imports Engine Effects
begin

text \<open>
  What one reconciliation may write, relative to the pool it read.  \<open>flow_ok\<close> collects it: every saved
  status advances the ledger, every OCI mutation belongs to a lease or a shard of the pool that was
  read, finalizers go only when nothing is left, and, if OCI names the work it accepts, there is at most
  one mutation and it comes right before the save of its work request.
\<close>

section \<open>Progress of the ledger\<close>

definition same_lease :: "allocation \<Rightarrow> allocation \<Rightarrow> bool" where
  "same_lease a a' \<longleftrightarrow>
     a' = a\<lparr>al_Tombstone := al_Tombstone a', al_NodePort := al_NodePort a'\<rparr> \<and>
     (al_Tombstone a \<longrightarrow> al_Tombstone a') \<and> (al_NodePort a \<noteq> 0 \<longrightarrow> al_NodePort a' = al_NodePort a)"

text \<open>The ledger as a register of slots.\<close>

definition pool_register :: "nlb_pool \<Rightarrow> register" where
  "pool_register p = register_of alloc_slot al_Tombstone (pool_allocations p)"

definition advances :: "nlb_pool \<Rightarrow> nlb_pool \<Rightarrow> bool" where
  "advances p q \<longleftrightarrow>
     np_Spec q = np_Spec p \<and> np_Meta q = np_Meta p \<and>
     (st_FrozenSpec (np_Status p) \<noteq> None \<longrightarrow> st_FrozenSpec (np_Status q) = st_FrozenSpec (np_Status p)) \<and>
     (\<forall>uid a. map_of (pool_allocations p) uid = Some a \<longrightarrow>
        (\<exists>a'. map_of (pool_allocations q) uid = Some a' \<and> same_lease a a')) \<and>
     register_step (pool_slots p) (pool_register p) (pool_register q) \<and>
     (pool_ok p \<longrightarrow> pool_ok q \<and> st_Used (np_Status q) = int (length (pool_allocations q)) \<and>
        st_Available (np_Status q) = pool_capacity p - st_Used (np_Status q) \<and> 0 \<le> st_Available (np_Status q))"

lemma same_lease_refl [simp]: "same_lease a a"
  by (simp add: same_lease_def)

lemma same_lease_trans: "same_lease a b \<Longrightarrow> same_lease b c \<Longrightarrow> same_lease a c"
  unfolding same_lease_def by (cases a; cases b; cases c) auto

lemma same_lease_fields:
  assumes "same_lease a a'"
  shows "alloc_slot a' = alloc_slot a" "al_Name a' = al_Name a" "al_ServiceUID a' = al_ServiceUID a"
    "al_PortName a' = al_PortName a" "al_Mode a' = al_Mode a" "al_Tombstone a \<Longrightarrow> al_Tombstone a'"
proof -
  have eq: "a' = a\<lparr>al_Tombstone := al_Tombstone a', al_NodePort := al_NodePort a'\<rparr>"
    using assms by (simp add: same_lease_def)
  show "alloc_slot a' = alloc_slot a" "al_Name a' = al_Name a" "al_ServiceUID a' = al_ServiceUID a"
    "al_PortName a' = al_PortName a" "al_Mode a' = al_Mode a"
    by (subst eq, simp add: alloc_slot_def)+
  show "al_Tombstone a \<Longrightarrow> al_Tombstone a'" using assms by (simp add: same_lease_def)
qed

lemma same_lease_tombstone: "same_lease a (a\<lparr>al_Tombstone := True\<rparr>)"
  by (cases a) (simp add: same_lease_def)

lemma same_lease_nodeport: "al_NodePort a = 0 \<Longrightarrow> same_lease a (a\<lparr>al_NodePort := n\<rparr>)"
  by (cases a) (simp add: same_lease_def)

lemma account_simps [simp]:
  "np_Spec (account p) = np_Spec p" "np_Meta (account p) = np_Meta p" "pool_allocations (account p) = pool_allocations p"
  "pool_shards (account p) = pool_shards p" "st_PendingWork (np_Status (account p)) = st_PendingWork (np_Status p)"
  "st_Used (np_Status (account p)) = int (length (pool_allocations p))"
  "st_FrozenSpec (np_Status (account p)) = st_FrozenSpec (np_Status p)"
  by (simp_all add: account_def set_status_def)

lemma set_status_simps [simp]:
  "np_Spec (set_status f p) = np_Spec p" "np_Meta (set_status f p) = np_Meta p" "np_Status (set_status f p) = f (np_Status p)"
  by (simp_all add: set_status_def)

text \<open>The counters of a pool that satisfies the invariant do not overflow.\<close>

lemma account_available:
  assumes "pool_ok p"
  shows "st_Available (np_Status (account p)) = pool_capacity p - int (length (pool_allocations p))"
    "int (length (pool_allocations p)) \<le> pool_capacity p"
proof -
  have spec: "pool_spec_ok (np_Spec p)" and len: "int (length (pool_allocations p)) \<le> pool_capacity p"
    using assms by (auto simp: pool_ok_def)
  have b: "1 \<le> ps_Occupancy (np_Spec p)" "ps_Occupancy (np_Spec p) \<le> 50" "1 \<le> ps_MaxShards (np_Spec p)" "ps_MaxShards (np_Spec p) \<le> 100"
    using spec by (auto simp: pool_spec_ok_def)
  have cap: "0 \<le> pool_capacity p" "pool_capacity p \<le> 5000"
    using b mult_mono [of "ps_Occupancy (np_Spec p)" 50 "ps_MaxShards (np_Spec p)" 100] by (simp_all add: pool_capacity_def)
  have "wrap64 (ps_Occupancy (np_Spec p) * ps_MaxShards (np_Spec p)) = pool_capacity p"
    using cap by (simp add: pool_capacity_def)
  then show "st_Available (np_Status (account p)) = pool_capacity p - int (length (pool_allocations p))"
    using cap len by (simp add: account_def pool_capacity_def [symmetric])
  show "int (length (pool_allocations p)) \<le> pool_capacity p" by (rule len)
qed

text \<open>The gauges of a pool that satisfies the invariant add up to its capacity, without overflow.\<close>

lemma poolGauges_balance:
  assumes "pool_ok p"
  shows "pg_Allocated (poolGauges p) + pg_Retired (poolGauges p) = int (length (pool_allocations p))"
    "pg_Available (poolGauges p) = pool_capacity p - int (length (pool_allocations p))" "0 \<le> pg_Available (poolGauges p)"
proof -
  let ?as = "map_values (pool_allocations p)"
  have sum: "length (filter (\<lambda>a. \<not> al_Tombstone a) ?as) + length (filter al_Tombstone ?as) = length (pool_allocations p)"
    using sum_length_filter_compl [of al_Tombstone ?as] by (simp add: map_values_def)
  then show "pg_Allocated (poolGauges p) + pg_Retired (poolGauges p) = int (length (pool_allocations p))"
    by (simp add: poolGauges_def Let_def flip: of_nat_add)
  have len: "int (length (pool_allocations p)) \<le> pool_capacity p" by (rule account_available(2) [OF assms])
  have cap: "0 \<le> pool_capacity p" "pool_capacity p \<le> 5000"
    using assms mult_mono [of "ps_Occupancy (np_Spec p)" 50 "ps_MaxShards (np_Spec p)" 100]
    by (auto simp: pool_ok_def pool_spec_ok_def pool_capacity_def)
  have "pg_Available (poolGauges p) =
      pool_capacity p - int (length (filter (\<lambda>a. \<not> al_Tombstone a) ?as)) - int (length (filter al_Tombstone ?as))"
    using cap len sum by (simp add: poolGauges_def Let_def pool_capacity_def [symmetric])
  then show "pg_Available (poolGauges p) = pool_capacity p - int (length (pool_allocations p))" using sum by linarith
  with len show "0 \<le> pg_Available (poolGauges p)" by simp
qed

lemma advances_account:
  assumes "np_Spec q = np_Spec p" "np_Meta q = np_Meta p"
    and "st_FrozenSpec (np_Status p) \<noteq> None \<Longrightarrow> st_FrozenSpec (np_Status q) = st_FrozenSpec (np_Status p)"
    and "\<And>uid a. map_of (pool_allocations p) uid = Some a \<Longrightarrow> \<exists>a'. map_of (pool_allocations q) uid = Some a' \<and> same_lease a a'"
    and "register_step (pool_slots p) (pool_register p) (pool_register q)"
    and "pool_ok p \<Longrightarrow> pool_ok q"
  shows "advances p (account q)"
proof -
  have reg: "pool_register (account q) = pool_register q" by (simp add: pool_register_def)
  have ok: "pool_ok (account q) \<longleftrightarrow> pool_ok q" by (rule pool_ok_cong) simp_all
  have cap: "pool_capacity p = pool_capacity q" using assms(1) by (simp add: pool_capacity_def)
  show ?thesis
    unfolding advances_def cap reg using assms ok account_available [of q] by auto
qed

lemma advances_same:
  assumes "np_Spec q = np_Spec p" "np_Meta q = np_Meta p" "pool_allocations q = pool_allocations p"
    and "st_FrozenSpec (np_Status p) \<noteq> None \<Longrightarrow> st_FrozenSpec (np_Status q) = st_FrozenSpec (np_Status p)"
  shows "advances p (account q)"
  by (rule advances_account) (use assms pool_ok_cong [of q p] in \<open>auto simp: pool_register_def register_step.keep\<close>)

text \<open>Replacing a lease by the same lease, retired or with its node port recorded.\<close>

lemma unique_update:
  assumes "wf_map m" "map_of m k = Some a" "same_lease a a'" "service_ports_unique m"
  shows "service_ports_unique (AList.update k a' m)"
  using assms(4) active_keys_update [OF assms(1,2), of "\<lambda>a. (al_ServiceUID a, al_PortName a)" a' al_Tombstone]
    same_lease_fields [OF assms(3)]
  by (simp add: service_ports_unique_def)

lemma pool_ok_update:
  assumes ok: "pool_ok p" and a: "map_of (pool_allocations p) uid = Some a" and same: "same_lease a a'"
    and q: "np_Spec q = np_Spec p" "pool_allocations q = AList.update uid a' (pool_allocations p)"
  shows "pool_ok q"
proof -
  let ?m = "pool_allocations p"
  have wf: "wf_map ?m" using ok by (simp add: pool_ok_def ledger_ok_def)
  note f = same_lease_fields [OF same]
  have ledger: "ledger_ok alloc_slot ?m" using ok by (simp add: pool_ok_def)
  have "alloc_slot ` snd ` set (AList.update uid a' ?m) = alloc_slot ` snd ` set ?m"
    by (rule ledger_ok_update(2) [OF ledger a f(1)])
  moreover have "\<forall>(u, x) \<in> set (AList.update uid a' ?m). al_Name x = leaseName u"
  proof -
    have names: "\<forall>(u, x) \<in> set ?m. al_Name x = leaseName u" using ok unfolding pool_ok_def by (elim conjE)
    then have "al_Name a' = leaseName uid" using map_of_SomeD [OF a] f(2) by auto
    with names set_AList_update [of uid a' ?m] show ?thesis by auto
  qed
  moreover have "length (AList.update uid a' ?m) = length ?m" by (simp add: length_AList_update a)
  moreover have "ledger_ok alloc_slot (AList.update uid a' ?m)"
    by (rule ledger_ok_update(1) [OF ledger a f(1)])
  moreover have "service_ports_unique (AList.update uid a' ?m)"
    using ok by (intro unique_update [OF wf a same]) (simp add: pool_ok_def)
  moreover have "pool_slots q = pool_slots p" "pool_capacity q = pool_capacity p"
    using q(1) by (simp_all add: pool_slots_def pool_capacity_def)
  ultimately show ?thesis using ok q by (simp add: pool_ok_def)
qed

lemma register_update:
  assumes a: "map_of (pool_allocations p) uid = Some a" and same: "same_lease a a'"
    and q: "pool_allocations q = AList.update uid a' (pool_allocations p)"
  shows "register_step U (pool_register p) (pool_register q)"
proof -
  have r: "pool_register p uid = Some (alloc_slot a, al_Tombstone a)" by (simp add: pool_register_def register_of_def a)
  have new: "pool_register q = (pool_register p)(uid \<mapsto> (alloc_slot a, al_Tombstone a'))"
    by (simp add: pool_register_def q register_of_update same_lease_fields(1) [OF same])
  show ?thesis
  proof (cases "al_Tombstone a'")
    case True
    with new register_step.retire [of "pool_register p" uid, OF r] show ?thesis by simp
  next
    case False
    then have "al_Tombstone a = al_Tombstone a'" using same_lease_fields(6) [OF same] by blast
    with r new have "pool_register q = pool_register p" by (simp add: fun_upd_idem)
    then show ?thesis by (simp add: register_step.keep)
  qed
qed

lemma advances_update:
  assumes a: "map_of (pool_allocations p) uid = Some a" and same: "same_lease a a'"
    and q: "np_Spec q = np_Spec p" "np_Meta q = np_Meta p" "pool_allocations q = AList.update uid a' (pool_allocations p)"
      "st_FrozenSpec (np_Status q) = st_FrozenSpec (np_Status p)"
  shows "advances p (account q)"
proof (rule advances_account [OF q(1,2,4)])
  show "\<exists>c'. map_of (pool_allocations q) u = Some c' \<and> same_lease c c'" if "map_of (pool_allocations p) u = Some c" for u c
    using that a same by (cases "u = uid") (auto simp: q(3) update_conv')
  show "register_step (pool_slots p) (pool_register p) (pool_register q)" by (rule register_update [OF a same q(3)])
  show "pool_ok p \<Longrightarrow> pool_ok q" by (rule pool_ok_update [OF _ a same q(1,3)])
qed

lemma advances_grant:
  assumes fresh: "map_of (pool_allocations p) (binding_uid b) = None" and grant: "Allocate p b u = Inr (a, p')"
    and q: "np_Spec q = np_Spec p'" "np_Meta q = np_Meta p'"
      "pool_allocations q = AList.update (binding_uid b) (a\<lparr>al_NodePort := n\<rparr>) (pool_allocations p') \<or> q = p'"
    and meta: "np_Meta p' = np_Meta p" "st_FrozenSpec (np_Status q) = st_FrozenSpec (np_Status p)"
  shows "advances p (account q)"
proof (rule advances_account)
  note s = Allocate_fresh_spec [OF fresh grant]
  obtain sh pt where "a = newAllocation b u sh pt"
    using allocateSlot_Inr [OF Allocate_fresh(1) [OF fresh grant]] by metis
  then have np: "al_NodePort a = 0" by (simp add: newAllocation_def)
  have rec: "map_of (pool_allocations p') (binding_uid b) = Some a" using s(1) fresh by (simp add: map_add_def)
  show "np_Spec q = np_Spec p" "np_Meta q = np_Meta p" "st_FrozenSpec (np_Status q) = st_FrozenSpec (np_Status p)"
    using q(1,2) s(2) meta by simp_all
  show "\<exists>c'. map_of (pool_allocations q) uid = Some c' \<and> same_lease c c'" if "map_of (pool_allocations p) uid = Some c" for uid c
  proof -
    have "uid \<noteq> binding_uid b" using that fresh by auto
    then have "map_of (pool_allocations q) uid = map_of (pool_allocations p') uid" using q(3) by (auto simp: update_conv')
    also have "\<dots> = Some c" using that s(1) \<open>uid \<noteq> binding_uid b\<close> by (simp add: map_add_def)
    finally show ?thesis by auto
  qed
  have "pool_register q = pool_register p'"
    using q(3) rec by (auto simp: pool_register_def register_of_def alloc_slot_def gomap_simps fun_eq_iff)
  then show "register_step (pool_slots p) (pool_register p) (pool_register q)"
    using pool_ledger.grant_register_step [of p "(b, u)" a p'] grant by (simp add: pool_register_def)
  show "pool_ok q" if "pool_ok p"
  proof -
    have "pool_ok p'" by (rule Allocate_pool_ok [OF that grant])
    with q(3) pool_ok_update [OF _ rec same_lease_nodeport [OF np] q(1)] show ?thesis by auto
  qed
qed

lemma put_allocation_frozen [simp]: "st_FrozenSpec (np_Status (put_allocation uid a p)) = st_FrozenSpec (np_Status p)"
  by (simp add: put_allocation_def set_allocations_def)

lemma Allocate_meta:
  assumes g: "Allocate p b u = Inr (a, p')"
  shows "np_Meta p' = np_Meta p" "st_FrozenSpec (np_Status p') = st_FrozenSpec (np_Status p)"
proof -
  have "p' = p \<or> p' = put_allocation (binding_uid b) a p"
  proof (cases "map_of (pool_allocations p) (binding_uid b)")
    case None
    show ?thesis by (rule allocateSlot_Inr [OF Allocate_fresh(1) [OF None g]]) simp
  next
    case (Some c)
    with Allocate_held [OF Some g] show ?thesis by simp
  qed
  then show "np_Meta p' = np_Meta p" "st_FrozenSpec (np_Status p') = st_FrozenSpec (np_Status p)" by auto
qed

section \<open>What may be written\<close>

fun write_ok :: "'w engine \<Rightarrow> nlb_pool \<Rightarrow> api_write \<Rightarrow> bool" where
  "write_ok E p (OciWrite m) \<longleftrightarrow>
     (\<exists>i. 0 \<le> i \<and> i < ps_MaxShards (np_Spec p) \<and> m = CreateNetworkLoadBalancer (createDetails (en_Cloud E) p i)) \<or>
     (\<exists>uid a nid. (uid, a) \<in> set (pool_allocations p) \<and> mutation_target m = Some (nid, al_Name a) \<and> provisionedShard p a = Some nid)"
| "write_ok E p (PoolStatusUpdate q) \<longleftrightarrow> advances p q"
| "write_ok E p (PoolUpdate q) \<longleftrightarrow>
     np_Meta q = with_finalizer E (np_Meta p) \<and> \<not> om_Deleting (np_Meta p) \<or>
     np_Meta q = without_finalizer E (np_Meta p) \<and> om_Deleting (np_Meta p) \<and> (\<forall>(uid, a) \<in> set (pool_allocations p). al_Tombstone a)"
| "write_ok E p (BindingUpdate b') \<longleftrightarrow>
     (\<exists>b. b' = b\<lparr>tb_Meta := with_finalizer E (tb_Meta b)\<rparr> \<and> \<not> om_Deleting (tb_Meta b)) \<or>
     (\<exists>b. b' = b\<lparr>tb_Meta := without_finalizer E (tb_Meta b)\<rparr> \<and> om_Deleting (tb_Meta b) \<and>
        (\<forall>a. map_of (pool_allocations p) (binding_uid b) = Some a \<longrightarrow> al_Tombstone a))"
| "write_ok E p (BindingStatusPatch b) \<longleftrightarrow> True"
| "write_ok E p (PoolStatusPatch q) \<longleftrightarrow> False"

fun is_patch :: "api_write \<Rightarrow> bool" where
  "is_patch (BindingStatusPatch b) = True"
| "is_patch _ = False"

text \<open>How a reconciliation may end: \<open>e\<close> is the error it returns.\<close>

fun closing :: "go_error option \<Rightarrow> api_write list \<Rightarrow> bool" where
  "closing e [] = True"
| "closing e [OciWrite m] = (e \<noteq> None)"
| "closing e [OciWrite m, PoolStatusUpdate q] = (st_PendingWork (np_Status q) \<noteq> '''')"
| "closing e [PoolStatusUpdate q] = True"
| "closing e [PoolUpdate q] = True"
| "closing e [BindingUpdate b] = True"
| "closing e ws = False"

fun shape :: "flow \<Rightarrow> api_write list \<Rightarrow> bool" where
  "shape (Return (r, e)) ws = (\<exists>pre post. ws = pre @ post \<and> list_all is_patch pre \<and> closing e post \<and> (r = RequeueLater \<longrightarrow> post = []))"
| "shape (Continue rn) ws = list_all is_patch ws"

definition empty_shard :: shard where
  "empty_shard = \<lparr>sh_ID = '''', sh_PublicIP = ''''\<rparr>"

text \<open>The pool in memory differs from the one that was read by empty shard entries only.\<close>

definition padded :: "nlb_pool \<Rightarrow> nlb_pool \<Rightarrow> bool" where
  "padded p q \<longleftrightarrow> (\<exists>k. q = set_status (\<lambda>st. st\<lparr>st_Shards := st_Shards st @ replicate k empty_shard\<rparr>) p)"

definition flow_ok :: "'w engine \<Rightarrow> nlb_pool \<Rightarrow> nat \<Rightarrow> flow \<Rightarrow> api_write list \<Rightarrow> bool" where
  "flow_ok E p n f ws \<longleftrightarrow>
     list_all (write_ok E p) ws \<and> (\<forall>rn. f = Continue rn \<longrightarrow> padded p (rn_pool rn) \<and> rn_live rn = n) \<and>
     (oci_reports (en_Cloud E) \<longrightarrow> shape f ws)"

subsection \<open>Padding\<close>

lemma padded_refl [simp]: "padded p p"
proof -
  have "p = set_status (\<lambda>st. st\<lparr>st_Shards := st_Shards st @ replicate 0 empty_shard\<rparr>) p" by (simp add: set_status_def)
  then show ?thesis unfolding padded_def by blast
qed

lemma padded_simps:
  assumes "padded p q"
  shows "np_Spec q = np_Spec p" "np_Meta q = np_Meta p" "pool_allocations q = pool_allocations p"
    "st_FrozenSpec (np_Status q) = st_FrozenSpec (np_Status p)"
  using assms by (auto simp: padded_def)

lemma shard_at_append_empty:
  "shard_at (ss @ replicate k empty_shard) i = Some s \<Longrightarrow> sh_ID s \<noteq> '''' \<Longrightarrow> shard_at ss i = Some s"
proof (cases "nat i < length ss")
  case True
  assume "shard_at (ss @ replicate k empty_shard) i = Some s"
  with True show ?thesis by (auto simp: shard_at_def nth_append split: if_splits)
next
  case False
  assume s: "shard_at (ss @ replicate k empty_shard) i = Some s" and id: "sh_ID s \<noteq> ''''"
  have "s \<in> set (replicate k empty_shard)"
    using s False by (auto simp: shard_at_def nth_append split: if_splits)
  then have "s = empty_shard" by (simp add: in_set_replicate)
  with id show ?thesis by (simp add: empty_shard_def)
qed

lemma shard_at_append: "shard_at ss i = Some s \<Longrightarrow> shard_at (ss @ ts) i = Some s"
  by (auto simp: shard_at_def nth_append split: if_splits)

lemma padded_shard:
  assumes "padded p q" "provisionedShard q a = Some nid"
  shows "provisionedShard p a = Some nid"
  using assms
  by (auto simp: padded_def provisionedShard_def split: option.splits if_splits dest: shard_at_append_empty)

lemma padded_create: "padded p q \<Longrightarrow> createDetails C q i = createDetails C p i"
  by (simp add: createDetails_def tags_def padded_simps)

lemma padded_extend:
  assumes "padded p q"
  shows "padded p (set_status (\<lambda>st. st\<lparr>st_Shards := extend_shards i (st_Shards st)\<rparr>) q)"
proof -
  obtain k where q: "q = set_status (\<lambda>st. st\<lparr>st_Shards := st_Shards st @ replicate k empty_shard\<rparr>) p"
    using assms by (auto simp: padded_def)
  let ?n = "nat (i + 1) - length (pool_shards q)"
  have "set_status (\<lambda>st. st\<lparr>st_Shards := extend_shards i (st_Shards st)\<rparr>) q =
      set_status (\<lambda>st. st\<lparr>st_Shards := st_Shards st @ replicate (k + ?n) empty_shard\<rparr>) p"
    by (simp add: q set_status_def extend_shards_def empty_shard_def replicate_add)
  then show ?thesis unfolding padded_def by blast
qed

subsection \<open>Composing flows\<close>

lemma shape_prefix: "list_all is_patch pre \<Longrightarrow> shape f ws \<Longrightarrow> shape f (pre @ ws)"
proof (cases f)
  case (Return x)
  assume pre: "list_all is_patch pre" and sh: "shape f ws"
  obtain r e where x: "x = (r, e)" by fastforce
  from sh Return x obtain p1 p2 where "ws = p1 @ p2" "list_all is_patch p1" "closing e p2" "r = RequeueLater \<longrightarrow> p2 = []" by auto
  with pre have "\<exists>a b. pre @ ws = a @ b \<and> list_all is_patch a \<and> closing e b \<and> (r = RequeueLater \<longrightarrow> b = [])"
    by (intro exI [of _ "pre @ p1"] exI [of _ p2]) simp
  with Return x show ?thesis by simp
qed auto

lemma shape_patches: "list_all is_patch ws \<Longrightarrow> shape (Return x) ws"
  by (cases x) (auto intro: exI [of _ ws])

lemma shape_closing: "closing e ws \<Longrightarrow> r \<noteq> RequeueLater \<or> ws = [] \<Longrightarrow> shape (Return (r, e)) ws"
  by (auto intro: exI [of _ "[]"])

declare shape.simps(1) [simp del]

lemma write_ok_add: "\<not> om_Deleting (tb_Meta b) \<Longrightarrow> write_ok E p (BindingUpdate (b\<lparr>tb_Meta := with_finalizer E (tb_Meta b)\<rparr>))"
  by auto

lemma write_ok_remove:
  assumes "om_Deleting (tb_Meta b)" "\<And>a. map_of (pool_allocations p) (binding_uid b) = Some a \<Longrightarrow> al_Tombstone a"
  shows "write_ok E p (BindingUpdate (b\<lparr>tb_Meta := without_finalizer E (tb_Meta b)\<rparr>))"
  using assms by auto

lemma flow_ok_append:
  assumes "flow_ok E p n (Continue rn) ws" "flow_ok E p m f ws'"
  shows "flow_ok E p m f (ws @ ws')"
  using assms by (auto simp: flow_ok_def intro: shape_prefix)

lemma flow_ok_again [simp]: "flow_ok E p n (again e) []"
  by (simp add: flow_ok_def again_def shape_closing)

lemma flow_ok_Return [simp]: "flow_ok E p n (Return x) []"
  by (cases x) (simp add: flow_ok_def shape_closing)

lemma flow_ok_Continue [simp]: "flow_ok E p n (Continue rn) [] \<longleftrightarrow> padded p (rn_pool rn) \<and> rn_live rn = n"
  by (simp add: flow_ok_def)

text \<open>A flow after an OCI mutation: either it ends with an error, or its work request was saved.\<close>

lemma flow_ok_mutation:
  assumes "write_ok E p (OciWrite m)" "flow_ok E p n f ws"
    and "oci_reports (en_Cloud E) \<Longrightarrow> shape f (OciWrite m # ws)"
  shows "flow_ok E p n f (OciWrite m # ws)"
  using assms by (simp add: flow_ok_def)

section \<open>The operations of the engine\<close>

lemma silent_readList [silent_ops]: "silent (readList f)"
  unfolding readList_def by (intro silent_ops)

lemma silent_newEndpointSnapshot [silent_ops]: "silent (newEndpointSnapshot K ns)"
  unfolding newEndpointSnapshot_def by (intro silent_ops)

lemma silent_ctxErr [silent_ops]: "silent (ctxErr E)"
  unfolding ctxErr_def by (intro silent_ops)

lemma silent_readerOn [silent_ops]: "silent (readerOn E snap)"
  unfolding readerOn_def by (intro silent_ops)

lemma silent_canRetain [silent_ops]: "silent (canRetainBackend E snap p a np hp)"
  unfolding canRetainBackend_def by (auto intro!: silent_ops split: option.split)

lemma silent_destinationConflicts [silent_ops]: "silent (destinationConflicts C p a bs)"
  by (induction bs) (auto intro!: silent_ops)

lemma emits_bindingStatus: "emits (bindingStatus E b a p problem) (\<lambda>e ws. list_all is_patch ws)"
  unfolding bindingStatus_def Let_def by (auto intro!: emits_return emits_issue)

lemma patches_ok: "list_all is_patch ws \<Longrightarrow> list_all (write_ok E p) ws"
  by (induction ws) (auto elim: is_patch.elims)

lemma emits_report:
  assumes "padded p (rn_pool rn)"
  shows "emits (reportAndContinue E rn b a problem) (flow_ok E p (rn_live rn))"
  unfolding reportAndContinue_def
proof (rule emits_bind, rule emits_mono [OF emits_bindingStatus], rule emits_return, goal_cases)
  case (1 e ws)
  with assms patches_ok shape_patches show ?case by (auto simp: flow_ok_def again_def split: option.split)
qed

lemma emits_savePool:
  "emits (savePool E q) (\<lambda>e ws. ws = [PoolStatusUpdate (account q)])"
  unfolding savePool_def by (rule emits_issue) simp

lemma emits_save:
  assumes "advances p (account q)"
  shows "emits (saveAndReturn E q) (flow_ok E p n)"
  unfolding saveAndReturn_def
  by (rule emits_bind, rule emits_mono [OF emits_savePool], rule emits_return)
     (use assms in \<open>simp add: flow_ok_def again_def shape_closing\<close>)

text \<open>The save of the work request that an OCI mutation has just returned.\<close>

lemma emits_save_work:
  assumes "advances p (account q)" "write_ok E p (OciWrite m)" "st_PendingWork (np_Status q) \<noteq> ''''"
  shows "emits (saveAndReturn E q) (\<lambda>f ws. flow_ok E p n f (OciWrite m # ws))"
  unfolding saveAndReturn_def
  by (rule emits_bind, rule emits_mono [OF emits_savePool], rule emits_return)
     (use assms in \<open>simp add: flow_ok_def again_def shape_closing\<close>)

lemma emits_updateBinding:
  assumes "write_ok E p (BindingUpdate b)"
  shows "emits (updateBinding E b) (flow_ok E p n)"
  unfolding updateBinding_def
  by (rule emits_bind, rule emits_issue, rule emits_return)
     (use assms in \<open>simp add: flow_ok_def again_def shape_closing\<close>)

definition workers_emit :: "'w engine \<Rightarrow> nlb_pool \<Rightarrow> run \<Rightarrow> run \<times> bool \<times> go_error option \<Rightarrow> api_write list \<Rightarrow> bool" where
  "workers_emit E p rn r ws \<longleftrightarrow>
     (case r of (rn', changed, e) \<Rightarrow>
        if changed then flow_ok E p (rn_live rn) (again e) ws
        else ws = [] \<and> padded p (rn_pool rn') \<and> rn_live rn' = rn_live rn)"

lemma emits_pinWorkers:
  assumes pad: "padded p (rn_pool rn)"
  shows "emits (pinWorkers E rn snap) (workers_emit E p rn)"
proof -
  have adv: "advances p (account (set_status (\<lambda>st. st\<lparr>st_Workers := ws\<rparr>) (rn_pool rn)))" for ws
    by (rule advances_same) (simp_all add: padded_simps [OF pad])
  have pin: "emits (do { e \<leftarrow> savePool E (set_status (\<lambda>st. st\<lparr>st_Workers := ws\<rparr>) (rn_pool rn));
      State_Monad.return (rn', True, e) }) (workers_emit E p rn)" for ws rn'
    by (rule emits_bind, rule emits_mono [OF emits_savePool], rule emits_return)
       (use adv in \<open>simp add: workers_emit_def flow_ok_def again_def shape_closing\<close>)
  show ?thesis
    unfolding pinWorkers_def Let_def
    by (rule emits_bind_silent [OF silent_readerOn])
       (auto simp: workers_emit_def pad intro!: emits_return pin split: prod.split)
qed

lemma emits_prepareWorkers:
  assumes pad: "padded p (rn_pool rn)"
  shows "emits (prepareWorkers E rn) (workers_emit E p rn)"
proof -
  have pin: "emits (pinWorkers E rn' snap) (workers_emit E p rn)" if "rn_pool rn' = rn_pool rn" "rn_live rn' = rn_live rn" for rn' snap
    by (rule emits_mono [OF emits_pinWorkers]) (use pad that in \<open>auto simp: workers_emit_def\<close>)
  show ?thesis
    unfolding prepareWorkers_def Let_def
    by (auto simp: workers_emit_def [of _ _ _ _ "[]"] pad pin intro!: emits_return emits_bind_silent [OF silent_newEndpointSnapshot]
        split: option.split sum.split)
qed

text \<open>Continuing after the workers were prepared.\<close>

lemma emits_after_workers:
  assumes pad: "padded p (rn_pool rn)"
    and go: "\<And>rn' err. padded p (rn_pool rn') \<Longrightarrow> rn_live rn' = rn_live rn \<Longrightarrow> emits (f rn' False err) (flow_ok E p (rn_live rn))"
    and stop: "\<And>rn' err. f rn' True err = State_Monad.return (again err)"
  shows "emits (do { (rn', changed, err) \<leftarrow> prepareWorkers E rn; f rn' changed err }) (flow_ok E p (rn_live rn))"
proof (rule emits_bind, rule emits_mono [OF emits_prepareWorkers [OF pad]], goal_cases)
  case (1 r ws)
  obtain rn' changed err where r: "r = (rn', changed, err)" using prod_cases3 by blast
  show ?case
  proof (cases changed)
    case True
    with 1 r show ?thesis by (simp add: workers_emit_def stop emits_return)
  next
    case False
    with 1 r go [of rn' err] show ?thesis by (simp add: workers_emit_def)
  qed
qed

lemma emits_grantLease:
  assumes pad: "padded p (rn_pool rn)" and fresh: "map_of (pool_allocations p) (binding_uid b) = None"
  shows "emits (grantLease E rn b svc nodePort) (flow_ok E p (rn_live rn))"
proof (cases "Allocate (rn_pool rn) b (om_UID (sv_Meta svc))")
  case (Inl e)
  then show ?thesis by (simp add: grantLease_def emits_report [OF pad])
next
  case (Inr x)
  obtain a q where x: "x = (a, q)" by fastforce
  have fresh': "map_of (pool_allocations (rn_pool rn)) (binding_uid b) = None" using fresh by (simp add: padded_simps [OF pad])
  have grant: "Allocate (rn_pool rn) b (om_UID (sv_Meta svc)) = Inr (a, q)" using Inr x by simp
  have adv: "advances (rn_pool rn) (account q')"
    if "q' = q \<or> q' = put_allocation (binding_uid b) (a\<lparr>al_NodePort := nodePort\<rparr>) q" for q'
    by (rule advances_grant [OF fresh' grant _ _ _ Allocate_meta(1) [OF grant]]) (use that Allocate_meta(2) [OF grant] in auto)
  have move: "advances p r" if "advances (rn_pool rn) r" for r
    using that unfolding advances_def pool_ok_cong [OF padded_simps(1,3) [OF pad]] pool_capacity_def pool_register_def pool_slots_def
      padded_simps [OF pad] .
  show ?thesis
    using Inr x by (auto simp: grantLease_def intro!: emits_save move adv)
qed

lemma emits_admitBinding:
  assumes pad: "padded p (rn_pool rn)" and fresh: "map_of (pool_allocations p) (binding_uid b) = None"
  shows "emits (admitBinding E rn b) (flow_ok E p (rn_live rn))"
proof -
  have cluster: "emits (do { (rn', changed, err) \<leftarrow> prepareWorkers E rn;
      if changed then State_Monad.return (again err)
      else (case err of Some e \<Rightarrow> reportAndContinue E rn' b None (Some e)
            | None \<Rightarrow> (if rn_workers rn' = []
                then reportAndContinue E rn' b None (Some (Errorf ''no verified workers; allocation deferred''))
                else grantLease E rn' b svc nodePort)) }) (flow_ok E p (rn_live rn))" for svc nodePort
  proof (rule emits_after_workers [OF pad])
    fix rn' :: run and err assume "padded p (rn_pool rn')" "rn_live rn' = rn_live rn"
    then show "emits (if False then State_Monad.return (again err)
        else (case err of Some e \<Rightarrow> reportAndContinue E rn' b None (Some e)
            | None \<Rightarrow> (if rn_workers rn' = []
                then reportAndContinue E rn' b None (Some (Errorf ''no verified workers; allocation deferred''))
                else grantLease E rn' b svc nodePort))) (flow_ok E p (rn_live rn))"
      using emits_report [of p rn'] emits_grantLease [OF _ fresh, of rn'] by (auto split: option.split)
  qed simp
  show ?thesis
    unfolding admitBinding_def
    by (rule emits_bind_silent [OF silent_call])
       (auto simp: emits_report [OF pad] emits_grantLease [OF pad fresh] cluster split: sum.split)
qed

lemma emits_newBinding:
  assumes pad: "padded p (rn_pool rn)" and fresh: "map_of (pool_allocations p) (binding_uid b) = None"
  shows "emits (newBinding E rn b) (flow_ok E p (rn_live rn))"
proof -
  have "emits (updateBinding E (b\<lparr>tb_Meta := without_finalizer E (tb_Meta b)\<rparr>)) (flow_ok E p (rn_live rn))" if "om_Deleting (tb_Meta b)"
    by (rule emits_updateBinding [OF write_ok_remove [OF that]]) (simp add: fresh)
  then show ?thesis
    unfolding newBinding_def using pad
    by (simp add: emits_report [OF pad] emits_admitBinding [OF pad fresh] emits_updateBinding [OF write_ok_add]
        emits_return del: write_ok.simps)
qed

subsection \<open>Leased bindings\<close>

lemma step_emits_cases:
  assumes "step_emits C p a r ws"
  obtains (nothing) "ws = []" "\<forall>work. r = Inr work \<longrightarrow> work = ''''"
    | (mutated) m nid where "ws = [OciWrite m]" "mutation_target m = Some (nid, al_Name a)" "provisionedShard p a = Some nid"
      "oci_reports C \<Longrightarrow> (case r of Inl e \<Rightarrow> \<not> as_capacity e | Inr work \<Rightarrow> work \<noteq> '''')"
  using assms by (auto simp: step_emits_def)

lemma leased_mutation:
  assumes "padded p q" "(uid, a) \<in> set (pool_allocations p)" "mutation_target m = Some (nid, al_Name a)" "provisionedShard q a = Some nid"
  shows "write_ok E p (OciWrite m)"
  using assms padded_shard [OF assms(1,4)] by auto

lemma advances_pending:
  assumes "padded p q"
  shows "advances p (account (set_status (\<lambda>st. st\<lparr>st_PendingWork := work\<rparr>) q))"
  by (rule advances_same) (simp_all add: padded_simps [OF assms])

lemma advances_put:
  assumes "padded p q" "map_of (pool_allocations p) uid = Some a" "same_lease a a'"
  shows "advances p (account (put_allocation uid a' q))"
  by (rule advances_update [OF assms(2,3)]) (simp_all add: padded_simps [OF assms(1)])

text \<open>
  A step followed by what the engine does with its answer: \<open>fail\<close> for an error, a save for a work request,
  \<open>go\<close> when nothing had to be changed.
\<close>

lemma emits_step:
  assumes pad: "padded p q" and lease: "(uid, a) \<in> set (pool_allocations p)"
    and fail: "\<And>e. emits (fail e) (flow_ok E p n)"
    and stop: "\<And>e. \<not> as_capacity e \<Longrightarrow> fail e = State_Monad.return (again (Some e))"
    and go: "emits go (flow_ok E p n)"
  shows "emits (do {
      r \<leftarrow> StepBackends (en_Cloud E) q a backends hp remove;
      case r of Inl e \<Rightarrow> fail e
      | Inr work \<Rightarrow> (if work \<noteq> '''' then saveAndReturn E (set_status (\<lambda>st. st\<lparr>st_PendingWork := work\<rparr>) q) else go)
    }) (flow_ok E p n)"
proof (rule emits_bind, rule emits_mono [OF emits_StepBackends], goal_cases)
  case (1 r ws)
  then show ?case
  proof (cases rule: step_emits_cases)
    case nothing
    then show ?thesis using fail go by (cases r) auto
  next
    case (mutated m nid)
    have ok: "write_ok E p (OciWrite m)" by (rule leased_mutation [OF pad lease mutated(2,3)])
    have vac: "emits x (\<lambda>f ws. flow_ok E p n f (OciWrite m # ws))" if "\<not> oci_reports (en_Cloud E)" "emits x (flow_ok E p n)" for x
      by (rule emits_mono [OF that(2)]) (use ok that(1) in \<open>simp add: flow_ok_def\<close>)
    show ?thesis
    proof (cases r)
      case (Inl e)
      have "emits (fail e) (\<lambda>f ws. flow_ok E p n f (OciWrite m # ws))"
      proof (cases "oci_reports (en_Cloud E)")
        case True
        then have "\<not> as_capacity e" using mutated(4) Inl by simp
        from stop [OF this] show ?thesis
          using ok by (auto simp: flow_ok_def again_def intro!: emits_return shape_closing)
      qed (use vac fail in blast)
      then show ?thesis using Inl mutated(1) by simp
    next
      case (Inr work)
      have "emits (if work \<noteq> '''' then saveAndReturn E (set_status (\<lambda>st. st\<lparr>st_PendingWork := work\<rparr>) q) else go)
          (\<lambda>f ws. flow_ok E p n f (OciWrite m # ws))"
      proof (cases "work = ''''")
        case True
        then have "\<not> oci_reports (en_Cloud E)" using mutated(4) Inr by auto
        with vac go True show ?thesis by simp
      next
        case False
        then show ?thesis using emits_save_work [OF advances_pending [OF pad] ok] by simp
      qed
      then show ?thesis using Inr mutated(1) by simp
    qed
  qed
qed

lemma emits_applyBackends:
  assumes pad: "padded p (rn_pool rn)" and lease: "map_of (pool_allocations p) (binding_uid b) = Some a"
  shows "emits (applyBackends E rn b a backends hp problem) (flow_ok E p (rn_live rn))"
  unfolding applyBackends_def
  by (rule emits_step [OF pad map_of_SomeD [OF lease]])
     (auto simp: emits_report [OF pad] intro!: emits_return emits_save advances_put [OF pad lease same_lease_tombstone])

lemma emits_checkConflicts:
  assumes pad: "padded p (rn_pool rn)" and lease: "map_of (pool_allocations p) (binding_uid b) = Some a"
  shows "emits (checkConflicts E rn b a backends hp problem) (flow_ok E p (rn_live rn))"
  unfolding checkConflicts_def
  by (auto simp: emits_applyBackends [OF pad lease] intro!: emits_bind_silent [OF silent_destinationConflicts] emits_return
      split: sum.split bool.split)

lemma emits_holdOrApply:
  assumes pad: "padded p (rn_pool rn)" and lease: "map_of (pool_allocations p) (binding_uid b) = Some a"
  shows "emits (holdOrApply E rn b a backends hp problem) (flow_ok E p (rn_live rn))"
  unfolding holdOrApply_def
  by (auto simp: emits_checkConflicts [OF pad lease] emits_report [OF pad] intro!: emits_bind_silent [OF silent_canRetain] emits_return
      split: option.split sum.split bool.split)

definition early_ok :: "'w engine \<Rightarrow> nlb_pool \<Rightarrow> nat \<Rightarrow> flow + 'x \<Rightarrow> api_write list \<Rightarrow> bool" where
  "early_ok E p n d ws \<longleftrightarrow> (case d of Inl f \<Rightarrow> flow_ok E p n f ws | Inr _ \<Rightarrow> ws = [])"

lemma emits_migrateLegacy:
  assumes pad: "padded p (rn_pool rn)" and lease: "map_of (pool_allocations p) (binding_uid b) = Some a"
  shows "emits (migrateLegacy E rn R b a) (early_ok E p n)"
proof -
  have save: "emits (do { f \<leftarrow> saveAndReturn E (put_allocation (binding_uid b) (a\<lparr>al_NodePort := k\<rparr>) (rn_pool rn));
      State_Monad.return (Inl f) }) (early_ok E p n)" if "al_NodePort a = 0" for k
  proof -
    have "emits (saveAndReturn E (put_allocation (binding_uid b) (a\<lparr>al_NodePort := k\<rparr>) (rn_pool rn))) (flow_ok E p n)"
      by (rule emits_save [OF advances_put [OF pad lease same_lease_nodeport [OF that]]])
    then show ?thesis by (intro emits_bind) (erule emits_mono, auto intro!: emits_return simp: early_ok_def)
  qed
  have leave: "emits (State_Monad.return x) (early_ok E p n)" if "x = Inr y \<or> x = Inl (again z)" for x y z
    using that by (auto intro!: emits_return simp: early_ok_def)
  show ?thesis
    unfolding migrateLegacy_def
    by (auto intro!: emits_bind_silent [OF silent_verifyLegacy] save leave split: sum.split bool.split)
qed

lemma emits_resolveTargets:
  assumes pad: "padded p (rn_pool rn)" and lease: "map_of (pool_allocations p) (binding_uid b) = Some a"
  shows "emits (resolveTargets E rn R b a) (early_ok E p n)"
proof -
  have cont: "emits (State_Monad.return (case m of Inl f \<Rightarrow> Inl f | Inr (Some e) \<Rightarrow> Inr ([], Some e) | Inr None \<Rightarrow> Inr x))
      (\<lambda>r ws'. early_ok E p n r (ws @ ws'))" if "early_ok E p n m ws" for m ws and x :: "backend list \<times> go_error option"
    using that by (auto intro!: emits_return simp: early_ok_def split: sum.splits option.split)
  have plain: "emits (State_Monad.return (case Resolve (en_Lib E) R b a of Inl e \<Rightarrow> Inr ([], Some e) | Inr bk \<Rightarrow> Inr ([bk], None)))
      (early_ok E p n)"
    by (auto intro!: emits_return simp: early_ok_def split: sum.split)
  show ?thesis
    unfolding resolveTargets_def
    by (auto intro!: emits_bind emits_mono [OF emits_migrateLegacy [OF pad lease]] cont plain)
qed

lemma emits_desiredBackends:
  assumes pad: "padded p (rn_pool rn)" and lease: "map_of (pool_allocations p) (binding_uid b) = Some a"
  shows "emits (desiredBackends E rn b a) (early_ok E p n)"
proof -
  have now: "emits (State_Monad.return (Inr x)) (early_ok E p n)" "emits (State_Monad.return (Inl (again z))) (early_ok E p n)" for x z
    by (auto intro!: emits_return simp: early_ok_def)
  have cont: "emits (State_Monad.return (case t of Inl f \<Rightarrow> Inl f | Inr (backends, problem) \<Rightarrow>
        (if optional_as as_endpoint_read problem then Inl (again problem) else Inr (backends, problem))))
      (\<lambda>r ws'. early_ok E p n r (ws @ ws'))" if "early_ok E p n t ws" for t ws
    using that by (auto intro!: emits_return simp: early_ok_def split: sum.splits)
  have go: "emits (do { t \<leftarrow> resolveTargets E rn R b a; State_Monad.return (case t of Inl f \<Rightarrow> Inl f | Inr (backends, problem) \<Rightarrow>
        (if optional_as as_endpoint_read problem then Inl (again problem) else Inr (backends, problem))) }) (early_ok E p n)" for R
    by (rule emits_bind, rule emits_mono [OF emits_resolveTargets [OF pad lease]], rule cont)
  show ?thesis
    unfolding desiredBackends_def
    by (auto intro!: emits_bind_silent [OF silent_readerOn] go now split: option.split)
qed

lemma emits_configureBinding:
  assumes pad: "padded p (rn_pool rn)" and lease: "map_of (pool_allocations p) (binding_uid b) = Some a"
  shows "emits (configureBinding E rn b a) (flow_ok E p (rn_live rn))"
proof -
  have rest: "emits (do { cancelled \<leftarrow> ctxErr E; case cancelled of Some e \<Rightarrow> State_Monad.return (again (Some e)) | None \<Rightarrow>
      (if bs_HealthPort (tb_Spec b) < 1 \<or> 65535 < bs_HealthPort (tb_Spec b)
       then holdOrApply E rn b a [] 9 (Some (Errorf ''invalid healthPort''))
       else holdOrApply E rn b a backends (bs_HealthPort (tb_Spec b)) problem) }) (flow_ok E p (rn_live rn))" for backends problem
    by (rule emits_bind_silent [OF silent_ctxErr])
       (auto simp: emits_holdOrApply [OF pad lease] intro!: emits_return split: option.split)
  have desired: "emits (desiredBackends E rn b a) (early_ok E p (rn_live rn))" by (rule emits_desiredBackends [OF pad lease])
  show ?thesis
    unfolding configureBinding_def
  proof (rule emits_bind, rule emits_mono [OF desired], goal_cases)
    case (1 d ws)
    show ?case
    proof (cases d)
      case (Inl f)
      with 1 show ?thesis by (auto simp: early_ok_def intro!: emits_return)
    next
      case (Inr x)
      obtain backends problem where "x = (backends, problem)" by fastforce
      with 1 Inr rest [of backends problem] show ?thesis by (simp add: early_ok_def)
    qed
  qed
qed

lemma shard_emits_cases:
  assumes "shard_emits C p i r ws"
  obtains (nothing) "ws = []"
    | (created) "ws = [OciWrite (CreateNetworkLoadBalancer (createDetails C p i))]" "0 \<le> i" "i < ps_MaxShards (np_Spec p)"
      "oci_reports C \<Longrightarrow> (\<forall>s work. r = Inr (s, work) \<longrightarrow> work \<noteq> '''')"
  using assms by (auto simp: shard_emits_def)

lemma advances_record:
  assumes "padded p q"
  shows "advances p (account (recordShard i s work q))"
  by (rule advances_same) (simp_all add: recordShard_def padded_simps [OF assms])

text \<open>Making sure of a shard, then going on with the pool in memory padded to its index.\<close>

lemma emits_ensure:
  assumes pad: "padded p q"
    and go: "\<And>q'. padded p q' \<Longrightarrow> emits (go q') (flow_ok E p n)"
  shows "emits (do {
      r \<leftarrow> EnsureShard (en_Cloud E) q i;
      case r of Inl e \<Rightarrow> State_Monad.return (again (Some e))
      | Inr (s, work) \<Rightarrow>
          (let q' = set_status (\<lambda>st. st\<lparr>st_Shards := extend_shards i (st_Shards st)\<rparr>) q
           in if shard_at (pool_shards q') i \<noteq> Some s \<or> work \<noteq> '''' then saveAndReturn E (recordShard i s work q') else go q')
    }) (flow_ok E p n)"
  unfolding Let_def
proof (rule emits_bind, rule emits_mono [OF emits_EnsureShard], goal_cases)
  case (1 r ws)
  let ?q = "set_status (\<lambda>st. st\<lparr>st_Shards := extend_shards i (st_Shards st)\<rparr>) q"
  have pad': "padded p ?q" by (rule padded_extend [OF pad])
  let ?m = "CreateNetworkLoadBalancer (createDetails (en_Cloud E) q i)"
  let ?next = "case r of Inl e \<Rightarrow> State_Monad.return (again (Some e)) | Inr (s, work) \<Rightarrow>
      (if shard_at (pool_shards ?q) i \<noteq> Some s \<or> work \<noteq> '''' then saveAndReturn E (recordShard i s work ?q) else go ?q)"
  have plain: "emits ?next (flow_ok E p n)"
    using go [OF pad'] by (auto intro!: emits_return emits_save advances_record [OF pad'] split: sum.split)
  from 1 show ?case
  proof (cases rule: shard_emits_cases)
    case nothing
    with plain show ?thesis by simp
  next
    case created
    have ok: "write_ok E p (OciWrite ?m)" using created(2,3) padded_simps(1) [OF pad] by (auto simp: padded_create [OF pad])
    have "emits ?next (\<lambda>f ws. flow_ok E p n f (OciWrite ?m # ws))"
    proof (cases "oci_reports (en_Cloud E)")
      case False
      then show ?thesis by (intro emits_mono [OF plain]) (use ok in \<open>simp add: flow_ok_def del: write_ok.simps\<close>)
    next
      case True
      show ?thesis
      proof (cases r)
        case (Inl e)
        then show ?thesis using ok by (auto simp: flow_ok_def again_def simp del: write_ok.simps intro!: emits_return shape_closing)
      next
        case (Inr x)
        obtain s work where x: "x = (s, work)" by fastforce
        then have "work \<noteq> ''''" using created(4) [OF True] Inr by simp
        with Inr x emits_save_work [OF advances_record [OF pad'] ok] show ?thesis by (simp add: recordShard_def)
      qed
    qed
    then show ?thesis using created(1) by simp
  qed
qed

lemma emits_provisionBinding:
  assumes pad: "padded p (rn_pool rn)" and lease: "map_of (pool_allocations p) (binding_uid b) = Some a"
  shows "emits (provisionBinding E rn b a) (flow_ok E p (rn_live rn))"
  unfolding provisionBinding_def
proof (rule emits_ensure [OF pad])
  fix q assume "padded p q"
  then show "emits (configureBinding E (rn\<lparr>rn_pool := q\<rparr>) b a) (flow_ok E p (rn_live rn))"
    using emits_configureBinding [of p "rn\<lparr>rn_pool := q\<rparr>" b a] lease by simp
qed

lemma emits_checkLegacy:
  assumes pad: "padded p (rn_pool rn)" and lease: "map_of (pool_allocations p) (binding_uid b) = Some a"
  shows "emits (checkLegacy E rn b a) (flow_ok E p (rn_live rn))"
  unfolding checkLegacy_def
  by (auto simp: emits_provisionBinding [OF pad lease] emits_report [OF pad] intro!: emits_return split: sum.split bool.split)

lemma emits_observeWorkers:
  assumes pad: "padded p (rn_pool rn)" and lease: "map_of (pool_allocations p) (binding_uid b) = Some a"
  shows "emits (observeWorkers E rn b a) (flow_ok E p (rn_live rn))"
proof -
  have "emits (do { (rn', changed, err) \<leftarrow> prepareWorkers E rn;
      if changed \<or> optional_as as_endpoint_read err then State_Monad.return (again err) else checkLegacy E rn' b a })
      (flow_ok E p (rn_live rn))"
  proof (rule emits_after_workers [OF pad])
    fix rn' :: run and err assume "padded p (rn_pool rn')" "rn_live rn' = rn_live rn"
    then show "emits (if False \<or> optional_as as_endpoint_read err then State_Monad.return (again err) else checkLegacy E rn' b a)
        (flow_ok E p (rn_live rn))"
      using emits_checkLegacy [OF _ lease, of rn'] by (auto intro!: emits_return)
  qed simp
  then show ?thesis unfolding observeWorkers_def using emits_checkLegacy [OF pad lease, of E] by simp
qed

lemma emits_leasedBinding:
  assumes pad: "padded p (rn_pool rn)" and lease: "map_of (pool_allocations p) (binding_uid b) = Some a"
  shows "emits (leasedBinding E rn b a) (flow_ok E p (rn_live rn))"
proof -
  have gone: "emits (updateBinding E (b\<lparr>tb_Meta := without_finalizer E (tb_Meta b)\<rparr>)) (flow_ok E p (rn_live rn))"
    if "om_Deleting (tb_Meta b)" "al_Tombstone a"
    by (rule emits_updateBinding [OF write_ok_remove [OF that(1)]]) (use lease that(2) in simp)
  have look: "emits (do { r \<leftarrow> newEndpointSnapshot (en_Kube E) (om_Namespace (np_Meta (rn_pool rn)));
      case r of Inl e \<Rightarrow> State_Monad.return (again (Some e))
      | Inr snap \<Rightarrow> observeWorkers E (rn\<lparr>rn_reader := Some snap\<rparr>) b a }) (flow_ok E p (rn_live rn))"
  proof (rule emits_bind_silent [OF silent_newEndpointSnapshot])
    fix r
    show "emits (case r of Inl e \<Rightarrow> State_Monad.return (again (Some e)) | Inr snap \<Rightarrow> observeWorkers E (rn\<lparr>rn_reader := Some snap\<rparr>) b a)
        (flow_ok E p (rn_live rn))"
      using emits_observeWorkers [OF _ lease, of "rn\<lparr>rn_reader := Some (projr r)\<rparr>"] pad
      by (cases r) (auto intro!: emits_return)
  qed
  show ?thesis
    unfolding leasedBinding_def using pad
    by (simp add: gone look emits_observeWorkers [OF pad lease] emits_updateBinding [OF write_ok_add] emits_return del: write_ok.simps)
qed

subsection \<open>The pool\<close>

lemma emits_reconcileBinding:
  assumes pad: "padded p (rn_pool rn)"
  shows "emits (reconcileBinding E rn b) (flow_ok E p
    (if map_of (pool_allocations p) (binding_uid b) = None \<and> bs_Pool (tb_Spec b) \<noteq> om_Name (np_Meta p) then rn_live rn else Suc (rn_live rn)))"
proof -
  let ?rn = "rn\<lparr>rn_live := Suc (rn_live rn)\<rparr>"
  have pad': "padded p (rn_pool ?rn)" using pad by simp
  show ?thesis
    using emits_newBinding [OF pad', of b E] emits_leasedBinding [OF pad', of b _ E] pad
    by (auto simp: reconcileBinding_def padded_simps [OF pad] intro!: emits_return split: option.split)
qed

lemma emits_reconcileBindings:
  assumes "padded p (rn_pool rn)"
  shows "emits (reconcileBindings E bs rn) (\<lambda>f ws. \<exists>m. flow_ok E p m f ws \<and> rn_live rn \<le> m \<and>
    (\<forall>rn'. f = Continue rn' \<longrightarrow> m = rn_live rn \<longrightarrow> (\<forall>b \<in> set bs. map_of (pool_allocations p) (binding_uid b) = None)))"
    (is "emits _ (?R bs rn)")
  using assms
proof (induction bs arbitrary: rn)
  case Nil
  then show ?case by (auto intro!: emits_return exI [of _ "rn_live rn"])
next
  case (Cons b bs)
  let ?n = "if map_of (pool_allocations p) (binding_uid b) = None \<and> bs_Pool (tb_Spec b) \<noteq> om_Name (np_Meta p) then rn_live rn else Suc (rn_live rn)"
  show ?case
    unfolding reconcileBindings.simps
  proof (rule emits_bind, rule emits_mono [OF emits_reconcileBinding [OF Cons.prems]], goal_cases)
    case (1 f ws)
    show ?case
    proof (cases f)
      case (Return x)
      with 1 show ?thesis by (auto intro!: emits_return exI [of _ ?n])
    next
      case (Continue rn')
      then have rn': "padded p (rn_pool rn')" "rn_live rn' = ?n" using 1 by (auto simp: flow_ok_def)
      have "emits (reconcileBindings E bs rn') (\<lambda>r ws'. ?R (b # bs) rn r (ws @ ws'))"
      proof (rule emits_mono [OF Cons.IH [OF rn'(1)]], goal_cases)
        case (1 g ws')
        then obtain m where m: "flow_ok E p m g ws'" "rn_live rn' \<le> m"
          "\<forall>rn''. g = Continue rn'' \<longrightarrow> m = rn_live rn' \<longrightarrow> (\<forall>b \<in> set bs. map_of (pool_allocations p) (binding_uid b) = None)"
          by blast
        have "flow_ok E p m g (ws @ ws')"
          by (rule flow_ok_append [OF _ m(1)]) (use Continue \<open>flow_ok E p ?n f ws\<close> in simp)
        moreover have "m = rn_live rn \<Longrightarrow> ?n = rn_live rn" using m(2) rn'(2) by (auto split: if_splits)
        ultimately show ?case using m(2,3) rn'(2) by (intro exI [of _ m]) (auto split: if_splits)
      qed
      then show ?thesis using Continue by simp
    qed
  qed
qed

lemma emits_removeObjects:
  assumes pad: "padded p q" and lease: "(uid, a) \<in> set (pool_allocations p)" and go: "emits go (flow_ok E p n)"
  shows "emits (removeObjects E q a go) (flow_ok E p n)"
  unfolding removeObjects_def Step_def option.case
  by (rule emits_step [OF pad lease _ _ go]) (simp_all add: emits_return)

lemma emits_retireOrphan:
  assumes pad: "padded p q" and wf: "wf_map (pool_allocations p)" and lease: "(uid, a) \<in> set (pool_allocations p)"
  shows "emits (retireOrphan E q uid a) (flow_ok E p n)"
proof -
  have a: "map_of (pool_allocations p) uid = Some a" using wf lease by (simp add: wf_map_map_of)
  have "emits (saveAndReturn E (put_allocation uid (a\<lparr>al_Tombstone := True\<rparr>) q)) (flow_ok E p n)"
    by (rule emits_save [OF advances_put [OF pad a same_lease_tombstone]])
  then show ?thesis
    unfolding retireOrphan_def Let_def
    by (auto intro!: emits_return emits_removeObjects [OF pad lease] split: sum.split bool.split)
qed

lemma emits_quarantine:
  assumes pad: "padded p q" and go: "emits go (flow_ok E p n)" and sub: "\<forall>a \<in> set as. \<exists>uid. (uid, a) \<in> set (pool_allocations p)"
  shows "emits (quarantineTombstones E q as go) (flow_ok E p n)"
  using sub
proof (induction as)
  case (Cons a as)
  then obtain uid where lease: "(uid, a) \<in> set (pool_allocations p)" and IH: "emits (quarantineTombstones E q as go) (flow_ok E p n)"
    by auto
  show ?case
    by (auto simp: IH intro!: emits_return emits_removeObjects [OF pad lease] split: sum.split bool.split)
qed (simp add: go)

lemma emits_finishPool:
  assumes pad: "padded p (rn_pool rn)"
    and gone: "rn_live rn = 0 \<Longrightarrow> \<forall>(uid, a) \<in> set (pool_allocations p). al_Tombstone a"
  shows "emits (finishPool E rn) (flow_ok E p n)"
proof -
  have "write_ok E p (PoolUpdate ((rn_pool rn)\<lparr>np_Meta := without_finalizer E (np_Meta (rn_pool rn))\<rparr>))"
    if "om_Deleting (np_Meta (rn_pool rn))" "rn_live rn = 0"
    using that gone padded_simps(2) [OF pad] by simp
  then show ?thesis
    unfolding finishPool_def Let_def
    by (auto simp: flow_ok_def shape_closing simp del: write_ok.simps intro!: emits_bind emits_issue emits_return)
qed

lemma emits_sweepLedger:
  assumes pad: "padded p (rn_pool rn)" and wf: "wf_map (pool_allocations p)"
    and live: "rn_live rn = 0 \<Longrightarrow> \<forall>b \<in> set bindings. map_of (pool_allocations p) (binding_uid b) = None"
  shows "emits (sweepLedger E bindings rn) (flow_ok E p n)"
proof (cases "find (\<lambda>(uid, a). uid \<notin> set (map binding_uid bindings) \<and> \<not> al_Tombstone a) (pool_allocations (rn_pool rn))")
  case (Some x)
  obtain uid a where x: "x = (uid, a)" by fastforce
  have "x \<in> set (pool_allocations (rn_pool rn))" using find_Some_iff_first [OF Some] by simp
  then have "(uid, a) \<in> set (pool_allocations p)" using x by (simp add: padded_simps [OF pad])
  then show ?thesis using Some x emits_retireOrphan [OF pad wf] by (simp add: sweepLedger_def)
next
  case None
  have "\<forall>(uid, a) \<in> set (pool_allocations p). al_Tombstone a" if "rn_live rn = 0"
  proof clarify
    fix uid a assume m: "(uid, a) \<in> set (pool_allocations p)"
    then have "map_of (pool_allocations p) uid = Some a" using wf by (simp add: wf_map_map_of)
    then have "uid \<notin> set (map binding_uid bindings)" using live [OF that] by auto
    then show "al_Tombstone a" using None m by (auto simp: find_None_iff padded_simps [OF pad])
  qed
  then have fin: "emits (finishPool E rn) (flow_ok E p n)" by (rule emits_finishPool [OF pad])
  have "emits (quarantineTombstones E (rn_pool rn) (map_values (pool_allocations (rn_pool rn))) (finishPool E rn)) (flow_ok E p n)"
    by (rule emits_quarantine [OF pad fin]) (auto simp: map_values_def padded_simps [OF pad])
  then show ?thesis using None by (simp add: sweepLedger_def)
qed

lemma flow_ok_ended: "flow_ok E p m (Return x) ws \<Longrightarrow> flow_ok E p n (Return x) ws"
  by (simp add: flow_ok_def)

lemma emits_reconcileLeases:
  assumes pad: "padded p q" and wf: "wf_map (pool_allocations p)"
  shows "emits (reconcileLeases E q) (flow_ok E p n)"
  unfolding reconcileLeases_def
proof (rule emits_bind_silent [OF silent_call])
  fix r :: "go_error + tunnel_binding list"
  show "emits (case r of Inl e \<Rightarrow> State_Monad.return (again (Some e)) | Inr items \<Rightarrow> do {
      let bindings = sort_key (\<lambda>b. om_Name (tb_Meta b)) items;
      f \<leftarrow> reconcileBindings E bindings \<lparr>rn_pool = q, rn_reader = None, rn_workers = [], rn_problem = None, rn_read = False, rn_live = 0\<rparr>;
      case f of Return x \<Rightarrow> State_Monad.return (Return x) | Continue rn \<Rightarrow> sweepLedger E bindings rn }) (flow_ok E p n)"
  proof (cases r)
    case (Inl e)
    then show ?thesis by (auto intro!: emits_return)
  next
    case (Inr items)
    let ?bs = "sort_key (\<lambda>b. om_Name (tb_Meta b)) items"
    let ?rn = "\<lparr>rn_pool = q, rn_reader = None, rn_workers = [], rn_problem = None, rn_read = False, rn_live = 0\<rparr>"
    have pad': "padded p (rn_pool ?rn)" using pad by simp
    have "emits (do { f \<leftarrow> reconcileBindings E ?bs ?rn;
        case f of Return x \<Rightarrow> State_Monad.return (Return x) | Continue rn \<Rightarrow> sweepLedger E ?bs rn }) (flow_ok E p n)"
    proof (rule emits_bind, rule emits_mono [OF emits_reconcileBindings [OF pad']], goal_cases)
      case (1 f ws)
      then obtain m where m: "flow_ok E p m f ws"
        "\<forall>rn'. f = Continue rn' \<longrightarrow> m = 0 \<longrightarrow> (\<forall>b \<in> set ?bs. map_of (pool_allocations p) (binding_uid b) = None)"
        by auto
      show ?case
      proof (cases f)
        case (Return x)
        with flow_ok_ended [of E p m x ws n] m(1) show ?thesis by (auto intro!: emits_return)
      next
        case (Continue rn)
        then have rn: "padded p (rn_pool rn)" "rn_live rn = m" using m(1) by (auto simp: flow_ok_def)
        have "emits (sweepLedger E ?bs rn) (flow_ok E p n)"
          by (rule emits_sweepLedger [OF rn(1) wf]) (use m(2) Continue rn(2) in auto)
        then have "emits (sweepLedger E ?bs rn) (\<lambda>r ws'. flow_ok E p n r (ws @ ws'))"
          by (rule emits_mono) (use flow_ok_append [of E p m rn ws n] m(1) Continue in blast)
        with Continue show ?thesis by simp
      qed
    qed
    with Inr show ?thesis by (simp add: Let_def)
  qed
qed


section \<open>The whole reconciliation\<close>

lemma emits_provisionEmpty:
  assumes wf: "wf_map (pool_allocations p)"
  shows "emits (provisionEmpty E p) (flow_ok E p n)"
proof -
  have plain: "emits (reconcileLeases E p) (flow_ok E p n)" by (rule emits_reconcileLeases [OF padded_refl wf])
  show ?thesis
    unfolding provisionEmpty_def
    by (rule emits_if [OF emits_ensure [OF padded_refl emits_reconcileLeases [OF _ wf]] plain])
qed

lemma emits_finishWork:
  "emits (finishWork E p) (\<lambda>f ws. flow_ok E p n f ws \<and> oci_writes ws = [])"
proof -
  let ?q = "set_status (\<lambda>st. st\<lparr>st_PendingWork := ''''\<rparr>) p"
  have "emits (do { save \<leftarrow> savePool E ?q; State_Monad.return (again (case save of Some x \<Rightarrow> Some x | None \<Rightarrow> e)) })
      (\<lambda>f ws. flow_ok E p n f ws \<and> oci_writes ws = [])" for e
    by (rule emits_bind, rule emits_mono [OF emits_savePool], rule emits_return)
       (use advances_pending [OF padded_refl] in \<open>simp add: flow_ok_def again_def shape_closing\<close>)
  then show ?thesis
    unfolding finishWork_def
    by (intro emits_bind_silent [OF silent_Work]) (auto intro!: emits_return split: prod.split)
qed

text \<open>
  What the reconciliation of the pool \<open>p\<close> may do.  Beyond \<^const>\<open>flow_ok\<close>: it is silent towards OCI while
  a work request is pending or before the specification is frozen, and it never saves a ledger under
  another specification than the frozen one.
\<close>

definition pool_flow :: "'w engine \<Rightarrow> nlb_pool \<Rightarrow> flow \<Rightarrow> api_write list \<Rightarrow> bool" where
  "pool_flow E p f ws \<longleftrightarrow>
     flow_ok E p 0 f ws \<and>
     (oci_writes ws \<noteq> [] \<longrightarrow> st_PendingWork (np_Status p) = '''' \<and> st_FrozenSpec (np_Status p) = Some (np_Spec p)) \<and>
     (ws \<noteq> [] \<longrightarrow> ValidatePool (np_Spec p) = None \<and>
        (st_FrozenSpec (np_Status p) = None \<or> st_FrozenSpec (np_Status p) = Some (np_Spec p))) \<and>
     (\<forall>q. PoolStatusUpdate q \<in> set ws \<longrightarrow> st_FrozenSpec (np_Status q) = Some (np_Spec p) \<and>
        (st_FrozenSpec (np_Status p) = None \<longrightarrow> pool_allocations q = pool_allocations p))"

lemma pool_flow_again [simp]: "pool_flow E p (again e) []" "pool_flow E p (Return x) []"
  by (simp_all add: pool_flow_def)

lemma pool_flow_frozen:
  assumes "flow_ok E p 0 f ws" "ValidatePool (np_Spec p) = None" "st_FrozenSpec (np_Status p) = Some (np_Spec p)"
    "oci_writes ws \<noteq> [] \<Longrightarrow> st_PendingWork (np_Status p) = ''''"
  shows "pool_flow E p f ws"
proof -
  have "advances p q" if "PoolStatusUpdate q \<in> set ws" for q
    using that assms(1) by (auto simp: flow_ok_def list_all_iff)
  with assms show ?thesis by (auto simp: pool_flow_def advances_def)
qed

lemma pool_flow_write: "pool_flow E p f ws \<Longrightarrow> e \<in> set ws \<Longrightarrow> write_ok E p e"
  by (simp add: pool_flow_def flow_ok_def list_all_iff)

lemma pool_flow_save:
  assumes "pool_flow E p f ws" "PoolStatusUpdate q \<in> set ws"
  shows "advances p q" "st_FrozenSpec (np_Status q) = Some (np_Spec p)" "ValidatePool (np_Spec p) = None"
    "st_FrozenSpec (np_Status p) = None \<or> st_FrozenSpec (np_Status p) = Some (np_Spec p)"
    "st_FrozenSpec (np_Status p) = None \<Longrightarrow> pool_allocations q = pool_allocations p"
  using assms pool_flow_write [OF assms] unfolding pool_flow_def by auto

lemma emits_reconcilePool:
  assumes wf: "wf_map (pool_allocations p)"
  shows "emits (reconcilePool E p) (pool_flow E p)"
proof (cases "ValidatePool (np_Spec p) = None \<and> (st_FrozenSpec (np_Status p) = None \<or> st_FrozenSpec (np_Status p) = Some (np_Spec p))")
  case False
  then show ?thesis by (auto simp: reconcilePool_def intro!: emits_return split: option.split)
next
  case True
  then have valid: "ValidatePool (np_Spec p) = None" by blast
  let ?fz = "set_status (\<lambda>st. st\<lparr>st_FrozenSpec := Some (np_Spec p)\<rparr>) p"
  let ?fin = "p\<lparr>np_Meta := with_finalizer E (np_Meta p)\<rparr>"
  have frozen: "st_FrozenSpec (np_Status p) = None \<or> st_FrozenSpec (np_Status p) = Some (np_Spec p)" using True by blast
  have adv: "advances p (account ?fz)" if "st_FrozenSpec (np_Status p) = None"
    by (rule advances_same) (use that in auto)
  have freeze: "emits (saveAndReturn E ?fz) (pool_flow E p)" if "st_FrozenSpec (np_Status p) = None"
    unfolding saveAndReturn_def
    by (rule emits_bind, rule emits_mono [OF emits_savePool], rule emits_return)
       (use adv [OF that] valid frozen in \<open>simp add: pool_flow_def flow_ok_def again_def shape_closing\<close>)
  have finalize: "emits (do { e \<leftarrow> issue (PoolUpdate ?fin) (kc_UpdatePool (en_Kube E) ?fin); State_Monad.return (again e) }) (pool_flow E p)"
    if "\<not> om_Deleting (np_Meta p)"
    using that valid frozen
    by (intro emits_bind emits_issue emits_return) (simp add: pool_flow_def flow_ok_def again_def shape_closing)
  have work: "emits (finishWork E p) (pool_flow E p)" if "st_FrozenSpec (np_Status p) \<noteq> None"
    by (rule emits_mono [OF emits_finishWork], rule pool_flow_frozen) (use that valid frozen in auto)
  have go: "emits (provisionEmpty E p) (pool_flow E p)" if "st_FrozenSpec (np_Status p) \<noteq> None" "st_PendingWork (np_Status p) = ''''"
    by (rule emits_mono [OF emits_provisionEmpty [OF wf]], rule pool_flow_frozen) (use that valid frozen in auto)
  show ?thesis
    unfolding reconcilePool_def Let_def valid option.case
    using freeze finalize work go by (auto intro!: emits_return)
qed

text \<open>
  The last write of a reconciliation may be the patch of the pool's condition, on the pool as it is read
  then; \<open>reported E req f ws\<close> says so of the writes \<open>ws\<close> after the flow \<open>f\<close>.
\<close>

definition with_condition :: "'w engine \<Rightarrow> condition \<Rightarrow> nlb_pool \<Rightarrow> nlb_pool" where
  "with_condition E c p = set_status (\<lambda>st. st\<lparr>st_Conditions := setStatusCondition (en_Lib E) (st_Conditions st) c\<rparr>) p"

definition reported :: "'w engine \<Rightarrow> object_key \<Rightarrow> flow \<Rightarrow> api_write list \<Rightarrow> bool" where
  "reported E req f ws \<longleftrightarrow> ws = [] \<or>
     (\<exists>r e q w. f = Return (r, e) \<and> fst (kc_GetPool (en_Kube E) req w) = Inr q \<and>
        ws = [PoolStatusPatch (with_condition E (reportCondition E q r e) q)])"

lemma reportCondition_facts:
  "cn_Type (reportCondition E p r e) = ''Reconciled''"
  "cn_ObservedGeneration (reportCondition E p r e) = om_Generation (np_Meta p)"
  "length (cn_Message (reportCondition E p r e)) \<le> 1024"
  "cn_Status (reportCondition E p r e) = ''True'' \<longleftrightarrow> r = RequeueLater \<and> e = None"
  "e \<noteq> None \<Longrightarrow> cn_Reason (reportCondition E p r e) = ''ReconcileError''"
  by (auto simp: reportCondition_def problemMessage_def Let_def split: option.split)

lemma reported_silent: "reported E req f ws \<Longrightarrow> oci_writes ws = [] \<and> PoolStatusUpdate q \<notin> set ws \<and> PoolUpdate q \<notin> set ws \<and> BindingUpdate b \<notin> set ws"
  by (auto simp: reported_def)

lemma reported_patch:
  assumes "reported E req f ws" "PoolStatusPatch q \<in> set ws"
  shows "\<exists>r cs w. fst (kc_GetPool (en_Kube E) req w) = Inr r \<and> q = set_status (\<lambda>st. st\<lparr>st_Conditions := cs\<rparr>) r"
proof -
  from assms obtain r w c where "fst (kc_GetPool (en_Kube E) req w) = Inr r" "q = with_condition E c r"
    by (auto simp: reported_def)
  then show ?thesis
    by (intro exI [of _ r] exI [of _ "setStatusCondition (en_Lib E) (st_Conditions (np_Status r)) c"] exI [of _ w])
       (simp add: with_condition_def set_status_def)
qed

lemma emits_outcome: "emits (report E req r e) (\<lambda>g ws. reported E req (Return (r, e)) ws)"
  unfolding report_def Let_def
  by (intro emits_if emits_return emits_call_then, simp add: reported_def)
     (auto intro!: emits_return emits_bind emits_issue simp: reported_def with_condition_def split: sum.split)

lemma emits_publish: "emits (publish E req f) (\<lambda>g ws. reported E req f ws)"
  by (cases f rule: answer_of.cases) (auto intro!: emits_return emits_outcome simp: reported_def [of _ _ _ "[]"])

text \<open>\<^const>\<open>Reconcile\<close> on a request for the pool \<open>p\<close>; a request in another namespace writes nothing.\<close>

lemma Reconcile_run:
  assumes run: "run_state (Reconcile E req) s = (ans, s')"
  obtains f t tail where "ans = answer_of f" "run_state (reconcile E req) (s\<lparr>snapshot := Some []\<rparr>) = (f, t)"
    "writes s' = writes t @ tail" "reported E req f tail"
proof -
  obtain f t where f: "run_state (reconcile E req) (s\<lparr>snapshot := Some []\<rparr>) = (f, t)" by fastforce
  obtain g u where g: "run_state (publish E req f) t = (g, u)" by fastforce
  have "ans = answer_of f" "s' = u"
    using run f g by (auto simp: Reconcile_def ResetSnapshot_def modify_def State_Monad.get_def State_Monad.set_def)
  moreover from emits_run [OF emits_publish g] obtain tail where "writes u = writes t @ tail" "reported E req f tail" by blast
  ultimately show thesis using that f by blast
qed

lemma Reconcile_writes:
  assumes run: "run_state (Reconcile E req) s = (ans, s')"
    and got: "kc_GetPool (en_Kube E) req (world s) = (Inr p, w)" and wf: "wf_map (pool_allocations p)"
  shows "\<exists>f ws tail. writes s' = writes s @ ws @ tail \<and> ans = answer_of f \<and> pool_flow E p f ws \<and> reported E req f tail"
proof -
  obtain f t tail where f: "ans = answer_of f" "run_state (reconcile E req) (s\<lparr>snapshot := Some []\<rparr>) = (f, t)"
    and tail: "writes s' = writes t @ tail" "reported E req f tail"
    by (rule Reconcile_run [OF run])
  have "\<exists>ws. writes t = writes s @ ws \<and> pool_flow E p f ws"
  proof (cases "fst req = en_Namespace E")
    case False
    with f(2) have "f = Return (NoRequeue, None)" "t = s\<lparr>snapshot := Some []\<rparr>" by (auto simp: reconcile_def)
    then show ?thesis by (intro exI [of _ "[]"]) simp
  next
    case True
    have "run_state (reconcilePool E p) (s\<lparr>snapshot := Some [], world := w\<rparr>) = (f, t)"
      using f(2) True got by (simp add: reconcile_def call_def)
    from emits_run [OF emits_reconcilePool [OF wf] this] show ?thesis by auto
  qed
  then obtain ws where "writes t = writes s @ ws" "pool_flow E p f ws" by blast
  with f(1) tail show ?thesis by (intro exI [of _ f] exI [of _ ws] exI [of _ tail]) simp
qed

lemma set_oci_writes: "m \<in> set (oci_writes ws) \<longleftrightarrow> OciWrite m \<in> set ws"
proof (induction ws)
  case (Cons w ws)
  then show ?case by (cases w) auto
qed simp

lemma oci_writes_patches: "list_all is_patch ws \<Longrightarrow> oci_writes ws = []"
  by (induction ws) (auto elim: is_patch.elims)

text \<open>The shapes that contain a mutation.\<close>

lemma shape_mutation:
  assumes "shape f ws"
  shows "oci_writes ws = [] \<or>
     (\<exists>pre m q. ws = pre @ [OciWrite m, PoolStatusUpdate q] \<and> list_all is_patch pre \<and> st_PendingWork (np_Status q) \<noteq> '''') \<or>
     (\<exists>pre m. ws = pre @ [OciWrite m] \<and> list_all is_patch pre \<and> snd (answer_of f) \<noteq> None)"
proof (cases f)
  case (Return x)
  obtain r e where x: "x = (r, e)" by fastforce
  from assms Return x obtain pre post where "ws = pre @ post" "list_all is_patch pre" "closing e post"
    by (auto simp: shape.simps(1))
  with Return x show ?thesis
    by (cases "(e, post)" rule: closing.cases) (auto simp: oci_writes_patches)
qed (use assms in \<open>simp add: oci_writes_patches\<close>)

end
