(* ===== verification/Engine_Properties.thy ===== *)
theory Engine_Properties
  imports Engine_Steps
begin

text \<open>
  The contract of one reconciliation, read off the rules of \<open>Engine_Steps\<close>, and the history of a pool
  under any number of reconciliations and edits by users.  The first four theorems hold whatever the
  services answer.  A Go map has distinct keys: that is the hypothesis \<^const>\<open>wf_map\<close>.
\<close>

section \<open>A concrete installation\<close>

text \<open>A Kubernetes API that serves one pool and its bindings and accepts every write.\<close>

definition fixed_kube :: "nlb_pool \<Rightarrow> tunnel_binding list \<Rightarrow> 'w kube_client" where
  "fixed_kube p bs = \<lparr>kc_GetPool = (\<lambda>k w. (Inr p, w)), kc_ListBindings = (\<lambda>ns w. (Inr bs, w)),
     kc_GetService = (\<lambda>k w. (Inl (NotFound (snd k)), w)), kc_ListServices = (\<lambda>ns w. (Inr [], w)),
     kc_ListSlices = (\<lambda>ns w. (Inr [], w)), kc_ListPods = (\<lambda>ns w. (Inr [], w)), kc_ListNodes = (\<lambda>w. (Inr [], w)),
     kc_UpdatePool = (\<lambda>p w. (None, w)), kc_UpdatePoolStatus = (\<lambda>p w. (None, w)), kc_PatchPoolStatus = (\<lambda>p w. (None, w)),
     kc_UpdateBinding = (\<lambda>b w. (None, w)), kc_PatchBindingStatus = (\<lambda>b w. (None, w))\<rparr>"

definition demo_engine :: "nlb_pool \<Rightarrow> tunnel_binding list \<Rightarrow> (string, nlb) gomap engine" where
  "demo_engine p bs = \<lparr>en_Cloud = mem_cloud, en_Kube = fixed_kube p bs, en_Lib = list_lib, en_ServiceError = (\<lambda>e. None), en_Namespace = ''ns'',
     en_Compartment = ''comp'', en_Subnet = ''subnet''\<rparr>"

text \<open>A pool whose specification is frozen and which wants its first shard now.\<close>

definition eager_pool :: nlb_pool where
  "eager_pool = \<lparr>np_Meta = (meta_named ''ns'' ''pool'' ''pool-uid'')\<lparr>om_Finalizers := [Finalizer]\<rparr>,
     np_Spec = demo_spec\<lparr>ps_ProvisionEmpty := True\<rparr>,
     np_Status = empty_status\<lparr>st_FrozenSpec := Some (demo_spec\<lparr>ps_ProvisionEmpty := True\<rparr>)\<rparr>\<rparr>"

lemmas engine_eval = demo_engine_def fixed_kube_def eager_pool_def Reconcile_def reconcile_def reconcilePool_def
  ResetSnapshot_def provisionEmpty_def EnsureShard_def ValidatePool_def validateMode_def workerLimit_def
  mem_cloud_def mem_client_def mem_mutate_def mem_start_def list_lib_def demo_defs shard_at_def tryM_def
  report_def reportCondition_def set_condition_list_def with_condition_def again_def
  call_def issue_def emit_def modify_def Let_def saveAndReturn_def savePool_def set_status_def extend_shards_def recordShard_def

lemma eager_run:
  obtains ans s' q r where "run_state (Reconcile (demo_engine eager_pool []) (''ns'', ''pool'')) (mem_start []) = (ans, s')"
    "kc_GetPool (en_Kube (demo_engine eager_pool [])) (''ns'', ''pool'') (world (mem_start [])) = (Inr eager_pool, [])"
    "wf_map (pool_allocations eager_pool)"
    "writes s' = [OciWrite (CreateNetworkLoadBalancer (createDetails mem_cloud eager_pool 0)), PoolStatusUpdate q, PoolStatusPatch r]"
proof -
  obtain ans s' where run: "run_state (Reconcile (demo_engine eager_pool []) (''ns'', ''pool'')) (mem_start []) = (ans, s')"
    by fastforce
  have "\<exists>q r. writes s' = [OciWrite (CreateNetworkLoadBalancer (createDetails mem_cloud eager_pool 0)), PoolStatusUpdate q, PoolStatusPatch r]"
    using run by (auto simp: engine_eval)
  then obtain q r where ws: "writes s' = [OciWrite (CreateNetworkLoadBalancer (createDetails mem_cloud eager_pool 0)), PoolStatusUpdate q, PoolStatusPatch r]"
    by blast
  show thesis by (rule that [OF run _ _ ws]) (simp_all add: engine_eval wf_map_def)
qed


section \<open>One reconciliation\<close>

text \<open>
  C9. Every OCI mutation of a reconciliation belongs to the pool that was read.  It is issued only when
  the pool's specification is valid, frozen and unchanged and no work request is pending, and it either
  creates a load balancer for a shard index of the pool, with the pool's ownership tags, or changes the
  listener or backend set named by a lease that is already stored in the pool's ledger, on the load
  balancer the pool records for that lease's shard.
\<close>

theorem Reconcile_mutations_owned:
  assumes run: "run_state (Reconcile E req) s = (ans, s')"
    and got: "kc_GetPool (en_Kube E) req (world s) = (Inr p, w)" and wf: "wf_map (pool_allocations p)"
  shows "\<exists>ws. writes s' = writes s @ ws \<and>
    (oci_writes ws \<noteq> [] \<longrightarrow> ValidatePool (np_Spec p) = None \<and> st_FrozenSpec (np_Status p) = Some (np_Spec p) \<and>
       st_PendingWork (np_Status p) = '''') \<and>
    (\<forall>m \<in> set (oci_writes ws).
       (\<exists>i. 0 \<le> i \<and> i < ps_MaxShards (np_Spec p) \<and> m = CreateNetworkLoadBalancer (createDetails (en_Cloud E) p i)) \<or>
       (\<exists>uid a nid. map_of (pool_allocations p) uid = Some a \<and> mutation_target m = Some (nid, al_Name a) \<and>
          provisionedShard p a = Some nid))"
proof -
  obtain f ws tail where ws: "writes s' = writes s @ ws @ tail" and fl: "pool_flow E p f ws" and tail: "reported E req f tail"
    using Reconcile_writes [OF assms] by blast
  have quiet: "oci_writes (ws @ tail) = oci_writes ws" using reported_silent [OF tail] by simp
  have "write_ok E p (OciWrite m)" if "m \<in> set (oci_writes ws)" for m
    by (rule pool_flow_write [OF fl]) (use that in \<open>simp add: set_oci_writes\<close>)
  then have "\<forall>m \<in> set (oci_writes ws).
       (\<exists>i. 0 \<le> i \<and> i < ps_MaxShards (np_Spec p) \<and> m = CreateNetworkLoadBalancer (createDetails (en_Cloud E) p i)) \<or>
       (\<exists>uid a nid. map_of (pool_allocations p) uid = Some a \<and> mutation_target m = Some (nid, al_Name a) \<and>
          provisionedShard p a = Some nid)"
    using wf_map_map_of [OF wf] by (simp only: write_ok.simps) metis
  moreover have "oci_writes ws \<noteq> [] \<Longrightarrow> ws \<noteq> []" by auto
  ultimately show ?thesis using ws fl unfolding pool_flow_def quiet [symmetric] by blast
qed

theorem Reconcile_mutations_owned_witness:
  "\<exists>ans s' m. run_state (Reconcile (demo_engine eager_pool []) (''ns'', ''pool'')) (mem_start []) = (ans, s') \<and>
     oci_writes (writes s') = [m] \<and> (\<exists>i. 0 \<le> i \<and> i < 2 \<and> m = CreateNetworkLoadBalancer (createDetails mem_cloud eager_pool i))"
proof (rule eager_run, goal_cases)
  case (1 ans s' q r)
  have "en_Cloud (demo_engine eager_pool []) = mem_cloud" "ps_MaxShards (np_Spec eager_pool) = 2"
    "pool_allocations eager_pool = []" "writes (mem_start ([] :: (string, nlb) gomap)) = []"
    by (simp_all add: engine_eval)
  with 1 Reconcile_mutations_owned [OF 1(1,2,3)] show ?case by auto
qed

text \<open>
  C8. A mutation is followed by the record of its work request before anything else happens.  If OCI
  names the work requests it accepts, a reconciliation issues at most one mutation; right after it
  comes the save of a pool status with a non-empty pending work request, or the mutation was refused and
  the reconciliation returns an error.  Nothing follows but at most one patch of the pool's conditions,
  and everything before the mutation is a patch of a binding's status.
\<close>

theorem Reconcile_one_mutation:
  assumes run: "run_state (Reconcile E req) s = (ans, s')"
    and got: "kc_GetPool (en_Kube E) req (world s) = (Inr p, w)" and wf: "wf_map (pool_allocations p)"
    and oci: "oci_reports (en_Cloud E)"
  shows "\<exists>ws tail. writes s' = writes s @ ws @ tail \<and>
    (tail = [] \<or> (\<exists>c q. tail = [PoolStatusPatch (with_condition E c q)])) \<and>
    (oci_writes ws = [] \<or>
     (\<exists>pre m q. ws = pre @ [OciWrite m, PoolStatusUpdate q] \<and> list_all is_patch pre \<and> st_PendingWork (np_Status q) \<noteq> '''') \<or>
     (\<exists>pre m. ws = pre @ [OciWrite m] \<and> list_all is_patch pre \<and> snd ans \<noteq> None))"
proof -
  obtain f ws tail where ws: "writes s' = writes s @ ws @ tail" and fl: "pool_flow E p f ws" and ans: "ans = answer_of f"
    and tail: "reported E req f tail"
    using Reconcile_writes [OF run got wf] by blast
  have "shape f ws" using fl oci by (simp add: pool_flow_def flow_ok_def)
  then have "oci_writes ws = [] \<or>
     (\<exists>pre m q. ws = pre @ [OciWrite m, PoolStatusUpdate q] \<and> list_all is_patch pre \<and> st_PendingWork (np_Status q) \<noteq> '''') \<or>
     (\<exists>pre m. ws = pre @ [OciWrite m] \<and> list_all is_patch pre \<and> snd (answer_of f) \<noteq> None)"
    by (rule shape_mutation)
  moreover have "tail = [] \<or> (\<exists>c q. tail = [PoolStatusPatch (with_condition E c q)])"
    using tail unfolding reported_def by blast
  ultimately show ?thesis using ws ans by blast
qed

theorem Reconcile_one_mutation_witness:
  "\<exists>ans s' m q r. run_state (Reconcile (demo_engine eager_pool []) (''ns'', ''pool'')) (mem_start []) = (ans, s') \<and>
     writes s' = [OciWrite m, PoolStatusUpdate q, PoolStatusPatch r] \<and> st_PendingWork (np_Status q) \<noteq> ''''"
proof (rule eager_run, goal_cases)
  case (1 ans s' q r)
  have "oci_reports (en_Cloud (demo_engine eager_pool []))" by (simp add: demo_engine_def oci_reports_mem)
  with Reconcile_one_mutation [OF 1(1,2,3)] 1 show ?case
    by (auto simp: mem_start_def Cons_eq_append_conv)
qed

text \<open>
  C10. A saved status never loses or alters a lease.  Whatever status a reconciliation saves, it is for
  the same specification and metadata, and every lease that was stored is still stored with the same
  binding, Service, mode, shard, port and name; a retired lease stays retired and a recorded node port
  stays recorded.  If the pool that was read satisfies the ledger's invariant (slots in range, none
  leased twice, names as computed, one active lease per Service port), so does the saved one, and its
  counters are exact and not negative.  A patch of the status changes nothing but the conditions.
\<close>

theorem Reconcile_keeps_ledger:
  assumes run: "run_state (Reconcile E req) s = (ans, s')"
    and got: "kc_GetPool (en_Kube E) req (world s) = (Inr p, w)" and wf: "wf_map (pool_allocations p)"
  shows "\<exists>ws. writes s' = writes s @ ws \<and>
    (\<forall>q. PoolStatusPatch q \<in> set ws \<longrightarrow> (\<exists>r cs w. fst (kc_GetPool (en_Kube E) req w) = Inr r \<and>
       q = set_status (\<lambda>st. st\<lparr>st_Conditions := cs\<rparr>) r)) \<and>
    (\<forall>q. PoolStatusUpdate q \<in> set ws \<longrightarrow>
    np_Spec q = np_Spec p \<and> np_Meta q = np_Meta p \<and> st_FrozenSpec (np_Status q) = Some (np_Spec p) \<and>
    (\<forall>uid a. map_of (pool_allocations p) uid = Some a \<longrightarrow>
       (\<exists>a'. map_of (pool_allocations q) uid = Some a' \<and> a' = a\<lparr>al_Tombstone := al_Tombstone a', al_NodePort := al_NodePort a'\<rparr> \<and>
          (al_Tombstone a \<longrightarrow> al_Tombstone a') \<and> (al_NodePort a \<noteq> 0 \<longrightarrow> al_NodePort a' = al_NodePort a))) \<and>
    (pool_ok p \<longrightarrow> pool_ok q \<and> st_Used (np_Status q) = int (length (pool_allocations q)) \<and>
       st_Available (np_Status q) = pool_capacity p - st_Used (np_Status q) \<and> 0 \<le> st_Available (np_Status q)))"
proof -
  obtain f ws tail where ws: "writes s' = writes s @ ws @ tail" and fl: "pool_flow E p f ws" and tail: "reported E req f tail"
    using Reconcile_writes [OF assms] by blast
  have "advances p q \<and> st_FrozenSpec (np_Status q) = Some (np_Spec p)" if "PoolStatusUpdate q \<in> set (ws @ tail)" for q
    using pool_flow_save [OF fl] reported_silent [OF tail] that by auto
  moreover have "\<exists>r cs w. fst (kc_GetPool (en_Kube E) req w) = Inr r \<and> q = set_status (\<lambda>st. st\<lparr>st_Conditions := cs\<rparr>) r"
    if "PoolStatusPatch q \<in> set (ws @ tail)" for q
    using pool_flow_write [OF fl, of "PoolStatusPatch q"] reported_patch [OF tail, of q] that by auto
  ultimately show ?thesis using ws unfolding advances_def same_lease_def by blast
qed

theorem Reconcile_keeps_ledger_witness:
  "\<exists>ans s' m q r. run_state (Reconcile (demo_engine eager_pool []) (''ns'', ''pool'')) (mem_start []) = (ans, s') \<and>
     writes s' = [OciWrite m, PoolStatusUpdate q, PoolStatusPatch r] \<and> np_Spec q = np_Spec eager_pool \<and> pool_ok q \<and>
     st_Available (np_Status q) = 4 - st_Used (np_Status q)"
proof (rule eager_run, goal_cases)
  case (1 ans s' q r)
  have cap: "pool_ok eager_pool" "pool_capacity eager_pool = 4"
    by (simp_all add: eager_pool_def demo_defs pool_ok_def pool_spec_ok_def workerLimit_def pool_capacity_def ledger_ok_def
        wf_map_def service_ports_unique_def map_values_def)
  from Reconcile_keeps_ledger [OF 1(1,2,3)] 1(4) have "np_Spec q = np_Spec eager_pool \<and> (pool_ok eager_pool \<longrightarrow> pool_ok q \<and>
      st_Available (np_Status q) = pool_capacity eager_pool - st_Used (np_Status q))"
    by (auto simp: mem_start_def)
  with 1 cap show ?case by auto
qed


text \<open>
  C11. A finalizer is taken off only when nothing is left to clean up.  If a reconciliation updates a
  binding to one without the finalizer, that binding is being deleted and its lease, if it ever had one,
  is retired in the stored ledger; if it updates the pool to one without the finalizer, the pool is
  being deleted and every lease of its stored ledger is retired.
\<close>

theorem Reconcile_finalizers:
  assumes run: "run_state (Reconcile E req) s = (ans, s')"
    and got: "kc_GetPool (en_Kube E) req (world s) = (Inr p, w)" and wf: "wf_map (pool_allocations p)"
    and laws: "finalizer_laws (en_Lib E)"
  shows "\<exists>ws. writes s' = writes s @ ws \<and>
    (\<forall>b. BindingUpdate b \<in> set ws \<longrightarrow> \<not> has_finalizer E (tb_Meta b) \<longrightarrow>
       om_Deleting (tb_Meta b) \<and> (\<forall>a. map_of (pool_allocations p) (binding_uid b) = Some a \<longrightarrow> al_Tombstone a)) \<and>
    (\<forall>q. PoolUpdate q \<in> set ws \<longrightarrow> \<not> has_finalizer E (np_Meta q) \<longrightarrow>
       om_Deleting (np_Meta p) \<and> (\<forall>uid a. map_of (pool_allocations p) uid = Some a \<longrightarrow> al_Tombstone a))"
proof -
  obtain f ws tail where ws: "writes s' = writes s @ ws @ tail" and fl: "pool_flow E p f ws" and tail: "reported E req f tail"
    using Reconcile_writes [OF run got wf] by blast
  note quiet = reported_silent [OF tail]
  have added: "has_finalizer E (with_finalizer E m)" for m
    using laws by (simp add: finalizer_laws_def with_finalizer_def)
  have kept: "om_Deleting (without_finalizer E m) = om_Deleting m" "om_UID (without_finalizer E m) = om_UID m" for m
    by (simp_all add: without_finalizer_def)
  have "om_Deleting (tb_Meta b) \<and> (\<forall>a. map_of (pool_allocations p) (binding_uid b) = Some a \<longrightarrow> al_Tombstone a)"
    if "BindingUpdate b \<in> set ws" "\<not> has_finalizer E (tb_Meta b)" for b
    using pool_flow_write [OF fl that(1)] that(2) added by (auto simp: kept)
  moreover have "om_Deleting (np_Meta p) \<and> (\<forall>uid a. map_of (pool_allocations p) uid = Some a \<longrightarrow> al_Tombstone a)"
    if "PoolUpdate q \<in> set ws" "\<not> has_finalizer E (np_Meta q)" for q
    using pool_flow_write [OF fl that(1)] that(2) added by (auto dest!: map_of_SomeD)
  ultimately show ?thesis using ws quiet by (intro exI [of _ "ws @ tail"]) auto
qed

text \<open>A pool being deleted whose only lease is retired.\<close>

definition retired_pool :: nlb_pool where
  "retired_pool = \<lparr>np_Meta = (meta_named ''ns'' ''pool'' ''pool-uid'')\<lparr>om_Deleting := True, om_Finalizers := [Finalizer]\<rparr>,
     np_Spec = demo_spec, np_Status = empty_status\<lparr>st_FrozenSpec := Some demo_spec,
       st_Allocations := [(''u1'', demo_lease ''u1'' ''s1'' 0 20000 True)]\<rparr>\<rparr>"

theorem Reconcile_finalizers_witness:
  "\<exists>ans s' q r. run_state (Reconcile (demo_engine retired_pool []) (''ns'', ''pool'')) (mem_start []) = (ans, s') \<and>
     writes s' = [PoolUpdate q, PoolStatusPatch r] \<and> om_Finalizers (np_Meta q) = [] \<and> om_Deleting (np_Meta retired_pool) \<and>
     al_Tombstone (demo_lease ''u1'' ''s1'' 0 20000 True)"
proof -
  let ?E = "demo_engine retired_pool []"
  obtain ans s' where run: "run_state (Reconcile ?E (''ns'', ''pool'')) (mem_start []) = (ans, s')" by fastforce
  have "\<exists>q r. writes s' = [PoolUpdate q, PoolStatusPatch r] \<and> om_Finalizers (np_Meta q) = []"
    using run by (auto simp: engine_eval retired_pool_def reconcileLeases_def sweepLedger_def finishPool_def without_finalizer_def
        unprovisioned_def map_values_def)
  then obtain q r where q: "writes s' = [PoolUpdate q, PoolStatusPatch r]" "om_Finalizers (np_Meta q) = []" by blast
  have got: "kc_GetPool (en_Kube ?E) (''ns'', ''pool'') (world (mem_start [])) = (Inr retired_pool, [])"
    and wf: "wf_map (pool_allocations retired_pool)" and laws: "finalizer_laws (en_Lib ?E)"
    by (simp_all add: engine_eval retired_pool_def wf_map_def finalizer_laws_list_lib [unfolded list_lib_def])
  have "\<not> has_finalizer ?E (np_Meta q)" using q(2) by (simp add: demo_engine_def list_lib_def)
  with Reconcile_finalizers [OF run got wf laws] q have "om_Deleting (np_Meta retired_pool)"
    "\<forall>uid a. map_of (pool_allocations retired_pool) uid = Some a \<longrightarrow> al_Tombstone a"
    by (auto simp: mem_start_def)
  with run q show ?thesis by (simp add: retired_pool_def)
qed

text \<open>
  C21. The condition a reconciliation publishes is truthful.  Its writes are followed by at most one patch of
  the pool as it is read then, which sets one condition of type Reconciled for that pool's generation, with
  a message of at most 1024 bytes.  The condition is True exactly if the reconciliation ended without an
  error and in the steady state that is looked at again only after fifteen seconds, and then, if OCI names
  the work requests it accepts, that reconciliation changed no load balancer, no lease and no finalizer: it
  wrote nothing but statuses of bindings.  An error is published as ReconcileError.
\<close>

theorem Reconcile_reported:
  assumes run: "run_state (Reconcile E req) s = (ans, s')"
    and got: "kc_GetPool (en_Kube E) req (world s) = (Inr p, w)" and wf: "wf_map (pool_allocations p)"
    and oci: "oci_reports (en_Cloud E)"
  shows "\<exists>ws tail. writes s' = writes s @ ws @ tail \<and> (\<forall>q. PoolStatusPatch q \<notin> set ws) \<and>
    (tail = [] \<or> (\<exists>q c w'. tail = [PoolStatusPatch (with_condition E c q)] \<and> fst (kc_GetPool (en_Kube E) req w') = Inr q \<and>
       cn_Type c = ''Reconciled'' \<and> cn_ObservedGeneration c = om_Generation (np_Meta q) \<and> length (cn_Message c) \<le> 1024 \<and>
       (cn_Status c = ''True'' \<longleftrightarrow> ans = (RequeueLater, None)) \<and>
       (cn_Status c = ''True'' \<longrightarrow> list_all is_patch ws) \<and>
       (snd ans \<noteq> None \<longrightarrow> cn_Reason c = ''ReconcileError'')))"
proof -
  obtain f ws tail where ws: "writes s' = writes s @ ws @ tail" and fl: "pool_flow E p f ws" and ans: "ans = answer_of f"
    and tail: "reported E req f tail"
    using Reconcile_writes [OF run got wf] by blast
  have quiet: "PoolStatusPatch q \<notin> set ws" for q using pool_flow_write [OF fl, of "PoolStatusPatch q"] by auto
  have "shape f ws" using fl oci by (simp add: pool_flow_def flow_ok_def)
  then have steady: "list_all is_patch ws" if "f = Return (RequeueLater, None)" using that by (auto simp: shape.simps(1))
  consider "tail = []" | r e q w' where "f = Return (r, e)" "fst (kc_GetPool (en_Kube E) req w') = Inr q"
      "tail = [PoolStatusPatch (with_condition E (reportCondition E q r e) q)]"
    using tail unfolding reported_def by blast
  then show ?thesis
  proof cases
    case (2 r e q w')
    note c = reportCondition_facts [where E = E and p = q and r = r and e = e]
    have "ans = (RequeueLater, None) \<longleftrightarrow> r = RequeueLater \<and> e = None" "snd ans = e" using ans 2(1) by (cases e; simp)+
    with 2 c steady ws quiet show ?thesis by blast
  qed (use ws quiet in blast)
qed

text \<open>A pool being served: nothing to do, so the condition becomes True.\<close>

definition idle_pool :: nlb_pool where
  "idle_pool = \<lparr>np_Meta = (meta_named ''ns'' ''pool'' ''pool-uid'')\<lparr>om_Finalizers := [Finalizer]\<rparr>,
     np_Spec = demo_spec, np_Status = empty_status\<lparr>st_FrozenSpec := Some demo_spec\<rparr>\<rparr>"

theorem Reconcile_reported_witness:
  "\<exists>s' q c. run_state (Reconcile (demo_engine idle_pool []) (''ns'', ''pool'')) (mem_start []) = ((RequeueLater, None), s') \<and>
     writes s' = [PoolStatusPatch (with_condition (demo_engine idle_pool []) c q)] \<and> cn_Status c = ''True'' \<and>
     cn_ObservedGeneration c = om_Generation (np_Meta q)"
proof -
  let ?E = "demo_engine idle_pool []"
  obtain ans s' where run: "run_state (Reconcile ?E (''ns'', ''pool'')) (mem_start []) = (ans, s')" by fastforce
  have "ans = (RequeueLater, None) \<and> (\<exists>q. writes s' = [PoolStatusPatch q])"
    using run by (auto simp: engine_eval idle_pool_def reconcileLeases_def sweepLedger_def finishPool_def map_values_def)
  then obtain q where q: "ans = (RequeueLater, None)" "writes s' = [PoolStatusPatch q]" by blast
  have got: "kc_GetPool (en_Kube ?E) (''ns'', ''pool'') (world (mem_start [])) = (Inr idle_pool, [])"
    and wf: "wf_map (pool_allocations idle_pool)"
    by (simp_all add: engine_eval idle_pool_def wf_map_def)
  have oci: "oci_reports (en_Cloud ?E)" by (simp add: demo_engine_def oci_reports_mem)
  from Reconcile_reported [OF run got wf oci] q run show ?thesis
    by (auto simp: mem_start_def Cons_eq_append_conv)
qed

section \<open>The history of a pool\<close>

text \<open>
  The pool object as the API server stores it over time: users edit its specification and metadata (the
  resource definition bounds the port start by 65535), and a status saved by a reconciliation replaces the
  status of the object it had read; the API server rejects an update based on another version.  The merge
  patch of \<^const>\<open>report\<close>, whatever version it was computed from, replaces the conditions only.
\<close>

inductive pool_history :: "'w engine \<Rightarrow> nlb_pool \<Rightarrow> nlb_pool \<Rightarrow> bool" for E p where
  here: "pool_history E p p"
| edited: "pool_history E p q \<Longrightarrow> ps_PortStart spec \<le> 65535 \<Longrightarrow> pool_history E p (q\<lparr>np_Spec := spec, np_Meta := meta\<rparr>)"
| saved: "pool_history E p q \<Longrightarrow> kc_GetPool (en_Kube E) req (world s) = (Inr q, w) \<Longrightarrow>
    run_state (Reconcile E req) s = (ans, s') \<Longrightarrow> writes s' = writes s @ ws \<Longrightarrow> PoolStatusUpdate q' \<in> set ws \<Longrightarrow>
    pool_history E p q'"
| patched: "pool_history E p q \<Longrightarrow> pool_history E p (set_status (\<lambda>st. st\<lparr>st_Conditions := cs\<rparr>) q)"

text \<open>A ledger is empty until the specification is frozen and is a ledger for the frozen one from then on.\<close>

definition ledger_safe :: "nlb_pool \<Rightarrow> bool" where
  "ledger_safe p \<longleftrightarrow> wf_map (pool_allocations p) \<and> ps_PortStart (np_Spec p) \<le> 65535 \<and>
     (case st_FrozenSpec (np_Status p) of None \<Rightarrow> pool_allocations p = [] | Some spec \<Rightarrow> pool_ok (p\<lparr>np_Spec := spec\<rparr>))"

lemma ledger_safe_edit: "ledger_safe p \<Longrightarrow> ps_PortStart spec \<le> 65535 \<Longrightarrow> ledger_safe (p\<lparr>np_Spec := spec, np_Meta := meta\<rparr>)"
  using pool_ok_cong [of "p\<lparr>np_Meta := meta, np_Spec := f\<rparr>" "p\<lparr>np_Spec := f\<rparr>" for f]
  by (auto simp: ledger_safe_def split: option.splits)

lemma ledger_safe_patch: "ledger_safe p \<Longrightarrow> ledger_safe (set_status (\<lambda>st. st\<lparr>st_Conditions := cs\<rparr>) p)"
  using pool_ok_cong [of "(set_status (\<lambda>st. st\<lparr>st_Conditions := cs\<rparr>) p)\<lparr>np_Spec := f\<rparr>" "p\<lparr>np_Spec := f\<rparr>" for f]
  by (auto simp: ledger_safe_def split: option.splits)

lemma ledger_safe_save:
  assumes safe: "ledger_safe p" and fl: "pool_flow E p f ws" and q: "PoolStatusUpdate q \<in> set ws"
  shows "ledger_safe q" "advances p q"
proof -
  note save = pool_flow_save [OF fl q]
  show "advances p q" by (rule save(1))
  have spec: "np_Spec q = np_Spec p" using save(1) by (simp add: advances_def)
  have "pool_ok q"
  proof (cases "st_FrozenSpec (np_Status p)")
    case None
    then have "pool_allocations q = []" using save(5) safe by (simp add: ledger_safe_def)
    moreover have "pool_spec_ok (np_Spec q)"
      using save(3) safe validateMode_plain [of "np_Spec p"] unfolding spec
      by (auto simp: ledger_safe_def ValidatePool_core pool_spec_ok_def)
    ultimately show ?thesis by (intro pool_ok_empty) simp_all
  next
    case (Some g)
    then have "g = np_Spec p" using save(4) by auto
    then have "pool_ok p" using safe Some by (simp add: ledger_safe_def)
    then show ?thesis using save(1) by (simp add: advances_def)
  qed
  moreover have "pool_ok (q\<lparr>np_Spec := np_Spec p\<rparr>) \<longleftrightarrow> pool_ok q" by (rule pool_ok_cong) (simp_all add: spec)
  moreover have "wf_map (pool_allocations q)" using calculation(1) by (simp add: pool_ok_def ledger_ok_def)
  ultimately show "ledger_safe q" using save(2) spec safe by (simp add: ledger_safe_def)
qed

lemma history_step:
  assumes "ledger_safe q" "kc_GetPool (en_Kube E) req (world s) = (Inr q, w)" "run_state (Reconcile E req) s = (ans, s')"
    "writes s' = writes s @ ws" "PoolStatusUpdate q' \<in> set ws"
  shows "ledger_safe q'" "advances q q'"
proof -
  have "wf_map (pool_allocations q)" using assms(1) by (simp add: ledger_safe_def)
  from Reconcile_writes [OF assms(3,2) this] assms(4) obtain f us tail
    where us: "ws = us @ tail" "pool_flow E q f us" "reported E req f tail" by auto
  then have "PoolStatusUpdate q' \<in> set us" using assms(5) reported_silent [OF us(3)] by auto
  from ledger_safe_save [OF assms(1) us(2) this] show "ledger_safe q'" "advances q q'" by blast+
qed

lemma history_keeps:
  assumes "pool_history E p q" "ledger_safe p"
  shows "ledger_safe q \<and> (\<forall>uid a. map_of (pool_allocations p) uid = Some a \<longrightarrow>
    (\<exists>a'. map_of (pool_allocations q) uid = Some a' \<and> same_lease a a'))"
  using assms
proof (induction rule: pool_history.induct)
  case (saved q req s w ans s' ws q')
  then have "ledger_safe q'" "advances q q'" using history_step [OF _ saved.hyps(2-5)] by blast+
  with saved show ?case unfolding advances_def by (meson same_lease_trans)
qed (simp_all add: ledger_safe_edit ledger_safe_patch)

lemma ledger_safe_slots:
  assumes "ledger_safe p" "map_of (pool_allocations p) uid = Some a" "map_of (pool_allocations p) uid' = Some a'"
    "alloc_slot a = alloc_slot a'"
  shows "uid = uid'"
proof -
  have "ledger_ok alloc_slot (pool_allocations p)"
    using assms(1,2) by (auto simp: ledger_safe_def pool_ok_def split: option.splits)
  then have inj: "inj_on (alloc_slot \<circ> snd) (set (pool_allocations p))" by (simp add: ledger_ok_def distinct_map)
  have "(uid, a) = (uid', a')"
    by (rule inj_onD [OF inj]) (use assms(2-4) in \<open>auto dest: map_of_SomeD\<close>)
  then show ?thesis by simp
qed

text \<open>
  C1. A public endpoint belongs to one binding for ever.  From a pool whose ledger is sound, for example a new
  one, through any sequence of edits and of reconciliations against services that may answer anything:
  every later ledger is sound, no lease disappears or moves to another shard or port, and an endpoint
  leased to one binding at some time is never leased to another binding at a later time, not even after the
  first binding is gone.
\<close>

theorem endpoints_never_reused:
  assumes safe: "ledger_safe p" and hist: "pool_history E p q"
  shows "ledger_safe q \<and>
    (\<forall>uid a. map_of (pool_allocations p) uid = Some a \<longrightarrow>
       (\<exists>a'. map_of (pool_allocations q) uid = Some a' \<and> alloc_slot a' = alloc_slot a \<and> al_Name a' = al_Name a \<and>
          (al_Tombstone a \<longrightarrow> al_Tombstone a'))) \<and>
    (\<forall>uid a uid' a'. map_of (pool_allocations p) uid = Some a \<longrightarrow> map_of (pool_allocations q) uid' = Some a' \<longrightarrow>
       alloc_slot a = alloc_slot a' \<longrightarrow> uid = uid')"
proof -
  note keeps = history_keeps [OF hist safe]
  have leases: "\<exists>a'. map_of (pool_allocations q) uid = Some a' \<and> same_lease a a'" if "map_of (pool_allocations p) uid = Some a" for uid a
    using keeps that by blast
  have "uid = uid'" if pq: "map_of (pool_allocations p) uid = Some a" "map_of (pool_allocations q) uid' = Some a'" "alloc_slot a = alloc_slot a'"
    for uid a uid' a'
  proof -
    obtain c where "map_of (pool_allocations q) uid = Some c" "same_lease a c" using leases [OF pq(1)] by blast
    then show ?thesis using ledger_safe_slots [of q uid c uid' a'] keeps pq(2,3) same_lease_fields(1) by metis
  qed
  moreover have "\<exists>a'. map_of (pool_allocations q) uid = Some a' \<and> alloc_slot a' = alloc_slot a \<and> al_Name a' = al_Name a \<and>
      (al_Tombstone a \<longrightarrow> al_Tombstone a')" if pq: "map_of (pool_allocations p) uid = Some a" for uid a
  proof -
    obtain c where c: "map_of (pool_allocations q) uid = Some c" "same_lease a c" using leases [OF pq] by blast
    with same_lease_fields [OF c(2)] show ?thesis by blast
  qed
  ultimately show ?thesis using keeps by blast
qed

text \<open>A pool with a retired and an active lease whose binding is gone: a reconciliation retires the second.\<close>

definition orphan_pool :: nlb_pool where
  "orphan_pool = \<lparr>np_Meta = (meta_named ''ns'' ''pool'' ''pool-uid'')\<lparr>om_Finalizers := [Finalizer]\<rparr>,
     np_Spec = demo_spec, np_Status = (np_Status demo_used_pool)\<lparr>st_FrozenSpec := Some demo_spec\<rparr>\<rparr>"

lemma orphan_run:
  obtains ans s' q r where "run_state (Reconcile (demo_engine orphan_pool []) (''ns'', ''pool'')) (mem_start []) = (ans, s')"
    "kc_GetPool (en_Kube (demo_engine orphan_pool [])) (''ns'', ''pool'') (world (mem_start [])) = (Inr orphan_pool, [])"
    "writes s' = [PoolStatusUpdate q, PoolStatusPatch r]" "al_Tombstone (the (map_of (pool_allocations q) ''u2''))"
proof -
  obtain ans s' where run: "run_state (Reconcile (demo_engine orphan_pool []) (''ns'', ''pool'')) (mem_start []) = (ans, s')" by fastforce
  have "\<exists>q r. writes s' = [PoolStatusUpdate q, PoolStatusPatch r] \<and> al_Tombstone (the (map_of (pool_allocations q) ''u2''))"
    using run by (auto simp: engine_eval orphan_pool_def reconcileLeases_def sweepLedger_def retireOrphan_def
        unprovisioned_def put_allocation_def account_def)
  then obtain q r where q: "writes s' = [PoolStatusUpdate q, PoolStatusPatch r]" "al_Tombstone (the (map_of (pool_allocations q) ''u2''))" by blast
  show thesis by (rule that [OF run _ q]) (simp add: engine_eval)
qed

lemma orphan_safe: "ledger_safe orphan_pool"
proof -
  have "pool_ok (orphan_pool\<lparr>np_Spec := demo_spec\<rparr>) \<longleftrightarrow> pool_ok demo_used_pool"
    by (rule pool_ok_cong) (simp_all add: orphan_pool_def demo_defs)
  moreover have "wf_map (pool_allocations orphan_pool)" "ps_PortStart (np_Spec orphan_pool) \<le> 65535"
    "st_FrozenSpec (np_Status orphan_pool) = Some demo_spec"
    by (simp_all add: orphan_pool_def demo_defs wf_map_def)
  ultimately show ?thesis by (simp add: ledger_safe_def)
qed

theorem endpoints_never_reused_witness:
  "\<exists>q a. pool_history (demo_engine orphan_pool []) orphan_pool q \<and> ledger_safe q \<and>
     map_of (pool_allocations q) ''u2'' = Some a \<and> al_Tombstone a \<and> alloc_slot a = (0, 20001)"
proof (rule orphan_run, goal_cases)
  case (1 ans s' q r)
  have hist: "pool_history (demo_engine orphan_pool []) orphan_pool q"
    by (rule pool_history.saved [OF pool_history.here 1(2,1), of "[PoolStatusUpdate q, PoolStatusPatch r]"]) (simp_all add: 1(3) mem_start_def)
  have "map_of (pool_allocations orphan_pool) ''u2'' = Some (demo_lease ''u2'' ''s2'' 0 20001 False)"
    by (simp add: orphan_pool_def demo_used_pool_def set_allocations_def)
  moreover have slot: "alloc_slot (demo_lease ''u2'' ''s2'' 0 20001 False) = (0, 20001)"
    by (simp add: alloc_slot_def demo_lease_def newAllocation_def)
  ultimately obtain a where "map_of (pool_allocations q) ''u2'' = Some a" "alloc_slot a = (0, 20001)" "ledger_safe q"
    using endpoints_never_reused [OF orphan_safe hist] unfolding slot [symmetric] by blast
  with hist 1(4) show ?case by auto
qed

section \<open>The register\<close>

fun saves_status :: "api_write \<Rightarrow> bool" where
  "saves_status (PoolStatusUpdate q) = True"
| "saves_status _ = False"

lemma patches_save_nothing: "list_all is_patch ws \<Longrightarrow> filter saves_status ws = []"
  by (induction ws rule: list.induct) (auto elim: is_patch.elims)

lemma closing_saves_once: "closing e ws \<Longrightarrow> length (filter saves_status ws) \<le> 1"
  by (induction e ws rule: closing.induct) simp_all

lemma shape_saves_once: "shape f ws \<Longrightarrow> length (filter saves_status ws) \<le> 1"
  by (induction f ws rule: shape.induct) (auto simp: shape.simps patches_save_nothing closing_saves_once simp del: One_nat_def)

lemma reported_saves_nothing: "reported E req f ws \<Longrightarrow> filter saves_status ws = []"
  by (auto simp: reported_def)

text \<open>
  C6. A reconciliation of a pool refines one step of the abstract register of slots.  Whatever the services
  answer, if OCI names the work requests it accepts, a reconciliation saves the pool's status at most once, and
  the stored ledger before and after are related by a step that changes nothing, gives one free slot to a
  binding that has none, or retires a slot; and the new ledger is sound again.
\<close>

theorem Reconcile_refines_register:
  assumes run: "run_state (Reconcile E req) s = (ans, s')"
    and got: "kc_GetPool (en_Kube E) req (world s) = (Inr p, w)" and safe: "ledger_safe p" and oci: "oci_reports (en_Cloud E)"
  shows "\<exists>ws. writes s' = writes s @ ws \<and> length (filter saves_status ws) \<le> 1 \<and>
    (\<forall>q. PoolStatusUpdate q \<in> set ws \<longrightarrow>
       ledger_safe q \<and> register_step (pool_slots q) (pool_register p) (pool_register q))"
proof -
  have "wf_map (pool_allocations p)" using safe by (simp add: ledger_safe_def)
  then obtain f us tail where us: "writes s' = writes s @ us @ tail" "pool_flow E p f us" "reported E req f tail"
    using Reconcile_writes [OF run got] by blast
  have "shape f us" using us(2) oci by (simp add: pool_flow_def flow_ok_def)
  then have "length (filter saves_status (us @ tail)) \<le> 1" by (simp add: shape_saves_once reported_saves_nothing [OF us(3)] del: One_nat_def)
  moreover have "ledger_safe q \<and> register_step (pool_slots q) (pool_register p) (pool_register q)" if "PoolStatusUpdate q \<in> set (us @ tail)" for q
  proof -
    have q: "ledger_safe q" "advances p q" using history_step [OF safe got run us(1) that] by blast+
    then have "pool_slots q = pool_slots p" by (simp add: advances_def pool_slots_def)
    with q show ?thesis by (simp add: advances_def)
  qed
  ultimately show ?thesis using us(1) by blast
qed

text \<open>The binding of the active lease is gone: the reconciliation retires its slot.\<close>

theorem Reconcile_refines_register_witness:
  "\<exists>ans s' q r. run_state (Reconcile (demo_engine orphan_pool []) (''ns'', ''pool'')) (mem_start []) = (ans, s') \<and>
     writes s' = [PoolStatusUpdate q, PoolStatusPatch r] \<and> al_Tombstone (the (map_of (pool_allocations q) ''u2'')) \<and> ledger_safe q \<and>
     register_step (pool_slots q) (pool_register orphan_pool) (pool_register q)"
proof (rule orphan_run, goal_cases)
  case (1 ans s' q r)
  have "oci_reports (en_Cloud (demo_engine orphan_pool []))" by (simp add: demo_engine_def oci_reports_mem)
  with Reconcile_refines_register [OF 1(1,2) orphan_safe] 1 show ?case by (auto simp: mem_start_def)
qed

end
