(* ===== verification/Settling.thy ===== *)
theory Settling
  imports Main
begin

text \<open>
  Repeated passes over a state.  A controller is level-triggered: it is run again and again, every pass does
  the next piece of work, and once nothing is left a pass changes nothing.  The locale states what a
  pass has to promise for that, and its lemmas bound the number of passes until the state is at rest.
\<close>

locale settling =
  fixes pass :: "'s \<Rightarrow> 's" and sound :: "'s \<Rightarrow> bool" and work :: "'s \<Rightarrow> nat" and quiet :: "'s \<Rightarrow> bool"
  assumes sound_pass: "sound s \<Longrightarrow> sound (pass s)"
    and busy_pass: "sound s \<Longrightarrow> \<not> quiet s \<Longrightarrow> work (pass s) < work s \<or> work (pass s) = work s \<and> quiet (pass s)"
    and quiet_pass: "sound s \<Longrightarrow> quiet s \<Longrightarrow> quiet (pass s)"
begin

text \<open>What is left to do, counted so that a last pass without work still counts.\<close>

definition effort :: "'s \<Rightarrow> nat" where
  "effort s = 2 * work s + (if quiet s then 0 else 1)"

lemma effort_decreases: "sound s \<Longrightarrow> \<not> quiet s \<Longrightarrow> effort (pass s) < effort s"
  using busy_pass [of s] by (auto simp: effort_def)

lemma sound_passes: "sound s \<Longrightarrow> sound ((pass ^^ n) s)"
  by (induction n) (simp_all add: sound_pass)

lemma quiet_passes: "sound s \<Longrightarrow> quiet s \<Longrightarrow> quiet ((pass ^^ n) s)"
  by (induction n) (simp_all add: quiet_pass sound_passes)

lemma settles_within:
  assumes "sound s" "effort s \<le> n"
  shows "quiet ((pass ^^ n) s)"
  using assms
proof (induction n arbitrary: s)
  case 0
  then show ?case by (simp add: effort_def split: if_splits)
next
  case (Suc n)
  show ?case
  proof (cases "quiet s")
    case True
    with Suc.prems(1) show ?thesis by (rule quiet_passes)
  next
    case False
    with Suc effort_decreases [of s] have "quiet ((pass ^^ n) (pass s))" by (simp add: sound_pass)
    then show ?thesis by (simp add: funpow_swap1)
  qed
qed

lemma settles: "sound s \<Longrightarrow> 2 * work s + 1 \<le> n \<Longrightarrow> sound ((pass ^^ n) s) \<and> quiet ((pass ^^ n) s)"
  by (simp add: sound_passes settles_within effort_def)

end

text \<open>When every pass of an unfinished state lowers the count, as many passes as it says are enough.\<close>

locale progressing =
  fixes pass :: "'s \<Rightarrow> 's" and sound :: "'s \<Rightarrow> bool" and work :: "'s \<Rightarrow> nat" and quiet :: "'s \<Rightarrow> bool"
  assumes keeps_sound: "sound s \<Longrightarrow> sound (pass s)"
    and progress: "sound s \<Longrightarrow> \<not> quiet s \<Longrightarrow> work (pass s) < work s"
    and stays_quiet: "sound s \<Longrightarrow> quiet s \<Longrightarrow> quiet (pass s)"

sublocale progressing \<subseteq> settling pass sound work quiet
  by unfold_locales (simp_all add: keeps_sound progress stays_quiet)

context progressing
begin

lemma settles_in_work:
  assumes "sound s" "work s \<le> n"
  shows "sound ((pass ^^ n) s) \<and> quiet ((pass ^^ n) s)"
proof -
  have "quiet ((pass ^^ n) s)"
    using assms
  proof (induction n arbitrary: s)
    case 0
    with progress [of s] show ?case by fastforce
  next
    case (Suc n)
    show ?case
    proof (cases "quiet s")
      case True
      with Suc.prems(1) show ?thesis by (rule quiet_passes)
    next
      case False
      with Suc progress [of s] have "quiet ((pass ^^ n) (pass s))" by (simp add: keeps_sound)
      then show ?thesis by (simp add: funpow_swap1)
    qed
  qed
  with assms(1) sound_passes show ?thesis by blast
qed

end

end
