(* ===== verification/Engine_Drains.thy ===== *)
theory Engine_Drains
  imports Engine_Properties Settling
begin

text \<open>
  A deleted pool drains.  Once the bindings of a pool that is being deleted are gone, repeated
  reconciliations take the listeners and backend sets of its leases off the load balancers, one mutation
  and one work request at a time, retire the leases and at last give the pool up.  Here the services work:
  nobody else writes, Kubernetes accepts writes against the current version, and OCI carries out what it
  accepts within a bounded number of polls of the work request.
\<close>

section \<open>The services\<close>

record drain_store =
  ds_Pool :: "nlb_pool option"
  ds_Bindings :: "tunnel_binding list"
  ds_Lbs :: "string \<Rightarrow> nlb option"
  ds_Polls :: nat

text \<open>The same pool, up to what the server and the reports change: versions, conditions and counters.\<close>

definition alike :: "nlb_pool \<Rightarrow> nlb_pool \<Rightarrow> bool" where
  "alike p q \<longleftrightarrow>
     np_Spec q = np_Spec p \<and> (\<exists>v n. np_Meta q = (np_Meta p)\<lparr>om_ResourceVersion := v, om_Generation := n\<rparr>) \<and>
     pool_allocations q = pool_allocations p \<and> pool_shards q = pool_shards p \<and>
     st_PendingWork (np_Status q) = st_PendingWork (np_Status p) \<and> st_FrozenSpec (np_Status q) = st_FrozenSpec (np_Status p)"

text \<open>OCI refuses to delete a backend set that a listener still uses.\<close>

definition deletable :: "oci_mutation \<Rightarrow> nlb \<Rightarrow> bool" where
  "deletable m lb \<longleftrightarrow> (case m of DeleteBackendSet nid n \<Rightarrow> \<not> has_key (lb_Listeners lb) n | _ \<Rightarrow> True)"

text \<open>
  The documented behaviour of the two services, for the pool named by the request.  \<open>ds_Polls\<close> is the number
  of times the pending work request still answers that it is not finished; a mutation that is accepted
  starts a work request of at most \<open>B\<close> polls.  An object under deletion is gone with its last finalizer.
\<close>

definition drain_api :: "'w engine \<Rightarrow> object_key \<Rightarrow> nat \<Rightarrow> (oci_mutation \<Rightarrow> nlb \<Rightarrow> nlb) \<Rightarrow> ('w \<Rightarrow> drain_store) \<Rightarrow> bool" where
  "drain_api E req B apply view \<longleftrightarrow>
     oci_applies apply \<and> (\<forall>f. removeFinalizer (en_Lib E) [f] f = []) \<and> (\<forall>w. cd_CtxErr (en_Cloud E) w = None) \<and>
     (\<forall>w. view (snd (kc_GetPool (en_Kube E) req w)) = view w \<and>
        (case ds_Pool (view w) of Some p \<Rightarrow> fst (kc_GetPool (en_Kube E) req w) = Inr p
         | None \<Rightarrow> (\<exists>e. fst (kc_GetPool (en_Kube E) req w) = Inl e \<and> is_not_found e))) \<and>
     (\<forall>ns w. kc_ListBindings (en_Kube E) ns w = (Inr (ds_Bindings (view w)), snd (kc_ListBindings (en_Kube E) ns w)) \<and>
        view (snd (kc_ListBindings (en_Kube E) ns w)) = view w) \<and>
     (\<forall>q w p. ds_Pool (view w) = Some p \<longrightarrow> np_Meta q = np_Meta p \<longrightarrow> np_Spec q = np_Spec p \<longrightarrow>
        (\<exists>q' w'. kc_UpdatePoolStatus (en_Kube E) q w = (None, w') \<and> alike q q' \<and> view w' = (view w)\<lparr>ds_Pool := Some q'\<rparr>)) \<and>
     (\<forall>q w p. ds_Pool (view w) = Some p \<longrightarrow> alike p q \<longrightarrow>
        (\<exists>p' e w'. kc_PatchPoolStatus (en_Kube E) q w = (e, w') \<and> alike p p' \<and> view w' = (view w)\<lparr>ds_Pool := Some p'\<rparr>)) \<and>
     (\<forall>q w p. ds_Pool (view w) = Some p \<longrightarrow> om_Deleting (np_Meta p) \<longrightarrow> np_Meta q = (np_Meta p)\<lparr>om_Finalizers := []\<rparr> \<longrightarrow>
        (\<exists>w'. kc_UpdatePool (en_Kube E) q w = (None, w') \<and> view w' = (view w)\<lparr>ds_Pool := None\<rparr>)) \<and>
     (\<forall>nid w lb. ds_Lbs (view w) nid = Some lb \<longrightarrow>
        (\<exists>w'. oc_GetNLB (cd_Client (en_Cloud E)) nid w = (Inr lb, w') \<and> view w' = view w)) \<and>
     (\<forall>m nid n w lb. mutation_target m = Some (nid, n) \<longrightarrow> ds_Lbs (view w) nid = Some lb \<longrightarrow> deletable m lb \<longrightarrow>
        (\<exists>i work k w'. oc_Mutate (cd_Client (en_Cloud E)) m w = (Inr (i, Some work), w') \<and> work \<noteq> '''' \<and> k \<le> B \<and>
           view w' = (view w)\<lparr>ds_Lbs := (ds_Lbs (view w))(nid \<mapsto> apply m lb), ds_Polls := k\<rparr>)) \<and>
     (\<forall>i w. (case ds_Polls (view w) of
         0 \<Rightarrow> (\<exists>w'. oc_GetWorkRequest (cd_Client (en_Cloud E)) i w = (Inr ''SUCCEEDED'', w') \<and> view w' = view w)
       | Suc k \<Rightarrow> (\<exists>st w'. oc_GetWorkRequest (cd_Client (en_Cloud E)) i w = (Inr st, w') \<and>
           st \<notin> {''SUCCEEDED'', ''FAILED'', ''CANCELED''} \<and> view w' = (view w)\<lparr>ds_Polls := k\<rparr>)))"

lemma drain_api_save:
  assumes "drain_api E req B apply view" "ds_Pool (view w) = Some p" "np_Meta q = np_Meta p" "np_Spec q = np_Spec p"
  obtains q' w' where "kc_UpdatePoolStatus (en_Kube E) q w = (None, w')" "alike q q'" "view w' = (view w)\<lparr>ds_Pool := Some q'\<rparr>"
proof -
  have "\<forall>q w p. ds_Pool (view w) = Some p \<longrightarrow> np_Meta q = np_Meta p \<longrightarrow> np_Spec q = np_Spec p \<longrightarrow>
        (\<exists>q' w'. kc_UpdatePoolStatus (en_Kube E) q w = (None, w') \<and> alike q q' \<and> view w' = (view w)\<lparr>ds_Pool := Some q'\<rparr>)"
    using assms(1) unfolding drain_api_def by (elim conjE)
  with assms(2-4) that show thesis by blast
qed

lemma drain_api_read:
  assumes "drain_api E req B apply view" "ds_Lbs (view w) nid = Some lb"
  obtains w' where "oc_GetNLB (cd_Client (en_Cloud E)) nid w = (Inr lb, w')" "view w' = view w"
proof -
  have "\<forall>nid w lb. ds_Lbs (view w) nid = Some lb \<longrightarrow>
        (\<exists>w'. oc_GetNLB (cd_Client (en_Cloud E)) nid w = (Inr lb, w') \<and> view w' = view w)"
    using assms(1) unfolding drain_api_def by (elim conjE)
  with assms(2) that show thesis by blast
qed

lemma drain_api_mutate:
  assumes "drain_api E req B apply view" "mutation_target m = Some (nid, n)" "ds_Lbs (view w) nid = Some lb" "deletable m lb"
  obtains i work k w' where "oc_Mutate (cd_Client (en_Cloud E)) m w = (Inr (i, Some work), w')" "work \<noteq> ''''" "k \<le> B"
    "view w' = (view w)\<lparr>ds_Lbs := (ds_Lbs (view w))(nid \<mapsto> apply m lb), ds_Polls := k\<rparr>"
proof -
  have "\<forall>m nid n w lb. mutation_target m = Some (nid, n) \<longrightarrow> ds_Lbs (view w) nid = Some lb \<longrightarrow> deletable m lb \<longrightarrow>
        (\<exists>i work k w'. oc_Mutate (cd_Client (en_Cloud E)) m w = (Inr (i, Some work), w') \<and> work \<noteq> '''' \<and> k \<le> B \<and>
           view w' = (view w)\<lparr>ds_Lbs := (ds_Lbs (view w))(nid \<mapsto> apply m lb), ds_Polls := k\<rparr>)"
    using assms(1) unfolding drain_api_def by (elim conjE)
  with assms(2-4) that show thesis by blast
qed

lemma drain_api_patch:
  assumes "drain_api E req B apply view" "ds_Pool (view w) = Some p" "alike p q"
  obtains p' e w' where "kc_PatchPoolStatus (en_Kube E) q w = (e, w')" "alike p p'" "view w' = (view w)\<lparr>ds_Pool := Some p'\<rparr>"
proof -
  have "\<forall>q w p. ds_Pool (view w) = Some p \<longrightarrow> alike p q \<longrightarrow>
        (\<exists>p' e w'. kc_PatchPoolStatus (en_Kube E) q w = (e, w') \<and> alike p p' \<and> view w' = (view w)\<lparr>ds_Pool := Some p'\<rparr>)"
    using assms(1) unfolding drain_api_def by (elim conjE)
  with assms(2,3) that show thesis by blast
qed

lemma drain_api_release:
  assumes "drain_api E req B apply view" "ds_Pool (view w) = Some p" "om_Deleting (np_Meta p)" "np_Meta q = (np_Meta p)\<lparr>om_Finalizers := []\<rparr>"
  obtains w' where "kc_UpdatePool (en_Kube E) q w = (None, w')" "view w' = (view w)\<lparr>ds_Pool := None\<rparr>"
proof -
  have "\<forall>q w p. ds_Pool (view w) = Some p \<longrightarrow> om_Deleting (np_Meta p) \<longrightarrow> np_Meta q = (np_Meta p)\<lparr>om_Finalizers := []\<rparr> \<longrightarrow>
        (\<exists>w'. kc_UpdatePool (en_Kube E) q w = (None, w') \<and> view w' = (view w)\<lparr>ds_Pool := None\<rparr>)"
    using assms(1) unfolding drain_api_def by (elim conjE)
  with assms(2-4) that show thesis by blast
qed

lemma drain_api_pool:
  assumes "drain_api E req B apply view"
  shows "view (snd (kc_GetPool (en_Kube E) req w)) = view w"
    and "ds_Pool (view w) = Some p \<Longrightarrow> fst (kc_GetPool (en_Kube E) req w) = Inr p"
    and "ds_Pool (view w) = None \<Longrightarrow> \<exists>e. fst (kc_GetPool (en_Kube E) req w) = Inl e \<and> is_not_found e"
proof -
  have "view (snd (kc_GetPool (en_Kube E) req w)) = view w \<and>
        (case ds_Pool (view w) of Some p \<Rightarrow> fst (kc_GetPool (en_Kube E) req w) = Inr p
         | None \<Rightarrow> (\<exists>e. fst (kc_GetPool (en_Kube E) req w) = Inl e \<and> is_not_found e))"
    using assms unfolding drain_api_def by (elim conjE) (rule spec)
  then show "view (snd (kc_GetPool (en_Kube E) req w)) = view w"
    "ds_Pool (view w) = Some p \<Longrightarrow> fst (kc_GetPool (en_Kube E) req w) = Inr p"
    "ds_Pool (view w) = None \<Longrightarrow> \<exists>e. fst (kc_GetPool (en_Kube E) req w) = Inl e \<and> is_not_found e"
    by simp_all
qed

lemma drain_api_poll:
  assumes "drain_api E req B apply view"
  shows "ds_Polls (view w) = 0 \<Longrightarrow> \<exists>w'. oc_GetWorkRequest (cd_Client (en_Cloud E)) i w = (Inr ''SUCCEEDED'', w') \<and> view w' = view w"
    and "ds_Polls (view w) = Suc k \<Longrightarrow> \<exists>st w'. oc_GetWorkRequest (cd_Client (en_Cloud E)) i w = (Inr st, w') \<and>
       st \<notin> {''SUCCEEDED'', ''FAILED'', ''CANCELED''} \<and> view w' = (view w)\<lparr>ds_Polls := k\<rparr>"
proof -
  have "case ds_Polls (view w) of
         0 \<Rightarrow> (\<exists>w'. oc_GetWorkRequest (cd_Client (en_Cloud E)) i w = (Inr ''SUCCEEDED'', w') \<and> view w' = view w)
       | Suc k \<Rightarrow> (\<exists>st w'. oc_GetWorkRequest (cd_Client (en_Cloud E)) i w = (Inr st, w') \<and>
           st \<notin> {''SUCCEEDED'', ''FAILED'', ''CANCELED''} \<and> view w' = (view w)\<lparr>ds_Polls := k\<rparr>)"
    using assms unfolding drain_api_def by (elim conjE) (drule_tac x = i in spec, erule spec)
  then show "ds_Polls (view w) = 0 \<Longrightarrow> \<exists>w'. oc_GetWorkRequest (cd_Client (en_Cloud E)) i w = (Inr ''SUCCEEDED'', w') \<and> view w' = view w"
    "ds_Polls (view w) = Suc k \<Longrightarrow> \<exists>st w'. oc_GetWorkRequest (cd_Client (en_Cloud E)) i w = (Inr st, w') \<and>
       st \<notin> {''SUCCEEDED'', ''FAILED'', ''CANCELED''} \<and> view w' = (view w)\<lparr>ds_Polls := k\<rparr>"
    by simp_all
qed

lemma drain_api_rest:
  assumes "drain_api E req B apply view"
  shows "oci_applies apply" "removeFinalizer (en_Lib E) [f] f = []" "cd_CtxErr (en_Cloud E) w = None"
    "kc_ListBindings (en_Kube E) ns w = (Inr (ds_Bindings (view w)), snd (kc_ListBindings (en_Kube E) ns w))"
    "view (snd (kc_ListBindings (en_Kube E) ns w)) = view w"
proof -
  show "oci_applies apply" using assms unfolding drain_api_def by (elim conjE)
  have "\<forall>f. removeFinalizer (en_Lib E) [f] f = []" using assms unfolding drain_api_def by (elim conjE)
  then show "removeFinalizer (en_Lib E) [f] f = []" ..
  have "\<forall>w. cd_CtxErr (en_Cloud E) w = None" using assms unfolding drain_api_def by (elim conjE)
  then show "cd_CtxErr (en_Cloud E) w = None" ..
  have "\<forall>ns w. kc_ListBindings (en_Kube E) ns w = (Inr (ds_Bindings (view w)), snd (kc_ListBindings (en_Kube E) ns w)) \<and>
        view (snd (kc_ListBindings (en_Kube E) ns w)) = view w" using assms unfolding drain_api_def by (elim conjE)
  then show "kc_ListBindings (en_Kube E) ns w = (Inr (ds_Bindings (view w)), snd (kc_ListBindings (en_Kube E) ns w))"
    "view (snd (kc_ListBindings (en_Kube E) ns w)) = view w" by blast+
qed

section \<open>Pools that drain\<close>

text \<open>The load balancer of a shard: the pool's own, active, and with nothing on it but objects of the ledger.\<close>

definition shard_clean :: "'w engine \<Rightarrow> nlb_pool \<Rightarrow> int \<Rightarrow> nlb option \<Rightarrow> bool" where
  "shard_clean E p i x \<longleftrightarrow>
     (\<exists>lb. x = Some lb \<and> wf_nlb lb \<and> owns (en_Cloud E) p i lb \<and> lb_LifecycleState lb = ''ACTIVE'' \<and>
        dom (map_of (lb_Listeners lb)) \<subseteq> set (ownedNames p i) \<and> dom (map_of (lb_BackendSets lb)) \<subseteq> set (ownedNames p i))"

text \<open>A pool under deletion: specification as frozen, no binding of its own left, shards as recorded.\<close>

definition drain_ok :: "'w engine \<Rightarrow> drain_store \<Rightarrow> nlb_pool \<Rightarrow> bool" where
  "drain_ok E c p \<longleftrightarrow>
     ValidatePool (np_Spec p) = None \<and> ps_CompartmentID (np_Spec p) = en_Compartment E \<and> ps_SubnetID (np_Spec p) = en_Subnet E \<and>
     st_FrozenSpec (np_Status p) = Some (np_Spec p) \<and> om_Deleting (np_Meta p) \<and> om_Finalizers (np_Meta p) = [Finalizer] \<and>
     wf_map (pool_allocations p) \<and> (\<forall>(uid, a) \<in> set (pool_allocations p). 0 \<le> al_Shard a) \<and>
     (\<forall>b \<in> set (ds_Bindings c). bs_Pool (tb_Spec b) \<noteq> om_Name (np_Meta p) \<and> map_of (pool_allocations p) (binding_uid b) = None) \<and>
     (\<forall>i s. shard_at (pool_shards p) i = Some s \<longrightarrow> sh_ID s \<noteq> '''' \<longrightarrow> shard_clean E p i (ds_Lbs c (sh_ID s)))"

text \<open>The objects of a lease on its load balancer.\<close>

definition lease_objects :: "drain_store \<Rightarrow> nlb_pool \<Rightarrow> allocation \<Rightarrow> bool" where
  "lease_objects c p a \<longleftrightarrow>
     (\<exists>nid lb. provisionedShard p a = Some nid \<and> ds_Lbs c nid = Some lb \<and>
        (has_key (lb_Listeners lb) (al_Name a) \<or> has_key (lb_BackendSets lb) (al_Name a)))"

section \<open>The moves\<close>

inductive drain_move :: "nat \<Rightarrow> (oci_mutation \<Rightarrow> nlb \<Rightarrow> nlb) \<Rightarrow> nlb_pool \<Rightarrow> drain_store \<Rightarrow> drain_store \<Rightarrow> bool" for B "apply" p c where
  poll: "st_PendingWork (np_Status p) \<noteq> '''' \<Longrightarrow> ds_Polls c = Suc k \<Longrightarrow> drain_move B apply p c (c\<lparr>ds_Polls := k\<rparr>)"
| finish: "st_PendingWork (np_Status p) \<noteq> '''' \<Longrightarrow> alike (set_status (\<lambda>st. st\<lparr>st_PendingWork := ''''\<rparr>) p) q \<Longrightarrow>
    drain_move B apply p c (c\<lparr>ds_Pool := Some q\<rparr>)"
| retire: "st_PendingWork (np_Status p) = '''' \<Longrightarrow> (uid, a) \<in> set (pool_allocations p) \<Longrightarrow> \<not> al_Tombstone a \<Longrightarrow>
    alike (put_allocation uid (a\<lparr>al_Tombstone := True\<rparr>) p) q \<Longrightarrow> drain_move B apply p c (c\<lparr>ds_Pool := Some q\<rparr>)"
| remove: "st_PendingWork (np_Status p) = '''' \<Longrightarrow> (uid, a) \<in> set (pool_allocations p) \<Longrightarrow> provisionedShard p a = Some nid \<Longrightarrow>
    ds_Lbs c nid = Some lb \<Longrightarrow>
    m = DeleteListener nid (al_Name a) \<and> has_key (lb_Listeners lb) (al_Name a) \<or>
    m = DeleteBackendSet nid (al_Name a) \<and> has_key (lb_BackendSets lb) (al_Name a) \<Longrightarrow>
    k \<le> B \<Longrightarrow> alike (set_status (\<lambda>st. st\<lparr>st_PendingWork := work\<rparr>) p) q \<Longrightarrow> work \<noteq> '''' \<Longrightarrow>
    drain_move B apply p c (c\<lparr>ds_Lbs := (ds_Lbs c)(nid \<mapsto> apply m lb), ds_Polls := k, ds_Pool := Some q\<rparr>)"
| release: "st_PendingWork (np_Status p) = '''' \<Longrightarrow> (\<And>uid a. (uid, a) \<in> set (pool_allocations p) \<Longrightarrow> al_Tombstone a \<and> \<not> lease_objects c p a) \<Longrightarrow>
    drain_move B apply p c (c\<lparr>ds_Pool := None\<rparr>)"

text \<open>What the operations of a reconciliation need of its state: the contents, and a snapshot that agrees with them.\<close>

definition sees :: "('w \<Rightarrow> drain_store) \<Rightarrow> drain_store \<Rightarrow> 'w engine_state \<Rightarrow> bool" where
  "sees view c s \<longleftrightarrow> view (world s) = c \<and> (\<exists>snap. snapshot s = Some snap \<and> (\<forall>nid lb. map_of snap nid = Some lb \<longrightarrow> ds_Lbs c nid = Some lb))"

text \<open>A flow without an error that made one move.\<close>

definition moved :: "nat \<Rightarrow> (oci_mutation \<Rightarrow> nlb \<Rightarrow> nlb) \<Rightarrow> ('w \<Rightarrow> drain_store) \<Rightarrow> nlb_pool \<Rightarrow> drain_store \<Rightarrow> flow \<Rightarrow> 'w engine_state \<Rightarrow> bool" where
  "moved B apply view p c f t \<longleftrightarrow> (\<exists>r. f = Return (r, None)) \<and> drain_move B apply p c (view (world t))"

lemma alike_refl [simp]: "alike p p"
  unfolding alike_def by (auto intro!: exI [of _ "om_ResourceVersion (np_Meta p)"] exI [of _ "om_Generation (np_Meta p)"])

lemma alike_account: "alike (account q) q' \<longleftrightarrow> alike q q'"
  by (simp add: alike_def)

lemma wp_cloud_get_sees:
  assumes api: "drain_api E req B apply view" and s: "sees view c s" and lb: "ds_Lbs c nid = Some lb"
  shows "wp (cloud_get (en_Cloud E) nid) (\<lambda>r t. r = Inr lb \<and> sees view c t) s"
proof -
  obtain snap where snap: "snapshot s = Some snap" "\<forall>nid lb. map_of snap nid = Some lb \<longrightarrow> ds_Lbs c nid = Some lb"
    and v: "view (world s) = c" using s by (auto simp: sees_def)
  show ?thesis
  proof (cases "map_of snap nid")
    case None
    obtain w' where "oc_GetNLB (cd_Client (en_Cloud E)) nid (world s) = (Inr lb, w')" "view w' = c"
      using drain_api_read [OF api, of "world s" nid lb] lb v by metis
    with None snap lb show ?thesis by (auto simp: cloud_get_def wp_rules sees_def gomap_simps split: if_splits)
  next
    case (Some lb')
    with snap lb s show ?thesis by (auto simp: cloud_get_def wp_rules)
  qed
qed

lemma wp_save:
  assumes api: "drain_api E req B apply view" and v: "ds_Pool (view (world s)) = Some p" and q: "np_Meta q = np_Meta p" "np_Spec q = np_Spec p"
  shows "wp (savePool E q) (\<lambda>r t. r = None \<and> (\<exists>q'. alike q q' \<and> view (world t) = (view (world s))\<lparr>ds_Pool := Some q'\<rparr>)) s"
proof -
  obtain q' w' where "kc_UpdatePoolStatus (en_Kube E) (account q) (world s) = (None, w')" "alike (account q) q'"
    "view w' = (view (world s))\<lparr>ds_Pool := Some q'\<rparr>"
    by (rule drain_api_save [OF api v, of "account q"]) (simp_all add: q)
  then show ?thesis by (auto simp: savePool_def wp_rules alike_account)
qed

lemma wp_saveAndReturn:
  assumes api: "drain_api E req B apply view" and v: "ds_Pool (view (world s)) = Some p" and q: "np_Meta q = np_Meta p" "np_Spec q = np_Spec p"
    and move: "\<And>q'. alike q q' \<Longrightarrow> drain_move B apply p c ((view (world s))\<lparr>ds_Pool := Some q'\<rparr>)"
  shows "wp (saveAndReturn E q) (moved B apply view p c) s"
  unfolding saveAndReturn_def wp_bind
  by (rule wp_mono [OF wp_save [OF api v q]]) (use move in \<open>auto simp: wp_return moved_def again_def\<close>)


section \<open>The operations move\<close>

lemma drain_shard:
  assumes ok: "drain_ok E c p" and sh: "provisionedShard p a = Some nid"
  obtains lb where "ds_Lbs c nid = Some lb" "stepRefusal (en_Cloud E) p a lb = None" "wf_nlb lb"
proof -
  obtain s where "shard_at (pool_shards p) (al_Shard a) = Some s" "sh_ID s = nid" "nid \<noteq> ''''"
    using sh by (auto simp: provisionedShard_def split: option.splits if_splits)
  then have "shard_clean E p (al_Shard a) (ds_Lbs c nid)" using ok by (auto simp: drain_ok_def)
  then show thesis using that by (auto simp: shard_clean_def stepRefusal_None)
qed

lemma unprovisioned_iff:
  assumes "drain_ok E c p" "(uid, a) \<in> set (pool_allocations p)"
  shows "unprovisioned p a = Inr (provisionedShard p a = None)"
proof -
  have "0 \<le> al_Shard a" using assms by (auto simp: drain_ok_def)
  then show ?thesis by (auto simp: unprovisioned_def provisionedShard_def split: option.split)
qed

lemma wp_removeObjects:
  assumes api: "drain_api E req B apply view" and s: "sees view c s" and p: "ds_Pool c = Some p" and ok: "drain_ok E c p"
    and idle: "st_PendingWork (np_Status p) = ''''" and a: "(uid, a) \<in> set (pool_allocations p)" and sh: "provisionedShard p a = Some nid"
    and rest: "\<And>t. \<not> lease_objects c p a \<Longrightarrow> sees view c t \<Longrightarrow> wp done (moved B apply view p c) t"
  shows "wp (removeObjects E p a done) (moved B apply view p c) s"
proof -
  obtain lb where lb: "ds_Lbs c nid = Some lb" "stepRefusal (en_Cloud E) p a lb = None" by (rule drain_shard [OF ok sh])
  let ?dec = "stepDecision (en_Cloud E) p a [] 9 True nid lb"
  have none: "wp done (moved B apply view p c) t" if "?dec = Inr None" "sees view c t" for t
    by (rule rest [OF _ that(2)]) (use that(1) lb sh in \<open>auto simp: stepDecision_def lease_objects_def Let_def split: if_splits\<close>)
  have some: "wp (cloud_mutate (en_Cloud E) nid m) (\<lambda>r t. \<exists>work. r = Inr work \<and> work \<noteq> '''' \<and>
      wp (saveAndReturn E (set_status (\<lambda>st. st\<lparr>st_PendingWork := work\<rparr>) p)) (moved B apply view p c) t) t"
    if m: "?dec = Inr (Some m)" and t: "sees view c t" for m t
  proof -
    have v: "view (world t) = c" using t by (simp add: sees_def)
    have target: "mutation_target m = Some (nid, al_Name a)" by (rule stepDecision_target [OF m])
    have del: "deletable m lb"
      using m lb(2) by (auto simp: deletable_def stepDecision_def Let_def split: if_splits)
    obtain i work k w' where mut: "oc_Mutate (cd_Client (en_Cloud E)) m (world t) = (Inr (i, Some work), w')" "work \<noteq> ''''" "k \<le> B"
      "view w' = c\<lparr>ds_Lbs := (ds_Lbs c)(nid \<mapsto> apply m lb), ds_Polls := k\<rparr>"
      using drain_api_mutate [OF api target _ del, of "world t"] lb(1) v by metis
    have which: "m = DeleteListener nid (al_Name a) \<and> has_key (lb_Listeners lb) (al_Name a) \<or>
        m = DeleteBackendSet nid (al_Name a) \<and> has_key (lb_BackendSets lb) (al_Name a)"
      using m lb(2) by (auto simp: stepDecision_def Let_def split: if_splits)
    have move: "drain_move B apply p c (c\<lparr>ds_Lbs := (ds_Lbs c)(nid \<mapsto> apply m lb), ds_Polls := k, ds_Pool := Some q'\<rparr>)"
      if "alike (set_status (\<lambda>st. st\<lparr>st_PendingWork := work\<rparr>) p) q'" for q'
      by (rule drain_move.remove [OF idle a sh lb(1) which mut(3) that mut(2)])
    have "wp (saveAndReturn E (set_status (\<lambda>st. st\<lparr>st_PendingWork := work\<rparr>) p)) (moved B apply view p c) t'"
      if "view (world t') = c\<lparr>ds_Lbs := (ds_Lbs c)(nid \<mapsto> apply m lb), ds_Polls := k\<rparr>" for t'
      by (rule wp_saveAndReturn [OF api, where p = p]) (use p that move in simp_all)
    with mut show ?thesis by (simp add: cloud_mutate_def wp_rules)
  qed
  have step: "wp (Step (en_Cloud E) p a None 9 True) (\<lambda>r t. case r of Inl e \<Rightarrow> False
      | Inr work \<Rightarrow> (if work \<noteq> '''' then wp (saveAndReturn E (set_status (\<lambda>st. st\<lparr>st_PendingWork := work\<rparr>) p)) (moved B apply view p c) t
          else wp done (moved B apply view p c) t)) s"
    unfolding Step_def StepBackends_def wp_bind wp_gets drain_api_rest(3) [OF api] option.case sh wp_tryM
  proof (rule wp_mono [OF wp_cloud_get_sees [OF api s lb(1)]], elim conjE, goal_cases)
    case (1 r t)
    show ?case
    proof (cases ?dec)
      case (Inl e)
      then show ?thesis using lb(2) by (auto simp: stepDecision_def Let_def split: if_splits)
    next
      case (Inr x)
      then show ?thesis
        using 1 none [of t] some [of _ t] by (cases x) (auto simp: wp_return elim!: wp_mono)
    qed
  qed
  show ?thesis
    unfolding removeObjects_def wp_bind by (rule wp_mono [OF step]) (auto split: sum.splits if_splits)
qed

lemma wp_retireOrphan:
  assumes api: "drain_api E req B apply view" and s: "sees view c s" and p: "ds_Pool c = Some p" and ok: "drain_ok E c p"
    and idle: "st_PendingWork (np_Status p) = ''''" and a: "(uid, a) \<in> set (pool_allocations p)" "\<not> al_Tombstone a"
  shows "wp (retireOrphan E p uid a) (moved B apply view p c) s"
proof -
  let ?q = "put_allocation uid (a\<lparr>al_Tombstone := True\<rparr>) p"
  have retire: "wp (saveAndReturn E ?q) (moved B apply view p c) t" if "sees view c t" for t
    by (rule wp_saveAndReturn [OF api, where p = p]) (use that p drain_move.retire [OF idle a] in \<open>simp_all add: sees_def\<close>)
  show ?thesis
  proof (cases "provisionedShard p a")
    case None
    with retire [OF s] show ?thesis by (simp add: retireOrphan_def unprovisioned_iff [OF ok a(1)])
  next
    case (Some nid)
    with wp_removeObjects [OF api s p ok idle a(1) Some retire] show ?thesis
      by (simp add: retireOrphan_def unprovisioned_iff [OF ok a(1)])
  qed
qed

lemma wp_quarantine:
  assumes api: "drain_api E req B apply view" and p: "ds_Pool c = Some p" and ok: "drain_ok E c p"
    and idle: "st_PendingWork (np_Status p) = ''''"
    and "set as \<subseteq> snd ` set (pool_allocations p)" "sees view c s"
    and "\<And>t. (\<And>a. a \<in> set as \<Longrightarrow> al_Tombstone a \<Longrightarrow> \<not> lease_objects c p a) \<Longrightarrow> sees view c t \<Longrightarrow> wp done (moved B apply view p c) t"
  shows "wp (quarantineTombstones E p as done) (moved B apply view p c) s"
  using assms(5-)
proof (induction as arbitrary: s)
  case Nil
  then show ?case by simp
next
  case (Cons a as)
  obtain uid where a: "(uid, a) \<in> set (pool_allocations p)" using Cons.prems(1) by auto
  have tail: "wp (quarantineTombstones E p as done) (moved B apply view p c) t" if "al_Tombstone a \<Longrightarrow> \<not> lease_objects c p a" "sees view c t" for t
  proof (rule Cons.IH [OF _ that(2)])
    show "set as \<subseteq> snd ` set (pool_allocations p)" using Cons.prems(1) by simp
    show "wp done (moved B apply view p c) t" if "\<And>a. a \<in> set as \<Longrightarrow> al_Tombstone a \<Longrightarrow> \<not> lease_objects c p a" "sees view c t" for t
      by (rule Cons.prems(3)) (use that \<open>al_Tombstone a \<Longrightarrow> \<not> lease_objects c p a\<close> in auto)
  qed
  show ?case
  proof (cases "al_Tombstone a")
    case False
    with tail [OF _ Cons.prems(2)] show ?thesis by simp
  next
    case True
    show ?thesis
    proof (cases "provisionedShard p a")
      case None
      then have "\<not> lease_objects c p a" by (simp add: lease_objects_def)
      with tail [OF _ Cons.prems(2)] True None show ?thesis by (simp add: unprovisioned_iff [OF ok a])
    next
      case (Some nid)
      with wp_removeObjects [OF api Cons.prems(2) p ok idle a Some, of "quarantineTombstones E p as done"] tail True show ?thesis
        by (simp add: unprovisioned_iff [OF ok a])
    qed
  qed
qed

lemma reconcileBindings_foreign:
  assumes "\<And>b. b \<in> set bs \<Longrightarrow> bs_Pool (tb_Spec b) \<noteq> om_Name (np_Meta (rn_pool rn)) \<and> map_of (pool_allocations (rn_pool rn)) (binding_uid b) = None"
  shows "reconcileBindings E bs rn = State_Monad.return (Continue rn)"
  using assms by (induction bs) (simp_all add: reconcileBinding_def)

lemma wp_finishPool:
  assumes api: "drain_api E req B apply view" and s: "sees view c s" and p: "ds_Pool c = Some (rn_pool rn)" and ok: "drain_ok E c (rn_pool rn)"
    and idle: "st_PendingWork (np_Status (rn_pool rn)) = ''''" and live: "rn_live rn = 0"
    and gone: "\<And>uid a. (uid, a) \<in> set (pool_allocations (rn_pool rn)) \<Longrightarrow> al_Tombstone a \<and> \<not> lease_objects c (rn_pool rn) a"
  shows "wp (finishPool E rn) (moved B apply view (rn_pool rn) c) s"
proof -
  let ?q = "(rn_pool rn)\<lparr>np_Meta := without_finalizer E (np_Meta (rn_pool rn))\<rparr>"
  have v: "view (world s) = c" using s by (simp add: sees_def)
  have del: "om_Deleting (np_Meta (rn_pool rn))" using ok by (simp add: drain_ok_def)
  have q: "np_Meta ?q = (np_Meta (rn_pool rn))\<lparr>om_Finalizers := []\<rparr>"
    using ok by (simp add: without_finalizer_def drain_ok_def drain_api_rest(2) [OF api])
  obtain w' where "kc_UpdatePool (en_Kube E) ?q (world s) = (None, w')" "view w' = c\<lparr>ds_Pool := None\<rparr>"
    using drain_api_release [OF api, of "world s" "rn_pool rn" ?q] p v del q by metis
  with del live drain_move.release [OF idle gone] show ?thesis
    by (simp add: finishPool_def Let_def wp_rules moved_def)
qed


lemma wp_sweepLedger:
  assumes api: "drain_api E req B apply view" and s: "sees view c s" and p: "ds_Pool c = Some (rn_pool rn)" and ok: "drain_ok E c (rn_pool rn)"
    and idle: "st_PendingWork (np_Status (rn_pool rn)) = ''''" and live: "rn_live rn = 0"
    and bs: "\<And>b. b \<in> set bs \<Longrightarrow> map_of (pool_allocations (rn_pool rn)) (binding_uid b) = None"
  shows "wp (sweepLedger E bs rn) (moved B apply view (rn_pool rn) c) s"
proof (cases "find (\<lambda>(uid, a). uid \<notin> set (map binding_uid bs) \<and> \<not> al_Tombstone a) (pool_allocations (rn_pool rn))")
  case (Some x)
  then obtain uid a where x: "x = (uid, a)" "(uid, a) \<in> set (pool_allocations (rn_pool rn))" "\<not> al_Tombstone a"
    by (cases x) (auto dest: find_SomeD)
  with Some wp_retireOrphan [OF api s p ok idle x(2,3)] show ?thesis by (simp add: sweepLedger_def)
next
  case None
  have "uid \<notin> set (map binding_uid bs)" if "(uid, a) \<in> set (pool_allocations (rn_pool rn))" for uid a
    using bs that by (force simp: map_of_eq_None_iff)
  with None have dead: "al_Tombstone a" if "(uid, a) \<in> set (pool_allocations (rn_pool rn))" for uid a
    using that by (force simp: find_None_iff)
  have "wp (finishPool E rn) (moved B apply view (rn_pool rn) c) t"
    if "\<And>a. a \<in> set (map_values (pool_allocations (rn_pool rn))) \<Longrightarrow> al_Tombstone a \<Longrightarrow> \<not> lease_objects c (rn_pool rn) a" "sees view c t" for t
    by (rule wp_finishPool [OF api that(2) p ok idle live]) (use that(1) dead in \<open>force simp: map_values_def\<close>)
  with None show ?thesis
    by (simp add: sweepLedger_def) (rule wp_quarantine [OF api p ok idle _ s], simp_all add: map_values_def)
qed

lemma sees_call: "sees view c s \<Longrightarrow> view w = c \<Longrightarrow> sees view c (s\<lparr>world := w\<rparr>)"
  by (simp add: sees_def)

lemma wp_reconcileLeases:
  assumes api: "drain_api E req B apply view" and s: "sees view c s" and p: "ds_Pool c = Some p" and ok: "drain_ok E c p"
    and idle: "st_PendingWork (np_Status p) = ''''"
  shows "wp (reconcileLeases E p) (moved B apply view p c) s"
proof -
  let ?rn = "\<lparr>rn_pool = p, rn_reader = None, rn_workers = [], rn_problem = None, rn_read = False, rn_live = 0\<rparr>"
  let ?bs = "sort_key (\<lambda>b. om_Name (tb_Meta b)) (ds_Bindings c)"
  let ?list = "kc_ListBindings (en_Kube E) (om_Namespace (np_Meta p)) (world s)"
  have v: "view (world s) = c" using s by (simp add: sees_def)
  have list: "?list = (Inr (ds_Bindings c), snd ?list)" "view (snd ?list) = c"
    using drain_api_rest(4,5) [OF api, of "om_Namespace (np_Meta p)" "world s"] v by simp_all
  have bs: "bs_Pool (tb_Spec b) \<noteq> om_Name (np_Meta p) \<and> map_of (pool_allocations p) (binding_uid b) = None" if "b \<in> set ?bs" for b
    using ok that by (simp add: drain_ok_def)
  have foreign: "reconcileBindings E ?bs ?rn = State_Monad.return (Continue ?rn)"
    by (rule reconcileBindings_foreign) (use bs in simp)
  have "wp (sweepLedger E ?bs ?rn) (moved B apply view p c) (s\<lparr>world := snd ?list\<rparr>)"
    using wp_sweepLedger [OF api sees_call [OF s list(2)], of ?rn ?bs] p ok idle bs by simp
  then show ?thesis
    unfolding reconcileLeases_def wp_bind wp_call by (subst list(1)) (simp add: foreign)
qed

lemma wp_finishWork:
  assumes api: "drain_api E req B apply view" and s: "sees view c s" and p: "ds_Pool c = Some p"
    and busy: "st_PendingWork (np_Status p) \<noteq> ''''"
  shows "wp (finishWork E p) (moved B apply view p c) s"
proof -
  have v: "view (world s) = c" using s by (simp add: sees_def)
  let ?q = "set_status (\<lambda>st. st\<lparr>st_PendingWork := ''''\<rparr>) p"
  show ?thesis
  proof (cases "ds_Polls c")
    case (Suc k)
    with drain_api_poll(2) [OF api, of "world s" k] v obtain st w' where
      "oc_GetWorkRequest (cd_Client (en_Cloud E)) (st_PendingWork (np_Status p)) (world s) = (Inr st, w')"
      "st \<notin> {''SUCCEEDED'', ''FAILED'', ''CANCELED''}" "view w' = c\<lparr>ds_Polls := k\<rparr>" by blast
    with drain_move.poll [OF busy Suc] show ?thesis
      by (simp add: finishWork_def Work_def wp_rules moved_def again_def)
  next
    case 0
    with drain_api_poll(1) [OF api, of "world s"] v obtain w' where
      w': "oc_GetWorkRequest (cd_Client (en_Cloud E)) (st_PendingWork (np_Status p)) (world s) = (Inr ''SUCCEEDED'', w')" "view w' = c" by blast
    have "wp (savePool E ?q) (\<lambda>r t. r = None \<and> (\<exists>q'. alike ?q q' \<and> view (world t) = c\<lparr>ds_Pool := Some q'\<rparr>)) (s\<lparr>world := w'\<rparr>)"
      using wp_save [OF api, of "s\<lparr>world := w'\<rparr>" p ?q] w'(2) p by simp
    then have "wp (savePool E ?q) (\<lambda>r t. moved B apply view p c (again r) t) (s\<lparr>world := w'\<rparr>)"
      by (rule wp_mono) (auto simp: moved_def again_def intro: drain_move.finish [OF busy])
    then show ?thesis
      by (simp add: finishWork_def Work_def wp_rules w'(1)) (erule wp_mono, auto simp: moved_def again_def wp_return split: option.splits)
  qed
qed

lemma wp_reconcilePool:
  assumes api: "drain_api E req B apply view" and s: "sees view c s" and p: "ds_Pool c = Some p" and ok: "drain_ok E c p"
  shows "wp (reconcilePool E p) (moved B apply view p c) s"
proof -
  have facts: "ValidatePool (np_Spec p) = None" "ps_CompartmentID (np_Spec p) = en_Compartment E" "ps_SubnetID (np_Spec p) = en_Subnet E"
    "st_FrozenSpec (np_Status p) = Some (np_Spec p)" "om_Deleting (np_Meta p)"
    using ok by (simp_all add: drain_ok_def)
  show ?thesis
    using wp_finishWork [OF api s p] wp_reconcileLeases [OF api s p ok] facts
    by (auto simp: reconcilePool_def provisionEmpty_def)
qed

text \<open>The report at the end changes nothing that matters.\<close>

lemma alike_condition: "alike p (set_status (\<lambda>st. st\<lparr>st_Conditions := cs\<rparr>) p)"
  unfolding alike_def by (auto intro!: exI [of _ "om_ResourceVersion (np_Meta p)"] exI [of _ "om_Generation (np_Meta p)"])

definition store_alike :: "drain_store \<Rightarrow> drain_store \<Rightarrow> bool" where
  "store_alike c c' \<longleftrightarrow>
     (case ds_Pool c of None \<Rightarrow> c' = c | Some p \<Rightarrow> (\<exists>p'. alike p p' \<and> c' = c\<lparr>ds_Pool := Some p'\<rparr>))"

lemma store_alike_refl [simp]: "store_alike c c"
  by (auto simp: store_alike_def split: option.split intro!: exI [of _ "the (ds_Pool c)"])

lemma wp_publish:
  assumes api: "drain_api E req B apply view"
  shows "wp (publish E req (Return (r, None))) (\<lambda>_ t. store_alike (view (world s)) (view (world t))) s"
proof (cases "fst req = en_Namespace E")
  case False
  then show ?thesis by (simp add: report_def wp_return)
next
  case True
  let ?get = "kc_GetPool (en_Kube E) req (world s)"
  note get = drain_api_pool [OF api, of "world s"]
  show ?thesis
  proof (cases "ds_Pool (view (world s))")
    case None
    with get obtain e w' where "?get = (Inl e, w')" "view w' = view (world s)" by (metis prod.collapse)
    with True show ?thesis by (simp add: report_def wp_rules)
  next
    case (Some p)
    with get(1,2) obtain w1 where g: "?get = (Inr p, w1)" "view w1 = view (world s)" by (metis prod.collapse)
    let ?q = "set_status (\<lambda>st. st\<lparr>st_Conditions := setStatusCondition (en_Lib E) (st_Conditions st) (reportCondition E p r None)\<rparr>) p"
    have pool: "ds_Pool (view w1) = Some p" using Some g(2) by simp
    have like: "alike p ?q"
      using alike_condition [of p "setStatusCondition (en_Lib E) (st_Conditions (np_Status p)) (reportCondition E p r None)"] by (simp add: set_status_def)
    obtain p' e w' where patch:
      "kc_PatchPoolStatus (en_Kube E) ?q w1 = (e, w')" "alike p p'" "view w' = (view w1)\<lparr>ds_Pool := Some p'\<rparr>"
      by (rule drain_api_patch [OF api pool like])
    then have "store_alike (view (world s)) (view w')" using Some g(2) by (auto simp: store_alike_def)
    with True g patch(1) show ?thesis by (auto simp: report_def wp_rules Let_def)
  qed
qed

lemma wp_Reconcile_drains:
  assumes api: "drain_api E req B apply view" and req: "fst req = en_Namespace E" and p: "ds_Pool (view w) = Some p" and ok: "drain_ok E (view w) p"
  shows "wp (Reconcile E req) (\<lambda>ans t. snd ans = None \<and> (\<exists>c'. drain_move B apply p (view w) c' \<and> store_alike c' (view (world t)))) (mem_start w)"
proof -
  let ?s = "(mem_start w)\<lparr>snapshot := Some []\<rparr>"
  let ?get = "kc_GetPool (en_Kube E) req w"
  have g: "?get = (Inr p, snd ?get)" "view (snd ?get) = view w" using drain_api_pool(1,2) [OF api] p by (metis prod.collapse)+
  have start: "sees view (view w) (?s\<lparr>world := snd ?get\<rparr>)" by (simp add: sees_def g(2))
  have run: "wp (reconcile E req) (moved B apply view p (view w)) ?s"
    using wp_reconcilePool [OF api start p ok] req
    by (simp add: reconcile_def wp_rules mem_start_def, subst g(1)) simp
  show ?thesis
    unfolding Reconcile_def ResetSnapshot_def wp_bind wp_modify wp_return
  proof (rule wp_mono [OF run], goal_cases)
    case (1 f t)
    then obtain r where f: "f = Return (r, None)" and m: "drain_move B apply p (view w) (view (world t))" by (auto simp: moved_def)
    show ?case unfolding f by (rule wp_mono [OF wp_publish [OF api]]) (use m in auto)
  qed
qed


section \<open>The work that is left\<close>

definition shard_ids :: "shard list \<Rightarrow> string set" where
  "shard_ids ss = sh_ID ` set ss - {''''}"

definition objects_on :: "nlb option \<Rightarrow> nat" where
  "objects_on x = (case x of None \<Rightarrow> 0 | Some lb \<Rightarrow> card (dom (map_of (lb_Listeners lb))) + card (dom (map_of (lb_BackendSets lb))))"

definition active_leases :: "nlb_pool \<Rightarrow> nat" where
  "active_leases p = length (filter (\<lambda>(uid, a). \<not> al_Tombstone a) (pool_allocations p))"

text \<open>Every object costs a mutation and the polls of its work request, every lease its retirement, the pool its release.\<close>

definition drain_work :: "nat \<Rightarrow> drain_store \<Rightarrow> nat" where
  "drain_work B c =
     (case ds_Pool c of None \<Rightarrow> 0
      | Some p \<Rightarrow> 1 + (if st_PendingWork (np_Status p) = '''' then 0 else Suc (ds_Polls c)) + active_leases p +
          (B + 3) * (\<Sum>nid \<in> shard_ids (pool_shards p). objects_on (ds_Lbs c nid)))"

definition emptied :: "shard list \<Rightarrow> drain_store \<Rightarrow> bool" where
  "emptied ss c \<longleftrightarrow> (\<forall>nid \<in> shard_ids ss. \<exists>lb. ds_Lbs c nid = Some lb \<and> lb_Listeners lb = [] \<and> lb_BackendSets lb = [])"

lemma finite_shard_ids [simp]: "finite (shard_ids ss)"
  by (simp add: shard_ids_def)

lemma owns_cong: "np_Spec q = np_Spec p \<Longrightarrow> om_UID (np_Meta q) = om_UID (np_Meta p) \<Longrightarrow> owns C q i lb = owns C p i lb"
  by (simp add: owns_def tags_def)

lemma drain_ok_mono:
  assumes ok: "drain_ok E c p" and spec: "np_Spec q = np_Spec p" and meta: "\<exists>v n. np_Meta q = (np_Meta p)\<lparr>om_ResourceVersion := v, om_Generation := n\<rparr>"
    and frozen: "st_FrozenSpec (np_Status q) = st_FrozenSpec (np_Status p)" and shards: "pool_shards q = pool_shards p"
    and leases: "wf_map (pool_allocations q)" "fst ` set (pool_allocations q) = fst ` set (pool_allocations p)"
      "(\<lambda>a. (al_Name a, al_Shard a)) ` snd ` set (pool_allocations q) = (\<lambda>a. (al_Name a, al_Shard a)) ` snd ` set (pool_allocations p)"
    and store: "ds_Bindings c' = ds_Bindings c" "\<And>nid i. shard_clean E p i (ds_Lbs c nid) \<Longrightarrow> shard_clean E p i (ds_Lbs c' nid)"
  shows "drain_ok E c' q"
proof -
  have m: "om_Name (np_Meta q) = om_Name (np_Meta p)" "om_UID (np_Meta q) = om_UID (np_Meta p)" "om_Deleting (np_Meta q) = om_Deleting (np_Meta p)"
    "om_Finalizers (np_Meta q) = om_Finalizers (np_Meta p)" using meta by auto
  have split: "set (ownedNames r i) = fst ` {x \<in> (\<lambda>a. (al_Name a, al_Shard a)) ` snd ` set (pool_allocations r). snd x = i}" for r i
    by (force simp: ownedNames_def map_values_def)
  have "set (ownedNames q i) = set (ownedNames p i)" for i unfolding split leases(3) ..
  then have clean: "shard_clean E q i x \<longleftrightarrow> shard_clean E p i x" for i x
    by (simp add: shard_clean_def owns_cong [OF spec m(2)])
  have "al_Shard ` snd ` set (pool_allocations r) = snd ` (\<lambda>a. (al_Name a, al_Shard a)) ` snd ` set (pool_allocations r)" for r
    by (simp add: image_image)
  then have "al_Shard ` snd ` set (pool_allocations q) = al_Shard ` snd ` set (pool_allocations p)" by (simp only: leases(3))
  moreover have "(\<forall>(uid, a) \<in> set (pool_allocations r). 0 \<le> al_Shard a) \<longleftrightarrow> (\<forall>i \<in> al_Shard ` snd ` set (pool_allocations r). 0 \<le> i)" for r
    by force
  ultimately have "(\<forall>(uid, a) \<in> set (pool_allocations q). 0 \<le> al_Shard a) \<longleftrightarrow> (\<forall>(uid, a) \<in> set (pool_allocations p). 0 \<le> al_Shard a)"
    by (simp only:)
  moreover have "map_of (pool_allocations q) uid = None \<longleftrightarrow> map_of (pool_allocations p) uid = None" for uid
    by (simp add: map_of_eq_None_iff leases(2))
  ultimately show ?thesis using ok store leases(1) unfolding drain_ok_def spec m frozen shards clean by simp
qed

lemma drain_ok_alike:
  assumes "drain_ok E c p" "alike p q" "ds_Bindings c' = ds_Bindings c" "\<And>nid i. shard_clean E p i (ds_Lbs c nid) \<Longrightarrow> shard_clean E p i (ds_Lbs c' nid)"
  shows "drain_ok E c' q"
  by (rule drain_ok_mono [OF assms(1) _ _ _ _ _ _ _ assms(3,4)]) (use assms(1,2) in \<open>auto simp: alike_def drain_ok_def\<close>)

lemma alike_work: "alike p q \<Longrightarrow> drain_work B (c\<lparr>ds_Pool := Some q\<rparr>) = drain_work B (c\<lparr>ds_Pool := Some p\<rparr>)"
  by (simp add: drain_work_def alike_def active_leases_def)

lemma drain_ok_retired:
  assumes ok: "drain_ok E c p" and a: "(uid, a) \<in> set (pool_allocations p)" "\<not> al_Tombstone a"
  shows "drain_ok E c (put_allocation uid (a\<lparr>al_Tombstone := True\<rparr>) p)" and "active_leases (put_allocation uid (a\<lparr>al_Tombstone := True\<rparr>) p) < active_leases p"
proof -
  let ?m = "pool_allocations p" and ?a = "a\<lparr>al_Tombstone := True\<rparr>"
  have wf: "wf_map ?m" using ok by (simp add: drain_ok_def)
  have mem: "map_of ?m uid = Some a" using a(1) wf_map_map_of [OF wf] by blast
  have d: "distinct (map fst ?m)" using wf by (simp add: wf_map_def)
  have same: "np_Meta p = (np_Meta p)\<lparr>om_ResourceVersion := om_ResourceVersion (np_Meta p), om_Generation := om_Generation (np_Meta p)\<rparr>" by simp
  show "drain_ok E c (put_allocation uid ?a p)"
  proof (rule drain_ok_mono [OF ok])
    show "\<exists>v n. np_Meta (put_allocation uid ?a p) = (np_Meta p)\<lparr>om_ResourceVersion := v, om_Generation := n\<rparr>"
      using same by (simp only: put_allocation_simps) blast
    show "fst ` set (pool_allocations (put_allocation uid ?a p)) = fst ` set ?m" using update_keys [OF mem] by simp
    show "(\<lambda>a. (al_Name a, al_Shard a)) ` snd ` set (pool_allocations (put_allocation uid ?a p)) = (\<lambda>a. (al_Name a, al_Shard a)) ` snd ` set ?m"
      using update_values [OF d mem, of "\<lambda>a. (al_Name a, al_Shard a)" ?a] by simp
  qed (simp_all add: wf put_allocation_def set_allocations_def)
  show "active_leases (put_allocation uid ?a p) < active_leases p"
    using length_filter_update [OF d mem, of "\<lambda>(uid, a). \<not> al_Tombstone a" ?a] a(2) by (simp add: active_leases_def)
qed

lemma clean_removed:
  assumes ap: "oci_applies apply" and cl: "shard_clean E p i (Some lb)" and m: "m = DeleteListener nid n \<and> has_key (lb_Listeners lb) n \<or> m = DeleteBackendSet nid n \<and> has_key (lb_BackendSets lb) n"
  shows "objects_on (Some (apply m lb)) < objects_on (Some lb)" and "shard_clean E p j (Some lb) \<Longrightarrow> shard_clean E p j (Some (apply m lb))"
proof -
  let ?lb = "apply m lb"
  have wf: "wf_nlb lb" using cl by (simp add: shard_clean_def)
  then have e: "wf_nlb ?lb" "same_identity lb ?lb" "mutation_effect m lb ?lb" using ap by (simp_all add: oci_applies_def)
  have doms: "dom (map_of (lb_Listeners ?lb)) = dom (map_of (lb_Listeners lb)) - (if m = DeleteListener nid n then {n} else {})"
    "dom (map_of (lb_BackendSets ?lb)) = dom (map_of (lb_BackendSets lb)) - (if m = DeleteBackendSet nid n then {n} else {})"
    using e(3) m by (auto split: if_splits)
  have card: "card (dom (map_of xs) - {n}) < card (dom (map_of xs))" if "has_key xs n" for xs :: "(string, 'x) gomap"
    by (rule card_Diff1_less) (use that in \<open>auto simp: finite_dom_map_of has_key_def\<close>)
  from m show "objects_on (Some ?lb) < objects_on (Some lb)"
    unfolding objects_on_def option.case doms by (elim disjE conjE) (simp_all add: card del: card_Diff_singleton)
  show "shard_clean E p j (Some ?lb)" if "shard_clean E p j (Some lb)"
    using that e(1,2) doms unfolding shard_clean_def by (auto simp: owns_same_identity [OF e(2)]) (simp_all add: same_identity_def)
qed

lemma shard_clean_busy: "shard_clean E (p\<lparr>np_Status := (np_Status p)\<lparr>st_PendingWork := x\<rparr>\<rparr>) i = shard_clean E p i"
  by (simp add: fun_eq_iff shard_clean_def ownedNames_def owns_def tags_def)

lemma drain_ok_busy: "drain_ok E c (p\<lparr>np_Status := (np_Status p)\<lparr>st_PendingWork := x\<rparr>\<rparr>) = drain_ok E c p"
  by (simp add: drain_ok_def shard_clean_busy)

lemma drain_emptied:
  assumes ok: "drain_ok E c p" and gone: "\<And>uid a. (uid, a) \<in> set (pool_allocations p) \<Longrightarrow> \<not> lease_objects c p a"
  shows "emptied (pool_shards p) c"
  unfolding emptied_def
proof
  fix nid assume "nid \<in> shard_ids (pool_shards p)"
  then obtain k where k: "k < length (pool_shards p)" "sh_ID (pool_shards p ! k) = nid" "nid \<noteq> ''''"
    by (auto simp: shard_ids_def in_set_conv_nth)
  then have at: "shard_at (pool_shards p) (int k) = Some (pool_shards p ! k)" by (simp add: shard_at_def)
  then have "shard_clean E p (int k) (ds_Lbs c nid)" using ok k(2,3) by (auto simp: drain_ok_def)
  then obtain lb where lb: "ds_Lbs c nid = Some lb" "dom (map_of (lb_Listeners lb)) \<union> dom (map_of (lb_BackendSets lb)) \<subseteq> set (ownedNames p (int k))"
    by (auto simp: shard_clean_def)
  have "n \<notin> dom (map_of (lb_Listeners lb)) \<union> dom (map_of (lb_BackendSets lb))" for n
  proof
    assume n: "n \<in> dom (map_of (lb_Listeners lb)) \<union> dom (map_of (lb_BackendSets lb))"
    with lb(2) have "n \<in> set (ownedNames p (int k))" by blast
    then obtain uid a where a: "(uid, a) \<in> set (pool_allocations p)" "al_Name a = n" "al_Shard a = int k"
      by (auto simp: ownedNames_def map_values_def)
    then have "provisionedShard p a = Some nid" using at k by (simp add: provisionedShard_def)
    with n lb(1) a(2) have "lease_objects c p a" by (auto simp: lease_objects_def has_key_def)
    with gone [OF a(1)] show False ..
  qed
  then have "dom (map_of (lb_Listeners lb)) = {}" "dom (map_of (lb_BackendSets lb)) = {}" by blast+
  with lb(1) show "\<exists>lb. ds_Lbs c nid = Some lb \<and> lb_Listeners lb = [] \<and> lb_BackendSets lb = []"
    by (simp add: dom_map_of_conv_image_fst)
qed

text \<open>The states between two passes: the pool is under deletion with the shards \<open>ss\<close>, or it is gone and they are empty.\<close>

definition draining :: "'w engine \<Rightarrow> shard list \<Rightarrow> drain_store \<Rightarrow> bool" where
  "draining E ss c \<longleftrightarrow> (case ds_Pool c of None \<Rightarrow> emptied ss c | Some p \<Rightarrow> drain_ok E c p \<and> pool_shards p = ss)"

lemma draining_alike:
  assumes "draining E ss c" "store_alike c c'"
  shows "draining E ss c'" and "drain_work B c' = drain_work B c" and "ds_Pool c' = None \<longleftrightarrow> ds_Pool c = None"
proof -
  have "draining E ss c' \<and> drain_work B c' = drain_work B c \<and> (ds_Pool c' = None \<longleftrightarrow> ds_Pool c = None)"
  proof (cases "ds_Pool c")
    case None
    with assms show ?thesis by (simp add: store_alike_def)
  next
    case (Some p)
    with assms(2) obtain q where q: "alike p q" "c' = c\<lparr>ds_Pool := Some q\<rparr>" by (auto simp: store_alike_def)
    have "drain_ok E c' q" by (rule drain_ok_alike [OF _ q(1)]) (use assms(1) Some q(2) in \<open>simp_all add: draining_def\<close>)
    moreover have "c = c\<lparr>ds_Pool := Some p\<rparr>" using Some by simp
    then have "drain_work B c' = drain_work B c" using alike_work [OF q(1), of B c] q(2) by metis
    moreover have "pool_shards q = ss" using assms(1) Some q(1) by (simp add: draining_def alike_def)
    ultimately show ?thesis using Some q(2) by (simp add: draining_def)
  qed
  then show "draining E ss c'" "drain_work B c' = drain_work B c" "ds_Pool c' = None \<longleftrightarrow> ds_Pool c = None" by simp_all
qed

text \<open>A move whose new pool is a variant of the old one.\<close>

lemma draining_saved:
  assumes "drain_ok E c p'" "alike p' q" "ds_Bindings c' = ds_Bindings c" "\<And>nid i. shard_clean E p' i (ds_Lbs c nid) \<Longrightarrow> shard_clean E p' i (ds_Lbs c' nid)"
  shows "draining E (pool_shards p') (c'\<lparr>ds_Pool := Some q\<rparr>)"
proof -
  have "drain_ok E (c'\<lparr>ds_Pool := Some q\<rparr>) q" by (rule drain_ok_alike [OF assms(1,2)]) (use assms(3,4) in simp_all)
  with assms(2) show ?thesis by (simp add: draining_def alike_def)
qed

lemma draining_step:
  assumes ap: "oci_applies apply" and ok: "drain_ok E c p" and p: "ds_Pool c = Some p" and mv: "drain_move B apply p c c'"
  shows "draining E (pool_shards p) c' \<and> drain_work B c' < drain_work B c"
  using mv
proof cases
  case (poll k)
  have "drain_ok E (c\<lparr>ds_Polls := k\<rparr>) p" by (rule drain_ok_alike [OF ok alike_refl]) simp_all
  then show ?thesis using poll p by (simp add: drain_work_def draining_def)
next
  case (finish q)
  have "draining E (pool_shards p) c'"
    using draining_saved [OF _ finish(3), of E c c] ok finish(1) by (simp add: drain_ok_busy set_status_def)
  with alike_work [OF finish(3), of B c] finish(1,2) p show ?thesis
    by (simp add: drain_work_def active_leases_def set_status_def)
next
  case (retire uid a q)
  have "draining E (pool_shards p) c'"
    using draining_saved [OF drain_ok_retired(1) [OF ok retire(3,4)] retire(5), of c] retire(1) by simp
  with alike_work [OF retire(5), of B c] drain_ok_retired(2) [OF ok retire(3,4)] retire(1) p show ?thesis
    by (simp add: drain_work_def put_allocation_def set_allocations_def)
next
  case (remove uid a nid lb m k work q)
  let ?lbs = "(ds_Lbs c)(nid \<mapsto> apply m lb)"
  obtain s where s: "shard_at (pool_shards p) (al_Shard a) = Some s" "sh_ID s = nid" "nid \<noteq> ''''"
    using remove(4) by (auto simp: provisionedShard_def split: option.splits if_splits)
  then have clean: "shard_clean E p (al_Shard a) (Some lb)" using ok remove(5) by (force simp: drain_ok_def)
  have nid: "nid \<in> shard_ids (pool_shards p)" using s by (auto simp: shard_at_def shard_ids_def split: if_splits)
  note less = clean_removed [OF ap clean remove(6)]
  have "shard_clean E p i (?lbs n)" if "shard_clean E p i (ds_Lbs c n)" for n i using that remove(5) less(2) [of i] by auto
  then have "draining E (pool_shards p) c'"
    using draining_saved [OF _ remove(8), of E c "c\<lparr>ds_Lbs := ?lbs, ds_Polls := k\<rparr>"] ok remove(1)
    by (simp add: drain_ok_busy shard_clean_busy set_status_def)
  moreover have "(\<Sum>n \<in> shard_ids (pool_shards p). objects_on (?lbs n)) < (\<Sum>n \<in> shard_ids (pool_shards p). objects_on (ds_Lbs c n))"
    by (rule sum_changed_at(2) [OF _ _ nid]) (use less(1) remove(5) in simp_all)
  then have "(B + 3) * Suc (\<Sum>n \<in> shard_ids (pool_shards p). objects_on (?lbs n)) \<le> (B + 3) * (\<Sum>n \<in> shard_ids (pool_shards p). objects_on (ds_Lbs c n))"
    by (intro mult_le_mono2) simp
  ultimately show ?thesis
    using alike_work [OF remove(8), of B "c\<lparr>ds_Lbs := ?lbs, ds_Polls := k\<rparr>"] remove(1,2,7,9) p
    by (simp add: drain_work_def active_leases_def set_status_def)
next
  case release
  have "emptied (pool_shards p) c" by (rule drain_emptied [OF ok]) (use release(3) in blast)
  then show ?thesis using release(1) p by (simp add: draining_def emptied_def drain_work_def)
qed

section \<open>Repeated reconciliations\<close>

text \<open>One reconciliation of the pool, from the contents of the services to their contents.\<close>

definition drain_pass :: "'w engine \<Rightarrow> object_key \<Rightarrow> 'w \<Rightarrow> 'w" where
  "drain_pass E req w = world (snd (run_state (Reconcile E req) (mem_start w)))"

lemma Reconcile_gone:
  assumes api: "drain_api E req B apply view" and gone: "ds_Pool (view w) = None" and req: "fst req = en_Namespace E"
  shows "wp (Reconcile E req) (\<lambda>ans t. ans = (NoRequeue, None) \<and> writes t = [] \<and> view (world t) = view w) (mem_start w)"
proof -
  have get: "\<exists>e w'. kc_GetPool (en_Kube E) req v = (Inl e, w') \<and> is_not_found e \<and> view w' = view w" if "view v = view w" for v
    using drain_api_pool(1,3) [OF api, of v] gone that by (metis prod.collapse)
  obtain e1 w1 where g1: "kc_GetPool (en_Kube E) req w = (Inl e1, w1)" "is_not_found e1" "view w1 = view w" using get by blast
  obtain e2 w2 where g2: "kc_GetPool (en_Kube E) req w1 = (Inl e2, w2)" "is_not_found e2" "view w2 = view w" using get [OF g1(3)] by blast
  show ?thesis
    using req by (simp add: Reconcile_def reconcile_def report_def ResetSnapshot_def wp_rules mem_start_def g1 g2)
qed

lemma drain_pass_step:
  assumes api: "drain_api E req B apply view" and req: "fst req = en_Namespace E" and d: "draining E ss (view w)" and p: "ds_Pool (view w) \<noteq> None"
  shows "draining E ss (view (drain_pass E req w)) \<and> drain_work B (view (drain_pass E req w)) < drain_work B (view w)"
proof -
  obtain p where p: "ds_Pool (view w) = Some p" "drain_ok E (view w) p" "pool_shards p = ss" using p d by (auto simp: draining_def)
  obtain c' where mv: "drain_move B apply p (view w) c'" "store_alike c' (view (drain_pass E req w))"
    using wp_Reconcile_drains [OF api req p(1,2)] by (auto simp: wp_def drain_pass_def split: prod.splits)
  have "draining E ss c' \<and> drain_work B c' < drain_work B (view w)"
    using draining_step [OF drain_api_rest(1) [OF api] p(2,1) mv(1)] p(3) by simp
  with draining_alike(1) [OF _ mv(2), of E ss] draining_alike(2) [OF _ mv(2), of E ss B] show ?thesis by simp
qed

interpretation drain_progress: progressing "drain_pass E req"
  "\<lambda>w. drain_api E req B apply view \<and> fst req = en_Namespace E \<and> draining E ss (view w)" "\<lambda>w. drain_work B (view w)" "\<lambda>w. ds_Pool (view w) = None"
  for E :: "'w engine" and req B "apply" view ss
proof (unfold_locales, goal_cases)
  case (1 w)
  show ?case
  proof (cases "ds_Pool (view w) = None")
    case True
    with 1 Reconcile_gone [of E req B "apply" view w] show ?thesis by (auto simp: wp_def drain_pass_def split: prod.splits)
  next
    case False
    with 1 drain_pass_step [of E req B "apply" view ss w] show ?thesis by simp
  qed
next
  case (2 w)
  with drain_pass_step [of E req B "apply" view ss w] show ?case by simp
next
  case (3 w)
  with Reconcile_gone [of E req B "apply" view w] show ?case by (auto simp: wp_def drain_pass_def split: prod.splits)
qed

text \<open>
  C5. A deleted pool drains.  The services work as \<^const>\<open>drain_api\<close> says.  At the start, as \<^const>\<open>drain_ok\<close> says, the
  pool is valid, under deletion with the engine's finalizer alone, in the engine's compartment and subnet and
  as frozen; no binding names it or holds one of its leases; and the load balancer of every recorded shard is the
  pool's own, active and carries nothing but objects named in its ledger.  Then as many reconciliations as the
  counted work says give the pool up, every load balancer it recorded has neither a listener nor a backend set
  left, and the next reconciliation answers without error or requeue and writes nothing.
\<close>

theorem pool_drains:
  assumes "drain_api E req B apply view" and "fst req = en_Namespace E" and "ds_Pool (view w) = Some p" and "drain_ok E (view w) p"
    and "drain_work B (view w) \<le> n"
  shows "ds_Pool (view ((drain_pass E req ^^ n) w)) = None \<and> emptied (pool_shards p) (view ((drain_pass E req ^^ n) w)) \<and>
    (\<exists>s'. run_state (Reconcile E req) (mem_start ((drain_pass E req ^^ n) w)) = ((NoRequeue, None), s') \<and>
       writes s' = [] \<and> view (world s') = view ((drain_pass E req ^^ n) w))"
proof -
  let ?w = "(drain_pass E req ^^ n) w"
  have "draining E (pool_shards p) (view w)" using assms(3,4) by (simp add: draining_def)
  with drain_progress.settles_in_work [of E req B "apply" view "pool_shards p" w n] assms(1,2,5)
  have rest: "draining E (pool_shards p) (view ?w)" "ds_Pool (view ?w) = None" by simp_all
  with Reconcile_gone [OF assms(1) rest(2) assms(2)] show ?thesis
    by (auto simp: draining_def wp_def split: prod.splits)
qed

section \<open>A concrete installation\<close>

text \<open>Services that keep their contents in a \<^typ>\<open>drain_store\<close>; a work request needs one further poll.\<close>

definition drain_kube :: "drain_store kube_client" where
  "drain_kube = (fixed_kube demo_pool [])\<lparr>
     kc_GetPool := (\<lambda>k c. (case ds_Pool c of Some p \<Rightarrow> Inr p | None \<Rightarrow> Inl (NotFound (snd k)), c)),
     kc_ListBindings := (\<lambda>ns c. (Inr (ds_Bindings c), c)),
     kc_UpdatePool := (\<lambda>q c. (None, c\<lparr>ds_Pool := if om_Deleting (np_Meta q) \<and> om_Finalizers (np_Meta q) = [] then None else Some q\<rparr>)),
     kc_UpdatePoolStatus := (\<lambda>q c. (None, c\<lparr>ds_Pool := Some q\<rparr>)), kc_PatchPoolStatus := (\<lambda>q c. (None, c\<lparr>ds_Pool := Some q\<rparr>))\<rparr>"

definition drain_mutate :: "oci_mutation \<Rightarrow> drain_store \<Rightarrow> (go_error + (string option \<times> string option)) \<times> drain_store" where
  "drain_mutate m c =
     (case Option.bind (mutation_target m) (\<lambda>(nid, n). map_option (Pair nid) (ds_Lbs c nid)) of
        None \<Rightarrow> (Inl (ApiError ''bad request''), c)
      | Some (nid, lb) \<Rightarrow> (Inr (None, Some ''work''), c\<lparr>ds_Lbs := (ds_Lbs c)(nid \<mapsto> ideal_apply m lb), ds_Polls := 1\<rparr>))"

definition drain_client :: "drain_store oci_client" where
  "drain_client = \<lparr>oc_GetNLB = (\<lambda>nid c. (case ds_Lbs c nid of None \<Rightarrow> Inl (NotFound nid) | Some lb \<Rightarrow> Inr lb, c)),
     oc_ListNLBs = (\<lambda>comp page c. (Inr ([], None), c)), oc_Mutate = drain_mutate,
     oc_GetWorkRequest = (\<lambda>i c. (case ds_Polls c of 0 \<Rightarrow> (Inr ''SUCCEEDED'', c) | Suc k \<Rightarrow> (Inr ''IN_PROGRESS'', c\<lparr>ds_Polls := k\<rparr>)))\<rparr>"

definition drain_engine :: "drain_store engine" where
  "drain_engine = \<lparr>en_Cloud = \<lparr>cd_Client = drain_client, cd_Installation = ''inst'', cd_CtxErr = (\<lambda>c. None), cd_PageFuel = 1\<rparr>,
     en_Kube = drain_kube, en_Lib = list_lib, en_ServiceError = (\<lambda>e. None), en_Namespace = ''ns'', en_Compartment = ''comp'', en_Subnet = ''subnet''\<rparr>"

text \<open>A pool under deletion with an active lease whose listener and backend set still exist.\<close>

definition leaving_pool :: nlb_pool where
  "leaving_pool = \<lparr>np_Meta = (meta_named ''ns'' ''pool'' ''pool-uid'')\<lparr>om_Deleting := True, om_Finalizers := [Finalizer]\<rparr>,
     np_Spec = demo_spec, np_Status = empty_status\<lparr>st_FrozenSpec := Some demo_spec, st_Allocations := [(''u2'', demo_active)],
       st_Shards := [\<lparr>sh_ID = ''nlb-1'', sh_PublicIP = ''203.0.113.7''\<rparr>]\<rparr>\<rparr>"

definition leaving_nlb :: nlb where
  "leaving_nlb = (created_nlb (createDetails (en_Cloud drain_engine) leaving_pool 0))\<lparr>
     lb_Listeners := [(leaseName ''u2'', wantedListener demo_active)],
     lb_BackendSets := [(leaseName ''u2'', wantedSet leaving_pool demo_active demo_backends 8080 [])]\<rparr>"

definition leaving_store :: drain_store where
  "leaving_store = \<lparr>ds_Pool = Some leaving_pool, ds_Bindings = [], ds_Lbs = [''nlb-1'' \<mapsto> leaving_nlb], ds_Polls = 0\<rparr>"

lemma drain_engine_api: "drain_api drain_engine req 1 ideal_apply (\<lambda>c. c)"
  unfolding drain_api_def
proof (intro conjI allI impI, goal_cases)
  case 1
  show ?case by (rule oci_applies_ideal)
qed (auto simp: drain_engine_def drain_kube_def drain_client_def drain_mutate_def fixed_kube_def list_lib_def is_not_found_def
    split: option.splits nat.splits, metis alike_refl)

lemma shard_at_single: "shard_at [s] i = Some t \<longleftrightarrow> i = 0 \<and> t = s"
  by (auto simp: shard_at_def)

lemma leaving_store_ok: "drain_ok drain_engine leaving_store leaving_pool"
  by (auto simp: drain_ok_def shard_clean_def leaving_store_def leaving_pool_def leaving_nlb_def drain_engine_def demo_defs ValidatePool_def
      validateMode_def workerLimit_def wf_map_def wf_nlb_def owns_def tags_def created_nlb_def createDetails_def ownedNames_def map_values_def
      shard_at_single Let_def)

lemma leaving_store_work: "drain_work 1 leaving_store = 10"
  by (simp add: drain_work_def leaving_store_def leaving_pool_def empty_status_def active_leases_def shard_ids_def objects_on_def
      leaving_nlb_def demo_active_def demo_defs)

theorem pool_drains_witness:
  "lb_Listeners leaving_nlb \<noteq> [] \<and> ds_Pool ((drain_pass drain_engine (''ns'', ''pool'') ^^ 10) leaving_store) = None \<and>
   (\<exists>lb. ds_Lbs ((drain_pass drain_engine (''ns'', ''pool'') ^^ 10) leaving_store) ''nlb-1'' = Some lb \<and> lb_Listeners lb = [] \<and> lb_BackendSets lb = [])"
  using pool_drains [OF drain_engine_api _ _ leaving_store_ok, of "(''ns'', ''pool'')" 10] leaving_store_work
  by (simp add: emptied_def shard_ids_def leaving_pool_def leaving_store_def drain_engine_def leaving_nlb_def)

end
