(* ===== verification/Engine_Store.thy ===== *)
theory Engine_Store
  imports Engine_Drains
begin

text \<open>
  What an engine at work finds and leaves behind.  The contents of the services are those of
  \<open>Engine_Drains\<close>; the cluster (Services, EndpointSlices, Pods, nodes) does not change meanwhile.  This theory
  says what is wanted for a binding, which contents are sound, how much work they leave, and that every
  kind of change the engine makes keeps them sound.
\<close>

section \<open>Bindings up to their status\<close>

text \<open>The same binding, up to what its status, its finalizers and the server's version say.\<close>

definition binding_like :: "tunnel_binding \<Rightarrow> tunnel_binding \<Rightarrow> bool" where
  "binding_like b b' \<longleftrightarrow>
     tb_Spec b' = tb_Spec b \<and> (\<exists>v fs. tb_Meta b' = (tb_Meta b)\<lparr>om_ResourceVersion := v, om_Finalizers := fs\<rparr>)"

lemma binding_like_fields:
  assumes "binding_like b b'"
  shows "tb_Spec b' = tb_Spec b" "binding_uid b' = binding_uid b" "om_Namespace (tb_Meta b') = om_Namespace (tb_Meta b)"
    "om_Name (tb_Meta b') = om_Name (tb_Meta b)" "om_Generation (tb_Meta b') = om_Generation (tb_Meta b)"
    "om_Deleting (tb_Meta b') = om_Deleting (tb_Meta b)"
  using assms by (auto simp: binding_like_def)

lemma binding_like_refl [simp]: "binding_like b b"
  unfolding binding_like_def by (auto intro!: exI [of _ "om_ResourceVersion (tb_Meta b)"] exI [of _ "om_Finalizers (tb_Meta b)"])

lemma binding_like_trans: "binding_like a b \<Longrightarrow> binding_like b c \<Longrightarrow> binding_like a c"
  unfolding binding_like_def by (elim conjE exE) (simp, blast)

text \<open>The resolution of a binding reads its namespace and its specification only.\<close>

lemma refersToPod_like: "binding_like b b' \<Longrightarrow> refersToPod b' = refersToPod b"
  unfolding refersToPod_def by (simp only: binding_like_fields)

lemma readEndpointPod_like: "binding_like b b' \<Longrightarrow> readEndpointPod L R b' = readEndpointPod L R b"
  unfolding readEndpointPod_def fun_eq_iff by (simp only: refersToPod_like binding_like_fields) simp

lemma scanEndpoints_like: "binding_like b b' \<Longrightarrow> scanEndpoints b' eps found gone = scanEndpoints b eps found gone"
  by (induction eps arbitrary: found gone) (simp_all add: refersToPod_like)

lemma scanSlices_like: "binding_like b b' \<Longrightarrow> scanSlices b' svc ss found gone = scanSlices b svc ss found gone"
  by (induction ss arbitrary: found gone) (simp_all add: scanEndpoints_like hasUdpPort_def binding_like_fields split: sum.split)

lemma drainingOwners_like: "binding_like b b' \<Longrightarrow> drainingOwners L R b' svc eps owners = drainingOwners L R b svc eps owners"
  by (induction eps arbitrary: owners) (simp_all add: readEndpointPod_like split: sum.split)

lemma Resolve_like:
  assumes l: "binding_like b b'"
  shows "Resolve L R b' a = Resolve L R b a"
proof -
  note same = binding_like_fields [OF l] readEndpointPod_like [OF l]
  have candidate: "podIPCandidate L R b' = podIPCandidate L R b" unfolding podIPCandidate_def same ..
  have slices: "podIPSlices L R b' svc udp ss chosen = podIPSlices L R b svc udp ss chosen" for svc udp ss chosen
    by (induction ss arbitrary: chosen) (simp_all add: candidate split: sum.split)
  have pod: "resolvePodIP L R b' = resolvePodIP L R b"
    unfolding fun_eq_iff resolvePodIP_def validateBindingService_def listServiceSlices_def slices same by simp
  have node: "resolveNodePort L R b' = resolveNodePort L R b"
    unfolding fun_eq_iff resolveNodePort_def healthNodePort_def udpNodePort_def listServiceSlices_def resolveGap_def
      scanSlices_like [OF l] drainingOwners_like [OF l] same by simp
  show ?thesis unfolding Resolve_def readServiceFor_def same pod node ..
qed

section \<open>What is wanted\<close>

text \<open>The lists a snapshot of the cluster is made from.\<close>

record cluster =
  cu_services :: "service list"
  cu_slices :: "endpoint_slice list"
  cu_pods :: "pod list"
  cu_nodes :: "node list"

definition snapshot_of :: "cluster \<Rightarrow> endpoint_snapshot" where
  "snapshot_of cl = \<lparr>sn_services = index_by sv_Meta (cu_services cl), sn_pods = index_by pd_Meta (cu_pods cl),
     sn_nodes = index_by nd_Meta (cu_nodes cl), sn_slices = cu_slices cl\<rparr>"

definition reader_of :: "kube_lib \<Rightarrow> cluster \<Rightarrow> reader" where
  "reader_of L cl = snapshotReader L None (snapshot_of cl)"

text \<open>The destination of a binding, for a lease with the Service's present UID.\<close>

definition served_by :: "kube_lib \<Rightarrow> cluster \<Rightarrow> tunnel_binding \<Rightarrow> go_error + backend" where
  "served_by L cl b =
     (case rd_GetService (reader_of L cl) (om_Namespace (tb_Meta b), bs_Service (tb_Spec b)) of
        Inl e \<Rightarrow> Inl (endpointGetError e)
      | Inr svc \<Rightarrow> Resolve L (reader_of L cl) b (newAllocation b (om_UID (sv_Meta svc)) 0 0))"

definition place :: "kube_lib \<Rightarrow> cluster \<Rightarrow> tunnel_binding \<Rightarrow> (string \<times> int) option" where
  "place L cl b = (case served_by L cl b of Inl _ \<Rightarrow> None | Inr k \<Rightarrow> Some (bk_IP k, bk_Port k))"

text \<open>An answer that will not change while the cluster stays as it is: no failed read and no gap to wait out.\<close>

definition definite :: "go_error + backend \<Rightarrow> bool" where
  "definite r \<longleftrightarrow> (case r of Inl e \<Rightarrow> \<not> as_endpoint_read e \<and> as_backend_unavailable e = None | Inr _ \<Rightarrow> True)"

text \<open>The backends, the health port and the problem to report for a leased binding.\<close>

definition wanted :: "kube_lib \<Rightarrow> cluster \<Rightarrow> nlb_pool \<Rightarrow> tunnel_binding \<Rightarrow> allocation \<Rightarrow> backend list \<times> int \<times> go_error option" where
  "wanted L cl p b a =
     (if bs_HealthPort (tb_Spec b) < 1 \<or> 65535 < bs_HealthPort (tb_Spec b) then ([], 9, Some (Errorf ''invalid healthPort''))
      else if bs_Suspended (tb_Spec b) then ([], bs_HealthPort (tb_Spec b), Some (Errorf ''Gateway adapter rejected this route''))
      else if targetChanged p b a
      then ([], bs_HealthPort (tb_Spec b), Some (Errorf ''binding target fields immutable; restore original spec''))
      else (case Resolve L (reader_of L cl) b a of
              Inl e \<Rightarrow> ([], bs_HealthPort (tb_Spec b), Some e)
            | Inr k \<Rightarrow> ([k], bs_HealthPort (tb_Spec b), None)))"

definition wants :: "kube_lib \<Rightarrow> cluster \<Rightarrow> nlb_pool \<Rightarrow> tunnel_binding \<Rightarrow> allocation \<Rightarrow> nlb \<Rightarrow> bool" where
  "wants L cl p b a lb = (case wanted L cl p b a of (backends, hp, problem) \<Rightarrow> converged p a backends hp lb)"

text \<open>Why a binding without a lease gets none.\<close>

definition refusal :: "kube_lib \<Rightarrow> cluster \<Rightarrow> nlb_pool \<Rightarrow> tunnel_binding \<Rightarrow> go_error option" where
  "refusal L cl p b =
     (if bs_Suspended (tb_Spec b) then Some (Errorf ''Gateway adapter rejected this route'')
      else (case checkService b (ps_PreserveSource (np_Spec p))
                   (rd_GetService (reader_of L cl) (om_Namespace (tb_Meta b), bs_Service (tb_Spec b))) of
              Inl e \<Rightarrow> Some e
            | Inr (svc, nodePort) \<Rightarrow> (case Allocate p b (om_UID (sv_Meta svc)) of Inl e \<Rightarrow> Some e | Inr _ \<Rightarrow> None)))"

text \<open>A binding of the pool: it names it or holds one of its leases.\<close>

definition mine :: "nlb_pool \<Rightarrow> tunnel_binding \<Rightarrow> bool" where
  "mine p b \<longleftrightarrow> bs_Pool (tb_Spec b) = om_Name (np_Meta p) \<or> map_of (pool_allocations p) (binding_uid b) \<noteq> None"

text \<open>The status a binding is given.\<close>

definition statusFor :: "kube_lib \<Rightarrow> nlb_pool \<Rightarrow> tunnel_binding \<Rightarrow> allocation option \<Rightarrow> go_error option \<Rightarrow> binding_status" where
  "statusFor L p b a problem =
     (let st = (tb_Status b)\<lparr>bt_Conditions := setStatusCondition L (bt_Conditions (tb_Status b)) (configured_condition b problem)\<rparr>
      in case Option.bind a (\<lambda>a. map_option (\<lambda>s. (a, s)) (shard_at (pool_shards p) (al_Shard a))) of
           None \<Rightarrow> st
         | Some (a, s) \<Rightarrow> st\<lparr>bt_ExternalIP := sh_PublicIP s, bt_ExternalPort := al_Port a, bt_NLBID := sh_ID s, bt_BackendSet := al_Name a\<rparr>)"

definition dueStatus :: "kube_lib \<Rightarrow> cluster \<Rightarrow> nlb_pool \<Rightarrow> tunnel_binding \<Rightarrow> binding_status" where
  "dueStatus L cl p b =
     (case map_of (pool_allocations p) (binding_uid b) of
        None \<Rightarrow> statusFor L p b None (refusal L cl p b)
      | Some a \<Rightarrow> statusFor L p b (Some a) (snd (snd (wanted L cl p b a))))"

section \<open>Sound contents\<close>

text \<open>The leases in force on a shard.\<close>

definition held :: "nlb_pool \<Rightarrow> int \<Rightarrow> allocation set" where
  "held p i = {a \<in> snd ` set (pool_allocations p). \<not> al_Tombstone a \<and> al_Shard a = i}"

text \<open>
  A load balancer of shard \<open>i\<close>: the pool's own and active, with listeners and backend sets of leases in force
  only, the listeners as they were created, and nobody's backend where a binding's destination belongs.
\<close>

definition lb_ready :: "'w engine \<Rightarrow> cluster \<Rightarrow> tunnel_binding list \<Rightarrow> nlb_pool \<Rightarrow> int \<Rightarrow> nlb \<Rightarrow> bool" where
  "lb_ready E cl bs p i lb \<longleftrightarrow>
     wf_nlb lb \<and> owns (en_Cloud E) p i lb \<and> lb_LifecycleState lb = ''ACTIVE'' \<and>
     (\<forall>n l. map_of (lb_Listeners lb) n = Some l \<longrightarrow> (\<exists>a \<in> held p i. al_Name a = n \<and> listenerMatches a l)) \<and>
     (\<forall>n s. map_of (lb_BackendSets lb) n = Some s \<longrightarrow>
        n \<in> al_Name ` held p i \<and> int (length (os_Backends s)) \<le> workerLimit (np_Spec p) \<and>
        (\<forall>x \<in> set (os_Backends s). \<forall>b \<in> set bs. mine p b \<longrightarrow>
           place (en_Lib E) cl b = Some (vstr (ob_IpAddress x), vint (ob_Port x)) \<longrightarrow> n = leaseName (binding_uid b)))"

text \<open>The tags by which a shard of the pool is found in a listing.\<close>

definition tagged :: "'w engine \<Rightarrow> nlb_pool \<Rightarrow> int \<Rightarrow> nlb \<Rightarrow> bool" where
  "tagged E p i lb \<longleftrightarrow>
     get_or '''' (lb_FreeformTags lb) ''installation'' = cd_Installation (en_Cloud E) \<and>
     get_or '''' (lb_FreeformTags lb) ''pool-uid'' = om_UID (np_Meta p) \<and>
     get_or '''' (lb_FreeformTags lb) ''shard'' = itoa i \<and> lb_LifecycleState lb \<noteq> ''DELETED''"

text \<open>
  The load balancers of the pool: at most one for a shard, ready, and the recorded shards are among them.
\<close>

definition family_ok :: "'w engine \<Rightarrow> cluster \<Rightarrow> tunnel_binding list \<Rightarrow> (string \<Rightarrow> nlb option) \<Rightarrow> nlb_pool \<Rightarrow> bool" where
  "family_ok E cl bs lbs p \<longleftrightarrow>
     (\<forall>nid lb i. lbs nid = Some lb \<longrightarrow> tagged E p i lb \<longrightarrow>
        nid \<noteq> '''' \<and> lb_ready E cl bs p i lb \<and>
        (\<forall>nid' lb'. lbs nid' = Some lb' \<longrightarrow> tagged E p i lb' \<longrightarrow> nid' = nid)) \<and>
     (\<forall>i s. shard_at (pool_shards p) i = Some s \<longrightarrow> sh_ID s \<noteq> '''' \<longrightarrow> (\<exists>lb. lbs (sh_ID s) = Some lb \<and> tagged E p i lb))"

text \<open>The bindings: none is going away, their destinations are known and differ, the names made from their UIDs too.\<close>

definition bindings_ok :: "kube_lib \<Rightarrow> cluster \<Rightarrow> nlb_pool \<Rightarrow> tunnel_binding list \<Rightarrow> bool" where
  "bindings_ok L cl p bs \<longleftrightarrow>
     distinct (map binding_uid bs) \<and> inj_on leaseName (fst ` set (pool_allocations p) \<union> binding_uid ` set bs) \<and>
     (\<forall>b \<in> set bs. mine p b \<longrightarrow> \<not> om_Deleting (tb_Meta b) \<and> bs_Mode (tb_Spec b) \<noteq> ''NodePortCluster'' \<and> definite (served_by L cl b) \<and>
        (\<forall>k. served_by L cl b = Inr k \<longrightarrow> ps_PreserveSource (np_Spec p) \<longrightarrow> bk_TargetID k \<noteq> '''') \<and>
        (\<forall>b' \<in> set bs. mine p b' \<longrightarrow> place L cl b \<noteq> None \<longrightarrow> place L cl b' = place L cl b \<longrightarrow> binding_uid b' = binding_uid b))"

definition serve_ok :: "'w engine \<Rightarrow> cluster \<Rightarrow> drain_store \<Rightarrow> nlb_pool \<Rightarrow> bool" where
  "serve_ok E cl c p \<longleftrightarrow>
     pool_ok p \<and> ps_CompartmentID (np_Spec p) = en_Compartment E \<and> ps_SubnetID (np_Spec p) = en_Subnet E \<and>
     \<not> om_Deleting (np_Meta p) \<and> (st_FrozenSpec (np_Status p) = None \<or> st_FrozenSpec (np_Status p) = Some (np_Spec p)) \<and>
     (\<forall>(uid, a) \<in> set (pool_allocations p). al_Mode a \<noteq> ''NodePortCluster'' \<and> (al_Tombstone a \<longleftrightarrow> uid \<notin> binding_uid ` set (ds_Bindings c))) \<and>
     bindings_ok (en_Lib E) cl p (ds_Bindings c) \<and> family_ok E cl (ds_Bindings c) (ds_Lbs c) p"

section \<open>The work that is left\<close>

definition shard_now :: "string \<Rightarrow> nlb \<Rightarrow> shard" where
  "shard_now nid lb = \<lparr>sh_ID = nid, sh_PublicIP = publicIP (lb_IpAddresses lb)\<rparr>"

text \<open>A shard is found or created (a mutation, its polls, then its address), or its record is brought up to date.\<close>

definition shard_cost :: "nat \<Rightarrow> (string \<Rightarrow> nlb option) \<Rightarrow> nlb_pool \<Rightarrow> int \<Rightarrow> nat" where
  "shard_cost B lbs p i =
     (case shard_at (pool_shards p) i of
        None \<Rightarrow> B + 5
      | Some s \<Rightarrow> (if sh_ID s = '''' then B + 5
          else case lbs (sh_ID s) of None \<Rightarrow> 0 | Some lb \<Rightarrow> (if s = shard_now (sh_ID s) lb then 0 else 1)))"

definition lease_lb :: "(string \<Rightarrow> nlb option) \<Rightarrow> nlb_pool \<Rightarrow> allocation \<Rightarrow> nlb option" where
  "lease_lb lbs p a = Option.bind (provisionedShard p a) lbs"

text \<open>A backend set that is not as wanted and a listener that is missing take a mutation with its polls each.\<close>

definition object_work :: "nat \<Rightarrow> kube_lib \<Rightarrow> cluster \<Rightarrow> nlb_pool \<Rightarrow> tunnel_binding \<Rightarrow> allocation \<Rightarrow> nlb option \<Rightarrow> nat" where
  "object_work B L cl p b a x =
     (case x of None \<Rightarrow> 2 * (B + 3)
      | Some lb \<Rightarrow> (case wanted L cl p b a of (backends, hp, problem) \<Rightarrow>
          (if \<exists>s. map_of (lb_BackendSets lb) (al_Name a) = Some s \<and> setMatches p a backends hp s then 0 else B + 3) +
          (if map_of (lb_Listeners lb) (al_Name a) \<noteq> None then 0 else B + 3)))"

definition binding_work :: "nat \<Rightarrow> 'w engine \<Rightarrow> cluster \<Rightarrow> (string \<Rightarrow> nlb option) \<Rightarrow> nlb_pool \<Rightarrow> tunnel_binding \<Rightarrow> nat" where
  "binding_work B E cl lbs p b =
     (if \<not> mine p b then 0
      else (if has_finalizer E (tb_Meta b) then 0 else 1) +
        (case map_of (pool_allocations p) (binding_uid b) of
           None \<Rightarrow> 1 + (B + 5) + 2 * (B + 3)
         | Some a \<Rightarrow> shard_cost B lbs p (al_Shard a) + object_work B (en_Lib E) cl p b a (lease_lb lbs p a)))"

definition serve_work :: "nat \<Rightarrow> 'w engine \<Rightarrow> cluster \<Rightarrow> drain_store \<Rightarrow> nat" where
  "serve_work B E cl c =
     (case ds_Pool c of None \<Rightarrow> 0
      | Some p \<Rightarrow>
          (if has_finalizer E (np_Meta p) then 0 else 1) + (if st_FrozenSpec (np_Status p) = None then 1 else 0) +
          (if st_PendingWork (np_Status p) = '''' then 0 else Suc (ds_Polls c)) +
          (if ps_ProvisionEmpty (np_Spec p) then shard_cost B (ds_Lbs c) p 0 else 0) +
          (\<Sum>b \<leftarrow> ds_Bindings c. binding_work B E cl (ds_Lbs c) p b))"

section \<open>What does not matter\<close>

subsection \<open>Statuses and finalizers of bindings\<close>

lemma newAllocation_like: "binding_like b b' \<Longrightarrow> newAllocation b' = newAllocation b"
  unfolding newAllocation_def by (simp only: binding_like_fields)

lemma served_by_like: "binding_like b b' \<Longrightarrow> served_by L cl b' = served_by L cl b"
  unfolding served_by_def by (simp only: binding_like_fields newAllocation_like Resolve_like)

lemma place_like: "binding_like b b' \<Longrightarrow> place L cl b' = place L cl b"
  unfolding place_def by (simp only: served_by_like)

lemma mine_like: "binding_like b b' \<Longrightarrow> mine p b' = mine p b"
  unfolding mine_def by (simp only: binding_like_fields)

lemma wanted_like: "binding_like b b' \<Longrightarrow> wanted L cl p b' a = wanted L cl p b a"
  unfolding wanted_def targetChanged_def by (simp only: binding_like_fields Resolve_like)

lemma checkService_like: "binding_like b b' \<Longrightarrow> checkService b' = checkService b"
  unfolding checkService_def validateBindingService_def clusterServicePort_def by (simp only: binding_like_fields)

lemma Allocate_like: "binding_like b b' \<Longrightarrow> Allocate p b' = Allocate p b"
  unfolding Allocate_def allocateSlot_def requestedPortError_def by (simp only: binding_like_fields newAllocation_like)

lemma refusal_like: "binding_like b b' \<Longrightarrow> refusal L cl p b' = refusal L cl p b"
  unfolding refusal_def by (simp only: binding_like_fields checkService_like Allocate_like)

lemmas like_simps = binding_like_fields served_by_like place_like mine_like wanted_like refusal_like

abbreviation likes :: "tunnel_binding list \<Rightarrow> tunnel_binding list \<Rightarrow> bool" where
  "likes \<equiv> list_all2 binding_like"

lemma likes_all:
  assumes "likes bs bs'" "\<And>b b'. binding_like b b' \<Longrightarrow> P b' = P b"
  shows "(\<forall>b \<in> set bs'. P b) \<longleftrightarrow> (\<forall>b \<in> set bs. P b)"
  using assms by (induction rule: list_all2_induct) auto

lemma likes_uids: "likes bs bs' \<Longrightarrow> map binding_uid bs' = map binding_uid bs"
  by (induction rule: list_all2_induct) (simp_all add: binding_like_fields)

lemma likes_uid_set: "likes bs bs' \<Longrightarrow> binding_uid ` set bs' = binding_uid ` set bs"
  using likes_uids by (metis list.set_map)

lemma bindings_ok_likes:
  assumes l: "likes bs bs'"
  shows "bindings_ok L cl p bs' = bindings_ok L cl p bs"
proof -
  let ?far = "\<lambda>b b'. mine p b' \<longrightarrow> place L cl b \<noteq> None \<longrightarrow> place L cl b' = place L cl b \<longrightarrow> binding_uid b' = binding_uid b"
  have far: "(\<forall>x \<in> set bs'. ?far b x) \<longleftrightarrow> (\<forall>x \<in> set bs. ?far b x)" for b
    by (rule likes_all [OF l]) (simp add: like_simps)
  show ?thesis
    unfolding bindings_ok_def likes_uids [OF l] likes_uid_set [OF l] far
    by (intro conj_cong refl likes_all [OF l]) (simp add: like_simps)
qed

lemma lb_ready_likes:
  assumes l: "likes bs bs'"
  shows "lb_ready E cl bs' p i lb = lb_ready E cl bs p i lb"
proof -
  have "(\<forall>b \<in> set bs'. mine p b \<longrightarrow> place (en_Lib E) cl b = x \<longrightarrow> n = leaseName (binding_uid b)) \<longleftrightarrow>
      (\<forall>b \<in> set bs. mine p b \<longrightarrow> place (en_Lib E) cl b = x \<longrightarrow> n = leaseName (binding_uid b))" for x n
    by (rule likes_all [OF l]) (simp add: like_simps)
  then show ?thesis unfolding lb_ready_def by (simp only:)
qed

lemma serve_ok_likes:
  assumes "likes (ds_Bindings c) (ds_Bindings c')" "ds_Lbs c' = ds_Lbs c"
  shows "serve_ok E cl c' p = serve_ok E cl c p"
  unfolding serve_ok_def family_ok_def assms(2) lb_ready_likes [OF assms(1)] bindings_ok_likes [OF assms(1)] likes_uid_set [OF assms(1)] ..

subsection \<open>Versions, conditions, pending work and the like of a pool\<close>

definition pool_core :: "nlb_pool \<Rightarrow> nlb_pool \<Rightarrow> bool" where
  "pool_core p q \<longleftrightarrow>
     np_Spec q = np_Spec p \<and> om_Name (np_Meta q) = om_Name (np_Meta p) \<and> om_UID (np_Meta q) = om_UID (np_Meta p) \<and>
     om_Deleting (np_Meta q) = om_Deleting (np_Meta p) \<and> pool_allocations q = pool_allocations p"

text \<open>The same shards as well.\<close>

definition pool_like :: "nlb_pool \<Rightarrow> nlb_pool \<Rightarrow> bool" where
  "pool_like p q \<longleftrightarrow> pool_core p q \<and> pool_shards q = pool_shards p"

lemma pool_core_fields:
  assumes "pool_core p q"
  shows "np_Spec q = np_Spec p" "om_Name (np_Meta q) = om_Name (np_Meta p)" "om_UID (np_Meta q) = om_UID (np_Meta p)"
    "om_Deleting (np_Meta q) = om_Deleting (np_Meta p)" "pool_allocations q = pool_allocations p"
  using assms by (simp_all add: pool_core_def)

lemma pool_like_refl [simp]: "pool_like p p"
  by (simp add: pool_like_def pool_core_def)

lemma pool_like_trans: "pool_like p q \<Longrightarrow> pool_like q r \<Longrightarrow> pool_like p r"
  by (simp add: pool_like_def pool_core_def)

lemma alike_pool_like: "alike p q \<Longrightarrow> pool_like p q"
  by (auto simp: alike_def pool_like_def pool_core_def)

lemma pool_likeD: "pool_like p q \<Longrightarrow> pool_core p q" "pool_like p q \<Longrightarrow> pool_shards q = pool_shards p"
  by (simp_all add: pool_like_def)

lemma mine_core: "pool_core p q \<Longrightarrow> mine q = mine p"
  unfolding mine_def by (simp only: pool_core_fields)

lemma wanted_core: "pool_core p q \<Longrightarrow> wanted L cl q = wanted L cl p"
  unfolding wanted_def targetChanged_def by (simp only: pool_core_fields)

lemma setMatches_core: "pool_core p q \<Longrightarrow> setMatches q = setMatches p"
  unfolding setMatches_def by (simp only: pool_core_fields)

lemma owns_core: "pool_core p q \<Longrightarrow> owns C q = owns C p"
  unfolding owns_def tags_def by (simp only: pool_core_fields)

lemma tagged_core: "pool_core p q \<Longrightarrow> tagged E q = tagged E p"
  unfolding tagged_def by (simp only: pool_core_fields)

lemma held_core: "pool_core p q \<Longrightarrow> held q = held p"
  unfolding held_def by (simp only: pool_core_fields)

lemma lb_ready_core: "pool_core p q \<Longrightarrow> lb_ready E cl bs q = lb_ready E cl bs p"
  unfolding lb_ready_def by (simp only: pool_core_fields mine_core owns_core held_core)

lemma bindings_ok_core: "pool_core p q \<Longrightarrow> bindings_ok L cl q = bindings_ok L cl p"
  unfolding bindings_ok_def by (simp only: pool_core_fields mine_core)

lemma object_work_core: "pool_core p q \<Longrightarrow> object_work B L cl q = object_work B L cl p"
  unfolding object_work_def by (simp only: wanted_core setMatches_core)

lemmas core_simps = pool_core_fields mine_core wanted_core setMatches_core owns_core tagged_core held_core lb_ready_core
  bindings_ok_core object_work_core

lemma serve_ok_core:
  assumes "serve_ok E cl c p" "pool_core p q" "st_FrozenSpec (np_Status q) = None \<or> st_FrozenSpec (np_Status q) = Some (np_Spec q)"
    "ds_Bindings c' = ds_Bindings c" "family_ok E cl (ds_Bindings c') (ds_Lbs c') q"
  shows "serve_ok E cl c' q"
  using assms(1,3,5) pool_ok_cong [of q p] assms(2)
  unfolding serve_ok_def assms(4) bindings_ok_core [OF assms(2)] pool_core_fields [OF assms(2)] by (simp add: pool_core_def)

lemma family_ok_pool: "pool_like p q \<Longrightarrow> family_ok E cl bs lbs q = family_ok E cl bs lbs p"
  unfolding family_ok_def by (simp only: core_simps [OF pool_likeD(1)] pool_likeD(2))

lemma serve_ok_pool:
  assumes "serve_ok E cl c p" "pool_like p q" "st_FrozenSpec (np_Status q) = None \<or> st_FrozenSpec (np_Status q) = Some (np_Spec q)"
  shows "serve_ok E cl c q"
  by (rule serve_ok_core [OF assms(1) _ assms(3)])
     (use assms(1) in \<open>simp_all add: pool_likeD(1) [OF assms(2)] family_ok_pool [OF assms(2)] serve_ok_def\<close>)

lemma binding_work_pool:
  assumes l: "pool_like p q"
  shows "shard_cost B lbs q = shard_cost B lbs p" "lease_lb lbs q = lease_lb lbs p" "binding_work B E cl lbs q = binding_work B E cl lbs p"
proof -
  note same = core_simps [OF pool_likeD(1) [OF l]] pool_likeD(2) [OF l]
  show work: "shard_cost B lbs q = shard_cost B lbs p" and lb: "lease_lb lbs q = lease_lb lbs p"
    unfolding shard_cost_def lease_lb_def provisionedShard_def same by (rule refl)+
  show "binding_work B E cl lbs q = binding_work B E cl lbs p" unfolding binding_work_def work lb same ..
qed

lemma Allocate_core:
  assumes l: "pool_core p q"
  shows "(case Allocate q b u of Inl e \<Rightarrow> Some e | Inr _ \<Rightarrow> None) = (case Allocate p b u of Inl e \<Rightarrow> Some e | Inr _ \<Rightarrow> None)"
proof -
  note same = pool_core_fields [OF l]
  have slot: "(case allocateSlot q b u occ of Inl e \<Rightarrow> Some e | Inr _ \<Rightarrow> None) = (case allocateSlot p b u occ of Inl e \<Rightarrow> Some e | Inr _ \<Rightarrow> None)" for occ
    unfolding allocateSlot_def Let_def same by (simp split: option.split prod.split)
  show ?thesis
    unfolding Allocate_def requestedPortError_def same
    by (simp only: if_distrib [of "case_sum _ _"] option.case_distrib [of "case_sum _ _"] sum.case_distrib [of "case_sum _ _"] sum.case slot)
qed

lemma refusal_core: "pool_core p q \<Longrightarrow> refusal L cl q b = refusal L cl p b"
  unfolding refusal_def by (simp only: Allocate_core pool_core_fields)

lemma dueStatus_pool: "pool_like p q \<Longrightarrow> dueStatus L cl q b = dueStatus L cl p b"
  unfolding dueStatus_def statusFor_def by (simp only: core_simps [OF pool_likeD(1)] refusal_core [OF pool_likeD(1)] pool_likeD(2))

section \<open>Every change keeps the contents sound and leaves less to do\<close>

text \<open>The contents while the engine serves the pool.\<close>

definition serving :: "'w engine \<Rightarrow> cluster \<Rightarrow> drain_store \<Rightarrow> bool" where
  "serving E cl c \<longleftrightarrow> (\<exists>p. ds_Pool c = Some p \<and> serve_ok E cl c p)"

text \<open>What every change leaves alone: the bindings up to their statuses, the pool's identity, and the leases there are.\<close>

definition pool_grows :: "nlb_pool \<Rightarrow> nlb_pool \<Rightarrow> bool" where
  "pool_grows p q \<longleftrightarrow>
     np_Spec q = np_Spec p \<and> om_Name (np_Meta q) = om_Name (np_Meta p) \<and> om_UID (np_Meta q) = om_UID (np_Meta p) \<and>
     map_of (pool_allocations p) \<subseteq>\<^sub>m map_of (pool_allocations q)"

definition kept :: "drain_store \<Rightarrow> drain_store \<Rightarrow> bool" where
  "kept c c' \<longleftrightarrow> likes (ds_Bindings c) (ds_Bindings c') \<and> rel_option pool_grows (ds_Pool c) (ds_Pool c')"

lemma likes_refl [simp]: "likes bs bs"
  by (simp add: list.rel_refl)

lemma pool_grows_core: "pool_core p q \<Longrightarrow> pool_grows p q"
  by (simp add: pool_core_def pool_grows_def)

lemma pool_grows_trans: "pool_grows p q \<Longrightarrow> pool_grows q r \<Longrightarrow> pool_grows p r"
  by (auto simp: pool_grows_def intro: map_le_trans)

lemma kept_trans:
  assumes "kept c c'" "kept c' c''"
  shows "kept c c''"
proof -
  have l: "likes (ds_Bindings c) (ds_Bindings c')" "likes (ds_Bindings c') (ds_Bindings c'')"
    and g: "rel_option pool_grows (ds_Pool c) (ds_Pool c')" "rel_option pool_grows (ds_Pool c') (ds_Pool c'')"
    using assms unfolding kept_def by blast+
  have "rel_option pool_grows (ds_Pool c) (ds_Pool c'')"
    using g by (cases "ds_Pool c"; cases "ds_Pool c'"; cases "ds_Pool c''") (simp_all, erule (1) pool_grows_trans)
  moreover have "likes (ds_Bindings c) (ds_Bindings c'')" by (rule list_all2_trans [OF _ l]) (erule (1) binding_like_trans)
  ultimately show ?thesis unfolding kept_def by blast
qed

text \<open>Progress.\<close>

definition advanced :: "nat \<Rightarrow> 'w engine \<Rightarrow> cluster \<Rightarrow> drain_store \<Rightarrow> drain_store \<Rightarrow> bool" where
  "advanced B E cl c c' \<longleftrightarrow> serving E cl c' \<and> kept c c' \<and> serve_work B E cl c' < serve_work B E cl c"

lemma advancedI:
  assumes "ds_Pool c = Some p" "pool_grows p r" "alike r q" "likes (ds_Bindings c) (ds_Bindings c')"
    "ds_Pool c' = Some q" "serve_ok E cl c' q" "serve_work B E cl c' < serve_work B E cl c"
  shows "advanced B E cl c c'"
  using assms pool_grows_trans [OF assms(2) pool_grows_core [OF pool_likeD(1) [OF alike_pool_like [OF assms(3)]]]]
  by (simp add: advanced_def serving_def kept_def)

lemma serve_ok_parts:
  assumes "serve_ok E cl c p"
  shows "pool_ok p" "bindings_ok (en_Lib E) cl p (ds_Bindings c)" "family_ok E cl (ds_Bindings c) (ds_Lbs c) p"
    "st_FrozenSpec (np_Status p) = None \<or> st_FrozenSpec (np_Status p) = Some (np_Spec p)" "\<not> om_Deleting (np_Meta p)"
  using assms by (simp_all add: serve_ok_def)

lemma serve_ok_alike:
  assumes "serve_ok E cl c p" "alike p q"
  shows "serve_ok E cl c q"
  using serve_ok_pool [OF assms(1) alike_pool_like [OF assms(2)]] serve_ok_parts(4) [OF assms(1)] assms(2) by (simp add: alike_def)

lemma serve_work_alike:
  assumes "alike p q"
  shows "serve_work B E cl (c\<lparr>ds_Pool := Some q\<rparr>) = serve_work B E cl (c\<lparr>ds_Pool := Some p\<rparr>)"
proof -
  note same = binding_work_pool [OF alike_pool_like [OF assms]]
  have "om_Finalizers (np_Meta q) = om_Finalizers (np_Meta p)" "st_FrozenSpec (np_Status q) = st_FrozenSpec (np_Status p)"
    "st_PendingWork (np_Status q) = st_PendingWork (np_Status p)" "np_Spec q = np_Spec p"
    using assms by (auto simp: alike_def)
  then show ?thesis by (simp add: serve_work_def same)
qed

lemma pool_ok_lease:
  assumes ok: "pool_ok p" and a: "(uid, a) \<in> set (pool_allocations p)"
  shows "al_Name a = leaseName uid" "0 \<le> al_Shard a" "al_Shard a < ps_MaxShards (np_Spec p)" "map_of (pool_allocations p) uid = Some a"
proof -
  have spec: "pool_spec_ok (np_Spec p)" and slot: "alloc_slot a \<in> pool_slots p" using ok a by (force simp: pool_ok_def)+
  have "al_Shard a = 0 \<and> ps_MaxShards (np_Spec p) = 1 \<or> 0 \<le> al_Shard a \<and> al_Shard a < ps_MaxShards (np_Spec p)"
  proof (cases "ps_AllocationMode (np_Spec p) = ''Explicit''")
    case True
    with spec slot show ?thesis by (simp add: pool_slots_def pool_spec_ok_def alloc_slot_def)
  next
    case False
    with slot card_pool_slots(1) [OF spec False] show ?thesis by (simp add: alloc_slot_def)
  qed
  then show "0 \<le> al_Shard a" "al_Shard a < ps_MaxShards (np_Spec p)" by auto
  show "al_Name a = leaseName uid" using ok a by (auto simp: pool_ok_def)
  show "map_of (pool_allocations p) uid = Some a" using ok a by (simp add: pool_ok_def ledger_ok_def wf_map_def)
qed

text \<open>A lease is known by its name.\<close>

lemma lease_named:
  assumes ok: "serve_ok E cl c p" and a: "(u, a) \<in> set (pool_allocations p)" "(v, a') \<in> set (pool_allocations p)" "al_Name a = al_Name a'"
  shows "u = v \<and> a = a'"
proof -
  have "leaseName u = leaseName v" using pool_ok_lease(1) [OF serve_ok_parts(1) [OF ok]] a by metis
  moreover have "inj_on leaseName (fst ` set (pool_allocations p) \<union> binding_uid ` set (ds_Bindings c))"
    using serve_ok_parts(2) [OF ok] by (simp add: bindings_ok_def)
  ultimately have "u = v" using a(1,2) by (force dest: inj_onD)
  then show ?thesis using pool_ok_lease(4) [OF serve_ok_parts(1) [OF ok] a(1)] pool_ok_lease(4) [OF serve_ok_parts(1) [OF ok] a(2)] by simp
qed

lemma binding_same:
  assumes "bindings_ok L cl p bs" "x \<in> set bs" "y \<in> set bs" "binding_uid x = binding_uid y"
  shows "x = y"
proof -
  have "distinct (map binding_uid bs)" using assms(1) unfolding bindings_ok_def by (elim conjE)
  with assms(2-4) show ?thesis by (auto simp: distinct_map inj_on_def)
qed

lemma serve_binding:
  assumes "bindings_ok L cl p bs" "b \<in> set bs" "mine p b"
  shows "\<not> om_Deleting (tb_Meta b)" "bs_Mode (tb_Spec b) \<noteq> ''NodePortCluster''" "definite (served_by L cl b)"
    "served_by L cl b = Inr k \<Longrightarrow> ps_PreserveSource (np_Spec p) \<Longrightarrow> bk_TargetID k \<noteq> ''''"
    "b' \<in> set bs \<Longrightarrow> mine p b' \<Longrightarrow> place L cl b = Some x \<Longrightarrow> place L cl b' = Some x \<Longrightarrow> binding_uid b' = binding_uid b"
proof -
  have "\<forall>b \<in> set bs. mine p b \<longrightarrow> \<not> om_Deleting (tb_Meta b) \<and> bs_Mode (tb_Spec b) \<noteq> ''NodePortCluster'' \<and> definite (served_by L cl b) \<and>
      (\<forall>k. served_by L cl b = Inr k \<longrightarrow> ps_PreserveSource (np_Spec p) \<longrightarrow> bk_TargetID k \<noteq> '''') \<and>
      (\<forall>b' \<in> set bs. mine p b' \<longrightarrow> place L cl b \<noteq> None \<longrightarrow> place L cl b' = place L cl b \<longrightarrow> binding_uid b' = binding_uid b)"
    using assms(1) unfolding bindings_ok_def by (elim conjE)
  note all = mp [OF bspec [OF this assms(2)] assms(3)]
  show "\<not> om_Deleting (tb_Meta b)" "bs_Mode (tb_Spec b) \<noteq> ''NodePortCluster''" "definite (served_by L cl b)" using all by blast+
  show "served_by L cl b = Inr k \<Longrightarrow> ps_PreserveSource (np_Spec p) \<Longrightarrow> bk_TargetID k \<noteq> ''''" using all by blast
  have "\<forall>b' \<in> set bs. mine p b' \<longrightarrow> place L cl b \<noteq> None \<longrightarrow> place L cl b' = place L cl b \<longrightarrow> binding_uid b' = binding_uid b"
    using all by (elim conjE)
  then show "b' \<in> set bs \<Longrightarrow> mine p b' \<Longrightarrow> place L cl b = Some x \<Longrightarrow> place L cl b' = Some x \<Longrightarrow> binding_uid b' = binding_uid b" by simp
qed

lemma shard_cost_le: "shard_cost B lbs p i \<le> B + 5"
  by (simp add: shard_cost_def split: option.split)

lemma object_work_le: "object_work B L cl p b a x \<le> 2 * (B + 3)"
  by (simp add: object_work_def split: option.split prod.split)

subsection \<open>A lease is granted\<close>

lemma serve_grant:
  assumes ok: "serve_ok E cl c p" and b: "b \<in> set (ds_Bindings c)" "bs_Pool (tb_Spec b) = om_Name (np_Meta p)"
    and none: "map_of (pool_allocations p) (binding_uid b) = None" and g: "Allocate p b u = Inr (a, p')"
  shows "serve_ok E cl c p'" and "(\<Sum>b \<leftarrow> ds_Bindings c. binding_work B E cl lbs p' b) < (\<Sum>b \<leftarrow> ds_Bindings c. binding_work B E cl lbs p b)"
    and "pool_shards p' = pool_shards p" and "np_Spec p' = np_Spec p" and "np_Meta p' = np_Meta p"
    and "st_FrozenSpec (np_Status p') = st_FrozenSpec (np_Status p)" and "st_PendingWork (np_Status p') = st_PendingWork (np_Status p)"
proof -
  let ?L = "en_Lib E" and ?bs = "ds_Bindings c"
  note new = Allocate_fresh_spec [OF none g]
  obtain s q where a: "a = newAllocation b u s q" and p': "p' = put_allocation (binding_uid b) a p"
    by (rule allocateSlot_Inr [OF Allocate_fresh(1) [OF none g]])
  show shards: "pool_shards p' = pool_shards p" and spec: "np_Spec p' = np_Spec p" and meta: "np_Meta p' = np_Meta p"
    and frozen: "st_FrozenSpec (np_Status p') = st_FrozenSpec (np_Status p)" and "st_PendingWork (np_Status p') = st_PendingWork (np_Status p)"
    by (simp_all add: p' put_allocation_def set_allocations_def)
  have bok: "bindings_ok ?L cl p ?bs" by (rule serve_ok_parts(2) [OF ok])
  have lease: "map_of (pool_allocations p') v = (if v = binding_uid b then Some a else map_of (pool_allocations p) v)" for v
    using none unfolding new(1) by (simp add: map_add_def split: option.split)
  have mine: "mine p' x = mine p x" if "x \<in> set ?bs" for x
  proof (cases "binding_uid x = binding_uid b")
    case True
    then have "x = b" by (intro binding_same [OF bok that b(1)])
    with b(2) meta show ?thesis by (simp add: mine_def)
  next
    case False
    then show ?thesis by (simp add: mine_def lease meta)
  qed
  have bok': "bindings_ok ?L cl p' ?bs"
  proof -
    have keys: "fst ` set (pool_allocations p') \<union> binding_uid ` set ?bs = fst ` set (pool_allocations p) \<union> binding_uid ` set ?bs"
      using b(1) unfolding new(1) by auto
    have "bindings_ok ?L cl p' ?bs = bindings_ok ?L cl p ?bs"
      unfolding bindings_ok_def keys spec by (intro conj_cong refl ball_cong) (simp add: mine cong: ball_cong)
    with bok show ?thesis by blast
  qed
  have held: "held p i \<subseteq> held p' i" for i unfolding held_def new(1) by auto
  have core: "owns (en_Cloud E) p' = owns (en_Cloud E) p" "tagged E p' = tagged E p"
    by (simp_all add: fun_eq_iff owns_def tags_def tagged_def spec meta)
  have ready: "lb_ready E cl ?bs p' i lb" if "lb_ready E cl ?bs p i lb" for i lb
    using that held [of i] mine unfolding lb_ready_def core spec by (simp (no_asm_use)) blast
  have "family_ok E cl ?bs (ds_Lbs c) p'" using serve_ok_parts(3) [OF ok] ready unfolding family_ok_def core shards by blast
  moreover have "pool_ok p'" by (rule Allocate_pool_ok [OF serve_ok_parts(1) [OF ok] g])
  moreover have "al_Mode a \<noteq> ''NodePortCluster''" using serve_binding(2) [OF bok b(1)] b(2) by (simp add: a newAllocation_def mine_def)
  ultimately show "serve_ok E cl c p'"
    using ok bok' b(1) new(4) unfolding serve_ok_def spec meta frozen new(1) by auto
  have "binding_work B E cl lbs p' x \<le> binding_work B E cl lbs p x" if "x \<in> set ?bs" "x \<noteq> b" for x
  proof -
    have "shard_cost B lbs p' i = shard_cost B lbs p i" "lease_lb lbs p' a' = lease_lb lbs p a'" for i a'
      unfolding shard_cost_def lease_lb_def provisionedShard_def shards by (rule refl)+
    moreover have w: "wanted ?L cl p' x a' = wanted ?L cl p x a'" for a' unfolding wanted_def targetChanged_def spec meta ..
    have m: "setMatches p' = setMatches p" by (simp add: fun_eq_iff setMatches_def spec)
    moreover have "object_work B ?L cl p' x a' = object_work B ?L cl p x a'" for a' unfolding object_work_def w m ..
    moreover have "binding_uid x \<noteq> binding_uid b" using binding_same [OF bok that(1) b(1)] that(2) by blast
    ultimately show ?thesis using that by (simp add: binding_work_def mine lease split: option.split)
  qed
  moreover have "binding_work B E cl lbs p' b < binding_work B E cl lbs p b"
  proof -
    have "shard_cost B lbs p' (al_Shard a) + object_work B ?L cl p' b a (lease_lb lbs p' a) < 1 + (B + 5) + 2 * (B + 3)"
      using shard_cost_le [of B lbs p' "al_Shard a"] object_work_le [of B ?L cl p' b a "lease_lb lbs p' a"] by linarith
    then show ?thesis using b none by (simp add: binding_work_def mine lease) (simp add: mine_def)
  qed
  ultimately show "(\<Sum>b \<leftarrow> ?bs. binding_work B E cl lbs p' b) < (\<Sum>b \<leftarrow> ?bs. binding_work B E cl lbs p b)"
    using b(1) by (intro sum_list_drop [of ?bs _ _ b 1, unfolded One_nat_def add_Suc_right add_0_right Suc_le_eq]) (metis less_imp_le)+
qed

subsection \<open>A shard is recorded\<close>

lemma shard_at_recorded:
  assumes "0 \<le> i"
  shows "shard_at ((extend_shards i ss)[nat i := s]) j =
    (if j = i then Some s else if int (length ss) \<le> j \<and> j < i then Some empty_shard else shard_at ss j)"
  using assms by (auto simp: shard_at_def extend_shards_def empty_shard_def nth_append nth_list_update)

lemma serve_recorded:
  assumes ok: "serve_ok E cl c p" and i: "0 \<le> i" and s: "sh_ID s \<noteq> ''''" and lb: "lbs (sh_ID s) = Some lb" "tagged E p i lb"
    and keep: "\<forall>nid x. ds_Lbs c nid = Some x \<longrightarrow> lbs nid = Some x"
    and fam: "\<forall>nid x j. lbs nid = Some x \<longrightarrow> tagged E p j x \<longrightarrow> nid \<noteq> '''' \<and> lb_ready E cl (ds_Bindings c) p j x \<and>
        (\<forall>nid' x'. lbs nid' = Some x' \<longrightarrow> tagged E p j x' \<longrightarrow> nid' = nid)"
    and core: "pool_core p q" and shards: "pool_shards q = (extend_shards i (pool_shards p))[nat i := s]"
    and frozen: "st_FrozenSpec (np_Status q) = st_FrozenSpec (np_Status p)" and c': "ds_Bindings c' = ds_Bindings c" "ds_Lbs c' = lbs"
  shows "serve_ok E cl c' q"
proof (rule serve_ok_core [OF ok core _ c'(1)])
  show "st_FrozenSpec (np_Status q) = None \<or> st_FrozenSpec (np_Status q) = Some (np_Spec q)"
    using serve_ok_parts(4) [OF ok] frozen pool_core_fields(1) [OF core] by simp
  have "\<exists>x. lbs (sh_ID t) = Some x \<and> tagged E p j x" if t: "shard_at (pool_shards q) j = Some t" "sh_ID t \<noteq> ''''" for j t
  proof (cases "j = i")
    case True
    with t lb show ?thesis by (auto simp: shards shard_at_recorded [OF i])
  next
    case False
    with t have "shard_at (pool_shards p) j = Some t" by (auto simp: shards shard_at_recorded [OF i] empty_shard_def split: if_splits)
    with t(2) serve_ok_parts(3) [OF ok] obtain x where "ds_Lbs c (sh_ID t) = Some x" "tagged E p j x" unfolding family_ok_def by blast
    with keep show ?thesis by blast
  qed
  then show "family_ok E cl (ds_Bindings c') (ds_Lbs c') q"
    using fam unfolding family_ok_def c' core_simps [OF core] by blast
qed

lemma recorded_work:
  assumes ok: "serve_ok E cl c p" and i: "0 \<le> i" and s: "sh_ID s \<noteq> ''''"
    and keep: "\<forall>nid x. ds_Lbs c nid = Some x \<longrightarrow> lbs nid = Some x"
    and old: "\<forall>t. shard_at (pool_shards p) i = Some t \<longrightarrow> sh_ID t \<noteq> '''' \<longrightarrow> sh_ID t = sh_ID s"
    and core: "pool_core p q" and shards: "pool_shards q = (extend_shards i (pool_shards p))[nat i := s]"
    and le: "shard_cost B lbs q i \<le> shard_cost B (ds_Lbs c) p i"
  shows "shard_cost B lbs q j \<le> shard_cost B (ds_Lbs c) p j"
    and "binding_work B E cl lbs q b \<le> binding_work B E cl (ds_Lbs c) p b"
    and "map_of (pool_allocations p) (binding_uid b) = Some a \<Longrightarrow> al_Shard a = i \<Longrightarrow>
      binding_work B E cl lbs q b + shard_cost B (ds_Lbs c) p i \<le> binding_work B E cl (ds_Lbs c) p b + shard_cost B lbs q i"
proof -
  let ?L = "en_Lib E" and ?lbs = "ds_Lbs c"
  have known: "\<exists>x. ?lbs (sh_ID t) = Some x \<and> lbs (sh_ID t) = Some x" if "shard_at (pool_shards p) j = Some t" "sh_ID t \<noteq> ''''" for j t
    using that serve_ok_parts(3) [OF ok] keep unfolding family_ok_def by blast
  have other: "shard_cost B lbs q j = shard_cost B ?lbs p j" if "j \<noteq> i" for j
  proof (cases "shard_at (pool_shards p) j")
    case None
    with that show ?thesis by (simp add: shard_cost_def shards shard_at_recorded [OF i] empty_shard_def)
  next
    case (Some t)
    then have "\<not> int (length (pool_shards p)) \<le> j" by (auto simp: shard_at_def split: if_splits)
    with that Some known [OF Some] show ?thesis by (auto simp: shard_cost_def shards shard_at_recorded [OF i])
  qed
  then show all: "shard_cost B lbs q j \<le> shard_cost B ?lbs p j" for j using le by (cases "j = i") simp_all
  have lease: "lease_lb ?lbs p a = None \<or> lease_lb lbs q a = lease_lb ?lbs p a" for a
  proof (cases "shard_at (pool_shards p) (al_Shard a)")
    case None
    then show ?thesis by (simp add: lease_lb_def provisionedShard_def)
  next
    case (Some t)
    show ?thesis
    proof (cases "sh_ID t = ''''")
      case True
      with Some show ?thesis by (simp add: lease_lb_def provisionedShard_def)
    next
      case False
      have "\<not> int (length (pool_shards p)) \<le> al_Shard a" using Some by (auto simp: shard_at_def split: if_splits)
      with known [OF Some False] spec [OF old, of t] Some False s show ?thesis
        by (auto simp: lease_lb_def provisionedShard_def shards shard_at_recorded [OF i])
    qed
  qed
  have objects: "object_work B ?L cl p b a (lease_lb lbs q a) \<le> object_work B ?L cl p b a (lease_lb ?lbs p a)" for a
    using lease [of a] object_work_le [of B ?L cl p b a "lease_lb lbs q a"] by (auto simp: object_work_def)
  show "binding_work B E cl lbs q b \<le> binding_work B E cl ?lbs p b"
    unfolding binding_work_def core_simps [OF core] using all objects by (auto split: option.split intro!: add_mono)
  show "binding_work B E cl lbs q b + shard_cost B ?lbs p i \<le> binding_work B E cl ?lbs p b + shard_cost B lbs q i"
    if "map_of (pool_allocations p) (binding_uid b) = Some a" "al_Shard a = i"
    using objects [of a] that unfolding binding_work_def core_simps [OF core] by (simp add: mine_def)
qed

text \<open>Recording a shard is worth what it costs, for a lease or for a pool that wants its first shard at once.\<close>

lemma serve_shard:
  assumes ok: "serve_ok E cl c p" and p: "ds_Pool c = Some p" and idle: "st_PendingWork (np_Status p) = ''''"
    and i: "0 \<le> i" and s: "sh_ID s \<noteq> ''''" and lb: "lbs (sh_ID s) = Some lb" "tagged E p i lb"
    and keep: "\<forall>nid x. ds_Lbs c nid = Some x \<longrightarrow> lbs nid = Some x"
    and fam: "\<forall>nid x j. lbs nid = Some x \<longrightarrow> tagged E p j x \<longrightarrow> nid \<noteq> '''' \<and> lb_ready E cl (ds_Bindings c) p j x \<and>
        (\<forall>nid' x'. lbs nid' = Some x' \<longrightarrow> tagged E p j x' \<longrightarrow> nid' = nid)"
    and old: "\<forall>t. shard_at (pool_shards p) i = Some t \<longrightarrow> sh_ID t \<noteq> '''' \<longrightarrow> sh_ID t = sh_ID s"
    and q: "alike (recordShard i s work (set_status (\<lambda>st. st\<lparr>st_Shards := extend_shards i (st_Shards st)\<rparr>) p)) q"
    and gain: "(if work = '''' then 0 else Suc k) + (if s = shard_now (sh_ID s) lb then 0 else 1) < shard_cost B (ds_Lbs c) p i"
    and cause: "ps_ProvisionEmpty (np_Spec p) \<and> i = 0 \<or>
      (\<exists>b \<in> set (ds_Bindings c). \<exists>a. map_of (pool_allocations p) (binding_uid b) = Some a \<and> al_Shard a = i)"
  shows "advanced B E cl c (c\<lparr>ds_Lbs := lbs, ds_Polls := k, ds_Pool := Some q\<rparr>)"
proof -
  let ?q = "recordShard i s work (set_status (\<lambda>st. st\<lparr>st_Shards := extend_shards i (st_Shards st)\<rparr>) p)"
  let ?c = "c\<lparr>ds_Lbs := lbs, ds_Polls := k\<rparr>"
  have core: "pool_core p ?q" and shards: "pool_shards ?q = (extend_shards i (pool_shards p))[nat i := s]"
    and frozen: "st_FrozenSpec (np_Status ?q) = st_FrozenSpec (np_Status p)" and work: "st_PendingWork (np_Status ?q) = work"
    by (simp_all add: pool_core_def recordShard_def set_status_def)
  have now: "shard_cost B lbs ?q i = (if s = shard_now (sh_ID s) lb then 0 else 1)"
    using s lb(1) by (simp add: shard_cost_def shards shard_at_recorded [OF i])
  have le: "shard_cost B lbs ?q i \<le> shard_cost B (ds_Lbs c) p i" using gain now by linarith
  note rw = recorded_work [OF ok i s keep old core shards le]
  have "serve_ok E cl (?c\<lparr>ds_Pool := Some q\<rparr>) ?q"
    by (rule serve_recorded [OF ok i s lb keep fam core shards frozen]) simp_all
  then have "serve_ok E cl (?c\<lparr>ds_Pool := Some q\<rparr>) q" by (rule serve_ok_alike [OF _ q])
  moreover have "serve_work B E cl (?c\<lparr>ds_Pool := Some q\<rparr>) < serve_work B E cl c"
  proof -
    let ?new = "\<lambda>b. binding_work B E cl lbs ?q b" and ?old = "\<lambda>b. binding_work B E cl (ds_Lbs c) p b"
    let ?bs = "ds_Bindings c" and ?i = "shard_cost B (ds_Lbs c) p i" and ?i' = "shard_cost B lbs ?q i"
    have meta: "np_Meta ?q = np_Meta p" "np_Spec ?q = np_Spec p" by (simp_all add: recordShard_def set_status_def)
    have sums: "sum_list (map ?new ?bs) \<le> sum_list (map ?old ?bs)" by (rule sum_list_mono) (rule rw(2))
    have first: "shard_cost B lbs ?q 0 \<le> shard_cost B (ds_Lbs c) p 0" by (rule rw(1))
    have "(if work = '''' then 0 else Suc k) + (if ps_ProvisionEmpty (np_Spec p) then shard_cost B lbs ?q 0 else 0) + sum_list (map ?new ?bs)
        < (if ps_ProvisionEmpty (np_Spec p) then shard_cost B (ds_Lbs c) p 0 else 0) + sum_list (map ?old ?bs)"
      using cause
    proof
      assume "ps_ProvisionEmpty (np_Spec p) \<and> i = 0"
      with gain now sums show ?thesis by auto
    next
      assume "\<exists>b \<in> set ?bs. \<exists>a. map_of (pool_allocations p) (binding_uid b) = Some a \<and> al_Shard a = i"
      then obtain b a where b: "b \<in> set ?bs" "map_of (pool_allocations p) (binding_uid b) = Some a" "al_Shard a = i" by blast
      have "?new b + (?i - ?i') \<le> ?old b" using rw(3) [OF b(2,3)] le by linarith
      then have "sum_list (map ?new ?bs) + (?i - ?i') \<le> sum_list (map ?old ?bs)" by (rule sum_list_drop [OF rw(2) b(1)])
      with gain now first le show ?thesis by auto
    qed
    then show ?thesis
      unfolding serve_work_alike [OF q] by (auto simp: serve_work_def p idle work frozen meta split: if_splits)
  qed
  ultimately show ?thesis by (intro advancedI [OF p pool_grows_core [OF core] q]) simp_all
qed

subsection \<open>A load balancer is changed\<close>

lemma Resolve_served:
  "Resolve L (reader_of L cl) b a = served_by L cl b \<or>
   Resolve L (reader_of L cl) b a = Inl (Errorf ''Service UID changed; create a new binding'')"
  by (auto simp: Resolve_def served_by_def readServiceFor_def newAllocation_def split: sum.split)

lemma wanted_place:
  assumes "wanted L cl p b a = (bks, hp, problem)"
  shows "length bks \<le> 1" "k \<in> set bks \<Longrightarrow> served_by L cl b = Inr k" "k \<in> set bks \<Longrightarrow> place L cl b = Some (bk_IP k, bk_Port k)"
proof -
  show "length bks \<le> 1" using assms by (auto simp: wanted_def split: if_splits sum.splits)
  show s: "served_by L cl b = Inr k" if "k \<in> set bks" for k
    using assms that Resolve_served [of L cl b a] by (auto simp: wanted_def split: if_splits sum.splits)
  show "place L cl b = Some (bk_IP k, bk_Port k)" if "k \<in> set bks" using s [OF that] by (simp add: place_def)
qed

lemma tagged_unique: "tagged E p i lb \<Longrightarrow> tagged E p j lb \<Longrightarrow> i = j"
  by (simp add: tagged_def)

lemma same_identity_tagged: "same_identity lb lb' \<Longrightarrow> tagged E p i lb' = tagged E p i lb"
  by (simp add: same_identity_def tagged_def)

lemma leased_shard:
  assumes ok: "serve_ok E cl c p" and sh: "shard_at (pool_shards p) i = Some s" "sh_ID s \<noteq> ''''"
  obtains lb where "ds_Lbs c (sh_ID s) = Some lb" "tagged E p i lb" "lb_ready E cl (ds_Bindings c) p i lb"
  using serve_ok_parts(3) [OF ok] sh unfolding family_ok_def by blast

lemma lease_held:
  assumes ok: "serve_ok E cl c p" and b: "b \<in> set (ds_Bindings c)" "map_of (pool_allocations p) (binding_uid b) = Some a"
  shows "(binding_uid b, a) \<in> set (pool_allocations p)" "\<not> al_Tombstone a" "a \<in> held p (al_Shard a)" "al_Mode a \<noteq> ''NodePortCluster''" "mine p b"
proof -
  show m: "(binding_uid b, a) \<in> set (pool_allocations p)" using b(2) by (rule map_of_SomeD)
  then show "\<not> al_Tombstone a" "al_Mode a \<noteq> ''NodePortCluster''" using ok b(1) unfolding serve_ok_def by force+
  then show "a \<in> held p (al_Shard a)" using m by (force simp: held_def)
  show "mine p b" using b(2) by (simp add: mine_def)
qed

text \<open>The two kinds of mutation: the wanted backend set, and the missing listener.\<close>

definition wanted_mutation :: "nlb_pool \<Rightarrow> allocation \<Rightarrow> backend list \<Rightarrow> int \<Rightarrow> string \<Rightarrow> nlb \<Rightarrow> oci_mutation \<Rightarrow> bool" where
  "wanted_mutation p a bks hp nid lb m \<longleftrightarrow>
     (\<exists>cur. (m = CreateBackendSet nid (al_Name a) (wantedSet p a bks hp cur) \<or> m = UpdateBackendSet nid (al_Name a) (wantedSet p a bks hp cur)) \<and>
        \<not> (\<exists>s. map_of (lb_BackendSets lb) (al_Name a) = Some s \<and> setMatches p a bks hp s)) \<or>
     m = CreateListener nid (al_Name a) (wantedListener a) \<and> map_of (lb_Listeners lb) (al_Name a) = None"

lemma mutated_ready:
  assumes ok: "serve_ok E cl c p" and ap: "oci_applies apply" and b: "b \<in> set (ds_Bindings c)" "map_of (pool_allocations p) (binding_uid b) = Some a"
    and w: "wanted (en_Lib E) cl p b a = (bks, hp, problem)" and rdy: "lb_ready E cl (ds_Bindings c) p (al_Shard a) lb"
    and m: "wanted_mutation p a bks hp nid lb m"
  shows "lb_ready E cl (ds_Bindings c) p (al_Shard a) (apply m lb)"
proof -
  let ?lb = "apply m lb" and ?bs = "ds_Bindings c"
  have wf: "wf_nlb lb" using rdy by (simp add: lb_ready_def)
  then have e: "wf_nlb ?lb" "same_identity lb ?lb" "mutation_effect m lb ?lb" using ap by (simp_all add: oci_applies_def)
  note held = lease_held [OF ok b]
  have name: "al_Name a = leaseName (binding_uid b)" by (rule pool_ok_lease(1) [OF serve_ok_parts(1) [OF ok] held(1)])
  have limit: "1 \<le> workerLimit (np_Spec p)" using serve_ok_parts(1) [OF ok] by (auto simp: pool_ok_def pool_spec_ok_def workerLimit_def)
  have far: "al_Name a = leaseName (binding_uid b')"
    if "x \<in> set (backendListDetails bks (al_Name a) cur)" "b' \<in> set ?bs" "mine p b'"
      "place (en_Lib E) cl b' = Some (vstr (ob_IpAddress x), vint (ob_Port x))" for x b' cur
  proof -
    have "destination x \<in> set bks" using that(1) backendListDetails_destinations(1) [of bks "al_Name a" cur] by (metis image_eqI list.set_map)
    with wanted_place(3) [OF w] have "place (en_Lib E) cl b = Some (vstr (ob_IpAddress x), vint (ob_Port x))" by (force simp: destination_def)
    with serve_binding(5) [OF serve_ok_parts(2) [OF ok] b(1) held(5) that(2,3)] that(4) name show ?thesis by simp
  qed
  have len: "int (length (backendListDetails bks (al_Name a) cur)) \<le> workerLimit (np_Spec p)" for cur
    using wanted_place(1) [OF w] limit backendListDetails_destinations(1) [of bks "al_Name a" cur] by (metis length_map of_nat_1 of_nat_le_iff order_trans)
  have old_sets: "n \<in> al_Name ` held p (al_Shard a) \<and> int (length (os_Backends s)) \<le> workerLimit (np_Spec p) \<and>
      (\<forall>x \<in> set (os_Backends s). \<forall>b \<in> set ?bs. mine p b \<longrightarrow>
         place (en_Lib E) cl b = Some (vstr (ob_IpAddress x), vint (ob_Port x)) \<longrightarrow> n = leaseName (binding_uid b))"
    if "map_of (lb_BackendSets lb) n = Some s" for n s
    using rdy that unfolding lb_ready_def by (elim conjE) (drule spec, drule spec, erule mp, assumption)
  have new_set: "os_Backends (wantedSet p a bks hp cur) = backendListDetails bks (al_Name a) cur" for cur by (simp add: wantedSet_def)
  have listeners: "map_of (lb_Listeners ?lb) n = map_of (lb_Listeners lb) n \<or> n = al_Name a \<and> map_of (lb_Listeners ?lb) n = Some (wantedListener a)" for n
    using m e(3) by (auto simp: wanted_mutation_def split: if_splits)
  have sets: "map_of (lb_BackendSets ?lb) n = map_of (lb_BackendSets lb) n \<or> n = al_Name a \<and> (\<exists>cur. map_of (lb_BackendSets ?lb) n = Some (wantedSet p a bks hp cur))" for n
    using m e(3) by (auto simp: wanted_mutation_def split: if_splits)
  have old_listeners: "\<exists>a' \<in> held p (al_Shard a). al_Name a' = n \<and> listenerMatches a' l" if "map_of (lb_Listeners lb) n = Some l" for n l
    using rdy that unfolding lb_ready_def by blast
  have "\<exists>a' \<in> held p (al_Shard a). al_Name a' = n \<and> listenerMatches a' l" if "map_of (lb_Listeners ?lb) n = Some l" for n l
    using listeners [of n] old_listeners [of n l] that held(3) listenerMatches_wanted [of a] by auto
  moreover have "n \<in> al_Name ` held p (al_Shard a) \<and> int (length (os_Backends s)) \<le> workerLimit (np_Spec p) \<and>
      (\<forall>x \<in> set (os_Backends s). \<forall>b \<in> set ?bs. mine p b \<longrightarrow>
         place (en_Lib E) cl b = Some (vstr (ob_IpAddress x), vint (ob_Port x)) \<longrightarrow> n = leaseName (binding_uid b))"
    if s: "map_of (lb_BackendSets ?lb) n = Some s" for n s
    using sets [of n]
  proof
    assume "map_of (lb_BackendSets ?lb) n = map_of (lb_BackendSets lb) n"
    with s old_sets [of n s] show ?thesis by simp
  next
    assume "n = al_Name a \<and> (\<exists>cur. map_of (lb_BackendSets ?lb) n = Some (wantedSet p a bks hp cur))"
    with s obtain cur where n: "n = al_Name a" "s = wantedSet p a bks hp cur" by auto
    show ?thesis unfolding n new_set using far [of _ cur] len held(3) by blast
  qed
  moreover have "owns (en_Cloud E) p (al_Shard a) ?lb \<and> lb_LifecycleState ?lb = ''ACTIVE''"
    using rdy e(2) unfolding lb_ready_def by (simp add: owns_same_identity [OF e(2)]) (simp add: same_identity_def)
  ultimately show ?thesis unfolding lb_ready_def using e(1) by blast
qed

lemma serve_mutated:
  assumes ok: "serve_ok E cl c p" and p: "ds_Pool c = Some p" and idle: "st_PendingWork (np_Status p) = ''''" and ap: "oci_applies apply"
    and ip: "lb_IpAddresses (apply m lb) = lb_IpAddresses lb"
    and b: "b \<in> set (ds_Bindings c)" "map_of (pool_allocations p) (binding_uid b) = Some a"
    and sh: "provisionedShard p a = Some nid" "ds_Lbs c nid = Some lb"
    and w: "wanted (en_Lib E) cl p b a = (bks, hp, problem)" "distinct bks" and m: "wanted_mutation p a bks hp nid lb m"
    and k: "k \<le> B" and q: "alike (set_status (\<lambda>st. st\<lparr>st_PendingWork := work\<rparr>) p) q"
  shows "advanced B E cl c (c\<lparr>ds_Lbs := (ds_Lbs c)(nid \<mapsto> apply m lb), ds_Polls := k, ds_Pool := Some q\<rparr>)"
proof -
  let ?q = "set_status (\<lambda>st. st\<lparr>st_PendingWork := work\<rparr>) p" and ?L = "en_Lib E" and ?bs = "ds_Bindings c"
  let ?lb = "apply m lb" and ?lbs = "(ds_Lbs c)(nid \<mapsto> apply m lb)" and ?i = "al_Shard a"
  obtain s where s: "shard_at (pool_shards p) ?i = Some s" "sh_ID s = nid" "nid \<noteq> ''''"
    using sh(1) by (auto simp: provisionedShard_def split: option.splits if_splits)
  have tag: "tagged E p ?i lb" and rdy: "lb_ready E cl ?bs p ?i lb"
    using leased_shard [OF ok s(1)] s(2,3) sh(2) by auto
  have wf: "wf_nlb lb" using rdy by (simp add: lb_ready_def)
  have e: "same_identity lb ?lb" "mutation_effect m lb ?lb" using ap wf by (simp_all add: oci_applies_def)
  note tags = same_identity_tagged [OF e(1)]
  have fam: "family_ok E cl ?bs (ds_Lbs c) p" by (rule serve_ok_parts(3) [OF ok])
  have like: "pool_like p ?q" by (simp add: pool_like_def pool_core_def set_status_def)
  have fam': "family_ok E cl ?bs ?lbs p"
    unfolding family_ok_def
  proof (intro conjI allI impI, goal_cases)
    case (1 n x j) then show ?case using fam tags s(3) unfolding family_ok_def by (cases "n = nid") auto
  next
    case (2 n x j)
    show ?case
    proof (cases "n = nid")
      case True
      with 2 have "x = ?lb" "tagged E p j lb" using tags by auto
      then show ?thesis using tagged_unique [OF tag] mutated_ready [OF ok ap b w(1) rdy m] by simp
    next
      case False
      then have "ds_Lbs c n = Some x" using 2(1) by simp
      with 2(2) fam show ?thesis unfolding family_ok_def by blast
    qed
  next
    case (3 n x j n' x')
    have "\<exists>y. ds_Lbs c n = Some y \<and> tagged E p j y" "\<exists>y. ds_Lbs c n' = Some y \<and> tagged E p j y"
      using 3 tags sh(2) by (auto split: if_splits)
    with fam show ?case unfolding family_ok_def by blast
  next
    case (4 j t)
    then obtain y where "ds_Lbs c (sh_ID t) = Some y" "tagged E p j y" using fam unfolding family_ok_def by blast
    with sh(2) show ?case by (auto simp: tags)
  qed
  have frozen: "st_FrozenSpec (np_Status ?q) = None \<or> st_FrozenSpec (np_Status ?q) = Some (np_Spec ?q)"
    using serve_ok_parts(4) [OF ok] by (simp add: set_status_def)
  have "serve_ok E cl (c\<lparr>ds_Lbs := ?lbs, ds_Polls := k, ds_Pool := Some q\<rparr>) ?q"
    by (rule serve_ok_core [OF ok pool_likeD(1) [OF like] frozen]) (use fam' in \<open>simp_all add: family_ok_pool [OF like]\<close>)
  then have sound: "serve_ok E cl (c\<lparr>ds_Lbs := ?lbs, ds_Polls := k, ds_Pool := Some q\<rparr>) q" by (rule serve_ok_alike [OF _ q])
  have shard: "shard_cost B ?lbs p j = shard_cost B (ds_Lbs c) p j" for j
    using sh(2) ip by (auto simp: shard_cost_def shard_now_def split: option.split)
  have lease: "lease_lb ?lbs p x = (if provisionedShard p x = Some nid then Some ?lb else lease_lb (ds_Lbs c) p x)" for x
    by (auto simp: lease_lb_def split: bind_splits)
  have keep: "map_of (lb_BackendSets ?lb) n = map_of (lb_BackendSets lb) n \<and> map_of (lb_Listeners ?lb) n = map_of (lb_Listeners lb) n" if "n \<noteq> al_Name a" for n
    using m e(2) that by (auto simp: wanted_mutation_def)
  have others: "binding_work B E cl ?lbs p x = binding_work B E cl (ds_Lbs c) p x" if "x \<in> set ?bs" "x \<noteq> b" for x
  proof (cases "map_of (pool_allocations p) (binding_uid x)")
    case None
    then show ?thesis by (simp add: binding_work_def)
  next
    case (Some a')
    have "binding_uid x \<noteq> binding_uid b" using binding_same [OF serve_ok_parts(2) [OF ok] that(1) b(1)] that(2) by blast
    then have "al_Name a' \<noteq> al_Name a" using lease_named [OF ok map_of_SomeD [OF Some] map_of_SomeD [OF b(2)]] by blast
    then have "object_work B ?L cl p x a' (Some ?lb) = object_work B ?L cl p x a' (Some lb)" using keep by (simp add: object_work_def)
    moreover have "lease_lb (ds_Lbs c) p a' = Some lb" if "provisionedShard p a' = Some nid" using that sh(2) by (simp add: lease_lb_def)
    ultimately show ?thesis using Some by (simp add: binding_work_def shard lease)
  qed
  have "object_work B ?L cl p b a (Some ?lb) + (B + 3) \<le> object_work B ?L cl p b a (Some lb)"
    using m e(2) setMatches_wanted [OF w(2), of p a hp] by (auto simp: object_work_def w(1) wanted_mutation_def)
  moreover have "lease_lb (ds_Lbs c) p a = Some lb" using sh by (simp add: lease_lb_def)
  ultimately have "binding_work B E cl ?lbs p b + (B + 3) \<le> binding_work B E cl (ds_Lbs c) p b"
    using b(2) lease_held(5) [OF ok b] by (simp add: binding_work_def shard lease sh(1))
  then have "(\<Sum>x \<leftarrow> ?bs. binding_work B E cl ?lbs p x) + (B + 3) \<le> (\<Sum>x \<leftarrow> ?bs. binding_work B E cl (ds_Lbs c) p x)"
    by (intro sum_list_drop [OF _ b(1)]) (metis others order_refl add_leE)+
  then have "serve_work B E cl (c\<lparr>ds_Lbs := ?lbs, ds_Polls := k, ds_Pool := Some ?q\<rparr>) < serve_work B E cl c"
    using k unfolding serve_work_def by (simp add: p idle binding_work_pool [OF like] shard)
  moreover have "serve_work B E cl (c\<lparr>ds_Lbs := ?lbs, ds_Polls := k, ds_Pool := Some q\<rparr>) = serve_work B E cl (c\<lparr>ds_Lbs := ?lbs, ds_Polls := k, ds_Pool := Some ?q\<rparr>)"
    using serve_work_alike [OF q, of B E cl "c\<lparr>ds_Lbs := ?lbs, ds_Polls := k\<rparr>"] by simp
  ultimately show ?thesis using sound by (intro advancedI [OF p pool_grows_core [OF pool_likeD(1) [OF like]] q]) simp_all
qed

end
