(* ===== verification/Engine_Serves.thy ===== *)
theory Engine_Serves
  imports Engine_Store
begin

text \<open>
  An engine at work finishes.  On services that work, and while the cluster stays as it is, repeated
  reconciliations of a live pool grant every binding its lease or report why there is none, find or create
  the load balancers, bring them to what is wanted, one mutation and one work request at a time, and
  publish the statuses; then a reconciliation changes nothing.
\<close>

section \<open>The services\<close>

definition put_binding :: "tunnel_binding \<Rightarrow> tunnel_binding list \<Rightarrow> tunnel_binding list" where
  "put_binding b bs = map (\<lambda>x. if binding_uid x = binding_uid b then b else x) bs"

abbreviation at_version :: "string \<Rightarrow> tunnel_binding \<Rightarrow> tunnel_binding" where
  "at_version v b \<equiv> b\<lparr>tb_Meta := (tb_Meta b)\<lparr>om_ResourceVersion := v\<rparr>\<rparr>"

text \<open>
  Kubernetes, beside what \<^const>\<open>drain_api\<close> says of the pool: the cluster is read as it is, and a binding is
  stored as it is written, at a new version.
\<close>

definition kube_reads :: "'w engine \<Rightarrow> ('w \<Rightarrow> drain_store) \<Rightarrow> cluster \<Rightarrow> bool" where
  "kube_reads E view cl \<longleftrightarrow>
     (\<forall>ns w. \<exists>w'. kc_ListServices (en_Kube E) ns w = (Inr (cu_services cl), w') \<and> view w' = view w) \<and>
     (\<forall>ns w. \<exists>w'. kc_ListSlices (en_Kube E) ns w = (Inr (cu_slices cl), w') \<and> view w' = view w) \<and>
     (\<forall>ns w. \<exists>w'. kc_ListPods (en_Kube E) ns w = (Inr (cu_pods cl), w') \<and> view w' = view w) \<and>
     (\<forall>w. \<exists>w'. kc_ListNodes (en_Kube E) w = (Inr (cu_nodes cl), w') \<and> view w' = view w) \<and>
     (\<forall>k w. \<exists>w'. kc_GetService (en_Kube E) k w = (rd_GetService (reader_of (en_Lib E) cl) k, w') \<and> view w' = view w)"

definition kube_stores :: "'w engine \<Rightarrow> ('w \<Rightarrow> drain_store) \<Rightarrow> bool" where
  "kube_stores E view \<longleftrightarrow>
     (\<forall>b x w. x \<in> set (ds_Bindings (view w)) \<longrightarrow> tb_Meta b = tb_Meta x \<longrightarrow> tb_Spec b = tb_Spec x \<longrightarrow>
        (\<exists>v w'. kc_PatchBindingStatus (en_Kube E) b w = (None, w') \<and>
           view w' = (view w)\<lparr>ds_Bindings := put_binding (at_version v b) (ds_Bindings (view w))\<rparr>)) \<and>
     (\<forall>x fs w. x \<in> set (ds_Bindings (view w)) \<longrightarrow> \<not> om_Deleting (tb_Meta x) \<longrightarrow>
        (\<exists>v w'. kc_UpdateBinding (en_Kube E) (x\<lparr>tb_Meta := (tb_Meta x)\<lparr>om_Finalizers := fs\<rparr>\<rparr>) w = (None, w') \<and>
           view w' = (view w)\<lparr>ds_Bindings := put_binding (at_version v (x\<lparr>tb_Meta := (tb_Meta x)\<lparr>om_Finalizers := fs\<rparr>\<rparr>)) (ds_Bindings (view w))\<rparr>)) \<and>
     (\<forall>p fs w. ds_Pool (view w) = Some p \<longrightarrow> \<not> om_Deleting (np_Meta p) \<longrightarrow>
        (\<exists>q w'. kc_UpdatePool (en_Kube E) (p\<lparr>np_Meta := (np_Meta p)\<lparr>om_Finalizers := fs\<rparr>\<rparr>) w = (None, w') \<and>
           alike (p\<lparr>np_Meta := (np_Meta p)\<lparr>om_Finalizers := fs\<rparr>\<rparr>) q \<and> view w' = (view w)\<lparr>ds_Pool := Some q\<rparr>))"

text \<open>Setting a condition that is there changes nothing.\<close>

definition condition_law :: "kube_lib \<Rightarrow> bool" where
  "condition_law L \<longleftrightarrow> (\<forall>cs x. setStatusCondition L (setStatusCondition L cs x) x = setStatusCondition L cs x)"

text \<open>The listing of a compartment: every load balancer in it once, and nothing that does not exist.\<close>

definition summarises :: "string \<Rightarrow> (string \<Rightarrow> nlb option) \<Rightarrow> nlb_summary list \<Rightarrow> bool" where
  "summarises cid lbs items \<longleftrightarrow>
     distinct (map (\<lambda>x. vstr (ns_Id x)) items) \<and>
     (\<forall>x \<in> set items. \<exists>lb. lbs (vstr (ns_Id x)) = Some lb \<and> ns_FreeformTags x = lb_FreeformTags lb \<and> ns_LifecycleState x = lb_LifecycleState lb) \<and>
     (\<forall>nid lb. lbs nid = Some lb \<longrightarrow> vstr (lb_CompartmentId lb) = cid \<longrightarrow> (\<exists>x \<in> set items. vstr (ns_Id x) = nid))"

text \<open>A load balancer as it was ordered, with nothing on it yet.\<close>

definition as_ordered :: "create_nlb \<Rightarrow> nlb \<Rightarrow> bool" where
  "as_ordered d lb \<longleftrightarrow>
     vstr (lb_CompartmentId lb) = cl_CompartmentId d \<and> vstr (lb_SubnetId lb) = cl_SubnetId d \<and> lb_FreeformTags lb = cl_FreeformTags d \<and>
     lb_LifecycleState lb = ''ACTIVE'' \<and> lb_Listeners lb = [] \<and> lb_BackendSets lb = []"

text \<open>
  OCI, likewise: pages of a listing end within the engine's fuel, a new load balancer has a new identifier
  and is there when its work request has ended, and no other mutation changes an address.
\<close>

definition oci_finds :: "'w engine \<Rightarrow> nat \<Rightarrow> (oci_mutation \<Rightarrow> nlb \<Rightarrow> nlb) \<Rightarrow> ('w \<Rightarrow> drain_store) \<Rightarrow> bool" where
  "oci_finds E B apply view \<longleftrightarrow>
     (\<forall>m lb. lb_IpAddresses (apply m lb) = lb_IpAddresses lb) \<and>
     (\<forall>cid w. \<exists>pages items. (\<forall>pg. oc_ListNLBs (cd_Client (en_Cloud E)) cid pg w = (Inr (pages pg), w)) \<and>
        listing (cd_PageFuel (en_Cloud E)) pages None = Some items \<and> summarises cid (ds_Lbs (view w)) items) \<and>
     (\<forall>d w. \<exists>nid work k lb w'. oc_Mutate (cd_Client (en_Cloud E)) (CreateNetworkLoadBalancer d) w = (Inr (Some nid, Some work), w') \<and>
        nid \<noteq> '''' \<and> work \<noteq> '''' \<and> k \<le> B \<and> ds_Lbs (view w) nid = None \<and> as_ordered d lb \<and>
        view w' = (view w)\<lparr>ds_Lbs := (ds_Lbs (view w))(nid \<mapsto> lb), ds_Polls := k\<rparr>)"

definition serve_api :: "'w engine \<Rightarrow> object_key \<Rightarrow> nat \<Rightarrow> (oci_mutation \<Rightarrow> nlb \<Rightarrow> nlb) \<Rightarrow> ('w \<Rightarrow> drain_store) \<Rightarrow> cluster \<Rightarrow> bool" where
  "serve_api E req B apply view cl \<longleftrightarrow>
     drain_api E req B apply view \<and> kube_reads E view cl \<and> kube_stores E view \<and> oci_finds E B apply view \<and>
     finalizer_laws (en_Lib E) \<and> condition_law (en_Lib E)"

lemma serve_api_parts:
  assumes "serve_api E req B apply view cl"
  shows "drain_api E req B apply view" "kube_reads E view cl" "kube_stores E view" "oci_finds E B apply view"
    "finalizer_laws (en_Lib E)" "condition_law (en_Lib E)" "oci_applies apply"
  using assms drain_api_rest(1) [of E req B "apply" view] by (simp_all add: serve_api_def)

lemma kube_stores_laws:
  assumes "kube_stores E view"
  shows "x \<in> set (ds_Bindings (view w)) \<Longrightarrow> tb_Meta b = tb_Meta x \<Longrightarrow> tb_Spec b = tb_Spec x \<Longrightarrow>
      \<exists>v w'. kc_PatchBindingStatus (en_Kube E) b w = (None, w') \<and>
        view w' = (view w)\<lparr>ds_Bindings := put_binding (at_version v b) (ds_Bindings (view w))\<rparr>"
    and "x \<in> set (ds_Bindings (view w)) \<Longrightarrow> \<not> om_Deleting (tb_Meta x) \<Longrightarrow>
      \<exists>v w'. kc_UpdateBinding (en_Kube E) (x\<lparr>tb_Meta := (tb_Meta x)\<lparr>om_Finalizers := fs\<rparr>\<rparr>) w = (None, w') \<and>
        view w' = (view w)\<lparr>ds_Bindings := put_binding (at_version v (x\<lparr>tb_Meta := (tb_Meta x)\<lparr>om_Finalizers := fs\<rparr>\<rparr>)) (ds_Bindings (view w))\<rparr>"
    and "ds_Pool (view w) = Some p \<Longrightarrow> \<not> om_Deleting (np_Meta p) \<Longrightarrow>
      \<exists>q w'. kc_UpdatePool (en_Kube E) (p\<lparr>np_Meta := (np_Meta p)\<lparr>om_Finalizers := fs\<rparr>\<rparr>) w = (None, w') \<and>
        alike (p\<lparr>np_Meta := (np_Meta p)\<lparr>om_Finalizers := fs\<rparr>\<rparr>) q \<and> view w' = (view w)\<lparr>ds_Pool := Some q\<rparr>"
  by (rule conjunct1 [OF assms [unfolded kube_stores_def], rule_format], assumption+)
     (rule conjunct1 [OF conjunct2 [OF assms [unfolded kube_stores_def]], rule_format]
        conjunct2 [OF conjunct2 [OF assms [unfolded kube_stores_def]], rule_format], assumption+)+

lemma wp_newSnapshot:
  assumes api: "kube_reads E view cl" and s: "sees view c s"
  shows "wp (newEndpointSnapshot (en_Kube E) ns) (\<lambda>r t. r = Inr (snapshot_of cl) \<and> sees view c t) s"
proof -
  have services: "\<exists>w'. kc_ListServices (en_Kube E) ns w = (Inr (cu_services cl), w') \<and> view w' = view w" for w using api unfolding kube_reads_def by simp
  have slices: "\<exists>w'. kc_ListSlices (en_Kube E) ns w = (Inr (cu_slices cl), w') \<and> view w' = view w" for w using api unfolding kube_reads_def by simp
  have pods: "\<exists>w'. kc_ListPods (en_Kube E) ns w = (Inr (cu_pods cl), w') \<and> view w' = view w" for w using api unfolding kube_reads_def by simp
  have nodes: "\<exists>w'. kc_ListNodes (en_Kube E) w = (Inr (cu_nodes cl), w') \<and> view w' = view w" for w using api unfolding kube_reads_def by simp
  obtain w1 where w1: "kc_ListServices (en_Kube E) ns (world s) = (Inr (cu_services cl), w1)" "view w1 = view (world s)" using services by blast
  obtain w2 where w2: "kc_ListSlices (en_Kube E) ns w1 = (Inr (cu_slices cl), w2)" "view w2 = view w1" using slices by blast
  obtain w3 where w3: "kc_ListPods (en_Kube E) ns w2 = (Inr (cu_pods cl), w3)" "view w3 = view w2" using pods by blast
  obtain w4 where w4: "kc_ListNodes (en_Kube E) w3 = (Inr (cu_nodes cl), w4)" "view w4 = view w3" using nodes by blast
  show ?thesis using s w1 w2 w3 w4 by (simp add: newEndpointSnapshot_def readList_def wp_rules snapshot_of_def sees_def)
qed

section \<open>Statuses\<close>

text \<open>The same binding with another status.\<close>

definition restated :: "tunnel_binding \<Rightarrow> tunnel_binding \<Rightarrow> bool" where
  "restated b b' \<longleftrightarrow> (\<exists>st v. b' = at_version v (b\<lparr>tb_Status := st\<rparr>))"

lemma restated_refl [simp]: "restated b b"
  unfolding restated_def by (auto intro!: exI [of _ "tb_Status b"] exI [of _ "om_ResourceVersion (tb_Meta b)"])

lemma restated_trans: "restated a b \<Longrightarrow> restated b c \<Longrightarrow> restated a c"
  by (force simp: restated_def)

lemma restated_like: "restated b b' \<Longrightarrow> binding_like b b'"
  by (auto simp: restated_def binding_like_def intro!: exI [of _ "om_Finalizers (tb_Meta b)"])

lemma restated_finalizers: "restated b b' \<Longrightarrow> om_Finalizers (tb_Meta b') = om_Finalizers (tb_Meta b)"
  by (auto simp: restated_def)

lemma put_binding_same: "distinct (map binding_uid bs) \<Longrightarrow> b \<in> set bs \<Longrightarrow> put_binding b bs = bs"
  unfolding put_binding_def by (rule map_idI) (auto simp: distinct_map dest: inj_onD)

lemma put_binding_others:
  assumes "distinct (map binding_uid (b # bs))" "binding_uid b' = binding_uid b" "x \<in> set bs" "x \<in> set old"
  shows "x \<in> set (put_binding b' old)"
proof -
  have "binding_uid b \<notin> binding_uid ` set bs" using assms(1) by simp
  with imageI [OF assms(3), of binding_uid] assms(2) have "binding_uid x \<noteq> binding_uid b'" by metis
  then show ?thesis using assms(4) by (auto simp: put_binding_def intro!: image_eqI [of _ _ x])
qed

lemma put_binding_rel:
  assumes "distinct (map binding_uid bs)" "b \<in> set bs" "R b b'" "binding_uid b' = binding_uid b" "\<And>x. R x x"
  shows "list_all2 R bs (put_binding b' bs)"
proof -
  have "x = b" if "x \<in> set bs" "binding_uid x = binding_uid b" for x using assms(1,2) that by (auto simp: distinct_map dest: inj_onD)
  then show ?thesis unfolding put_binding_def list_all2_map2 using assms(3-5) by (intro list.rel_refl_strong) auto
qed

abbreviation restated_all :: "tunnel_binding list \<Rightarrow> tunnel_binding list \<Rightarrow> bool" where
  "restated_all \<equiv> list_all2 restated"

lemma restated_likes: "restated_all bs bs' \<Longrightarrow> likes bs bs'"
  by (erule list_all2_mono) (rule restated_like)

lemma binding_work_like:
  assumes "binding_like b b'"
  shows "binding_work B E cl lbs p b' + (if mine p b \<and> \<not> has_finalizer E (tb_Meta b) then 1 else 0) =
    binding_work B E cl lbs p b + (if mine p b \<and> \<not> has_finalizer E (tb_Meta b') then 1 else 0)"
  unfolding binding_work_def object_work_def by (simp add: like_simps [OF assms] split: option.split)

lemma binding_work_restated: "restated b b' \<Longrightarrow> binding_work B E cl lbs p b' = binding_work B E cl lbs p b"
  using binding_work_like [OF restated_like] by (simp add: restated_finalizers)

lemma serve_work_restated:
  assumes "restated_all (ds_Bindings c) bs"
  shows "serve_work B E cl (c\<lparr>ds_Bindings := bs\<rparr>) = serve_work B E cl c"
proof -
  have "map (binding_work B E cl lbs p) bs = map (binding_work B E cl lbs p) (ds_Bindings c)" for lbs p
    using assms by (induction rule: list_all2_induct) (simp_all add: binding_work_restated)
  then show ?thesis by (simp add: serve_work_def split: option.split)
qed

lemma advanced_restated:
  assumes "restated_all (ds_Bindings c) bs" "advanced B E cl (c\<lparr>ds_Bindings := bs\<rparr>) c'"
  shows "advanced B E cl c c'"
proof -
  have "rel_option pool_grows (ds_Pool c) (ds_Pool c)" by (cases "ds_Pool c") (simp_all add: pool_grows_def)
  then have "kept c (c\<lparr>ds_Bindings := bs\<rparr>)" using restated_likes [OF assms(1)] by (simp add: kept_def)
  then show ?thesis using assms(2) kept_trans by (auto simp: advanced_def serve_work_restated [OF assms(1)])
qed

lemma statusFor_again:
  assumes law: "condition_law L" and r: "restated b b'" and st: "tb_Status b' = statusFor L p b a problem"
  shows "statusFor L p b' a problem = tb_Status b'"
proof -
  have "configured_condition b' problem = configured_condition b problem"
    unfolding configured_condition_def binding_like_fields(5) [OF restated_like [OF r]] ..
  with law show ?thesis unfolding statusFor_def [of L p b'] st
    by (auto simp: statusFor_def condition_law_def Let_def split: option.splits bind_splits)
qed

lemma dueStatus_again:
  assumes "condition_law L" "restated b b'" "tb_Status b' = dueStatus L cl p b"
  shows "dueStatus L cl p b' = tb_Status b'"
proof (cases "map_of (pool_allocations p) (binding_uid b)")
  case None
  with assms(3) statusFor_again [OF assms(1,2), of p None "refusal L cl p b"] show ?thesis
    by (simp add: dueStatus_def like_simps [OF restated_like [OF assms(2)]])
next
  case (Some a)
  with assms(3) statusFor_again [OF assms(1,2), of p "Some a" "snd (snd (wanted L cl p b a))"] show ?thesis
    by (simp add: dueStatus_def like_simps [OF restated_like [OF assms(2)]])
qed

text \<open>The binding after its status was published: as it was, if the status was due already.\<close>

definition published :: "binding_status \<Rightarrow> tunnel_binding \<Rightarrow> tunnel_binding \<Rightarrow> bool" where
  "published st b b' \<longleftrightarrow> restated b b' \<and> tb_Status b' = st \<and> (tb_Status b = st \<longrightarrow> b' = b)"

lemma wp_bindingStatus:
  assumes api: "kube_stores E view" and s: "sees view c s" and b: "distinct (map binding_uid (ds_Bindings c))" "b \<in> set (ds_Bindings c)"
    and a: "\<forall>x. a = Some x \<longrightarrow> 0 \<le> al_Shard x"
  shows "wp (bindingStatus E b a p problem) (\<lambda>e t. e = None \<and> (\<exists>b'. published (statusFor (en_Lib E) p b a problem) b b' \<and>
    sees view (c\<lparr>ds_Bindings := put_binding b' (ds_Bindings c)\<rparr>) t)) s"
proof -
  let ?st = "statusFor (en_Lib E) p b a problem"
  let ?b = "b\<lparr>tb_Status := ?st\<rparr>"
  have v: "view (world s) = c" using s by (simp add: sees_def)
  have same: "bindingStatus E b a p problem = (if ?st = tb_Status b then State_Monad.return None
      else issue (BindingStatusPatch ?b) (kc_PatchBindingStatus (en_Kube E) ?b))"
  proof (cases a)
    case (Some x)
    with a have "\<not> al_Shard x < 0" by simp
    with Some show ?thesis by (cases "shard_at (pool_shards p) (al_Shard x)") (simp_all add: bindingStatus_def statusFor_def Let_def)
  qed (simp add: bindingStatus_def statusFor_def Let_def)
  show ?thesis
  proof (cases "?st = tb_Status b")
    case True
    then show ?thesis using s put_binding_same [OF b] unfolding same
      by (auto simp: wp_return published_def intro!: exI [of _ b])
  next
    case False
    obtain v w' where w': "kc_PatchBindingStatus (en_Kube E) ?b (world s) = (None, w')"
      "view w' = c\<lparr>ds_Bindings := put_binding (at_version v ?b) (ds_Bindings c)\<rparr>"
      using kube_stores_laws(1) [OF api, of b "world s" ?b] b(2) v by auto
    have "published ?st b (at_version v ?b)" using False by (auto simp: published_def restated_def)
    with False w' s show ?thesis unfolding same by (auto simp: wp_issue sees_def)
  qed
qed

section \<open>Shards\<close>

text \<open>The shard is recorded as it is now.\<close>

definition recorded :: "(string \<Rightarrow> nlb option) \<Rightarrow> nlb_pool \<Rightarrow> int \<Rightarrow> bool" where
  "recorded lbs p i \<longleftrightarrow>
     (\<exists>s lb. shard_at (pool_shards p) i = Some s \<and> sh_ID s \<noteq> '''' \<and> lbs (sh_ID s) = Some lb \<and> s = shard_now (sh_ID s) lb)"

lemma shard_at_extend:
  "0 \<le> i \<Longrightarrow> shard_at (extend_shards i ss) i = Some (case shard_at ss i of None \<Rightarrow> empty_shard | Some s \<Rightarrow> s)"
  by (auto simp: shard_at_def extend_shards_def empty_shard_def nth_append)

lemma extend_shards_recorded: "shard_at ss i = Some s \<Longrightarrow> extend_shards i ss = ss"
  by (auto simp: shard_at_def extend_shards_def split: if_splits)

text \<open>The listing finds the shard of a sound family.\<close>

lemma scan_family:
  assumes fam: "family_ok E cl bs lbs p" and sm: "summarises (ps_CompartmentID (np_Spec p)) lbs items"
  shows "(\<exists>nid lb. lbs nid = Some lb \<and> tagged E p i lb \<and> scanFor (en_Cloud E) p i items '''' = Inr nid) \<or>
    (\<forall>nid lb. lbs nid = Some lb \<longrightarrow> \<not> tagged E p i lb) \<and> scanFor (en_Cloud E) p i items '''' = Inr ''''"
proof -
  let ?C = "en_Cloud E" and ?id = "\<lambda>x. vstr (ns_Id x)"
  have one: "\<exists>lb. lbs (?id x) = Some lb \<and> (live_shard ?C p i x \<longleftrightarrow> tagged E p i lb)" if "x \<in> set items" for x
    using sm that unfolding summarises_def live_shard_def tagged_def by fastforce
  have family: "nid \<noteq> ''''" "lb_ready E cl bs p i lb" "lbs nid' = Some lb' \<Longrightarrow> tagged E p i lb' \<Longrightarrow> nid' = nid"
    if "lbs nid = Some lb" "tagged E p i lb" for nid lb nid' lb'
    using fam that unfolding family_ok_def by blast+
  have ids: "\<forall>x \<in> set items. live_shard ?C p i x \<longrightarrow> ?id x \<noteq> ''''" using one family(1) by fastforce
  have dist: "distinct (map ?id (filter (live_shard ?C p i) items))" using sm by (simp add: summarises_def distinct_map_filter)
  show ?thesis
  proof (cases "filter (live_shard ?C p i) items")
    case Nil
    have "\<not> tagged E p i lb" if lb: "lbs nid = Some lb" for nid lb
    proof
      assume t: "tagged E p i lb"
      with lb family(2) have "owns ?C p i lb" unfolding lb_ready_def by blast
      then obtain x where "x \<in> set items" "?id x = nid" using sm lb unfolding summarises_def owns_def by blast
      with one t lb Nil show False by (force simp: filter_empty_conv)
    qed
    with scanFor_start [OF ids] Nil show ?thesis by simp
  next
    case (Cons x ys)
    then have "x \<in> set (filter (live_shard ?C p i) items)" by simp
    then have x: "x \<in> set items" "live_shard ?C p i x" by simp_all
    then obtain lb where lb: "lbs (?id x) = Some lb" "tagged E p i lb" using one by blast
    have "ys = []"
    proof (cases ys)
      case (Cons y zs)
      with \<open>filter _ _ = _\<close> have "y \<in> set (filter (live_shard ?C p i) items)" by simp
      then have y: "y \<in> set items" "live_shard ?C p i y" by simp_all
      then obtain lb' where "lbs (?id y) = Some lb'" "tagged E p i lb'" using one by blast
      with family(3) [OF lb] have "?id y = ?id x" by blast
      with dist Cons \<open>filter _ _ = _\<close> show ?thesis by simp
    qed
    with scanFor_start [OF ids] Cons lb show ?thesis by auto
  qed
qed

text \<open>A new load balancer joins the family.\<close>

lemma family_created:
  assumes ok: "serve_ok E cl c p" and new: "as_ordered (createDetails (en_Cloud E) p i) lb" "nid \<noteq> ''''" "ds_Lbs c nid = None"
    and free: "\<forall>nid lb. ds_Lbs c nid = Some lb \<longrightarrow> \<not> tagged E p i lb"
  shows "tagged E p i lb" and "\<forall>n x j. ((ds_Lbs c)(nid \<mapsto> lb)) n = Some x \<longrightarrow> tagged E p j x \<longrightarrow>
      n \<noteq> '''' \<and> lb_ready E cl (ds_Bindings c) p j x \<and> (\<forall>n' x'. ((ds_Lbs c)(nid \<mapsto> lb)) n' = Some x' \<longrightarrow> tagged E p j x' \<longrightarrow> n' = n)"
proof -
  show tag: "tagged E p i lb" using new(1) by (simp add: tagged_def as_ordered_def createDetails_def tags_def Let_def get_or_def)
  have own: "owns (en_Cloud E) p i lb" by (rule owns_created) (use new(1) in \<open>simp_all add: as_ordered_def\<close>)
  have rdy: "lb_ready E cl (ds_Bindings c) p i lb" using own new(1) by (simp add: lb_ready_def as_ordered_def wf_nlb_def wf_map_def)
  have only: "j = i \<and> x = lb \<and> n = nid \<or> ds_Lbs c n = Some x \<and> n \<noteq> nid \<and> j \<noteq> i" if "((ds_Lbs c)(nid \<mapsto> lb)) n = Some x" "tagged E p j x" for n x j
    using that free new(3) tagged_unique [OF tag] by (cases "n = nid") auto
  show "\<forall>n x j. ((ds_Lbs c)(nid \<mapsto> lb)) n = Some x \<longrightarrow> tagged E p j x \<longrightarrow>
      n \<noteq> '''' \<and> lb_ready E cl (ds_Bindings c) p j x \<and> (\<forall>n' x'. ((ds_Lbs c)(nid \<mapsto> lb)) n' = Some x' \<longrightarrow> tagged E p j x' \<longrightarrow> n' = n)"
  proof (intro allI impI)
    fix n x j assume x: "((ds_Lbs c)(nid \<mapsto> lb)) n = Some x" "tagged E p j x"
    show "n \<noteq> '''' \<and> lb_ready E cl (ds_Bindings c) p j x \<and> (\<forall>n' x'. ((ds_Lbs c)(nid \<mapsto> lb)) n' = Some x' \<longrightarrow> tagged E p j x' \<longrightarrow> n' = n)"
      using only [OF x]
    proof (elim disjE conjE)
      assume "j = i" "x = lb" "n = nid"
      then show ?thesis using new(2) rdy only [of _ _ i] by blast
    next
      assume "ds_Lbs c n = Some x" "n \<noteq> nid" "j \<noteq> i"
      moreover from this have "n \<noteq> ''''" "lb_ready E cl (ds_Bindings c) p j x" "\<forall>n' x'. ds_Lbs c n' = Some x' \<longrightarrow> tagged E p j x' \<longrightarrow> n' = n"
        using serve_ok_parts(3) [OF ok] x(2) unfolding family_ok_def by blast+
      ultimately show ?thesis using only [of _ _ j] by blast
    qed
  qed
qed

lemma wp_listShards:
  assumes api: "oci_finds E B apply view" and s: "sees view c s" and fam: "family_ok E cl bs (ds_Lbs c) p"
  shows "wp (listShards (cd_PageFuel (en_Cloud E)) (en_Cloud E) p i None '''') (\<lambda>r t. t = s \<and>
    ((\<exists>nid lb. ds_Lbs c nid = Some lb \<and> tagged E p i lb \<and> r = Inr nid) \<or>
     (\<forall>nid lb. ds_Lbs c nid = Some lb \<longrightarrow> \<not> tagged E p i lb) \<and> r = Inr '''')) s"
proof -
  obtain pages items where l: "\<forall>pg. oc_ListNLBs (cd_Client (en_Cloud E)) (ps_CompartmentID (np_Spec p)) pg (world s) = (Inr (pages pg), world s)"
    "listing (cd_PageFuel (en_Cloud E)) pages None = Some items" "summarises (ps_CompartmentID (np_Spec p)) (ds_Lbs (view (world s))) items"
    using api unfolding oci_finds_def by meson
  have "view (world s) = c" using s by (simp add: sees_def)
  with l(3) scan_family [OF fam, of items i] listShards_listing [OF spec [OF l(1)] l(2), of i "''''"] show ?thesis
    by (auto simp: wp_def)
qed

text \<open>Finding, creating or reading a shard: nothing is left to record, or recording it is progress.\<close>

lemma wp_EnsureShard:
  assumes api: "serve_api E req B apply view cl" and s: "sees view c s" and p: "ds_Pool c = Some p" and ok: "serve_ok E cl c p"
    and idle: "st_PendingWork (np_Status p) = ''''" and i: "0 \<le> i" "i < ps_MaxShards (np_Spec p)"
    and cause: "ps_ProvisionEmpty (np_Spec p) \<and> i = 0 \<or>
      (\<exists>b \<in> set (ds_Bindings c). \<exists>a. map_of (pool_allocations p) (binding_uid b) = Some a \<and> al_Shard a = i)"
  shows "wp (EnsureShard (en_Cloud E) p i) (\<lambda>r t. \<exists>x work. r = Inr (x, work) \<and>
    (if recorded (ds_Lbs c) p i then shard_at (pool_shards p) i = Some x \<and> work = '''' \<and> sees view c t
     else (shard_at (extend_shards i (pool_shards p)) i \<noteq> Some x \<or> work \<noteq> '''') \<and> ds_Pool (view (world t)) = Some p \<and>
       (\<forall>q. alike (recordShard i x work (set_status (\<lambda>st. st\<lparr>st_Shards := extend_shards i (st_Shards st)\<rparr>) p)) q \<longrightarrow>
          advanced B E cl c ((view (world t))\<lparr>ds_Pool := Some q\<rparr>)))) s"
    (is "wp _ ?Q s")
proof -
  let ?C = "en_Cloud E"
  note fam = serve_ok_parts(3) [OF ok]
  have family: "nid \<noteq> ''''" "lb_ready E cl (ds_Bindings c) p i lb" if "ds_Lbs c nid = Some lb" "tagged E p i lb" for nid lb
    using fam that unfolding family_ok_def by blast+
  have all: "\<forall>nid x j. ds_Lbs c nid = Some x \<longrightarrow> tagged E p j x \<longrightarrow> nid \<noteq> '''' \<and> lb_ready E cl (ds_Bindings c) p j x \<and>
        (\<forall>nid' x'. ds_Lbs c nid' = Some x' \<longrightarrow> tagged E p j x' \<longrightarrow> nid' = nid)"
    using fam unfolding family_ok_def by blast
  have found: "wp (tryM (cloud_get ?C nid) (\<lambda>lb. State_Monad.return
        (if \<not> owns ?C p i lb then Inl (Errorf ''refusing NLB ownership/scope mismatch'')
         else if lb_LifecycleState lb \<noteq> ''ACTIVE'' then Inl (Errorf (''owned NLB not ACTIVE: '' @ lb_LifecycleState lb))
         else Inr (\<lparr>sh_ID = nid, sh_PublicIP = publicIP (lb_IpAddresses lb)\<rparr>, '''')))) ?Q s"
    if lb: "ds_Lbs c nid = Some lb" "tagged E p i lb" and old: "\<forall>t. shard_at (pool_shards p) i = Some t \<longrightarrow> sh_ID t \<noteq> '''' \<longrightarrow> sh_ID t = nid" for nid lb
  proof -
    have rdy: "owns ?C p i lb" "lb_LifecycleState lb = ''ACTIVE''" using family(2) [OF lb] by (simp_all add: lb_ready_def)
    have rec: "recorded (ds_Lbs c) p i \<longleftrightarrow> shard_at (pool_shards p) i = Some (shard_now nid lb)"
      using old lb(1) family(1) [OF lb] by (auto simp: recorded_def shard_now_def)
    have "advanced B E cl c (c\<lparr>ds_Pool := Some q\<rparr>)" if new: "\<not> recorded (ds_Lbs c) p i"
      and q: "alike (recordShard i (shard_now nid lb) '''' (set_status (\<lambda>st. st\<lparr>st_Shards := extend_shards i (st_Shards st)\<rparr>) p)) q" for q
    proof -
      have "0 < shard_cost B (ds_Lbs c) p i"
        using new rec old lb(1) by (auto simp: shard_cost_def split: option.split)
      then have "advanced B E cl c (c\<lparr>ds_Lbs := ds_Lbs c, ds_Polls := ds_Polls c, ds_Pool := Some q\<rparr>)"
        by (intro serve_shard [where lb = lb, OF ok p idle i(1) _ _ _ _ all _ q _ cause])
           (use lb family(1) [OF lb] old in \<open>simp_all add: shard_now_def\<close>)
      then show ?thesis by simp
    qed
    moreover have "shard_at (extend_shards i (pool_shards p)) i \<noteq> Some (shard_now nid lb)" if "\<not> recorded (ds_Lbs c) p i"
      using that rec family(1) [OF lb] by (auto simp: shard_at_extend [OF i(1)] shard_now_def empty_shard_def split: option.split)
    ultimately show ?thesis
      unfolding wp_tryM
      by (intro wp_mono [OF wp_cloud_get_sees [OF serve_api_parts(1) [OF api] s lb(1)]])
         (use rdy rec p in \<open>auto simp: wp_return shard_now_def [symmetric] sees_def\<close>)
  qed
  show ?thesis
  proof (cases "\<exists>t. shard_at (pool_shards p) i = Some t \<and> sh_ID t \<noteq> ''''")
    case True
    then obtain t where t: "shard_at (pool_shards p) i = Some t" "sh_ID t \<noteq> ''''" by blast
    obtain lb where lb: "ds_Lbs c (sh_ID t) = Some lb" "tagged E p i lb" by (rule leased_shard [OF ok t])
    have "EnsureShard ?C p i = tryM (cloud_get ?C (sh_ID t)) (\<lambda>lb. State_Monad.return
        (if \<not> owns ?C p i lb then Inl (Errorf ''refusing NLB ownership/scope mismatch'')
         else if lb_LifecycleState lb \<noteq> ''ACTIVE'' then Inl (Errorf (''owned NLB not ACTIVE: '' @ lb_LifecycleState lb))
         else Inr (\<lparr>sh_ID = sh_ID t, sh_PublicIP = publicIP (lb_IpAddresses lb)\<rparr>, '''')))"
      using t i by (simp add: EnsureShard_def Let_def tryM_def)
    with found [OF lb] t show ?thesis by simp
  next
    case False
    then have none: "\<forall>x. shard_at (pool_shards p) i = Some x \<longrightarrow> sh_ID x = ''''" by blast
    show ?thesis
      unfolding EnsureShard_discover [OF i none] wp_tryM
    proof (rule wp_mono [OF wp_listShards [OF serve_api_parts(4) [OF api] s fam]], elim conjE disjE exE, goal_cases)
      case (1 r t nid lb)
      then show ?case using found [of nid lb] none family(1) [of nid lb] by auto
    next
      case (2 r t)
      let ?m = "CreateNetworkLoadBalancer (createDetails ?C p i)"
      obtain nid work k lb w' where m: "oc_Mutate (cd_Client ?C) ?m (world s) = (Inr (Some nid, Some work), w')" "nid \<noteq> ''''" "work \<noteq> ''''" "k \<le> B"
        "ds_Lbs (view (world s)) nid = None" "as_ordered (createDetails ?C p i) lb"
        "view w' = (view (world s))\<lparr>ds_Lbs := (ds_Lbs (view (world s)))(nid \<mapsto> lb), ds_Polls := k\<rparr>"
        using serve_api_parts(4) [OF api] unfolding oci_finds_def by meson
      have v: "view (world s) = c" using s by (simp add: sees_def)
      note grown = family_created [OF ok m(6,2) _ 2(2), unfolded v]
      have "\<not> recorded (ds_Lbs c) p i" using none by (auto simp: recorded_def)
      moreover have "advanced B E cl c (c\<lparr>ds_Lbs := (ds_Lbs c)(nid \<mapsto> lb), ds_Polls := k, ds_Pool := Some q\<rparr>)"
        if q: "alike (recordShard i \<lparr>sh_ID = nid, sh_PublicIP = ''''\<rparr> work (set_status (\<lambda>st. st\<lparr>st_Shards := extend_shards i (st_Shards st)\<rparr>) p)) q" for q
        by (rule serve_shard [where lb = lb, OF ok p idle i(1) _ _ _ _ grown(2) _ q _ cause])
           (use m v none grown(1) in \<open>auto simp: shard_cost_def split: option.split\<close>)
      ultimately show ?case using 2 m p v by (auto simp: wp_rules)
    qed
  qed
qed

section \<open>The step of a lease\<close>

lemma wp_saved:
  assumes api: "drain_api E req B apply view" and p: "ds_Pool (view (world s)) = Some p" and q: "np_Meta q = np_Meta p" "np_Spec q = np_Spec p"
    and saved: "\<forall>q'. alike q q' \<longrightarrow> Q ((view (world s))\<lparr>ds_Pool := Some q'\<rparr>)"
  shows "wp (saveAndReturn E q) (\<lambda>f t. f = again None \<and> Q (view (world t))) s"
  unfolding saveAndReturn_def wp_bind
  by (rule wp_mono [OF wp_save [OF api p q]]) (use saved in \<open>auto simp: wp_return\<close>)

lemma ready_refusal:
  assumes rdy: "lb_ready E cl bs p (al_Shard a) lb"
  shows "stepRefusal (en_Cloud E) p a lb = None"
proof -
  have held: "al_Name ` held p (al_Shard a) \<subseteq> set (ownedNames p (al_Shard a))" by (auto simp: held_def ownedNames_def map_values_def)
  have "dom (map_of (lb_Listeners lb)) \<subseteq> al_Name ` held p (al_Shard a)" "dom (map_of (lb_BackendSets lb)) \<subseteq> al_Name ` held p (al_Shard a)"
    using rdy unfolding lb_ready_def by blast+
  with held have "dom (map_of (lb_Listeners lb)) \<subseteq> set (ownedNames p (al_Shard a))" "dom (map_of (lb_BackendSets lb)) \<subseteq> set (ownedNames p (al_Shard a))"
    by blast+
  then show ?thesis using rdy by (simp add: stepRefusal_None lb_ready_def)
qed

lemma serve_admission:
  assumes ok: "serve_ok E cl c p" and b: "b \<in> set (ds_Bindings c)" "map_of (pool_allocations p) (binding_uid b) = Some a"
    and w: "wanted (en_Lib E) cl p b a = (bks, hp, problem)" and rdy: "lb_ready E cl (ds_Bindings c) p (al_Shard a) lb"
  shows "admissionError p a bks lb = None" and "k \<in> set bks \<Longrightarrow> \<not> conflictsWith lb (al_Name a) k"
proof -
  note held = lease_held [OF ok b]
  have name: "al_Name a = leaseName (binding_uid b)" by (rule pool_ok_lease(1) [OF serve_ok_parts(1) [OF ok] held(1)])
  have limit: "1 \<le> workerLimit (np_Spec p)" using serve_ok_parts(1) [OF ok] by (auto simp: pool_ok_def pool_spec_ok_def workerLimit_def)
  have own: "al_Name a \<in> set (ownedNames p (al_Shard a))" using held(1) by (force simp: ownedNames_def map_values_def)
  have sets: "n \<in> al_Name ` held p (al_Shard a)" "int (length (os_Backends s)) \<le> workerLimit (np_Spec p)"
    "\<forall>x \<in> set (os_Backends s). \<forall>b \<in> set (ds_Bindings c). mine p b \<longrightarrow>
         place (en_Lib E) cl b = Some (vstr (ob_IpAddress x), vint (ob_Port x)) \<longrightarrow> n = leaseName (binding_uid b)"
    if "map_of (lb_BackendSets lb) n = Some s" for n s
    using rdy that unfolding lb_ready_def by blast+
  have "validateBackendBudget lb (al_Name a) bks = None"
  proof (rule backend_budget [OF serve_ok_parts(1) [OF ok] _ _ own])
    show "wf_nlb lb" using rdy by (simp add: lb_ready_def)
    show "dom (map_of (lb_BackendSets lb)) \<subseteq> set (ownedNames p (al_Shard a))" using sets(1) by (force simp: held_def ownedNames_def map_values_def)
    show "\<forall>n bs. map_of (lb_BackendSets lb) n = Some bs \<longrightarrow> int (length (os_Backends bs)) \<le> workerLimit (np_Spec p)" using sets(2) by blast
    show "int (length bks) \<le> workerLimit (np_Spec p)" using wanted_place(1) [OF w] limit by linarith
    show "distinct (map (\<lambda>b. (bk_IP b, bk_Port b)) bks)" using wanted_place(1) [OF w] by (cases bks) auto
  qed
  moreover have "ps_PreserveSource (np_Spec p) \<Longrightarrow> bk_TargetID k \<noteq> ''''" if "k \<in> set bks" for k
    using serve_binding(4) [OF serve_ok_parts(2) [OF ok] b(1) held(5)] wanted_place(2) [OF w that] by blast
  ultimately show "admissionError p a bks lb = None" using held(4) by (auto simp: admissionError_def list_ex_iff)
  show "\<not> conflictsWith lb (al_Name a) k" if "k \<in> set bks"
  proof
    assume "conflictsWith lb (al_Name a) k"
    then obtain n s x where n: "(n, s) \<in> set (lb_BackendSets lb)" "n \<noteq> al_Name a" "x \<in> set (os_Backends s)"
      "vstr (ob_IpAddress x) = bk_IP k" "vint (ob_Port x) = bk_Port k" by (auto simp: conflictsWith_def list_ex_iff)
    then have "map_of (lb_BackendSets lb) n = Some s" using rdy by (simp add: lb_ready_def wf_nlb_def wf_map_def)
    with sets(3) [of n s] n b(1) held(5) wanted_place(3) [OF w that] name show False by auto
  qed
qed

lemma serve_decision:
  assumes adm: "stepRefusal (en_Cloud E) p a lb = None" "admissionError p a bks lb = None" and rdy: "lb_ready E cl bs p (al_Shard a) lb"
    and name: "\<forall>a' \<in> held p (al_Shard a). al_Name a' = al_Name a \<longrightarrow> a' = a"
    and new: "\<not> converged p a bks hp lb"
  obtains m where "stepDecision (en_Cloud E) p a bks hp False nid lb = Inr (Some m)" "wanted_mutation p a bks hp nid lb m"
    "mutation_target m = Some (nid, al_Name a)" "deletable m lb"
proof -
  have "listenerMatches a l" if "map_of (lb_Listeners lb) (al_Name a) = Some l" for l
    using rdy that name unfolding lb_ready_def by blast
  then have "\<exists>m. stepDecision (en_Cloud E) p a bks hp False nid lb = Inr (Some m) \<and> wanted_mutation p a bks hp nid lb m"
    using new by (cases "map_of (lb_BackendSets lb) (al_Name a)"; cases "map_of (lb_Listeners lb) (al_Name a)")
      (auto simp: stepDecision_def adm Let_def converged_def wanted_mutation_def)
  then obtain m where m: "stepDecision (en_Cloud E) p a bks hp False nid lb = Inr (Some m)" "wanted_mutation p a bks hp nid lb m" by blast
  then show thesis using that stepDecision_target [OF m(1)] by (auto simp: wanted_mutation_def deletable_def)
qed

lemma held_named:
  assumes ok: "serve_ok E cl c p" and "(uid, a) \<in> set (pool_allocations p)" and "a' \<in> held p i" "al_Name a' = al_Name a"
  shows "a' = a"
  using assms(3,4) lease_named [OF ok assms(2)] by (force simp: held_def)

lemma wp_serve_step:
  assumes api: "serve_api E req B apply view cl" and s: "sees view c s" and p: "ds_Pool c = Some p" and ok: "serve_ok E cl c p"
    and idle: "st_PendingWork (np_Status p) = ''''" and b: "b \<in> set (ds_Bindings c)" "map_of (pool_allocations p) (binding_uid b) = Some a"
    and sh: "provisionedShard p a = Some nid" "ds_Lbs c nid = Some lb" and rdy: "lb_ready E cl (ds_Bindings c) p (al_Shard a) lb"
    and w: "wanted (en_Lib E) cl p b a = (bks, hp, problem)"
  shows "wp (StepBackends (en_Cloud E) p a bks hp False) (\<lambda>r t.
    if converged p a bks hp lb then r = Inr '''' \<and> sees view c t
    else \<exists>work. r = Inr work \<and> work \<noteq> '''' \<and> ds_Pool (view (world t)) = Some p \<and>
      (\<forall>q. alike (set_status (\<lambda>st. st\<lparr>st_PendingWork := work\<rparr>) p) q \<longrightarrow> advanced B E cl c ((view (world t))\<lparr>ds_Pool := Some q\<rparr>))) s"
    (is "wp _ ?Q s")
proof -
  let ?C = "en_Cloud E" and ?dec = "stepDecision (en_Cloud E) p a bks hp False nid lb"
  note drain = serve_api_parts(1) [OF api]
  note held = lease_held [OF ok b]
  have adm: "stepRefusal ?C p a lb = None" "admissionError p a bks lb = None"
    using ready_refusal [OF rdy] serve_admission(1) [OF ok b w rdy] by blast+
  have "wp (case ?dec of Inl e \<Rightarrow> State_Monad.return (Inl e) | Inr None \<Rightarrow> State_Monad.return (Inr '''')
      | Inr (Some m) \<Rightarrow> cloud_mutate ?C nid m) ?Q t" if t: "sees view c t" for t
  proof (cases "converged p a bks hp lb")
    case True
    then show ?thesis using t by (simp add: stepDecision_converged [OF adm] wp_return)
  next
    case False
    obtain m where m: "?dec = Inr (Some m)" "wanted_mutation p a bks hp nid lb m" "mutation_target m = Some (nid, al_Name a)" "deletable m lb"
      by (rule serve_decision [OF adm rdy _ False]) (use held_named [OF ok held(1)] in blast)
    have v: "view (world t) = c" using t by (simp add: sees_def)
    obtain i work k w' where mut: "oc_Mutate (cd_Client ?C) m (world t) = (Inr (i, Some work), w')" "work \<noteq> ''''" "k \<le> B"
      "view w' = c\<lparr>ds_Lbs := (ds_Lbs c)(nid \<mapsto> apply m lb), ds_Polls := k\<rparr>"
      using drain_api_mutate [OF drain m(3) _ m(4), of "world t"] sh(2) v by metis
    have ip: "lb_IpAddresses (apply m lb) = lb_IpAddresses lb" using serve_api_parts(4) [OF api] by (simp add: oci_finds_def)
    have dist: "distinct bks" using wanted_place(1) [OF w] by (cases bks) auto
    have "advanced B E cl c (c\<lparr>ds_Lbs := (ds_Lbs c)(nid \<mapsto> apply m lb), ds_Polls := k, ds_Pool := Some q\<rparr>)"
      if "alike (set_status (\<lambda>st. st\<lparr>st_PendingWork := work\<rparr>) p) q" for q
      by (rule serve_mutated [OF ok p idle serve_api_parts(7) [OF api] ip b sh w dist m(2) mut(3) that])
    with False m(1) mut p show ?thesis by (auto simp: cloud_mutate_def wp_rules)
  qed
  then show ?thesis
    unfolding StepBackends_def wp_bind wp_gets drain_api_rest(3) [OF drain] option.case sh(1) wp_tryM
    by (intro wp_mono [OF wp_cloud_get_sees [OF drain s sh(2)]]) auto
qed

section \<open>A binding\<close>

text \<open>A binding that is served as it can be: it has all it is due, or it is refused a lease.\<close>

definition resting :: "'w engine \<Rightarrow> cluster \<Rightarrow> (string \<Rightarrow> nlb option) \<Rightarrow> nlb_pool \<Rightarrow> tunnel_binding \<Rightarrow> bool" where
  "resting E cl lbs p b \<longleftrightarrow>
     has_finalizer E (tb_Meta b) \<and>
     (case map_of (pool_allocations p) (binding_uid b) of
        None \<Rightarrow> refusal (en_Lib E) cl p b \<noteq> None
      | Some a \<Rightarrow> recorded lbs p (al_Shard a) \<and> (\<exists>lb. lease_lb lbs p a = Some lb \<and> wants (en_Lib E) cl p b a lb))"

text \<open>The setting of a pass over the bindings.\<close>

definition at_work :: "'w engine \<Rightarrow> object_key \<Rightarrow> nat \<Rightarrow> (oci_mutation \<Rightarrow> nlb \<Rightarrow> nlb) \<Rightarrow> ('w \<Rightarrow> drain_store) \<Rightarrow> cluster \<Rightarrow> drain_store \<Rightarrow> nlb_pool \<Rightarrow> bool" where
  "at_work E req B apply view cl c p \<longleftrightarrow>
     serve_api E req B apply view cl \<and> ds_Pool c = Some p \<and> serve_ok E cl c p \<and> st_PendingWork (np_Status p) = ''''"

lemma at_workD:
  assumes "at_work E req B apply view cl c p"
  shows "serve_api E req B apply view cl" "ds_Pool c = Some p" "serve_ok E cl c p" "st_PendingWork (np_Status p) = ''''"
    "drain_api E req B apply view" "distinct (map binding_uid (ds_Bindings c))"
proof -
  show api: "serve_api E req B apply view cl" "ds_Pool c = Some p" "serve_ok E cl c p" "st_PendingWork (np_Status p) = ''''"
    using assms by (simp_all add: at_work_def)
  show "drain_api E req B apply view" by (rule serve_api_parts(1) [OF api(1)])
  show "distinct (map binding_uid (ds_Bindings c))" using serve_ok_parts(2) [OF api(3)] unfolding bindings_ok_def by (elim conjE)
qed

text \<open>The end of a loop body: the status is published and the loop goes on, or the pass ends with progress.\<close>

definition goes_on :: "cluster \<Rightarrow> ('w \<Rightarrow> drain_store) \<Rightarrow> drain_store \<Rightarrow> nlb_pool \<Rightarrow> tunnel_binding \<Rightarrow> binding_status \<Rightarrow> flow \<Rightarrow> 'w engine_state \<Rightarrow> bool" where
  "goes_on cl view c p b st f t \<longleftrightarrow>
     (\<exists>rn b'. f = Continue rn \<and> rn_pool rn = p \<and> rn_reader rn \<in> {None, Some (snapshot_of cl)} \<and> published st b b' \<and>
        sees view (c\<lparr>ds_Bindings := put_binding b' (ds_Bindings c)\<rparr>) t)"

definition settled :: "nat \<Rightarrow> 'w engine \<Rightarrow> cluster \<Rightarrow> ('w \<Rightarrow> drain_store) \<Rightarrow> drain_store \<Rightarrow> nlb_pool \<Rightarrow> tunnel_binding \<Rightarrow> flow \<Rightarrow> 'w engine_state \<Rightarrow> bool" where
  "settled B E cl view c p b f t \<longleftrightarrow>
     (if resting E cl (ds_Lbs c) p b then goes_on cl view c p b (dueStatus (en_Lib E) cl p b) f t
      else f = again None \<and> advanced B E cl c (view (world t)))"

lemma wp_reportAndContinue:
  assumes w: "at_work E req B apply view cl c p" and s: "sees view c s" and b: "b \<in> set (ds_Bindings c)"
    and a: "\<forall>x. a = Some x \<longrightarrow> 0 \<le> al_Shard x" and rn: "rn_pool rn = p" "rn_reader rn \<in> {None, Some (snapshot_of cl)}"
  shows "wp (reportAndContinue E rn b a problem) (goes_on cl view c p b (statusFor (en_Lib E) p b a problem)) s"
  unfolding reportAndContinue_def wp_bind
  by (rule wp_mono [OF wp_bindingStatus [OF serve_api_parts(3) [OF at_workD(1) [OF w]] s at_workD(6) [OF w] b a]])
     (use rn in \<open>auto simp: wp_return goes_on_def\<close>)

lemma wp_applyBackends:
  assumes w: "at_work E req B apply view cl c p" and s: "sees view c s" and b: "b \<in> set (ds_Bindings c)" "map_of (pool_allocations p) (binding_uid b) = Some a"
    and rec: "recorded (ds_Lbs c) p (al_Shard a)" and fin: "has_finalizer E (tb_Meta b)"
    and want: "wanted (en_Lib E) cl p b a = (bks, hp, problem)" and rn: "rn_pool rn = p" "rn_reader rn \<in> {None, Some (snapshot_of cl)}"
  shows "wp (applyBackends E rn b a bks hp problem) (settled B E cl view c p b) s"
proof -
  note at = at_workD [OF w]
  obtain x lb where x: "shard_at (pool_shards p) (al_Shard a) = Some x" "sh_ID x \<noteq> ''''" "ds_Lbs c (sh_ID x) = Some lb" "x = shard_now (sh_ID x) lb"
    using rec unfolding recorded_def by blast
  have rdy: "lb_ready E cl (ds_Bindings c) p (al_Shard a) lb" using leased_shard [OF at(3) x(1,2)] x(3) by auto
  have sh: "provisionedShard p a = Some (sh_ID x)" using x by (simp add: provisionedShard_def)
  have live: "om_Deleting (tb_Meta b) = False" by (simp add: serve_binding(1) [OF serve_ok_parts(2) [OF at(3)] b(1) lease_held(5) [OF at(3) b]])
  have index: "\<forall>x. Some a = Some x \<longrightarrow> 0 \<le> al_Shard x" using pool_ok_lease(2) [OF serve_ok_parts(1) [OF at(3)] map_of_SomeD [OF b(2)]] by simp
  have rest: "resting E cl (ds_Lbs c) p b \<longleftrightarrow> converged p a bks hp lb"
    using fin rec x(3) sh by (simp add: resting_def b(2) wants_def want lease_lb_def)
  have due: "dueStatus (en_Lib E) cl p b = statusFor (en_Lib E) p b (Some a) problem" by (simp add: dueStatus_def b(2) want)
  have report: "wp (reportAndContinue E rn b (Some a) problem) (settled B E cl view c p b) t" if "converged p a bks hp lb" "sees view c t" for t
    by (rule wp_mono [OF wp_reportAndContinue [OF w that(2) b(1) index rn]]) (use that(1) in \<open>simp add: settled_def rest due\<close>)
  have save: "wp (saveAndReturn E (set_status (\<lambda>st. st\<lparr>st_PendingWork := work\<rparr>) p)) (settled B E cl view c p b) t"
    if "\<not> converged p a bks hp lb" "ds_Pool (view (world t)) = Some p"
      "\<forall>q. alike (set_status (\<lambda>st. st\<lparr>st_PendingWork := work\<rparr>) p) q \<longrightarrow> advanced B E cl c ((view (world t))\<lparr>ds_Pool := Some q\<rparr>)" for work t
    by (rule wp_mono [OF wp_saved [OF at(5) that(2) _ _ that(3)]]) (use that(1) in \<open>simp_all add: settled_def rest\<close>)
  show ?thesis
    unfolding applyBackends_def wp_bind rn(1) live
    by (rule wp_mono [OF wp_serve_step [OF at(1) s at(2-4) b sh x(3) rdy want]])
       (use save report in \<open>auto split: if_splits\<close>)
qed

lemma wp_destinationConflicts:
  assumes api: "drain_api E req B apply view" and s: "sees view c s"
    and sh: "provisionedShard p a = Some nid" "ds_Lbs c nid = Some lb" and own: "owns (en_Cloud E) p (al_Shard a) lb"
    and clear: "\<forall>k \<in> set bks. \<not> conflictsWith lb (al_Name a) k"
  shows "wp (destinationConflicts (en_Cloud E) p a bks) (\<lambda>r t. r = Inr False \<and> sees view c t) s"
  using s clear
proof (induction bks arbitrary: s)
  case Nil
  then show ?case by (simp add: wp_return)
next
  case (Cons k ks)
  show ?case
    unfolding destinationConflicts.simps destinationConflict_def sh(1) option.case wp_tryM
    by (rule wp_mono [OF wp_cloud_get_sees [OF api Cons.prems(1) sh(2)]]) (use own Cons in \<open>auto simp: wp_return\<close>)
qed

text \<open>What is wanted never has to wait.\<close>

lemma wanted_problem:
  assumes "wanted L cl p b a = (bks, hp, Some e)" "definite (served_by L cl b)"
  shows "\<not> as_endpoint_read e" "as_backend_unavailable e = None"
  using assms Resolve_served [of L cl b a] by (auto simp: wanted_def definite_def split: if_splits sum.splits)

lemma wp_holdOrApply:
  assumes w: "at_work E req B apply view cl c p" and s: "sees view c s" and b: "b \<in> set (ds_Bindings c)" "map_of (pool_allocations p) (binding_uid b) = Some a"
    and rec: "recorded (ds_Lbs c) p (al_Shard a)" and fin: "has_finalizer E (tb_Meta b)"
    and want: "wanted (en_Lib E) cl p b a = (bks, hp, problem)" and rn: "rn_pool rn = p" "rn_reader rn \<in> {None, Some (snapshot_of cl)}"
  shows "wp (holdOrApply E rn b a bks hp problem) (settled B E cl view c p b) s"
proof -
  note at = at_workD [OF w]
  note here = serve_binding [OF serve_ok_parts(2) [OF at(3)] b(1) lease_held(5) [OF at(3) b]]
  obtain x lb where x: "shard_at (pool_shards p) (al_Shard a) = Some x" "sh_ID x \<noteq> ''''" "ds_Lbs c (sh_ID x) = Some lb"
    using rec unfolding recorded_def by blast
  have rdy: "lb_ready E cl (ds_Bindings c) p (al_Shard a) lb" using leased_shard [OF at(3) x(1,2)] x(3) by auto
  then have own: "owns (en_Cloud E) p (al_Shard a) lb" by (simp add: lb_ready_def)
  have sh: "provisionedShard p a = Some (sh_ID x)" using x by (simp add: provisionedShard_def)
  have "Option.bind problem as_backend_unavailable = None" using wanted_problem(2) [OF _ here(3)] want by (cases problem) auto
  moreover have "wp (checkConflicts E rn b a bks hp problem) (settled B E cl view c p b) s"
    unfolding checkConflicts_def rn(1) using here(1)
    by (simp add: wp_bind, intro wp_mono [OF wp_destinationConflicts [OF at(5) s sh x(3) own]])
       (use serve_admission(2) [OF at(3) b want rdy] wp_applyBackends [OF w _ b rec fin want rn] in auto)
  ultimately show ?thesis using here(1) by (simp add: holdOrApply_def)
qed

lemma wp_desiredBackends:
  assumes w: "at_work E req B apply view cl c p" and b: "b \<in> set (ds_Bindings c)" "map_of (pool_allocations p) (binding_uid b) = Some a"
    and rn: "rn_pool rn = p" and reader: "bs_Suspended (tb_Spec b) \<or> rn_reader rn = Some (snapshot_of cl)"
  shows "wp (desiredBackends E rn b a) (\<lambda>r t. t = s \<and> (\<exists>bks problem. r = Inr (bks, problem) \<and> wanted (en_Lib E) cl p b a =
    (if bs_HealthPort (tb_Spec b) < 1 \<or> 65535 < bs_HealthPort (tb_Spec b) then ([], 9, Some (Errorf ''invalid healthPort''))
     else (bks, bs_HealthPort (tb_Spec b), problem)))) s"
proof -
  note at = at_workD [OF w]
  note here = serve_binding [OF serve_ok_parts(2) [OF at(3)] b(1) lease_held(5) [OF at(3) b]]
  have R: "snapshotReader (en_Lib E) None (snapshot_of cl) = reader_of (en_Lib E) cl" by (simp add: reader_of_def)
  have sure: "\<not> as_endpoint_read e" if "Resolve (en_Lib E) (reader_of (en_Lib E) cl) b a = Inl e" for e
    using here(3) that Resolve_served [of "en_Lib E" cl b a] by (auto simp: definite_def split: sum.splits)
  show ?thesis
    using here(1) reader lease_held(4) [OF at(3) b] sure
    by (auto simp: desiredBackends_def rn wp_rules readerOn_def ctxErr_def drain_api_rest(3) [OF at(5)] R resolveTargets_def wanted_def
        optional_as_def split: sum.split)
qed

lemma wp_configureBinding:
  assumes w: "at_work E req B apply view cl c p" and s: "sees view c s" and b: "b \<in> set (ds_Bindings c)" "map_of (pool_allocations p) (binding_uid b) = Some a"
    and rec: "recorded (ds_Lbs c) p (al_Shard a)" and fin: "has_finalizer E (tb_Meta b)"
    and rn: "rn_pool rn = p" "rn_reader rn \<in> {None, Some (snapshot_of cl)}" and reader: "bs_Suspended (tb_Spec b) \<or> rn_reader rn = Some (snapshot_of cl)"
  shows "wp (configureBinding E rn b a) (settled B E cl view c p b) s"
  unfolding configureBinding_def wp_bind
proof (rule wp_mono [OF wp_desiredBackends [OF w b rn(1) reader]], elim conjE exE, goal_cases)
  case (1 r t bks problem)
  with wp_holdOrApply [OF w s b rec fin _ rn] show ?case
    by (simp add: wp_rules ctxErr_def drain_api_rest(3) [OF at_workD(5) [OF w]])
qed

lemma wp_provisionBinding:
  assumes w: "at_work E req B apply view cl c p" and s: "sees view c s" and b: "b \<in> set (ds_Bindings c)" "map_of (pool_allocations p) (binding_uid b) = Some a"
    and fin: "has_finalizer E (tb_Meta b)"
    and rn: "rn_pool rn = p" "rn_reader rn \<in> {None, Some (snapshot_of cl)}" and reader: "bs_Suspended (tb_Spec b) \<or> rn_reader rn = Some (snapshot_of cl)"
  shows "wp (provisionBinding E rn b a) (settled B E cl view c p b) s"
proof -
  note at = at_workD [OF w]
  let ?i = "al_Shard a" and ?p = "set_status (\<lambda>st. st\<lparr>st_Shards := extend_shards (al_Shard a) (st_Shards st)\<rparr>) p"
  have i: "0 \<le> ?i" "?i < ps_MaxShards (np_Spec p)"
    using pool_ok_lease(2,3) [OF serve_ok_parts(1) [OF at(3)] map_of_SomeD [OF b(2)]] by blast+
  have cause: "ps_ProvisionEmpty (np_Spec p) \<and> ?i = 0 \<or>
      (\<exists>b \<in> set (ds_Bindings c). \<exists>a. map_of (pool_allocations p) (binding_uid b) = Some a \<and> al_Shard a = ?i)" using b by blast
  show ?thesis
    unfolding provisionBinding_def wp_bind rn(1)
  proof (rule wp_mono [OF wp_EnsureShard [OF at(1) s at(2-4) i cause]], elim exE conjE, goal_cases)
    case (1 r t x work)
    show ?case
    proof (cases "recorded (ds_Lbs c) p ?i")
      case True
      with 1 have x: "shard_at (pool_shards p) ?i = Some x" "work = ''''" "sees view c t" by simp_all
      have same: "?p = p" using extend_shards_recorded [OF x(1)] by (simp add: set_status_def)
      show ?thesis
        unfolding 1(1) sum.case prod.case same Let_def
        using x wp_configureBinding [OF w x(3) b True fin, of "rn\<lparr>rn_pool := p\<rparr>"] rn reader by simp
    next
      case False
      with 1 have new: "shard_at (extend_shards ?i (pool_shards p)) ?i \<noteq> Some x \<or> work \<noteq> ''''" and pool: "ds_Pool (view (world t)) = Some p"
        and adv: "\<forall>q. alike (recordShard ?i x work ?p) q \<longrightarrow> advanced B E cl c ((view (world t))\<lparr>ds_Pool := Some q\<rparr>)" by simp_all
      have "\<not> resting E cl (ds_Lbs c) p b" using False b(2) by (simp add: resting_def)
      then have "wp (saveAndReturn E (recordShard ?i x work ?p)) (settled B E cl view c p b) t"
        by (intro wp_mono [OF wp_saved [OF at(5) pool _ _ adv]]) (simp_all add: settled_def recordShard_def)
      with new show ?thesis unfolding 1(1) by (simp add: Let_def)
    qed
  qed
qed

text \<open>A binding gets the engine's finalizer before anything else is done for it.\<close>

lemma serve_finalized:
  assumes laws: "finalizer_laws (en_Lib E)" and ok: "serve_ok E cl c p" and p: "ds_Pool c = Some p" and b: "b \<in> set (ds_Bindings c)" "mine p b"
    and new: "\<not> has_finalizer E (tb_Meta b)"
  shows "advanced B E cl c (c\<lparr>ds_Bindings := put_binding (at_version v (b\<lparr>tb_Meta := with_finalizer E (tb_Meta b)\<rparr>)) (ds_Bindings c)\<rparr>)"
proof -
  let ?b = "at_version v (b\<lparr>tb_Meta := with_finalizer E (tb_Meta b)\<rparr>)" and ?bs = "ds_Bindings c"
  let ?put = "\<lambda>x. if binding_uid x = binding_uid ?b then ?b else x" and ?work = "binding_work B E cl (ds_Lbs c) p"
  have dist: "distinct (map binding_uid ?bs)" using serve_ok_parts(2) [OF ok] unfolding bindings_ok_def by (elim conjE)
  have like: "binding_like b ?b"
    unfolding binding_like_def by (intro conjI exI [of _ v] exI [of _ "om_Finalizers (tb_Meta ?b)"]) (simp_all add: with_finalizer_def)
  have "likes ?bs (put_binding ?b ?bs)" by (rule put_binding_rel [where R = binding_like, OF dist b(1) like]) (simp_all add: with_finalizer_def)
  then have "serve_ok E cl (c\<lparr>ds_Bindings := put_binding ?b ?bs\<rparr>) p" using ok by (subst serve_ok_likes [where c = c]) simp_all
  moreover have uid: "binding_uid ?b = binding_uid b" by (simp add: with_finalizer_def)
  have "has_finalizer E (tb_Meta ?b)" using laws by (simp add: with_finalizer_def finalizer_laws_def)
  then have less: "?work ?b + 1 \<le> ?work b" using binding_work_like [OF like, of B E cl "ds_Lbs c" p] b(2) new by simp
  have "?put x = x \<or> x = b \<and> ?put x = ?b" if "x \<in> set ?bs" for x using dist b(1) that uid by (auto simp: distinct_map dest: inj_onD)
  then have "sum_list (map ?work (put_binding ?b ?bs)) + 1 \<le> sum_list (map ?work ?bs)"
    unfolding put_binding_def map_map comp_def by (intro sum_list_drop [OF _ b(1)]) (use less uid in fastforce)+
  then have "serve_work B E cl (c\<lparr>ds_Bindings := put_binding ?b ?bs\<rparr>) < serve_work B E cl c"
    by (simp add: serve_work_def p)
  moreover have "likes ?bs (put_binding ?b ?bs)" by (rule put_binding_rel [where R = binding_like, OF dist b(1) like uid]) simp
  ultimately show ?thesis using p by (intro advancedI [OF p pool_grows_core alike_refl]) (simp_all add: pool_core_def)
qed

lemma wp_addFinalizer:
  assumes w: "at_work E req B apply view cl c p" and s: "sees view c s" and b: "b \<in> set (ds_Bindings c)" "mine p b" and new: "\<not> has_finalizer E (tb_Meta b)"
  shows "wp (updateBinding E (b\<lparr>tb_Meta := with_finalizer E (tb_Meta b)\<rparr>)) (settled B E cl view c p b) s"
proof -
  note at = at_workD [OF w]
  have v: "view (world s) = c" using s by (simp add: sees_def)
  have live: "\<not> om_Deleting (tb_Meta b)" by (rule serve_binding(1) [OF serve_ok_parts(2) [OF at(3)] b])
  let ?b = "b\<lparr>tb_Meta := with_finalizer E (tb_Meta b)\<rparr>"
  obtain v' w' where w': "kc_UpdateBinding (en_Kube E) ?b (world s) = (None, w')" "view w' = c\<lparr>ds_Bindings := put_binding (at_version v' ?b) (ds_Bindings c)\<rparr>"
    using kube_stores_laws(2) [OF serve_api_parts(3) [OF at(1)] _ live, of "world s"] b(1) v unfolding with_finalizer_def by blast
  have "\<not> resting E cl (ds_Lbs c) p b" using new by (simp add: resting_def)
  with w' serve_finalized [OF serve_api_parts(5) [OF at(1)] at(3,2) b new] show ?thesis
    by (simp add: updateBinding_def wp_rules settled_def)
qed

lemma wp_leasedBinding:
  assumes w: "at_work E req B apply view cl c p" and s: "sees view c s" and b: "b \<in> set (ds_Bindings c)" "map_of (pool_allocations p) (binding_uid b) = Some a"
    and rn: "rn_pool rn = p" "rn_reader rn \<in> {None, Some (snapshot_of cl)}"
  shows "wp (leasedBinding E rn b a) (settled B E cl view c p b) s"
proof -
  note at = at_workD [OF w]
  note held = lease_held [OF at(3) b]
  have live: "\<not> om_Deleting (tb_Meta b)" by (rule serve_binding(1) [OF serve_ok_parts(2) [OF at(3)] b(1) held(5)])
  have observe: "wp (observeWorkers E rn' b a) (settled B E cl view c p b) t"
    if "has_finalizer E (tb_Meta b)" "sees view c t" "rn_pool rn' = p" "rn_reader rn' \<in> {None, Some (snapshot_of cl)}"
      "bs_Suspended (tb_Spec b) \<or> rn_reader rn' = Some (snapshot_of cl)" for rn' t
    using wp_provisionBinding [OF w that(2) b that(1,3-5)] held(4) by (simp add: observeWorkers_def checkLegacy_def)
  show ?thesis
  proof (cases "has_finalizer E (tb_Meta b)")
    case False
    with wp_addFinalizer [OF w s b(1) held(5) False] held(2) live show ?thesis by (simp add: leasedBinding_def)
  next
    case True
    show ?thesis
    proof (cases "\<not> bs_Suspended (tb_Spec b) \<and> rn_reader rn = None")
      case False
      with observe [OF True s rn] held(2) live True rn(2) show ?thesis by (auto simp: leasedBinding_def)
    next
      case new: True
      have "wp (newEndpointSnapshot (en_Kube E) (om_Namespace (np_Meta (rn_pool rn)))) (\<lambda>r t. \<exists>snap. r = Inr snap \<and>
          wp (observeWorkers E (rn\<lparr>rn_reader := Some snap\<rparr>) b a) (settled B E cl view c p b) t) s"
        by (rule wp_mono [OF wp_newSnapshot [OF serve_api_parts(2) [OF at(1)] s]]) (use observe [OF True] rn in auto)
      with new held(2) live True show ?thesis unfolding leasedBinding_def
        by (simp add: wp_bind) (erule wp_mono, auto)
    qed
  qed
qed

lemma serve_granted:
  assumes ok: "serve_ok E cl c p" and p: "ds_Pool c = Some p" and b: "b \<in> set (ds_Bindings c)" "bs_Pool (tb_Spec b) = om_Name (np_Meta p)"
    and none: "map_of (pool_allocations p) (binding_uid b) = None" and g: "Allocate p b u = Inr (a, p')" and q: "alike p' q"
  shows "advanced B E cl c (c\<lparr>ds_Pool := Some q\<rparr>)"
proof -
  note grant = serve_grant [OF ok b none g]
  have "serve_ok E cl (c\<lparr>ds_Pool := Some q\<rparr>) q"
    using serve_ok_alike [OF grant(1) q] by (subst serve_ok_likes [where c = c]) (simp_all add: list.rel_refl)
  moreover have "shard_cost B lbs p' i = shard_cost B lbs p i" for lbs i by (simp add: shard_cost_def grant(3))
  then have "serve_work B E cl (c\<lparr>ds_Pool := Some p'\<rparr>) < serve_work B E cl c"
    using grant(2) [of B "ds_Lbs c"] by (simp add: serve_work_def p grant(4-7))
  moreover have "pool_grows p p'"
    using none by (auto simp: pool_grows_def grant(4,5) Allocate_fresh_spec(1) [OF none g] map_le_def map_add_def)
  ultimately show ?thesis using serve_work_alike [OF q, of B E cl c] by (intro advancedI [OF p _ q]) simp_all
qed

lemma wp_newBinding:
  assumes w: "at_work E req B apply view cl c p" and s: "sees view c s" and b: "b \<in> set (ds_Bindings c)" "bs_Pool (tb_Spec b) = om_Name (np_Meta p)"
    and none: "map_of (pool_allocations p) (binding_uid b) = None" and rn: "rn_pool rn = p" "rn_reader rn \<in> {None, Some (snapshot_of cl)}"
  shows "wp (newBinding E rn b) (settled B E cl view c p b) s"
proof -
  note at = at_workD [OF w]
  have mine: "mine p b" using b(2) by (simp add: mine_def)
  note here = serve_binding [OF serve_ok_parts(2) [OF at(3)] b(1) mine]
  have report: "wp (reportAndContinue E rn b None (Some e)) (settled B E cl view c p b) t"
    if "has_finalizer E (tb_Meta b)" "refusal (en_Lib E) cl p b = Some e" "sees view c t" for e t
    by (rule wp_mono [OF wp_reportAndContinue [OF w that(3) b(1) _ rn]])
       (use that in \<open>simp_all add: settled_def resting_def none dueStatus_def\<close>)
  have admit: "wp (admitBinding E rn b) (settled B E cl view c p b) s" if fin: "has_finalizer E (tb_Meta b)" and run: "\<not> bs_Suspended (tb_Spec b)"
  proof -
    let ?k = "(om_Namespace (tb_Meta b), bs_Service (tb_Spec b))"
    let ?r = "rd_GetService (reader_of (en_Lib E) cl) ?k"
    obtain w' where w': "kc_GetService (en_Kube E) ?k (world s) = (?r, w')" "view w' = view (world s)"
      using serve_api_parts(2) [OF at(1)] unfolding kube_reads_def by blast
    let ?s = "s\<lparr>world := w'\<rparr>"
    have s': "sees view c ?s" using s w'(2) by (simp add: sees_def)
    show ?thesis
    proof (cases "checkService b (ps_PreserveSource (np_Spec p)) ?r")
      case (Inl e)
      then have "refusal (en_Lib E) cl p b = Some e" using run by (simp add: refusal_def)
      with report [OF fin _ s'] Inl w'(1) show ?thesis by (simp add: admitBinding_def wp_rules rn(1))
    next
      case (Inr x)
      then obtain svc n where x: "checkService b (ps_PreserveSource (np_Spec p)) ?r = Inr (svc, n)" by (cases x) auto
      have "wp (grantLease E rn b svc n) (settled B E cl view c p b) ?s"
      proof (cases "Allocate p b (om_UID (sv_Meta svc))")
        case (Inl e)
        then have "refusal (en_Lib E) cl p b = Some e" using run x by (simp add: refusal_def)
        with report [OF fin _ s'] Inl show ?thesis by (simp add: grantLease_def rn(1))
      next
        case (Inr y)
        then obtain a p' where g: "Allocate p b (om_UID (sv_Meta svc)) = Inr (a, p')" by (cases y) auto
        note grant = serve_grant(4,5) [OF at(3) b none g]
        have "\<not> resting E cl (ds_Lbs c) p b" using run x g none by (simp add: resting_def refusal_def)
        then have "wp (saveAndReturn E p') (settled B E cl view c p b) ?s"
          by (intro wp_mono [OF wp_saved [where Q = "advanced B E cl c", OF at(5) _ grant(2,1)]])
             (use s' at(2) serve_granted [OF at(3,2) b none g] in \<open>auto simp: settled_def sees_def\<close>)
        with g here(2) show ?thesis by (simp add: grantLease_def rn(1))
      qed
      with w'(1) x here(2) show ?thesis by (simp add: admitBinding_def wp_rules rn(1))
    qed
  qed
  show ?thesis
    using here(1) serve_ok_parts(5) [OF at(3)] wp_addFinalizer [OF w s b(1) mine] report [OF _ _ s] admit
    by (auto simp: newBinding_def rn(1) refusal_def)
qed

lemma wp_reconcileBinding:
  assumes w: "at_work E req B apply view cl c p" and s: "sees view c s" and b: "b \<in> set (ds_Bindings c)" "mine p b"
    and rn: "rn_pool rn = p" "rn_reader rn \<in> {None, Some (snapshot_of cl)}"
  shows "wp (reconcileBinding E rn b) (settled B E cl view c p b) s"
proof (cases "map_of (pool_allocations p) (binding_uid b)")
  case None
  with b(2) have pool: "bs_Pool (tb_Spec b) = om_Name (np_Meta p)" by (simp add: mine_def)
  with None wp_newBinding [OF w s b(1) pool None, of "rn\<lparr>rn_live := Suc (rn_live rn)\<rparr>"] rn show ?thesis by (simp add: reconcileBinding_def)
next
  case (Some a)
  with wp_leasedBinding [OF w s b(1) Some, of "rn\<lparr>rn_live := Suc (rn_live rn)\<rparr>"] rn show ?thesis by (simp add: reconcileBinding_def)
qed

section \<open>The loop over the bindings\<close>

text \<open>The bindings after the loop: the statuses of those in \<open>bs\<close> are as they are due, and untouched if they were so before.\<close>

definition all_published :: "kube_lib \<Rightarrow> cluster \<Rightarrow> nlb_pool \<Rightarrow> tunnel_binding list \<Rightarrow> tunnel_binding list \<Rightarrow> tunnel_binding list \<Rightarrow> bool" where
  "all_published L cl p bs old new \<longleftrightarrow>
     restated_all old new \<and>
     (\<forall>x \<in> set new. binding_uid x \<notin> binding_uid ` set bs \<longrightarrow> x \<in> set old) \<and>
     (\<forall>x \<in> set new. binding_uid x \<in> binding_uid ` set bs \<longrightarrow> mine p x \<longrightarrow> tb_Status x = dueStatus L cl p x) \<and>
     ((\<forall>b \<in> set bs. mine p b \<longrightarrow> tb_Status b = dueStatus L cl p b) \<longrightarrow> new = old)"

lemma all_published_Nil: "all_published L cl p [] old old"
  by (simp add: all_published_def list.rel_refl)

lemma all_published_skip:
  assumes dist: "distinct (map binding_uid old)" "distinct (map binding_uid (b # bs))" and b: "b \<in> set old" "\<not> mine p b"
    and rest: "all_published L cl p bs old new"
  shows "all_published L cl p (b # bs) old new"
proof -
  have old: "\<forall>x \<in> set new. binding_uid x \<notin> binding_uid ` set bs \<longrightarrow> x \<in> set old"
    and due: "\<forall>x \<in> set new. binding_uid x \<in> binding_uid ` set bs \<longrightarrow> mine p x \<longrightarrow> tb_Status x = dueStatus L cl p x"
    using rest unfolding all_published_def by blast+
  have "x = b" if "x \<in> set new" "binding_uid x = binding_uid b" for x
    using old that dist b(1) by (auto simp: distinct_map dest: inj_onD)
  then have "binding_uid x \<noteq> binding_uid b" if "x \<in> set new" "mine p x" for x using b(2) that by blast
  with due have due': "\<forall>x \<in> set new. binding_uid x \<in> binding_uid ` set (b # bs) \<longrightarrow> mine p x \<longrightarrow> tb_Status x = dueStatus L cl p x" by auto
  have still: "restated_all old new" "(\<forall>b \<in> set bs. mine p b \<longrightarrow> tb_Status b = dueStatus L cl p b) \<longrightarrow> new = old"
    using rest unfolding all_published_def by blast+
  show ?thesis
    unfolding all_published_def
  proof (intro conjI)
    show "\<forall>x \<in> set new. binding_uid x \<notin> binding_uid ` set (b # bs) \<longrightarrow> x \<in> set old" using old by simp
    show "(\<forall>b \<in> set (b # bs). mine p b \<longrightarrow> tb_Status b = dueStatus L cl p b) \<longrightarrow> new = old" using still(2) by (meson list.set_intros(2))
  qed (fact still(1) due')+
qed

lemma all_published_Cons:
  assumes law: "condition_law L" and dist: "distinct (map binding_uid old)" "distinct (map binding_uid (b # bs))" and b: "b \<in> set old" "mine p b"
    and pub: "published (dueStatus L cl p b) b b'" and rest: "all_published L cl p bs (put_binding b' old) new"
  shows "all_published L cl p (b # bs) old new"
  unfolding all_published_def
proof (intro conjI)
  have r: "restated b b'" and st: "tb_Status b' = dueStatus L cl p b" using pub by (simp_all add: published_def)
  have uid: "binding_uid b' = binding_uid b" by (rule binding_like_fields(2) [OF restated_like [OF r]])
  have restated: "restated_all (put_binding b' old) new"
    and others: "\<forall>x \<in> set new. binding_uid x \<notin> binding_uid ` set bs \<longrightarrow> x \<in> set (put_binding b' old)"
    and due: "\<forall>x \<in> set new. binding_uid x \<in> binding_uid ` set bs \<longrightarrow> mine p x \<longrightarrow> tb_Status x = dueStatus L cl p x"
    and still: "(\<forall>b \<in> set bs. mine p b \<longrightarrow> tb_Status b = dueStatus L cl p b) \<longrightarrow> new = put_binding b' old"
    using rest unfolding all_published_def by blast+
  have put: "x \<in> set old \<or> x = b'" "x = b' \<or> binding_uid x \<noteq> binding_uid b" if "x \<in> set (put_binding b' old)" for x
    using that uid by (auto simp: put_binding_def split: if_splits)
  have "restated_all old (put_binding b' old)" by (rule put_binding_rel [where R = restated, OF dist(1) b(1) r uid]) simp
  from list_all2_trans [of restated restated restated, OF restated_trans this restated] show "restated_all old new" .
  show "\<forall>x \<in> set new. binding_uid x \<notin> binding_uid ` set (b # bs) \<longrightarrow> x \<in> set old"
  proof (intro ballI impI)
    fix x assume x: "x \<in> set new" "binding_uid x \<notin> binding_uid ` set (b # bs)"
    with others have "x \<in> set (put_binding b' old)" by simp
    with put(1) [of x] x(2) uid show "x \<in> set old" by auto
  qed
  show "\<forall>x \<in> set new. binding_uid x \<in> binding_uid ` set (b # bs) \<longrightarrow> mine p x \<longrightarrow> tb_Status x = dueStatus L cl p x"
  proof (intro ballI impI)
    fix x assume x: "x \<in> set new" "binding_uid x \<in> binding_uid ` set (b # bs)" "mine p x"
    show "tb_Status x = dueStatus L cl p x"
    proof (cases "binding_uid x \<in> binding_uid ` set bs")
      case True
      with x due show ?thesis by blast
    next
      case False
      with x(1) others have "x \<in> set (put_binding b' old)" by blast
      with put(2) [of x] x(2) False have "x = b'" by auto
      with dueStatus_again [OF law r st] show ?thesis by simp
    qed
  qed
  show "(\<forall>b \<in> set (b # bs). mine p b \<longrightarrow> tb_Status b = dueStatus L cl p b) \<longrightarrow> new = old"
  proof
    assume all: "\<forall>b \<in> set (b # bs). mine p b \<longrightarrow> tb_Status b = dueStatus L cl p b"
    then have "b' = b" using pub b(2) unfolding published_def by (meson list.set_intros(1))
    moreover have "new = put_binding b' old" using still all by (meson list.set_intros(2))
    ultimately show "new = old" using put_binding_same [OF dist(1) b(1)] by simp
  qed
qed

lemma at_work_restated:
  assumes w: "at_work E req B apply view cl c p" and r: "restated_all (ds_Bindings c) bs"
  shows "at_work E req B apply view cl (c\<lparr>ds_Bindings := bs\<rparr>) p"
  using w serve_ok_likes [of c "c\<lparr>ds_Bindings := bs\<rparr>" E cl p] restated_likes [OF r] by (simp add: at_work_def)

lemma wp_reconcileBindings:
  assumes "at_work E req B apply view cl c p" "sees view c s" "set bs \<subseteq> set (ds_Bindings c)" "distinct (map binding_uid bs)"
    "rn_pool rn = p" "rn_reader rn \<in> {None, Some (snapshot_of cl)}"
  shows "wp (reconcileBindings E bs rn) (\<lambda>f t.
    if \<forall>b \<in> set bs. mine p b \<longrightarrow> resting E cl (ds_Lbs c) p b
    then \<exists>rn' new. f = Continue rn' \<and> rn_pool rn' = p \<and> all_published (en_Lib E) cl p bs (ds_Bindings c) new \<and> sees view (c\<lparr>ds_Bindings := new\<rparr>) t
    else f = again None \<and> advanced B E cl c (view (world t))) s"
  using assms
proof (induction bs arbitrary: c s rn)
  case Nil
  have "sees view (c\<lparr>ds_Bindings := ds_Bindings c\<rparr>) s" using Nil(2) by simp
  with Nil show ?case by (auto simp: wp_return all_published_Nil intro!: exI [of _ "ds_Bindings c"])
next
  case (Cons b bs)
  note at = at_workD [OF Cons.prems(1)]
  have b: "b \<in> set (ds_Bindings c)" using Cons.prems(3) by simp
  show ?case
  proof (cases "mine p b")
    case False
    then have "reconcileBinding E rn b = State_Monad.return (Continue rn)" using Cons.prems(5) by (auto simp: reconcileBinding_def mine_def)
    moreover note Cons.IH [OF Cons.prems(1,2) _ _ Cons.prems(5,6)]
    ultimately show ?thesis
      using False Cons.prems(3,4) all_published_skip [OF at(6) Cons.prems(4) b False]
      by (simp add: wp_bind wp_return) (erule wp_mono, auto split: if_splits)
  next
    case True
    note one = wp_reconcileBinding [OF Cons.prems(1,2) b True Cons.prems(5,6)]
    show ?thesis
      unfolding reconcileBindings.simps wp_bind
    proof (rule wp_mono [OF one], goal_cases)
      case (1 f t)
      show ?case
      proof (cases "resting E cl (ds_Lbs c) p b")
        case False
        with 1 True show ?thesis by (auto simp: settled_def again_def wp_return)
      next
        case rest: True
        then obtain rn' b' where f: "f = Continue rn'" "rn_pool rn' = p" "rn_reader rn' \<in> {None, Some (snapshot_of cl)}"
          and pub: "published (dueStatus (en_Lib E) cl p b) b b'" and t: "sees view (c\<lparr>ds_Bindings := put_binding b' (ds_Bindings c)\<rparr>) t"
          using 1 by (auto simp: settled_def goes_on_def)
        let ?c = "c\<lparr>ds_Bindings := put_binding b' (ds_Bindings c)\<rparr>"
        have r: "restated b b'" using pub by (simp add: published_def)
        have uid: "binding_uid b' = binding_uid b" by (rule binding_like_fields(2) [OF restated_like [OF r]])
        have re: "restated_all (ds_Bindings c) (put_binding b' (ds_Bindings c))"
          by (rule put_binding_rel [where R = restated, OF at(6) b r uid]) simp
        have in': "set bs \<subseteq> set (ds_Bindings ?c)"
          using put_binding_others [OF Cons.prems(4) uid] Cons.prems(3) by auto
        have "wp (reconcileBindings E bs rn') (\<lambda>f t.
            if \<forall>b \<in> set bs. mine p b \<longrightarrow> resting E cl (ds_Lbs c) p b
            then \<exists>rn' new. f = Continue rn' \<and> rn_pool rn' = p \<and> all_published (en_Lib E) cl p bs (ds_Bindings ?c) new \<and> sees view (?c\<lparr>ds_Bindings := new\<rparr>) t
            else f = again None \<and> advanced B E cl ?c (view (world t))) t"
          using Cons.IH [OF at_work_restated [OF Cons.prems(1) re] t in' _ f(2,3)] Cons.prems(4) by simp
        then show ?thesis
          unfolding f(1) flow.case
        proof (rule wp_mono, goal_cases)
          case (1 f t)
          note step = all_published_Cons [OF serve_api_parts(6) [OF at(1)] at(6) Cons.prems(4) b True pub]
          show ?case
          proof (cases "\<forall>b \<in> set bs. mine p b \<longrightarrow> resting E cl (ds_Lbs c) p b")
            case True
            with 1 rest step show ?thesis by simp blast
          next
            case False
            with 1 have "f = again None" "advanced B E cl ?c (view (world t))" by presburger+
            with False advanced_restated [OF re] show ?thesis by auto
          qed
        qed
      qed
    qed
  qed
qed

lemma all_published_set: "set bs = set bs' \<Longrightarrow> all_published L cl p bs = all_published L cl p bs'"
  by (simp add: fun_eq_iff all_published_def)

section \<open>The rest of a pass\<close>

text \<open>Nothing of a retired lease is left on a load balancer.\<close>

lemma wp_removeObjects_gone:
  assumes w: "at_work E req B apply view cl c p" and s: "sees view c s" and a: "(uid, a) \<in> set (pool_allocations p)" "al_Tombstone a"
    and sh: "provisionedShard p a = Some nid" and rest: "\<And>t. sees view c t \<Longrightarrow> wp done Q t"
  shows "wp (removeObjects E p a done) Q s"
proof -
  note at = at_workD [OF w]
  obtain x where x: "shard_at (pool_shards p) (al_Shard a) = Some x" "sh_ID x = nid" "nid \<noteq> ''''"
    using sh by (auto simp: provisionedShard_def split: option.splits if_splits)
  then obtain lb where lb: "ds_Lbs c nid = Some lb" "lb_ready E cl (ds_Bindings c) p (al_Shard a) lb" using leased_shard [OF at(3) x(1)] by auto
  have "a' \<noteq> a" if "a' \<in> held p (al_Shard a)" for a' using that a(2) by (auto simp: held_def)
  then have "al_Name a \<notin> al_Name ` held p (al_Shard a)" using held_named [OF at(3) a(1)] by (metis (no_types, lifting) imageE)
  moreover have "dom (map_of (lb_Listeners lb)) \<union> dom (map_of (lb_BackendSets lb)) \<subseteq> al_Name ` held p (al_Shard a)"
    using lb(2) unfolding lb_ready_def by blast
  ultimately have "map_of (lb_Listeners lb) (al_Name a) = None" "map_of (lb_BackendSets lb) (al_Name a) = None" by blast+
  then have "stepDecision (en_Cloud E) p a [] 9 True nid lb = Inr None"
    by (simp add: stepDecision_def ready_refusal [OF lb(2)] has_key_def Let_def)
  then show ?thesis
    unfolding removeObjects_def Step_def StepBackends_def wp_bind wp_gets drain_api_rest(3) [OF at(5)] option.case sh wp_tryM
    by (intro wp_mono [OF wp_cloud_get_sees [OF at(5) s lb(1)]]) (use rest in \<open>auto simp: wp_return\<close>)
qed

lemma wp_quarantine_gone:
  assumes w: "at_work E req B apply view cl c p" and s: "sees view c s" and "set as \<subseteq> snd ` set (pool_allocations p)"
    and rest: "\<And>t. sees view c t \<Longrightarrow> wp done Q t"
  shows "wp (quarantineTombstones E p as done) Q s"
  using assms(2,3)
proof (induction as arbitrary: s)
  case Nil
  then show ?case by (simp add: rest)
next
  case (Cons a as)
  obtain uid where a: "(uid, a) \<in> set (pool_allocations p)" using Cons.prems(2) by auto
  have "0 \<le> al_Shard a" by (rule pool_ok_lease(2) [OF serve_ok_parts(1) [OF at_workD(3) [OF w]] a])
  then have "unprovisioned p a = Inr (provisionedShard p a = None)" by (auto simp: unprovisioned_def provisionedShard_def split: option.split)
  moreover have "wp (quarantineTombstones E p as done) Q t" if "sees view c t" for t using Cons.IH [OF that] Cons.prems(2) by simp
  ultimately show ?case
    using Cons.prems(1) wp_removeObjects_gone [OF w _ a] by (cases "provisionedShard p a") auto
qed

lemma wp_sweepLedger_gone:
  assumes w: "at_work E req B apply view cl c p" and s: "sees view c s" and rn: "rn_pool rn = p" and bs: "binding_uid ` set bs = binding_uid ` set (ds_Bindings c)"
  shows "wp (sweepLedger E bs rn) (\<lambda>f t. f = Return (RequeueLater, None) \<and> view (world t) = c) s"
proof -
  note at = at_workD [OF w]
  have "\<forall>(uid, a) \<in> set (pool_allocations p). al_Tombstone a \<longleftrightarrow> uid \<notin> binding_uid ` set (ds_Bindings c)" using at(3) unfolding serve_ok_def by fastforce
  then have "find (\<lambda>(uid, a). uid \<notin> set (map binding_uid bs) \<and> \<not> al_Tombstone a) (pool_allocations p) = None"
    using bs by (force simp: find_None_iff)
  moreover have "wp (finishPool E rn) (\<lambda>f t. f = Return (RequeueLater, None) \<and> view (world t) = c) t" if "sees view c t" for t
    using that serve_ok_parts(5) [OF at(3)] rn by (simp add: finishPool_def Let_def wp_return sees_def)
  ultimately show ?thesis
    using wp_quarantine_gone [OF w s] rn by (simp add: sweepLedger_def map_values_def)
qed

text \<open>The pass is over: everything rests and every status is published, or there was progress.\<close>

definition rounded :: "nat \<Rightarrow> 'w engine \<Rightarrow> cluster \<Rightarrow> drain_store \<Rightarrow> nlb_pool \<Rightarrow> bool \<Rightarrow> flow \<Rightarrow> drain_store \<Rightarrow> bool" where
  "rounded B E cl c p rest f c' \<longleftrightarrow>
     (if rest then f = Return (RequeueLater, None) \<and>
        (\<exists>new. all_published (en_Lib E) cl p (ds_Bindings c) (ds_Bindings c) new \<and> c' = c\<lparr>ds_Bindings := new\<rparr>)
      else f = again None \<and> advanced B E cl c c')"

abbreviation all_resting :: "'w engine \<Rightarrow> cluster \<Rightarrow> drain_store \<Rightarrow> nlb_pool \<Rightarrow> bool" where
  "all_resting E cl c p \<equiv> \<forall>b \<in> set (ds_Bindings c). mine p b \<longrightarrow> resting E cl (ds_Lbs c) p b"

lemma wp_reconcileLeases_serves:
  assumes w: "at_work E req B apply view cl c p" and s: "sees view c s"
  shows "wp (reconcileLeases E p) (\<lambda>f t. rounded B E cl c p (all_resting E cl c p) f (view (world t))) s"
proof -
  note at = at_workD [OF w]
  let ?ns = "om_Namespace (np_Meta p)"
  let ?bs = "sort_key (\<lambda>b. om_Name (tb_Meta b)) (ds_Bindings c)"
  let ?rn = "\<lparr>rn_pool = p, rn_reader = None, rn_workers = [], rn_problem = None, rn_read = False, rn_live = 0\<rparr>"
  have v: "view (world s) = c" using s by (simp add: sees_def)
  obtain w' where list: "kc_ListBindings (en_Kube E) ?ns (world s) = (Inr (ds_Bindings c), w')" "view w' = c"
    using drain_api_rest(4,5) [OF at(5), of ?ns "world s"] v by metis
  have s': "sees view c (s\<lparr>world := w'\<rparr>)" using s list(2) by (simp add: sees_def)
  have dist: "distinct (map binding_uid ?bs)" using at(6) by (simp add: distinct_map)
  have "wp (reconcileBindings E ?bs ?rn) (\<lambda>f t. case f of Return x \<Rightarrow> rounded B E cl c p (all_resting E cl c p) f (view (world t))
      | Continue rn \<Rightarrow> wp (sweepLedger E ?bs rn) (\<lambda>f t. rounded B E cl c p (all_resting E cl c p) f (view (world t))) t) (s\<lparr>world := w'\<rparr>)"
  proof (rule wp_mono [OF wp_reconcileBindings [OF w s' _ dist]], goal_cases)
    case (4 f t)
    show ?case
    proof (cases "all_resting E cl c p")
      case False
      with 4 show ?thesis by (auto simp: rounded_def again_def)
    next
      case True
      with 4 obtain rn new where f: "f = Continue rn" "rn_pool rn = p" and new: "all_published (en_Lib E) cl p ?bs (ds_Bindings c) new"
        and t: "sees view (c\<lparr>ds_Bindings := new\<rparr>) t" by auto
      have re: "restated_all (ds_Bindings c) new" using new unfolding all_published_def by blast
      have "wp (sweepLedger E ?bs rn) (\<lambda>f t. f = Return (RequeueLater, None) \<and> view (world t) = c\<lparr>ds_Bindings := new\<rparr>) t"
        by (rule wp_sweepLedger_gone [OF at_work_restated [OF w re] t f(2)]) (simp add: likes_uid_set [OF restated_likes [OF re]])
      then show ?thesis
        unfolding f(1) flow.case using new True all_published_set [of ?bs "ds_Bindings c" "en_Lib E" cl p]
        by (elim wp_mono) (auto simp: rounded_def)
    qed
  qed simp_all
  then show ?thesis
    unfolding reconcileLeases_def wp_bind wp_call list(1) prod.case sum.case Let_def
    by (rule wp_mono) (auto simp: wp_return split: flow.splits)
qed

lemma wp_provisionEmpty:
  assumes w: "at_work E req B apply view cl c p" and s: "sees view c s"
  shows "wp (provisionEmpty E p) (\<lambda>f t. rounded B E cl c p
    ((ps_ProvisionEmpty (np_Spec p) \<longrightarrow> recorded (ds_Lbs c) p 0) \<and> all_resting E cl c p) f (view (world t))) s"
proof (cases "ps_ProvisionEmpty (np_Spec p)")
  case False
  with wp_reconcileLeases_serves [OF w s] show ?thesis by (simp add: provisionEmpty_def)
next
  case first: True
  note at = at_workD [OF w]
  let ?p = "set_status (\<lambda>st. st\<lparr>st_Shards := extend_shards 0 (st_Shards st)\<rparr>) p"
  have max: "0 < ps_MaxShards (np_Spec p)" using serve_ok_parts(1) [OF at(3)] by (auto simp: pool_ok_def pool_spec_ok_def)
  have cause: "ps_ProvisionEmpty (np_Spec p) \<and> (0::int) = 0 \<or>
      (\<exists>b \<in> set (ds_Bindings c). \<exists>a. map_of (pool_allocations p) (binding_uid b) = Some a \<and> al_Shard a = 0)" using first by simp
  have "wp (EnsureShard (en_Cloud E) p 0) (\<lambda>r t. wp (case r of Inl e \<Rightarrow> State_Monad.return (again (Some e))
      | Inr (s, work) \<Rightarrow> (if shard_at (pool_shards ?p) 0 \<noteq> Some s \<or> work \<noteq> '''' then saveAndReturn E (recordShard 0 s work ?p) else reconcileLeases E ?p))
      (\<lambda>f t. rounded B E cl c p
        ((ps_ProvisionEmpty (np_Spec p) \<longrightarrow> recorded (ds_Lbs c) p 0) \<and> all_resting E cl c p) f (view (world t))) t) s"
  proof (rule wp_mono [OF wp_EnsureShard [OF at(1) s at(2-4) _ max cause]], simp, elim exE conjE, goal_cases)
    case (1 r t x work)
    show ?case
    proof (cases "recorded (ds_Lbs c) p 0")
      case True
      with 1 have x: "shard_at (pool_shards p) 0 = Some x" "work = ''''" "sees view c t" by simp_all
      have "?p = p" using extend_shards_recorded [OF x(1)] by (simp add: set_status_def)
      then show ?thesis unfolding 1(1) sum.case prod.case using x True wp_reconcileLeases_serves [OF w x(3)] by simp
    next
      case False
      with 1 have new: "shard_at (extend_shards 0 (pool_shards p)) 0 \<noteq> Some x \<or> work \<noteq> ''''" and pool: "ds_Pool (view (world t)) = Some p"
        and adv: "\<forall>q. alike (recordShard 0 x work ?p) q \<longrightarrow> advanced B E cl c ((view (world t))\<lparr>ds_Pool := Some q\<rparr>)" by simp_all
      have "wp (saveAndReturn E (recordShard 0 x work ?p))
          (\<lambda>f t. rounded B E cl c p
        ((ps_ProvisionEmpty (np_Spec p) \<longrightarrow> recorded (ds_Lbs c) p 0) \<and> all_resting E cl c p) f (view (world t))) t"
        by (intro wp_mono [OF wp_saved [OF at(5) pool _ _ adv]]) (use False first in \<open>simp_all add: rounded_def recordShard_def\<close>)
      with new show ?thesis unfolding 1(1) by simp
    qed
  qed
  then show ?thesis
    unfolding provisionEmpty_def if_P [OF conjI [OF first serve_ok_parts(5) [OF at(3)]]] wp_bind Let_def .
qed

text \<open>What has to be done before the bindings.\<close>

definition pool_work :: "'w engine \<Rightarrow> nat \<Rightarrow> nlb_pool \<Rightarrow> nat" where
  "pool_work E k p = (if has_finalizer E (np_Meta p) then 0 else 1) + (if st_FrozenSpec (np_Status p) = None then 1 else 0) +
     (if st_PendingWork (np_Status p) = '''' then 0 else Suc k)"

lemma serve_work_pool:
  "ds_Pool c = Some p \<Longrightarrow> serve_work B E cl c = pool_work E (ds_Polls c) p +
     ((if ps_ProvisionEmpty (np_Spec p) then shard_cost B (ds_Lbs c) p 0 else 0) + (\<Sum>b \<leftarrow> ds_Bindings c. binding_work B E cl (ds_Lbs c) p b))"
  unfolding serve_work_def pool_work_def by simp

lemma advanced_pool:
  assumes ok: "serve_ok E cl c p" and p: "ds_Pool c = Some p" and like: "pool_like p r"
    and frozen: "st_FrozenSpec (np_Status r) = None \<or> st_FrozenSpec (np_Status r) = Some (np_Spec r)"
    and less: "pool_work E (ds_Polls c) r < pool_work E (ds_Polls c) p" and q: "alike r q"
  shows "advanced B E cl c (c\<lparr>ds_Pool := Some q\<rparr>)"
proof -
  have "serve_ok E cl (c\<lparr>ds_Pool := Some q\<rparr>) q"
    using serve_ok_alike [OF serve_ok_pool [OF ok like frozen] q] by (subst serve_ok_likes [where c = c]) (simp_all add: list.rel_refl)
  moreover have "np_Spec r = np_Spec p" by (rule pool_core_fields(1) [OF pool_likeD(1) [OF like]])
  then have "serve_work B E cl (c\<lparr>ds_Pool := Some r\<rparr>) < serve_work B E cl c"
    using less by (simp add: serve_work_pool [where p = r] serve_work_pool [OF p] binding_work_pool [OF like])
  ultimately show ?thesis
    using serve_work_alike [OF q, of B E cl c] by (intro advancedI [OF p pool_grows_core [OF pool_likeD(1) [OF like]] q]) simp_all
qed

lemma wp_finishWork_serves:
  assumes api: "serve_api E req B apply view cl" and s: "sees view c s" and p: "ds_Pool c = Some p" and ok: "serve_ok E cl c p"
    and busy: "st_PendingWork (np_Status p) \<noteq> ''''"
  shows "wp (finishWork E p) (\<lambda>f t. f = again None \<and> advanced B E cl c (view (world t))) s"
proof -
  note drain = serve_api_parts(1) [OF api]
  let ?q = "set_status (\<lambda>st. st\<lparr>st_PendingWork := ''''\<rparr>) p"
  have v: "view (world s) = c" using s by (simp add: sees_def)
  show ?thesis
  proof (cases "ds_Polls c")
    case (Suc k)
    with drain_api_poll(2) [OF drain, of "world s"] v obtain st w' where
      w': "oc_GetWorkRequest (cd_Client (en_Cloud E)) (st_PendingWork (np_Status p)) (world s) = (Inr st, w')"
      "st \<notin> {''SUCCEEDED'', ''FAILED'', ''CANCELED''}" "view w' = c\<lparr>ds_Polls := k\<rparr>" by blast
    have "serve_ok E cl (c\<lparr>ds_Polls := k\<rparr>) p" using ok by (subst serve_ok_likes [where c = c]) (simp_all add: list.rel_refl)
    then have "advanced B E cl c (c\<lparr>ds_Polls := k\<rparr>)"
      using p busy Suc by (intro advancedI [OF p pool_grows_core alike_refl]) (simp_all add: pool_core_def serve_work_def)
    with w' show ?thesis by (simp add: finishWork_def Work_def wp_rules)
  next
    case 0
    with drain_api_poll(1) [OF drain, of "world s"] v obtain w' where
      w': "oc_GetWorkRequest (cd_Client (en_Cloud E)) (st_PendingWork (np_Status p)) (world s) = (Inr ''SUCCEEDED'', w')" "view w' = c" by blast
    have like: "pool_like p ?q" by (simp add: pool_like_def pool_core_def)
    have less: "pool_work E (ds_Polls c) ?q < pool_work E (ds_Polls c) p" using busy by (simp add: pool_work_def)
    have frozen: "st_FrozenSpec (np_Status ?q) = None \<or> st_FrozenSpec (np_Status ?q) = Some (np_Spec ?q)" using serve_ok_parts(4) [OF ok] by simp
    have "wp (savePool E ?q) (\<lambda>r t. r = None \<and> (\<exists>q'. alike ?q q' \<and> view (world t) = c\<lparr>ds_Pool := Some q'\<rparr>)) (s\<lparr>world := w'\<rparr>)"
      using wp_save [OF drain, of "s\<lparr>world := w'\<rparr>" p ?q] w'(2) p by simp
    then have "wp (savePool E ?q) (\<lambda>r t. r = None \<and> advanced B E cl c (view (world t))) (s\<lparr>world := w'\<rparr>)"
      by (rule wp_mono) (use advanced_pool [OF ok p like frozen less] in auto)
    then show ?thesis
      by (simp add: finishWork_def Work_def wp_rules w'(1)) (erule wp_mono, auto simp: wp_return)
  qed
qed

definition prepared :: "'w engine \<Rightarrow> (string \<Rightarrow> nlb option) \<Rightarrow> nlb_pool \<Rightarrow> bool" where
  "prepared E lbs p \<longleftrightarrow>
     has_finalizer E (np_Meta p) \<and> st_FrozenSpec (np_Status p) = Some (np_Spec p) \<and> st_PendingWork (np_Status p) = '''' \<and>
     (ps_ProvisionEmpty (np_Spec p) \<longrightarrow> recorded lbs p 0)"

lemma wp_reconcilePool_serves:
  assumes api: "serve_api E req B apply view cl" and s: "sees view c s" and p: "ds_Pool c = Some p" and ok: "serve_ok E cl c p"
  shows "wp (reconcilePool E p) (\<lambda>f t. rounded B E cl c p (prepared E (ds_Lbs c) p \<and> all_resting E cl c p) f (view (world t))) s"
proof -
  note live = serve_ok_parts(5) [OF ok] and drain = serve_api_parts(1) [OF api]
  have v: "view (world s) = c" using s by (simp add: sees_def)
  have scope: "ps_CompartmentID (np_Spec p) = en_Compartment E" "ps_SubnetID (np_Spec p) = en_Subnet E" using ok by (simp_all add: serve_ok_def)
  have valid: "ValidatePool (np_Spec p) = None" using serve_ok_parts(1) [OF ok] by (simp add: pool_ok_def pool_spec_ok_valid)
  have unfrozen: "st_FrozenSpec (np_Status p) = None \<or> st_FrozenSpec (np_Status p) = Some (np_Spec p)" by (rule serve_ok_parts(4) [OF ok])
  consider (finalizer) "\<not> has_finalizer E (np_Meta p)" | (freeze) "has_finalizer E (np_Meta p)" "st_FrozenSpec (np_Status p) = None"
    | (work) "has_finalizer E (np_Meta p)" "st_FrozenSpec (np_Status p) = Some (np_Spec p)" "st_PendingWork (np_Status p) \<noteq> ''''"
    | (bindings) "has_finalizer E (np_Meta p)" "st_FrozenSpec (np_Status p) = Some (np_Spec p)" "st_PendingWork (np_Status p) = ''''"
    using unfrozen by auto
  then show ?thesis
  proof cases
    case finalizer
    let ?q = "p\<lparr>np_Meta := with_finalizer E (np_Meta p)\<rparr>"
    obtain q w' where w': "kc_UpdatePool (en_Kube E) ?q (world s) = (None, w')" "alike ?q q" "view w' = c\<lparr>ds_Pool := Some q\<rparr>"
      using kube_stores_laws(3) [OF serve_api_parts(3) [OF api] _ live, of "world s"] p v unfolding with_finalizer_def by blast
    have like: "pool_like p ?q" by (simp add: pool_like_def pool_core_def with_finalizer_def)
    have less: "pool_work E (ds_Polls c) ?q < pool_work E (ds_Polls c) p"
      using finalizer serve_api_parts(5) [OF api] by (simp add: pool_work_def with_finalizer_def finalizer_laws_def)
    have "advanced B E cl c (view w')" unfolding w'(3) by (rule advanced_pool [OF ok p like _ less w'(2)]) (use unfrozen in simp)
    with w'(1) finalizer live valid scope unfrozen show ?thesis by (auto simp: reconcilePool_def wp_rules Let_def rounded_def prepared_def)
  next
    case freeze
    let ?q = "set_status (\<lambda>st. st\<lparr>st_FrozenSpec := Some (np_Spec p)\<rparr>) p"
    have like: "pool_like p ?q" by (simp add: pool_like_def pool_core_def)
    have less: "pool_work E (ds_Polls c) ?q < pool_work E (ds_Polls c) p" using freeze by (simp add: pool_work_def)
    have "advanced B E cl c (c\<lparr>ds_Pool := Some q\<rparr>)" if "alike ?q q" for q by (rule advanced_pool [OF ok p like _ less that]) simp
    then have "wp (saveAndReturn E ?q) (\<lambda>f t. f = again None \<and> advanced B E cl c (view (world t))) s"
      by (intro wp_saved [where p = p, OF drain]) (use p v in simp_all)
    then have "wp (saveAndReturn E ?q) (\<lambda>f t. rounded B E cl c p (prepared E (ds_Lbs c) p \<and> all_resting E cl c p) f (view (world t))) s"
      by (rule wp_mono) (use freeze in \<open>simp add: rounded_def prepared_def\<close>)
    with freeze valid scope show ?thesis by (simp add: reconcilePool_def)
  next
    case work
    have "wp (finishWork E p) (\<lambda>f t. rounded B E cl c p (prepared E (ds_Lbs c) p \<and> all_resting E cl c p) f (view (world t))) s"
      by (rule wp_mono [OF wp_finishWork_serves [OF api s p ok work(3)]]) (use work in \<open>simp add: rounded_def prepared_def\<close>)
    with work valid scope show ?thesis by (simp add: reconcilePool_def)
  next
    case bindings
    have at: "at_work E req B apply view cl c p" using api p ok bindings(3) by (simp add: at_work_def)
    have "prepared E (ds_Lbs c) p \<and> all_resting E cl c p \<longleftrightarrow> (ps_ProvisionEmpty (np_Spec p) \<longrightarrow> recorded (ds_Lbs c) p 0) \<and> all_resting E cl c p"
      using bindings by (auto simp: prepared_def)
    with wp_provisionEmpty [OF at s] bindings valid scope show ?thesis by (simp add: reconcilePool_def)
  qed
qed

lemma wp_Reconcile_serves:
  assumes api: "serve_api E req B apply view cl" and req: "fst req = en_Namespace E" and p: "ds_Pool (view w) = Some p" and ok: "serve_ok E cl (view w) p"
  shows "wp (Reconcile E req) (\<lambda>ans t. \<exists>f c'. rounded B E cl (view w) p (prepared E (ds_Lbs (view w)) p \<and> all_resting E cl (view w) p) f c' \<and>
    ans = answer_of f \<and> store_alike c' (view (world t))) (mem_start w)"
proof -
  note drain = serve_api_parts(1) [OF api]
  let ?s = "(mem_start w)\<lparr>snapshot := Some []\<rparr>" and ?rest = "prepared E (ds_Lbs (view w)) p \<and> all_resting E cl (view w) p"
  obtain w' where g: "kc_GetPool (en_Kube E) req w = (Inr p, w')" "view w' = view w" using drain_api_pool(1,2) [OF drain] p by (metis prod.collapse)
  have start: "sees view (view w) (?s\<lparr>world := w'\<rparr>)" by (simp add: sees_def g(2))
  have run: "wp (reconcile E req) (\<lambda>f t. rounded B E cl (view w) p ?rest f (view (world t))) ?s"
    using wp_reconcilePool_serves [OF api start p ok] req by (simp add: reconcile_def wp_rules mem_start_def g(1))
  show ?thesis
    unfolding Reconcile_def ResetSnapshot_def wp_bind wp_modify wp_return
  proof (rule wp_mono [OF run], goal_cases)
    case (1 f t)
    then obtain r where f: "f = Return (r, None)" by (auto simp: rounded_def again_def split: if_splits)
    show ?case
      unfolding f by (rule wp_mono [OF wp_publish [OF drain]]) (intro exI [of _ "Return (r, None)"] exI [of _ "view (world t)"], use 1 f in simp)
  qed
qed

end
