(* ===== verification/Engine_Settles.thy ===== *)
theory Engine_Settles
  imports Engine_Serves
begin

text \<open>
  Repeated reconciliations of a live pool.  A pass that changes the services makes progress, and a pass with
  nothing left to do publishes the statuses; so within a number of passes counted from the contents every
  binding has what it is due, and from then on a reconciliation changes nothing.
\<close>

section \<open>Everything is served\<close>

definition served :: "'w engine \<Rightarrow> cluster \<Rightarrow> drain_store \<Rightarrow> bool" where
  "served E cl c \<longleftrightarrow>
     (\<exists>p. ds_Pool c = Some p \<and> prepared E (ds_Lbs c) p \<and>
        (\<forall>b \<in> set (ds_Bindings c). mine p b \<longrightarrow> resting E cl (ds_Lbs c) p b \<and> tb_Status b = dueStatus (en_Lib E) cl p b))"

lemma resting_pool:
  assumes l: "pool_like p q"
  shows "resting E cl lbs q b = resting E cl lbs p b"
proof -
  note same = core_simps [OF pool_likeD(1) [OF l]] pool_likeD(2) [OF l] refusal_core [OF pool_likeD(1) [OF l]] binding_work_pool(2) [OF l]
  show ?thesis unfolding resting_def recorded_def wants_def converged_def same ..
qed

lemma resting_restated: "restated b b' \<Longrightarrow> resting E cl lbs p b' = resting E cl lbs p b"
  unfolding resting_def wants_def by (simp only: like_simps [OF restated_like] restated_finalizers)

lemma prepared_alike:
  assumes "alike p q"
  shows "prepared E lbs q = prepared E lbs p"
proof -
  have "om_Finalizers (np_Meta q) = om_Finalizers (np_Meta p)" "np_Spec q = np_Spec p" "pool_shards q = pool_shards p"
    "st_FrozenSpec (np_Status q) = st_FrozenSpec (np_Status p)" "st_PendingWork (np_Status q) = st_PendingWork (np_Status p)"
    using assms by (auto simp: alike_def)
  then show ?thesis by (simp add: prepared_def recorded_def)
qed

text \<open>The report at the end of a pass changes nothing of all this.\<close>

lemma serving_alike:
  assumes c: "serving E cl c" and alike: "store_alike c c'"
  shows "serving E cl c'" and "serve_work B E cl c' = serve_work B E cl c" and "served E cl c' = served E cl c" and "kept c c'"
proof -
  obtain p where p: "ds_Pool c = Some p" "serve_ok E cl c p" using c by (auto simp: serving_def)
  obtain q where q: "alike p q" "c' = c\<lparr>ds_Pool := Some q\<rparr>" using alike p(1) by (auto simp: store_alike_def)
  have c: "c = c\<lparr>ds_Pool := Some p\<rparr>" using p(1) by simp
  note like = alike_pool_like [OF q(1)]
  have "serve_ok E cl c' q" using serve_ok_alike [OF p(2) q(1)] q(2) by (subst serve_ok_likes [where c = c]) simp_all
  then show "serving E cl c'" using q(2) by (simp add: serving_def)
  show "serve_work B E cl c' = serve_work B E cl c" using serve_work_alike [OF q(1), of B E cl c] q(2) c by metis
  show "served E cl c' = served E cl c"
    using p(1) q(2) by (simp add: served_def prepared_alike [OF q(1)] resting_pool [OF like] dueStatus_pool [OF like] mine_core [OF pool_likeD(1) [OF like]])
  show "kept c c'" using p(1) q(2) pool_grows_core [OF pool_likeD(1) [OF like]] by (simp add: kept_def)
qed

lemma published_served:
  assumes p: "ds_Pool c = Some p" and ok: "serve_ok E cl c p" and rest: "prepared E (ds_Lbs c) p" "all_resting E cl c p"
    and new: "all_published (en_Lib E) cl p (ds_Bindings c) (ds_Bindings c) new"
  shows "serving E cl (c\<lparr>ds_Bindings := new\<rparr>)" and "serve_work B E cl (c\<lparr>ds_Bindings := new\<rparr>) = serve_work B E cl c"
    and "served E cl (c\<lparr>ds_Bindings := new\<rparr>)" and "kept c (c\<lparr>ds_Bindings := new\<rparr>)" and "served E cl c \<Longrightarrow> new = ds_Bindings c"
proof -
  have re: "restated_all (ds_Bindings c) new" and due: "\<forall>x \<in> set new. binding_uid x \<in> binding_uid ` set (ds_Bindings c) \<longrightarrow> mine p x \<longrightarrow> tb_Status x = dueStatus (en_Lib E) cl p x"
    and still: "(\<forall>b \<in> set (ds_Bindings c). mine p b \<longrightarrow> tb_Status b = dueStatus (en_Lib E) cl p b) \<longrightarrow> new = ds_Bindings c"
    using new unfolding all_published_def by blast+
  have "serve_ok E cl (c\<lparr>ds_Bindings := new\<rparr>) p" using ok restated_likes [OF re] by (subst serve_ok_likes [where c = c]) simp_all
  then show "serving E cl (c\<lparr>ds_Bindings := new\<rparr>)" using p by (simp add: serving_def)
  show "serve_work B E cl (c\<lparr>ds_Bindings := new\<rparr>) = serve_work B E cl c" by (rule serve_work_restated [OF re])
  show "kept c (c\<lparr>ds_Bindings := new\<rparr>)" using p restated_likes [OF re] by (simp add: kept_def pool_grows_def)
  have uids: "binding_uid ` set new = binding_uid ` set (ds_Bindings c)" by (rule likes_uid_set [OF restated_likes [OF re]])
  have "resting E cl (ds_Lbs c) p x \<and> tb_Status x = dueStatus (en_Lib E) cl p x" if x: "x \<in> set new" "mine p x" for x
  proof -
    obtain b where b: "b \<in> set (ds_Bindings c)" "restated b x" using re x(1) by (metis in_set_conv_nth list_all2_conv_all_nth)
    have "mine p b" using x(2) mine_like [OF restated_like [OF b(2)]] by simp
    with b rest(2) have "resting E cl (ds_Lbs c) p x" by (simp add: resting_restated [OF b(2)])
    moreover have "binding_uid x \<in> binding_uid ` set (ds_Bindings c)" using x(1) uids by blast
    with due x have "tb_Status x = dueStatus (en_Lib E) cl p x" by blast
    ultimately show ?thesis ..
  qed
  then show "served E cl (c\<lparr>ds_Bindings := new\<rparr>)" using p rest(1) by (simp add: served_def)
  show "new = ds_Bindings c" if "served E cl c" using that p still unfolding served_def by fastforce
qed

section \<open>Passes\<close>

text \<open>What a pass answers and does.\<close>

lemma serve_round:
  assumes api: "serve_api E req B apply view cl" and req: "fst req = en_Namespace E" and ok: "serving E cl (view w)"
  obtains ans s' where "run_state (Reconcile E req) (mem_start w) = (ans, s')" "view (drain_pass E req w) = view (world s')" "serving E cl (view (world s'))"
    "kept (view w) (view (world s'))" "snd ans = None"
    "\<not> served E cl (view w) \<Longrightarrow> serve_work B E cl (view (world s')) < serve_work B E cl (view w) \<or>
       serve_work B E cl (view (world s')) = serve_work B E cl (view w) \<and> served E cl (view (world s'))"
    "served E cl (view w) \<Longrightarrow> ans = (RequeueLater, None) \<and> store_alike (view w) (view (world s')) \<and> served E cl (view (world s'))"
proof -
  obtain p where p: "ds_Pool (view w) = Some p" "serve_ok E cl (view w) p" using ok by (auto simp: serving_def)
  obtain ans s' where run: "run_state (Reconcile E req) (mem_start w) = (ans, s')" by fastforce
  let ?rest = "prepared E (ds_Lbs (view w)) p \<and> all_resting E cl (view w) p" and ?c = "view w" and ?c' = "view (world s')"
  obtain f c' where f: "rounded B E cl ?c p ?rest f c'" "ans = answer_of f" "store_alike c' ?c'"
    using wp_Reconcile_serves [OF api req p] run by (auto simp: wp_def)
  have pass: "view (drain_pass E req w) = ?c'" by (simp add: drain_pass_def run)
  show thesis
  proof (cases ?rest)
    case False
    with f(1,2) have adv: "advanced B E cl ?c c'" "snd ans = None" by (auto simp: rounded_def again_def)
    then have c': "serving E cl c'" "kept ?c c'" "serve_work B E cl c' < serve_work B E cl ?c" by (simp_all add: advanced_def)
    have "\<not> served E cl ?c" using False p(1) by (auto simp: served_def)
    with that [OF run pass serving_alike(1) [OF c'(1) f(3)] kept_trans [OF c'(2) serving_alike(4) [OF c'(1) f(3)]] adv(2)]
      serving_alike(2) [OF c'(1) f(3), of B] c'(3) show thesis by auto
  next
    case True
    with f(1) obtain new where new: "f = Return (RequeueLater, None)" "all_published (en_Lib E) cl p (ds_Bindings ?c) (ds_Bindings ?c) new"
      "c' = ?c\<lparr>ds_Bindings := new\<rparr>" unfolding rounded_def by auto
    note pub = published_served [OF p conjunct1 [OF True] conjunct2 [OF True] new(2), folded new(3)]
    have "c' = ?c" if "served E cl ?c" using pub(5) [OF that] new(3) by simp
    with that [OF run pass serving_alike(1) [OF pub(1) f(3)] kept_trans [OF pub(4) serving_alike(4) [OF pub(1) f(3)]]]
      f(2,3) new(1) serving_alike(2,3) [OF pub(1) f(3)] pub(2,3) show thesis by auto
  qed
qed

interpretation serve_settling: settling "drain_pass E req"
  "\<lambda>w. serve_api E req B apply view cl \<and> fst req = en_Namespace E \<and> serving E cl (view w) \<and> kept c0 (view w)"
  "\<lambda>w. serve_work B E cl (view w)" "\<lambda>w. served E cl (view w)"
  for E :: "'w engine" and req B "apply" view cl c0
proof (unfold_locales, goal_cases)
  case (1 w)
  then show ?case by (elim conjE) (rule serve_round [of E req B "apply" view cl w], assumption+, auto intro: kept_trans)
next
  case (2 w)
  then show ?case by (elim conjE) (rule serve_round [of E req B "apply" view cl w], assumption+, auto)
next
  case (3 w)
  then show ?case by (elim conjE) (rule serve_round [of E req B "apply" view cl w], assumption+, auto)
qed

text \<open>A binding at rest whose status is due tells where it is served.\<close>

lemma resting_status:
  assumes r: "resting E cl lbs q b" and st: "tb_Status b = dueStatus (en_Lib E) cl q b"
  shows "has_finalizer E (tb_Meta b)" and "map_of (pool_allocations q) (binding_uid b) = None \<Longrightarrow> refusal (en_Lib E) cl q b \<noteq> None"
    and "map_of (pool_allocations q) (binding_uid b) = Some a \<Longrightarrow>
      \<exists>nid lb. provisionedShard q a = Some nid \<and> lbs nid = Some lb \<and> wants (en_Lib E) cl q b a lb \<and>
        bt_ExternalIP (tb_Status b) = publicIP (lb_IpAddresses lb) \<and> bt_ExternalPort (tb_Status b) = al_Port a \<and>
        bt_NLBID (tb_Status b) = nid \<and> bt_BackendSet (tb_Status b) = al_Name a"
proof -
  show "has_finalizer E (tb_Meta b)" "map_of (pool_allocations q) (binding_uid b) = None \<Longrightarrow> refusal (en_Lib E) cl q b \<noteq> None"
    using r by (simp_all add: resting_def)
  assume a: "map_of (pool_allocations q) (binding_uid b) = Some a"
  with r obtain s lb where s: "shard_at (pool_shards q) (al_Shard a) = Some s" "sh_ID s \<noteq> ''''" "lbs (sh_ID s) = Some lb" "s = shard_now (sh_ID s) lb"
    unfolding resting_def recorded_def by auto
  moreover from s have sh: "provisionedShard q a = Some (sh_ID s)" by (simp add: provisionedShard_def)
  moreover have "wants (en_Lib E) cl q b a lb" using r a s(3) sh by (auto simp: resting_def lease_lb_def)
  moreover have "sh_PublicIP s = publicIP (lb_IpAddresses lb)" using s(4) by (metis shard_now_def shard.select_convs(2))
  ultimately show "\<exists>nid lb. provisionedShard q a = Some nid \<and> lbs nid = Some lb \<and> wants (en_Lib E) cl q b a lb \<and>
        bt_ExternalIP (tb_Status b) = publicIP (lb_IpAddresses lb) \<and> bt_ExternalPort (tb_Status b) = al_Port a \<and>
        bt_NLBID (tb_Status b) = nid \<and> bt_BackendSet (tb_Status b) = al_Name a"
    unfolding st by (simp add: dueStatus_def a statusFor_def Let_def)
qed

text \<open>
  C2. The engine finishes the work of a pool in order.  The services work as \<^const>\<open>serve_api\<close> says: nobody else writes,
  writes are accepted, work requests end within a bounded number of polls, and the cluster (Services, slices, Pods,
  nodes) does not change.  At the start the contents are in order as \<^const>\<open>serve_ok\<close> says.  The pool is live and
  valid, lies in the engine's compartment and subnet and keeps its frozen specification.  None of its bindings is being
  deleted or in \<^verbatim>\<open>NodePortCluster\<close> mode, nor is a lease; each binding's destination resolves or is refused for good
  (no failed read and no endpoint gap to wait out), has an instance identity where source addresses are preserved, and
  is not shared with another binding.  The leases in force are exactly those of existing bindings (no orphan, and no
  binding with a retired lease), and the UIDs of the bindings and the names hashed from UIDs differ.  Of every shard there is at most one tagged load balancer, which is owned and
  active and carries only listeners, as they were created, and backend sets of leases in force, within the pool's
  worker limit and none with a destination of another binding; the recorded shards are among them.

  Then at most as many reconciliations as the counted work says (twice, and one more) leave every binding of the pool
  with the engine's finalizer and its due status: it has a lease on a recorded load balancer whose backend set
  and listener are as wanted, and its status names that load balancer's address, the lease's port and the backend
  set; or it has no lease, and its status says why.  No binding changed but in its status and finalizers, no lease was
  lost, and the next reconciliation answers without an error, to be repeated later, and leaves everything as it is.
\<close>

theorem engine_serves:
  assumes "serve_api E req B apply view cl" and "fst req = en_Namespace E" and "ds_Pool (view w) = Some p" and "serve_ok E cl (view w) p"
    and "2 * serve_work B E cl (view w) + 1 \<le> n" and "c = view ((drain_pass E req ^^ n) w)"
  shows "likes (ds_Bindings (view w)) (ds_Bindings c) \<and>
    (\<exists>q. ds_Pool c = Some q \<and> pool_grows p q \<and> st_PendingWork (np_Status q) = '''' \<and>
       (\<forall>b \<in> set (ds_Bindings c). bs_Pool (tb_Spec b) = om_Name (np_Meta q) \<longrightarrow>
          has_finalizer E (tb_Meta b) \<and> tb_Status b = dueStatus (en_Lib E) cl q b \<and>
          (case map_of (pool_allocations q) (binding_uid b) of
             None \<Rightarrow> refusal (en_Lib E) cl q b \<noteq> None
           | Some a \<Rightarrow> (\<exists>nid lb. provisionedShard q a = Some nid \<and> ds_Lbs c nid = Some lb \<and> wants (en_Lib E) cl q b a lb \<and>
               bt_ExternalIP (tb_Status b) = publicIP (lb_IpAddresses lb) \<and> bt_ExternalPort (tb_Status b) = al_Port a \<and>
               bt_NLBID (tb_Status b) = nid \<and> bt_BackendSet (tb_Status b) = al_Name a)))) \<and>
    (\<exists>s'. run_state (Reconcile E req) (mem_start ((drain_pass E req ^^ n) w)) = ((RequeueLater, None), s') \<and> store_alike c (view (world s')))"
proof -
  let ?w = "(drain_pass E req ^^ n) w"
  have start: "serving E cl (view w)" "kept (view w) (view w)" using assms(3,4) by (auto simp: serving_def kept_def pool_grows_def)
  from serve_settling.settles [of E req B "apply" view cl w "view w" n] assms(1,2,5) start
  have rest: "serving E cl c" "kept (view w) c" "served E cl c" unfolding assms(6) by blast+
  obtain q where q: "ds_Pool c = Some q" "prepared E (ds_Lbs c) q"
    "\<forall>b \<in> set (ds_Bindings c). mine q b \<longrightarrow> resting E cl (ds_Lbs c) q b \<and> tb_Status b = dueStatus (en_Lib E) cl q b"
    using rest(3) by (auto simp: served_def)
  have "has_finalizer E (tb_Meta b) \<and> tb_Status b = dueStatus (en_Lib E) cl q b \<and>
          (case map_of (pool_allocations q) (binding_uid b) of
             None \<Rightarrow> refusal (en_Lib E) cl q b \<noteq> None
           | Some a \<Rightarrow> (\<exists>nid lb. provisionedShard q a = Some nid \<and> ds_Lbs c nid = Some lb \<and> wants (en_Lib E) cl q b a lb \<and>
               bt_ExternalIP (tb_Status b) = publicIP (lb_IpAddresses lb) \<and> bt_ExternalPort (tb_Status b) = al_Port a \<and>
               bt_NLBID (tb_Status b) = nid \<and> bt_BackendSet (tb_Status b) = al_Name a))"
    if b: "b \<in> set (ds_Bindings c)" "bs_Pool (tb_Spec b) = om_Name (np_Meta q)" for b
  proof -
    have r: "resting E cl (ds_Lbs c) q b" "tb_Status b = dueStatus (en_Lib E) cl q b" using q(3) b by (auto simp: mine_def)
    note fields = resting_status [OF r]
    show ?thesis by (cases "map_of (pool_allocations q) (binding_uid b)") (use fields r(2) in simp_all)
  qed
  moreover have "st_PendingWork (np_Status q) = ''''" using q(2) by (simp add: prepared_def)
  moreover have "pool_grows p q" "likes (ds_Bindings (view w)) (ds_Bindings c)" using rest(2) assms(3) q(1) by (simp_all add: kept_def)
  moreover have "\<exists>s'. run_state (Reconcile E req) (mem_start ?w) = ((RequeueLater, None), s') \<and> store_alike c (view (world s'))"
    by (rule serve_round [OF assms(1,2), of ?w]) (use rest assms(6) in auto)
  ultimately show ?thesis using q(1) by blast
qed

section \<open>A concrete installation\<close>

text \<open>Services that keep their contents; a work request needs one further poll.\<close>

record serve_world =
  sw_Pool :: "nlb_pool option"
  sw_Bindings :: "tunnel_binding list"
  sw_Lbs :: "(string, nlb) gomap"
  sw_Polls :: nat

definition serve_view :: "serve_world \<Rightarrow> drain_store" where
  "serve_view w = \<lparr>ds_Pool = sw_Pool w, ds_Bindings = sw_Bindings w, ds_Lbs = map_of (sw_Lbs w), ds_Polls = sw_Polls w\<rparr>"

definition serve_kube :: "cluster \<Rightarrow> serve_world kube_client" where
  "serve_kube cl = \<lparr>kc_GetPool = (\<lambda>k w. (case sw_Pool w of Some p \<Rightarrow> Inr p | None \<Rightarrow> Inl (NotFound (snd k)), w)),
     kc_ListBindings = (\<lambda>ns w. (Inr (sw_Bindings w), w)), kc_GetService = (\<lambda>k w. (rd_GetService (reader_of list_lib cl) k, w)),
     kc_ListServices = (\<lambda>ns w. (Inr (cu_services cl), w)), kc_ListSlices = (\<lambda>ns w. (Inr (cu_slices cl), w)),
     kc_ListPods = (\<lambda>ns w. (Inr (cu_pods cl), w)), kc_ListNodes = (\<lambda>w. (Inr (cu_nodes cl), w)),
     kc_UpdatePool = (\<lambda>q w. (None, w\<lparr>sw_Pool := if om_Deleting (np_Meta q) \<and> om_Finalizers (np_Meta q) = [] then None else Some q\<rparr>)),
     kc_UpdatePoolStatus = (\<lambda>q w. (None, w\<lparr>sw_Pool := Some q\<rparr>)), kc_PatchPoolStatus = (\<lambda>q w. (None, w\<lparr>sw_Pool := Some q\<rparr>)),
     kc_UpdateBinding = (\<lambda>b w. (None, w\<lparr>sw_Bindings := put_binding b (sw_Bindings w)\<rparr>)),
     kc_PatchBindingStatus = (\<lambda>b w. (None, w\<lparr>sw_Bindings := put_binding b (sw_Bindings w)\<rparr>))\<rparr>"

definition new_id :: "(string, nlb) gomap \<Rightarrow> string" where
  "new_id lbs = ''n'' @ concat (map fst lbs)"

definition serve_mutate :: "oci_mutation \<Rightarrow> serve_world \<Rightarrow> (go_error + (string option \<times> string option)) \<times> serve_world" where
  "serve_mutate m w =
     (case m of
        CreateNetworkLoadBalancer d \<Rightarrow>
          (Inr (Some (new_id (sw_Lbs w)), Some ''work''), w\<lparr>sw_Lbs := (new_id (sw_Lbs w), created_nlb d) # sw_Lbs w, sw_Polls := 1\<rparr>)
      | _ \<Rightarrow>
          (case Option.bind (mutation_target m) (\<lambda>(nid, n). map_option (Pair nid) (map_of (sw_Lbs w) nid)) of
             None \<Rightarrow> (Inl (ApiError ''bad request''), w)
           | Some (nid, lb) \<Rightarrow> (Inr (None, Some ''work''), w\<lparr>sw_Lbs := (nid, ideal_apply m lb) # sw_Lbs w, sw_Polls := 1\<rparr>)))"

definition summary_of :: "string \<Rightarrow> nlb \<Rightarrow> nlb_summary" where
  "summary_of nid lb = \<lparr>ns_Id = Some nid, ns_LifecycleState = lb_LifecycleState lb, ns_FreeformTags = lb_FreeformTags lb\<rparr>"

definition serve_client :: "serve_world oci_client" where
  "serve_client = \<lparr>oc_GetNLB = (\<lambda>nid w. (case map_of (sw_Lbs w) nid of None \<Rightarrow> Inl (NotFound nid) | Some lb \<Rightarrow> Inr lb, w)),
     oc_ListNLBs = (\<lambda>cid page w. (Inr (map (\<lambda>nid. summary_of nid (the (map_of (sw_Lbs w) nid))) (remdups (map fst (sw_Lbs w))), None), w)),
     oc_Mutate = serve_mutate,
     oc_GetWorkRequest = (\<lambda>i w. (case sw_Polls w of 0 \<Rightarrow> (Inr ''SUCCEEDED'', w) | Suc k \<Rightarrow> (Inr ''IN_PROGRESS'', w\<lparr>sw_Polls := k\<rparr>)))\<rparr>"

definition serve_engine :: "cluster \<Rightarrow> serve_world engine" where
  "serve_engine cl = \<lparr>en_Cloud = \<lparr>cd_Client = serve_client, cd_Installation = ''inst'', cd_CtxErr = (\<lambda>w. None), cd_PageFuel = 1\<rparr>,
     en_Kube = serve_kube cl, en_Lib = list_lib, en_ServiceError = (\<lambda>e. None), en_Namespace = ''ns'', en_Compartment = ''comp'', en_Subnet = ''subnet''\<rparr>"

lemma new_id_fresh: "map_of lbs (new_id lbs) = None"
proof -
  have "length n \<le> length (concat (map fst lbs))" if "n \<in> fst ` set lbs" for n
    using that member_le_sum_list [of "length n" "map length (map fst lbs)"] by (simp add: length_concat) force
  then have "new_id lbs \<notin> fst ` set lbs" by (force simp: new_id_def)
  then show ?thesis by (simp add: map_of_eq_None_iff)
qed

lemma set_condition_again: "set_condition_list (set_condition_list cs x) x = set_condition_list cs x"
proof (cases "list_ex (\<lambda>d. cn_Type d = cn_Type x) cs")
  case True
  then have "set_condition_list cs x = map (\<lambda>d. if cn_Type d = cn_Type x then x else d) cs" by (simp add: set_condition_list_def)
  moreover from True have "list_ex (\<lambda>d. cn_Type d = cn_Type x) (map (\<lambda>d. if cn_Type d = cn_Type x then x else d) cs)" by (auto simp: list_ex_iff)
  ultimately show ?thesis by (simp add: set_condition_list_def [of "map _ cs"] comp_def)
next
  case False
  then have "map (\<lambda>d. if cn_Type d = cn_Type x then x else d) cs = cs" by (intro map_idI) (simp add: list_ex_iff)
  with False show ?thesis by (simp add: set_condition_list_def)
qed

lemma ideal_addresses: "lb_IpAddresses (ideal_apply m lb) = lb_IpAddresses lb"
  by (cases m) simp_all

lemma serve_engine_drain: "drain_api (serve_engine cl) req 1 ideal_apply serve_view"
  unfolding drain_api_def
proof (intro conjI allI impI, goal_cases)
  case 1
  show ?case by (rule oci_applies_ideal)
next
  case (12 m nid n w lb)
  then show ?case by (cases m) (auto simp: serve_engine_def serve_client_def serve_mutate_def serve_view_def fun_eq_iff)
qed (auto simp: serve_engine_def serve_kube_def serve_client_def serve_view_def list_lib_def is_not_found_def
    split: option.splits nat.splits)

lemma serve_engine_finds: "oci_finds (serve_engine cl) 1 ideal_apply serve_view"
  unfolding oci_finds_def
proof (intro conjI allI, goal_cases)
  case (1 m lb)
  show ?case by (rule ideal_addresses)
next
  case (2 cid w)
  let ?items = "map (\<lambda>nid. summary_of nid (the (map_of (sw_Lbs w) nid))) (remdups (map fst (sw_Lbs w)))"
  have "summarises cid (ds_Lbs (serve_view w)) ?items"
    unfolding summarises_def
  proof (intro conjI)
    show "distinct (map (\<lambda>x. vstr (ns_Id x)) ?items)" by (simp add: comp_def summary_of_def)
    show "\<forall>x \<in> set ?items. \<exists>lb. ds_Lbs (serve_view w) (vstr (ns_Id x)) = Some lb \<and> ns_FreeformTags x = lb_FreeformTags lb \<and> ns_LifecycleState x = lb_LifecycleState lb"
    proof
      fix x assume "x \<in> set ?items"
      then obtain nid where x: "x = summary_of nid (the (map_of (sw_Lbs w) nid))" "nid \<in> fst ` set (sw_Lbs w)" by auto
      then obtain lb where "map_of (sw_Lbs w) nid = Some lb" by (metis map_of_eq_None_iff not_Some_eq)
      with x show "\<exists>lb. ds_Lbs (serve_view w) (vstr (ns_Id x)) = Some lb \<and> ns_FreeformTags x = lb_FreeformTags lb \<and> ns_LifecycleState x = lb_LifecycleState lb"
        by (simp add: summary_of_def serve_view_def)
    qed
    show "\<forall>nid lb. ds_Lbs (serve_view w) nid = Some lb \<longrightarrow> vstr (lb_CompartmentId lb) = cid \<longrightarrow> (\<exists>x \<in> set ?items. vstr (ns_Id x) = nid)"
      by (auto simp: serve_view_def summary_of_def dest!: map_of_SomeD intro: rev_image_eqI)
  qed
  then show ?case by (intro exI [of _ "\<lambda>pg. (?items, None)"] exI [of _ ?items]) (simp add: serve_engine_def serve_client_def)
next
  case (3 d w)
  let ?n = "new_id (sw_Lbs w)"
  let ?w = "w\<lparr>sw_Lbs := (?n, created_nlb d) # sw_Lbs w, sw_Polls := 1\<rparr>"
  have "oc_Mutate (cd_Client (en_Cloud (serve_engine cl))) (CreateNetworkLoadBalancer d) w = (Inr (Some ?n, Some ''work''), ?w)"
    by (simp add: serve_engine_def serve_client_def serve_mutate_def)
  moreover have "?n \<noteq> ''''" by (simp add: new_id_def)
  moreover have "ds_Lbs (serve_view w) ?n = None" by (simp add: serve_view_def new_id_fresh)
  moreover have "as_ordered d (created_nlb d)" by (simp add: as_ordered_def created_nlb_def)
  moreover have "serve_view ?w = (serve_view w)\<lparr>ds_Lbs := (ds_Lbs (serve_view w))(?n \<mapsto> created_nlb d), ds_Polls := 1\<rparr>" by (simp add: serve_view_def fun_eq_iff)
  ultimately show ?case by (metis list.distinct(1) order_refl)
qed

lemma at_version_same: "at_version (om_ResourceVersion (tb_Meta b)) b = b"
  by simp

lemma serve_engine_api: "serve_api (serve_engine cl) req 1 ideal_apply serve_view cl"
proof -
  have reads: "kube_reads (serve_engine cl) serve_view cl" by (simp add: kube_reads_def serve_engine_def serve_kube_def)
  have "kube_stores (serve_engine cl) serve_view"
    unfolding kube_stores_def
  proof (intro conjI allI impI, goal_cases)
    case (1 b x w)
    show ?case
      by (rule exI [of _ "om_ResourceVersion (tb_Meta b)"], unfold at_version_same) (simp add: serve_engine_def serve_kube_def serve_view_def)
  next
    case (2 x fs w)
    let ?b = "x\<lparr>tb_Meta := (tb_Meta x)\<lparr>om_Finalizers := fs\<rparr>\<rparr>"
    show ?case
      by (rule exI [of _ "om_ResourceVersion (tb_Meta ?b)"], unfold at_version_same) (simp add: serve_engine_def serve_kube_def serve_view_def)
  next
    case (3 p fs w)
    then show ?case by (auto simp: serve_engine_def serve_kube_def serve_view_def intro: alike_refl)
  qed
  then show ?thesis
    using serve_engine_drain serve_engine_finds reads finalizer_laws_list_lib
    by (simp add: serve_api_def serve_engine_def list_lib_def condition_law_def set_condition_again)
qed

text \<open>A pool that was just created, with a lease for a binding whose Service has one ready Pod, and no load balancer yet.\<close>

definition demo_cluster :: cluster where
  "demo_cluster = \<lparr>cu_services = [demo_service], cu_slices = [demo_slice], cu_pods = [demo_pod True], cu_nodes = [demo_node]\<rparr>"

definition fresh_pool :: nlb_pool where
  "fresh_pool = set_allocations [(''u2'', demo_active)] demo_pool"

definition fresh_world :: serve_world where
  "fresh_world = \<lparr>sw_Pool = Some fresh_pool, sw_Bindings = [demo_binding ''u2'' ''s2'' 0], sw_Lbs = [], sw_Polls = 0\<rparr>"

lemma demo_cluster_reader: "reader_of list_lib demo_cluster = demo_reader demo_service True"
  by (simp add: reader_of_def demo_reader_def demo_cluster_def snapshot_of_def index_by_def key_of_def) (simp add: demo_endpoint_defs meta_named_def)

lemma Resolve_lease: "al_ServiceUID a = al_ServiceUID a' \<Longrightarrow> Resolve L R b a = Resolve L R b a'"
  by (simp only: Resolve_def readServiceFor_def)

lemma demo_resolved:
  assumes "al_ServiceUID a = ''s2''"
  shows "Resolve list_lib (reader_of list_lib demo_cluster) (demo_binding ''u2'' ''s2'' 0) a = Inr \<lparr>bk_IP = ''10.0.0.5'', bk_TargetID = '''', bk_Port = 7777\<rparr>"
  unfolding demo_cluster_reader using demo_resolve_podip Resolve_lease [of a demo_held] assms by (simp add: demo_held_def)

lemma demo_served: "served_by list_lib demo_cluster (demo_binding ''u2'' ''s2'' 0) = Inr \<lparr>bk_IP = ''10.0.0.5'', bk_TargetID = '''', bk_Port = 7777\<rparr>"
proof -
  have "rd_GetService (reader_of list_lib demo_cluster) (''ns'', ''s2'') = Inr demo_service"
    by (simp add: demo_cluster_reader demo_reader_def snapshotReader_def snapshotGet_def)
  then show ?thesis by (simp add: served_by_def demo_resolved newAllocation_def) (simp add: demo_defs demo_service_def demo_resolved [unfolded demo_defs])
qed

lemma fresh_pool_simps:
  "pool_allocations fresh_pool = [(''u2'', demo_active)]" "pool_shards fresh_pool = []" "np_Spec fresh_pool = demo_spec" "om_Name (np_Meta fresh_pool) = ''pool''"
  "\<not> om_Deleting (np_Meta fresh_pool)" "om_Finalizers (np_Meta fresh_pool) = []" "st_FrozenSpec (np_Status fresh_pool) = None" "st_PendingWork (np_Status fresh_pool) = ''''"
  by (simp_all add: fresh_pool_def demo_defs)

lemma demo_wanted:
  assumes "np_Spec q = demo_spec" "om_Name (np_Meta q) = ''pool''"
  shows "wanted list_lib demo_cluster q (demo_binding ''u2'' ''s2'' 0) demo_active = (demo_backends, 8080, None)"
proof -
  let ?b = "demo_binding ''u2'' ''s2'' 0"
  have b: "bs_HealthPort (tb_Spec ?b) = 8080" "\<not> bs_Suspended (tb_Spec ?b)" by (simp_all add: demo_defs)
  have "\<not> targetChanged q ?b demo_active" unfolding targetChanged_def assms by (simp add: demo_active_def demo_defs)
  moreover have "al_ServiceUID demo_active = ''s2''" by (simp add: demo_active_def demo_defs)
  ultimately show ?thesis by (simp add: wanted_def b demo_resolved demo_backends_def)
qed

lemma fresh_pool_ok: "pool_ok fresh_pool"
proof -
  have "pool_slots fresh_pool = {0..<2} \<times> {20000..<20002}"
    using card_pool_slots(1) [of fresh_pool] by (simp add: fresh_pool_simps) (simp add: demo_spec_def)
  then show ?thesis
    by (simp add: pool_ok_def fresh_pool_simps ledger_ok_def wf_map_def pool_capacity_def service_ports_unique_def map_values_def alloc_slot_def)
       (simp add: demo_defs)
qed

lemma fresh_world_ok: "serve_ok (serve_engine demo_cluster) demo_cluster (serve_view fresh_world) fresh_pool"
proof -
  have b: "binding_uid (demo_binding ''u2'' ''s2'' 0) = ''u2''" "\<not> om_Deleting (tb_Meta (demo_binding ''u2'' ''s2'' 0))"
    "bs_Mode (tb_Spec (demo_binding ''u2'' ''s2'' 0)) = ''PodIP''" by (simp_all add: demo_defs)
  have "bindings_ok list_lib demo_cluster fresh_pool [demo_binding ''u2'' ''s2'' 0]"
    by (simp add: bindings_ok_def fresh_pool_simps demo_served definite_def b) (simp add: demo_spec_def)
  moreover have "family_ok (serve_engine demo_cluster) demo_cluster bs (map_of []) fresh_pool" for bs
    by (auto simp: family_ok_def shard_at_def fresh_pool_simps split: if_splits)
  moreover have "\<not> al_Tombstone demo_active" by (simp add: demo_active_def demo_defs)
  ultimately show ?thesis
    using fresh_pool_ok by (simp add: serve_ok_def serve_view_def fresh_world_def fresh_pool_simps b) (simp add: serve_engine_def demo_spec_def)
qed

lemma fresh_world_work: "serve_work 1 (serve_engine demo_cluster) demo_cluster (serve_view fresh_world) = 17"
proof -
  have "binding_uid (demo_binding ''u2'' ''s2'' 0) = ''u2''" "om_Finalizers (tb_Meta (demo_binding ''u2'' ''s2'' 0)) = []"
    "ps_ProvisionEmpty demo_spec = False" by (simp_all add: demo_defs)
  then show ?thesis
    by (simp add: serve_work_def serve_view_def fresh_world_def binding_work_def mine_def fresh_pool_simps shard_cost_def shard_at_def object_work_def
        lease_lb_def provisionedShard_def serve_engine_def list_lib_def)
qed

text \<open>After the passes the lease's listener and backend set are there, for the Pod's address, and the binding's status says where.\<close>

theorem engine_serves_witness:
  "\<exists>q b nid lb. let c = serve_view ((drain_pass (serve_engine demo_cluster) (''ns'', ''pool'') ^^ 35) fresh_world) in
     ds_Pool c = Some q \<and> ds_Bindings c = [b] \<and> ds_Lbs c nid = Some lb \<and> converged q demo_active demo_backends 8080 lb \<and>
     bt_NLBID (tb_Status b) = nid \<and> bt_ExternalPort (tb_Status b) = 20001"
proof -
  let ?E = "serve_engine demo_cluster" and ?b = "demo_binding ''u2'' ''s2'' 0"
  define c where "c = serve_view ((drain_pass ?E (''ns'', ''pool'') ^^ 35) fresh_world)"
  have start: "ds_Pool (serve_view fresh_world) = Some fresh_pool" "fst (''ns'', ''pool'') = en_Namespace ?E"
    "ds_Bindings (serve_view fresh_world) = [?b]"
    by (simp_all add: serve_view_def fresh_world_def serve_engine_def)
  have "2 * serve_work 1 ?E demo_cluster (serve_view fresh_world) + 1 \<le> 35" unfolding fresh_world_work by simp
  note end_state = engine_serves [OF serve_engine_api start(2,1) fresh_world_ok this c_def]
  from end_state obtain q where q: "ds_Pool c = Some q" "pool_grows fresh_pool q" and all: "\<forall>b \<in> set (ds_Bindings c). bs_Pool (tb_Spec b) = om_Name (np_Meta q) \<longrightarrow>
      (case map_of (pool_allocations q) (binding_uid b) of None \<Rightarrow> refusal (en_Lib ?E) demo_cluster q b \<noteq> None
       | Some a \<Rightarrow> (\<exists>nid lb. provisionedShard q a = Some nid \<and> ds_Lbs c nid = Some lb \<and> wants (en_Lib ?E) demo_cluster q b a lb \<and>
           bt_ExternalIP (tb_Status b) = publicIP (lb_IpAddresses lb) \<and> bt_ExternalPort (tb_Status b) = al_Port a \<and>
           bt_NLBID (tb_Status b) = nid \<and> bt_BackendSet (tb_Status b) = al_Name a))" by blast
  from end_state obtain b where b: "ds_Bindings c = [b]" "binding_like ?b b" unfolding start(3) by (auto simp: list_all2_Cons1)
  have lease: "map_of (pool_allocations q) ''u2'' = Some demo_active"
    using q(2) by (auto simp: pool_grows_def map_le_def fresh_pool_simps)
  have "binding_uid b = ''u2''" "bs_Pool (tb_Spec b) = om_Name (np_Meta q)"
    using binding_like_fields(1,2) [OF b(2)] q(2) by (simp_all add: pool_grows_def fresh_pool_simps) (simp_all add: demo_defs)
  with all b(1) lease obtain nid lb where lb: "ds_Lbs c nid = Some lb" "wants list_lib demo_cluster q b demo_active lb"
    "bt_NLBID (tb_Status b) = nid" "bt_ExternalPort (tb_Status b) = 20001" by (auto simp: serve_engine_def)
  have "wanted list_lib demo_cluster q b demo_active = (demo_backends, 8080, None)"
    unfolding wanted_like [OF b(2)] by (rule demo_wanted) (use q(2) in \<open>simp_all add: pool_grows_def fresh_pool_simps\<close>)
  with lb(2) have "converged q demo_active demo_backends 8080 lb" by (simp add: wants_def)
  with q(1) b(1) lb show ?thesis unfolding c_def [symmetric] Let_def by blast
qed

end
