(* ===== verification/Gateway_Types.thy ===== *)
theory Gateway_Types
  imports Api_Types Calls
begin

text \<open>
  The objects of the Gateway API (\<^verbatim>\<open>sigs.k8s.io/gateway-api/apis/v1\<close>) and the config maps that the two
  Gateway controllers read and write, and the API they use.  The types belong to third-party packages:
  only their shape is fixed here.  Fields that the source compares with \<^verbatim>\<open>nil\<close> or as a whole, but never
  looks into (TLS settings, infrastructure, label selectors, requested addresses), are strings.

  A Go slice or map that is \<^verbatim>\<open>nil\<close> and an empty one are the same list: the objects come from JSON, which
  drops empty collections, and every comparison with \<^verbatim>\<open>reflect.DeepEqual\<close> in the source is between objects
  that were read that way or non-empty.
\<close>

definition GroupName :: string where
  "GroupName = ''gateway.networking.k8s.io''"

definition GatewayGroupVersion :: string where
  "GatewayGroupVersion = ''gateway.networking.k8s.io/v1''"

definition NlbGroupVersion :: string where
  "NlbGroupVersion = ''nlb.independent.dev/v1alpha1''"

section \<open>Gateways\<close>

record route_group_kind =
  rk_Group :: "string option"
  rk_Kind :: string

record from_namespaces =
  fn_From :: "string option"
  fn_Selector :: "string option"

record allowed_routes =
  ar_Namespaces :: "from_namespaces option"
  ar_Kinds :: "route_group_kind list"

record gw_listener =
  gl_Name :: string
  gl_Hostname :: "string option"
  gl_Port :: int
  gl_Protocol :: string
  gl_TLS :: "string option"
  gl_AllowedRoutes :: "allowed_routes option"

record allowed_listeners =
  an_Namespaces :: "from_namespaces option"

record gateway_spec =
  gy_GatewayClassName :: string
  gy_Listeners :: "gw_listener list"
  gy_Addresses :: "string list"
  gy_Infrastructure :: "string option"
  gy_AllowedListeners :: "allowed_listeners option"
  gy_TLS :: "string option"
  gy_DefaultScope :: string

record listener_status =
  ls_Name :: string
  ls_SupportedKinds :: "route_group_kind list"
  ls_AttachedRoutes :: int
  ls_Conditions :: "condition list"

record gateway_status =
  gu_Addresses :: "(string option \<times> string) list"
  gu_Listeners :: "listener_status list"
  gu_Conditions :: "condition list"

record gateway =
  gw_Meta :: object_meta
  gw_Spec :: gateway_spec
  gw_Status :: gateway_status

record gateway_class =
  gc_Meta :: object_meta
  gc_ControllerName :: string
  gc_ParametersRef :: "string option"
  gc_Conditions :: "condition list"
  gc_SupportedFeatures :: "string list"

section \<open>Routes\<close>

record parent_ref =
  pr_Group :: "string option"
  pr_Kind :: "string option"
  pr_Namespace :: "string option"
  pr_Name :: string
  pr_SectionName :: "string option"
  pr_Port :: "int option"

record backend_ref =
  br_Group :: "string option"
  br_Kind :: "string option"
  br_Namespace :: "string option"
  br_Name :: string
  br_Port :: "int option"
  br_Weight :: "int option"

record parent_status =
  rp_ParentRef :: parent_ref
  rp_ControllerName :: string
  rp_Conditions :: "condition list"

text \<open>A rule is the list of its backend references.\<close>

record udp_route =
  ur_Meta :: object_meta
  ur_ParentRefs :: "parent_ref list"
  ur_UseDefaultGateways :: string
  ur_Rules :: "backend_ref list list"
  ur_Parents :: "parent_status list"

record config_map =
  cm_Meta :: object_meta
  cm_Immutable :: "bool option"
  cm_Data :: "(string, string) gomap"

section \<open>The API\<close>

text \<open>
  The writes of the two controllers.  Deletions carry the object whose UID and resource version are the
  preconditions of the request.
\<close>

datatype gw_write =
    CreatePool nlb_pool
  | UpdateNlbPool nlb_pool
  | DeletePool nlb_pool
  | CreateBinding tunnel_binding
  | PatchBinding tunnel_binding
  | DeleteBinding tunnel_binding
  | CreateGateway gateway
  | UpdateGateway gateway
  | PatchGateway gateway
  | PatchGatewayStatus gateway
  | DeleteGateway gateway
  | PatchClassStatus gateway_class
  | UpdateRoute udp_route
  | PatchRouteStatus udp_route
  | CreateConfigMap config_map
  | UpdateGatewayPool gateway_pool
  | UpdateGatewayPoolStatus gateway_pool

text \<open>
  A write answers with an error or succeeds; where the source goes on with the object that the server
  sends back, the answer carries it.
\<close>

record 'w gw_client =
  gk_ListRoutes :: "string \<Rightarrow> 'w \<Rightarrow> (go_error + udp_route list) \<times> 'w"
  gk_ListBindings :: "string \<Rightarrow> 'w \<Rightarrow> (go_error + tunnel_binding list) \<times> 'w"
  gk_ListPools :: "string \<Rightarrow> 'w \<Rightarrow> (go_error + nlb_pool list) \<times> 'w"
  gk_ListServices :: "string \<Rightarrow> 'w \<Rightarrow> (go_error + service list) \<times> 'w"
  gk_ListGatewayPools :: "string \<Rightarrow> 'w \<Rightarrow> (go_error + gateway_pool list) \<times> 'w"
  gk_GetGateway :: "object_key \<Rightarrow> 'w \<Rightarrow> (go_error + gateway) \<times> 'w"
  gk_GetClass :: "string \<Rightarrow> 'w \<Rightarrow> (go_error + gateway_class) \<times> 'w"
  gk_GetPool :: "object_key \<Rightarrow> 'w \<Rightarrow> (go_error + nlb_pool) \<times> 'w"
  gk_GetBinding :: "object_key \<Rightarrow> 'w \<Rightarrow> (go_error + tunnel_binding) \<times> 'w"
  gk_GetService :: "object_key \<Rightarrow> 'w \<Rightarrow> (go_error + service) \<times> 'w"
  gk_GetConfigMap :: "object_key \<Rightarrow> 'w \<Rightarrow> (go_error + config_map) \<times> 'w"
  gk_GetGatewayPool :: "object_key \<Rightarrow> 'w \<Rightarrow> (go_error + gateway_pool) \<times> 'w"
  gk_CreatePool :: "nlb_pool \<Rightarrow> 'w \<Rightarrow> (go_error + nlb_pool) \<times> 'w"
  gk_UpdateNlbPool :: "nlb_pool \<Rightarrow> 'w \<Rightarrow> (go_error + nlb_pool) \<times> 'w"
  gk_CreateBinding :: "tunnel_binding \<Rightarrow> 'w \<Rightarrow> (go_error + tunnel_binding) \<times> 'w"
  gk_PatchBinding :: "tunnel_binding \<Rightarrow> 'w \<Rightarrow> (go_error + tunnel_binding) \<times> 'w"
  gk_PatchGateway :: "gateway \<Rightarrow> 'w \<Rightarrow> (go_error + gateway) \<times> 'w"
  gk_Submit :: "gw_write \<Rightarrow> 'w \<Rightarrow> go_error option \<times> 'w"
  gk_CtxErr :: "'w \<Rightarrow> go_error option"

text \<open>
  \<^verbatim>\<open>encoding/json\<close> on a whole resource; its encoding is defined by the marshalling methods of the
  Kubernetes types inside.
\<close>

record json_lib =
  marshalPool :: "nlb_pool \<Rightarrow> go_error + string"
  unmarshalPool :: "string \<Rightarrow> go_error + nlb_pool"
  marshalLedger :: "string \<Rightarrow> gateway_pool_spec \<Rightarrow> gateway_pool_status \<Rightarrow> go_error + string"

type_synonym 'w gw_state = "('w, gw_write) io_state"

type_synonym ('w, 'a) gw_op = "('w gw_state, 'a) state"

text \<open>A write whose answer is only an error.\<close>

definition submit :: "'w gw_client \<Rightarrow> gw_write \<Rightarrow> ('w, go_error option) gw_op" where
  "submit K e = issue e (gk_Submit K e)"

text \<open>\<^verbatim>\<open>client.IgnoreNotFound\<close>\<close>

definition ignoreNotFound :: "go_error option \<Rightarrow> go_error option" where
  "ignoreNotFound e = (case e of None \<Rightarrow> None | Some x \<Rightarrow> (if is_not_found x then None else Some x))"

abbreviation annotation :: "object_meta \<Rightarrow> string \<Rightarrow> string" where
  "annotation m k \<equiv> get_or '''' (om_Annotations m) k"

abbreviation label :: "object_meta \<Rightarrow> string \<Rightarrow> string" where
  "label m k \<equiv> get_or '''' (om_Labels m) k"

end
