(* ===== verification/Gateway_Policy.thy ===== *)
theory Gateway_Policy
  imports Gateway_Types Sha256
begin

text \<open>
  \<^verbatim>\<open>internalgateway/policy.go\<close>: the restricted UDP profile of the Gateway API that the adapter accepts, and
  the translation of a route with its Service into the specification of a tunnel binding.
\<close>

section \<open>Definitions\<close>

definition GatewayFinalizer :: string where
  "GatewayFinalizer = ''nlb.independent.dev/gateway-cleanup''"

definition RouteFinalizer :: string where
  "RouteFinalizer = ''nlb.independent.dev/gateway-route-cleanup''"

definition GatewayUIDLabel :: string where
  "GatewayUIDLabel = ''nlb.independent.dev/gateway-uid''"

definition RouteUIDLabel :: string where
  "RouteUIDLabel = ''nlb.independent.dev/route-uid''"

definition InstallationLabel :: string where
  "InstallationLabel = ''nlb.independent.dev/installation''"

definition HealthPortAnnotation :: string where
  "HealthPortAnnotation = ''nlb.independent.dev/health-port''"

definition BackendModeAnnotation :: string where
  "BackendModeAnnotation = ''nlb.independent.dev/backend-mode''"

definition MaxWorkersAnnotation :: string where
  "MaxWorkersAnnotation = ''nlb.independent.dev/max-workers''"

text \<open>The configured number of workers and the number of listeners that fit the backend budget.\<close>

definition gatewayWorkers :: "gateway \<Rightarrow> go_error + (int \<times> int)" where
  "gatewayWorkers g =
     (let text = annotation (gw_Meta g) MaxWorkersAnnotation;
          configured = (if text = '''' then Some 0
            else (case atoi text of None \<Rightarrow> None | Some n \<Rightarrow> (if n < 1 \<or> 512 < n then None else Some n)))
      in case configured of
           None \<Rightarrow> Inl (Errorf ''max-workers must be 1..512 including surge'')
         | Some n \<Rightarrow> Inr (n, min 50 (1024 div (if n = 0 then 20 else n))))"

definition PoolName :: "string \<Rightarrow> string" where
  "PoolName uid = ''gw-'' @ sha_hex12 uid"

definition BindingName :: "string \<Rightarrow> string \<Rightarrow> string" where
  "BindingName gatewayUID routeUID = ''route-'' @ sha_hex12 (gatewayUID @ [CHR 0x00] @ routeUID)"

definition condition_for :: "string \<Rightarrow> bool \<Rightarrow> string \<Rightarrow> string \<Rightarrow> int \<Rightarrow> condition" where
  "condition_for kind ok reason message generation =
     \<lparr>cn_Type = kind, cn_Status = (if ok then ''True'' else ''False''), cn_Reason = reason, cn_Message = message,
      cn_ObservedGeneration = generation\<rparr>"

text \<open>The second argument is the name of the Gateway.\<close>

definition parentMatches :: "parent_ref \<Rightarrow> string \<Rightarrow> string \<Rightarrow> bool" where
  "parentMatches parent gatewayName namespace \<longleftrightarrow>
     (pr_Group parent = None \<or> pr_Group parent = Some GroupName) \<and>
     (pr_Kind parent = None \<or> pr_Kind parent = Some ''Gateway'') \<and>
     (pr_Namespace parent = None \<or> pr_Namespace parent = Some namespace) \<and> pr_Name parent = gatewayName"

definition routesAllowed :: "allowed_routes \<Rightarrow> go_error option" where
  "routesAllowed a =
     (if (case ar_Namespaces a of None \<Rightarrow> False
          | Some n \<Rightarrow> fn_From n \<noteq> None \<and> fn_From n \<noteq> Some ''Same'' \<or> fn_Selector n \<noteq> None)
      then Some (Errorf ''only same-namespace routes are supported'')
      else if list_ex (\<lambda>k. rk_Kind k \<noteq> ''UDPRoute'' \<or> (rk_Group k \<noteq> None \<and> rk_Group k \<noteq> Some GroupName)) (ar_Kinds a)
      then Some (Errorf ''only UDPRoute is supported'')
      else None)"

fun validateListeners :: "gw_listener list \<Rightarrow> int list \<Rightarrow> string list \<Rightarrow> go_error option" where
  "validateListeners [] ports names = None"
| "validateListeners (l # ls) ports names =
     (if gl_Name l = '''' \<or> gl_Protocol l \<noteq> ''UDP'' \<or> gl_Port l < 1 \<or> 65535 < gl_Port l \<or> gl_TLS l \<noteq> None \<or> gl_Hostname l \<noteq> None
      then Some (Errorf ''only named UDP listeners without TLS or hostname are supported'')
      else if gl_Port l \<in> set ports \<or> gl_Name l \<in> set names
      then Some (Errorf ''listener names and UDP ports must be distinct'')
      else (case Option.bind (gl_AllowedRoutes l) routesAllowed of
              Some e \<Rightarrow> Some e
            | None \<Rightarrow> validateListeners ls (gl_Port l # ports) (gl_Name l # names)))"

definition validateGateway :: "gateway \<Rightarrow> go_error option" where
  "validateGateway g =
     (case gatewayWorkers g of Inl e \<Rightarrow> Some e | Inr (_, capacity) \<Rightarrow>
       (let s = gw_Spec g; n = int (length (gy_Listeners s))
        in if capacity < n then Some (Errorf ''listener count times maxWorkers exceeds 1024 backend budget'')
           else if gy_Addresses s \<noteq> [] \<or> gy_Infrastructure s \<noteq> None \<or> gy_AllowedListeners s \<noteq> None \<or> gy_TLS s \<noteq> None \<or>
              (gy_DefaultScope s \<noteq> '''' \<and> gy_DefaultScope s \<noteq> ''None'')
           then Some (Errorf ''requested addresses, infrastructure, ListenerSets, TLS and default Gateway attachment are unsupported'')
           else if n < 1 \<or> 50 < n then Some (Errorf ''one to 50 UDP listeners required'')
           else validateListeners (gy_Listeners s) [] []))"

definition listenerFor :: "udp_route \<Rightarrow> gateway \<Rightarrow> go_error + gw_listener" where
  "listenerFor route g =
     (if ur_UseDefaultGateways route \<noteq> '''' \<and> ur_UseDefaultGateways route \<noteq> ''None''
      then Inl (Errorf ''default Gateway attachment is unsupported'')
      else (case ur_ParentRefs route of
              [p] \<Rightarrow>
                (if \<not> parentMatches p (om_Name (gw_Meta g)) (om_Namespace (ur_Meta route)) \<or>
                    pr_SectionName p = None \<or> pr_SectionName p = Some '''' \<or> pr_Port p \<noteq> None
                 then Inl (Errorf ''same-namespace Gateway parent with sectionName and no port selector required'')
                 else (case find (\<lambda>l. Some (gl_Name l) = pr_SectionName p) (gy_Listeners (gw_Spec g)) of
                         Some l \<Rightarrow> Inr l
                       | None \<Rightarrow> Inl (Errorf ''parent listener does not exist'')))
            | _ \<Rightarrow> Inl (Errorf ''exactly one Gateway parent required'')))"

definition backendService :: "udp_route \<Rightarrow> go_error + (string \<times> int)" where
  "backendService route =
     (case ur_Rules route of
        [[ref]] \<Rightarrow>
          (case br_Port ref of
             None \<Rightarrow> Inl (Errorf ''one same-namespace core Service with numeric port and weight one required'')
           | Some port \<Rightarrow>
               (if (br_Group ref \<noteq> None \<and> br_Group ref \<noteq> Some '''') \<or> (br_Kind ref \<noteq> None \<and> br_Kind ref \<noteq> Some ''Service'') \<or>
                   (br_Namespace ref \<noteq> None \<and> br_Namespace ref \<noteq> Some (om_Namespace (ur_Meta route))) \<or>
                   port < 1 \<or> 65535 < port \<or> br_Name ref = '''' \<or> (br_Weight ref \<noteq> None \<and> br_Weight ref \<noteq> Some 1)
                then Inl (Errorf ''one same-namespace core Service with numeric port and weight one required'')
                else Inr (br_Name ref, port)))
      | _ \<Rightarrow> Inl (Errorf ''exactly one rule and one Service backend required''))"

section \<open>From a route to a binding\<close>

definition backendMode :: "udp_route \<Rightarrow> string" where
  "backendMode route =
     (let mode = annotation (ur_Meta route) BackendModeAnnotation in if mode = '''' then ''PodIP'' else mode)"

definition serviceTypeOK :: "string \<Rightarrow> service \<Rightarrow> bool" where
  "serviceTypeOK mode svc =
     (if mode = ''NodePortCluster'' then sv_Type svc = ''NodePort'' \<and> sv_ExternalTrafficPolicy svc = ''Cluster''
      else if mode = ''NodePortLocal'' then sv_Type svc = ''NodePort'' \<and> sv_ExternalTrafficPolicy svc = ''Local''
      else sv_Type svc = '''' \<or> sv_Type svc = ''ClusterIP'')"

text \<open>The health port of the annotation, or the fixed one of cluster mode.\<close>

definition routeHealth :: "udp_route \<Rightarrow> string \<Rightarrow> go_error + int" where
  "routeHealth route mode =
     (let text = annotation (ur_Meta route) HealthPortAnnotation;
          bad = Inl (Errorf (''annotation '' @ HealthPortAnnotation @ '' must specify TCP pod health port 1..65535''))
      in if mode = ''NodePortCluster'' then
           (if text \<noteq> '''' \<and> text \<noteq> ''10256''
            then Inl (Errorf ''NodePortCluster uses fixed worker health port 10256; omit workload health annotation'')
            else Inr 10256)
         else (case atoi text of None \<Rightarrow> bad | Some h \<Rightarrow> (if h < 1 \<or> 65535 < h then bad else Inr h)))"

text \<open>The local variables of the loop over the Service's ports.\<close>

record port_scan =
  sc_selected :: string
  sc_matches :: nat
  sc_healthFound :: bool
  sc_healthMatches :: nat
  sc_healthNodePort :: int

definition no_scan :: port_scan where
  "no_scan = \<lparr>sc_selected = '''', sc_matches = 0, sc_healthFound = False, sc_healthMatches = 0, sc_healthNodePort = 0\<rparr>"

definition selectsPort :: "int \<Rightarrow> service_port \<Rightarrow> bool" where
  "selectsPort port p \<longleftrightarrow> sp_Protocol p = ''UDP'' \<and> sp_Port p = port"

definition isLocalHealth :: "string \<Rightarrow> int \<Rightarrow> service_port \<Rightarrow> bool" where
  "isLocalHealth mode hp p \<longleftrightarrow> mode = ''NodePortLocal'' \<and> sp_Protocol p = ''TCP'' \<and> sp_Port p = hp"

definition isPodHealth :: "string \<Rightarrow> int \<Rightarrow> service_port \<Rightarrow> bool" where
  "isPodHealth mode hp p \<longleftrightarrow>
     mode = ''PodIP'' \<and> sp_Protocol p = ''TCP'' \<and>
     (is_StrVal (sp_TargetPort p) \<noteq> '''' \<or> is_IntVal (sp_TargetPort p) = hp \<or>
      (is_IntVal (sp_TargetPort p) = 0 \<and> sp_Port p = hp))"

definition noNodePort :: "service_port \<Rightarrow> bool" where
  "noNodePort p \<longleftrightarrow> sp_NodePort p < 1 \<or> 65535 < sp_NodePort p"

definition usesNodePort :: "string \<Rightarrow> bool" where
  "usesNodePort mode \<longleftrightarrow> mode = ''NodePortCluster'' \<or> mode = ''NodePortLocal''"

fun scanPorts :: "string \<Rightarrow> int \<Rightarrow> int \<Rightarrow> service_port list \<Rightarrow> port_scan \<Rightarrow> go_error + port_scan" where
  "scanPorts mode port hp [] sc = Inr sc"
| "scanPorts mode port hp (p # ps) sc =
     (if selectsPort port p \<and> usesNodePort mode \<and> noNodePort p
      then Inl (Errorf (mode @ '' requires an allocated UDP NodePort''))
      else let sc1 = (if selectsPort port p then sc\<lparr>sc_selected := sp_Name p, sc_matches := Suc (sc_matches sc)\<rparr> else sc)
      in if isLocalHealth mode hp p \<and> noNodePort p
         then Inl (Errorf ''NodePortLocal requires an allocated TCP health NodePort'')
         else let sc2 = (if isLocalHealth mode hp p
                then sc1\<lparr>sc_healthFound := True, sc_healthMatches := Suc (sc_healthMatches sc1), sc_healthNodePort := sp_NodePort p\<rparr>
                else sc1)
         in scanPorts mode port hp ps (if isPodHealth mode hp p then sc2\<lparr>sc_healthFound := True\<rparr> else sc2))"

definition desiredBinding :: "udp_route \<Rightarrow> gateway \<Rightarrow> gw_listener \<Rightarrow> service \<Rightarrow> go_error + binding_spec" where
  "desiredBinding route g listener svc =
     (case backendService route of Inl e \<Rightarrow> Inl e | Inr (name, port) \<Rightarrow>
       (let mode = backendMode route
        in if mode \<noteq> ''PodIP'' \<and> mode \<noteq> ''NodePortCluster'' \<and> mode \<noteq> ''NodePortLocal'' then Inl (Errorf ''unsupported backend-mode'')
           else if om_Name (sv_Meta svc) \<noteq> name \<or> om_Namespace (sv_Meta svc) \<noteq> om_Namespace (ur_Meta route) \<or>
              om_UID (sv_Meta svc) = '''' \<or> om_Deleting (sv_Meta svc) \<or> \<not> serviceTypeOK mode svc \<or>
              length (sv_Selector svc) = 0 \<or> sv_PublishNotReadyAddresses svc
           then Inl (Errorf ''backend must be a live selector-backed Service with the mode's traffic policy and Ready endpoints'')
           else (case routeHealth route mode of Inl e \<Rightarrow> Inl e | Inr hp \<Rightarrow>
             (case scanPorts mode port hp (sv_Ports svc) no_scan of Inl e \<Rightarrow> Inl e | Inr sc \<Rightarrow>
               (if sc_matches sc \<noteq> 1 \<or> sc_selected sc = ''''
                then Inl (Errorf ''backend port must identify one named UDP Service port'')
                else if \<not> sc_healthFound sc \<and> mode \<noteq> ''NodePortCluster''
                then Inl (Errorf ''Service must expose the annotated TCP health port'')
                else if mode = ''NodePortLocal'' \<and> sc_healthMatches sc \<noteq> 1
                then Inl (Errorf ''NodePortLocal requires exactly one annotated TCP health Service port'')
                else Inr \<lparr>bs_Pool = PoolName (om_UID (gw_Meta g)), bs_Service = name, bs_PortName = sc_selected sc,
                      bs_Mode = (if mode = ''NodePortLocal'' then ''NodePort'' else mode),
                      bs_HealthPort = (if mode = ''NodePortLocal'' then sc_healthNodePort sc else hp),
                      bs_RequestedPort = gl_Port listener, bs_Suspended = False\<rparr>)))))"

section \<open>What a valid Gateway is\<close>

text \<open>The accepted profile of one listener and of a Gateway, without the order of the checks.\<close>

definition routes_profile :: "allowed_routes \<Rightarrow> bool" where
  "routes_profile a \<longleftrightarrow>
     (\<forall>n. ar_Namespaces a = Some n \<longrightarrow> fn_Selector n = None \<and> (fn_From n = None \<or> fn_From n = Some ''Same'')) \<and>
     (\<forall>k \<in> set (ar_Kinds a). rk_Kind k = ''UDPRoute'' \<and> (rk_Group k = None \<or> rk_Group k = Some GroupName))"

definition listener_profile :: "gw_listener \<Rightarrow> bool" where
  "listener_profile l \<longleftrightarrow>
     gl_Name l \<noteq> '''' \<and> gl_Protocol l = ''UDP'' \<and> 1 \<le> gl_Port l \<and> gl_Port l \<le> 65535 \<and> gl_TLS l = None \<and> gl_Hostname l = None \<and>
     (\<forall>a. gl_AllowedRoutes l = Some a \<longrightarrow> routes_profile a)"

text \<open>The number of workers a Gateway asks for: its annotation, or twenty.\<close>

definition asked_workers :: "gateway \<Rightarrow> int option" where
  "asked_workers g =
     (let text = annotation (gw_Meta g) MaxWorkersAnnotation
      in if text = '''' then Some 20 else (case atoi text of None \<Rightarrow> None | Some n \<Rightarrow> (if 1 \<le> n \<and> n \<le> 512 then Some n else None)))"

definition gateway_profile :: "gateway \<Rightarrow> bool" where
  "gateway_profile g \<longleftrightarrow>
     (let s = gw_Spec g; n = int (length (gy_Listeners s))
      in (\<exists>w. asked_workers g = Some w \<and> n * w \<le> 1024) \<and> 1 \<le> n \<and> n \<le> 50 \<and>
         gy_Addresses s = [] \<and> gy_Infrastructure s = None \<and> gy_AllowedListeners s = None \<and> gy_TLS s = None \<and>
         (gy_DefaultScope s = '''' \<or> gy_DefaultScope s = ''None'') \<and>
         list_all listener_profile (gy_Listeners s) \<and> distinct (map gl_Port (gy_Listeners s)) \<and> distinct (map gl_Name (gy_Listeners s)))"

lemma routesAllowed_None: "routesAllowed a = None \<longleftrightarrow> routes_profile a"
  by (auto simp: routesAllowed_def routes_profile_def list_ex_iff split: option.splits)

lemma validateListeners_None:
  "validateListeners ls ports names = None \<longleftrightarrow>
     list_all listener_profile ls \<and> distinct (map gl_Port ls) \<and> distinct (map gl_Name ls) \<and>
     set ports \<inter> gl_Port ` set ls = {} \<and> set names \<inter> gl_Name ` set ls = {}"
proof (induction ls ports names rule: validateListeners.induct)
  case (2 l ls ports names)
  show ?case
  proof (cases "listener_profile l")
    case True
    then have "Option.bind (gl_AllowedRoutes l) routesAllowed = None"
      by (cases "gl_AllowedRoutes l") (simp_all add: listener_profile_def routesAllowed_None)
    with True 2 show ?thesis by (auto simp: listener_profile_def)
  next
    case False
    then have "validateListeners (l # ls) ports names \<noteq> None"
      by (cases "gl_AllowedRoutes l") (auto simp: listener_profile_def routesAllowed_None split: option.splits)
    with False show ?thesis by (simp del: validateListeners.simps)
  qed
qed simp

lemma budget_iff:
  assumes "1 \<le> (w :: int)"
  shows "n \<le> 1024 div w \<longleftrightarrow> n * w \<le> 1024"
proof
  assume "n \<le> 1024 div w"
  then have "n * w \<le> (1024 div w) * w" using assms by (intro mult_right_mono) simp_all
  also have "\<dots> \<le> 1024" using assms pos_mod_sign [of w 1024] by (simp add: minus_mod_eq_div_mult [symmetric])
  finally show "n * w \<le> 1024" .
next
  assume "n * w \<le> 1024"
  then show "n \<le> 1024 div w" using zdiv_mono1 [of "n * w" 1024 w] assms by simp
qed

lemma gatewayWorkers_Inr:
  "gatewayWorkers g = Inr (n, capacity) \<longleftrightarrow>
     (\<exists>w. asked_workers g = Some w \<and> capacity = min 50 (1024 div w) \<and> 1 \<le> w \<and> w \<le> 512 \<and>
        n = (if annotation (gw_Meta g) MaxWorkersAnnotation = '''' then 0 else w))"
  by (auto simp: gatewayWorkers_def asked_workers_def Let_def split: option.splits if_splits)

lemma validateGateway_profile: "validateGateway g = None \<longleftrightarrow> gateway_profile g"
proof (cases "asked_workers g")
  case None
  then have "\<exists>e. gatewayWorkers g = Inl e"
    using gatewayWorkers_Inr [of g] by (cases "gatewayWorkers g") auto
  with None show ?thesis by (auto simp: validateGateway_def gateway_profile_def Let_def)
next
  case (Some w)
  obtain n where g: "gatewayWorkers g = Inr (n, min 50 (1024 div w))" and w: "1 \<le> w" "w \<le> 512"
    using Some gatewayWorkers_Inr [of g]
    by (fastforce simp: asked_workers_def Let_def split: option.splits if_splits)
  define n where "n = length (gy_Listeners (gw_Spec g))"
  have "min 50 (1024 div w) < int n \<longleftrightarrow> 50 < n \<or> 1024 < int n * w"
    using budget_iff [OF w(1), of "int n"] by auto
  then show ?thesis
    by (auto simp: validateGateway_def gateway_profile_def g Some Let_def validateListeners_None n_def [symmetric] not_less not_le)
qed

text \<open>
  C20. The adapter accepts exactly the Gateways of its restricted profile: one to fifty UDP listeners with
  distinct names and ports, no TLS, no host names, routes only from the same namespace and only UDP
  routes, no requested addresses, infrastructure, listener sets or default scope, and a worker limit
  between 1 and 512, twenty if none is given, whose product with the number of listeners fits the budget
  of 1024 backends.
\<close>

theorem validateGateway_exact: "validateGateway g = None \<longleftrightarrow> gateway_profile g"
  by (rule validateGateway_profile)

end
