(* ===== verification/Gateway_Pool.thy ===== *)
theory Gateway_Pool
  imports Gateway_Policy Lease_Ledger
begin

text \<open>
  \<^verbatim>\<open>internalgatewaypool/reconciler.go\<close>: the controller that spreads routes over generated Gateways.  It keeps
  a ledger like the engine's, keyed by route, generates one Gateway per shard from it, and sets the
  parent reference of a route once its lease is stored.

  The package declares its own constants; those with the same value as the adapter's are shared.
\<close>

section \<open>Definitions\<close>

definition PoolAnnotation :: string where
  "PoolAnnotation = ''nlb.independent.dev/pool''"

definition HealthAnnotation :: string where
  "HealthAnnotation = ''nlb.independent.dev/health-port''"

definition PoolUIDLabel :: string where
  "PoolUIDLabel = ''nlb.independent.dev/gateway-pool-uid''"

definition PoolCleanupFinalizer :: string where
  "PoolCleanupFinalizer = ''nlb.independent.dev/gateway-pool-cleanup''"

definition ModeAnnotation :: string where
  "ModeAnnotation = ''nlb.independent.dev/backend-mode''"

definition WorkersAnnotation :: string where
  "WorkersAnnotation = ''nlb.independent.dev/max-workers''"

definition routeMode :: "udp_route \<Rightarrow> string" where
  "routeMode route = (let mode = annotation (ur_Meta route) ModeAnnotation in if mode = '''' then ''PodIP'' else mode)"

definition leaseMode :: "gateway_allocation \<Rightarrow> string" where
  "leaseMode a = (if ga_Mode a = '''' then ''PodIP'' else ga_Mode a)"

record 'w fleet =
  fl_Client :: "'w gw_client"
  fl_Lib :: kube_lib
  fl_Json :: json_lib
  fl_Namespace :: string
  fl_Installation :: string
  fl_ClassName :: string
  fl_Range :: "string list \<Rightarrow> string list"

text \<open>
  \<open>fl_Range\<close> is the order in which a Go \<^verbatim>\<open>range\<close> visits the keys of a map built during the reconciliation:
  the language leaves it open, so it is an arbitrary function.  A map that is part of an object is an
  association list whose order is arbitrary already.
\<close>

abbreviation fleet_leases :: "gateway_pool \<Rightarrow> (string, gateway_allocation) gomap" where
  "fleet_leases p \<equiv> gt_Allocations (gp_Status p)"

subsection \<open>Reservation\<close>

definition effectiveWorkers :: "gateway_pool_spec \<Rightarrow> int" where
  "effectiveWorkers s = (if gs_MaxWorkers s = 0 then 20 else gs_MaxWorkers s)"

definition Validate :: "gateway_pool_spec \<Rightarrow> go_error option" where
  "Validate s =
     (if effectiveWorkers s < 1 \<or> 512 < effectiveWorkers s \<or> 1024 < wrap64 (gs_Occupancy s * effectiveWorkers s)
      then Some (Errorf ''occupancy * maxWorkers must fit 1024 backend budget; default 20 includes surge'')
      else if gs_GatewayClassName s = '''' \<or> gs_Occupancy s < 1 \<or> 50 < gs_Occupancy s \<or> gs_MaxGateways s < 1 \<or>
         100 < gs_MaxGateways s \<or> gs_PortStart s < 1024 \<or> 65535 < wrap64 (wrap64 (gs_PortStart s + gs_Occupancy s) - 1)
      then Some (Errorf ''invalid GatewayPool class/capacity/port bounds'') else None)"

definition gatewayName :: "string \<Rightarrow> int \<Rightarrow> string" where
  "gatewayName uid shard = ''gwp-'' @ sha_hex12 uid @ ''-'' @ itoa shard"

definition listenerName :: "string \<Rightarrow> string" where
  "listenerName routeUID = ''r-'' @ sha_hex12 routeUID"

fun scanFleet :: "gateway_allocation list \<Rightarrow> string \<Rightarrow> int \<Rightarrow> (int \<times> int) list \<Rightarrow> go_error + (int \<times> int) list" where
  "scanFleet [] serviceUID port occupied = Inr occupied"
| "scanFleet (a # as) serviceUID port occupied =
     (if \<not> ga_Tombstone a \<and> ga_ServiceUID a = serviceUID \<and> ga_ServicePort a = port
      then Inl (Errorf ''Service port already allocated in this pool'')
      else scanFleet as serviceUID port ((ga_Shard a, ga_Port a) # occupied))"

definition newLease :: "gateway_pool \<Rightarrow> udp_route \<Rightarrow> service \<Rightarrow> int \<Rightarrow> int \<Rightarrow> int \<Rightarrow> int \<Rightarrow> gateway_allocation" where
  "newLease p route svc port hp shard portNumber =
     \<lparr>ga_RouteName = om_Name (ur_Meta route), ga_ServiceName = om_Name (sv_Meta svc), ga_ServiceUID = om_UID (sv_Meta svc),
      ga_ServicePort = port, ga_HealthPort = hp, ga_GatewayName = gatewayName (om_UID (gp_Meta p)) shard, ga_Shard = shard,
      ga_ListenerName = listenerName (om_UID (ur_Meta route)), ga_Port = wrap32 portNumber, ga_Tombstone = False,
      ga_Attached = False, ga_Mode = routeMode route\<rparr>"

definition knownMode :: "string \<Rightarrow> bool" where
  "knownMode mode \<longleftrightarrow> mode = ''PodIP'' \<or> mode = ''NodePortCluster'' \<or> mode = ''NodePortLocal''"

definition reserve :: "gateway_pool \<Rightarrow> udp_route \<Rightarrow> service \<Rightarrow> int \<Rightarrow> int \<Rightarrow> go_error + (gateway_allocation \<times> gateway_pool)" where
  "reserve p route svc port hp =
     (if \<not> knownMode (routeMode route) then Inl (Errorf ''unsupported backend-mode'')
      else (case Validate (gp_Spec p) of Some e \<Rightarrow> Inl e | None \<Rightarrow>
        (if om_UID (gp_Meta p) = '''' \<or> om_UID (ur_Meta route) = '''' \<or> om_UID (sv_Meta svc) = ''''
         then Inl (Errorf ''pool, route and Service UIDs are required'')
         else (case map_of (fleet_leases p) (om_UID (ur_Meta route)) of
                 Some a \<Rightarrow> Inr (a, p)
               | None \<Rightarrow>
                   (case scanFleet (map_values (fleet_leases p)) (om_UID (sv_Meta svc)) port [] of Inl e \<Rightarrow> Inl e | Inr occupied \<Rightarrow>
                     (case try_shards occupied (gs_PortStart (gp_Spec p)) (gs_Occupancy (gp_Spec p)) (gs_MaxGateways (gp_Spec p)) 0 of
                        None \<Rightarrow> Inl (Errorf ''GatewayPool exhausted, including permanently reserved tombstones'')
                      | Some (shard, portNumber) \<Rightarrow>
                          (let a = newLease p route svc port hp shard portNumber
                           in Inr (a, put_gateway_allocation (om_UID (ur_Meta route)) a p))))))))"

subsection \<open>The Service of a route\<close>

definition fleetServiceOK :: "string \<Rightarrow> service \<Rightarrow> bool" where
  "fleetServiceOK mode svc =
     (if mode = ''NodePortCluster'' then sv_Type svc = ''NodePort'' \<and> sv_ExternalTrafficPolicy svc = ''Cluster''
      else if mode = ''NodePortLocal'' then sv_Type svc = ''NodePort'' \<and> sv_ExternalTrafficPolicy svc = ''Local''
      else sv_Type svc = ''ClusterIP'')"

definition annotatedHealth :: "udp_route \<Rightarrow> go_error + int" where
  "annotatedHealth route =
     (let text = annotation (ur_Meta route) HealthAnnotation; mode = routeMode route;
          bad = Inl (ValidationError (''valid '' @ HealthAnnotation @ '' annotation required''))
      in if \<not> knownMode mode then Inl (ValidationError ''unsupported backend-mode'')
         else if mode = ''NodePortCluster'' then
           (if text \<noteq> '''' \<and> text \<noteq> ''10256''
            then Inl (ValidationError ''NodePortCluster uses worker health 10256; omit workload health annotation'')
            else Inr 10256)
         else (case parse_int 32 text of None \<Rightarrow> bad | Some h \<Rightarrow> (if h < 1 \<or> 65535 < h then bad else Inr h)))"

text \<open>The loop over the TCP ports: whether the health port is exposed, and how often in local mode.\<close>

definition exposesLocal :: "int \<Rightarrow> service_port \<Rightarrow> bool" where
  "exposesLocal hp p \<longleftrightarrow> sp_Protocol p = ''TCP'' \<and> sp_Port p = hp \<and> 1 \<le> sp_NodePort p \<and> sp_NodePort p \<le> 65535"

definition exposesTarget :: "int \<Rightarrow> service_port \<Rightarrow> bool" where
  "exposesTarget hp p \<longleftrightarrow>
     sp_Protocol p = ''TCP'' \<and>
     (is_Type (sp_TargetPort p) = 1 \<or>
      (if is_IntVal (sp_TargetPort p) = 0 then sp_Port p else is_IntVal (sp_TargetPort p)) = hp)"

definition healthError :: "string \<Rightarrow> int \<Rightarrow> service \<Rightarrow> go_error option" where
  "healthError mode hp svc =
     (let local = filter (exposesLocal hp) (sv_Ports svc);
          exposed = (if mode = ''NodePortLocal'' then local \<noteq> [] else list_ex (exposesTarget hp) (sv_Ports svc))
      in if \<not> exposed \<and> mode \<noteq> ''NodePortCluster'' then Some (ValidationError ''health port must be exposed by a TCP Service target'')
         else if mode = ''NodePortLocal'' \<and> length local \<noteq> 1
         then Some (ValidationError ''NodePortLocal requires exactly one allocated TCP health Service port'') else None)"

definition namedUdp :: "int \<Rightarrow> service_port \<Rightarrow> bool" where
  "namedUdp port p \<longleftrightarrow> sp_Port p = port \<and> sp_Protocol p = ''UDP'' \<and> sp_Name p \<noteq> ''''"

definition checkRouteService :: "string \<Rightarrow> int \<Rightarrow> int \<Rightarrow> service \<Rightarrow> go_error + (service \<times> int \<times> int)" where
  "checkRouteService mode port hp svc =
     (if om_Deleting (sv_Meta svc) \<or> \<not> fleetServiceOK mode svc \<or> sv_PublishNotReadyAddresses svc \<or> length (sv_Selector svc) = 0
      then Inl (ValidationError ''live selector Service with the mode's traffic policy and without publishNotReadyAddresses required'')
      else (case healthError mode hp svc of Some e \<Rightarrow> Inl e | None \<Rightarrow>
        (case find (namedUdp port) (sv_Ports svc) of
           None \<Rightarrow> Inl (ValidationError ''backend port must identify a named UDP Service port'')
         | Some p \<Rightarrow>
             (if usesNodePort mode \<and> noNodePort p then Inl (ValidationError ''UDP NodePort must be allocated'')
              else Inr (svc, sp_Port p, hp)))))"

text \<open>The reference to the backend: name and port.\<close>

definition routeBackend :: "udp_route \<Rightarrow> go_error + (string \<times> int)" where
  "routeBackend route =
     (if ur_UseDefaultGateways route \<noteq> '''' \<and> ur_UseDefaultGateways route \<noteq> ''None''
      then Inl (ValidationError ''useDefaultGateways is unsupported; pool assignment requires one explicit parent'')
      else (case ur_Rules route of
              [[b]] \<Rightarrow>
                (case br_Port b of
                   None \<Rightarrow> Inl (ValidationError ''one same-namespace Service port with weight one is required'')
                 | Some port \<Rightarrow>
                     (if (br_Group b \<noteq> None \<and> br_Group b \<noteq> Some '''') \<or> (br_Kind b \<noteq> None \<and> br_Kind b \<noteq> Some ''Service'') \<or>
                         (br_Namespace b \<noteq> None \<and> br_Namespace b \<noteq> Some (om_Namespace (ur_Meta route))) \<or> br_Name b = '''' \<or>
                         (br_Weight b \<noteq> None \<and> br_Weight b \<noteq> Some 1)
                      then Inl (ValidationError ''one same-namespace Service port with weight one is required'')
                      else Inr (br_Name b, port)))
            | _ \<Rightarrow> Inl (ValidationError ''exactly one rule and one Service backend required'')))"

definition routeService :: "'w fleet \<Rightarrow> udp_route \<Rightarrow> ('w, go_error + (service \<times> int \<times> int)) gw_op" where
  "routeService F route =
     (case routeBackend route of Inl e \<Rightarrow> State_Monad.return (Inl e) | Inr (name, port) \<Rightarrow>
       (case annotatedHealth route of Inl e \<Rightarrow> State_Monad.return (Inl e) | Inr hp \<Rightarrow>
         tryM (call (gk_GetService (fl_Client F) (om_Namespace (ur_Meta route), name))) (\<lambda>svc.
           State_Monad.return (checkRouteService (routeMode route) port hp svc))))"

definition matchesParent :: "udp_route \<Rightarrow> gateway_allocation \<Rightarrow> bool" where
  "matchesParent route a =
     (case ur_ParentRefs route of
        [p] \<Rightarrow> pr_Name p = ga_GatewayName a \<and> pr_SectionName p = Some (ga_ListenerName a) \<and>
          (pr_Group p = None \<or> pr_Group p = Some GroupName) \<and> (pr_Kind p = None \<or> pr_Kind p = Some ''Gateway'') \<and>
          (pr_Namespace p = None \<or> pr_Namespace p = Some (om_Namespace (ur_Meta route))) \<and>
          (pr_Port p = None \<or> pr_Port p = Some (ga_Port a))
      | _ \<Rightarrow> False)"

subsection \<open>The generated Gateway\<close>

definition leaseListener :: "gateway_allocation \<Rightarrow> gw_listener" where
  "leaseListener a = \<lparr>gl_Name = ga_ListenerName a, gl_Hostname = None, gl_Port = ga_Port a, gl_Protocol = ''UDP'', gl_TLS = None,
     gl_AllowedRoutes = Some \<lparr>ar_Namespaces = Some \<lparr>fn_From = Some ''Same'', fn_Selector = None\<rparr>,
       ar_Kinds = [\<lparr>rk_Group = Some GroupName, rk_Kind = ''UDPRoute''\<rparr>]\<rparr>\<rparr>"

definition desiredListeners :: "(string, gateway_allocation) gomap \<Rightarrow> string \<Rightarrow> gw_listener list" where
  "desiredListeners m name =
     (let here = filter (\<lambda>a. ga_GatewayName a = name) (map_values m);
          live = map leaseListener (filter (\<lambda>a. \<not> ga_Tombstone a) here);
          retired = map leaseListener (filter ga_Tombstone here)
      in sort_key gl_Port (if live = [] then take 1 (sort_key gl_Port retired) else live))"

definition desiredGateway :: "gateway_pool \<Rightarrow> string \<Rightarrow> string \<Rightarrow> gateway" where
  "desiredGateway p name installation =
     \<lparr>gw_Meta = \<lparr>om_Name = name, om_Namespace = om_Namespace (gp_Meta p), om_UID = '''', om_ResourceVersion = '''',
        om_Generation = 0, om_CreationTimestamp = 0, om_Deleting = False, om_Finalizers = [],
        om_Labels = [(PoolUIDLabel, om_UID (gp_Meta p)), (InstallationLabel, installation)],
        om_Annotations = (if gs_MaxWorkers (gp_Spec p) \<noteq> 0 then [(WorkersAnnotation, itoa (gs_MaxWorkers (gp_Spec p)))] else []),
        om_OwnerReferences = [\<lparr>or_APIVersion = NlbGroupVersion, or_Kind = ''GatewayPool'', or_Name = om_Name (gp_Meta p),
          or_UID = om_UID (gp_Meta p), or_Controller = Some True, or_BlockOwnerDeletion = Some True\<rparr>]\<rparr>,
      gw_Spec = \<lparr>gy_GatewayClassName = gs_GatewayClassName (gp_Spec p), gy_Listeners = desiredListeners (fleet_leases p) name,
        gy_Addresses = [], gy_Infrastructure = None, gy_AllowedListeners = None, gy_TLS = None, gy_DefaultScope = ''''\<rparr>,
      gw_Status = \<lparr>gu_Addresses = [], gu_Listeners = [], gu_Conditions = []\<rparr>\<rparr>"

definition ownedGateway :: "kube_lib \<Rightarrow> gateway_pool \<Rightarrow> gateway \<Rightarrow> string \<Rightarrow> go_error option" where
  "ownedGateway L p g installation =
     (let m = gw_Meta g
      in if om_Namespace m \<noteq> om_Namespace (gp_Meta p) \<or> label m PoolUIDLabel \<noteq> om_UID (gp_Meta p) \<or>
            label m InstallationLabel \<noteq> installation
         then Some (Errorf (''refusing foreign Gateway '' @ om_Name m))
         else if (case controllerOf L (om_OwnerReferences m) of None \<Rightarrow> True
            | Some r \<Rightarrow> or_UID r \<noteq> om_UID (gp_Meta p) \<or> or_Name r \<noteq> om_Name (gp_Meta p) \<or> or_Kind r \<noteq> ''GatewayPool'' \<or>
                or_APIVersion r \<noteq> NlbGroupVersion)
         then Some (Errorf (''Gateway owner UID differs: '' @ om_Name m))
         else (let expected = get_or '''' (gt_Gateways (gp_Status p)) (om_Name m)
               in if expected \<noteq> '''' \<and> expected \<noteq> om_UID m then Some (Errorf (''Gateway UID changed: '' @ om_Name m)) else None))"

definition normalizeRoutes :: "allowed_routes \<Rightarrow> allowed_routes" where
  "normalizeRoutes a =
     a\<lparr>ar_Namespaces := Some (case ar_Namespaces a of
           None \<Rightarrow> \<lparr>fn_From = Some ''Same'', fn_Selector = None\<rparr>
         | Some n \<Rightarrow> (if fn_From n = None then n\<lparr>fn_From := Some ''Same''\<rparr> else n)),
       ar_Kinds := map (\<lambda>k. if rk_Group k = None then k\<lparr>rk_Group := Some GroupName\<rparr> else k) (ar_Kinds a)\<rparr>"

definition normalizeListener :: "gw_listener \<Rightarrow> gw_listener" where
  "normalizeListener l = l\<lparr>gl_AllowedRoutes := map_option normalizeRoutes (gl_AllowedRoutes l)\<rparr>"

definition defaultListeners :: "allowed_listeners \<Rightarrow> bool" where
  "defaultListeners a =
     (case an_Namespaces a of None \<Rightarrow> True
      | Some n \<Rightarrow> fn_Selector n = None \<and> (fn_From n = None \<or> fn_From n = Some ''None''))"

definition normalizedGateway :: "gateway \<Rightarrow> gateway_spec" where
  "normalizedGateway g =
     (let s = gw_Spec g
      in s\<lparr>gy_DefaultScope := (if gy_DefaultScope s = ''None'' then '''' else gy_DefaultScope s),
           gy_AllowedListeners := Option.bind (gy_AllowedListeners s) (\<lambda>a. if defaultListeners a then None else Some a),
           gy_Listeners := map normalizeListener (gy_Listeners s)\<rparr>)"

definition compatibleGateway :: "gateway \<Rightarrow> gateway \<Rightarrow> gw_listener list \<Rightarrow> bool" where
  "compatibleGateway actual expected retired \<longleftrightarrow>
     annotation (gw_Meta actual) WorkersAnnotation = annotation (gw_Meta expected) WorkersAnnotation \<and>
     (normalizedGateway actual)\<lparr>gy_Listeners := []\<rparr> = (normalizedGateway expected)\<lparr>gy_Listeners := []\<rparr> \<and>
     (let want = fold (\<lambda>l m. AList.update (gl_Name l) l m) (gy_Listeners (normalizedGateway expected) @ retired) []
      in list_all (\<lambda>l. map_of want (gl_Name l) = Some l) (gy_Listeners (normalizedGateway actual)))"

definition retiredGatewayListeners :: "gateway_pool \<Rightarrow> string \<Rightarrow> gw_listener list" where
  "retiredGatewayListeners p name =
     (let gone = filter (\<lambda>a. ga_GatewayName a = name \<and> ga_Tombstone a) (map_values (fleet_leases p));
          revived = map (\<lambda>(uid, a). (uid, if ga_GatewayName a = name \<and> ga_Tombstone a then a\<lparr>ga_Tombstone := False\<rparr> else a)) (fleet_leases p)
      in filter (\<lambda>l. gl_Name l \<in> set (map ga_ListenerName gone)) (desiredListeners revived name))"

subsection \<open>Saving the status\<close>

abbreviation again :: "go_error option \<Rightarrow> answer" where
  "again e \<equiv> (RequeueSoon, e)"

definition savedPool :: "kube_lib \<Rightarrow> gateway_pool \<Rightarrow> (string, string) gomap \<Rightarrow> gateway_pool" where
  "savedPool L p rejected =
     (let used = int (length (fleet_leases p)); ok = (rejected = [])
      in p\<lparr>gp_Status := (gp_Status p)\<lparr>gt_RejectedRoutes := rejected, gt_Used := used,
           gt_Available := wrap64 (wrap64 (gs_Occupancy (gp_Spec p) * gs_MaxGateways (gp_Spec p)) - used),
           gt_Conditions := setStatusCondition L (gt_Conditions (gp_Status p))
             \<lparr>cn_Type = ''Allocated'', cn_Status = (if ok then ''True'' else ''False''),
              cn_Reason = (if ok then ''Allocated'' else ''RoutesRejected''),
              cn_Message = (if ok then ''Durable leases reconciled; Gateway adapter reports data-plane programming separately''
                else itoa (int (length rejected)) @ '' route(s) rejected; see rejectedRoutes keyed by UID''),
              cn_ObservedGeneration = om_Generation (gp_Meta p)\<rparr>\<rparr>\<rparr>)"

definition saveFleet :: "'w fleet \<Rightarrow> gateway_pool \<Rightarrow> (string, string) gomap \<Rightarrow> ('w, answer) gw_op" where
  "saveFleet F p rejected = do {
     e \<leftarrow> submit (fl_Client F) (UpdateGatewayPoolStatus (savedPool (fl_Lib F) p rejected));
     State_Monad.return (again e)
   }"

subsection \<open>Routes\<close>

text \<open>The map \<^verbatim>\<open>byUID\<close>: the last route with a UID is the one found under it.\<close>

definition routesByUID :: "udp_route list \<Rightarrow> (string, udp_route) gomap" where
  "routesByUID routes = fold (\<lambda>r m. AList.update (om_UID (ur_Meta r)) r m) routes []"

definition orphanedLease :: "udp_route list \<Rightarrow> (string, gateway_allocation) gomap \<Rightarrow> (string \<times> gateway_allocation) option" where
  "orphanedLease routes m = find (\<lambda>(uid, a). map_of (routesByUID routes) uid = None \<and> \<not> ga_Tombstone a) m"

definition leasedByOther :: "gateway_pool \<Rightarrow> gateway_pool list \<Rightarrow> string \<Rightarrow> bool" where
  "leasedByOther p others uid \<longleftrightarrow>
     list_ex (\<lambda>other. om_UID (gp_Meta other) \<noteq> om_UID (gp_Meta p) \<and> has_key (fleet_leases other) uid) others"

text \<open>The variable \<^verbatim>\<open>problem\<close>: a later check overwrites an earlier one.\<close>

definition routeProblem :: "gateway_pool \<Rightarrow> gateway_pool list \<Rightarrow> udp_route \<Rightarrow> gateway_allocation option \<Rightarrow> string" where
  "routeProblem p others route lease =
     (if ur_ParentRefs route \<noteq> [] \<and> (case lease of None \<Rightarrow> True | Some a \<Rightarrow> \<not> matchesParent route a)
      then ''parentRefs conflict with allocator lease; refusing retarget''
      else if lease = None \<and> leasedByOther p others (om_UID (ur_Meta route))
      then ''route UID already leased by another GatewayPool''
      else if (case lease of None \<Rightarrow> False | Some a \<Rightarrow> ga_Attached a) \<and> ur_ParentRefs route = []
      then ''allocated parentRefs removed; refusing silent reattachment''
      else if (case lease of None \<Rightarrow> False | Some a \<Rightarrow> ga_Tombstone a \<or> ga_RouteName a \<noteq> om_Name (ur_Meta route))
      then ''retired or mismatched route allocation''
      else if annotation (ur_Meta route) PoolAnnotation \<noteq> om_Name (gp_Meta p)
      then ''allocated route pool annotation changed''
      else '''')"

definition serviceChanged :: "gateway_allocation \<Rightarrow> udp_route \<Rightarrow> service \<Rightarrow> int \<Rightarrow> int \<Rightarrow> bool" where
  "serviceChanged a route svc port hp \<longleftrightarrow>
     ga_ServiceName a \<noteq> om_Name (sv_Meta svc) \<or> ga_ServiceUID a \<noteq> om_UID (sv_Meta svc) \<or> ga_ServicePort a \<noteq> port \<or>
     ga_HealthPort a \<noteq> hp \<or> leaseMode a \<noteq> routeMode route"

fun as_validation :: "go_error \<Rightarrow> bool" where
  "as_validation (ValidationError _) = True"
| "as_validation _ = False"

text \<open>What follows once the route's Service is known.\<close>

definition leaseRoute :: "'w fleet \<Rightarrow> gateway_pool \<Rightarrow> udp_route \<Rightarrow> (string, string) gomap \<Rightarrow> service \<times> int \<times> int \<Rightarrow>
    ('w, answer + (string, string) gomap) gw_op" where
  "leaseRoute F p route rejected target =
     (case target of (svc, port, hp) \<Rightarrow>
       (let uid = om_UID (ur_Meta route)
        in case map_of (fleet_leases p) uid of
          Some a \<Rightarrow>
            (let rejected' = (if serviceChanged a route svc port hp
                 then AList.update uid ''allocated Service UID/port or health port changed; refusing retarget'' rejected else rejected)
             in if get_or '''' rejected' uid = '''' \<and> matchesParent route a \<and> \<not> ga_Attached a
                then State_Monad.bind (saveFleet F (put_gateway_allocation uid (a\<lparr>ga_Attached := True\<rparr>) p) rejected')
                  (State_Monad.return \<circ> Inl)
                else State_Monad.return (Inr rejected'))
        | None \<Rightarrow>
            (case reserve p route svc port hp of
               Inl e \<Rightarrow> State_Monad.return (Inr (AList.update uid (error_text e) rejected))
             | Inr (_, p') \<Rightarrow> State_Monad.bind (saveFleet F p' rejected) (State_Monad.return \<circ> Inl))))"

definition considerRoute :: "'w fleet \<Rightarrow> gateway_pool \<Rightarrow> gateway_pool list \<Rightarrow> udp_route \<Rightarrow> (string, string) gomap \<Rightarrow>
    ('w, answer + (string, string) gomap) gw_op" where
  "considerRoute F p others route rejected =
     (let uid = om_UID (ur_Meta route); lease = map_of (fleet_leases p) uid; problem = routeProblem p others route lease
      in if (annotation (ur_Meta route) PoolAnnotation \<noteq> om_Name (gp_Meta p) \<and> lease = None) \<or> om_Deleting (ur_Meta route)
         then State_Monad.return (Inr rejected)
         else if problem \<noteq> '''' then State_Monad.return (Inr (AList.update uid problem rejected))
         else do {
           r \<leftarrow> routeService F route;
           case r of
             Inl e \<Rightarrow> State_Monad.return (if \<not> is_not_found e \<and> \<not> as_validation e then Inl (again (Some e))
                 else Inr (AList.update uid (error_text e) rejected))
           | Inr target \<Rightarrow> leaseRoute F p route rejected target
         })"

fun considerRoutes :: "'w fleet \<Rightarrow> gateway_pool \<Rightarrow> gateway_pool list \<Rightarrow> udp_route list \<Rightarrow> (string, string) gomap \<Rightarrow>
    ('w, answer + (string, string) gomap) gw_op" where
  "considerRoutes F p others [] rejected = State_Monad.return (Inr rejected)"
| "considerRoutes F p others (route # routes) rejected =
     tryM (considerRoute F p others route rejected) (considerRoutes F p others routes)"

subsection \<open>Gateways and parent references\<close>

definition checkGateway :: "'w fleet \<Rightarrow> gateway_pool \<Rightarrow> (string, string) gomap \<Rightarrow> string \<Rightarrow> gateway \<Rightarrow> ('w, answer + unit) gw_op" where
  "checkGateway F p rejected name actual =
     (let want = desiredGateway p name (fl_Installation F); stop = (\<lambda>e. State_Monad.return (Inl (again (Some e))))
      in case ownedGateway (fl_Lib F) p actual (fl_Installation F) of
           Some e \<Rightarrow> stop e
         | None \<Rightarrow>
             (if om_Deleting (gw_Meta actual) then stop (Errorf (''generated Gateway is terminating: '' @ name))
              else if \<not> compatibleGateway actual want (retiredGatewayListeners p name)
              then stop (Errorf (''generated Gateway spec was retargeted: '' @ name))
              else if get_or '''' (gt_Gateways (gp_Status p)) name = '''' then
                (if om_UID (gw_Meta actual) = '''' then stop (Errorf ''generated Gateway has no server UID'')
                 else State_Monad.bind (saveFleet F (p\<lparr>gp_Status := (gp_Status p)\<lparr>gt_Gateways :=
                     AList.update name (om_UID (gw_Meta actual)) (gt_Gateways (gp_Status p))\<rparr>\<rparr>) rejected) (State_Monad.return \<circ> Inl))
              else if gy_Listeners (normalizedGateway actual) \<noteq> gy_Listeners (normalizedGateway want) then do {
                e \<leftarrow> submit (fl_Client F) (UpdateGateway (actual\<lparr>gw_Spec := (gw_Spec actual)\<lparr>gy_Listeners := gy_Listeners (gw_Spec want)\<rparr>\<rparr>));
                State_Monad.return (Inl (again e))
              }
              else State_Monad.return (Inr ())))"

definition ensureGateway :: "'w fleet \<Rightarrow> gateway_pool \<Rightarrow> (string, string) gomap \<Rightarrow> string \<Rightarrow> ('w, answer + unit) gw_op" where
  "ensureGateway F p rejected name =
     (let want = desiredGateway p name (fl_Installation F)
      in do {
        r \<leftarrow> call (gk_GetGateway (fl_Client F) (key_of (gw_Meta want)));
        case r of
          Inr actual \<Rightarrow> checkGateway F p rejected name actual
        | Inl e \<Rightarrow>
            (if \<not> is_not_found e then State_Monad.return (Inl (again (Some e)))
             else if get_or '''' (gt_Gateways (gp_Status p)) name \<noteq> ''''
             then State_Monad.return (Inl (again (Some (Errorf (''recorded Gateway disappeared; refusing silent VIP replacement: '' @ name)))))
             else do { x \<leftarrow> submit (fl_Client F) (CreateGateway want); State_Monad.return (Inl (again x)) })
      })"

fun ensureGateways :: "'w fleet \<Rightarrow> gateway_pool \<Rightarrow> (string, string) gomap \<Rightarrow> string list \<Rightarrow> ('w, answer + unit) gw_op" where
  "ensureGateways F p rejected [] = State_Monad.return (Inr ())"
| "ensureGateways F p rejected (name # names) =
     tryM (ensureGateway F p rejected name) (\<lambda>_. ensureGateways F p rejected names)"

definition leaseNames :: "gateway_pool \<Rightarrow> string list" where
  "leaseNames p = sort (remdups (map ga_GatewayName (map_values (fleet_leases p))))"

definition leaseParent :: "gateway_allocation \<Rightarrow> parent_ref" where
  "leaseParent a = \<lparr>pr_Group = None, pr_Kind = None, pr_Namespace = None, pr_Name = ga_GatewayName a,
     pr_SectionName = Some (ga_ListenerName a), pr_Port = None\<rparr>"

definition attachedRoute :: "kube_lib \<Rightarrow> gateway_allocation \<Rightarrow> udp_route \<Rightarrow> udp_route" where
  "attachedRoute L a route =
     route\<lparr>ur_ParentRefs := [leaseParent a],
       ur_Meta := (ur_Meta route)\<lparr>om_Finalizers := addFinalizer L (om_Finalizers (ur_Meta route)) RouteFinalizer\<rparr>\<rparr>"

text \<open>The lease of a route that still needs its parent reference.\<close>

definition unattached :: "gateway_pool \<Rightarrow> (string, string) gomap \<Rightarrow> udp_route \<Rightarrow> gateway_allocation option" where
  "unattached p rejected route =
     (case map_of (fleet_leases p) (om_UID (ur_Meta route)) of
        None \<Rightarrow> None
      | Some a \<Rightarrow>
          (if ga_Tombstone a \<or> om_Deleting (ur_Meta route) \<or> get_or '''' rejected (om_UID (ur_Meta route)) \<noteq> '''' \<or> ur_ParentRefs route \<noteq> []
           then None else Some a))"

fun attachRoutes :: "'w fleet \<Rightarrow> gateway_pool \<Rightarrow> (string, string) gomap \<Rightarrow> udp_route list \<Rightarrow> ('w, answer + unit) gw_op" where
  "attachRoutes F p rejected [] = State_Monad.return (Inr ())"
| "attachRoutes F p rejected (route # routes) =
     (case unattached p rejected route of
        None \<Rightarrow> attachRoutes F p rejected routes
      | Some a \<Rightarrow> do {
          e \<leftarrow> submit (fl_Client F) (UpdateRoute (attachedRoute (fl_Lib F) a route));
          State_Monad.return (Inl (again e))
        })"

subsection \<open>Deletion\<close>

definition fleetArchive :: "'w fleet \<Rightarrow> gateway_pool \<Rightarrow> string \<Rightarrow> config_map" where
  "fleetArchive F p data =
     \<lparr>cm_Meta = \<lparr>om_Name = ''gateway-pool-ledger-'' @ sha_hex12 (om_UID (gp_Meta p)), om_Namespace = om_Namespace (gp_Meta p),
        om_UID = '''', om_ResourceVersion = '''', om_Generation = 0, om_CreationTimestamp = 0, om_Deleting = False, om_Finalizers = [],
        om_Labels = [(PoolUIDLabel, om_UID (gp_Meta p)), (InstallationLabel, fl_Installation F)], om_Annotations = [],
        om_OwnerReferences = []\<rparr>,
      cm_Immutable = Some True, cm_Data = [(''ledger.json'', data)]\<rparr>"

definition archiveMatches :: "config_map \<Rightarrow> config_map \<Rightarrow> bool" where
  "archiveMatches existing archive \<longleftrightarrow>
     label (cm_Meta existing) PoolUIDLabel = label (cm_Meta archive) PoolUIDLabel \<and>
     label (cm_Meta existing) InstallationLabel = label (cm_Meta archive) InstallationLabel \<and>
     om_OwnerReferences (cm_Meta existing) = [] \<and> same_map (cm_Data existing) (cm_Data archive) \<and> cm_Immutable existing = Some True"

fun deleteGateways :: "'w fleet \<Rightarrow> gateway_pool \<Rightarrow> string list \<Rightarrow> ('w, answer) gw_op" where
  "deleteGateways F p [] = do {
     e \<leftarrow> submit (fl_Client F) (UpdateGatewayPool (p\<lparr>gp_Meta := (gp_Meta p)\<lparr>om_Finalizers :=
            removeFinalizer (fl_Lib F) (om_Finalizers (gp_Meta p)) PoolCleanupFinalizer\<rparr>\<rparr>));
     State_Monad.return (NoRequeue, e)
   }"
| "deleteGateways F p (name # names) = do {
     r \<leftarrow> call (gk_GetGateway (fl_Client F) (om_Namespace (gp_Meta p), name));
     case r of
       Inl e \<Rightarrow> (if is_not_found e then deleteGateways F p names else State_Monad.return (again (Some e)))
     | Inr g \<Rightarrow>
         (case ownedGateway (fl_Lib F) p g (fl_Installation F) of
            Some e \<Rightarrow> State_Monad.return (again (Some e))
          | None \<Rightarrow>
              (if om_Deleting (gw_Meta g) then State_Monad.return (again None)
               else do { e \<leftarrow> submit (fl_Client F) (DeleteGateway g); State_Monad.return (again e) }))
   }"

definition fleetGateways :: "gateway_pool \<Rightarrow> string list" where
  "fleetGateways p = remdups (map_keys (gt_Gateways (gp_Status p)) @ map ga_GatewayName (map_values (fleet_leases p)))"

definition cleanupFleet :: "'w fleet \<Rightarrow> gateway_pool \<Rightarrow> ('w, answer) gw_op" where
  "cleanupFleet F p =
     (if \<not> containsFinalizer (fl_Lib F) (om_Finalizers (gp_Meta p)) PoolCleanupFinalizer then State_Monad.return (NoRequeue, None)
      else (case marshalLedger (fl_Json F) (om_UID (gp_Meta p)) (gp_Spec p) (gp_Status p) of
              Inl e \<Rightarrow> State_Monad.return (again (Some e))
            | Inr data \<Rightarrow>
                (let archive = fleetArchive F p data
                 in do {
                   r \<leftarrow> call (gk_GetConfigMap (fl_Client F) (key_of (cm_Meta archive)));
                   case r of
                     Inl e \<Rightarrow>
                       (if is_not_found e
                        then do { x \<leftarrow> submit (fl_Client F) (CreateConfigMap archive); State_Monad.return (again x) }
                        else State_Monad.return (again (Some e)))
                   | Inr existing \<Rightarrow>
                       (if archiveMatches existing archive then deleteGateways F p (fl_Range F (fleetGateways p))
                        else State_Monad.return (again (Some (Errorf ''ledger archive conflict; refusing cleanup''))))
                 })))"

subsection \<open>The reconciliation\<close>

definition publishRejected :: "'w fleet \<Rightarrow> gateway_pool \<Rightarrow> (string, string) gomap \<Rightarrow> ('w, answer) gw_op" where
  "publishRejected F p rejected =
     (let before = gt_RejectedRoutes (gp_Status p)
      in if same_map before rejected \<or> (before = [] \<and> rejected = []) then State_Monad.return (again None)
         else saveFleet F p rejected)"

text \<open>From the listings on; every step that writes ends the reconciliation.\<close>

definition orElse :: "('w, answer + 'a) gw_op \<Rightarrow> ('a \<Rightarrow> ('w, answer) gw_op) \<Rightarrow> ('w, answer) gw_op" where
  "orElse m f = State_Monad.bind m (case_sum State_Monad.return f)"

definition reconcileRoutes :: "'w fleet \<Rightarrow> gateway_pool \<Rightarrow> udp_route list \<Rightarrow> gateway_pool list \<Rightarrow> ('w, answer) gw_op" where
  "reconcileRoutes F p routes others =
     (let ordered = sort_key (\<lambda>r. om_Name (ur_Meta r)) routes; byUID = routesByUID ordered
      in case orphanedLease ordered (fleet_leases p) of
           Some (uid, a) \<Rightarrow> saveFleet F (put_gateway_allocation uid (a\<lparr>ga_Tombstone := True\<rparr>) p) (gt_RejectedRoutes (gp_Status p))
         | None \<Rightarrow>
             orElse (considerRoutes F p others ordered []) (\<lambda>rejected.
             orElse (ensureGateways F p rejected (leaseNames p)) (\<lambda>_.
             orElse (attachRoutes F p rejected (List.map_filter (map_of byUID) (fl_Range F (map_keys byUID)))) (\<lambda>_.
               publishRejected F p rejected))))"

definition reconcileFleet :: "'w fleet \<Rightarrow> gateway_pool \<Rightarrow> ('w, answer) gw_op" where
  "reconcileFleet F p =
     (case Validate (gp_Spec p) of Some e \<Rightarrow> State_Monad.return (again (Some e)) | None \<Rightarrow>
       (if fl_Installation F = '''' \<or> fl_ClassName F = '''' \<or> gs_GatewayClassName (gp_Spec p) \<noteq> fl_ClassName F
        then State_Monad.return (again (Some (Errorf ''GatewayPool class is outside configured allocator scope'')))
        else if gt_FrozenSpec (gp_Status p) \<noteq> None \<and> gt_FrozenSpec (gp_Status p) \<noteq> Some (gp_Spec p)
        then State_Monad.return (again (Some (Errorf ''GatewayPool spec immutable after first reconcile'')))
        else if om_Deleting (gp_Meta p) then cleanupFleet F p
        else if \<not> containsFinalizer (fl_Lib F) (om_Finalizers (gp_Meta p)) PoolCleanupFinalizer then do {
          e \<leftarrow> submit (fl_Client F) (UpdateGatewayPool (p\<lparr>gp_Meta := (gp_Meta p)\<lparr>om_Finalizers :=
                 addFinalizer (fl_Lib F) (om_Finalizers (gp_Meta p)) PoolCleanupFinalizer\<rparr>\<rparr>));
          State_Monad.return (again e)
        }
        else if gt_FrozenSpec (gp_Status p) = None
        then saveFleet F (p\<lparr>gp_Status := (gp_Status p)\<lparr>gt_FrozenSpec := Some (gp_Spec p)\<rparr>\<rparr>) []
        else do {
          r \<leftarrow> call (gk_ListRoutes (fl_Client F) (fl_Namespace F));
          case r of Inl e \<Rightarrow> State_Monad.return (again (Some e)) | Inr routes \<Rightarrow> do {
            q \<leftarrow> call (gk_ListGatewayPools (fl_Client F) (fl_Namespace F));
            case q of Inl e \<Rightarrow> State_Monad.return (again (Some e)) | Inr others \<Rightarrow> reconcileRoutes F p routes others
          }
        }))"

definition fleetReconcile :: "'w fleet \<Rightarrow> object_key \<Rightarrow> ('w, answer) gw_op" where
  "fleetReconcile F req =
     (if fst req \<noteq> fl_Namespace F then State_Monad.return (NoRequeue, None)
      else do {
        r \<leftarrow> call (gk_GetGatewayPool (fl_Client F) req);
        case r of Inl e \<Rightarrow> State_Monad.return (NoRequeue, ignoreNotFound (Some e)) | Inr p \<Rightarrow> reconcileFleet F p
      })"

end
