(* ===== verification/Gateway_Fleet.thy ===== *)
theory Gateway_Fleet
  imports Gateway_Pool
begin

text \<open>
  The ledger of the Gateway pool controller: validation in exact arithmetic, the invariant \<open>fleet_ok\<close>, the
  contract of \<^const>\<open>reserve\<close> (an interpretation of \<open>bounded_ledger\<close>), and what the functions on Gateways
  and parent references promise.
\<close>

section \<open>Reference notions\<close>

text \<open>A valid specification in unbounded arithmetic: the rules of \<^verbatim>\<open>gatewaypools.json\<close>.\<close>

definition fleet_spec_ok :: "gateway_pool_spec \<Rightarrow> bool" where
  "fleet_spec_ok s \<longleftrightarrow>
     1 \<le> effectiveWorkers s \<and> effectiveWorkers s \<le> 512 \<and> gs_Occupancy s * effectiveWorkers s \<le> 1024 \<and>
     gs_GatewayClassName s \<noteq> '''' \<and> 1 \<le> gs_Occupancy s \<and> gs_Occupancy s \<le> 50 \<and> 1 \<le> gs_MaxGateways s \<and> gs_MaxGateways s \<le> 100 \<and>
     1024 \<le> gs_PortStart s \<and> gs_PortStart s + gs_Occupancy s - 1 \<le> 65535"

definition fleet_slot :: "gateway_allocation \<Rightarrow> int \<times> int" where
  "fleet_slot a = (ga_Shard a, ga_Port a)"

definition fleet_slots :: "gateway_pool \<Rightarrow> (int \<times> int) set" where
  "fleet_slots p = {0..<gs_MaxGateways (gp_Spec p)} \<times>
     {gs_PortStart (gp_Spec p)..<gs_PortStart (gp_Spec p) + gs_Occupancy (gp_Spec p)}"

text \<open>No Service port has two active leases.\<close>

definition fleet_ports_unique :: "(string, gateway_allocation) gomap \<Rightarrow> bool" where
  "fleet_ports_unique m \<longleftrightarrow>
     distinct (map (\<lambda>a. (ga_ServiceUID a, ga_ServicePort a)) (filter (\<lambda>a. \<not> ga_Tombstone a) (map_values m)))"

text \<open>The names in a lease are the ones derived from the pool, the shard and the route.\<close>

definition lease_named :: "gateway_pool \<Rightarrow> string \<Rightarrow> gateway_allocation \<Rightarrow> bool" where
  "lease_named p uid a \<longleftrightarrow>
     uid \<noteq> '''' \<and> ga_GatewayName a = gatewayName (om_UID (gp_Meta p)) (ga_Shard a) \<and> ga_ListenerName a = listenerName uid"

definition fleet_ok :: "gateway_pool \<Rightarrow> bool" where
  "fleet_ok p \<longleftrightarrow>
     fleet_spec_ok (gp_Spec p) \<and> ledger_ok fleet_slot (fleet_leases p) \<and>
     fleet_slot ` snd ` set (fleet_leases p) \<subseteq> fleet_slots p \<and> fleet_ports_unique (fleet_leases p) \<and>
     (\<forall>(uid, a) \<in> set (fleet_leases p). lease_named p uid a)"

text \<open>The only numbers the CRD keeps out and \<^const>\<open>Validate\<close> alone does not.\<close>

definition reserveRequest :: "gateway_pool \<Rightarrow> udp_route \<times> service \<times> int \<times> int \<Rightarrow> go_error + (gateway_allocation \<times> gateway_pool)" where
  "reserveRequest p r =
     (case r of (route, svc, port, hp) \<Rightarrow>
       (if gs_PortStart (gp_Spec p) \<le> 65535 then reserve p route svc port hp
        else Inl (ApiError ''spec.portStart: must be at most 65535'')))"

abbreviation route_uid :: "udp_route \<Rightarrow> string" where
  "route_uid r \<equiv> om_UID (ur_Meta r)"

abbreviation fleet_uid :: "gateway_pool \<Rightarrow> string" where
  "fleet_uid p \<equiv> om_UID (gp_Meta p)"

lemma fleet_ok_cong:
  "gp_Spec p = gp_Spec q \<Longrightarrow> fleet_leases p = fleet_leases q \<Longrightarrow> fleet_uid p = fleet_uid q \<Longrightarrow> fleet_ok p \<longleftrightarrow> fleet_ok q"
  unfolding fleet_ok_def fleet_slots_def lease_named_def by simp

lemma fleet_ok_parts:
  assumes "fleet_ok p"
  shows "fleet_spec_ok (gp_Spec p)" "ledger_ok fleet_slot (fleet_leases p)" "wf_map (fleet_leases p)"
  using assms by (simp_all add: fleet_ok_def ledger_ok_def)

lemma fleet_ok_lease:
  assumes "fleet_ok p" "(uid, a) \<in> set (fleet_leases p)"
  shows "lease_named p uid a" "fleet_slot a \<in> fleet_slots p"
  using assms by (auto simp: fleet_ok_def image_subset_iff Ball_def)

section \<open>Validation\<close>

lemma Validate_exact_below:
  assumes "gs_PortStart s \<le> 65535"
  shows "Validate s = None \<longleftrightarrow> fleet_spec_ok s"
proof (cases "1 \<le> effectiveWorkers s \<and> effectiveWorkers s \<le> 512 \<and> 1 \<le> gs_Occupancy s \<and> gs_Occupancy s \<le> 50 \<and> 1024 \<le> gs_PortStart s")
  case True
  have "gs_Occupancy s * effectiveWorkers s \<le> 50 * 512" using True by (intro mult_mono) auto
  then have "wrap64 (gs_Occupancy s * effectiveWorkers s) = gs_Occupancy s * effectiveWorkers s"
    using True by (intro wrap64_small) simp
  moreover have "wrap64 (wrap64 (gs_PortStart s + gs_Occupancy s) - 1) = gs_PortStart s + gs_Occupancy s - 1"
    using True assms by simp
  ultimately show ?thesis using True by (simp add: Validate_def fleet_spec_ok_def not_less not_le)
next
  case False
  then show ?thesis by (auto simp: Validate_def fleet_spec_ok_def)
qed

section \<open>One reservation\<close>

lemma scanFleet_Inr:
  "scanFleet as u q occ = Inr occ' \<longleftrightarrow>
     (\<forall>a \<in> set as. ga_Tombstone a \<or> ga_ServiceUID a \<noteq> u \<or> ga_ServicePort a \<noteq> q) \<and> occ' = rev (map fleet_slot as) @ occ"
  by (induction as u q occ rule: scanFleet.induct) (auto simp: fleet_slot_def)

lemma reserve_held:
  assumes "map_of (fleet_leases p) (route_uid route) = Some a" "reserve p route svc port hp = Inr (a', p')"
  shows "a' = a \<and> p' = p"
  using assms by (auto simp: reserve_def split: if_splits option.splits)

lemma reserve_fresh:
  assumes "map_of (fleet_leases p) (route_uid route) = None" "reserve p route svc port hp = Inr (a, p')"
  obtains shard portNumber where
    "a = newLease p route svc port hp shard portNumber" "p' = put_gateway_allocation (route_uid route) a p"
    "first_free (rev (map (fleet_slot \<circ> snd) (fleet_leases p))) (gs_PortStart (gp_Spec p)) (gs_Occupancy (gp_Spec p))
       (gs_MaxGateways (gp_Spec p)) = Some (shard, portNumber)"
    "Validate (gp_Spec p) = None" "route_uid route \<noteq> ''''" "fleet_uid p \<noteq> ''''" "om_UID (sv_Meta svc) \<noteq> ''''"
    "\<forall>c \<in> snd ` set (fleet_leases p). ga_Tombstone c \<or> ga_ServiceUID c \<noteq> om_UID (sv_Meta svc) \<or> ga_ServicePort c \<noteq> port"
  using assms
  by (auto simp: reserve_def Let_def try_shards_first_free scanFleet_Inr map_values_def split: if_splits option.splits sum.splits)

lemma reserve_fresh_spec:
  assumes fresh: "map_of (fleet_leases p) (route_uid route) = None" and grant: "reserve p route svc port hp = Inr (a, p')"
    and start: "gs_PortStart (gp_Spec p) \<le> 65535"
  shows "fleet_leases p' = fleet_leases p @ [(route_uid route, a)]"
    and "gp_Spec p' = gp_Spec p" "gp_Meta p' = gp_Meta p"
    and "fleet_slot a \<notin> fleet_slot ` snd ` set (fleet_leases p)" "fleet_slot a \<in> fleet_slots p"
    and "\<not> ga_Tombstone a" "lease_named p (route_uid route) a" "fleet_spec_ok (gp_Spec p)"
    and "ga_ServiceUID a = om_UID (sv_Meta svc)" "ga_ServicePort a = port"
proof -
  let ?occ = "rev (map (fleet_slot \<circ> snd) (fleet_leases p))"
  obtain shard q where a: "a = newLease p route svc port hp shard q"
    and p': "p' = put_gateway_allocation (route_uid route) a p"
    and ff: "first_free ?occ (gs_PortStart (gp_Spec p)) (gs_Occupancy (gp_Spec p)) (gs_MaxGateways (gp_Spec p)) = Some (shard, q)"
    and valid: "Validate (gp_Spec p) = None" and uid: "route_uid route \<noteq> ''''"
    by (rule reserve_fresh [OF fresh grant])
  show ok: "fleet_spec_ok (gp_Spec p)" using valid start by (simp add: Validate_exact_below)
  then have b: "0 \<le> gs_PortStart (gp_Spec p)" "gs_PortStart (gp_Spec p) + gs_Occupancy (gp_Spec p) \<le> 2 ^ 63"
    by (simp_all add: fleet_spec_ok_def)
  have inside: "(shard, q) \<in> fleet_slots p"
    using first_free_Some(1) [OF ff] by (simp add: slot_order_plain [OF b] fleet_slots_def)
  then have w: "wrap32 q = q" using ok start by (auto simp: fleet_slots_def fleet_spec_ok_def)
  have slot: "fleet_slot a = (shard, q)" by (simp add: a fleet_slot_def newLease_def w)
  show "fleet_slot a \<in> fleet_slots p" by (simp add: slot inside)
  show "fleet_slot a \<notin> fleet_slot ` snd ` set (fleet_leases p)"
    using first_free_Some(2) [OF ff] by (simp add: slot image_comp)
  show "fleet_leases p' = fleet_leases p @ [(route_uid route, a)]" using fresh by (simp add: p' AList_update_fresh)
  show "gp_Spec p' = gp_Spec p" "gp_Meta p' = gp_Meta p" by (simp_all add: p')
  show "\<not> ga_Tombstone a" "lease_named p (route_uid route) a" "ga_ServiceUID a = om_UID (sv_Meta svc)" "ga_ServicePort a = port"
    using uid by (simp_all add: a newLease_def lease_named_def)
qed

text \<open>The reservation satisfies the ledger contract, for specifications inside the CRD's bound.\<close>

interpretation fleet_ledger: bounded_ledger
  "\<lambda>p. fleet_leases p" fleet_slot ga_Tombstone "\<lambda>(route, svc, port, hp). route_uid route" reserveRequest fleet_slots
proof (unfold_locales, goal_cases)
  case (1 p r a a' p')
  then show ?case by (auto simp: reserveRequest_def split: prod.splits if_splits dest: reserve_held)
next
  case (2 p r a p')
  then show ?case by (auto simp: reserveRequest_def split: prod.splits if_splits dest: reserve_fresh_spec)
next
  case (3 p)
  then show ?case by (simp add: fleet_slots_def)
next
  case (4 p r a p')
  obtain route svc port hp where r: "r = (route, svc, port, hp)" by (cases r)
  with 4 have "reserve p route svc port hp = Inr (a, p')" "gs_PortStart (gp_Spec p) \<le> 65535"
    by (auto simp: reserveRequest_def split: if_splits)
  then have "gp_Spec p' = gp_Spec p"
    using reserve_held reserve_fresh_spec(2) by (cases "map_of (fleet_leases p) (route_uid route)") blast+
  then show ?case by (simp add: fleet_slots_def)
next
  case (5 p r a p')
  then show ?case by (auto simp: reserveRequest_def split: prod.splits if_splits dest: reserve_fresh_spec)
qed

lemma reserve_request:
  "reserve p route svc port hp = Inr (a, p') \<Longrightarrow> gs_PortStart (gp_Spec p) \<le> 65535 \<Longrightarrow>
   reserveRequest p (route, svc, port, hp) = Inr (a, p')"
  by (simp add: reserveRequest_def)

lemma fleet_ports_unique_snoc:
  assumes "fleet_ports_unique m"
    and "\<forall>c \<in> snd ` set m. ga_Tombstone c \<or> ga_ServiceUID c \<noteq> ga_ServiceUID a \<or> ga_ServicePort c \<noteq> ga_ServicePort a"
  shows "fleet_ports_unique (m @ [(uid, a)])"
  using assms by (auto simp: fleet_ports_unique_def map_values_def)

lemma reserve_fleet_ok:
  assumes ok: "fleet_ok p" and grant: "reserve p route svc port hp = Inr (a, p')"
  shows "fleet_ok p'"
proof (cases "map_of (fleet_leases p) (route_uid route)")
  case None
  have start: "gs_PortStart (gp_Spec p) \<le> 65535" using ok by (simp add: fleet_ok_def fleet_spec_ok_def)
  note spec = reserve_fresh_spec [OF None grant start]
  note req = reserve_request [OF grant start]
  have "fleet_ports_unique (fleet_leases p')"
    unfolding spec(1)
  proof (rule fleet_ports_unique_snoc)
    show "fleet_ports_unique (fleet_leases p)" using ok by (simp add: fleet_ok_def)
    show "\<forall>c \<in> snd ` set (fleet_leases p). ga_Tombstone c \<or> ga_ServiceUID c \<noteq> ga_ServiceUID a \<or> ga_ServicePort c \<noteq> ga_ServicePort a"
      unfolding spec(9,10) by (rule reserve_fresh [OF None grant])
  qed
  moreover have "ledger_ok fleet_slot (fleet_leases p')"
    using fleet_ledger.grant_ok [OF _ req] ok by (simp add: fleet_ok_def)
  moreover have "fleet_slot ` snd ` set (fleet_leases p') \<subseteq> fleet_slots p'"
    using fleet_ledger.grant_stays_in_slots [OF _ req] ok by (simp add: fleet_ok_def)
  moreover have "\<forall>(uid, a) \<in> set (fleet_leases p'). lease_named p' uid a"
    using ok spec(1,3,7) by (auto simp: fleet_ok_def lease_named_def)
  ultimately show ?thesis using ok spec(2) by (simp add: fleet_ok_def)
next
  case (Some a0)
  with reserve_held [OF Some grant] ok show ?thesis by simp
qed

section \<open>Generated Gateways\<close>

lemma desiredGateway_listeners [simp]: "gy_Listeners (gw_Spec (desiredGateway p name inst)) = desiredListeners (fleet_leases p) name"
  by (simp add: desiredGateway_def)

text \<open>The leases whose listeners a Gateway gets, in the order of the listeners.\<close>

definition chosen :: "(string, gateway_allocation) gomap \<Rightarrow> string \<Rightarrow> gateway_allocation list" where
  "chosen m name =
     (let here = filter (\<lambda>a. ga_GatewayName a = name) (map_values m); live = filter (\<lambda>a. \<not> ga_Tombstone a) here
      in sort_key ga_Port (if live = [] then take 1 (sort_key ga_Port (filter ga_Tombstone here)) else live))"

lemma sort_key_map: "sort_key f (map g xs) = map g (sort_key (\<lambda>x. f (g x)) xs)"
proof (induction xs)
  case (Cons x xs)
  have "insort_key f (g x) (map g ys) = map g (insort_key (\<lambda>x. f (g x)) x ys)" for ys by (induction ys) auto
  with Cons show ?case by simp
qed simp

lemma desiredListeners_chosen: "desiredListeners m name = map leaseListener (chosen m name)"
  by (simp add: desiredListeners_def chosen_def Let_def sort_key_map take_map leaseListener_def)

lemma chosen_set: "a \<in> set (chosen m name) \<Longrightarrow> a \<in> snd ` set m \<and> ga_GatewayName a = name"
  by (auto simp: chosen_def Let_def map_values_def split: if_splits dest!: in_set_takeD)

lemma chosen_live:
  assumes "a \<in> snd ` set m" "\<not> ga_Tombstone a"
  shows "a \<in> set (chosen m (ga_GatewayName a))"
proof -
  let ?live = "filter (\<lambda>a. \<not> ga_Tombstone a) (filter (\<lambda>b. ga_GatewayName b = ga_GatewayName a) (map_values m))"
  have "a \<in> set ?live" using assms by (simp add: map_values_def)
  moreover from this have "?live \<noteq> []" by (rule list.set_cases) simp_all
  ultimately show ?thesis by (simp add: chosen_def Let_def del: filter_filter)
qed

lemma sort_key_Nil_iff: "sort_key f xs = [] \<longleftrightarrow> xs = []"
  by (simp flip: length_0_conv)

lemma chosen_nonempty:
  assumes "a \<in> snd ` set m"
  shows "chosen m (ga_GatewayName a) \<noteq> []"
proof (cases "ga_Tombstone a")
  case False
  with chosen_live [OF assms] show ?thesis by force
next
  case True
  let ?here = "filter (\<lambda>b. ga_GatewayName b = ga_GatewayName a) (map_values m)"
  have "a \<in> set (filter ga_Tombstone ?here)" using assms True by (simp add: map_values_def)
  then have "filter ga_Tombstone ?here \<noteq> []" by (rule list.set_cases) simp_all
  then show ?thesis by (simp add: chosen_def Let_def sort_key_Nil_iff del: filter_filter)
qed

lemma distinct_map_sort_key: "distinct (map f (sort_key g xs)) \<longleftrightarrow> distinct (map f xs)"
  by (simp add: distinct_map)

lemma chosen_distinct: "distinct (map f (map_values m)) \<Longrightarrow> distinct (map f (chosen m name))"
  by (auto simp: chosen_def Let_def distinct_map_sort_key take_map [symmetric] distinct_map_filter intro!: distinct_take)

section \<open>Listeners of a sound ledger\<close>

lemma gatewayName_inject [simp]: "gatewayName uid s = gatewayName uid t \<longleftrightarrow> s = t"
  by (simp add: gatewayName_def)

lemma listenerName_nonempty [simp]: "listenerName uid \<noteq> []"
  by (simp add: listenerName_def)

text \<open>The hash that listener names are made of does not collide on the routes of the pool.\<close>

definition route_hashes_distinct :: "gateway_pool \<Rightarrow> bool" where
  "route_hashes_distinct p \<longleftrightarrow> inj_on sha_hex12 (fst ` set (fleet_leases p))"

lemma fleet_ok_port:
  assumes "fleet_ok p" "a \<in> snd ` set (fleet_leases p)"
  shows "gs_PortStart (gp_Spec p) \<le> ga_Port a" "ga_Port a < gs_PortStart (gp_Spec p) + gs_Occupancy (gp_Spec p)"
    "1 \<le> ga_Port a" "ga_Port a \<le> 65535" "ga_ListenerName a \<noteq> ''''"
    "ga_GatewayName a = gatewayName (fleet_uid p) (ga_Shard a)"
proof -
  obtain uid where "(uid, a) \<in> set (fleet_leases p)" using assms(2) by auto
  note l = fleet_ok_lease [OF assms(1) this]
  show s: "gs_PortStart (gp_Spec p) \<le> ga_Port a" "ga_Port a < gs_PortStart (gp_Spec p) + gs_Occupancy (gp_Spec p)"
    using l(2) by (auto simp: fleet_slot_def fleet_slots_def)
  show "1 \<le> ga_Port a" "ga_Port a \<le> 65535"
    using s fleet_ok_parts(1) [OF assms(1)] by (auto simp: fleet_spec_ok_def)
  show "ga_ListenerName a \<noteq> ''''" "ga_GatewayName a = gatewayName (fleet_uid p) (ga_Shard a)"
    using l(1) by (auto simp: lease_named_def)
qed

lemma chosen_ports:
  assumes "fleet_ok p"
  shows "distinct (map ga_Port (chosen (fleet_leases p) name))"
proof -
  let ?bs = "chosen (fleet_leases p) name"
  have "distinct (map fleet_slot (map_values (fleet_leases p)))"
    using fleet_ok_parts(2) [OF assms] by (simp add: ledger_ok_def map_values_def)
  then have slots: "distinct (map fleet_slot ?bs)" by (rule chosen_distinct)
  then have inj: "inj_on fleet_slot (set ?bs)" by (simp add: distinct_map)
  have same: "ga_Shard a = ga_Shard b" if "a \<in> set ?bs" "b \<in> set ?bs" for a b
    using chosen_set [OF that(1)] chosen_set [OF that(2)] fleet_ok_port(6) [OF assms, of a] fleet_ok_port(6) [OF assms, of b] by simp
  have "inj_on ga_Port (set ?bs)"
  proof (rule inj_onI)
    fix a b assume "a \<in> set ?bs" "b \<in> set ?bs" "ga_Port a = ga_Port b"
    with inj_onD [OF inj, of a b] same [of a b] show "a = b" by (simp add: fleet_slot_def)
  qed
  with slots show ?thesis by (simp add: distinct_map)
qed

lemma chosen_names:
  assumes "fleet_ok p" "route_hashes_distinct p"
  shows "distinct (map ga_ListenerName (chosen (fleet_leases p) name))"
proof (rule chosen_distinct)
  have "map ga_ListenerName (map_values (fleet_leases p)) = map (listenerName \<circ> fst) (fleet_leases p)"
    using fleet_ok_lease(1) [OF assms(1)] by (auto simp: map_values_def lease_named_def)
  moreover have "inj_on listenerName (fst ` set (fleet_leases p))"
    using assms(2) by (auto simp: route_hashes_distinct_def inj_on_def listenerName_def)
  moreover have "distinct (map fst (fleet_leases p))" using fleet_ok_parts(3) [OF assms(1)] by (simp add: wf_map_def)
  ultimately show "distinct (map ga_ListenerName (map_values (fleet_leases p)))"
    by (simp add: distinct_map comp_inj_on_iff [symmetric])
qed

lemma chosen_length:
  assumes "fleet_ok p"
  shows "int (length (chosen (fleet_leases p) name)) \<le> gs_Occupancy (gp_Spec p)"
proof -
  let ?ports = "map ga_Port (chosen (fleet_leases p) name)"
  have "set ?ports \<subseteq> {gs_PortStart (gp_Spec p)..<gs_PortStart (gp_Spec p) + gs_Occupancy (gp_Spec p)}"
    using fleet_ok_port(1,2) [OF assms] chosen_set by fastforce
  then have "card (set ?ports) \<le> card {gs_PortStart (gp_Spec p)..<gs_PortStart (gp_Spec p) + gs_Occupancy (gp_Spec p)}"
    by (intro card_mono) simp_all
  then have "length ?ports \<le> nat (gs_Occupancy (gp_Spec p))"
    unfolding distinct_card [OF chosen_ports [OF assms]] by simp
  moreover have "1 \<le> gs_Occupancy (gp_Spec p)" using fleet_ok_parts(1) [OF assms] by (simp add: fleet_spec_ok_def)
  ultimately show ?thesis by simp
qed

end
