(* ===== verification/Gateway_Fleet_Steps.thy ===== *)
theory Gateway_Fleet_Steps
  imports Gateway_Fleet
begin

text \<open>
  What a reconciliation of the Gateway pool controller may write.  \<open>fleet_change\<close> lists the changes of the
  stored status, \<open>fleet_write\<close> the writes; every reconciliation issues at most one of them, whatever the
  services answer.  From this follow the refinement of the abstract register and the theorems on
  histories and on deletion.
\<close>

section \<open>At most one write\<close>

definition one_write :: "('e \<Rightarrow> bool) \<Rightarrow> 'e list \<Rightarrow> bool" where
  "one_write P ws \<longleftrightarrow> ws = [] \<or> (\<exists>e. ws = [e] \<and> P e)"

text \<open>An operation that may end the reconciliation writes only when it does.\<close>

definition stops :: "('e \<Rightarrow> bool) \<Rightarrow> 'x + 'a \<Rightarrow> 'e list \<Rightarrow> bool" where
  "stops P r ws \<longleftrightarrow> (case r of Inl _ \<Rightarrow> one_write P ws | Inr _ \<Rightarrow> ws = [])"

lemma one_write_Nil [simp]: "one_write P []"
  by (simp add: one_write_def)

lemma one_write_single [simp]: "one_write P [e] \<longleftrightarrow> P e"
  by (simp add: one_write_def)

lemma stops_Nil [simp]: "stops P r []"
  by (simp add: stops_def split: sum.split)

lemma stops_Inl [simp]: "stops P (Inl x) ws \<longleftrightarrow> one_write P ws"
  by (simp add: stops_def)

lemma stops_Inr [simp]: "stops P (Inr x) ws \<longleftrightarrow> ws = []"
  by (simp add: stops_def)

lemma emits_submit: "(\<And>a. R a [e]) \<Longrightarrow> emits (submit K e) R"
  unfolding submit_def by (rule emits_issue)

lemma emits_submit_then:
  "(\<And>a. R (f a) [e]) \<Longrightarrow> emits (State_Monad.bind (submit K e) (\<lambda>x. State_Monad.return (f x))) R"
  by (intro emits_bind emits_submit emits_return) simp

lemma stops_tryM:
  assumes "emits m (stops P)" "\<And>x. emits (f x) (stops P)"
  shows "emits (tryM m f) (stops P)"
proof (rule emits_tryM, rule emits_mono [OF assms(1)], goal_cases)
  case (1 r ws)
  then show ?case using assms(2) by (cases r) simp_all
qed

lemma emits_orElse:
  assumes "emits m (stops P)" "\<And>x. emits (f x) (\<lambda>_. one_write P)"
  shows "emits (orElse m f) (\<lambda>_. one_write P)"
  unfolding orElse_def
proof (rule emits_bind, rule emits_mono [OF assms(1)], goal_cases)
  case (1 r ws)
  then show ?case using assms(2) by (cases r) (simp_all add: emits_return)
qed

section \<open>Changes of the status\<close>

inductive fleet_change :: "gateway_pool \<Rightarrow> gateway_pool \<Rightarrow> bool" for p where
  freeze: "gt_FrozenSpec (gp_Status p) = None \<Longrightarrow> Validate (gp_Spec p) = None \<Longrightarrow>
    fleet_change p (p\<lparr>gp_Status := (gp_Status p)\<lparr>gt_FrozenSpec := Some (gp_Spec p)\<rparr>\<rparr>)"
| report: "fleet_change p p"
| retire: "gt_FrozenSpec (gp_Status p) = Some (gp_Spec p) \<Longrightarrow> (uid, a) \<in> set (fleet_leases p) \<Longrightarrow>
    fleet_change p (put_gateway_allocation uid (a\<lparr>ga_Tombstone := True\<rparr>) p)"
| attach: "gt_FrozenSpec (gp_Status p) = Some (gp_Spec p) \<Longrightarrow> map_of (fleet_leases p) uid = Some a \<Longrightarrow>
    fleet_change p (put_gateway_allocation uid (a\<lparr>ga_Attached := True\<rparr>) p)"
| reserve: "gt_FrozenSpec (gp_Status p) = Some (gp_Spec p) \<Longrightarrow> map_of (fleet_leases p) (route_uid route) = None \<Longrightarrow>
    reserve p route svc port hp = Inr (a, q) \<Longrightarrow> fleet_change p q"
| register: "gt_FrozenSpec (gp_Status p) = Some (gp_Spec p) \<Longrightarrow> get_or '''' (gt_Gateways (gp_Status p)) name = '''' \<Longrightarrow> uid \<noteq> '''' \<Longrightarrow>
    fleet_change p (p\<lparr>gp_Status := (gp_Status p)\<lparr>gt_Gateways := AList.update name uid (gt_Gateways (gp_Status p))\<rparr>\<rparr>)"

text \<open>The writes of a reconciliation of the stored pool \<open>p\<close>.\<close>

inductive fleet_write :: "'w fleet \<Rightarrow> gateway_pool \<Rightarrow> gw_write \<Rightarrow> bool" for F p where
  status: "fleet_change p q \<Longrightarrow> \<not> om_Deleting (gp_Meta p) \<Longrightarrow> fleet_write F p (UpdateGatewayPoolStatus (savedPool (fl_Lib F) q rejected))"
| create: "a \<in> snd ` set (fleet_leases p) \<Longrightarrow> get_or '''' (gt_Gateways (gp_Status p)) (ga_GatewayName a) = '''' \<Longrightarrow>
    \<not> om_Deleting (gp_Meta p) \<Longrightarrow> fleet_write F p (CreateGateway (desiredGateway p (ga_GatewayName a) (fl_Installation F)))"
| repair: "a \<in> snd ` set (fleet_leases p) \<Longrightarrow> ownedGateway (fl_Lib F) p g (fl_Installation F) = None \<Longrightarrow> \<not> om_Deleting (gw_Meta g) \<Longrightarrow>
    compatibleGateway g (desiredGateway p (ga_GatewayName a) (fl_Installation F)) (retiredGatewayListeners p (ga_GatewayName a)) \<Longrightarrow>
    \<not> om_Deleting (gp_Meta p) \<Longrightarrow>
    fleet_write F p (UpdateGateway (g\<lparr>gw_Spec := (gw_Spec g)\<lparr>gy_Listeners := desiredListeners (fleet_leases p) (ga_GatewayName a)\<rparr>\<rparr>))"
| parent: "map_of (fleet_leases p) (route_uid route) = Some a \<Longrightarrow> \<not> ga_Tombstone a \<Longrightarrow> \<not> om_Deleting (ur_Meta route) \<Longrightarrow>
    ur_ParentRefs route = [] \<Longrightarrow> \<not> om_Deleting (gp_Meta p) \<Longrightarrow> fleet_write F p (UpdateRoute (attachedRoute (fl_Lib F) a route))"
| adopt: "\<not> om_Deleting (gp_Meta p) \<Longrightarrow> fleet_write F p (UpdateGatewayPool (p\<lparr>gp_Meta := (gp_Meta p)\<lparr>om_Finalizers :=
      addFinalizer (fl_Lib F) (om_Finalizers (gp_Meta p)) PoolCleanupFinalizer\<rparr>\<rparr>))"
| archive: "om_Deleting (gp_Meta p) \<Longrightarrow> marshalLedger (fl_Json F) (fleet_uid p) (gp_Spec p) (gp_Status p) = Inr data \<Longrightarrow>
    fleet_write F p (CreateConfigMap (fleetArchive F p data))"
| delete: "om_Deleting (gp_Meta p) \<Longrightarrow> ownedGateway (fl_Lib F) p g (fl_Installation F) = None \<Longrightarrow> fleet_write F p (DeleteGateway g)"
| release: "om_Deleting (gp_Meta p) \<Longrightarrow> fleet_write F p (UpdateGatewayPool (p\<lparr>gp_Meta := (gp_Meta p)\<lparr>om_Finalizers :=
      removeFinalizer (fl_Lib F) (om_Finalizers (gp_Meta p)) PoolCleanupFinalizer\<rparr>\<rparr>))"

inductive_cases fleet_write_statusE: "fleet_write F p (UpdateGatewayPoolStatus q)"
inductive_cases fleet_write_poolE: "fleet_write F p (UpdateGatewayPool q)"

section \<open>Every operation writes at most that\<close>

lemma emits_saveFleet:
  assumes "fleet_change p q" "\<not> om_Deleting (gp_Meta p)"
  shows "emits (saveFleet F q rejected) (\<lambda>_. one_write (fleet_write F p))"
  unfolding saveFleet_def by (intro emits_submit_then) (simp add: fleet_write.status [OF assms])

lemma emits_saveFleet_stop:
  assumes "fleet_change p q" "\<not> om_Deleting (gp_Meta p)"
  shows "emits (State_Monad.bind (saveFleet F q rejected) (State_Monad.return \<circ> Inl)) (stops (fleet_write F p))"
  by (rule emits_bind, rule emits_mono [OF emits_saveFleet [OF assms]])
     (auto intro!: emits_return simp: one_write_def stops_def)

lemma silent_routeService [silent_ops]: "silent (routeService F route)"
  unfolding routeService_def by (auto intro!: silent_ops split: sum.split prod.split)

lemma emits_leaseRoute:
  assumes "gt_FrozenSpec (gp_Status p) = Some (gp_Spec p)" "\<not> om_Deleting (gp_Meta p)"
  shows "emits (leaseRoute F p route rejected target) (stops (fleet_write F p))"
proof -
  obtain svc port hp where target: "target = (svc, port, hp)" by (cases target)
  show ?thesis
  proof (cases "map_of (fleet_leases p) (route_uid route)")
    case None
    then show ?thesis
      by (auto simp: leaseRoute_def target Let_def intro!: emits_return emits_saveFleet_stop [OF _ assms(2)]
          fleet_change.reserve [OF assms(1)] split: sum.split prod.split)
  next
    case (Some a)
    then show ?thesis
      by (auto simp: leaseRoute_def target Let_def intro!: emits_return emits_saveFleet_stop [OF _ assms(2)]
          fleet_change.attach [OF assms(1)])
  qed
qed

lemma emits_considerRoute:
  assumes "gt_FrozenSpec (gp_Status p) = Some (gp_Spec p)" "\<not> om_Deleting (gp_Meta p)"
  shows "emits (considerRoute F p others route rejected) (stops (fleet_write F p))"
  unfolding considerRoute_def Let_def
  by (intro emits_if emits_return emits_bind_silent silent_ops)
     (auto intro!: emits_return emits_leaseRoute assms split: sum.split)

lemma emits_considerRoutes:
  assumes "gt_FrozenSpec (gp_Status p) = Some (gp_Spec p)" "\<not> om_Deleting (gp_Meta p)"
  shows "emits (considerRoutes F p others routes rejected) (stops (fleet_write F p))"
  by (induction routes arbitrary: rejected) (auto intro!: emits_return stops_tryM emits_considerRoute assms)

lemma emits_checkGateway:
  assumes "gt_FrozenSpec (gp_Status p) = Some (gp_Spec p)" "\<not> om_Deleting (gp_Meta p)" "a \<in> snd ` set (fleet_leases p)"
  shows "emits (checkGateway F p rejected (ga_GatewayName a) g) (stops (fleet_write F p))"
  unfolding checkGateway_def Let_def
  by (auto intro!: emits_return emits_saveFleet_stop [OF _ assms(2)] fleet_change.register [OF assms(1)] emits_submit_then
      fleet_write.repair assms(2,3) split: option.split)

lemma emits_ensureGateways:
  assumes "gt_FrozenSpec (gp_Status p) = Some (gp_Spec p)" "\<not> om_Deleting (gp_Meta p)"
    "set names \<subseteq> ga_GatewayName ` snd ` set (fleet_leases p)"
  shows "emits (ensureGateways F p rejected names) (stops (fleet_write F p))"
  using assms(3)
proof (induction names)
  case (Cons name names)
  then obtain a where a: "a \<in> snd ` set (fleet_leases p)" "name = ga_GatewayName a" by auto
  have "emits (ensureGateway F p rejected name) (stops (fleet_write F p))"
    unfolding ensureGateway_def Let_def a(2)
    by (intro emits_bind_silent silent_call)
       (auto intro!: emits_return emits_submit_then emits_checkGateway assms(1,2) a(1) fleet_write.create split: sum.split)
  with Cons show ?case by (auto intro: stops_tryM)
qed (simp add: emits_return)

lemma emits_attachRoutes:
  assumes "\<not> om_Deleting (gp_Meta p)"
  shows "emits (attachRoutes F p rejected routes) (stops (fleet_write F p))"
proof (induction routes)
  case (Cons route routes)
  have "fleet_write F p (UpdateRoute (attachedRoute (fl_Lib F) a route))" if "unattached p rejected route = Some a" for a
    using that by (intro fleet_write.parent assms) (auto simp: unattached_def split: option.splits if_splits)
  with Cons show ?case by (auto intro!: emits_submit_then split: option.split)
qed (simp add: emits_return)

lemma orphanedLease_mem: "orphanedLease routes m = Some (uid, a) \<Longrightarrow> (uid, a) \<in> set m"
  unfolding orphanedLease_def by (metis find_Some_iff nth_mem)

lemma emits_reconcileRoutes:
  assumes "gt_FrozenSpec (gp_Status p) = Some (gp_Spec p)" "\<not> om_Deleting (gp_Meta p)"
  shows "emits (reconcileRoutes F p routes others) (\<lambda>_. one_write (fleet_write F p))"
proof -
  have names: "set (leaseNames p) \<subseteq> ga_GatewayName ` snd ` set (fleet_leases p)"
    by (auto simp: leaseNames_def map_values_def)
  show ?thesis
    unfolding reconcileRoutes_def Let_def publishRejected_def
    by (auto intro!: emits_orElse emits_considerRoutes emits_ensureGateways emits_attachRoutes emits_return names assms
        emits_saveFleet fleet_change.report fleet_change.retire dest: orphanedLease_mem split: option.split)
qed

lemma emits_deleteGateways:
  assumes "om_Deleting (gp_Meta p)"
  shows "emits (deleteGateways F p names) (\<lambda>_. one_write (fleet_write F p))"
proof (induction names)
  case Nil
  then show ?case by (auto intro!: emits_submit_then fleet_write.release assms)
next
  case (Cons name names)
  then show ?case
    by (auto intro!: emits_bind_silent silent_call emits_return emits_submit_then fleet_write.delete assms split: sum.split option.split)
qed

lemma emits_cleanupFleet:
  assumes "om_Deleting (gp_Meta p)"
  shows "emits (cleanupFleet F p) (\<lambda>_. one_write (fleet_write F p))"
  unfolding cleanupFleet_def Let_def
  by (auto intro!: emits_bind_silent silent_call emits_return emits_submit_then fleet_write.archive emits_deleteGateways assms
      split: sum.split)

lemma emits_reconcileFleet: "emits (reconcileFleet F p) (\<lambda>_. one_write (fleet_write F p))"
  unfolding reconcileFleet_def
  by (auto intro!: emits_return emits_cleanupFleet emits_submit_then fleet_write.adopt emits_saveFleet fleet_change.freeze
      emits_bind_silent silent_call emits_reconcileRoutes split: option.split sum.split)

section \<open>The ledger is kept\<close>

definition fleet_register :: "gateway_pool \<Rightarrow> register" where
  "fleet_register p = register_of fleet_slot ga_Tombstone (fleet_leases p)"

text \<open>The slots of the frozen specification; before it is frozen there are none.\<close>

definition frozen_slots :: "gateway_pool \<Rightarrow> (int \<times> int) set" where
  "frozen_slots p = (case gt_FrozenSpec (gp_Status p) of None \<Rightarrow> {} | Some s \<Rightarrow> fleet_slots (p\<lparr>gp_Spec := s\<rparr>))"

definition fleet_safe :: "gateway_pool \<Rightarrow> bool" where
  "fleet_safe p \<longleftrightarrow> gs_PortStart (gp_Spec p) \<le> 65535 \<and>
     (case gt_FrozenSpec (gp_Status p) of None \<Rightarrow> fleet_leases p = [] | Some s \<Rightarrow> fleet_ok (p\<lparr>gp_Spec := s\<rparr>))"

lemma fleet_safe_register: "fleet_safe p \<Longrightarrow> register_ok (frozen_slots p) (fleet_register p)"
  unfolding fleet_register_def
  by (rule register_of_ok) (auto simp: fleet_safe_def frozen_slots_def fleet_ok_def ledger_ok_def wf_map_def split: option.splits)

lemma fleet_safe_frozen:
  assumes "fleet_safe p" "gt_FrozenSpec (gp_Status p) = Some (gp_Spec p)"
  shows "fleet_ok p" "frozen_slots p = fleet_slots p"
  using assms fleet_ok_cong [of "p\<lparr>gp_Spec := gp_Spec p\<rparr>" p] by (simp_all add: fleet_safe_def frozen_slots_def)

text \<open>What a status write changes besides the leases does not matter to the ledger.\<close>

lemma fleet_safe_cong:
  assumes "fleet_leases q = fleet_leases p" "gp_Spec q = gp_Spec p" "fleet_uid q = fleet_uid p"
    "gt_FrozenSpec (gp_Status q) = gt_FrozenSpec (gp_Status p)"
  shows "fleet_safe q \<longleftrightarrow> fleet_safe p" "fleet_register q = fleet_register p" "frozen_slots q = frozen_slots p"
  using assms fleet_ok_cong [of "q\<lparr>gp_Spec := s\<rparr>" "p\<lparr>gp_Spec := s\<rparr>" for s]
  by (auto simp: fleet_safe_def fleet_register_def frozen_slots_def fleet_slots_def split: option.splits)

lemma fleet_safeI:
  assumes "fleet_ok q" "gp_Spec q = gp_Spec p" "gt_FrozenSpec (gp_Status q) = Some (gp_Spec p)"
  shows "fleet_safe q"
  using assms fleet_ok_cong [of "q\<lparr>gp_Spec := gp_Spec p\<rparr>" q] by (auto simp: fleet_safe_def fleet_ok_def fleet_spec_ok_def)

text \<open>Setting a flag of a lease.\<close>

lemma fleet_ok_flag:
  assumes ok: "fleet_ok p" and a: "map_of (fleet_leases p) uid = Some a"
    and a': "a' = a\<lparr>ga_Tombstone := True\<rparr> \<or> a' = a\<lparr>ga_Attached := True\<rparr>"
  shows "fleet_ok (put_gateway_allocation uid a' p)"
proof -
  let ?m = "fleet_leases p"
  have same: "fleet_slot a' = fleet_slot a" using a' by (auto simp: fleet_slot_def)
  have "lease_named p uid a" by (rule fleet_ok_lease(1) [OF ok map_of_SomeD [OF a]])
  then have "lease_named p uid a'" using a' by (auto simp: lease_named_def)
  then have "\<forall>(u, x) \<in> set (AList.update uid a' ?m). lease_named p u x"
    using fleet_ok_lease(1) [OF ok] set_AList_update [of uid a' ?m] by auto
  moreover have "fleet_ports_unique (AList.update uid a' ?m)"
    using active_keys_update [OF fleet_ok_parts(3) [OF ok] a, of "\<lambda>a. (ga_ServiceUID a, ga_ServicePort a)" a' ga_Tombstone] a' ok
    by (auto simp: fleet_ports_unique_def fleet_ok_def)
  ultimately show ?thesis
    using ok ledger_ok_update [OF fleet_ok_parts(2) [OF ok] a same] by (simp add: fleet_ok_def fleet_slots_def lease_named_def)
qed

lemma fleet_flag_safe:
  assumes safe: "fleet_safe p" and frozen: "gt_FrozenSpec (gp_Status p) = Some (gp_Spec p)" and a: "map_of (fleet_leases p) uid = Some a"
    and a': "a' = a\<lparr>ga_Tombstone := True\<rparr> \<or> a' = a\<lparr>ga_Attached := True\<rparr>" and q: "q = put_gateway_allocation uid a' p"
  shows "fleet_safe q" "register_step (frozen_slots q) (fleet_register p) (fleet_register q)"
proof -
  show "fleet_safe q"
    by (rule fleet_safeI [of q p]) (use fleet_ok_flag [OF fleet_safe_frozen(1) [OF safe frozen] a a'] frozen in
        \<open>simp_all add: q put_gateway_allocation_def\<close>)
  have r: "fleet_register p uid = Some (fleet_slot a, ga_Tombstone a)" by (simp add: fleet_register_def register_of_def a)
  have "fleet_register q = (fleet_register p)(uid \<mapsto> (fleet_slot a', ga_Tombstone a'))"
    by (simp add: fleet_register_def q register_of_update)
  moreover have "fleet_slot a' = fleet_slot a" using a' by (auto simp: fleet_slot_def)
  moreover have "ga_Tombstone a' \<or> ga_Tombstone a' = ga_Tombstone a" using a' by auto
  ultimately have "fleet_register q = (fleet_register p)(uid \<mapsto> (fleet_slot a, True)) \<or> fleet_register q = fleet_register p"
    using r by (cases "ga_Tombstone a'") (auto simp: fun_upd_idem)
  then show "register_step (frozen_slots q) (fleet_register p) (fleet_register q)"
    using register_step.retire [of "fleet_register p" uid, OF r] register_step.keep by auto
qed

lemma fleet_change_keeps:
  assumes "fleet_change p q" "fleet_safe p"
  shows "fleet_safe q \<and> register_step (frozen_slots q) (fleet_register p) (fleet_register q) \<and>
    gp_Spec q = gp_Spec p \<and> gp_Meta q = gp_Meta p \<and> gt_FrozenSpec (gp_Status q) = Some (gp_Spec p) \<or>
    fleet_leases q = fleet_leases p \<and> gp_Spec q = gp_Spec p \<and> gp_Meta q = gp_Meta p \<and> gt_FrozenSpec (gp_Status q) = gt_FrozenSpec (gp_Status p)"
  using assms
proof (cases rule: fleet_change.cases)
  case freeze
  then have "fleet_spec_ok (gp_Spec p)" "fleet_leases p = []"
    using assms(2) by (auto simp: fleet_safe_def Validate_exact_below)
  then have "fleet_ok q" by (simp add: freeze(1) fleet_ok_def ledger_ok_def fleet_ports_unique_def map_values_def)
  then have "fleet_safe q" by (rule fleet_safeI) (simp_all add: freeze(1))
  moreover have "fleet_register q = fleet_register p" by (simp add: fleet_register_def freeze(1))
  ultimately show ?thesis by (simp add: freeze(1) register_step.keep)
next
  case report
  then show ?thesis by simp
next
  case (retire uid a)
  have "map_of (fleet_leases p) uid = Some a"
    using retire(3) fleet_ok_parts(3) [OF fleet_safe_frozen(1) [OF assms(2) retire(2)]] by (simp add: wf_map_map_of)
  with fleet_flag_safe [OF assms(2) retire(2) this disjI1 [OF refl] retire(1)] retire show ?thesis
    by (simp add: put_gateway_allocation_def)
next
  case (attach uid a)
  with fleet_flag_safe [OF assms(2) attach(2,3) disjI2 [OF refl] attach(1)] show ?thesis
    by (simp add: put_gateway_allocation_def)
next
  case (reserve route svc port hp a)
  note ok = fleet_safe_frozen [OF assms(2) reserve(1)]
  have start: "gs_PortStart (gp_Spec p) \<le> 65535" using assms(2) by (simp add: fleet_safe_def)
  note spec = reserve_fresh_spec [OF reserve(2,3) start]
  have st: "gt_FrozenSpec (gp_Status q) = Some (gp_Spec p)"
    by (rule reserve_fresh [OF reserve(2,3)]) (simp add: put_gateway_allocation_def reserve(1))
  have "fleet_safe q" by (rule fleet_safeI [OF reserve_fleet_ok [OF ok(1) reserve(3)] spec(2) st])
  moreover have "register_step (fleet_slots p) (fleet_register p) (fleet_register q)"
    unfolding fleet_register_def by (rule fleet_ledger.grant_register_step [OF reserve_request [OF reserve(3) start]])
  moreover have "frozen_slots q = fleet_slots p" using st spec(2) by (simp add: frozen_slots_def fleet_slots_def)
  ultimately show ?thesis using st spec(2,3) by simp
next
  case (register name uid)
  then show ?thesis by simp
qed

lemma savedPool_simps [simp]:
  "gp_Spec (savedPool L p rejected) = gp_Spec p" "gp_Meta (savedPool L p rejected) = gp_Meta p"
  "fleet_leases (savedPool L p rejected) = fleet_leases p"
  "gt_FrozenSpec (gp_Status (savedPool L p rejected)) = gt_FrozenSpec (gp_Status p)"
  "gt_Gateways (gp_Status (savedPool L p rejected)) = gt_Gateways (gp_Status p)"
  by (simp_all add: savedPool_def Let_def)

lemma fleet_write_keeps:
  assumes "fleet_write F p (UpdateGatewayPoolStatus q)" "fleet_safe p"
  shows "fleet_safe q" "register_step (frozen_slots q) (fleet_register p) (fleet_register q)"
    and "gp_Spec q = gp_Spec p" "gp_Meta q = gp_Meta p"
    and "gt_FrozenSpec (gp_Status p) = None \<or> gt_FrozenSpec (gp_Status q) = gt_FrozenSpec (gp_Status p)"
proof -
  obtain p' rejected where q: "q = savedPool (fl_Lib F) p' rejected" and ch: "fleet_change p p'"
    using assms(1) by (auto elim: fleet_write_statusE)
  have cong: "fleet_safe q \<longleftrightarrow> fleet_safe p'" "fleet_register q = fleet_register p'" "frozen_slots q = frozen_slots p'"
    by (rule fleet_safe_cong; simp add: q)+
  from fleet_change_keeps [OF ch assms(2)]
  show "fleet_safe q" "register_step (frozen_slots q) (fleet_register p) (fleet_register q)"
    using assms(2) fleet_safe_cong [of p' p] unfolding cong by (auto simp: register_step.keep)
  from fleet_change_keeps [OF ch assms(2)] show "gp_Spec q = gp_Spec p" "gp_Meta q = gp_Meta p" by (auto simp: q)
  from ch show "gt_FrozenSpec (gp_Status p) = None \<or> gt_FrozenSpec (gp_Status q) = gt_FrozenSpec (gp_Status p)"
    unfolding q by (cases rule: fleet_change.cases) (auto simp: put_gateway_allocation_def elim: reserve_fresh)
qed

end
