(* ===== verification/Gateway_Fleet_Properties.thy ===== *)
theory Gateway_Fleet_Properties
  imports Gateway_Fleet_Steps
begin

text \<open>
  The contract of a reconciliation of the Gateway pool controller: what it may write, that the ledger
  refines the abstract register, that over any history a listener belongs to one route for ever, and
  when the pool's finalizer goes.
\<close>

section \<open>A concrete installation\<close>

text \<open>An API that has nothing and accepts every write; the world never changes.\<close>

definition empty_api :: "unit gw_client" where
  "empty_api = \<lparr>gk_ListRoutes = (\<lambda>ns w. (Inr [], w)), gk_ListBindings = (\<lambda>ns w. (Inr [], w)), gk_ListPools = (\<lambda>ns w. (Inr [], w)),
     gk_ListServices = (\<lambda>ns w. (Inr [], w)), gk_ListGatewayPools = (\<lambda>ns w. (Inr [], w)),
     gk_GetGateway = (\<lambda>k w. (Inl (NotFound (snd k)), w)), gk_GetClass = (\<lambda>k w. (Inl (NotFound k), w)),
     gk_GetPool = (\<lambda>k w. (Inl (NotFound (snd k)), w)), gk_GetBinding = (\<lambda>k w. (Inl (NotFound (snd k)), w)),
     gk_GetService = (\<lambda>k w. (Inl (NotFound (snd k)), w)), gk_GetConfigMap = (\<lambda>k w. (Inl (NotFound (snd k)), w)),
     gk_GetGatewayPool = (\<lambda>k w. (Inl (NotFound (snd k)), w)), gk_CreatePool = (\<lambda>p w. (Inr p, w)), gk_UpdateNlbPool = (\<lambda>p w. (Inr p, w)),
     gk_CreateBinding = (\<lambda>b w. (Inr b, w)), gk_PatchBinding = (\<lambda>b w. (Inr b, w)), gk_PatchGateway = (\<lambda>g w. (Inr g, w)),
     gk_Submit = (\<lambda>e w. (None, w)), gk_CtxErr = (\<lambda>w. None)\<rparr>"

definition no_json :: json_lib where
  "no_json = \<lparr>marshalPool = (\<lambda>p. Inr []), unmarshalPool = (\<lambda>s. Inl (Errorf s)), marshalLedger = (\<lambda>u s t. Inr u)\<rparr>"

definition demo_fleet_spec :: gateway_pool_spec where
  "demo_fleet_spec = \<lparr>gs_GatewayClassName = ''nlb'', gs_Occupancy = 2, gs_MaxGateways = 2, gs_PortStart = 20000, gs_MaxWorkers = 0\<rparr>"

definition demo_route :: "string \<Rightarrow> udp_route" where
  "demo_route n = \<lparr>ur_Meta = (meta_named ''ns'' n n)\<lparr>om_Annotations := [(PoolAnnotation, ''fleet'')]\<rparr>, ur_ParentRefs = [],
     ur_UseDefaultGateways = '''', ur_Rules = [], ur_Parents = []\<rparr>"

definition plain_service :: "string \<Rightarrow> service" where
  "plain_service n = \<lparr>sv_Meta = meta_named ''ns'' n n, sv_Type = ''ClusterIP'', sv_ExternalTrafficPolicy = '''',
     sv_PublishNotReadyAddresses = False, sv_Selector = [(''app'', n)], sv_Ports = []\<rparr>"

definition new_fleet :: gateway_pool where
  "new_fleet = \<lparr>gp_Meta = (meta_named ''ns'' ''fleet'' ''fleet-uid'')\<lparr>om_Finalizers := [PoolCleanupFinalizer]\<rparr>, gp_Spec = demo_fleet_spec,
     gp_Status = \<lparr>gt_Allocations = [], gt_Gateways = [], gt_FrozenSpec = Some demo_fleet_spec, gt_RejectedRoutes = [], gt_Conditions = [],
       gt_Used = 0, gt_Available = 0\<rparr>\<rparr>"

text \<open>A retired lease and an active one.\<close>

definition demo_fleet :: gateway_pool where
  "demo_fleet = put_gateway_allocation ''r2'' (newLease new_fleet (demo_route ''r2'') (plain_service ''s2'') 5000 8080 0 20001)
     (put_gateway_allocation ''r1'' ((newLease new_fleet (demo_route ''r1'') (plain_service ''s1'') 5000 8080 0 20000)\<lparr>ga_Tombstone := True\<rparr>)
       new_fleet)"

definition demo_controller :: "gateway_pool \<Rightarrow> unit fleet" where
  "demo_controller p = \<lparr>fl_Client = empty_api\<lparr>gk_GetGatewayPool := (\<lambda>k w. (Inr p, w))\<rparr>, fl_Lib = list_lib, fl_Json = no_json,
     fl_Namespace = ''ns'', fl_Installation = ''inst'', fl_ClassName = ''nlb'', fl_Range = (\<lambda>ks. ks)\<rparr>"

definition idle :: "unit gw_state" where
  "idle = \<lparr>world = (), writes = []\<rparr>"

lemmas demo_fleet_defs = demo_fleet_spec_def demo_route_def plain_service_def new_fleet_def demo_fleet_def newLease_def
  put_gateway_allocation_def meta_named_def routeMode_def

lemmas fleet_eval = demo_controller_def empty_api_def no_json_def idle_def fleetReconcile_def reconcileFleet_def Validate_def
  effectiveWorkers_def list_lib_def call_def submit_def issue_def emit_def modify_def Let_def saveFleet_def

lemma demo_fleet_ok: "fleet_ok demo_fleet"
  by (auto simp: fleet_ok_def fleet_spec_ok_def effectiveWorkers_def ledger_ok_def wf_map_def fleet_slot_def fleet_slots_def
      fleet_ports_unique_def lease_named_def map_values_def demo_fleet_defs)

lemma demo_fleet_safe: "fleet_safe demo_fleet"
  by (rule fleet_safeI [of demo_fleet demo_fleet]) (simp_all add: demo_fleet_ok, simp_all add: demo_fleet_defs)

section \<open>One reconciliation\<close>

lemma fleetReconcile_inner:
  assumes "run_state (fleetReconcile F req) s = (ans, s')" "gk_GetGatewayPool (fl_Client F) req (world s) = (Inr p, w)"
    "emits (reconcileFleet F p) (\<lambda>_. R)" "R []"
  shows "\<exists>ws. writes s' = writes s @ ws \<and> R ws"
proof (cases "fst req = fl_Namespace F")
  case False
  with assms(1) have "s' = s" by (simp add: fleetReconcile_def)
  then show ?thesis using assms(4) by (intro exI [of _ "[]"]) simp
next
  case True
  with assms(1,2) have "run_state (reconcileFleet F p) (s\<lparr>world := w\<rparr>) = (ans, s')" by (simp add: fleetReconcile_def call_def)
  from emits_run [OF assms(3) this] show ?thesis by simp
qed

lemma fleetReconcile_run:
  assumes "run_state (fleetReconcile F req) s = (ans, s')" "gk_GetGatewayPool (fl_Client F) req (world s) = (Inr p, w)"
  shows "\<exists>ws. writes s' = writes s @ ws \<and> one_write (fleet_write F p) ws"
  by (rule fleetReconcile_inner [OF assms emits_reconcileFleet]) simp

text \<open>
  C7. A reconciliation of a Gateway pool refines one step of the abstract register of slots.  Whatever the
  services answer, it issues at most one write; if that write is the pool's status, the stored ledger
  before and after are related by a step that changes nothing, gives one free slot to a route that has
  none, or retires a slot; and the new ledger is sound again.
\<close>

theorem fleetReconcile_refines_register:
  assumes "run_state (fleetReconcile F req) s = (ans, s')"
    and "gk_GetGatewayPool (fl_Client F) req (world s) = (Inr p, w)" and "fleet_safe p"
  shows "\<exists>ws. writes s' = writes s @ ws \<and> length ws \<le> 1 \<and>
    (\<forall>q. UpdateGatewayPoolStatus q \<in> set ws \<longrightarrow>
       fleet_safe q \<and> register_step (frozen_slots q) (fleet_register p) (fleet_register q))"
proof -
  obtain ws where ws: "writes s' = writes s @ ws" and one: "one_write (fleet_write F p) ws"
    using fleetReconcile_run [OF assms(1,2)] by blast
  have "fleet_safe q \<and> register_step (frozen_slots q) (fleet_register p) (fleet_register q)"
    if "UpdateGatewayPoolStatus q \<in> set ws" for q
  proof -
    have "fleet_write F p (UpdateGatewayPoolStatus q)" using one that by (auto simp: one_write_def)
    from fleet_write_keeps(1,2) [OF this assms(3)] show ?thesis by blast
  qed
  moreover have "length ws \<le> 1" using one by (auto simp: one_write_def)
  ultimately show ?thesis using ws by blast
qed

text \<open>The route of the active lease is gone: the reconciliation retires its slot.\<close>

lemma demo_fleet_run:
  obtains ans s' q where "run_state (fleetReconcile (demo_controller demo_fleet) (''ns'', ''fleet'')) idle = (ans, s')"
    "gk_GetGatewayPool (fl_Client (demo_controller demo_fleet)) (''ns'', ''fleet'') (world idle) = (Inr demo_fleet, ())"
    "writes s' = [UpdateGatewayPoolStatus q]" "fleet_register q ''r2'' = Some ((0, 20001), True)"
proof -
  obtain ans s' where run: "run_state (fleetReconcile (demo_controller demo_fleet) (''ns'', ''fleet'')) idle = (ans, s')" by fastforce
  have "\<exists>q. writes s' = [UpdateGatewayPoolStatus q] \<and> fleet_register q ''r2'' = Some ((0, 20001), True)"
    using run
    by (auto simp: fleet_eval reconcileRoutes_def orphanedLease_def routesByUID_def fleet_register_def register_of_def fleet_slot_def
        demo_fleet_defs)
  then obtain q where "writes s' = [UpdateGatewayPoolStatus q]" "fleet_register q ''r2'' = Some ((0, 20001), True)" by blast
  with run show thesis by (rule_tac that) (simp_all add: fleet_eval)
qed

theorem fleetReconcile_refines_register_witness:
  "\<exists>ans s' q. run_state (fleetReconcile (demo_controller demo_fleet) (''ns'', ''fleet'')) idle = (ans, s') \<and>
     writes s' = [UpdateGatewayPoolStatus q] \<and> fleet_safe q \<and>
     register_step (frozen_slots q) (fleet_register demo_fleet) (fleet_register q) \<and> fleet_register q ''r2'' = Some ((0, 20001), True)"
proof (rule demo_fleet_run, goal_cases)
  case (1 ans s' q)
  have "writes idle = []" by (simp add: idle_def)
  with 1 fleetReconcile_refines_register [OF 1(1,2) demo_fleet_safe] show ?case by auto
qed

section \<open>Histories\<close>

text \<open>
  The states of a Gateway pool: users edit the specification, within the bounds of the resource definition,
  and the metadata other than the UID; the controller saves a status.
\<close>

inductive fleet_history :: "'w fleet \<Rightarrow> gateway_pool \<Rightarrow> gateway_pool \<Rightarrow> bool" for F p where
  here: "fleet_history F p p"
| edited: "fleet_history F p q \<Longrightarrow> gs_PortStart spec \<le> 65535 \<Longrightarrow> om_UID meta = fleet_uid q \<Longrightarrow>
    fleet_history F p (q\<lparr>gp_Spec := spec, gp_Meta := meta\<rparr>)"
| saved: "fleet_history F p q \<Longrightarrow> gk_GetGatewayPool (fl_Client F) req (world s) = (Inr q, w) \<Longrightarrow>
    run_state (fleetReconcile F req) s = (ans, s') \<Longrightarrow> writes s' = writes s @ ws \<Longrightarrow> UpdateGatewayPoolStatus q' \<in> set ws \<Longrightarrow>
    fleet_history F p q'"

lemma fleet_safe_edit:
  assumes "fleet_safe q" "gs_PortStart spec \<le> 65535" "om_UID meta = fleet_uid q"
  shows "fleet_safe (q\<lparr>gp_Spec := spec, gp_Meta := meta\<rparr>)"
  using assms fleet_ok_cong [of "q\<lparr>gp_Meta := meta, gp_Spec := s\<rparr>" "q\<lparr>gp_Spec := s\<rparr>" for s]
  by (auto simp: fleet_safe_def split: option.splits)

lemma frozen_slots_edit: "frozen_slots (q\<lparr>gp_Spec := spec, gp_Meta := meta\<rparr>) = frozen_slots q"
  by (simp add: frozen_slots_def fleet_slots_def split: option.split)

lemma saved_write:
  assumes "gk_GetGatewayPool (fl_Client F) req (world s) = (Inr q, w)" "run_state (fleetReconcile F req) s = (ans, s')"
    "writes s' = writes s @ ws" "UpdateGatewayPoolStatus q' \<in> set ws"
  shows "fleet_write F q (UpdateGatewayPoolStatus q')"
  using fleetReconcile_run [OF assms(2,1)] assms(3,4) by (auto simp: one_write_def)

lemma unfrozen_register: "fleet_safe q \<Longrightarrow> gt_FrozenSpec (gp_Status q) = None \<Longrightarrow> fleet_register q = Map.empty"
  by (simp add: fleet_safe_def fleet_register_def register_of_def fun_eq_iff)

text \<open>A run of the controller is a run of the register over the slots of the frozen specification.\<close>

lemma fleet_history_run:
  assumes "fleet_history F p q" "fleet_safe p"
  shows "fleet_safe q \<and> (register_step (frozen_slots q))\<^sup>*\<^sup>* (fleet_register p) (fleet_register q)"
  using assms
proof (induction rule: fleet_history.induct)
  case here
  then show ?case by simp
next
  case (edited q spec meta)
  moreover have "fleet_register (q\<lparr>gp_Spec := spec, gp_Meta := meta\<rparr>) = fleet_register q" by (simp add: fleet_register_def)
  ultimately show ?case using fleet_safe_edit frozen_slots_edit by auto
next
  case (saved q req s w ans s' ws q')
  then have IH: "fleet_safe q" "(register_step (frozen_slots q))\<^sup>*\<^sup>* (fleet_register p) (fleet_register q)" by blast+
  note keeps = fleet_write_keeps [OF saved_write [OF saved.hyps(2-5)] IH(1)]
  show ?case
  proof (cases "gt_FrozenSpec (gp_Status q)")
    case None
    have "fleet_register p = Map.empty"
      using register_run_extends [OF IH(2)] unfrozen_register [OF IH(1) None] by (simp add: register_extends_empty)
    with keeps(1,2) show ?thesis by (simp add: unfrozen_register [OF IH(1) None])
  next
    case (Some f)
    then have "frozen_slots q' = frozen_slots q" using keeps(4,5) by (auto simp: frozen_slots_def fleet_slots_def)
    with keeps(1,2) IH(2) show ?thesis by simp
  qed
qed

lemma fleet_register_Some: "map_of (fleet_leases p) uid = Some a \<Longrightarrow> fleet_register p uid = Some (fleet_slot a, ga_Tombstone a)"
  by (simp add: fleet_register_def register_of_def)

text \<open>
  C3. A listener belongs to one route for ever.  From a sound ledger, for example that of a new Gateway pool,
  through any sequence of edits and of reconciliations against services that may answer anything: every
  later ledger is sound, no lease disappears or moves to another shard or port, a retired lease stays
  retired, and a shard and port leased to one route at some time are never leased to another later.
\<close>

theorem listeners_never_reused:
  assumes safe: "fleet_safe p" and hist: "fleet_history F p q"
  shows "fleet_safe q \<and>
    (\<forall>uid a. map_of (fleet_leases p) uid = Some a \<longrightarrow>
       (\<exists>a'. map_of (fleet_leases q) uid = Some a' \<and> fleet_slot a' = fleet_slot a \<and> (ga_Tombstone a \<longrightarrow> ga_Tombstone a'))) \<and>
    (\<forall>uid a uid' a'. map_of (fleet_leases p) uid = Some a \<longrightarrow> map_of (fleet_leases q) uid' = Some a' \<longrightarrow>
       fleet_slot a = fleet_slot a' \<longrightarrow> uid = uid')"
proof -
  have safe': "fleet_safe q" and run: "(register_step (frozen_slots q))\<^sup>*\<^sup>* (fleet_register p) (fleet_register q)"
    using fleet_history_run [OF hist safe] by blast+
  note ext = register_run_extends [OF run]
  have "\<exists>a'. map_of (fleet_leases q) uid = Some a' \<and> fleet_slot a' = fleet_slot a \<and> (ga_Tombstone a \<longrightarrow> ga_Tombstone a')"
    if lease: "map_of (fleet_leases p) uid = Some a" for uid a
  proof -
    obtain b where "fleet_register q uid = Some (fleet_slot a, b)" "ga_Tombstone a \<longrightarrow> b"
      using ext fleet_register_Some [OF lease] unfolding register_extends_def by blast
    then show ?thesis by (auto simp: fleet_register_def register_of_def)
  qed
  moreover have "uid = uid'" if "map_of (fleet_leases p) uid = Some a" "map_of (fleet_leases q) uid' = Some a'" "fleet_slot a = fleet_slot a'"
    for uid a uid' a'
    using register_never_reuses [OF fleet_safe_register [OF safe'] ext, of uid "fleet_slot a" "ga_Tombstone a" uid' "ga_Tombstone a'"]
      that by (simp add: fleet_register_Some)
  ultimately show ?thesis using safe' by blast
qed

theorem listeners_never_reused_witness:
  "\<exists>q a. fleet_history (demo_controller demo_fleet) demo_fleet q \<and> fleet_safe q \<and>
     map_of (fleet_leases q) ''r1'' = Some a \<and> ga_Tombstone a \<and> fleet_slot a = (0, 20000)"
proof (rule demo_fleet_run, goal_cases)
  case (1 ans s' q)
  have "fleet_history (demo_controller demo_fleet) demo_fleet q"
    by (rule fleet_history.saved [OF fleet_history.here 1(2,1), of "[UpdateGatewayPoolStatus q]"]) (simp_all add: 1(3) idle_def)
  moreover have "\<exists>a. map_of (fleet_leases demo_fleet) ''r1'' = Some a \<and> ga_Tombstone a \<and> fleet_slot a = (0, 20000)"
    by (simp add: demo_fleet_defs fleet_slot_def)
  ultimately show ?case using listeners_never_reused [OF demo_fleet_safe] by metis
qed

section \<open>Durable first\<close>

text \<open>What the writes of a reconciliation of the stored pool \<open>p\<close> may refer to.\<close>

fun durable_write :: "'w fleet \<Rightarrow> gateway_pool \<Rightarrow> gw_write \<Rightarrow> bool" where
  "durable_write F p (CreateGateway g) \<longleftrightarrow>
     (\<exists>a \<in> snd ` set (fleet_leases p). g = desiredGateway p (ga_GatewayName a) (fl_Installation F) \<and>
        get_or '''' (gt_Gateways (gp_Status p)) (ga_GatewayName a) = '''')"
| "durable_write F p (UpdateGateway g) \<longleftrightarrow>
     (\<exists>a \<in> snd ` set (fleet_leases p). \<exists>actual.
        ownedGateway (fl_Lib F) p actual (fl_Installation F) = None \<and> \<not> om_Deleting (gw_Meta actual) \<and>
        compatibleGateway actual (desiredGateway p (ga_GatewayName a) (fl_Installation F)) (retiredGatewayListeners p (ga_GatewayName a)) \<and>
        g = actual\<lparr>gw_Spec := (gw_Spec actual)\<lparr>gy_Listeners := desiredListeners (fleet_leases p) (ga_GatewayName a)\<rparr>\<rparr>)"
| "durable_write F p (UpdateRoute r) \<longleftrightarrow>
     (\<exists>route a. map_of (fleet_leases p) (route_uid route) = Some a \<and> \<not> ga_Tombstone a \<and> \<not> om_Deleting (ur_Meta route) \<and>
        ur_ParentRefs route = [] \<and> r = attachedRoute (fl_Lib F) a route)"
| "durable_write F p (DeleteGateway g) \<longleftrightarrow> om_Deleting (gp_Meta p) \<and> ownedGateway (fl_Lib F) p g (fl_Installation F) = None"
| "durable_write F p (CreateConfigMap c) \<longleftrightarrow> om_Deleting (gp_Meta p) \<and> (\<exists>data. c = fleetArchive F p data)"
| "durable_write F p (UpdateGatewayPool q) \<longleftrightarrow> gp_Status q = gp_Status p \<and> gp_Spec q = gp_Spec p"
| "durable_write F p (UpdateGatewayPoolStatus q) \<longleftrightarrow> gp_Meta q = gp_Meta p \<and> gp_Spec q = gp_Spec p \<and> \<not> om_Deleting (gp_Meta p)"
| "durable_write F p _ \<longleftrightarrow> False"

lemma reserve_frame:
  assumes "reserve p route svc port hp = Inr (a, q)"
  shows "gp_Spec q = gp_Spec p" "gp_Meta q = gp_Meta p"
  using assms reserve_held [of p route _ svc port hp a q]
  by (cases "map_of (fleet_leases p) (route_uid route)"; auto elim: reserve_fresh)+

lemma fleet_write_durable:
  assumes "fleet_write F p e"
  shows "durable_write F p e"
  using assms
proof (cases rule: fleet_write.cases)
  case (status q rejected)
  from status(2,3) show ?thesis
    unfolding status(1)
    by (cases rule: fleet_change.cases) (auto simp: put_gateway_allocation_def reserve_frame)
next
  case (repair a g)
  then show ?thesis unfolding repair(1) durable_write.simps by blast
qed auto

text \<open>
  C12. The ledger is stored before anything refers to it, and nothing foreign is touched.  The one write of a
  reconciliation creates a Gateway only for a shard of a stored lease whose Gateway is not recorded yet,
  exactly as the ledger describes it; it updates only a live Gateway that the pool owns and that
  contains nothing but listeners of the ledger, and changes only its listeners; it sets the parent
  reference of a route to the route's own stored, active lease; and it deletes only
  Gateways that the pool owns, when the pool itself is being deleted.
\<close>

theorem fleetReconcile_durable_first:
  assumes "run_state (fleetReconcile F req) s = (ans, s')"
    and "gk_GetGatewayPool (fl_Client F) req (world s) = (Inr p, w)"
  shows "\<exists>ws. writes s' = writes s @ ws \<and> length ws \<le> 1 \<and> list_all (durable_write F p) ws"
proof -
  obtain ws where ws: "writes s' = writes s @ ws" and one: "one_write (fleet_write F p) ws"
    using fleetReconcile_run [OF assms] by blast
  have "list_all (durable_write F p) ws" "length ws \<le> 1"
    using one fleet_write_durable [of F p] by (auto simp: one_write_def)
  with ws show ?thesis by blast
qed

text \<open>A new pool that learns of nothing reports nothing; the demo pool retires a lease in its own status.\<close>

theorem fleetReconcile_durable_first_witness:
  "\<exists>ans s' q. run_state (fleetReconcile (demo_controller demo_fleet) (''ns'', ''fleet'')) idle = (ans, s') \<and>
     writes s' = [UpdateGatewayPoolStatus q] \<and> durable_write (demo_controller demo_fleet) demo_fleet (UpdateGatewayPoolStatus q)"
proof (rule demo_fleet_run, goal_cases)
  case (1 ans s' q)
  have "writes idle = []" by (simp add: idle_def)
  with 1 fleetReconcile_durable_first [OF 1(1,2)] have "durable_write (demo_controller demo_fleet) demo_fleet (UpdateGatewayPoolStatus q)"
    by auto
  with 1 show ?case by blast
qed

section \<open>Deletion\<close>

definition reported_absent :: "'w fleet \<Rightarrow> gateway_pool \<Rightarrow> string \<Rightarrow> bool" where
  "reported_absent F p name \<longleftrightarrow>
     (\<exists>e. is_not_found e \<and> answers (gk_GetGateway (fl_Client F) (om_Namespace (gp_Meta p), name)) (Inl e))"

definition ledger_archived :: "'w fleet \<Rightarrow> gateway_pool \<Rightarrow> bool" where
  "ledger_archived F p \<longleftrightarrow>
     (\<exists>data existing. marshalLedger (fl_Json F) (fleet_uid p) (gp_Spec p) (gp_Status p) = Inr data \<and>
        archiveMatches existing (fleetArchive F p data) \<and>
        answers (gk_GetConfigMap (fl_Client F) (key_of (cm_Meta (fleetArchive F p data)))) (Inr existing))"

lemma deleteGateways_release:
  "emits (deleteGateways F p names) (\<lambda>_ ws. UpdateGatewayPool q \<in> set ws \<longrightarrow> (\<forall>name \<in> set names. reported_absent F p name))"
proof (induction names)
  case Nil
  then show ?case by (auto intro!: emits_submit_then)
next
  case (Cons name names)
  let ?get = "gk_GetGateway (fl_Client F) (om_Namespace (gp_Meta p), name)"
  show ?case
    unfolding deleteGateways.simps
  proof (rule emits_call_then, goal_cases)
    case (1 w)
    show ?case
    proof (cases "fst (?get w)")
      case (Inl e)
      have "is_not_found e \<Longrightarrow> reported_absent F p name" using answersI [of ?get w] Inl by (auto simp: reported_absent_def)
      then show ?thesis by (auto simp: Inl intro!: emits_return emits_mono [OF Cons])
    next
      case (Inr g)
      then show ?thesis by (auto intro!: emits_return emits_submit_then split: option.split)
    qed
  qed
qed

lemma cleanupFleet_release:
  assumes "\<And>ks. set (fl_Range F ks) = set ks"
  shows "emits (cleanupFleet F p) (\<lambda>_ ws. UpdateGatewayPool q \<in> set ws \<longrightarrow>
    ledger_archived F p \<and> (\<forall>name \<in> set (fleetGateways p). reported_absent F p name))"
proof (cases "marshalLedger (fl_Json F) (fleet_uid p) (gp_Spec p) (gp_Status p)")
  case (Inl e)
  then show ?thesis by (auto simp: cleanupFleet_def intro!: emits_return)
next
  case (Inr data)
  let ?get = "gk_GetConfigMap (fl_Client F) (key_of (cm_Meta (fleetArchive F p data)))"
  have "ledger_archived F p" if "fst (?get w) = Inr existing" "archiveMatches existing (fleetArchive F p data)" for w existing
    using that answersI [of ?get w] Inr by (auto simp: ledger_archived_def)
  then show ?thesis
    unfolding cleanupFleet_def Let_def Inr
    by (auto intro!: emits_return emits_call_then emits_submit_then emits_mono [OF deleteGateways_release] simp: assms split: sum.split)
qed

lemma reconcileFleet_release:
  assumes "\<And>ks. set (fl_Range F ks) = set ks" "om_Deleting (gp_Meta p)"
  shows "emits (reconcileFleet F p) (\<lambda>_ ws. UpdateGatewayPool q \<in> set ws \<longrightarrow>
    ledger_archived F p \<and> (\<forall>name \<in> set (fleetGateways p). reported_absent F p name))"
  unfolding reconcileFleet_def
  by (auto simp: assms(2) intro!: emits_return cleanupFleet_release [OF assms(1)] split: option.split)

text \<open>
  C13. A Gateway pool is let go only after its ledger is safe.  If a reconciliation writes the pool without its
  cleanup finalizer, the pool is being deleted, an immutable archive without owner and with exactly the
  pool's UID, specification and status was read back, and every Gateway that the status names, by its
  record or by a lease, retired leases included, was reported absent.
\<close>

theorem fleetReconcile_deletion:
  assumes run: "run_state (fleetReconcile F req) s = (ans, s')"
    and got: "gk_GetGatewayPool (fl_Client F) req (world s) = (Inr p, w)"
    and laws: "finalizer_laws (fl_Lib F)" and range: "\<forall>ks. set (fl_Range F ks) = set ks"
  shows "\<exists>ws. writes s' = writes s @ ws \<and>
    (\<forall>q. UpdateGatewayPool q \<in> set ws \<longrightarrow> containsFinalizer (fl_Lib F) (om_Finalizers (gp_Meta q)) PoolCleanupFinalizer \<or>
       (om_Deleting (gp_Meta p) \<and> ledger_archived F p \<and> (\<forall>name \<in> set (fleetGateways p). reported_absent F p name)))"
proof -
  obtain ws where ws: "writes s' = writes s @ ws" and one: "one_write (fleet_write F p) ws"
    using fleetReconcile_run [OF run got] by blast
  have "containsFinalizer (fl_Lib F) (om_Finalizers (gp_Meta q)) PoolCleanupFinalizer \<or>
      (om_Deleting (gp_Meta p) \<and> ledger_archived F p \<and> (\<forall>name \<in> set (fleetGateways p). reported_absent F p name))"
    if q: "UpdateGatewayPool q \<in> set ws" for q
  proof (cases "om_Deleting (gp_Meta p)")
    case True
    have "set (fl_Range F ks) = set ks" for ks using range by blast
    from fleetReconcile_inner [OF run got reconcileFleet_release [OF this True, of q]] ws q True show ?thesis by auto
  next
    case False
    have "fleet_write F p (UpdateGatewayPool q)" using one q by (auto simp: one_write_def)
    then show ?thesis using False laws by (auto simp: finalizer_laws_def elim: fleet_write_poolE)
  qed
  with ws show ?thesis by blast
qed

text \<open>The demo pool under deletion, with its archive in place and its Gateway gone.\<close>

definition dying_fleet :: gateway_pool where
  "dying_fleet = demo_fleet\<lparr>gp_Meta := (gp_Meta demo_fleet)\<lparr>om_Deleting := True\<rparr>\<rparr>"

definition dying_controller :: "unit fleet" where
  "dying_controller = (demo_controller dying_fleet)\<lparr>fl_Client := (fl_Client (demo_controller dying_fleet))\<lparr>gk_GetConfigMap :=
     (\<lambda>k w. (Inr (fleetArchive (demo_controller dying_fleet) dying_fleet ''fleet-uid''), w))\<rparr>\<rparr>"

theorem fleetReconcile_deletion_witness:
  "\<exists>ans s' q. run_state (fleetReconcile dying_controller (''ns'', ''fleet'')) idle = (ans, s') \<and> writes s' = [UpdateGatewayPool q] \<and>
     om_Finalizers (gp_Meta q) = [] \<and> ledger_archived dying_controller dying_fleet \<and>
     reported_absent dying_controller dying_fleet (gatewayName ''fleet-uid'' 0)"
proof -
  obtain ans s' where run: "run_state (fleetReconcile dying_controller (''ns'', ''fleet'')) idle = (ans, s')" by fastforce
  have "\<exists>q. writes s' = [UpdateGatewayPool q] \<and> om_Finalizers (gp_Meta q) = []"
    using run
    by (auto simp: dying_controller_def dying_fleet_def fleet_eval demo_fleet_defs cleanupFleet_def fleetArchive_def archiveMatches_def
        same_map_def fleetGateways_def map_keys_def map_values_def is_not_found_def PoolUIDLabel_def InstallationLabel_def)
  then obtain q where q: "writes s' = [UpdateGatewayPool q]" "om_Finalizers (gp_Meta q) = []" by blast
  have got: "gk_GetGatewayPool (fl_Client dying_controller) (''ns'', ''fleet'') (world idle) = (Inr dying_fleet, ())"
    and lib: "fl_Lib dying_controller = list_lib" "fl_Range dying_controller = (\<lambda>ks. ks)" "writes idle = []"
    by (simp_all add: dying_controller_def demo_controller_def idle_def)
  have name: "gatewayName ''fleet-uid'' 0 \<in> set (fleetGateways dying_fleet)"
    by (simp add: fleetGateways_def dying_fleet_def demo_fleet_defs map_values_def map_keys_def)
  have "ledger_archived dying_controller dying_fleet \<and> (\<forall>name \<in> set (fleetGateways dying_fleet). reported_absent dying_controller dying_fleet name)"
    using fleetReconcile_deletion [OF run got, unfolded lib, OF finalizer_laws_list_lib] q by (auto simp: list_lib_def)
  with run q name show ?thesis by blast
qed

end
