(* ===== verification/Gateway_Store.thy ===== *)
theory Gateway_Store
  imports Gateway_Fleet_Properties
begin

text \<open>
  The Gateway pool controller on an API server that works.  The other theories of the controller let the
  services answer anything; here they are a store that nobody else writes to and that accepts every write made
  against the current version of an object.  What the store does with a write is its documented behaviour:
  a status update keeps everything but the status, another update keeps the status, a new object gets a UID, the
  server sets versions and fills in the defaults of the Gateway API.

  Under these hypotheses a reconciliation is a function of the contents of the store: \<open>fleetChoice\<close> is the one
  write it makes, if any.
\<close>

section \<open>The store\<close>

record fleet_store =
  fs_Pool :: gateway_pool
  fs_Others :: "gateway_pool list"
  fs_Routes :: "udp_route list"
  fs_Services :: "object_key \<Rightarrow> go_error + service"
  fs_Gateways :: "object_key \<Rightarrow> gateway option"

text \<open>The metadata that the server changes on an update.\<close>

definition reversioned :: "object_meta \<Rightarrow> object_meta \<Rightarrow> bool" where
  "reversioned m m' \<longleftrightarrow> (\<exists>v n. m' = m\<lparr>om_ResourceVersion := v, om_Generation := n\<rparr>)"

text \<open>The metadata of a new object.\<close>

definition created :: "object_meta \<Rightarrow> object_meta \<Rightarrow> bool" where
  "created m m' \<longleftrightarrow> (\<exists>u v n t. u \<noteq> '''' \<and>
     m' = m\<lparr>om_UID := u, om_ResourceVersion := v, om_Generation := n, om_CreationTimestamp := t\<rparr>)"

text \<open>The defaults of a parent reference: group and kind.\<close>

definition filled :: "parent_ref \<Rightarrow> parent_ref \<Rightarrow> bool" where
  "filled r r' \<longleftrightarrow>
     (\<exists>g k. r' = r\<lparr>pr_Group := g, pr_Kind := k\<rparr> \<and> (g = pr_Group r \<or> pr_Group r = None \<and> g = Some GroupName) \<and>
        (k = pr_Kind r \<or> pr_Kind r = None \<and> k = Some ''Gateway''))"

text \<open>A write that the server has no reason to refuse: a name that is free, or the version that is stored.\<close>

fun acceptable :: "fleet_store \<Rightarrow> gw_write \<Rightarrow> bool" where
  "acceptable c (UpdateGatewayPoolStatus q) \<longleftrightarrow> gp_Meta q = gp_Meta (fs_Pool c)"
| "acceptable c (UpdateGatewayPool q) \<longleftrightarrow>
     key_of (gp_Meta q) = key_of (gp_Meta (fs_Pool c)) \<and> om_ResourceVersion (gp_Meta q) = om_ResourceVersion (gp_Meta (fs_Pool c))"
| "acceptable c (CreateGateway g) \<longleftrightarrow> fs_Gateways c (key_of (gw_Meta g)) = None"
| "acceptable c (UpdateGateway g) \<longleftrightarrow> (\<exists>h. fs_Gateways c (key_of (gw_Meta h)) = Some h \<and> gw_Meta g = gw_Meta h)"
| "acceptable c (UpdateRoute r) \<longleftrightarrow>
     (\<exists>x \<in> set (fs_Routes c). key_of (ur_Meta r) = key_of (ur_Meta x) \<and> om_ResourceVersion (ur_Meta r) = om_ResourceVersion (ur_Meta x))"
| "acceptable c _ \<longleftrightarrow> False"

text \<open>What the store holds after it accepted a write.\<close>

inductive stored :: "gw_write \<Rightarrow> fleet_store \<Rightarrow> fleet_store \<Rightarrow> bool" where
  status: "reversioned (gp_Meta (fs_Pool c)) m \<Longrightarrow>
    stored (UpdateGatewayPoolStatus q) c (c\<lparr>fs_Pool := (fs_Pool c)\<lparr>gp_Meta := m, gp_Status := gp_Status q\<rparr>\<rparr>)"
| pool: "reversioned (gp_Meta q) m \<Longrightarrow>
    stored (UpdateGatewayPool q) c (c\<lparr>fs_Pool := (fs_Pool c)\<lparr>gp_Meta := m, gp_Spec := gp_Spec q\<rparr>\<rparr>)"
| create: "created (gw_Meta g) (gw_Meta h) \<Longrightarrow> normalizedGateway h = normalizedGateway g \<Longrightarrow>
    stored (CreateGateway g) c (c\<lparr>fs_Gateways := (fs_Gateways c)(key_of (gw_Meta g) \<mapsto> h)\<rparr>)"
| gateway: "reversioned (gw_Meta g) (gw_Meta h) \<Longrightarrow> normalizedGateway h = normalizedGateway g \<Longrightarrow>
    stored (UpdateGateway g) c (c\<lparr>fs_Gateways := (fs_Gateways c)(key_of (gw_Meta g) \<mapsto> h)\<rparr>)"
| route: "reversioned (ur_Meta r) m \<Longrightarrow> list_all2 filled (ur_ParentRefs r) refs \<Longrightarrow>
    stored (UpdateRoute r) c (c\<lparr>fs_Routes := map (\<lambda>x. if key_of (ur_Meta x) = key_of (ur_Meta r)
      then r\<lparr>ur_Meta := m, ur_ParentRefs := refs\<rparr> else x) (fs_Routes c)\<rparr>)"

inductive_cases stored_statusE: "stored (UpdateGatewayPoolStatus q) c c'"
inductive_cases stored_poolE: "stored (UpdateGatewayPool q) c c'"
inductive_cases stored_createE: "stored (CreateGateway g) c c'"
inductive_cases stored_gatewayE: "stored (UpdateGateway g) c c'"
inductive_cases stored_routeE: "stored (UpdateRoute r) c c'"

section \<open>The server\<close>

text \<open>A read answers from the contents, which it leaves alone.\<close>

definition reads :: "('w \<Rightarrow> fleet_store) \<Rightarrow> ('w \<Rightarrow> 'a \<times> 'w) \<Rightarrow> (fleet_store \<Rightarrow> 'a \<Rightarrow> bool) \<Rightarrow> bool" where
  "reads view f R \<longleftrightarrow> (\<forall>w. R (view w) (fst (f w)) \<and> view (snd (f w)) = view w)"

text \<open>A Gateway is found under its key, or not found.\<close>

definition found :: "gateway option \<Rightarrow> go_error + gateway \<Rightarrow> bool" where
  "found x r \<longleftrightarrow> (case x of Some g \<Rightarrow> r = Inr g | None \<Rightarrow> (\<exists>e. r = Inl e \<and> is_not_found e))"

definition store_api :: "'w gw_client \<Rightarrow> string \<Rightarrow> object_key \<Rightarrow> ('w \<Rightarrow> fleet_store) \<Rightarrow> bool" where
  "store_api K ns req view \<longleftrightarrow>
     reads view (gk_GetGatewayPool K req) (\<lambda>c r. r = Inr (fs_Pool c)) \<and>
     reads view (gk_ListRoutes K ns) (\<lambda>c r. r = Inr (fs_Routes c)) \<and>
     reads view (gk_ListGatewayPools K ns) (\<lambda>c r. \<exists>qs. r = Inr qs \<and> set qs = insert (fs_Pool c) (set (fs_Others c))) \<and>
     (\<forall>k. reads view (gk_GetService K k) (\<lambda>c r. r = fs_Services c k)) \<and>
     (\<forall>k. reads view (gk_GetGateway K k) (\<lambda>c r. found (fs_Gateways c k) r)) \<and>
     (\<forall>e w. acceptable (view w) e \<longrightarrow> fst (gk_Submit K e w) = None \<and> stored e (view w) (view (snd (gk_Submit K e w))))"

section \<open>Operations on the store\<close>

text \<open>
  \<open>follows view c m d\<close>: on the contents \<open>c\<close>, the operation makes the write that \<open>d\<close> names and ends the
  reconciliation, or makes none and goes on with the value of \<open>d\<close>.  \<open>ends view c m d\<close> is the same of an
  operation that ends the reconciliation anyway.
\<close>

definition stepped :: "('w \<Rightarrow> fleet_store) \<Rightarrow> fleet_store \<Rightarrow> gw_write + 'a \<Rightarrow> gw_write list \<Rightarrow> 'w gw_state \<Rightarrow> bool" where
  "stepped view c d ws s' \<longleftrightarrow> (case d of
       Inl e \<Rightarrow> writes s' = ws @ [e] \<and> stored e c (view (world s'))
     | Inr _ \<Rightarrow> writes s' = ws \<and> view (world s') = c)"

definition follows :: "('w \<Rightarrow> fleet_store) \<Rightarrow> fleet_store \<Rightarrow> ('w, answer + 'a) gw_op \<Rightarrow> gw_write + 'a \<Rightarrow> bool" where
  "follows view c m d \<longleftrightarrow> (\<forall>s. view (world s) = c \<longrightarrow>
     wp m (\<lambda>r s'. r = map_sum (\<lambda>_. again None) id d \<and> stepped view c d (writes s) s') s)"

definition ends :: "('w \<Rightarrow> fleet_store) \<Rightarrow> fleet_store \<Rightarrow> ('w, answer) gw_op \<Rightarrow> gw_write + unit \<Rightarrow> bool" where
  "ends view c m d \<longleftrightarrow> (\<forall>s. view (world s) = c \<longrightarrow> wp m (\<lambda>r s'. r = again None \<and> stepped view c d (writes s) s') s)"

lemma stepped_simps [simp]:
  "stepped view c (Inl e) ws s' \<longleftrightarrow> writes s' = ws @ [e] \<and> stored e c (view (world s'))"
  "stepped view c (Inr x) ws s' \<longleftrightarrow> writes s' = ws \<and> view (world s') = c"
  by (simp_all add: stepped_def)

lemma followsD: "follows view c m d \<Longrightarrow> view (world s) = c \<Longrightarrow>
    wp m (\<lambda>r s'. r = map_sum (\<lambda>_. again None) id d \<and> stepped view c d (writes s) s') s"
  by (simp add: follows_def)

lemma endsD: "ends view c m d \<Longrightarrow> view (world s) = c \<Longrightarrow> wp m (\<lambda>r s'. r = again None \<and> stepped view c d (writes s) s') s"
  by (simp add: ends_def)

lemma follows_return: "follows view c (State_Monad.return (Inr x)) (Inr x)"
  by (simp add: follows_def wp_rules)

lemma ends_return: "ends view c (State_Monad.return (again None)) (Inr ())"
  by (simp add: ends_def wp_rules)

lemma follows_tryM:
  assumes "follows view c m d" "\<And>x. d = Inr x \<Longrightarrow> follows view c (f x) (g x)"
  shows "follows view c (tryM m f) (case d of Inl e \<Rightarrow> Inl e | Inr x \<Rightarrow> g x)"
proof (cases d)
  case (Inl e)
  show ?thesis
    unfolding follows_def wp_tryM by (auto simp: Inl intro!: wp_mono [OF followsD [OF assms(1)]])
next
  case (Inr x)
  show ?thesis
    unfolding follows_def wp_tryM
  proof (intro allI impI, rule wp_mono [OF followsD [OF assms(1)]], assumption)
    fix s r s' assume "view (world s) = c" "r = map_sum (\<lambda>_. again None) id d \<and> stepped view c d (writes s) s'"
    with followsD [OF assms(2) [OF Inr], of s'] Inr
    show "(case r of Inl e \<Rightarrow> \<lambda>s'. Inl e = map_sum (\<lambda>_. again None) id (case d of Inl e \<Rightarrow> Inl e | Inr x \<Rightarrow> g x) \<and>
          stepped view c (case d of Inl e \<Rightarrow> Inl e | Inr x \<Rightarrow> g x) (writes s) s'
        | Inr x \<Rightarrow> wp (f x) (\<lambda>r s'. r = map_sum (\<lambda>_. again None) id (case d of Inl e \<Rightarrow> Inl e | Inr x \<Rightarrow> g x) \<and>
          stepped view c (case d of Inl e \<Rightarrow> Inl e | Inr x \<Rightarrow> g x) (writes s) s')) s'"
      by simp
  qed
qed

lemma ends_orElse:
  assumes "follows view c m d" "\<And>x. d = Inr x \<Longrightarrow> ends view c (f x) (g x)"
  shows "ends view c (orElse m f) (case d of Inl e \<Rightarrow> Inl e | Inr x \<Rightarrow> g x)"
proof (cases d)
  case (Inl e)
  show ?thesis
    unfolding ends_def orElse_def wp_bind by (auto simp: Inl wp_return intro!: wp_mono [OF followsD [OF assms(1)]])
next
  case (Inr x)
  show ?thesis
    unfolding ends_def orElse_def wp_bind
  proof (intro allI impI, rule wp_mono [OF followsD [OF assms(1)]], assumption)
    fix s r s' assume "view (world s) = c" "r = map_sum (\<lambda>_. again None) id d \<and> stepped view c d (writes s) s'"
    with endsD [OF assms(2) [OF Inr], of s'] Inr
    show "wp (case_sum State_Monad.return f r) (\<lambda>r s'. r = again None \<and> stepped view c (case d of Inl e \<Rightarrow> Inl e | Inr x \<Rightarrow> g x) (writes s) s') s'"
      by simp
  qed
qed

text \<open>What follows a read knows the answer.\<close>

lemma wp_reads:
  assumes r: "reads view f R" and c: "view (world s) = c"
    and then': "\<And>a t. R c a \<Longrightarrow> view (world t) = c \<Longrightarrow> writes t = writes s \<Longrightarrow> wp (g a) Q t"
  shows "wp (State_Monad.bind (call f) g) Q s"
proof -
  have "R c (fst (f (world s)))" "view (snd (f (world s))) = c" using r c unfolding reads_def by metis+
  then have "wp (g (fst (f (world s)))) Q (s\<lparr>world := snd (f (world s))\<rparr>)" by (rule_tac then') simp_all
  then show ?thesis by (simp add: wp_bind wp_call split_beta)
qed

lemma follows_read:
  assumes "reads view f R" "\<And>a. R c a \<Longrightarrow> follows view c (g a) d"
  shows "follows view c (State_Monad.bind (call f) g) d"
  unfolding follows_def
proof (intro allI impI, rule wp_reads [OF assms(1)], assumption)
  fix s t :: "'a gw_state" and a assume a: "R c a" "view (world t) = c" "writes t = writes s"
  show "wp (g a) (\<lambda>r s'. r = map_sum (\<lambda>_. again None) id d \<and> stepped view c d (writes s) s') t"
    using followsD [OF assms(2) [OF a(1)] a(2)] by (simp add: a(3))
qed

lemma ends_read:
  assumes "reads view f R" "\<And>a. R c a \<Longrightarrow> ends view c (g a) d"
  shows "ends view c (State_Monad.bind (call f) g) d"
  unfolding ends_def
proof (intro allI impI, rule wp_reads [OF assms(1)], assumption)
  fix s t :: "'a gw_state" and a assume a: "R c a" "view (world t) = c" "writes t = writes s"
  show "wp (g a) (\<lambda>r s'. r = again None \<and> stepped view c d (writes s) s') t"
    using endsD [OF assms(2) [OF a(1)] a(2)] by (simp add: a(3))
qed

lemma wp_submit:
  assumes "store_api K ns req view" "acceptable c e" "view (world s) = c"
  shows "wp (submit K e) (\<lambda>r s'. r = None \<and> stepped view c (Inl e) (writes s) s') s"
  using assms unfolding store_api_def submit_def wp_issue split_beta by auto

lemma ends_submit:
  assumes "store_api K ns req view" "acceptable c e"
  shows "ends view c (State_Monad.bind (submit K e) (\<lambda>x. State_Monad.return (again x))) (Inl e)"
  unfolding ends_def wp_bind
  by (auto simp: wp_return intro!: wp_mono [OF wp_submit [OF assms]])

lemma follows_submit:
  assumes "store_api K ns req view" "acceptable c e"
  shows "follows view c (State_Monad.bind (submit K e) (\<lambda>x. State_Monad.return (Inl (again x)))) (Inl e)"
  unfolding follows_def wp_bind
  by (auto simp: wp_return intro!: wp_mono [OF wp_submit [OF assms]])

lemma follows_ends:
  assumes "ends view c m (Inl e)"
  shows "follows view c (State_Monad.bind m (State_Monad.return \<circ> Inl)) (Inl e)"
  unfolding follows_def wp_bind
  by (auto simp: wp_return intro!: wp_mono [OF endsD [OF assms]])

section \<open>The choice of a reconciliation\<close>

text \<open>The target of a route, as the store has it.\<close>

definition routeTarget :: "(object_key \<Rightarrow> go_error + service) \<Rightarrow> udp_route \<Rightarrow> go_error + (service \<times> int \<times> int)" where
  "routeTarget services route =
     (case routeBackend route of Inl e \<Rightarrow> Inl e | Inr (name, port) \<Rightarrow>
       (case annotatedHealth route of Inl e \<Rightarrow> Inl e | Inr hp \<Rightarrow>
         (case services (om_Namespace (ur_Meta route), name) of Inl e \<Rightarrow> Inl e | Inr svc \<Rightarrow>
           checkRouteService (routeMode route) port hp svc)))"

definition leaseChoice :: "kube_lib \<Rightarrow> gateway_pool \<Rightarrow> udp_route \<Rightarrow> (string, string) gomap \<Rightarrow> service \<times> int \<times> int \<Rightarrow>
    gw_write + (string, string) gomap" where
  "leaseChoice L p route rejected target =
     (case target of (svc, port, hp) \<Rightarrow>
       (case map_of (fleet_leases p) (route_uid route) of
          Some a \<Rightarrow>
            (let rejected' = (if serviceChanged a route svc port hp
                 then AList.update (route_uid route) ''allocated Service UID/port or health port changed; refusing retarget'' rejected
                 else rejected)
             in if get_or '''' rejected' (route_uid route) = '''' \<and> matchesParent route a \<and> \<not> ga_Attached a
                then Inl (UpdateGatewayPoolStatus (savedPool L (put_gateway_allocation (route_uid route) (a\<lparr>ga_Attached := True\<rparr>) p) rejected'))
                else Inr rejected')
        | None \<Rightarrow>
            (case reserve p route svc port hp of
               Inl e \<Rightarrow> Inr (AList.update (route_uid route) (error_text e) rejected)
             | Inr (_, p') \<Rightarrow> Inl (UpdateGatewayPoolStatus (savedPool L p' rejected)))))"

text \<open>The routes that the pool looks at.\<close>

definition concerned :: "gateway_pool \<Rightarrow> udp_route \<Rightarrow> bool" where
  "concerned p route \<longleftrightarrow> \<not> om_Deleting (ur_Meta route) \<and>
     (annotation (ur_Meta route) PoolAnnotation = om_Name (gp_Meta p) \<or> map_of (fleet_leases p) (route_uid route) \<noteq> None)"

definition routeChoice :: "kube_lib \<Rightarrow> fleet_store \<Rightarrow> udp_route \<Rightarrow> (string, string) gomap \<Rightarrow> gw_write + (string, string) gomap" where
  "routeChoice L c route rejected =
     (let p = fs_Pool c; problem = routeProblem p (fs_Others c) route (map_of (fleet_leases p) (route_uid route))
      in if \<not> concerned p route then Inr rejected
         else if problem \<noteq> '''' then Inr (AList.update (route_uid route) problem rejected)
         else (case routeTarget (fs_Services c) route of
                 Inl e \<Rightarrow> Inr (AList.update (route_uid route) (error_text e) rejected)
               | Inr target \<Rightarrow> leaseChoice L p route rejected target))"

fun routesChoice :: "kube_lib \<Rightarrow> fleet_store \<Rightarrow> udp_route list \<Rightarrow> (string, string) gomap \<Rightarrow> gw_write + (string, string) gomap" where
  "routesChoice L c [] rejected = Inr rejected"
| "routesChoice L c (route # routes) rejected =
     (case routeChoice L c route rejected of Inl e \<Rightarrow> Inl e | Inr rejected' \<Rightarrow> routesChoice L c routes rejected')"

definition gatewayChoice :: "'w fleet \<Rightarrow> gateway_pool \<Rightarrow> (string, string) gomap \<Rightarrow> string \<Rightarrow> gateway option \<Rightarrow> gw_write + unit" where
  "gatewayChoice F p rejected name x =
     (let want = desiredGateway p name (fl_Installation F)
      in case x of
           None \<Rightarrow> Inl (CreateGateway want)
         | Some g \<Rightarrow>
             (if get_or '''' (gt_Gateways (gp_Status p)) name = ''''
              then Inl (UpdateGatewayPoolStatus (savedPool (fl_Lib F) (p\<lparr>gp_Status := (gp_Status p)\<lparr>gt_Gateways :=
                AList.update name (om_UID (gw_Meta g)) (gt_Gateways (gp_Status p))\<rparr>\<rparr>) rejected))
              else if gy_Listeners (normalizedGateway g) \<noteq> gy_Listeners (normalizedGateway want)
              then Inl (UpdateGateway (g\<lparr>gw_Spec := (gw_Spec g)\<lparr>gy_Listeners := gy_Listeners (gw_Spec want)\<rparr>\<rparr>))
              else Inr ()))"

definition gateway_key :: "gateway_pool \<Rightarrow> string \<Rightarrow> object_key" where
  "gateway_key p name = (om_Namespace (gp_Meta p), name)"

fun gatewaysChoice :: "'w fleet \<Rightarrow> fleet_store \<Rightarrow> (string, string) gomap \<Rightarrow> string list \<Rightarrow> gw_write + unit" where
  "gatewaysChoice F c rejected [] = Inr ()"
| "gatewaysChoice F c rejected (name # names) =
     (case gatewayChoice F (fs_Pool c) rejected name (fs_Gateways c (gateway_key (fs_Pool c) name)) of
        Inl e \<Rightarrow> Inl e | Inr _ \<Rightarrow> gatewaysChoice F c rejected names)"

fun attachChoice :: "kube_lib \<Rightarrow> gateway_pool \<Rightarrow> (string, string) gomap \<Rightarrow> udp_route list \<Rightarrow> gw_write + unit" where
  "attachChoice L p rejected [] = Inr ()"
| "attachChoice L p rejected (route # routes) =
     (case unattached p rejected route of
        None \<Rightarrow> attachChoice L p rejected routes
      | Some a \<Rightarrow> Inl (UpdateRoute (attachedRoute L a route)))"

definition publishChoice :: "kube_lib \<Rightarrow> gateway_pool \<Rightarrow> (string, string) gomap \<Rightarrow> gw_write + unit" where
  "publishChoice L p rejected =
     (if same_map (gt_RejectedRoutes (gp_Status p)) rejected \<or> (gt_RejectedRoutes (gp_Status p) = [] \<and> rejected = []) then Inr ()
      else Inl (UpdateGatewayPoolStatus (savedPool L p rejected)))"

abbreviation ordered_routes :: "fleet_store \<Rightarrow> udp_route list" where
  "ordered_routes c \<equiv> sort_key (\<lambda>r. om_Name (ur_Meta r)) (fs_Routes c)"

definition indexed_routes :: "'w fleet \<Rightarrow> udp_route list \<Rightarrow> udp_route list" where
  "indexed_routes F routes = List.map_filter (map_of (routesByUID routes)) (fl_Range F (map_keys (routesByUID routes)))"

definition leasesChoice :: "'w fleet \<Rightarrow> fleet_store \<Rightarrow> gw_write + unit" where
  "leasesChoice F c =
     (let p = fs_Pool c
      in case orphanedLease (ordered_routes c) (fleet_leases p) of
           Some (uid, a) \<Rightarrow> Inl (UpdateGatewayPoolStatus (savedPool (fl_Lib F)
             (put_gateway_allocation uid (a\<lparr>ga_Tombstone := True\<rparr>) p) (gt_RejectedRoutes (gp_Status p))))
         | None \<Rightarrow>
             (case routesChoice (fl_Lib F) c (ordered_routes c) [] of Inl e \<Rightarrow> Inl e | Inr rejected \<Rightarrow>
             (case gatewaysChoice F c rejected (leaseNames p) of Inl e \<Rightarrow> Inl e | Inr _ \<Rightarrow>
             (case attachChoice (fl_Lib F) p rejected (indexed_routes F (ordered_routes c)) of Inl e \<Rightarrow> Inl e | Inr _ \<Rightarrow>
               publishChoice (fl_Lib F) p rejected))))"

definition fleetChoice :: "'w fleet \<Rightarrow> fleet_store \<Rightarrow> gw_write + unit" where
  "fleetChoice F c =
     (let p = fs_Pool c
      in if \<not> containsFinalizer (fl_Lib F) (om_Finalizers (gp_Meta p)) PoolCleanupFinalizer
         then Inl (UpdateGatewayPool (p\<lparr>gp_Meta := (gp_Meta p)\<lparr>om_Finalizers :=
           addFinalizer (fl_Lib F) (om_Finalizers (gp_Meta p)) PoolCleanupFinalizer\<rparr>\<rparr>))
         else if gt_FrozenSpec (gp_Status p) = None
         then Inl (UpdateGatewayPoolStatus (savedPool (fl_Lib F) (p\<lparr>gp_Status := (gp_Status p)\<lparr>gt_FrozenSpec := Some (gp_Spec p)\<rparr>\<rparr>) []))
         else leasesChoice F c)"

section \<open>What the choice rests on\<close>

text \<open>The specification is valid, frozen or about to be, and the pool is in the scope of the controller and in use.\<close>

definition fleet_in_use :: "'w fleet \<Rightarrow> gateway_pool \<Rightarrow> bool" where
  "fleet_in_use F p \<longleftrightarrow>
     Validate (gp_Spec p) = None \<and> fl_Installation F \<noteq> '''' \<and> fl_ClassName F \<noteq> '''' \<and>
     gs_GatewayClassName (gp_Spec p) = fl_ClassName F \<and>
     (gt_FrozenSpec (gp_Status p) = None \<or> gt_FrozenSpec (gp_Status p) = Some (gp_Spec p)) \<and> \<not> om_Deleting (gp_Meta p)"

text \<open>A generated Gateway that nobody else changed: its listeners are listeners of leases of its shard.\<close>

definition untouched :: "'w fleet \<Rightarrow> gateway_pool \<Rightarrow> string \<Rightarrow> gateway \<Rightarrow> bool" where
  "untouched F p name g \<longleftrightarrow>
     ownedGateway (fl_Lib F) p g (fl_Installation F) = None \<and> om_Name (gw_Meta g) = name \<and> \<not> om_Deleting (gw_Meta g) \<and>
     om_UID (gw_Meta g) \<noteq> '''' \<and>
     annotation (gw_Meta g) WorkersAnnotation = annotation (gw_Meta (desiredGateway p name (fl_Installation F))) WorkersAnnotation \<and>
     (normalizedGateway g)\<lparr>gy_Listeners := []\<rparr> = (normalizedGateway (desiredGateway p name (fl_Installation F)))\<lparr>gy_Listeners := []\<rparr> \<and>
     set (gy_Listeners (normalizedGateway g)) \<subseteq> leaseListener ` {a \<in> snd ` set (fleet_leases p). ga_GatewayName a = name}"

text \<open>A recorded Gateway is there; one that is there is untouched.\<close>

definition shard_intact :: "'w fleet \<Rightarrow> gateway_pool \<Rightarrow> string \<Rightarrow> gateway option \<Rightarrow> bool" where
  "shard_intact F p name x \<longleftrightarrow>
     (case x of None \<Rightarrow> get_or '''' (gt_Gateways (gp_Status p)) name = '''' | Some g \<Rightarrow> untouched F p name g)"


section \<open>Maps built from a list\<close>

lemma map_of_fold_update:
  "map_of (fold (\<lambda>x m. AList.update (f x) x m) xs m) k = (case find (\<lambda>x. f x = k) (rev xs) of None \<Rightarrow> map_of m k | Some x \<Rightarrow> Some x)"
  by (induction xs arbitrary: m) (auto simp: find_append gomap_simps split: option.split)

lemma map_of_fold_update_inj:
  assumes "inj_on f (set xs)" "x \<in> set xs"
  shows "map_of (fold (\<lambda>x m. AList.update (f x) x m) xs []) (f x) = Some x"
proof -
  obtain y where y: "find (\<lambda>y. f y = f x) (rev xs) = Some y"
    using assms(2) by (cases "find (\<lambda>y. f y = f x) (rev xs)") (auto simp: find_None_iff)
  then have "y \<in> set xs" "f y = f x" by (auto simp: find_Some_iff) (metis nth_mem set_rev length_rev)
  with assms have "y = x" by (auto dest: inj_onD)
  with y show ?thesis by (simp add: map_of_fold_update)
qed

lemma map_of_routesByUID: "map_of (routesByUID routes) uid = find (\<lambda>r. route_uid r = uid) (rev routes)"
  by (simp add: routesByUID_def map_of_fold_update split: option.split)

lemma routesByUID_None: "map_of (routesByUID routes) uid = None \<longleftrightarrow> uid \<notin> route_uid ` set routes"
  by (auto simp: map_of_routesByUID find_None_iff)

lemma routesByUID_Some: "map_of (routesByUID routes) uid = Some r \<Longrightarrow> r \<in> set routes \<and> route_uid r = uid"
  unfolding map_of_routesByUID by (auto simp: find_Some_iff) (metis nth_mem set_rev length_rev)

lemma routesByUID_inj: "inj_on route_uid (set routes) \<Longrightarrow> r \<in> set routes \<Longrightarrow> map_of (routesByUID routes) (route_uid r) = Some r"
  unfolding routesByUID_def by (rule map_of_fold_update_inj)

lemma set_map_filter: "set (List.map_filter f xs) = {y. \<exists>x \<in> set xs. f x = Some y}"
  by (induction xs) (auto simp: List.map_filter_simps split: option.split)

lemma indexed_routes_subset: "set (indexed_routes F routes) \<subseteq> set routes"
  by (auto simp: indexed_routes_def set_map_filter dest: routesByUID_Some)

lemma indexed_routes_all:
  assumes "\<And>ks. set (fl_Range F ks) = set ks" "inj_on route_uid (set routes)"
  shows "set (indexed_routes F routes) = set routes"
proof -
  have "route_uid r \<in> set (map_keys (routesByUID routes))" if "r \<in> set routes" for r
    using routesByUID_inj [OF assms(2) that] by (simp flip: has_key_map_keys add: has_key_def)
  with routesByUID_inj [OF assms(2)] have "set routes \<subseteq> set (indexed_routes F routes)"
    by (fastforce simp: indexed_routes_def set_map_filter assms(1))
  with indexed_routes_subset [of F routes] show ?thesis by blast
qed

section \<open>An untouched Gateway is accepted\<close>

lemma normalize_leaseListener [simp]: "normalizeListener (leaseListener a) = leaseListener a"
  by (simp add: normalizeListener_def leaseListener_def normalizeRoutes_def)

lemma leaseListener_flags [simp]:
  "leaseListener (a\<lparr>ga_Tombstone := b\<rparr>) = leaseListener a" "leaseListener (a\<lparr>ga_Attached := b\<rparr>) = leaseListener a"
  by (simp_all add: leaseListener_def)

lemma normalized_desired: "gy_Listeners (normalizedGateway (desiredGateway p name inst)) = desiredListeners (fleet_leases p) name"
  by (simp add: normalizedGateway_def Let_def desiredListeners_chosen)

text \<open>The leases of a shard, and what their listeners are called.\<close>

definition shard_leases :: "gateway_pool \<Rightarrow> string \<Rightarrow> gateway_allocation set" where
  "shard_leases p name = {a \<in> snd ` set (fleet_leases p). ga_GatewayName a = name}"

lemma shard_listener_names:
  assumes "fleet_ok p" "route_hashes_distinct p" "a \<in> shard_leases p name" "b \<in> shard_leases p name" "ga_ListenerName a = ga_ListenerName b"
  shows "a = b"
proof -
  obtain u v where m: "(u, a) \<in> set (fleet_leases p)" "(v, b) \<in> set (fleet_leases p)"
    using assms(3,4) by (auto simp: shard_leases_def)
  then have "sha_hex12 u = sha_hex12 v"
    using assms(5) fleet_ok_lease(1) [OF assms(1) m(1)] fleet_ok_lease(1) [OF assms(1) m(2)]
    by (simp add: lease_named_def listenerName_def)
  with m assms(2) have "u = v" by (force simp: route_hashes_distinct_def dest: inj_onD)
  with m fleet_ok_parts(3) [OF assms(1)] show ?thesis by (simp add: wf_map_map_of)
qed

definition revived_leases :: "gateway_pool \<Rightarrow> string \<Rightarrow> (string, gateway_allocation) gomap" where
  "revived_leases p name = map (\<lambda>(uid, a). (uid, if ga_GatewayName a = name \<and> ga_Tombstone a then a\<lparr>ga_Tombstone := False\<rparr> else a)) (fleet_leases p)"

lemma retired_listeners:
  "retiredGatewayListeners p name =
     filter (\<lambda>l. \<exists>a \<in> shard_leases p name. ga_Tombstone a \<and> gl_Name l = ga_ListenerName a) (map leaseListener (chosen (revived_leases p name) name))"
proof (unfold retiredGatewayListeners_def Let_def revived_leases_def desiredListeners_chosen, rule filter_cong [OF refl], goal_cases)
  case (1 l)
  show ?case by (auto simp: shard_leases_def map_values_def)
qed

lemma chosen_revived:
  assumes "a \<in> shard_leases p name" "ga_Tombstone a"
  shows "leaseListener a \<in> leaseListener ` set (chosen (revived_leases p name) name)"
proof -
  obtain uid where "(uid, a) \<in> set (fleet_leases p)" "ga_GatewayName a = name" using assms(1) by (auto simp: shard_leases_def)
  then have "a\<lparr>ga_Tombstone := False\<rparr> \<in> snd ` set (revived_leases p name)"
    using assms(2) by (force simp: revived_leases_def)
  from chosen_live [OF this] have "a\<lparr>ga_Tombstone := False\<rparr> \<in> set (chosen (revived_leases p name) name)"
    using assms by (simp add: shard_leases_def)
  then have "leaseListener (a\<lparr>ga_Tombstone := False\<rparr>) \<in> leaseListener ` set (chosen (revived_leases p name) name)" by (rule imageI)
  then show ?thesis by simp
qed

lemma chosen_revived_lease:
  assumes "b \<in> set (chosen (revived_leases p name) name)"
  shows "leaseListener b \<in> leaseListener ` shard_leases p name"
proof -
  have "b \<in> snd ` set (revived_leases p name)" "ga_GatewayName b = name" using chosen_set [OF assms] by blast+
  then obtain uid a where a: "(uid, a) \<in> set (fleet_leases p)"
    and b: "b = (if ga_GatewayName a = name \<and> ga_Tombstone a then a\<lparr>ga_Tombstone := False\<rparr> else a)"
    by (auto simp: revived_leases_def)
  have "ga_GatewayName a = name" using \<open>ga_GatewayName b = name\<close> b by (simp split: if_splits)
  moreover have "a \<in> snd ` set (fleet_leases p)" using a by force
  ultimately have "a \<in> shard_leases p name" by (simp add: shard_leases_def)
  moreover have "leaseListener b = leaseListener a" by (simp add: b)
  ultimately show ?thesis by blast
qed

lemma accepted_listeners:
  "set (gy_Listeners (normalizedGateway (desiredGateway p name inst)) @ retiredGatewayListeners p name) = leaseListener ` shard_leases p name"
  (is "?A = ?B")
proof
  show "?A \<subseteq> ?B"
    using chosen_set [of _ "fleet_leases p" name] chosen_revived_lease [of _ p name]
    by (auto simp: normalized_desired desiredListeners_chosen retired_listeners shard_leases_def)
  have "leaseListener a \<in> ?A" if a: "a \<in> shard_leases p name" for a
  proof (cases "ga_Tombstone a")
    case True
    then show ?thesis using chosen_revived [OF a] a by (auto simp: retired_listeners) (auto simp: leaseListener_def)
  next
    case False
    then show ?thesis using chosen_live [of a "fleet_leases p"] a
      by (auto simp: normalized_desired desiredListeners_chosen shard_leases_def)
  qed
  then show "?B \<subseteq> ?A" by blast
qed

lemma untouched_compatible:
  assumes "untouched F p name g" "fleet_ok p" "route_hashes_distinct p"
  shows "compatibleGateway g (desiredGateway p name (fl_Installation F)) (retiredGatewayListeners p name)"
proof -
  let ?want = "gy_Listeners (normalizedGateway (desiredGateway p name (fl_Installation F))) @ retiredGatewayListeners p name"
  have "inj_on gl_Name (leaseListener ` shard_leases p name)"
    using shard_listener_names [OF assms(2,3)] by (auto simp: inj_on_def) (metis gw_listener.select_convs(1) leaseListener_def)
  then have inj: "inj_on gl_Name (set ?want)" by (simp only: accepted_listeners)
  have "list_all (\<lambda>l. map_of (fold (\<lambda>l m. AList.update (gl_Name l) l m) ?want []) (gl_Name l) = Some l) (gy_Listeners (normalizedGateway g))"
    unfolding list_all_iff
  proof
    fix l assume "l \<in> set (gy_Listeners (normalizedGateway g))"
    then have "l \<in> set ?want" using assms(1) unfolding accepted_listeners by (auto simp: untouched_def shard_leases_def)
    then show "map_of (fold (\<lambda>l m. AList.update (gl_Name l) l m) ?want []) (gl_Name l) = Some l" by (rule map_of_fold_update_inj [OF inj])
  qed
  with assms(1) show ?thesis by (simp add: compatibleGateway_def untouched_def)
qed


section \<open>A reconciliation follows its choice\<close>

lemma follows_routeService:
  assumes "store_api (fl_Client F) ns req view" "follows view c (g (routeTarget (fs_Services c) route)) d"
  shows "follows view c (State_Monad.bind (routeService F route) g) d"
proof (cases "routeBackend route")
  case (Inl e)
  with assms(2) show ?thesis by (simp add: routeService_def routeTarget_def)
next
  case (Inr np)
  obtain name port where np: "np = (name, port)" by (cases np)
  show ?thesis
  proof (cases "annotatedHealth route")
    case (Inl e)
    with assms(2) Inr np show ?thesis by (simp add: routeService_def routeTarget_def)
  next
    case hp: (Inr hp)
    have "reads view (gk_GetService (fl_Client F) (om_Namespace (ur_Meta route), name))
        (\<lambda>c r. r = fs_Services c (om_Namespace (ur_Meta route), name))"
      using assms(1) by (simp add: store_api_def)
    then show ?thesis
      unfolding routeService_def tryM_def Inr np hp sum.case prod.case bind_assoc
      by (rule follows_read) (use assms(2) Inr np hp in \<open>auto simp: routeTarget_def split: sum.splits\<close>)
  qed
qed

lemma ends_saveFleet:
  assumes "store_api (fl_Client F) ns req view" "gp_Meta q = gp_Meta (fs_Pool c)"
  shows "ends view c (saveFleet F q rejected) (Inl (UpdateGatewayPoolStatus (savedPool (fl_Lib F) q rejected)))"
  unfolding saveFleet_def by (rule ends_submit [OF assms(1)]) (simp add: assms(2))

lemma follows_leaseRoute:
  assumes "store_api (fl_Client F) ns req view"
  shows "follows view c (leaseRoute F (fs_Pool c) route rejected target) (leaseChoice (fl_Lib F) (fs_Pool c) route rejected target)"
proof -
  obtain svc port hp where t: "target = (svc, port, hp)" by (cases target)
  show ?thesis
    by (auto simp: leaseRoute_def leaseChoice_def t Let_def intro!: follows_return follows_ends ends_saveFleet [OF assms]
        dest: reserve_frame(2) split: option.split sum.split prod.split)
qed

lemma routeBackend_error: "routeBackend route = Inl e \<Longrightarrow> as_validation e"
  by (auto simp: routeBackend_def split: if_splits list.splits option.splits)

lemma annotatedHealth_error: "annotatedHealth route = Inl e \<Longrightarrow> as_validation e"
  by (auto simp: annotatedHealth_def Let_def split: if_splits option.splits)

lemma checkRouteService_error: "checkRouteService mode port hp svc = Inl e \<Longrightarrow> as_validation e"
  by (auto simp: checkRouteService_def healthError_def Let_def split: if_splits option.splits)

lemma routeTarget_error:
  assumes "routeTarget services route = Inl e" "\<And>k e. services k = Inl e \<Longrightarrow> is_not_found e"
  shows "is_not_found e \<or> as_validation e"
  using assms by (auto simp: routeTarget_def split: sum.splits prod.splits dest: routeBackend_error annotatedHealth_error checkRouteService_error)

lemma leasedByOther_listed: "set qs = insert p (set others) \<Longrightarrow> leasedByOther p qs uid = leasedByOther p others uid"
  by (simp add: leasedByOther_def list_ex_iff)

lemma follows_considerRoute:
  assumes "store_api (fl_Client F) ns req view" "set qs = insert (fs_Pool c) (set (fs_Others c))"
    "\<And>k e. fs_Services c k = Inl e \<Longrightarrow> is_not_found e"
  shows "follows view c (considerRoute F (fs_Pool c) qs route rejected) (routeChoice (fl_Lib F) c route rejected)"
proof -
  have problem: "routeProblem (fs_Pool c) qs route lease = routeProblem (fs_Pool c) (fs_Others c) route lease" for lease
    by (simp add: routeProblem_def leasedByOther_listed [OF assms(2)])
  have err: "is_not_found e \<or> as_validation e" if "routeTarget (fs_Services c) route = Inl e" for e
    using routeTarget_error [OF that assms(3)] .
  show ?thesis
    unfolding considerRoute_def routeChoice_def Let_def problem concerned_def
    by (auto intro!: follows_return follows_routeService [OF assms(1)] follows_leaseRoute [OF assms(1)] split: sum.split dest: err)
qed

lemma follows_considerRoutes:
  assumes "store_api (fl_Client F) ns req view" "set qs = insert (fs_Pool c) (set (fs_Others c))"
    "\<And>k e. fs_Services c k = Inl e \<Longrightarrow> is_not_found e"
  shows "follows view c (considerRoutes F (fs_Pool c) qs routes rejected) (routesChoice (fl_Lib F) c routes rejected)"
  by (induction routes arbitrary: rejected) (auto intro!: follows_return follows_tryM follows_considerRoute assms)

lemma follows_ensureGateway:
  assumes api: "store_api (fl_Client F) ns req view" and intact: "shard_intact F (fs_Pool c) name (fs_Gateways c (gateway_key (fs_Pool c) name))"
    and ok: "fleet_ok (fs_Pool c)" "route_hashes_distinct (fs_Pool c)"
  shows "follows view c (ensureGateway F (fs_Pool c) rejected name)
    (gatewayChoice F (fs_Pool c) rejected name (fs_Gateways c (gateway_key (fs_Pool c) name)))"
proof -
  let ?p = "fs_Pool c" and ?x = "fs_Gateways c (gateway_key (fs_Pool c) name)"
  have key: "key_of (gw_Meta (desiredGateway ?p name (fl_Installation F))) = gateway_key ?p name"
    by (simp add: key_of_def desiredGateway_def gateway_key_def)
  have get: "reads view (gk_GetGateway (fl_Client F) (gateway_key ?p name)) (\<lambda>c r. found (fs_Gateways c (gateway_key ?p name)) r)"
    using api unfolding store_api_def by blast
  show ?thesis
    unfolding ensureGateway_def Let_def key
  proof (rule follows_read [OF get])
    fix r assume r: "found ?x r"
    show "follows view c (case r of Inr actual \<Rightarrow> checkGateway F ?p rejected name actual
        | Inl e \<Rightarrow> if \<not> is_not_found e then State_Monad.return (Inl (again (Some e)))
            else if get_or '''' (gt_Gateways (gp_Status ?p)) name \<noteq> ''''
            then State_Monad.return (Inl (again (Some (Errorf (''recorded Gateway disappeared; refusing silent VIP replacement: '' @ name)))))
            else do { x \<leftarrow> submit (fl_Client F) (CreateGateway (desiredGateway ?p name (fl_Installation F))); State_Monad.return (Inl (again x)) })
        (gatewayChoice F ?p rejected name ?x)"
    proof (cases ?x)
      case None
      with r intact show ?thesis
        by (auto simp: found_def shard_intact_def gatewayChoice_def key intro!: follows_submit [OF api])
    next
      case (Some g)
      with intact have g: "untouched F ?p name g" by (simp add: shard_intact_def)
      then have owned: "ownedGateway (fl_Lib F) ?p g (fl_Installation F) = None" "\<not> om_Deleting (gw_Meta g)" "om_UID (gw_Meta g) \<noteq> ''''"
        and "key_of (gw_Meta g) = gateway_key ?p name"
        by (auto simp: untouched_def key_of_def gateway_key_def ownedGateway_def Let_def split: if_splits)
      with Some have here: "fs_Gateways c (key_of (gw_Meta g)) = Some g" by simp
      show ?thesis
        using r owned untouched_compatible [OF g ok]
        by (auto simp: Some found_def checkGateway_def gatewayChoice_def Let_def intro!: follows_return follows_ends ends_saveFleet [OF api]
            follows_submit [OF api] exI [of _ g] here)
    qed
  qed
qed

lemma follows_ensureGateways:
  assumes api: "store_api (fl_Client F) ns req view"
    and intact: "\<And>name. name \<in> set names \<Longrightarrow> shard_intact F (fs_Pool c) name (fs_Gateways c (gateway_key (fs_Pool c) name))"
    and ok: "fleet_ok (fs_Pool c)" "route_hashes_distinct (fs_Pool c)"
  shows "follows view c (ensureGateways F (fs_Pool c) rejected names) (gatewaysChoice F c rejected names)"
  using intact by (induction names) (auto intro!: follows_return follows_tryM follows_ensureGateway api ok)

lemma follows_attachRoutes:
  assumes "store_api (fl_Client F) ns req view" "set routes \<subseteq> set (fs_Routes c)"
  shows "follows view c (attachRoutes F (fs_Pool c) rejected routes) (attachChoice (fl_Lib F) (fs_Pool c) rejected routes)"
  using assms(2)
proof (induction routes)
  case (Cons route routes)
  have "acceptable c (UpdateRoute (attachedRoute (fl_Lib F) a route))" for a
    using Cons.prems by (auto simp: attachedRoute_def key_of_def intro!: bexI [of _ route])
  with Cons show ?case by (auto intro!: follows_submit [OF assms(1)] split: option.split)
qed (simp add: follows_return)

lemma ends_publishRejected:
  assumes "store_api (fl_Client F) ns req view"
  shows "ends view c (publishRejected F (fs_Pool c) rejected) (publishChoice (fl_Lib F) (fs_Pool c) rejected)"
  by (auto simp: publishRejected_def publishChoice_def Let_def intro!: ends_return ends_saveFleet [OF assms])


text \<open>
  A store in which the controller can do its work: the pool is in use and its ledger sound, API objects have
  unique identities, the hash in the listener names does not collide, the only error of a Service is that it
  does not exist, and the Gateways of the pool's shards are not interfered with.
\<close>

definition orderly :: "'w fleet \<Rightarrow> fleet_store \<Rightarrow> bool" where
  "orderly F c \<longleftrightarrow>
     fleet_safe (fs_Pool c) \<and> fleet_in_use F (fs_Pool c) \<and> wf_map (gt_RejectedRoutes (gp_Status (fs_Pool c))) \<and>
     distinct (map route_uid (fs_Routes c)) \<and> distinct (map (key_of \<circ> ur_Meta) (fs_Routes c)) \<and>
     inj_on sha_hex12 (fst ` set (fleet_leases (fs_Pool c)) \<union> route_uid ` set (fs_Routes c)) \<and>
     (\<forall>k e. fs_Services c k = Inl e \<longrightarrow> is_not_found e) \<and>
     (\<forall>n. shard_intact F (fs_Pool c) (gatewayName (fleet_uid (fs_Pool c)) n)
        (fs_Gateways c (gateway_key (fs_Pool c) (gatewayName (fleet_uid (fs_Pool c)) n))))"

lemma orderly_fleet_ok:
  assumes "orderly F c" "gt_FrozenSpec (gp_Status (fs_Pool c)) \<noteq> None"
  shows "gt_FrozenSpec (gp_Status (fs_Pool c)) = Some (gp_Spec (fs_Pool c))" "fleet_ok (fs_Pool c)" "route_hashes_distinct (fs_Pool c)"
proof -
  show f: "gt_FrozenSpec (gp_Status (fs_Pool c)) = Some (gp_Spec (fs_Pool c))" using assms by (auto simp: orderly_def fleet_in_use_def)
  show "fleet_ok (fs_Pool c)" by (rule fleet_safe_frozen(1) [OF _ f]) (use assms(1) in \<open>simp add: orderly_def\<close>)
  show "route_hashes_distinct (fs_Pool c)" using assms(1) by (auto simp: orderly_def route_hashes_distinct_def intro: inj_on_subset)
qed

lemma orderly_intact:
  assumes "orderly F c" "fleet_ok (fs_Pool c)" "name \<in> ga_GatewayName ` snd ` set (fleet_leases (fs_Pool c))"
  shows "shard_intact F (fs_Pool c) name (fs_Gateways c (gateway_key (fs_Pool c) name))"
proof -
  obtain a where "a \<in> snd ` set (fleet_leases (fs_Pool c))" "name = ga_GatewayName a" using assms(3) by blast
  with fleet_ok_port(6) [OF assms(2)] assms(1) show ?thesis by (simp add: orderly_def)
qed

lemma set_leaseNames: "set (leaseNames p) = ga_GatewayName ` snd ` set (fleet_leases p)"
  by (auto simp: leaseNames_def map_values_def)

lemma ends_reconcileRoutes:
  assumes api: "store_api (fl_Client F) ns req view" and c: "orderly F c" and frozen: "gt_FrozenSpec (gp_Status (fs_Pool c)) \<noteq> None"
    and qs: "set qs = insert (fs_Pool c) (set (fs_Others c))"
  shows "ends view c (reconcileRoutes F (fs_Pool c) (fs_Routes c) qs) (leasesChoice F c)"
proof -
  note ok = orderly_fleet_ok [OF c frozen]
  have svc: "fs_Services c k = Inl e \<Longrightarrow> is_not_found e" for k e using c unfolding orderly_def by blast
  have intact: "shard_intact F (fs_Pool c) name (fs_Gateways c (gateway_key (fs_Pool c) name))" if "name \<in> set (leaseNames (fs_Pool c))" for name
    using orderly_intact [OF c ok(2)] that unfolding set_leaseNames .
  have sub: "set (indexed_routes F (ordered_routes c)) \<subseteq> set (fs_Routes c)" using indexed_routes_subset [of F "ordered_routes c"] by simp
  show ?thesis
  proof (cases "orphanedLease (ordered_routes c) (fleet_leases (fs_Pool c))")
    case None
    show ?thesis
      unfolding reconcileRoutes_def leasesChoice_def Let_def None option.case indexed_routes_def [symmetric]
      by (intro ends_orElse follows_considerRoutes [OF api qs svc] follows_ensureGateways [OF api intact ok(2,3)]
          follows_attachRoutes [OF api sub] ends_publishRejected [OF api])
  next
    case (Some x)
    obtain uid a where x: "x = (uid, a)" by (cases x)
    show ?thesis
      unfolding reconcileRoutes_def leasesChoice_def Let_def Some x option.case prod.case by (rule ends_saveFleet [OF api]) simp
  qed
qed

text \<open>On an orderly store, a reconciliation is the choice: its write, if there is one, and no error.\<close>

lemma ends_fleetReconcile:
  assumes api: "store_api (fl_Client F) (fl_Namespace F) req view" and c: "orderly F c" and req: "fst req = fl_Namespace F"
  shows "ends view c (fleetReconcile F req) (fleetChoice F c)"
proof -
  let ?p = "fs_Pool c" and ?K = "fl_Client F"
  have reads: "reads view (gk_GetGatewayPool ?K req) (\<lambda>c r. r = Inr (fs_Pool c))"
    "reads view (gk_ListRoutes ?K (fl_Namespace F)) (\<lambda>c r. r = Inr (fs_Routes c))"
    "reads view (gk_ListGatewayPools ?K (fl_Namespace F)) (\<lambda>c r. \<exists>qs. r = Inr qs \<and> set qs = insert (fs_Pool c) (set (fs_Others c)))"
    using api by (simp_all add: store_api_def)
  have use: "Validate (gp_Spec ?p) = None" "fl_Installation F \<noteq> ''''" "fl_ClassName F \<noteq> ''''"
    "gs_GatewayClassName (gp_Spec ?p) = fl_ClassName F" "\<not> om_Deleting (gp_Meta ?p)"
    "gt_FrozenSpec (gp_Status ?p) = None \<or> gt_FrozenSpec (gp_Status ?p) = Some (gp_Spec ?p)"
    using c by (simp_all add: orderly_def fleet_in_use_def)
  have "ends view c (reconcileFleet F ?p) (fleetChoice F c)"
  proof (cases "containsFinalizer (fl_Lib F) (om_Finalizers (gp_Meta ?p)) PoolCleanupFinalizer \<and> gt_FrozenSpec (gp_Status ?p) \<noteq> None")
    case False
    with use show ?thesis
      by (auto simp: reconcileFleet_def fleetChoice_def Let_def key_of_def intro!: ends_submit [OF api] ends_saveFleet [OF api])
  next
    case True
    then have frozen: "gt_FrozenSpec (gp_Status ?p) \<noteq> None" by simp
    have "ends view c (do {
          r \<leftarrow> call (gk_ListRoutes ?K (fl_Namespace F));
          case r of Inl e \<Rightarrow> State_Monad.return (again (Some e)) | Inr routes \<Rightarrow> do {
            q \<leftarrow> call (gk_ListGatewayPools ?K (fl_Namespace F));
            case q of Inl e \<Rightarrow> State_Monad.return (again (Some e)) | Inr others \<Rightarrow> reconcileRoutes F ?p routes others
          }
        }) (leasesChoice F c)"
      by (auto intro!: ends_read [OF reads(2)] ends_read [OF reads(3)] ends_reconcileRoutes [OF api c frozen])
    with True use show ?thesis by (auto simp: reconcileFleet_def fleetChoice_def Let_def)
  qed
  with req show ?thesis by (auto simp: fleetReconcile_def intro!: ends_read [OF reads(1)])
qed

end
