(* ===== verification/Gateway_Settles.thy ===== *)
theory Gateway_Settles
  imports Gateway_Store Settling
begin

text \<open>
  The Gateway pool controller converges.  Every reconciliation makes at most one write, so a pool with many
  routes needs many of them; on a working API server the number is bounded by the work that is left, and
  afterwards a reconciliation writes nothing and every route of the pool is served or its rejection published.

  \<open>fleet_work\<close> counts the writes still to make, with a weight for those that cause others: a reservation
  brings a listener or a whole Gateway, a parent reference and its confirmation; a retirement a change of listeners.
\<close>

section \<open>The work that is left\<close>

definition orphans :: "udp_route list \<Rightarrow> (string, gateway_allocation) gomap \<Rightarrow> nat" where
  "orphans routes m = length (filter (\<lambda>(uid, a). uid \<notin> route_uid ` set routes \<and> \<not> ga_Tombstone a) m)"

definition unleased :: "udp_route list \<Rightarrow> (string, gateway_allocation) gomap \<Rightarrow> nat" where
  "unleased routes m = length (filter (\<lambda>r. map_of m (route_uid r) = None) routes)"

definition unconfirmed :: "(string, gateway_allocation) gomap \<Rightarrow> nat" where
  "unconfirmed m = length (filter (\<lambda>(uid, a). \<not> ga_Attached a) m)"

definition parentless :: "udp_route list \<Rightarrow> nat" where
  "parentless routes = length (filter (\<lambda>r. ur_ParentRefs r = []) routes)"

text \<open>A Gateway to create and record, to record, or to give other listeners.\<close>

definition shard_work :: "gateway_pool \<Rightarrow> string \<Rightarrow> gateway option \<Rightarrow> nat" where
  "shard_work p name x =
     (case x of None \<Rightarrow> 2
      | Some g \<Rightarrow> (if get_or '''' (gt_Gateways (gp_Status p)) name = '''' then 1 else 0) +
          (if gy_Listeners (normalizedGateway g) \<noteq> desiredListeners (fleet_leases p) name then 1 else 0))"

definition shard_names :: "gateway_pool \<Rightarrow> string set" where
  "shard_names p = ga_GatewayName ` snd ` set (fleet_leases p)"

definition shards_work :: "fleet_store \<Rightarrow> nat" where
  "shards_work c = (\<Sum>n \<in> shard_names (fs_Pool c). shard_work (fs_Pool c) n (fs_Gateways c (gateway_key (fs_Pool c) n)))"

definition fleet_work :: "'w fleet \<Rightarrow> fleet_store \<Rightarrow> nat" where
  "fleet_work F c =
     (let p = fs_Pool c; m = fleet_leases p
      in (if containsFinalizer (fl_Lib F) (om_Finalizers (gp_Meta p)) PoolCleanupFinalizer then 0 else 1) +
         (if gt_FrozenSpec (gp_Status p) = None then 1 else 0) +
         3 * orphans (fs_Routes c) m + 4 * unleased (fs_Routes c) m + unconfirmed m + parentless (fs_Routes c) + shards_work c)"

lemma finite_shard_names [simp]: "finite (shard_names p)"
  by (simp add: shard_names_def)

lemma shard_work_le: "shard_work p name x \<le> 2"
  by (simp add: shard_work_def split: option.split)

lemma shard_work_same:
  "desiredListeners (fleet_leases q) n = desiredListeners (fleet_leases p) n \<Longrightarrow>
   get_or '''' (gt_Gateways (gp_Status q)) n = get_or '''' (gt_Gateways (gp_Status p)) n \<Longrightarrow> shard_work q n x = shard_work p n x"
  by (cases x) (simp_all add: shard_work_def)

lemma shards_work_cong:
  assumes "shard_names (fs_Pool c') = shard_names (fs_Pool c)"
    and "\<And>n. desiredListeners (fleet_leases (fs_Pool c')) n = desiredListeners (fleet_leases (fs_Pool c)) n"
    and "gt_Gateways (gp_Status (fs_Pool c')) = gt_Gateways (gp_Status (fs_Pool c))"
    and "\<And>n. fs_Gateways c' (gateway_key (fs_Pool c') n) = fs_Gateways c (gateway_key (fs_Pool c) n)"
  shows "shards_work c' = shards_work c"
  unfolding shards_work_def shard_work_def assms ..

section \<open>The listeners of a changed ledger\<close>

lemma desiredListeners_same_values:
  assumes "map (\<lambda>a. (ga_GatewayName a, ga_Tombstone a, leaseListener a)) (map_values m) =
    map (\<lambda>a. (ga_GatewayName a, ga_Tombstone a, leaseListener a)) (map_values m')"
  shows "desiredListeners m name = desiredListeners m' name"
proof -
  have obs: "map leaseListener (filter (\<lambda>a. P (ga_Tombstone a)) (filter (\<lambda>a. ga_GatewayName a = name) vs)) =
      map (snd \<circ> snd) (filter (\<lambda>(n, t, l). n = name \<and> P t) (map (\<lambda>a. (ga_GatewayName a, ga_Tombstone a, leaseListener a)) vs))"
    for P and vs :: "gateway_allocation list" by (induction vs) auto
  show ?thesis
    unfolding desiredListeners_def Let_def obs [of "\<lambda>t. \<not> t"] obs [of "\<lambda>t. t"] assms ..
qed

lemma desiredListeners_here:
  assumes "filter (\<lambda>a. ga_GatewayName a = name) (map_values m) = filter (\<lambda>a. ga_GatewayName a = name) (map_values m')"
  shows "desiredListeners m name = desiredListeners m' name"
  by (simp only: desiredListeners_def assms)

lemma desiredListeners_flag:
  assumes "map_of m uid = Some a"
  shows "desiredListeners (AList.update uid (a\<lparr>ga_Attached := True\<rparr>) m) name = desiredListeners m name"
  using assms by (intro desiredListeners_same_values) (induction m, auto simp: map_values_def split: if_splits)

lemma desiredListeners_elsewhere:
  assumes "map_of m uid = Some a" "ga_GatewayName a \<noteq> name"
  shows "desiredListeners (AList.update uid (a\<lparr>ga_Tombstone := True\<rparr>) m) name = desiredListeners m name"
  using assms by (intro desiredListeners_here) (induction m, auto simp: map_values_def split: if_splits)

lemma desiredListeners_snoc:
  assumes "ga_GatewayName a \<noteq> name"
  shows "desiredListeners (m @ [(uid, a)]) name = desiredListeners m name"
  using assms by (intro desiredListeners_here) (simp add: map_values_def)

section \<open>Keeping the store orderly\<close>

lemma reversionedD:
  assumes "reversioned m m'"
  shows "om_Name m' = om_Name m" "om_Namespace m' = om_Namespace m" "om_UID m' = om_UID m" "om_Deleting m' = om_Deleting m"
    "om_Finalizers m' = om_Finalizers m" "om_Labels m' = om_Labels m" "om_Annotations m' = om_Annotations m"
    "om_OwnerReferences m' = om_OwnerReferences m" "key_of m' = key_of m"
  using assms by (auto simp: reversioned_def key_of_def)

text \<open>What a shard's Gateway needs of the pool.\<close>

definition shard_keeps :: "gateway_pool \<Rightarrow> gateway_pool \<Rightarrow> bool" where
  "shard_keeps p q \<longleftrightarrow>
     gp_Spec q = gp_Spec p \<and> om_Namespace (gp_Meta q) = om_Namespace (gp_Meta p) \<and> fleet_uid q = fleet_uid p \<and>
     om_Name (gp_Meta q) = om_Name (gp_Meta p) \<and>
     (\<forall>name. leaseListener ` shard_leases p name \<subseteq> leaseListener ` shard_leases q name)"

lemma desiredGateway_keeps:
  assumes "shard_keeps p q"
  shows "annotation (gw_Meta (desiredGateway q name inst)) WorkersAnnotation = annotation (gw_Meta (desiredGateway p name inst)) WorkersAnnotation"
    and "(normalizedGateway (desiredGateway q name inst))\<lparr>gy_Listeners := []\<rparr> = (normalizedGateway (desiredGateway p name inst))\<lparr>gy_Listeners := []\<rparr>"
  using assms by (simp_all add: shard_keeps_def desiredGateway_def normalizedGateway_def Let_def)

lemma shard_intact_mono:
  assumes "shard_intact F p name x" "shard_keeps p q"
    and rec: "get_or '''' (gt_Gateways (gp_Status q)) name = get_or '''' (gt_Gateways (gp_Status p)) name \<or>
      (\<exists>g. x = Some g \<and> get_or '''' (gt_Gateways (gp_Status q)) name = om_UID (gw_Meta g))"
  shows "shard_intact F q name x"
proof (cases x)
  case None
  with assms show ?thesis by (auto simp: shard_intact_def)
next
  case (Some g)
  with assms(1) have g: "untouched F p name g" by (simp add: shard_intact_def)
  then have "ownedGateway (fl_Lib F) q g (fl_Installation F) = None"
    using rec assms(2) Some by (auto simp: untouched_def ownedGateway_def shard_keeps_def Let_def split: if_splits option.splits)
  moreover have "set (gy_Listeners (normalizedGateway g)) \<subseteq> leaseListener ` shard_leases q name"
    using g assms(2) unfolding untouched_def shard_keeps_def shard_leases_def [symmetric] by blast
  ultimately have "untouched F q name g"
    using g desiredGateway_keeps [OF assms(2)] by (simp add: untouched_def shard_leases_def)
  with Some show ?thesis by (simp add: shard_intact_def)
qed

abbreviation saved_store :: "kube_lib \<Rightarrow> fleet_store \<Rightarrow> object_meta \<Rightarrow> gateway_pool \<Rightarrow> (string, string) gomap \<Rightarrow> fleet_store" where
  "saved_store L c m q rejected \<equiv> c\<lparr>fs_Pool := (fs_Pool c)\<lparr>gp_Meta := m, gp_Status := gp_Status (savedPool L q rejected)\<rparr>\<rparr>"

lemma stored_status:
  assumes "stored (UpdateGatewayPoolStatus (savedPool L q rejected)) c c'"
  obtains m where "c' = saved_store L c m q rejected" "reversioned (gp_Meta (fs_Pool c)) m"
  using assms by (auto elim: stored_statusE)

lemma savedPool_rejected [simp]: "gt_RejectedRoutes (gp_Status (savedPool L p rejected)) = rejected"
  by (simp add: savedPool_def Let_def)

lemma fleet_change_frozen:
  assumes "fleet_change p q"
  shows "gt_FrozenSpec (gp_Status q) = gt_FrozenSpec (gp_Status p) \<or> gt_FrozenSpec (gp_Status q) = Some (gp_Spec p)"
  using assms by (cases rule: fleet_change.cases) (auto simp: put_gateway_allocation_def elim: reserve_fresh)

lemma fleet_change_safe:
  assumes "fleet_change p q" "fleet_safe p"
  shows "fleet_safe q" "gp_Spec q = gp_Spec p" "gp_Meta q = gp_Meta p"
  using fleet_change_keeps [OF assms] assms(2) fleet_safe_cong(1) [of q p] by auto

lemma orderly_saved:
  assumes c: "orderly F c" and change: "fleet_change (fs_Pool c) q" and m: "reversioned (gp_Meta (fs_Pool c)) m" and wf: "wf_map rejected"
    and uids: "fst ` set (fleet_leases q) \<subseteq> fst ` set (fleet_leases (fs_Pool c)) \<union> route_uid ` set (fs_Routes c)"
    and ls: "\<And>name. leaseListener ` shard_leases (fs_Pool c) name \<subseteq> leaseListener ` shard_leases q name"
    and rec: "\<And>name. get_or '''' (gt_Gateways (gp_Status q)) name = get_or '''' (gt_Gateways (gp_Status (fs_Pool c))) name \<or>
      (\<exists>g. fs_Gateways c (gateway_key (fs_Pool c) name) = Some g \<and> get_or '''' (gt_Gateways (gp_Status q)) name = om_UID (gw_Meta g))"
  shows "orderly F (saved_store L c m q rejected)"
proof -
  let ?p = "fs_Pool c" and ?c = "saved_store L c m q rejected"
  let ?q = "fs_Pool ?c"
  note r = reversionedD [OF m]
  have safe: "fleet_safe ?p" using c by (simp add: orderly_def)
  note q = fleet_change_safe [OF change safe]
  have "fleet_safe ?q" using q(1) fleet_safe_cong(1) [of ?q q] by (simp add: q(2,3) r(3))
  moreover have "fleet_in_use F ?q" using c fleet_change_frozen [OF change] by (auto simp: orderly_def fleet_in_use_def r(4))
  moreover have "inj_on sha_hex12 (fst ` set (fleet_leases ?q) \<union> route_uid ` set (fs_Routes ?c))"
    by (rule inj_on_subset [of _ "fst ` set (fleet_leases ?p) \<union> route_uid ` set (fs_Routes c)"]) (use c uids in \<open>auto simp: orderly_def\<close>)
  moreover have "shard_keeps ?p ?q" using ls by (simp add: shard_keeps_def r shard_leases_def)
  then have "shard_intact F ?q name x" if "shard_intact F ?p name x" "x = fs_Gateways c (gateway_key ?p name)" for name x
    using shard_intact_mono [OF that(1), of ?q] rec [of name] that(2) by simp
  ultimately show ?thesis using c wf r by (simp add: orderly_def gateway_key_def)
qed

lemma orderly_adopted:
  assumes "orderly F c" "stored (UpdateGatewayPool ((fs_Pool c)\<lparr>gp_Meta := (gp_Meta (fs_Pool c))\<lparr>om_Finalizers := fs\<rparr>\<rparr>)) c c'"
  shows "orderly F c'" and "om_Finalizers (gp_Meta (fs_Pool c')) = fs" and "fleet_leases (fs_Pool c') = fleet_leases (fs_Pool c)"
    "gt_FrozenSpec (gp_Status (fs_Pool c')) = gt_FrozenSpec (gp_Status (fs_Pool c))" "fs_Routes c' = fs_Routes c" "shards_work c' = shards_work c"
proof -
  obtain m where c': "c' = c\<lparr>fs_Pool := (fs_Pool c)\<lparr>gp_Meta := m\<rparr>\<rparr>" and r: "reversioned ((gp_Meta (fs_Pool c))\<lparr>om_Finalizers := fs\<rparr>) m"
    using assms(2) by (auto elim!: stored_poolE)
  note r' = reversionedD [OF r, simplified]
  show "om_Finalizers (gp_Meta (fs_Pool c')) = fs" "fleet_leases (fs_Pool c') = fleet_leases (fs_Pool c)"
    "gt_FrozenSpec (gp_Status (fs_Pool c')) = gt_FrozenSpec (gp_Status (fs_Pool c))" "fs_Routes c' = fs_Routes c"
    by (simp_all add: c' r')
  show "shards_work c' = shards_work c"
    by (rule shards_work_cong) (simp_all add: c' shard_names_def gateway_key_def r')
  have "shard_keeps (fs_Pool c) (fs_Pool c')" by (simp add: c' shard_keeps_def r' shard_leases_def)
  then have "shard_intact F (fs_Pool c') name x" if "shard_intact F (fs_Pool c) name x" for name x
    by (rule shard_intact_mono [OF that]) (simp add: c')
  moreover have "fleet_safe (fs_Pool c') \<longleftrightarrow> fleet_safe (fs_Pool c)" by (rule fleet_safe_cong) (simp_all add: c' r')
  ultimately show "orderly F c'" using assms(1) by (simp add: orderly_def fleet_in_use_def c' r' gateway_key_def)
qed

section \<open>The steps\<close>

text \<open>The write of a reconciliation on an orderly store, with the reason for it.\<close>

inductive fleet_does :: "'w fleet \<Rightarrow> fleet_store \<Rightarrow> gw_write \<Rightarrow> bool" for F c where
  adopt: "\<not> containsFinalizer (fl_Lib F) (om_Finalizers (gp_Meta (fs_Pool c))) PoolCleanupFinalizer \<Longrightarrow>
    fleet_does F c (UpdateGatewayPool ((fs_Pool c)\<lparr>gp_Meta := (gp_Meta (fs_Pool c))\<lparr>om_Finalizers :=
      addFinalizer (fl_Lib F) (om_Finalizers (gp_Meta (fs_Pool c))) PoolCleanupFinalizer\<rparr>\<rparr>))"
| freeze: "gt_FrozenSpec (gp_Status (fs_Pool c)) = None \<Longrightarrow>
    fleet_does F c (UpdateGatewayPoolStatus (savedPool (fl_Lib F) ((fs_Pool c)\<lparr>gp_Status := (gp_Status (fs_Pool c))\<lparr>gt_FrozenSpec :=
      Some (gp_Spec (fs_Pool c))\<rparr>\<rparr>) []))"
| retire: "gt_FrozenSpec (gp_Status (fs_Pool c)) \<noteq> None \<Longrightarrow> (uid, a) \<in> set (fleet_leases (fs_Pool c)) \<Longrightarrow>
    uid \<notin> route_uid ` set (fs_Routes c) \<Longrightarrow> \<not> ga_Tombstone a \<Longrightarrow> wf_map rejected \<Longrightarrow>
    fleet_does F c (UpdateGatewayPoolStatus (savedPool (fl_Lib F) (put_gateway_allocation uid (a\<lparr>ga_Tombstone := True\<rparr>) (fs_Pool c)) rejected))"
| reserve: "gt_FrozenSpec (gp_Status (fs_Pool c)) \<noteq> None \<Longrightarrow> route \<in> set (fs_Routes c) \<Longrightarrow>
    map_of (fleet_leases (fs_Pool c)) (route_uid route) = None \<Longrightarrow> reserve (fs_Pool c) route svc port hp = Inr (a, q) \<Longrightarrow> wf_map rejected \<Longrightarrow>
    fleet_does F c (UpdateGatewayPoolStatus (savedPool (fl_Lib F) q rejected))"
| confirm: "gt_FrozenSpec (gp_Status (fs_Pool c)) \<noteq> None \<Longrightarrow>
    map_of (fleet_leases (fs_Pool c)) uid = Some a \<Longrightarrow> \<not> ga_Attached a \<Longrightarrow> wf_map rejected \<Longrightarrow>
    fleet_does F c (UpdateGatewayPoolStatus (savedPool (fl_Lib F) (put_gateway_allocation uid (a\<lparr>ga_Attached := True\<rparr>) (fs_Pool c)) rejected))"
| create: "gt_FrozenSpec (gp_Status (fs_Pool c)) \<noteq> None \<Longrightarrow> name \<in> shard_names (fs_Pool c) \<Longrightarrow>
    fs_Gateways c (gateway_key (fs_Pool c) name) = None \<Longrightarrow> fleet_does F c (CreateGateway (desiredGateway (fs_Pool c) name (fl_Installation F)))"
| enter: "gt_FrozenSpec (gp_Status (fs_Pool c)) \<noteq> None \<Longrightarrow> name \<in> shard_names (fs_Pool c) \<Longrightarrow>
    fs_Gateways c (gateway_key (fs_Pool c) name) = Some g \<Longrightarrow> get_or '''' (gt_Gateways (gp_Status (fs_Pool c))) name = '''' \<Longrightarrow>
    wf_map rejected \<Longrightarrow>
    fleet_does F c (UpdateGatewayPoolStatus (savedPool (fl_Lib F) ((fs_Pool c)\<lparr>gp_Status := (gp_Status (fs_Pool c))\<lparr>gt_Gateways :=
      AList.update name (om_UID (gw_Meta g)) (gt_Gateways (gp_Status (fs_Pool c)))\<rparr>\<rparr>) rejected))"
| repair: "gt_FrozenSpec (gp_Status (fs_Pool c)) \<noteq> None \<Longrightarrow> name \<in> shard_names (fs_Pool c) \<Longrightarrow>
    fs_Gateways c (gateway_key (fs_Pool c) name) = Some g \<Longrightarrow>
    gy_Listeners (normalizedGateway g) \<noteq> desiredListeners (fleet_leases (fs_Pool c)) name \<Longrightarrow>
    fleet_does F c (UpdateGateway (g\<lparr>gw_Spec := (gw_Spec g)\<lparr>gy_Listeners := desiredListeners (fleet_leases (fs_Pool c)) name\<rparr>\<rparr>))"
| parent: "route \<in> set (fs_Routes c) \<Longrightarrow> ur_ParentRefs route = [] \<Longrightarrow> fleet_does F c (UpdateRoute (attachedRoute (fl_Lib F) a route))"
| publish: "routesChoice (fl_Lib F) c (ordered_routes c) [] = Inr rejected \<Longrightarrow> gatewaysChoice F c rejected (leaseNames (fs_Pool c)) = Inr () \<Longrightarrow>
    attachChoice (fl_Lib F) (fs_Pool c) rejected (indexed_routes F (ordered_routes c)) = Inr () \<Longrightarrow>
    orphanedLease (ordered_routes c) (fleet_leases (fs_Pool c)) = None \<Longrightarrow> wf_map rejected \<Longrightarrow>
    containsFinalizer (fl_Lib F) (om_Finalizers (gp_Meta (fs_Pool c))) PoolCleanupFinalizer \<Longrightarrow>
    gt_FrozenSpec (gp_Status (fs_Pool c)) \<noteq> None \<Longrightarrow>
    fleet_does F c (UpdateGatewayPoolStatus (savedPool (fl_Lib F) (fs_Pool c) rejected))"


lemma leaseChoice_Inr: "leaseChoice L p route rejected target = Inr rejected' \<Longrightarrow> rejected' = rejected \<or> (\<exists>t. rejected' = AList.update (route_uid route) t rejected)"
  by (auto simp: leaseChoice_def Let_def split: prod.splits option.splits sum.splits if_splits)

lemma routeChoice_Inr: "routeChoice L c route rejected = Inr rejected' \<Longrightarrow> rejected' = rejected \<or> (\<exists>t. rejected' = AList.update (route_uid route) t rejected)"
  by (auto simp: routeChoice_def Let_def split: sum.splits if_splits dest: leaseChoice_Inr)

lemma routeChoice_wf: "routeChoice L c route rejected = Inr rejected' \<Longrightarrow> wf_map rejected \<Longrightarrow> wf_map rejected'"
  by (auto dest: routeChoice_Inr)

lemma routesChoice_wf: "routesChoice L c routes rejected = Inr rejected' \<Longrightarrow> wf_map rejected \<Longrightarrow> wf_map rejected'"
  by (induction routes arbitrary: rejected) (auto split: sum.splits dest: routeChoice_wf)

lemma routesChoice_Inl:
  "routesChoice L c routes rejected = Inl e \<Longrightarrow> wf_map rejected \<Longrightarrow>
     \<exists>route \<in> set routes. \<exists>rejected'. wf_map rejected' \<and> routeChoice L c route rejected' = Inl e"
  by (induction routes arbitrary: rejected) (auto split: sum.splits dest: routeChoice_wf)

lemma routeChoice_does:
  assumes "routeChoice (fl_Lib F) c route rejected = Inl e" "wf_map rejected" "route \<in> set (fs_Routes c)"
    and frozen: "gt_FrozenSpec (gp_Status (fs_Pool c)) \<noteq> None"
  shows "fleet_does F c e"
proof -
  obtain svc port hp where l: "leaseChoice (fl_Lib F) (fs_Pool c) route rejected (svc, port, hp) = Inl e"
    using assms(1) by (auto simp: routeChoice_def Let_def split: sum.splits if_splits)
  show ?thesis
  proof (cases "map_of (fleet_leases (fs_Pool c)) (route_uid route)")
    case None
    with l assms(2) show ?thesis
      by (auto simp: leaseChoice_def split: sum.splits prod.splits intro!: fleet_does.reserve [OF frozen assms(3) None])
  next
    case (Some a)
    with l assms(2) show ?thesis
      by (auto simp: leaseChoice_def Let_def split: if_splits intro!: fleet_does.confirm [OF frozen Some])
  qed
qed

lemma gatewaysChoice_does:
  assumes "gatewaysChoice F c rejected names = Inl e" "wf_map rejected" "set names \<subseteq> shard_names (fs_Pool c)"
    and frozen: "gt_FrozenSpec (gp_Status (fs_Pool c)) \<noteq> None"
  shows "fleet_does F c e"
  using assms(1,3)
proof (induction names)
  case (Cons name names)
  show ?case
  proof (cases "gatewayChoice F (fs_Pool c) rejected name (fs_Gateways c (gateway_key (fs_Pool c) name))")
    case (Inl e')
    with Cons.prems assms(2) show ?thesis
      by (auto simp: gatewayChoice_def Let_def normalized_desired split: option.splits if_splits
          intro!: fleet_does.create [OF frozen] fleet_does.enter [OF frozen] fleet_does.repair [OF frozen])
  next
    case (Inr x)
    with Cons show ?thesis by simp
  qed
qed simp

lemma attachChoice_does:
  assumes "attachChoice (fl_Lib F) (fs_Pool c) rejected routes = Inl e" "set routes \<subseteq> set (fs_Routes c)"
  shows "fleet_does F c e"
  using assms
  by (induction routes) (auto simp: unattached_def split: option.splits if_splits intro: fleet_does.parent)

lemma orphanedLease_Some:
  assumes "orphanedLease (ordered_routes c) m = Some (uid, a)"
  shows "(uid, a) \<in> set m" "uid \<notin> route_uid ` set (fs_Routes c)" "\<not> ga_Tombstone a"
  using assms orphanedLease_mem [OF assms] by (auto simp: orphanedLease_def find_Some_iff routesByUID_None)

lemma leasesChoice_does:
  assumes choice: "leasesChoice F c = Inl e" and c: "orderly F c"
    and fin: "containsFinalizer (fl_Lib F) (om_Finalizers (gp_Meta (fs_Pool c))) PoolCleanupFinalizer"
    and frozen: "gt_FrozenSpec (gp_Status (fs_Pool c)) \<noteq> None"
  shows "fleet_does F c e"
proof (cases "orphanedLease (ordered_routes c) (fleet_leases (fs_Pool c))")
  case (Some x)
  obtain uid a where x: "x = (uid, a)" by (cases x)
  have e: "e = UpdateGatewayPoolStatus (savedPool (fl_Lib F) (put_gateway_allocation uid (a\<lparr>ga_Tombstone := True\<rparr>) (fs_Pool c))
      (gt_RejectedRoutes (gp_Status (fs_Pool c))))"
    using choice Some x by (simp add: leasesChoice_def Let_def)
  show ?thesis unfolding e by (rule fleet_does.retire [OF frozen orphanedLease_Some]) (use Some x c in \<open>simp_all add: orderly_def\<close>)
next
  case None
  show ?thesis
  proof (cases "routesChoice (fl_Lib F) c (ordered_routes c) []")
    case (Inl e')
    with choice None have "e' = e" by (simp add: leasesChoice_def Let_def)
    with routesChoice_Inl [OF Inl] obtain route rejected where "route \<in> set (fs_Routes c)" "wf_map rejected"
      "routeChoice (fl_Lib F) c route rejected = Inl e" by auto
    then show ?thesis by (intro routeChoice_does [OF _ _ _ frozen])
  next
    case (Inr rejected)
    have wf: "wf_map rejected" by (rule routesChoice_wf [OF Inr]) simp
    have names: "set (leaseNames (fs_Pool c)) \<subseteq> shard_names (fs_Pool c)" by (simp add: set_leaseNames shard_names_def)
    have sub: "set (indexed_routes F (ordered_routes c)) \<subseteq> set (fs_Routes c)" using indexed_routes_subset [of F "ordered_routes c"] by simp
    show ?thesis
      using choice None Inr gatewaysChoice_does [OF _ wf names frozen] attachChoice_does [OF _ sub]
      by (auto simp: leasesChoice_def Let_def publishChoice_def split: sum.splits if_splits intro: fleet_does.publish [OF Inr _ _ None wf fin frozen])
  qed
qed

lemma fleetChoice_does: "fleetChoice F c = Inl e \<Longrightarrow> orderly F c \<Longrightarrow> fleet_does F c e"
  by (auto simp: fleetChoice_def Let_def intro: fleet_does.adopt fleet_does.freeze leasesChoice_does split: if_splits)


section \<open>Every step does work\<close>

text \<open>The documented behaviour of the libraries that the argument needs.\<close>

definition fleet_libs :: "'w fleet \<Rightarrow> bool" where
  "fleet_libs F \<longleftrightarrow>
     finalizer_laws (fl_Lib F) \<and> (\<forall>r. or_Controller r = Some True \<longrightarrow> controllerOf (fl_Lib F) [r] = Some r) \<and>
     (\<forall>ks. set (fl_Range F ks) = set ks)"

lemma fleet_work_saved:
  assumes "reversioned (gp_Meta (fs_Pool c)) m"
  shows "fleet_work F (saved_store L c m q rejected) =
     (if containsFinalizer (fl_Lib F) (om_Finalizers (gp_Meta (fs_Pool c))) PoolCleanupFinalizer then 0 else 1) +
     (if gt_FrozenSpec (gp_Status q) = None then 1 else 0) +
     3 * orphans (fs_Routes c) (fleet_leases q) + 4 * unleased (fs_Routes c) (fleet_leases q) + unconfirmed (fleet_leases q) +
     parentless (fs_Routes c) + (\<Sum>n \<in> shard_names q. shard_work q n (fs_Gateways c (gateway_key (fs_Pool c) n)))"
proof -
  have "shards_work (saved_store L c m q rejected) = (\<Sum>n \<in> shard_names q. shard_work q n (fs_Gateways c (gateway_key (fs_Pool c) n)))"
    unfolding shards_work_def
    by (rule sum.cong) (auto simp: shard_names_def gateway_key_def reversionedD [OF assms] intro: shard_work_same)
  then show ?thesis by (simp add: fleet_work_def Let_def reversionedD [OF assms])
qed

lemma fleet_work_here:
  "fleet_work F c =
     (if containsFinalizer (fl_Lib F) (om_Finalizers (gp_Meta (fs_Pool c))) PoolCleanupFinalizer then 0 else 1) +
     (if gt_FrozenSpec (gp_Status (fs_Pool c)) = None then 1 else 0) +
     3 * orphans (fs_Routes c) (fleet_leases (fs_Pool c)) + 4 * unleased (fs_Routes c) (fleet_leases (fs_Pool c)) +
     unconfirmed (fleet_leases (fs_Pool c)) + parentless (fs_Routes c) +
     (\<Sum>n \<in> shard_names (fs_Pool c). shard_work (fs_Pool c) n (fs_Gateways c (gateway_key (fs_Pool c) n)))"
  by (simp add: fleet_work_def shards_work_def Let_def)

text \<open>A flag of a lease.\<close>

lemma flag_keeps:
  assumes "wf_map m" "map_of m uid = Some a" "a' = a\<lparr>ga_Tombstone := True\<rparr> \<or> a' = a\<lparr>ga_Attached := True\<rparr>"
  shows "fst ` set (AList.update uid a' m) = fst ` set m"
    and "ga_GatewayName ` snd ` set (AList.update uid a' m) = ga_GatewayName ` snd ` set m"
    and "unleased routes (AList.update uid a' m) = unleased routes m"
    and "leaseListener ` {b \<in> snd ` set (AList.update uid a' m). ga_GatewayName b = n} = leaseListener ` {b \<in> snd ` set m. ga_GatewayName b = n}"
proof -
  have d: "distinct (map fst m)" using assms(1) by (simp add: wf_map_def)
  show "fst ` set (AList.update uid a' m) = fst ` set m"
    by (rule update_keys [OF assms(2)])
  show "ga_GatewayName ` snd ` set (AList.update uid a' m) = ga_GatewayName ` snd ` set m"
    by (rule update_values [OF d assms(2)]) (use assms(3) in auto)
  show "unleased routes (AList.update uid a' m) = unleased routes m"
    using assms(2) by (auto simp: unleased_def gomap_simps intro!: arg_cong [of _ _ length] filter_cong)
  have split: "leaseListener ` {b \<in> S. ga_GatewayName b = n} = fst ` {y \<in> (\<lambda>b. (leaseListener b, ga_GatewayName b)) ` S. snd y = n}" for S
    by force
  have "(\<lambda>b. (leaseListener b, ga_GatewayName b)) ` snd ` set (AList.update uid a' m) = (\<lambda>b. (leaseListener b, ga_GatewayName b)) ` snd ` set m"
    by (rule update_values [OF d assms(2)]) (use assms(3) in auto)
  then show "leaseListener ` {b \<in> snd ` set (AList.update uid a' m). ga_GatewayName b = n} = leaseListener ` {b \<in> snd ` set m. ga_GatewayName b = n}"
    unfolding split by simp
qed

lemma step_retire:
  assumes c: "orderly F c" and frozen: "gt_FrozenSpec (gp_Status (fs_Pool c)) \<noteq> None" and a: "(uid, a) \<in> set (fleet_leases (fs_Pool c))"
    and gone: "uid \<notin> route_uid ` set (fs_Routes c)" "\<not> ga_Tombstone a" and wf: "wf_map rejected" and m: "reversioned (gp_Meta (fs_Pool c)) m"
    and q: "q = put_gateway_allocation uid (a\<lparr>ga_Tombstone := True\<rparr>) (fs_Pool c)"
  shows "orderly F (saved_store L c m q rejected) \<and> fleet_work F (saved_store L c m q rejected) < fleet_work F c"
proof
  let ?p = "fs_Pool c" and ?a = "a\<lparr>ga_Tombstone := True\<rparr>"
  note ok = orderly_fleet_ok [OF c frozen]
  note wfm = fleet_ok_parts(3) [OF ok(2)]
  have mem: "map_of (fleet_leases ?p) uid = Some a" using a wfm by (simp add: wf_map_map_of)
  have d: "distinct (map fst (fleet_leases ?p))" using wfm by (simp add: wf_map_def)
  note flag = flag_keeps [OF wfm mem disjI1 [OF refl]]
  have lq: "fleet_leases q = AList.update uid ?a (fleet_leases ?p)" and same: "gt_Gateways (gp_Status q) = gt_Gateways (gp_Status ?p)"
    "gt_FrozenSpec (gp_Status q) = gt_FrozenSpec (gp_Status ?p)"
    by (simp_all add: q put_gateway_allocation_def)
  have change: "fleet_change ?p q" unfolding q by (rule fleet_change.retire [OF ok(1) a])
  show "orderly F (saved_store L c m q rejected)"
    by (rule orderly_saved [OF c change m wf]) (simp_all add: shard_leases_def lq flag same)
  have "orphans (fs_Routes c) (fleet_leases q) + 1 = orphans (fs_Routes c) (fleet_leases ?p)"
    using length_filter_update [OF d mem, of "\<lambda>(uid, a). uid \<notin> route_uid ` set (fs_Routes c) \<and> \<not> ga_Tombstone a" ?a] gone
    by (simp add: orphans_def lq)
  moreover have "unconfirmed (fleet_leases q) = unconfirmed (fleet_leases ?p)"
    using length_filter_update [OF d mem, of "\<lambda>(uid, a). \<not> ga_Attached a" ?a] by (simp add: unconfirmed_def lq split: if_splits)
  moreover have "(\<Sum>n \<in> insert (ga_GatewayName a) (shard_names ?p). shard_work q n (fs_Gateways c (gateway_key ?p n))) \<le> shards_work c + 2"
    unfolding shards_work_def
    by (rule sum_changed_at(1)) (auto simp: lq same shard_work_le intro!: shard_work_same desiredListeners_elsewhere [OF mem])
  moreover have "insert (ga_GatewayName a) (shard_names ?p) = shard_names q"
    using a flag(2) by (force simp: shard_names_def lq)
  ultimately show "fleet_work F (saved_store L c m q rejected) < fleet_work F c"
    unfolding fleet_work_saved [OF m] fleet_work_here [of F c] by (simp add: lq flag same shards_work_def)
qed

lemma step_confirm:
  assumes c: "orderly F c" and frozen: "gt_FrozenSpec (gp_Status (fs_Pool c)) \<noteq> None" and mem: "map_of (fleet_leases (fs_Pool c)) uid = Some a"
    and gone: "\<not> ga_Attached a" and wf: "wf_map rejected" and m: "reversioned (gp_Meta (fs_Pool c)) m"
    and q: "q = put_gateway_allocation uid (a\<lparr>ga_Attached := True\<rparr>) (fs_Pool c)"
  shows "orderly F (saved_store L c m q rejected) \<and> fleet_work F (saved_store L c m q rejected) < fleet_work F c"
proof
  let ?p = "fs_Pool c" and ?a = "a\<lparr>ga_Attached := True\<rparr>"
  note ok = orderly_fleet_ok [OF c frozen]
  note wfm = fleet_ok_parts(3) [OF ok(2)]
  have d: "distinct (map fst (fleet_leases ?p))" using wfm by (simp add: wf_map_def)
  note flag = flag_keeps [OF wfm mem disjI2 [OF refl]]
  have lq: "fleet_leases q = AList.update uid ?a (fleet_leases ?p)" and same: "gt_Gateways (gp_Status q) = gt_Gateways (gp_Status ?p)"
    "gt_FrozenSpec (gp_Status q) = gt_FrozenSpec (gp_Status ?p)"
    by (simp_all add: q put_gateway_allocation_def)
  have change: "fleet_change ?p q" unfolding q by (rule fleet_change.attach [OF ok(1) mem])
  show "orderly F (saved_store L c m q rejected)"
    by (rule orderly_saved [OF c change m wf]) (simp_all add: shard_leases_def lq flag same)
  have "orphans (fs_Routes c) (fleet_leases q) = orphans (fs_Routes c) (fleet_leases ?p)"
    using length_filter_update [OF d mem, of "\<lambda>(uid, a). uid \<notin> route_uid ` set (fs_Routes c) \<and> \<not> ga_Tombstone a" ?a]
    by (simp add: orphans_def lq split: if_splits)
  moreover have "unconfirmed (fleet_leases q) + 1 = unconfirmed (fleet_leases ?p)"
    using length_filter_update [OF d mem, of "\<lambda>(uid, a). \<not> ga_Attached a" ?a] gone by (simp add: unconfirmed_def lq)
  moreover have "shard_work q n x = shard_work ?p n x" for n x
    by (rule shard_work_same) (simp_all add: lq same desiredListeners_flag [OF mem])
  moreover have "shard_names q = shard_names ?p" by (simp add: shard_names_def lq flag)
  ultimately show "fleet_work F (saved_store L c m q rejected) < fleet_work F c"
    unfolding fleet_work_saved [OF m] fleet_work_here [of F c] by (simp add: lq flag same)
qed


lemma step_freeze:
  assumes c: "orderly F c" and frozen: "gt_FrozenSpec (gp_Status (fs_Pool c)) = None" and m: "reversioned (gp_Meta (fs_Pool c)) m"
    and q: "q = (fs_Pool c)\<lparr>gp_Status := (gp_Status (fs_Pool c))\<lparr>gt_FrozenSpec := Some (gp_Spec (fs_Pool c))\<rparr>\<rparr>"
  shows "orderly F (saved_store L c m q []) \<and> fleet_work F (saved_store L c m q []) < fleet_work F c"
proof
  have change: "fleet_change (fs_Pool c) q"
    unfolding q by (rule fleet_change.freeze [OF frozen]) (use c in \<open>simp add: orderly_def fleet_in_use_def\<close>)
  show "orderly F (saved_store L c m q [])"
    by (rule orderly_saved [OF c change m]) (simp_all add: q shard_leases_def)
  have "shard_work q n x = shard_work (fs_Pool c) n x" for n x by (rule shard_work_same) (simp_all add: q)
  then show "fleet_work F (saved_store L c m q []) < fleet_work F c"
    unfolding fleet_work_saved [OF m] fleet_work_here [of F c] by (simp add: q frozen shard_names_def)
qed

lemma step_reserve:
  assumes c: "orderly F c" and frozen: "gt_FrozenSpec (gp_Status (fs_Pool c)) \<noteq> None" and route: "route \<in> set (fs_Routes c)"
    and none: "map_of (fleet_leases (fs_Pool c)) (route_uid route) = None" and grant: "reserve (fs_Pool c) route svc port hp = Inr (a, q)"
    and wf: "wf_map rejected" and m: "reversioned (gp_Meta (fs_Pool c)) m"
  shows "orderly F (saved_store L c m q rejected) \<and> fleet_work F (saved_store L c m q rejected) < fleet_work F c"
proof
  let ?p = "fs_Pool c"
  note ok = orderly_fleet_ok [OF c frozen]
  have start: "gs_PortStart (gp_Spec ?p) \<le> 65535" using c by (simp add: orderly_def fleet_safe_def)
  have lq: "fleet_leases q = fleet_leases ?p @ [(route_uid route, a)]" by (rule reserve_fresh_spec(1) [OF none grant start])
  have same: "gt_Gateways (gp_Status q) = gt_Gateways (gp_Status ?p)" "gt_FrozenSpec (gp_Status q) = gt_FrozenSpec (gp_Status ?p)"
    by (rule reserve_fresh [OF none grant]; simp add: put_gateway_allocation_def)+
  have change: "fleet_change ?p q" by (rule fleet_change.reserve [OF ok(1) none grant])
  show "orderly F (saved_store L c m q rejected)"
    by (rule orderly_saved [OF c change m wf]) (auto simp: shard_leases_def lq same route)
  have "orphans (fs_Routes c) (fleet_leases q) = orphans (fs_Routes c) (fleet_leases ?p)" using route by (auto simp: orphans_def lq)
  moreover have "unconfirmed (fleet_leases q) \<le> unconfirmed (fleet_leases ?p) + 1" by (simp add: unconfirmed_def lq)
  moreover have "unleased (fs_Routes c) (fleet_leases q) < unleased (fs_Routes c) (fleet_leases ?p)"
  proof -
    let ?P = "\<lambda>r. map_of (fleet_leases ?p) (route_uid r) = None" and ?Q = "\<lambda>r. map_of (fleet_leases q) (route_uid r) = None"
    have "filter ?Q (fs_Routes c) = filter ?Q (filter ?P (fs_Routes c))" by (auto simp: lq intro!: filter_cong)
    moreover have "length (filter ?Q (filter ?P (fs_Routes c))) < length (filter ?P (fs_Routes c))"
      by (rule length_filter_less [of route]) (use route none in \<open>auto simp: lq map_add_def\<close>)
    ultimately show ?thesis by (simp add: unleased_def)
  qed
  moreover have "(\<Sum>n \<in> insert (ga_GatewayName a) (shard_names ?p). shard_work q n (fs_Gateways c (gateway_key ?p n))) \<le> shards_work c + 2"
    unfolding shards_work_def
    by (rule sum_changed_at(1)) (auto simp: lq same shard_work_le intro!: shard_work_same desiredListeners_snoc)
  moreover have "insert (ga_GatewayName a) (shard_names ?p) = shard_names q" by (simp add: shard_names_def lq)
  ultimately show "fleet_work F (saved_store L c m q rejected) < fleet_work F c"
    unfolding fleet_work_saved [OF m] fleet_work_here [of F c] by (simp add: same shards_work_def)
qed

lemma gateway_key_inject [simp]: "gateway_key p n = gateway_key p n' \<longleftrightarrow> n = n'"
  by (simp add: gateway_key_def)

lemma orderly_untouched:
  assumes c: "orderly F c" "gt_FrozenSpec (gp_Status (fs_Pool c)) \<noteq> None" and name: "name \<in> shard_names (fs_Pool c)"
    and g: "fs_Gateways c (gateway_key (fs_Pool c) name) = Some g"
  shows "untouched F (fs_Pool c) name g" "key_of (gw_Meta g) = gateway_key (fs_Pool c) name" "om_UID (gw_Meta g) \<noteq> ''''"
proof -
  show u: "untouched F (fs_Pool c) name g"
    using orderly_intact [OF c(1) orderly_fleet_ok(2) [OF c] name [unfolded shard_names_def]] g by (simp add: shard_intact_def)
  then show "key_of (gw_Meta g) = gateway_key (fs_Pool c) name" "om_UID (gw_Meta g) \<noteq> ''''"
    by (auto simp: untouched_def key_of_def gateway_key_def ownedGateway_def Let_def split: if_splits)
qed

lemma step_enter:
  assumes c: "orderly F c" and frozen: "gt_FrozenSpec (gp_Status (fs_Pool c)) \<noteq> None" and name: "name \<in> shard_names (fs_Pool c)"
    and g: "fs_Gateways c (gateway_key (fs_Pool c) name) = Some g" and new: "get_or '''' (gt_Gateways (gp_Status (fs_Pool c))) name = ''''"
    and wf: "wf_map rejected" and m: "reversioned (gp_Meta (fs_Pool c)) m"
    and q: "q = (fs_Pool c)\<lparr>gp_Status := (gp_Status (fs_Pool c))\<lparr>gt_Gateways :=
      AList.update name (om_UID (gw_Meta g)) (gt_Gateways (gp_Status (fs_Pool c)))\<rparr>\<rparr>"
  shows "orderly F (saved_store L c m q rejected) \<and> fleet_work F (saved_store L c m q rejected) < fleet_work F c"
proof
  let ?p = "fs_Pool c"
  note ok = orderly_fleet_ok [OF c frozen]
  note uid = orderly_untouched(3) [OF c frozen name g]
  have recs: "get_or '''' (gt_Gateways (gp_Status q)) n = (if n = name then om_UID (gw_Meta g) else get_or '''' (gt_Gateways (gp_Status ?p)) n)" for n
    by (simp add: q get_or_def gomap_simps)
  have leases: "fleet_leases q = fleet_leases ?p" by (simp add: q)
  have change: "fleet_change ?p q" unfolding q by (rule fleet_change.register [OF ok(1) new uid])
  show "orderly F (saved_store L c m q rejected)"
    by (rule orderly_saved [OF c change m wf]) (use g in \<open>simp_all add: recs leases shard_leases_def\<close>)
  have "(\<Sum>n \<in> shard_names ?p. shard_work q n (fs_Gateways c (gateway_key ?p n))) < shards_work c"
    unfolding shards_work_def
  proof (rule sum_changed_at(2) [OF finite_shard_names _ name])
    show "shard_work q name (fs_Gateways c (gateway_key ?p name)) < shard_work ?p name (fs_Gateways c (gateway_key ?p name))"
      using recs [of name] uid by (simp add: g shard_work_def new) (simp add: q)
  qed (rule shard_work_same, simp add: q, simp add: recs)
  then show "fleet_work F (saved_store L c m q rejected) < fleet_work F c"
    unfolding fleet_work_saved [OF m] fleet_work_here [of F c] by (simp add: q shard_names_def shards_work_def)
qed

text \<open>A Gateway is created or changed.\<close>

lemma step_gateway:
  assumes c: "orderly F c" and frozen: "gt_FrozenSpec (gp_Status (fs_Pool c)) \<noteq> None" and name: "name \<in> shard_names (fs_Pool c)"
    and h: "untouched F (fs_Pool c) name h" and c': "c' = c\<lparr>fs_Gateways := (fs_Gateways c)(gateway_key (fs_Pool c) name \<mapsto> h)\<rparr>"
    and less: "shard_work (fs_Pool c) name (Some h) < shard_work (fs_Pool c) name (fs_Gateways c (gateway_key (fs_Pool c) name))"
  shows "orderly F c' \<and> fleet_work F c' < fleet_work F c"
proof
  let ?p = "fs_Pool c"
  have "shard_intact F ?p n (fs_Gateways c' (gateway_key ?p n))" if "shard_intact F ?p n (fs_Gateways c (gateway_key ?p n))" for n
    using that h by (auto simp: c' shard_intact_def)
  then show "orderly F c'" using c by (simp add: orderly_def c')
  have "(\<Sum>n \<in> shard_names ?p. shard_work ?p n (fs_Gateways c' (gateway_key ?p n))) < shards_work c"
    unfolding shards_work_def by (rule sum_changed_at(2) [OF finite_shard_names _ name]) (use less in \<open>simp_all add: c'\<close>)
  then show "fleet_work F c' < fleet_work F c" unfolding fleet_work_def shards_work_def Let_def by (simp add: c')
qed

lemma step_create:
  assumes c: "orderly F c" and frozen: "gt_FrozenSpec (gp_Status (fs_Pool c)) \<noteq> None" and name: "name \<in> shard_names (fs_Pool c)"
    and none: "fs_Gateways c (gateway_key (fs_Pool c) name) = None" and libs: "fleet_libs F"
    and st: "stored (CreateGateway (desiredGateway (fs_Pool c) name (fl_Installation F))) c c'"
  shows "orderly F c' \<and> fleet_work F c' < fleet_work F c"
proof -
  let ?p = "fs_Pool c"
  let ?g = "desiredGateway ?p name (fl_Installation F)"
  have key: "key_of (gw_Meta ?g) = gateway_key ?p name" by (simp add: key_of_def desiredGateway_def gateway_key_def)
  obtain h where c': "c' = c\<lparr>fs_Gateways := (fs_Gateways c)(gateway_key ?p name \<mapsto> h)\<rparr>" and meta: "created (gw_Meta ?g) (gw_Meta h)"
    and spec: "normalizedGateway h = normalizedGateway ?g" using st by (auto simp: key elim!: stored_createE)
  have unrec: "get_or '''' (gt_Gateways (gp_Status ?p)) name = ''''"
    using orderly_intact [OF c orderly_fleet_ok(2) [OF c frozen] name [unfolded shard_names_def]] none by (simp add: shard_intact_def)
  have "untouched F ?p name h"
    using meta libs unrec chosen_set [of _ "fleet_leases ?p" name] unfolding untouched_def spec normalized_desired desiredListeners_chosen
    by (auto simp: created_def ownedGateway_def desiredGateway_def fleet_libs_def PoolUIDLabel_def InstallationLabel_def Let_def)
  then show ?thesis
    by (rule step_gateway [OF c frozen name _ c']) (simp add: shard_work_def none spec normalized_desired unrec)
qed

lemma normalizedGateway_listeners:
  "normalizedGateway (g\<lparr>gw_Spec := (gw_Spec g)\<lparr>gy_Listeners := desiredListeners m name\<rparr>\<rparr>) =
     (normalizedGateway g)\<lparr>gy_Listeners := desiredListeners m name\<rparr>"
  by (simp add: normalizedGateway_def Let_def desiredListeners_chosen)

lemma step_repair:
  assumes c: "orderly F c" and frozen: "gt_FrozenSpec (gp_Status (fs_Pool c)) \<noteq> None" and name: "name \<in> shard_names (fs_Pool c)"
    and g: "fs_Gateways c (gateway_key (fs_Pool c) name) = Some g"
    and differ: "gy_Listeners (normalizedGateway g) \<noteq> desiredListeners (fleet_leases (fs_Pool c)) name"
    and st: "stored (UpdateGateway (g\<lparr>gw_Spec := (gw_Spec g)\<lparr>gy_Listeners := desiredListeners (fleet_leases (fs_Pool c)) name\<rparr>\<rparr>)) c c'"
  shows "orderly F c' \<and> fleet_work F c' < fleet_work F c"
proof -
  let ?p = "fs_Pool c"
  note u = orderly_untouched [OF c frozen name g]
  obtain h where c': "c' = c\<lparr>fs_Gateways := (fs_Gateways c)(gateway_key ?p name \<mapsto> h)\<rparr>" and meta: "reversioned (gw_Meta g) (gw_Meta h)"
    and spec: "normalizedGateway h = (normalizedGateway g)\<lparr>gy_Listeners := desiredListeners (fleet_leases ?p) name\<rparr>"
    using st by (auto simp: u(2) normalizedGateway_listeners elim!: stored_gatewayE)
  note r = reversionedD [OF meta]
  have "ownedGateway (fl_Lib F) ?p h (fl_Installation F) = ownedGateway (fl_Lib F) ?p g (fl_Installation F)"
    unfolding ownedGateway_def Let_def r ..
  then have "untouched F ?p name h"
    using u(1) chosen_set [of _ "fleet_leases ?p" name] unfolding untouched_def spec by (auto simp: r desiredListeners_chosen)
  then show ?thesis
    by (rule step_gateway [OF c frozen name _ c']) (simp add: shard_work_def g spec differ)
qed


text \<open>A route gets its parent reference.\<close>

lemma step_parent:
  assumes c: "orderly F c" and route: "route \<in> set (fs_Routes c)" "ur_ParentRefs route = []"
    and st: "stored (UpdateRoute (attachedRoute (fl_Lib F) a route)) c c'"
  shows "orderly F c' \<and> fleet_work F c' < fleet_work F c"
proof
  let ?r = "attachedRoute (fl_Lib F) a route"
  obtain m refs where m: "reversioned (ur_Meta ?r) m" and refs: "list_all2 filled (ur_ParentRefs ?r) refs"
    and c': "c' = c\<lparr>fs_Routes := map (\<lambda>x. if key_of (ur_Meta x) = key_of (ur_Meta ?r) then ?r\<lparr>ur_Meta := m, ur_ParentRefs := refs\<rparr> else x) (fs_Routes c)\<rparr>"
    using st by (auto elim!: stored_routeE)
  define f where "f x = (if key_of (ur_Meta x) = key_of (ur_Meta ?r) then ?r\<lparr>ur_Meta := m, ur_ParentRefs := refs\<rparr> else x)" for x
  have routes: "fs_Routes c' = map f (fs_Routes c)" by (simp add: c' f_def)
  have rest: "fs_Pool c' = fs_Pool c" "fs_Services c' = fs_Services c" "fs_Gateways c' = fs_Gateways c" by (simp_all add: c')
  have key: "key_of (ur_Meta ?r) = key_of (ur_Meta route)" by (simp add: attachedRoute_def key_of_def)
  have this_one: "x = route" if "x \<in> set (fs_Routes c)" "key_of (ur_Meta x) = key_of (ur_Meta ?r)" for x
    using c that route(1) inj_onD [of "key_of \<circ> ur_Meta" "set (fs_Routes c)" x route] by (simp add: orderly_def distinct_map key)
  have uid: "route_uid (f x) = route_uid x" "key_of (ur_Meta (f x)) = key_of (ur_Meta x)" if "x \<in> set (fs_Routes c)" for x
    using this_one [OF that] reversionedD(3,9) [OF m] by (auto simp: f_def attachedRoute_def key)
  have uids: "map route_uid (map f (fs_Routes c)) = map route_uid (fs_Routes c)"
    "map (key_of \<circ> ur_Meta) (map f (fs_Routes c)) = map (key_of \<circ> ur_Meta) (fs_Routes c)"
    by (simp_all add: uid)
  then have set_uids: "route_uid ` set (map f (fs_Routes c)) = route_uid ` set (fs_Routes c)" by (metis list.set_map)
  show "orderly F c'" using c unfolding orderly_def rest routes uids set_uids .
  have "unleased (map f (fs_Routes c)) mp = unleased (fs_Routes c) mp" for mp
    by (auto simp: unleased_def filter_map uid intro!: arg_cong [of _ _ length] filter_cong)
  moreover have "orphans (map f (fs_Routes c)) mp = orphans (fs_Routes c) mp" for mp unfolding orphans_def set_uids ..
  moreover have "refs \<noteq> []" using refs by (auto simp: attachedRoute_def)
  then have "parentless (map f (fs_Routes c)) < parentless (fs_Routes c)"
    unfolding parentless_def
    by (intro length_filter_map_less [OF _ route(1)]) (use route(2) this_one in \<open>auto simp: f_def key split: if_splits\<close>)
  ultimately show "fleet_work F c' < fleet_work F c"
    unfolding fleet_work_def shards_work_def Let_def rest routes by simp
qed

section \<open>A published store is at rest\<close>

lemma reserve_refusal:
  assumes "gp_Spec q = gp_Spec p" "fleet_uid q = fleet_uid p" "fleet_leases q = fleet_leases p" "reserve p route svc port hp = Inl e"
  shows "reserve q route svc port hp = Inl e"
  using assms(4) unfolding reserve_def assms(1-3) Let_def by (auto split: if_splits option.splits sum.splits)

lemma routeChoice_again:
  assumes "routeChoice L c route rejected = Inr rejected'"
    and "fs_Others c' = fs_Others c" "fs_Services c' = fs_Services c" "gp_Spec (fs_Pool c') = gp_Spec (fs_Pool c)"
    "fleet_uid (fs_Pool c') = fleet_uid (fs_Pool c)" "om_Name (gp_Meta (fs_Pool c')) = om_Name (gp_Meta (fs_Pool c))"
    "fleet_leases (fs_Pool c') = fleet_leases (fs_Pool c)"
  shows "routeChoice L c' route rejected = Inr rejected'"
proof -
  have lease: "leaseChoice L (fs_Pool c') route rejected target = Inr r" if "leaseChoice L (fs_Pool c) route rejected target = Inr r" for target r
    using that reserve_refusal [OF assms(4,5,7)]
    by (auto simp: leaseChoice_def assms(7) Let_def split: prod.splits option.splits sum.splits if_splits)
  have "routeProblem (fs_Pool c') others route x = routeProblem (fs_Pool c) others route x" for others x
    by (simp add: routeProblem_def leasedByOther_def assms(5,6))
  moreover have "concerned (fs_Pool c') route \<longleftrightarrow> concerned (fs_Pool c) route" by (simp add: concerned_def assms(6,7))
  ultimately show ?thesis
    using assms(1) unfolding routeChoice_def Let_def assms(2,3,7) by (auto intro: lease split: sum.splits)
qed

lemma routesChoice_again:
  assumes "routesChoice L c routes rejected = Inr rejected'"
    and "fs_Others c' = fs_Others c" "fs_Services c' = fs_Services c" "gp_Spec (fs_Pool c') = gp_Spec (fs_Pool c)"
    "fleet_uid (fs_Pool c') = fleet_uid (fs_Pool c)" "om_Name (gp_Meta (fs_Pool c')) = om_Name (gp_Meta (fs_Pool c))"
    "fleet_leases (fs_Pool c') = fleet_leases (fs_Pool c)"
  shows "routesChoice L c' routes rejected = Inr rejected'"
  using assms(1) by (induction routes arbitrary: rejected) (auto simp: routeChoice_again [OF _ assms(2-7)] split: sum.splits)

lemma gatewayChoice_rest:
  "gatewayChoice F p rejected name x = Inr () \<longleftrightarrow>
     (\<exists>g. x = Some g \<and> get_or '''' (gt_Gateways (gp_Status p)) name \<noteq> '''' \<and> gy_Listeners (normalizedGateway g) = desiredListeners (fleet_leases p) name)"
  by (auto simp: gatewayChoice_def Let_def normalized_desired split: option.splits)

lemma gatewaysChoice_rest:
  "gatewaysChoice F c rejected names = Inr () \<longleftrightarrow>
     (\<forall>name \<in> set names. gatewayChoice F (fs_Pool c) rejected name (fs_Gateways c (gateway_key (fs_Pool c) name)) = Inr ())"
  by (induction names) (auto split: sum.split)

lemma attachChoice_rest: "attachChoice L p rejected routes = Inr () \<longleftrightarrow> (\<forall>route \<in> set routes. unattached p rejected route = None)"
  by (induction routes) (auto split: option.split)

lemma fleet_published:
  assumes c: "orderly F c" and routes: "routesChoice (fl_Lib F) c (ordered_routes c) [] = Inr rejected"
    and gws: "gatewaysChoice F c rejected (leaseNames (fs_Pool c)) = Inr ()"
    and att: "attachChoice (fl_Lib F) (fs_Pool c) rejected (indexed_routes F (ordered_routes c)) = Inr ()"
    and none: "orphanedLease (ordered_routes c) (fleet_leases (fs_Pool c)) = None" and wf: "wf_map rejected"
    and fin: "containsFinalizer (fl_Lib F) (om_Finalizers (gp_Meta (fs_Pool c))) PoolCleanupFinalizer"
    and frozen: "gt_FrozenSpec (gp_Status (fs_Pool c)) \<noteq> None" and m: "reversioned (gp_Meta (fs_Pool c)) m"
    and c': "c' = saved_store L c m (fs_Pool c) rejected"
  shows "orderly F c' \<and> fleet_work F c' = fleet_work F c \<and> fleetChoice F c' = Inr ()"
proof (intro conjI)
  note r = reversionedD [OF m]
  show "orderly F c'" unfolding c' by (rule orderly_saved [OF c fleet_change.report m wf]) simp_all
  show "fleet_work F c' = fleet_work F c" unfolding c' fleet_work_saved [OF m] fleet_work_here [of F c] ..
  have "routesChoice (fl_Lib F) c' (ordered_routes c) [] = Inr rejected"
    by (rule routesChoice_again [OF routes]) (simp_all add: c' r)
  moreover have "gatewaysChoice F c' rejected (leaseNames (fs_Pool c')) = Inr ()"
    using gws unfolding gatewaysChoice_rest gatewayChoice_rest leaseNames_def by (simp add: c' r gateway_key_def)
  moreover have "attachChoice (fl_Lib F) (fs_Pool c') rejected (indexed_routes F (ordered_routes c)) = Inr ()"
    using att unfolding attachChoice_rest unattached_def by (simp add: c')
  moreover have "publishChoice (fl_Lib F) (fs_Pool c') rejected = Inr ()" by (simp add: publishChoice_def c' wf)
  moreover have "orphanedLease (ordered_routes c) (fleet_leases (fs_Pool c')) = None" "ordered_routes c' = ordered_routes c"
    using none by (simp_all add: c')
  ultimately have "leasesChoice F c' = Inr ()" by (simp add: leasesChoice_def Let_def)
  moreover have "containsFinalizer (fl_Lib F) (om_Finalizers (gp_Meta (fs_Pool c'))) PoolCleanupFinalizer" "gt_FrozenSpec (gp_Status (fs_Pool c')) \<noteq> None"
    using fin frozen by (simp_all add: c' r)
  ultimately show "fleetChoice F c' = Inr ()" by (simp add: fleetChoice_def Let_def)
qed


lemma fleet_step:
  assumes choice: "fleetChoice F c = Inl e" and c: "orderly F c" and libs: "fleet_libs F" and st: "stored e c c'"
  shows "orderly F c' \<and> (fleet_work F c' < fleet_work F c \<or> fleet_work F c' = fleet_work F c \<and> fleetChoice F c' = Inr ())"
  using fleetChoice_does [OF choice c]
proof (cases rule: fleet_does.cases)
  case adopt
  note a = orderly_adopted [OF c st [unfolded adopt(1)]]
  have "fleet_work F c' < fleet_work F c"
    using adopt(2) libs unfolding fleet_work_def Let_def a(2-6) by (simp add: fleet_libs_def finalizer_laws_def)
  with a(1) show ?thesis by blast
next
  case freeze
  with st show ?thesis by (auto elim!: stored_status dest: step_freeze [OF c freeze(2) _ refl])
next
  case (retire uid a rejected)
  with st show ?thesis by (auto elim!: stored_status dest: step_retire [OF c retire(2-6) _ refl])
next
  case (reserve route svc port hp a q rejected)
  with st show ?thesis by (auto elim!: stored_status dest: step_reserve [OF c reserve(2-6)])
next
  case (confirm uid a rejected)
  with st show ?thesis by (auto elim!: stored_status dest: step_confirm [OF c confirm(2-5) _ refl])
next
  case (create name)
  with st step_create [OF c create(2-4) libs] show ?thesis by blast
next
  case (enter name g rejected)
  with st show ?thesis by (auto elim!: stored_status dest: step_enter [OF c enter(2-6) _ refl])
next
  case (repair name g)
  with st step_repair [OF c repair(2-5)] show ?thesis by blast
next
  case (parent route a)
  with st step_parent [OF c parent(2,3)] show ?thesis by blast
next
  case (publish rejected)
  with st show ?thesis by (auto elim!: stored_status dest: fleet_published [OF c publish(2-8) _ refl])
qed

section \<open>What rest means\<close>

text \<open>The reasons to reject a route.\<close>

definition refused :: "fleet_store \<Rightarrow> udp_route \<Rightarrow> bool" where
  "refused c route \<longleftrightarrow>
     (let p = fs_Pool c; lease = map_of (fleet_leases p) (route_uid route)
      in routeProblem p (fs_Others c) route lease \<noteq> '''' \<or>
         (case routeTarget (fs_Services c) route of Inl e \<Rightarrow> True | Inr (svc, port, hp) \<Rightarrow>
           (case lease of Some a \<Rightarrow> serviceChanged a route svc port hp | None \<Rightarrow> (\<exists>e. reserve p route svc port hp = Inl e))))"

text \<open>A route is served: its lease is active and confirmed, its parent reference names the lease, and the recorded Gateway has the listener.\<close>

definition served :: "fleet_store \<Rightarrow> udp_route \<Rightarrow> bool" where
  "served c route \<longleftrightarrow>
     (let p = fs_Pool c
      in \<exists>a g. map_of (fleet_leases p) (route_uid route) = Some a \<and> \<not> ga_Tombstone a \<and> ga_Attached a \<and> matchesParent route a \<and>
           fs_Gateways c (gateway_key p (ga_GatewayName a)) = Some g \<and> leaseListener a \<in> set (gy_Listeners (normalizedGateway g)) \<and>
           get_or '''' (gt_Gateways (gp_Status p)) (ga_GatewayName a) = om_UID (gw_Meta g))"

text \<open>
  Every route that concerns the pool is either refused, and its rejection published, or served; every other lease
  is retired; every Gateway has exactly the listeners of the ledger.
\<close>

definition fleet_done :: "fleet_store \<Rightarrow> bool" where
  "fleet_done c \<longleftrightarrow>
     (let p = fs_Pool c
      in (\<forall>route \<in> set (fs_Routes c). concerned p route \<longrightarrow>
            (if refused c route then has_key (gt_RejectedRoutes (gp_Status p)) (route_uid route)
             else served c route \<and> \<not> has_key (gt_RejectedRoutes (gp_Status p)) (route_uid route))) \<and>
         (\<forall>(uid, a) \<in> set (fleet_leases p). uid \<notin> route_uid ` set (fs_Routes c) \<longrightarrow> ga_Tombstone a) \<and>
         (\<forall>a \<in> snd ` set (fleet_leases p). \<exists>g. fs_Gateways c (gateway_key p (ga_GatewayName a)) = Some g \<and>
            gy_Listeners (normalizedGateway g) = desiredListeners (fleet_leases p) (ga_GatewayName a)))"

lemma has_key_update [simp]: "has_key (AList.update k v m) k' \<longleftrightarrow> k' = k \<or> has_key m k'"
  by (simp add: has_key_def gomap_simps)

lemma routeChoice_keys:
  "routeChoice L c route rejected = Inr rejected' \<Longrightarrow>
     has_key rejected' uid \<longleftrightarrow> has_key rejected uid \<or> uid = route_uid route \<and> concerned (fs_Pool c) route \<and> refused c route"
  by (auto simp: routeChoice_def leaseChoice_def refused_def Let_def split: if_splits sum.splits prod.splits option.splits)

lemma routesChoice_keys:
  "routesChoice L c routes rejected = Inr rejected' \<Longrightarrow>
     has_key rejected' uid \<longleftrightarrow> has_key rejected uid \<or> (\<exists>route \<in> set routes. uid = route_uid route \<and> concerned (fs_Pool c) route \<and> refused c route)"
  by (induction routes arbitrary: rejected) (auto simp: routeChoice_keys split: sum.splits)

lemma routesChoice_each:
  "routesChoice L c routes rejected = Inr rejected' \<Longrightarrow> route \<in> set routes \<Longrightarrow>
     \<exists>r r'. routeChoice L c route r = Inr r' \<and> (\<forall>uid. has_key r uid \<longrightarrow> has_key rejected' uid)"
proof (induction routes arbitrary: rejected)
  case (Cons x xs)
  then obtain r1 where r1: "routeChoice L c x rejected = Inr r1" "routesChoice L c xs r1 = Inr rejected'" by (auto split: sum.splits)
  show ?case
  proof (cases "route = x")
    case True
    with r1 routeChoice_keys [OF r1(1)] routesChoice_keys [OF r1(2)] show ?thesis by blast
  next
    case False
    with Cons.IH [OF r1(2)] Cons.prems(2) show ?thesis by simp
  qed
qed simp

lemma routeChoice_accepted:
  assumes "routeChoice L c route rejected = Inr rejected'" "concerned (fs_Pool c) route" "\<not> refused c route" "get_or '''' rejected (route_uid route) = ''''"
  shows "\<exists>a. map_of (fleet_leases (fs_Pool c)) (route_uid route) = Some a \<and> \<not> ga_Tombstone a \<and>
    (if ur_ParentRefs route = [] then \<not> ga_Attached a else matchesParent route a \<and> ga_Attached a)"
  using assms
  by (auto simp: routeChoice_def leaseChoice_def refused_def Let_def routeProblem_def split: if_splits sum.splits prod.splits option.splits)


lemma get_or_absent: "\<not> has_key m k \<Longrightarrow> get_or z m k = z"
  by (simp add: has_key_def get_or_def)

lemma fleetChoice_rest:
  assumes "fleetChoice F c = Inr ()"
  obtains rejected where "orphanedLease (ordered_routes c) (fleet_leases (fs_Pool c)) = None" "gt_FrozenSpec (gp_Status (fs_Pool c)) \<noteq> None"
    "routesChoice (fl_Lib F) c (ordered_routes c) [] = Inr rejected" "gatewaysChoice F c rejected (leaseNames (fs_Pool c)) = Inr ()"
    "attachChoice (fl_Lib F) (fs_Pool c) rejected (indexed_routes F (ordered_routes c)) = Inr ()"
    "publishChoice (fl_Lib F) (fs_Pool c) rejected = Inr ()"
  using assms by (auto simp: fleetChoice_def leasesChoice_def Let_def split: if_splits option.splits sum.splits)

lemma publishChoice_rest:
  assumes "publishChoice L p rejected = Inr ()" "wf_map (gt_RejectedRoutes (gp_Status p))" "wf_map rejected"
  shows "has_key (gt_RejectedRoutes (gp_Status p)) uid \<longleftrightarrow> has_key rejected uid"
  using assms same_map_map_of [OF assms(2,3)] by (auto simp: publishChoice_def has_key_def split: if_splits)

lemma fleet_rest_done:
  assumes rest: "fleetChoice F c = Inr ()" and c: "orderly F c" and libs: "fleet_libs F"
  shows "fleet_done c"
proof -
  let ?p = "fs_Pool c"
  obtain rejected where none: "orphanedLease (ordered_routes c) (fleet_leases ?p) = None" and frozen: "gt_FrozenSpec (gp_Status ?p) \<noteq> None"
    and routes: "routesChoice (fl_Lib F) c (ordered_routes c) [] = Inr rejected" and gws: "gatewaysChoice F c rejected (leaseNames ?p) = Inr ()"
    and att: "attachChoice (fl_Lib F) ?p rejected (indexed_routes F (ordered_routes c)) = Inr ()" and pub: "publishChoice (fl_Lib F) ?p rejected = Inr ()"
    by (rule fleetChoice_rest [OF rest])
  have wf: "wf_map rejected" by (rule routesChoice_wf [OF routes]) simp
  have published: "has_key (gt_RejectedRoutes (gp_Status ?p)) uid \<longleftrightarrow> has_key rejected uid" for uid
    by (rule publishChoice_rest [OF pub _ wf]) (use c in \<open>simp add: orderly_def\<close>)
  have inj: "inj_on route_uid (set (ordered_routes c))" using c by (simp add: orderly_def distinct_map)
  have keys: "has_key rejected (route_uid r) \<longleftrightarrow> concerned ?p r \<and> refused c r" if "r \<in> set (fs_Routes c)" for r
    using routesChoice_keys [OF routes, of "route_uid r"] inj that by (auto simp: has_key_def dest: inj_onD)
  have gateway: "\<exists>g. fs_Gateways c (gateway_key ?p (ga_GatewayName a)) = Some g \<and>
      get_or '''' (gt_Gateways (gp_Status ?p)) (ga_GatewayName a) = om_UID (gw_Meta g) \<and>
      gy_Listeners (normalizedGateway g) = desiredListeners (fleet_leases ?p) (ga_GatewayName a)" if a: "a \<in> snd ` set (fleet_leases ?p)" for a
  proof -
    have name: "ga_GatewayName a \<in> shard_names ?p" using a by (simp add: shard_names_def)
    obtain g where g: "fs_Gateways c (gateway_key ?p (ga_GatewayName a)) = Some g" "get_or '''' (gt_Gateways (gp_Status ?p)) (ga_GatewayName a) \<noteq> ''''"
      "gy_Listeners (normalizedGateway g) = desiredListeners (fleet_leases ?p) (ga_GatewayName a)"
      using gws a unfolding gatewaysChoice_rest gatewayChoice_rest set_leaseNames by blast
    with orderly_untouched(1) [OF c frozen name g(1)] show ?thesis by (auto simp: untouched_def ownedGateway_def Let_def split: if_splits)
  qed
  have "served c r" if r: "r \<in> set (fs_Routes c)" "concerned ?p r" "\<not> refused c r" for r
  proof -
    have free: "\<not> has_key rejected (route_uid r)" using keys r by blast
    obtain r0 r1 where "routeChoice (fl_Lib F) c r r0 = Inr r1" "\<not> has_key r0 (route_uid r)"
      using routesChoice_each [OF routes, of r] r(1) free by auto
    then obtain a where a: "map_of (fleet_leases ?p) (route_uid r) = Some a" "\<not> ga_Tombstone a"
      "if ur_ParentRefs r = [] then \<not> ga_Attached a else matchesParent r a \<and> ga_Attached a"
      using routeChoice_accepted [of "fl_Lib F" c r r0 r1] r(2,3) get_or_absent by metis
    have "r \<in> set (indexed_routes F (ordered_routes c))"
      using indexed_routes_all [of F "ordered_routes c", OF _ inj] r(1) libs by (simp add: fleet_libs_def)
    with att have "unattached ?p rejected r = None" by (simp add: attachChoice_rest)
    with a r(2) free have "ur_ParentRefs r \<noteq> []" by (auto simp: unattached_def concerned_def get_or_absent)
    moreover have mem: "a \<in> snd ` set (fleet_leases ?p)" using map_of_SomeD [OF a(1)] by force
    moreover have "leaseListener a \<in> set (desiredListeners (fleet_leases ?p) (ga_GatewayName a))"
      using chosen_live [OF mem a(2)] by (simp add: desiredListeners_chosen)
    ultimately show ?thesis using a gateway [OF mem] by (auto simp: served_def Let_def)
  qed
  moreover have "ga_Tombstone a" if "(uid, a) \<in> set (fleet_leases ?p)" "uid \<notin> route_uid ` set (fs_Routes c)" for uid a
    using none that by (auto simp: orphanedLease_def find_None_iff routesByUID_None)
  ultimately show ?thesis
    using gateway keys unfolding fleet_done_def Let_def published by fastforce
qed

section \<open>Convergence\<close>

text \<open>One reconciliation, seen from the API server.\<close>

definition fleet_pass :: "'w fleet \<Rightarrow> object_key \<Rightarrow> 'w \<Rightarrow> 'w" where
  "fleet_pass F req w = world (snd (run_state (fleetReconcile F req) \<lparr>world = w, writes = []\<rparr>))"

text \<open>The reconciliation of the request on a working API server.\<close>

definition fleet_served_by :: "'w fleet \<Rightarrow> object_key \<Rightarrow> ('w \<Rightarrow> fleet_store) \<Rightarrow> bool" where
  "fleet_served_by F req view \<longleftrightarrow>
     fst req = fl_Namespace F \<and> store_api (fl_Client F) (fl_Namespace F) req view \<and> fleet_libs F"

lemma fleet_pass_run:
  assumes "fleet_served_by F req view" "orderly F (view w)"
  obtains s' where "run_state (fleetReconcile F req) \<lparr>world = w, writes = []\<rparr> = (again None, s')" "world s' = fleet_pass F req w"
    "stepped view (view w) (fleetChoice F (view w)) [] s'"
proof -
  have "ends view (view w) (fleetReconcile F req) (fleetChoice F (view w))"
    using assms by (intro ends_fleetReconcile) (simp_all add: fleet_served_by_def)
  from endsD [OF this, of "\<lparr>world = w, writes = []\<rparr>"] show thesis
    by (intro that) (auto simp: wp_def fleet_pass_def split: prod.splits)
qed

interpretation fleet_settling: settling "fleet_pass F req" "\<lambda>w. fleet_served_by F req view \<and> orderly F (view w)"
  "\<lambda>w. fleet_work F (view w)" "\<lambda>w. fleetChoice F (view w) = Inr ()" for F :: "'w fleet" and req and view
proof (unfold_locales, goal_cases)
  case (1 w)
  then obtain s' where "world s' = fleet_pass F req w" "stepped view (view w) (fleetChoice F (view w)) [] s'" by (elim conjE fleet_pass_run)
  with 1 fleet_step [of F "view w"] show ?case by (cases "fleetChoice F (view w)") (auto simp: fleet_served_by_def)
next
  case (2 w)
  then obtain s' where "world s' = fleet_pass F req w" "stepped view (view w) (fleetChoice F (view w)) [] s'" by (elim conjE fleet_pass_run)
  with 2 fleet_step [of F "view w"] show ?case by (cases "fleetChoice F (view w)") (auto simp: fleet_served_by_def)
next
  case (3 w)
  then obtain s' where "world s' = fleet_pass F req w" "stepped view (view w) (fleetChoice F (view w)) [] s'" by (elim conjE fleet_pass_run)
  with 3 show ?case by auto
qed

text \<open>
  C4. A Gateway pool converges.  On a working API server that nobody else writes to, from any orderly state,
  after at most twice the counted work plus one reconciliations nothing is left to do: the next one succeeds
  and writes nothing, every route that concerns the pool is served through a confirmed lease and a recorded
  Gateway with its listener, unless there is a reason to refuse it, in which case the rejection is published;
  leases of routes that are gone are retired, and every Gateway has exactly the listeners of the ledger.
\<close>

theorem fleet_converges:
  assumes "fleet_served_by F req view" and "orderly F (view w)" and "2 * fleet_work F (view w) + 1 \<le> n"
  shows "fleet_done (view ((fleet_pass F req ^^ n) w)) \<and>
    (\<exists>s'. run_state (fleetReconcile F req) \<lparr>world = (fleet_pass F req ^^ n) w, writes = []\<rparr> = ((RequeueSoon, None), s') \<and>
       writes s' = [] \<and> view (world s') = view ((fleet_pass F req ^^ n) w))"
proof -
  let ?w = "(fleet_pass F req ^^ n) w"
  have rest: "orderly F (view ?w)" "fleetChoice F (view ?w) = Inr ()"
    using fleet_settling.settles [of F req view w n] assms by simp_all
  obtain s' where "run_state (fleetReconcile F req) \<lparr>world = ?w, writes = []\<rparr> = (again None, s')" "stepped view (view ?w) (fleetChoice F (view ?w)) [] s'"
    using assms(1) rest(1) by (rule fleet_pass_run)
  moreover have "fleet_done (view ?w)"
    using assms(1) by (intro fleet_rest_done [OF rest(2,1)]) (simp add: fleet_served_by_def)
  ultimately show ?thesis using rest(2) by simp
qed


section \<open>A concrete server\<close>

text \<open>The simplest server that satisfies the hypotheses: the world is the store.\<close>

fun store_write :: "gw_write \<Rightarrow> fleet_store \<Rightarrow> fleet_store" where
  "store_write (UpdateGatewayPoolStatus q) c = c\<lparr>fs_Pool := (fs_Pool c)\<lparr>gp_Status := gp_Status q\<rparr>\<rparr>"
| "store_write (UpdateGatewayPool q) c = c\<lparr>fs_Pool := (fs_Pool c)\<lparr>gp_Meta := gp_Meta q, gp_Spec := gp_Spec q\<rparr>\<rparr>"
| "store_write (CreateGateway g) c = c\<lparr>fs_Gateways := (fs_Gateways c)(key_of (gw_Meta g) \<mapsto>
     g\<lparr>gw_Meta := (gw_Meta g)\<lparr>om_UID := ''uid-'' @ om_Name (gw_Meta g)\<rparr>\<rparr>)\<rparr>"
| "store_write (UpdateGateway g) c = c\<lparr>fs_Gateways := (fs_Gateways c)(key_of (gw_Meta g) \<mapsto> g)\<rparr>"
| "store_write (UpdateRoute r) c = c\<lparr>fs_Routes := map (\<lambda>x. if key_of (ur_Meta x) = key_of (ur_Meta r) then r else x) (fs_Routes c)\<rparr>"
| "store_write _ c = c"

definition absent :: "object_key \<Rightarrow> fleet_store \<Rightarrow> (go_error + 'a) \<times> fleet_store" where
  "absent k c = (Inl (NotFound (snd k)), c)"

definition store_client :: "fleet_store gw_client" where
  "store_client = \<lparr>gk_ListRoutes = (\<lambda>ns c. (Inr (fs_Routes c), c)), gk_ListBindings = (\<lambda>ns c. (Inr [], c)),
     gk_ListPools = (\<lambda>ns c. (Inr [], c)), gk_ListServices = (\<lambda>ns c. (Inr [], c)),
     gk_ListGatewayPools = (\<lambda>ns c. (Inr (fs_Pool c # fs_Others c), c)),
     gk_GetGateway = (\<lambda>k c. ((case fs_Gateways c k of None \<Rightarrow> Inl (NotFound (snd k)) | Some g \<Rightarrow> Inr g), c)),
     gk_GetClass = (\<lambda>k. absent ([], k)), gk_GetPool = absent, gk_GetBinding = absent,
     gk_GetService = (\<lambda>k c. (fs_Services c k, c)), gk_GetConfigMap = absent,
     gk_GetGatewayPool = (\<lambda>k c. (Inr (fs_Pool c), c)), gk_CreatePool = (\<lambda>p c. (Inr p, c)), gk_UpdateNlbPool = (\<lambda>p c. (Inr p, c)),
     gk_CreateBinding = (\<lambda>b c. (Inr b, c)), gk_PatchBinding = (\<lambda>b c. (Inr b, c)), gk_PatchGateway = (\<lambda>g c. (Inr g, c)),
     gk_Submit = (\<lambda>e c. (None, store_write e c)), gk_CtxErr = (\<lambda>c. None)\<rparr>"

lemma reversioned_refl [simp]: "reversioned m m"
  unfolding reversioned_def by (intro exI [of _ "om_ResourceVersion m"] exI [of _ "om_Generation m"]) simp

lemma filled_refl [simp]: "filled r r"
  unfolding filled_def by (intro exI [of _ "pr_Group r"] exI [of _ "pr_Kind r"]) simp

lemma store_write_stored:
  assumes "acceptable c e"
  shows "stored e c (store_write e c)"
proof (cases e)
  case (CreateGateway g)
  have "created (gw_Meta g) ((gw_Meta g)\<lparr>om_UID := ''uid-'' @ om_Name (gw_Meta g)\<rparr>)"
    unfolding created_def
    by (intro exI [of _ "''uid-'' @ om_Name (gw_Meta g)"] exI [of _ "om_ResourceVersion (gw_Meta g)"] exI [of _ "om_Generation (gw_Meta g)"]
        exI [of _ "om_CreationTimestamp (gw_Meta g)"]) simp
  then show ?thesis by (auto simp: CreateGateway normalizedGateway_def intro!: stored.create)
next
  case (UpdateGateway g)
  then show ?thesis by (auto intro!: stored.gateway)
next
  case (UpdateRoute r)
  have "list_all2 filled (ur_ParentRefs r) (ur_ParentRefs r)" by (rule list.rel_refl) simp
  from stored.route [where c = c and r = r, OF reversioned_refl this] UpdateRoute show ?thesis by (simp cong: if_cong)
next
  case (UpdateGatewayPool q)
  then show ?thesis using stored.pool [where c = c and q = q, OF reversioned_refl] by simp
next
  case (UpdateGatewayPoolStatus q)
  then show ?thesis using stored.status [where c = c and q = q, OF reversioned_refl] by simp
qed (use assms in simp_all)

lemma store_client_api: "store_api store_client ns req (\<lambda>c. c)"
  by (auto simp: store_api_def store_client_def reads_def found_def is_not_found_def store_write_stored split: option.split)

text \<open>A new pool and a route that asks for it; nothing else exists.\<close>

definition served_route :: udp_route where
  "served_route = (demo_route ''r1'')\<lparr>
     ur_Meta := (meta_named ''ns'' ''r1'' ''r1'')\<lparr>om_Annotations := [(PoolAnnotation, ''fleet''), (ModeAnnotation, ''NodePortCluster'')]\<rparr>,
     ur_Rules := [[\<lparr>br_Group = None, br_Kind = None, br_Namespace = None, br_Name = ''s1'', br_Port = Some 5000, br_Weight = None\<rparr>]]\<rparr>"

definition served_service :: service where
  "served_service = (plain_service ''s1'')\<lparr>sv_Type := ''NodePort'', sv_ExternalTrafficPolicy := ''Cluster'',
     sv_Ports := [\<lparr>sp_Name = ''udp'', sp_Protocol = ''UDP'', sp_Port = 5000, sp_TargetPort = \<lparr>is_Type = 0, is_IntVal = 5000, is_StrVal = []\<rparr>, sp_NodePort = 30000\<rparr>]\<rparr>"

definition start_store :: fleet_store where
  "start_store = \<lparr>fs_Pool = new_fleet\<lparr>gp_Meta := meta_named ''ns'' ''fleet'' ''fleet-uid'',
       gp_Status := (gp_Status new_fleet)\<lparr>gt_FrozenSpec := None\<rparr>\<rparr>,
     fs_Others = [], fs_Routes = [served_route],
     fs_Services = (\<lambda>k. if snd k = ''s1'' then Inr served_service else Inl (NotFound (snd k))), fs_Gateways = (\<lambda>_. None)\<rparr>"

definition store_fleet :: "fleet_store fleet" where
  "store_fleet = \<lparr>fl_Client = store_client, fl_Lib = list_lib, fl_Json = no_json, fl_Namespace = ''ns'', fl_Installation = ''inst'',
     fl_ClassName = ''nlb'', fl_Range = (\<lambda>ks. ks)\<rparr>"

lemma store_fleet_served: "fleet_served_by store_fleet (''ns'', ''fleet'') (\<lambda>c. c)"
  using finalizer_laws_list_lib
  by (simp add: fleet_served_by_def store_fleet_def store_client_api fleet_libs_def) (simp add: list_lib_def)

lemma start_store_orderly: "orderly store_fleet start_store"
  by (simp add: orderly_def start_store_def store_fleet_def fleet_safe_def fleet_in_use_def new_fleet_def demo_fleet_spec_def Validate_def
      effectiveWorkers_def meta_named_def shard_intact_def is_not_found_def served_route_def)

lemma start_store_work: "fleet_work store_fleet start_store = 7"
  by (simp add: fleet_work_def start_store_def store_fleet_def orphans_def unleased_def unconfirmed_def parentless_def shards_work_def
      shard_names_def new_fleet_def meta_named_def list_lib_def served_route_def demo_route_def)

lemma first_slot: "try_shards [] 20000 2 2 0 = Some (0, 20000)"
  by (simp add: try_shards.simps [of _ _ _ _ 0] try_offsets.simps [of _ _ _ _ 0])

lemma start_store_accepts: "concerned (fs_Pool start_store) served_route \<and> \<not> refused start_store served_route"
  by (simp add: concerned_def refused_def Let_def start_store_def served_route_def demo_fleet_defs routeProblem_def leasedByOther_def
      routeTarget_def routeBackend_def annotatedHealth_def PoolAnnotation_def ModeAnnotation_def HealthAnnotation_def knownMode_def
      checkRouteService_def served_service_def fleetServiceOK_def healthError_def namedUdp_def usesNodePort_def noNodePort_def
      reserve_def Validate_def effectiveWorkers_def map_values_def first_slot)

text \<open>Nothing exists but a new pool and an acceptable route that asks for it.\<close>

theorem fleet_converges_witness:
  "concerned (fs_Pool start_store) served_route \<and> \<not> refused start_store served_route \<and>
   fleet_done ((fleet_pass store_fleet (''ns'', ''fleet'') ^^ 15) start_store) \<and>
   (\<exists>s'. run_state (fleetReconcile store_fleet (''ns'', ''fleet''))
        \<lparr>world = (fleet_pass store_fleet (''ns'', ''fleet'') ^^ 15) start_store, writes = []\<rparr> = ((RequeueSoon, None), s') \<and> writes s' = [])"
  using fleet_converges [OF store_fleet_served start_store_orderly, of 15] start_store_work start_store_accepts by auto

end
