(* ===== verification/Gateway_Adapter.thy ===== *)
theory Gateway_Adapter
  imports Gateway_Policy "HOL-Library.Product_Lexorder"
begin

text \<open>
  \<^verbatim>\<open>internalgateway/reconciler.go\<close> and \<^verbatim>\<open>cleanup.go\<close>: the adapter that keeps one explicit pool per Gateway
  and one tunnel binding per accepted route, reports their state on the Gateway API objects, and retires
  a deleted Gateway after archiving its ledger.

  The long \<^verbatim>\<open>Reconcile\<close> is cut at its early returns.  An operation that may end the reconciliation answers
  with \<^const>\<open>Inl\<close> of the answer, or with \<^const>\<open>Inr\<close> of what the rest needs.
\<close>

section \<open>Definitions\<close>

record 'w adapter =
  ad_Client :: "'w gw_client"
  ad_Lib :: kube_lib
  ad_Json :: json_lib
  ad_Namespace :: string
  ad_GatewayClassName :: string
  ad_ControllerName :: string
  ad_Installation :: string
  ad_Compartment :: string
  ad_Subnet :: string

definition poolUIDAnnotation :: string where
  "poolUIDAnnotation = ''nlb.independent.dev/internal-pool-uid''"

definition PoolArchiveFinalizer :: string where
  "PoolArchiveFinalizer = ''nlb.independent.dev/gateway-pool-archive''"

abbreviation finalized :: "'w adapter \<Rightarrow> string \<Rightarrow> object_meta \<Rightarrow> bool" where
  "finalized A f m \<equiv> containsFinalizer (ad_Lib A) (om_Finalizers m) f"

definition finalize :: "'w adapter \<Rightarrow> string \<Rightarrow> object_meta \<Rightarrow> object_meta" where
  "finalize A f m = m\<lparr>om_Finalizers := addFinalizer (ad_Lib A) (om_Finalizers m) f\<rparr>"

definition unfinalize :: "'w adapter \<Rightarrow> string \<Rightarrow> object_meta \<Rightarrow> object_meta" where
  "unfinalize A f m = m\<lparr>om_Finalizers := removeFinalizer (ad_Lib A) (om_Finalizers m) f\<rparr>"

text \<open>The last element with the given key, as after a loop that fills a map.\<close>

definition last_with :: "('a \<Rightarrow> string) \<Rightarrow> 'a list \<Rightarrow> string \<Rightarrow> 'a option" where
  "last_with key xs k = find (\<lambda>x. key x = k) (rev xs)"

definition later :: "go_error option \<Rightarrow> answer" where
  "later e = (RequeueLater, e)"

subsection \<open>Ownership\<close>

definition adapterLabels :: "'w adapter \<Rightarrow> string \<Rightarrow> string \<Rightarrow> (string, string) gomap" where
  "adapterLabels A gatewayUID routeUID =
     [(GatewayUIDLabel, gatewayUID), (InstallationLabel, ad_Installation A)] @
     (if routeUID \<noteq> '''' then [(RouteUIDLabel, routeUID)] else [])"

definition gatewayOwner :: "gateway \<Rightarrow> owner_reference" where
  "gatewayOwner g = \<lparr>or_APIVersion = GatewayGroupVersion, or_Kind = ''Gateway'', or_Name = om_Name (gw_Meta g),
     or_UID = om_UID (gw_Meta g), or_Controller = Some True, or_BlockOwnerDeletion = Some True\<rparr>"

definition ownsObject :: "'w adapter \<Rightarrow> object_meta \<Rightarrow> string \<Rightarrow> bool" where
  "ownsObject A m gatewayUID \<longleftrightarrow>
     om_Namespace m = ad_Namespace A \<and> gatewayUID \<noteq> '''' \<and> label m GatewayUIDLabel = gatewayUID \<and>
     label m InstallationLabel = ad_Installation A \<and>
     list_ex (\<lambda>owner. or_UID owner = gatewayUID \<and> or_APIVersion owner = GatewayGroupVersion \<and>
       or_Kind owner = ''Gateway'' \<and> or_Controller owner = Some True) (om_OwnerReferences m)"

definition ownsBinding :: "'w adapter \<Rightarrow> tunnel_binding \<Rightarrow> bool" where
  "ownsBinding A b =
     (let g = label (tb_Meta b) GatewayUIDLabel; route = label (tb_Meta b) RouteUIDLabel
      in route \<noteq> '''' \<and> ownsObject A (tb_Meta b) g \<and> om_Name (tb_Meta b) = BindingName g route \<and>
         bs_Pool (tb_Spec b) = PoolName g)"

definition deleteExact :: "'w adapter \<Rightarrow> object_meta \<Rightarrow> gw_write \<Rightarrow> ('w, go_error option) gw_op" where
  "deleteExact A m e =
     (if om_UID m = '''' then State_Monad.return (Some (Errorf ''refusing deletion without UID''))
      else do { r \<leftarrow> submit (ad_Client A) e; State_Monad.return (ignoreNotFound r) })"

text \<open>The error, and the binding as it is in memory afterwards.\<close>

definition disableBinding :: "'w adapter \<Rightarrow> tunnel_binding \<Rightarrow> ('w, go_error + tunnel_binding) gw_op" where
  "disableBinding A b =
     (if \<not> ownsBinding A b then State_Monad.return (Inl (Errorf ''cannot disable unowned binding''))
      else if bs_Suspended (tb_Spec b) \<or> om_Deleting (tb_Meta b) then State_Monad.return (Inr b)
      else let b' = b\<lparr>tb_Spec := (tb_Spec b)\<lparr>bs_Suspended := True\<rparr>\<rparr>
      in issue (PatchBinding b') (gk_PatchBinding (ad_Client A) b'))"

subsection \<open>Status\<close>

text \<open>The conditions of the last matching entry of the old status, or none.\<close>

definition priorConditions :: "('a \<Rightarrow> bool) \<Rightarrow> ('a \<Rightarrow> condition list) \<Rightarrow> 'a list \<Rightarrow> condition list" where
  "priorConditions matches conds xs = (case find matches (rev xs) of None \<Rightarrow> [] | Some x \<Rightarrow> conds x)"

definition parentStatus :: "'w adapter \<Rightarrow> udp_route \<Rightarrow> bool \<Rightarrow> bool \<Rightarrow> bool \<Rightarrow> string \<Rightarrow> string \<Rightarrow> parent_ref \<Rightarrow> parent_status" where
  "parentStatus A route accepted resolved programmed reason message parent =
     (let gen = om_Generation (ur_Meta route); put = setStatusCondition (ad_Lib A);
          prior = priorConditions (\<lambda>p. rp_ControllerName p = ad_ControllerName A \<and> rp_ParentRef p = parent) rp_Conditions (ur_Parents route)
      in \<lparr>rp_ParentRef = parent, rp_ControllerName = ad_ControllerName A,
          rp_Conditions = put (put (put prior
            (condition_for ''Accepted'' accepted (if accepted then ''Accepted'' else reason) message gen))
            (condition_for ''ResolvedRefs'' resolved (if resolved then ''ResolvedRefs'' else reason) message gen))
            (condition_for ''Programmed'' programmed (if programmed then ''Programmed'' else ''Pending'') message gen)\<rparr>)"

definition routeStatus :: "'w adapter \<Rightarrow> gateway \<Rightarrow> udp_route \<Rightarrow> bool \<Rightarrow> bool \<Rightarrow> bool \<Rightarrow> string \<Rightarrow> string \<Rightarrow>
    ('w, go_error option) gw_op" where
  "routeStatus A g route accepted resolved programmed reason message =
     (let ours = (\<lambda>p. parentMatches p (om_Name (gw_Meta g)) (om_Namespace (ur_Meta route)));
          kept = filter (\<lambda>p. rp_ControllerName p \<noteq> ad_ControllerName A \<or> \<not> ours (rp_ParentRef p)) (ur_Parents route);
          parents = kept @ map (parentStatus A route accepted resolved programmed reason message) (filter ours (ur_ParentRefs route))
      in if parents = ur_Parents route then State_Monad.return None
         else submit (ad_Client A) (PatchRouteStatus (route\<lparr>ur_Parents := parents\<rparr>)))"

definition targets :: "gateway \<Rightarrow> udp_route \<Rightarrow> bool" where
  "targets g route \<longleftrightarrow>
     list_ex (\<lambda>p. parentMatches p (om_Name (gw_Meta g)) (om_Namespace (ur_Meta route))) (ur_ParentRefs route)"

fun rejectRoutes :: "'w adapter \<Rightarrow> gateway \<Rightarrow> udp_route list \<Rightarrow> string \<Rightarrow> ('w, go_error option) gw_op" where
  "rejectRoutes A g [] message = State_Monad.return None"
| "rejectRoutes A g (route # routes) message =
     (if targets g route then do {
        e \<leftarrow> routeStatus A g route False False False ''UnsupportedValue'' message;
        case e of Some x \<Rightarrow> State_Monad.return (Some x) | None \<Rightarrow> rejectRoutes A g routes message
      }
      else rejectRoutes A g routes message)"

record listener_state =
  lt_attached :: int
  lt_programmed :: bool
  lt_message :: string

definition no_state :: listener_state where
  "no_state = \<lparr>lt_attached = 0, lt_programmed = False, lt_message = ''''\<rparr>"

definition listenerReport :: "'w adapter \<Rightarrow> gateway \<Rightarrow> (string, listener_state) gomap \<Rightarrow> go_error option \<Rightarrow> gw_listener \<Rightarrow>
    listener_status" where
  "listenerReport A g states problem l =
     (let state = get_or no_state states (gl_Name l); gen = om_Generation (gw_Meta g); put = setStatusCondition (ad_Lib A);
          prior = priorConditions (\<lambda>p. ls_Name p = gl_Name l) ls_Conditions (gu_Listeners (gw_Status g));
          message = (case problem of Some e \<Rightarrow> error_text e
            | None \<Rightarrow> (if lt_attached state = 0 then ''Listener has no accepted route'' else lt_message state));
          reason = (case problem of Some e \<Rightarrow> ''UnsupportedValue''
            | None \<Rightarrow> (if lt_attached state = 0 then ''WaitingForRoute''
                else if 0 < lt_attached state \<and> \<not> lt_programmed state then ''Pending'' else ''Programmed''));
          ready = (problem = None \<and> lt_programmed state);
          conflicted = list_ex (\<lambda>x. gl_Name x \<noteq> gl_Name l \<and> gl_Port x = gl_Port l \<and> gl_Protocol x = gl_Protocol l) (gy_Listeners (gw_Spec g))
      in \<lparr>ls_Name = gl_Name l, ls_SupportedKinds = [\<lparr>rk_Group = None, rk_Kind = ''UDPRoute''\<rparr>], ls_AttachedRoutes = lt_attached state,
          ls_Conditions = put (put (put prior
            (condition_for ''Conflicted'' conflicted (if conflicted then ''ProtocolConflict'' else ''NoConflicts'') message gen))
            (condition_for ''Accepted'' (problem = None) (if problem = None then ''Accepted'' else ''UnsupportedValue'') message gen))
            (condition_for ''Programmed'' ready reason message gen)\<rparr>)"

definition gatewayAddresses :: "nlb_pool option \<Rightarrow> (string option \<times> string) list" where
  "gatewayAddresses p =
     (case p of None \<Rightarrow> [] | Some p \<Rightarrow>
       (case pool_shards p of [s] \<Rightarrow> (if sh_PublicIP s \<noteq> '''' then [(Some ''IPAddress'', sh_PublicIP s)] else []) | _ \<Rightarrow> []))"

text \<open>The variable \<^verbatim>\<open>all\<close>: the Gateway is programmed.\<close>

definition allProgrammed :: "gateway \<Rightarrow> nlb_pool option \<Rightarrow> (string, listener_state) gomap \<Rightarrow> go_error option \<Rightarrow> bool" where
  "allProgrammed g p states problem \<longleftrightarrow>
     problem = None \<and> p \<noteq> None \<and> st_PendingWork (np_Status (the p)) = '''' \<and> length (gatewayAddresses p) = 1 \<and>
     list_all (\<lambda>l. lt_programmed (get_or no_state states (gl_Name l))) (gy_Listeners (gw_Spec g))"

definition gatewayReport :: "'w adapter \<Rightarrow> gateway \<Rightarrow> nlb_pool option \<Rightarrow> (string, listener_state) gomap \<Rightarrow> go_error option \<Rightarrow> gateway_status" where
  "gatewayReport A g p states problem =
     (let gen = om_Generation (gw_Meta g); put = setStatusCondition (ad_Lib A); everything = allProgrammed g p states problem;
          reason = (if problem = None then ''Accepted'' else ''UnsupportedValue'');
          message = (case problem of None \<Rightarrow> ''Restricted UDP profile accepted'' | Some e \<Rightarrow> error_text e);
          message' = (if everything then ''Native configuration converged; application readiness is independently measured''
            else if problem = None then ''Waiting for the NLB and every declared listener to have a configured route'' else message)
      in \<lparr>gu_Addresses = gatewayAddresses p, gu_Listeners = map (listenerReport A g states problem) (gy_Listeners (gw_Spec g)),
          gu_Conditions = put (put (gu_Conditions (gw_Status g))
            (condition_for ''Accepted'' (problem = None) reason message gen))
            (condition_for ''Programmed'' everything (if everything then ''Programmed'' else ''Pending'') message' gen)\<rparr>)"

definition gatewayStatus :: "'w adapter \<Rightarrow> gateway \<Rightarrow> nlb_pool option \<Rightarrow> (string, listener_state) gomap \<Rightarrow> go_error option \<Rightarrow>
    ('w, go_error option) gw_op" where
  "gatewayStatus A g p states problem =
     (let st = gatewayReport A g p states problem
      in if st = gw_Status g then State_Monad.return None
         else submit (ad_Client A) (PatchGatewayStatus (g\<lparr>gw_Status := st\<rparr>)))"


subsection \<open>Cleanup\<close>

definition attachedTo :: "udp_route list \<Rightarrow> tunnel_binding \<Rightarrow> bool" where
  "attachedTo routes b =
     (case last_with (\<lambda>r. om_UID (ur_Meta r)) routes (label (tb_Meta b) RouteUIDLabel) of
        None \<Rightarrow> False
      | Some route \<Rightarrow> \<not> om_Deleting (ur_Meta route) \<and>
          list_ex (\<lambda>parent. list_ex (\<lambda>owner. parentMatches parent (or_Name owner) (om_Namespace (ur_Meta route)))
            (om_OwnerReferences (tb_Meta b))) (ur_ParentRefs route))"

text \<open>The loop over the bindings; \<^const>\<open>None\<close> if it runs to its end.\<close>

fun cleanupBindings :: "'w adapter \<Rightarrow> udp_route list \<Rightarrow> tunnel_binding list \<Rightarrow> ('w, (bool \<times> go_error option) option) gw_op" where
  "cleanupBindings A routes [] = State_Monad.return None"
| "cleanupBindings A routes (b # bs) =
     (if label (tb_Meta b) InstallationLabel \<noteq> ad_Installation A \<or> label (tb_Meta b) RouteUIDLabel = ''''
      then cleanupBindings A routes bs
      else if \<not> ownsBinding A b
      then State_Monad.return (Some (False, Some (Errorf ''binding with adapter ownership labels failed exact ownership validation'')))
      else if \<not> attachedTo routes b \<and> \<not> om_Deleting (tb_Meta b) then do {
        e \<leftarrow> deleteExact A (tb_Meta b) (DeleteBinding b);
        State_Monad.return (Some (True, e))
      }
      else cleanupBindings A routes bs)"

definition routePending :: "'w adapter \<Rightarrow> tunnel_binding list \<Rightarrow> nlb_pool list \<Rightarrow> udp_route \<Rightarrow> bool" where
  "routePending A bindings pools route \<longleftrightarrow>
     list_ex (\<lambda>b. label (tb_Meta b) RouteUIDLabel = om_UID (ur_Meta route) \<and> ownsBinding A b) bindings \<or>
     list_ex (\<lambda>p. let gUID = label (np_Meta p) GatewayUIDLabel
        in ownsObject A (np_Meta p) gUID \<and> om_Name (np_Meta p) = PoolName gUID \<and>
           list_ex (\<lambda>a. al_BindingName a = BindingName gUID (om_UID (ur_Meta route)) \<and>
             (\<not> al_Tombstone a \<or> st_PendingWork (np_Status p) \<noteq> '''')) (map_values (pool_allocations p))) pools"

fun releaseRoutes :: "'w adapter \<Rightarrow> tunnel_binding list \<Rightarrow> nlb_pool list \<Rightarrow> udp_route list \<Rightarrow> ('w, bool \<times> go_error option) gw_op" where
  "releaseRoutes A bindings pools [] = State_Monad.return (False, None)"
| "releaseRoutes A bindings pools (route # routes) =
     (if \<not> finalized A RouteFinalizer (ur_Meta route) \<or> (\<not> om_Deleting (ur_Meta route) \<and> ur_ParentRefs route \<noteq> []) \<or>
         routePending A bindings pools route
      then releaseRoutes A bindings pools routes
      else do {
        e \<leftarrow> submit (ad_Client A) (UpdateRoute (route\<lparr>ur_Meta := unfinalize A RouteFinalizer (ur_Meta route)\<rparr>));
        State_Monad.return (True, e)
      })"

definition cleanupRoutes :: "'w adapter \<Rightarrow> udp_route list \<Rightarrow> tunnel_binding list \<Rightarrow> nlb_pool list \<Rightarrow> ('w, bool \<times> go_error option) gw_op" where
  "cleanupRoutes A routes bindings pools = do {
     r \<leftarrow> cleanupBindings A routes bindings;
     case r of Some x \<Rightarrow> State_Monad.return x | None \<Rightarrow> releaseRoutes A bindings pools routes
   }"

text \<open>The labels, owners and immutability that an archive must have.\<close>

definition archiveSealed :: "'w adapter \<Rightarrow> gateway \<Rightarrow> config_map \<Rightarrow> bool" where
  "archiveSealed A g archive \<longleftrightarrow>
     label (cm_Meta archive) GatewayUIDLabel = om_UID (gw_Meta g) \<and> label (cm_Meta archive) InstallationLabel = ad_Installation A \<and>
     om_OwnerReferences (cm_Meta archive) = [] \<and> cm_Immutable archive = Some True"

definition archivedPool :: "'w adapter \<Rightarrow> config_map \<Rightarrow> go_error + nlb_pool" where
  "archivedPool A archive = unmarshalPool (ad_Json A) (get_or '''' (cm_Data archive) ''pool.json'')"

definition retirementProved :: "'w adapter \<Rightarrow> gateway \<Rightarrow> config_map \<Rightarrow> go_error option" where
  "retirementProved A g archive =
     (case archivedPool A archive of
        Inl e \<Rightarrow> Some (Errorf ''retired pool archive ownership mismatch'')
      | Inr archived \<Rightarrow>
          (if \<not> archiveSealed A g archive \<or> om_UID (np_Meta archived) \<noteq> annotation (gw_Meta g) poolUIDAnnotation \<or>
              \<not> ownsObject A (np_Meta archived) (om_UID (gw_Meta g)) \<or> st_PendingWork (np_Status archived) \<noteq> ''''
           then Some (Errorf ''retired pool archive ownership mismatch'')
           else if list_ex (\<lambda>a. \<not> al_Tombstone a) (map_values (pool_allocations archived))
           then Some (Errorf ''retired archive contains active lease'') else None))"

definition archiveKey :: "gateway \<Rightarrow> object_key" where
  "archiveKey g = (om_Namespace (gw_Meta g), ''retired-'' @ om_UID (gw_Meta g))"

definition releaseGateway :: "'w adapter \<Rightarrow> gateway \<Rightarrow> ('w, go_error option) gw_op" where
  "releaseGateway A g = submit (ad_Client A) (UpdateGateway (g\<lparr>gw_Meta := unfinalize A GatewayFinalizer (gw_Meta g)\<rparr>))"

text \<open>The pool is gone.\<close>

definition retireAbsent :: "'w adapter \<Rightarrow> gateway \<Rightarrow> ('w, go_error option) gw_op" where
  "retireAbsent A g =
     (if annotation (gw_Meta g) poolUIDAnnotation = '''' then releaseGateway A g
      else do {
        r \<leftarrow> call (gk_GetConfigMap (ad_Client A) (archiveKey g));
        case r of
          Inl e \<Rightarrow> State_Monad.return (Some (Errorf (''pool absent without retained archive: '' @ error_text e)))
        | Inr archive \<Rightarrow>
            (case retirementProved A g archive of
               Some e \<Rightarrow> State_Monad.return (Some e)
             | None \<Rightarrow> releaseGateway A g)
      })"

definition newArchive :: "'w adapter \<Rightarrow> gateway \<Rightarrow> string \<Rightarrow> config_map" where
  "newArchive A g raw =
     \<lparr>cm_Meta = \<lparr>om_Name = snd (archiveKey g), om_Namespace = fst (archiveKey g), om_UID = '''', om_ResourceVersion = '''',
        om_Generation = 0, om_CreationTimestamp = 0, om_Deleting = False, om_Finalizers = [],
        om_Labels = adapterLabels A (om_UID (gw_Meta g)) '''', om_Annotations = [], om_OwnerReferences = []\<rparr>,
      cm_Immutable = Some True, cm_Data = [(''pool.json'', raw)]\<rparr>"

definition sameLedger :: "nlb_pool \<Rightarrow> nlb_pool \<Rightarrow> bool" where
  "sameLedger prior p \<longleftrightarrow>
     om_UID (np_Meta prior) = om_UID (np_Meta p) \<and> np_Spec prior = np_Spec p \<and>
     same_map (pool_allocations prior) (pool_allocations p) \<and> pool_shards prior = pool_shards p \<and>
     st_PendingWork (np_Status prior) = ''''"

text \<open>Writing the archive, or checking the one that exists; \<^const>\<open>None\<close> when it is in place.\<close>

definition ensureArchive :: "'w adapter \<Rightarrow> gateway \<Rightarrow> nlb_pool \<Rightarrow> string \<Rightarrow> ('w, go_error option) gw_op" where
  "ensureArchive A g p raw = do {
     r \<leftarrow> call (gk_GetConfigMap (ad_Client A) (archiveKey g));
     case r of
       Inl e \<Rightarrow> (if is_not_found e then submit (ad_Client A) (CreateConfigMap (newArchive A g raw)) else State_Monad.return (Some e))
     | Inr archive \<Rightarrow>
         State_Monad.return (case archivedPool A archive of
             Inl e \<Rightarrow> Some (Errorf ''retired archive collision or ledger changed; refusing overwrite'')
           | Inr prior \<Rightarrow>
               (if archiveSealed A g archive \<and> sameLedger prior p then None
                else Some (Errorf ''retired archive collision or ledger changed; refusing overwrite'')))
   }"

definition retirePool :: "'w adapter \<Rightarrow> gateway \<Rightarrow> nlb_pool \<Rightarrow> ('w, go_error option) gw_op" where
  "retirePool A g p =
     (if \<not> ownsObject A (np_Meta p) (om_UID (gw_Meta g)) \<or>
         (annotation (gw_Meta g) poolUIDAnnotation \<noteq> '''' \<and> annotation (gw_Meta g) poolUIDAnnotation \<noteq> om_UID (np_Meta p))
      then State_Monad.return (Some (Errorf ''refusing retirement of foreign pool''))
      else if \<not> om_Deleting (np_Meta p) \<and> \<not> finalized A PoolArchiveFinalizer (np_Meta p)
      then submit (ad_Client A) (UpdateNlbPool (p\<lparr>np_Meta := finalize A PoolArchiveFinalizer (np_Meta p)\<rparr>))
      else if om_Deleting (np_Meta p) \<and> finalized A Finalizer (np_Meta p) then State_Monad.return None
      else if st_PendingWork (np_Status p) \<noteq> '''' \<or> list_ex (\<lambda>a. \<not> al_Tombstone a) (map_values (pool_allocations p))
      then State_Monad.return None
      else (case marshalPool (ad_Json A) p of
              Inl e \<Rightarrow> State_Monad.return (Some e)
            | Inr raw \<Rightarrow> do {
                e \<leftarrow> ensureArchive A g p raw;
                case e of
                  Some x \<Rightarrow> State_Monad.return (Some x)
                | None \<Rightarrow>
                    (if \<not> om_Deleting (np_Meta p) then deleteExact A (np_Meta p) (DeletePool p)
                     else if finalized A PoolArchiveFinalizer (np_Meta p)
                     then submit (ad_Client A) (UpdateNlbPool (p\<lparr>np_Meta := unfinalize A PoolArchiveFinalizer (np_Meta p)\<rparr>))
                     else State_Monad.return None)
              }))"

text \<open>The first binding that refers to the Gateway decides: the loop returns at it.\<close>

definition retireGateway :: "'w adapter \<Rightarrow> gateway \<Rightarrow> tunnel_binding list \<Rightarrow> ('w, go_error option) gw_op" where
  "retireGateway A g bindings =
     (let uid = om_UID (gw_Meta g)
      in if \<not> finalized A GatewayFinalizer (gw_Meta g) then State_Monad.return None
         else (case find (\<lambda>b. bs_Pool (tb_Spec b) = PoolName uid \<or> label (tb_Meta b) GatewayUIDLabel = uid) bindings of
                 Some b \<Rightarrow>
                   (if \<not> ownsBinding A b \<or> label (tb_Meta b) GatewayUIDLabel \<noteq> uid
                    then State_Monad.return (Some (Errorf ''foreign binding references retiring Gateway pool''))
                    else if \<not> om_Deleting (tb_Meta b) then deleteExact A (tb_Meta b) (DeleteBinding b)
                    else State_Monad.return None)
               | None \<Rightarrow> do {
                   r \<leftarrow> call (gk_GetPool (ad_Client A) (om_Namespace (gw_Meta g), PoolName uid));
                   case r of
                     Inl e \<Rightarrow> (if is_not_found e then retireAbsent A g else State_Monad.return (Some e))
                   | Inr p \<Rightarrow> retirePool A g p
                 }))"

subsection \<open>The pool and the bindings of a Gateway\<close>

definition gatewayPoolSpec :: "'w adapter \<Rightarrow> int \<Rightarrow> int \<Rightarrow> pool_spec" where
  "gatewayPoolSpec A maxWorkers capacity =
     \<lparr>ps_CompartmentID = ad_Compartment A, ps_SubnetID = ad_Subnet A, ps_Occupancy = capacity, ps_MaxShards = 1, ps_PortStart = 1,
      ps_PreserveSource = False, ps_AllocationMode = ''Explicit'', ps_ProvisionEmpty = True, ps_MaxWorkers = maxWorkers\<rparr>"

definition generated_meta :: "'w adapter \<Rightarrow> gateway \<Rightarrow> string \<Rightarrow> string \<Rightarrow> string list \<Rightarrow> object_meta" where
  "generated_meta A g n routeUID finalizers =
     \<lparr>om_Name = n, om_Namespace = om_Namespace (gw_Meta g), om_UID = '''', om_ResourceVersion = '''', om_Generation = 0,
      om_CreationTimestamp = 0, om_Deleting = False, om_Finalizers = finalizers,
      om_Labels = adapterLabels A (om_UID (gw_Meta g)) routeUID, om_Annotations = [], om_OwnerReferences = [gatewayOwner g]\<rparr>"

definition newPool :: "'w adapter \<Rightarrow> gateway \<Rightarrow> pool_spec \<Rightarrow> nlb_pool" where
  "newPool A g spec =
     \<lparr>np_Meta = generated_meta A g (PoolName (om_UID (gw_Meta g))) '''' [Finalizer, PoolArchiveFinalizer],
      np_Spec = spec, np_Status = empty_status\<rparr>"

definition annotatePool :: "string \<Rightarrow> gateway \<Rightarrow> gateway" where
  "annotatePool uid g =
     g\<lparr>gw_Meta := (gw_Meta g)\<lparr>om_Annotations := AList.update poolUIDAnnotation uid (om_Annotations (gw_Meta g))\<rparr>\<rparr>"

text \<open>
  \<^verbatim>\<open>ensurePool\<close> changes the Gateway it is given, so it also answers with the Gateway as it is in memory afterwards.
  Recording the pool's UID: the Gateway is then the one the server sent back, or, when the patch fails, the
  annotated one.
\<close>

definition recordPool :: "'w adapter \<Rightarrow> gateway \<Rightarrow> nlb_pool \<Rightarrow> ('w, gateway \<times> (go_error + nlb_pool)) gw_op" where
  "recordPool A g p =
     (if annotation (gw_Meta g) poolUIDAnnotation \<noteq> '''' then State_Monad.return (g, Inr p)
      else let g' = annotatePool (om_UID (np_Meta p)) g
      in do {
        r \<leftarrow> issue (PatchGateway g') (gk_PatchGateway (ad_Client A) g');
        State_Monad.return (case r of Inl e \<Rightarrow> (g', Inl e) | Inr g'' \<Rightarrow> (g'', Inr p))
      })"

definition acceptPool :: "'w adapter \<Rightarrow> gateway \<Rightarrow> pool_spec \<Rightarrow> nlb_pool \<Rightarrow> ('w, gateway \<times> (go_error + nlb_pool)) gw_op" where
  "acceptPool A g spec p =
     (if \<not> ownsObject A (np_Meta p) (om_UID (gw_Meta g)) \<or> np_Spec p \<noteq> spec \<or> om_Deleting (np_Meta p) \<or>
         (annotation (gw_Meta g) poolUIDAnnotation \<noteq> '''' \<and> annotation (gw_Meta g) poolUIDAnnotation \<noteq> om_UID (np_Meta p))
      then State_Monad.return (g, Inl (Errorf ''generated pool ownership, UID or immutable spec mismatch''))
      else if finalized A PoolArchiveFinalizer (np_Meta p) then recordPool A g p
      else let p' = p\<lparr>np_Meta := finalize A PoolArchiveFinalizer (np_Meta p)\<rparr>
      in do {
        r \<leftarrow> issue (UpdateNlbPool p') (gk_UpdateNlbPool (ad_Client A) p');
        case r of Inl e \<Rightarrow> State_Monad.return (g, Inl e) | Inr p'' \<Rightarrow> recordPool A g p''
      })"

definition ensurePool :: "'w adapter \<Rightarrow> gateway \<Rightarrow> ('w, gateway \<times> (go_error + nlb_pool)) gw_op" where
  "ensurePool A g =
     (case gatewayWorkers g of Inl e \<Rightarrow> State_Monad.return (g, Inl e) | Inr (maxWorkers, capacity) \<Rightarrow>
       (let spec = gatewayPoolSpec A maxWorkers capacity; fresh = newPool A g spec
        in do {
          r \<leftarrow> call (gk_GetPool (ad_Client A) (om_Namespace (gw_Meta g), PoolName (om_UID (gw_Meta g))));
          case r of
            Inr p \<Rightarrow> acceptPool A g spec p
          | Inl e \<Rightarrow>
              (if \<not> is_not_found e then State_Monad.return (g, Inl e)
               else if annotation (gw_Meta g) poolUIDAnnotation \<noteq> ''''
               then State_Monad.return (g, Inl (Errorf ''owned pool disappeared; refusing to replace durable port ledger''))
               else do {
                 c \<leftarrow> issue (CreatePool fresh) (gk_CreatePool (ad_Client A) fresh);
                 case c of Inl x \<Rightarrow> State_Monad.return (g, Inl x) | Inr p \<Rightarrow> acceptPool A g spec p
               })
        }))"

definition sameBindingTarget :: "binding_spec \<Rightarrow> binding_spec \<Rightarrow> bool" where
  "sameBindingTarget a b \<longleftrightarrow>
     bs_Pool a = bs_Pool b \<and> bs_Service a = bs_Service b \<and> bs_PortName a = bs_PortName b \<and> bs_Mode a = bs_Mode b \<and>
     bs_RequestedPort a = bs_RequestedPort b"

definition newRouteBinding :: "'w adapter \<Rightarrow> gateway \<Rightarrow> udp_route \<Rightarrow> binding_spec \<Rightarrow> tunnel_binding" where
  "newRouteBinding A g route spec =
     \<lparr>tb_Meta = generated_meta A g (BindingName (om_UID (gw_Meta g)) (om_UID (ur_Meta route))) (om_UID (ur_Meta route)) [],
      tb_Spec = spec, tb_Status = empty_binding_status\<rparr>"

definition ensureBinding :: "'w adapter \<Rightarrow> gateway \<Rightarrow> udp_route \<Rightarrow> binding_spec \<Rightarrow> ('w, go_error + tunnel_binding) gw_op" where
  "ensureBinding A g route spec =
     (let fresh = newRouteBinding A g route spec
      in do {
        r \<leftarrow> call (gk_GetBinding (ad_Client A) (om_Namespace (gw_Meta g), BindingName (om_UID (gw_Meta g)) (om_UID (ur_Meta route))));
        case r of
          Inl e \<Rightarrow> (if is_not_found e then issue (CreateBinding fresh) (gk_CreateBinding (ad_Client A) fresh) else State_Monad.return (Inl e))
        | Inr b \<Rightarrow>
            (if \<not> ownsBinding A b \<or> label (tb_Meta b) RouteUIDLabel \<noteq> om_UID (ur_Meta route) \<or> om_Deleting (tb_Meta b)
             then State_Monad.return (Inl (Errorf ''generated binding ownership mismatch or cleanup pending''))
             else if \<not> sameBindingTarget (tb_Spec b) spec
             then tryM (disableBinding A b) (\<lambda>_. State_Monad.return (Inl ImmutableTargetError))
             else if tb_Spec b \<noteq> spec
             then tryM (issue (PatchBinding (b\<lparr>tb_Spec := spec\<rparr>)) (gk_PatchBinding (ad_Client A) (b\<lparr>tb_Spec := spec\<rparr>)))
               (\<lambda>b'. State_Monad.return (Inr (b'\<lparr>tb_Status := empty_binding_status\<rparr>)))
             else State_Monad.return (Inr b))
      })"


subsection \<open>Routes\<close>

text \<open>What the checks on a route found; \<open>vd_error\<close> is the variable \<^verbatim>\<open>validation\<close>.\<close>

record verdict =
  vd_listener :: "gw_listener option"
  vd_error :: "go_error option"
  vd_accepted :: bool
  vd_resolved :: bool
  vd_reason :: string
  vd_spec :: binding_spec

definition no_spec :: binding_spec where
  "no_spec = \<lparr>bs_Pool = '''', bs_Service = '''', bs_PortName = '''', bs_Mode = '''', bs_HealthPort = 0, bs_RequestedPort = 0,
     bs_Suspended = False\<rparr>"

definition refuse :: "gw_listener option \<Rightarrow> go_error \<Rightarrow> bool \<Rightarrow> string \<Rightarrow> verdict" where
  "refuse l e accepted reason =
     \<lparr>vd_listener = l, vd_error = Some e, vd_accepted = accepted, vd_resolved = False, vd_reason = reason, vd_spec = no_spec\<rparr>"

text \<open>The specification for the route's Service, or the error and its reason.\<close>

definition bindingFor :: "gateway \<Rightarrow> (string \<Rightarrow> service option) \<Rightarrow> udp_route \<Rightarrow> gw_listener \<Rightarrow> (go_error \<times> string) + binding_spec" where
  "bindingFor g services route l =
     (case backendService route of Inl e \<Rightarrow> Inl (e, ''UnsupportedValue'') | Inr (name, _) \<Rightarrow>
       (case services name of
          None \<Rightarrow> Inl (Errorf ''backend Service not found'', ''BackendNotFound'')
        | Some svc \<Rightarrow> (case desiredBinding route g l svc of Inl e \<Rightarrow> Inl (e, ''UnsupportedValue'') | Inr spec \<Rightarrow> Inr spec)))"

definition leasedElsewhere :: "nlb_pool \<Rightarrow> int \<Rightarrow> string \<Rightarrow> bool" where
  "leasedElsewhere pool port bindingName \<longleftrightarrow>
     list_ex (\<lambda>a. al_Port a = port \<and> al_BindingName a \<noteq> bindingName) (map_values (pool_allocations pool))"

definition judgeRoute :: "gateway \<Rightarrow> nlb_pool \<Rightarrow> (string \<Rightarrow> service option) \<Rightarrow> string list \<Rightarrow> udp_route \<Rightarrow> verdict" where
  "judgeRoute g pool services claimed route =
     (case listenerFor route g of Inl e \<Rightarrow> refuse None e False ''UnsupportedValue'' | Inr l \<Rightarrow>
       (if gl_Name l \<in> set claimed then refuse (Some l) (Errorf ''an older route already owns this listener'') False ''Conflicted''
        else (case bindingFor g services route l of Inl (e, reason) \<Rightarrow> refuse (Some l) e True reason | Inr spec \<Rightarrow>
          (if leasedElsewhere pool (bs_RequestedPort spec) (BindingName (om_UID (gw_Meta g)) (om_UID (ur_Meta route)))
           then \<lparr>vd_listener = Some l,
              vd_error = Some (Errorf ''listener port has a permanent lease to another Route UID; use a new port or Gateway''),
              vd_accepted = False, vd_resolved = True, vd_reason = ''PortAlreadyLeased'', vd_spec = spec\<rparr>
           else \<lparr>vd_listener = Some l, vd_error = None, vd_accepted = True, vd_resolved = True, vd_reason = ''UnsupportedValue'',
              vd_spec = spec\<rparr>))))"

definition isProgrammed :: "kube_lib \<Rightarrow> nlb_pool \<Rightarrow> tunnel_binding \<Rightarrow> binding_spec \<Rightarrow> bool" where
  "isProgrammed L pool b spec =
     (case (findStatusCondition L (bt_Conditions (tb_Status b)) ''Configured'', pool_shards pool) of
        (Some ready, [s]) \<Rightarrow>
          cn_Status ready = ''True'' \<and> cn_ObservedGeneration ready = om_Generation (tb_Meta b) \<and>
          st_PendingWork (np_Status pool) = '''' \<and> bt_ExternalPort (tb_Status b) = bs_RequestedPort spec \<and>
          bt_ExternalIP (tb_Status b) = sh_PublicIP s \<and> bt_ExternalIP (tb_Status b) \<noteq> '''' \<and> bt_NLBID (tb_Status b) = sh_ID s
      | _ \<Rightarrow> False)"

definition routeMessage :: "kube_lib \<Rightarrow> tunnel_binding \<Rightarrow> bool \<Rightarrow> string" where
  "routeMessage L b programmed =
     (if programmed then ''Native configuration converged; probe application health independently''
      else (case findStatusCondition L (bt_Conditions (tb_Status b)) ''Configured'' of
              Some ready \<Rightarrow> cn_Message ready
            | None \<Rightarrow> ''Route accepted; waiting for native configuration''))"

text \<open>The local variables that change in the loop over the routes.\<close>

record route_run =
  rr_claimed :: "string list"
  rr_states :: "(string, listener_state) gomap"
  rr_bindings :: "tunnel_binding list"

text \<open>Suspending the binding of a rejected route.\<close>

fun disableNamed :: "'w adapter \<Rightarrow> string \<Rightarrow> tunnel_binding list \<Rightarrow> ('w, go_error + tunnel_binding list) gw_op" where
  "disableNamed A n [] = State_Monad.return (Inr [])"
| "disableNamed A n (b # bs) =
     (if om_Name (tb_Meta b) \<noteq> n then tryM (disableNamed A n bs) (\<lambda>bs'. State_Monad.return (Inr (b # bs')))
      else if \<not> ownsBinding A b then State_Monad.return (Inl (Errorf ''generated binding name occupied by foreign object''))
      else tryM (disableBinding A b) (\<lambda>b'. tryM (disableNamed A n bs) (\<lambda>bs'. State_Monad.return (Inr (b' # bs')))))"

text \<open>The end of the loop body: the route's status and the state of its listener.\<close>

definition finishRoute :: "'w adapter \<Rightarrow> gateway \<Rightarrow> udp_route \<Rightarrow> verdict \<Rightarrow> bool \<Rightarrow> string \<Rightarrow> string \<Rightarrow> route_run \<Rightarrow>
    ('w, answer + route_run) gw_op" where
  "finishRoute A g route v programmed reason message rr = do {
     e \<leftarrow> routeStatus A g route (vd_accepted v) (vd_resolved v) programmed reason message;
     State_Monad.return (case e of
         Some x \<Rightarrow> Inl (later (Some x))
       | None \<Rightarrow>
           Inr (case vd_listener v of
               Some l \<Rightarrow> (if vd_accepted v
                 then rr\<lparr>rr_states := AList.update (gl_Name l) \<lparr>lt_attached = 1, lt_programmed = programmed, lt_message = message\<rparr> (rr_states rr)\<rparr>
                 else rr)
             | None \<Rightarrow> rr))
   }"

definition acceptRoute :: "'w adapter \<Rightarrow> gateway \<Rightarrow> nlb_pool \<Rightarrow> udp_route \<Rightarrow> verdict \<Rightarrow> route_run \<Rightarrow> ('w, answer + route_run) gw_op" where
  "acceptRoute A g pool route v rr =
     (if \<not> finalized A RouteFinalizer (ur_Meta route) then do {
        e \<leftarrow> submit (ad_Client A) (UpdateRoute (route\<lparr>ur_Meta := finalize A RouteFinalizer (ur_Meta route)\<rparr>));
        State_Monad.return (case e of Some x \<Rightarrow> Inl (later (Some x)) | None \<Rightarrow> Inr rr)
      }
      else do {
        r \<leftarrow> ensureBinding A g route (vd_spec v);
        case r of
          Inl ImmutableTargetError \<Rightarrow> do {
            e \<leftarrow> routeStatus A g route False (vd_resolved v) False ''UnsupportedValue'' (error_text ImmutableTargetError);
            State_Monad.return (case e of Some x \<Rightarrow> Inl (later (Some x)) | None \<Rightarrow> Inr rr)
          }
        | Inl e \<Rightarrow> State_Monad.return (Inl (later (Some e)))
        | Inr b \<Rightarrow>
            (let programmed = isProgrammed (ad_Lib A) pool b (vd_spec v)
             in finishRoute A g route v programmed ''Accepted'' (routeMessage (ad_Lib A) b programmed) rr)
      })"

definition processRoute :: "'w adapter \<Rightarrow> gateway \<Rightarrow> nlb_pool \<Rightarrow> (string \<Rightarrow> service option) \<Rightarrow> udp_route \<Rightarrow> route_run \<Rightarrow>
    ('w, answer + route_run) gw_op" where
  "processRoute A g pool services route rr =
     (if om_Deleting (ur_Meta route) \<or> \<not> targets g route then State_Monad.return (Inr rr)
      else let v = judgeRoute g pool services (rr_claimed rr) route;
        rr1 = (case vd_listener v of
            Some l \<Rightarrow> (if gl_Name l \<in> set (rr_claimed rr) then rr else rr\<lparr>rr_claimed := gl_Name l # rr_claimed rr\<rparr>)
          | None \<Rightarrow> rr)
      in case vd_error v of
           None \<Rightarrow> acceptRoute A g pool route v rr1
         | Some e \<Rightarrow> do {
             d \<leftarrow> disableNamed A (BindingName (om_UID (gw_Meta g)) (om_UID (ur_Meta route))) (rr_bindings rr1);
             case d of
               Inl x \<Rightarrow> State_Monad.return (Inl (later (Some x)))
             | Inr bs \<Rightarrow> finishRoute A g route v False (vd_reason v) (error_text e) (rr1\<lparr>rr_bindings := bs\<rparr>)
           })"

fun processRoutes :: "'w adapter \<Rightarrow> gateway \<Rightarrow> nlb_pool \<Rightarrow> (string \<Rightarrow> service option) \<Rightarrow> udp_route list \<Rightarrow> route_run \<Rightarrow>
    ('w, answer + route_run) gw_op" where
  "processRoutes A g pool services [] rr = State_Monad.return (Inr rr)"
| "processRoutes A g pool services (route # routes) rr = do {
     r \<leftarrow> processRoute A g pool services route rr;
     case r of Inl x \<Rightarrow> State_Monad.return (Inl x) | Inr rr' \<Rightarrow> processRoutes A g pool services routes rr'
   }"

subsection \<open>The reconciliation\<close>

definition routeOrder :: "udp_route \<Rightarrow> int \<times> string" where
  "routeOrder r = (om_CreationTimestamp (ur_Meta r), om_Namespace (ur_Meta r) @ ''/'' @ om_Name (ur_Meta r))"

definition serveRoutes :: "'w adapter \<Rightarrow> gateway \<Rightarrow> nlb_pool \<Rightarrow> udp_route list \<Rightarrow> tunnel_binding list \<Rightarrow> ('w, answer) gw_op" where
  "serveRoutes A g pool routes bindings = do {
     r \<leftarrow> call (gk_ListServices (ad_Client A) (ad_Namespace A));
     case r of
       Inl e \<Rightarrow> State_Monad.return (later (Some e))
     | Inr services \<Rightarrow> do {
         x \<leftarrow> processRoutes A g pool (last_with (\<lambda>s. om_Name (sv_Meta s)) services) (sort_key routeOrder routes)
                \<lparr>rr_claimed = [], rr_states = [], rr_bindings = bindings\<rparr>;
         case x of
           Inl ans \<Rightarrow> State_Monad.return ans
         | Inr rr \<Rightarrow> do {
             e \<leftarrow> gatewayStatus A g (Some pool) (rr_states rr) None;
             State_Monad.return (later e)
           }
       }
   }"

text \<open>The class's status; the error ends the reconciliation, otherwise the problem to report.\<close>

definition acceptClass :: "'w adapter \<Rightarrow> gateway_class \<Rightarrow> go_error option \<Rightarrow> ('w, go_error + go_error option) gw_op" where
  "acceptClass A c problem =
     (let ok = (gc_ParametersRef c = None \<and> \<not> om_Deleting (gc_Meta c));
          reason = (if ok then ''Accepted'' else ''InvalidParameters'');
          message = (if ok then ''Restricted same-namespace UDP profile; full Gateway API conformance is not claimed''
            else ''GatewayClass parameters and deletion are unsupported'');
          c' = c\<lparr>gc_Conditions := setStatusCondition (ad_Lib A) (gc_Conditions c)
              (condition_for ''Accepted'' ok reason message (om_Generation (gc_Meta c))), gc_SupportedFeatures := []\<rparr>;
          problem' = (if ok then problem else Some (Errorf message))
      in if c' = c then State_Monad.return (Inr problem')
         else do {
           e \<leftarrow> submit (ad_Client A) (PatchClassStatus c');
           State_Monad.return (case e of Some x \<Rightarrow> Inl x | None \<Rightarrow> Inr problem')
         })"

definition checkClass :: "'w adapter \<Rightarrow> gateway \<Rightarrow> ('w, go_error + go_error option) gw_op" where
  "checkClass A g = do {
     r \<leftarrow> call (gk_GetClass (ad_Client A) (ad_GatewayClassName A));
     let mismatch = Some (Errorf ''configured GatewayClass/controller is missing or does not match'');
     case r of
       Inl e \<Rightarrow> State_Monad.return (if is_not_found e then Inr mismatch else Inl e)
     | Inr c \<Rightarrow>
         (if gy_GatewayClassName (gw_Spec g) \<noteq> ad_GatewayClassName A \<or> gc_ControllerName c \<noteq> ad_ControllerName A
          then State_Monad.return (Inr mismatch)
          else acceptClass A c (validateGateway g))
   }"

fun disableAll :: "'w adapter \<Rightarrow> string \<Rightarrow> tunnel_binding list \<Rightarrow> ('w, go_error option) gw_op" where
  "disableAll A uid [] = State_Monad.return None"
| "disableAll A uid (b # bs) =
     (if ownsBinding A b \<and> label (tb_Meta b) GatewayUIDLabel = uid then do {
        r \<leftarrow> disableBinding A b;
        case r of Inl e \<Rightarrow> State_Monad.return (Some e) | Inr _ \<Rightarrow> disableAll A uid bs
      }
      else disableAll A uid bs)"

definition rejectGateway :: "'w adapter \<Rightarrow> gateway \<Rightarrow> udp_route list \<Rightarrow> tunnel_binding list \<Rightarrow> go_error \<Rightarrow> ('w, answer) gw_op" where
  "rejectGateway A g routes bindings problem = do {
     d \<leftarrow> disableAll A (om_UID (gw_Meta g)) bindings;
     case d of
       Some e \<Rightarrow> State_Monad.return (later (Some e))
     | None \<Rightarrow> do {
         e \<leftarrow> rejectRoutes A g routes (error_text problem);
         case e of
           Some x \<Rightarrow> State_Monad.return (later (Some x))
         | None \<Rightarrow> do { e' \<leftarrow> gatewayStatus A g None [] (Some problem); State_Monad.return (later e') }
       }
   }"

definition serveGateway :: "'w adapter \<Rightarrow> gateway \<Rightarrow> udp_route list \<Rightarrow> tunnel_binding list \<Rightarrow> ('w, answer) gw_op" where
  "serveGateway A g routes bindings =
     (if \<not> finalized A GatewayFinalizer (gw_Meta g) then do {
        e \<leftarrow> submit (ad_Client A) (UpdateGateway (g\<lparr>gw_Meta := finalize A GatewayFinalizer (gw_Meta g)\<rparr>));
        State_Monad.return (later e)
      }
      else do {
        (g', r) \<leftarrow> ensurePool A g;
        case r of
          Inl e \<Rightarrow> do {
            s \<leftarrow> gatewayStatus A g' None [] (Some e);
            State_Monad.return (later (case s of Some x \<Rightarrow> Some x | None \<Rightarrow> Some e))
          }
        | Inr pool \<Rightarrow> serveRoutes A g' pool routes bindings
      })"

definition reconcileGateway :: "'w adapter \<Rightarrow> gateway \<Rightarrow> udp_route list \<Rightarrow> tunnel_binding list \<Rightarrow> ('w, answer) gw_op" where
  "reconcileGateway A g routes bindings =
     (if gy_GatewayClassName (gw_Spec g) \<noteq> ad_GatewayClassName A \<and> \<not> finalized A GatewayFinalizer (gw_Meta g)
      then State_Monad.return (NoRequeue, None)
      else if om_Deleting (gw_Meta g) then do {
        e \<leftarrow> rejectRoutes A g routes ''Gateway is being deleted'';
        case e of
          Some x \<Rightarrow> State_Monad.return (later (Some x))
        | None \<Rightarrow> do { e' \<leftarrow> retireGateway A g bindings; State_Monad.return (later e') }
      }
      else do {
        c \<leftarrow> checkClass A g;
        case c of
          Inl e \<Rightarrow> State_Monad.return (later (Some e))
        | Inr (Some problem) \<Rightarrow> rejectGateway A g routes bindings problem
        | Inr None \<Rightarrow> serveGateway A g routes bindings
      })"

text \<open>The three listings.\<close>

definition readObjects :: "'w adapter \<Rightarrow> ('w, go_error + (udp_route list \<times> tunnel_binding list \<times> nlb_pool list)) gw_op" where
  "readObjects A =
     tryM (call (gk_ListRoutes (ad_Client A) (ad_Namespace A))) (\<lambda>routes.
     tryM (call (gk_ListBindings (ad_Client A) (ad_Namespace A))) (\<lambda>bindings.
     tryM (call (gk_ListPools (ad_Client A) (ad_Namespace A))) (\<lambda>pools.
       State_Monad.return (Inr (routes, bindings, pools)))))"

definition adapterReconcile :: "'w adapter \<Rightarrow> object_key \<Rightarrow> ('w, answer) gw_op" where
  "adapterReconcile A req =
     (if fst req \<noteq> ad_Namespace A then State_Monad.return (NoRequeue, None)
      else do {
        cancelled \<leftarrow> gets (\<lambda>s. gk_CtxErr (ad_Client A) (world s));
        case cancelled of Some e \<Rightarrow> State_Monad.return (later (Some e)) | None \<Rightarrow> do {
          r \<leftarrow> readObjects A;
          case r of Inl e \<Rightarrow> State_Monad.return (later (Some e)) | Inr (routes, bindings, pools) \<Rightarrow> do {
            (changed, err) \<leftarrow> cleanupRoutes A routes bindings pools;
            if changed \<or> err \<noteq> None then State_Monad.return (later err)
            else do {
              x \<leftarrow> call (gk_GetGateway (ad_Client A) req);
              case x of
                Inl e \<Rightarrow> State_Monad.return (later (ignoreNotFound (Some e)))
              | Inr g \<Rightarrow> reconcileGateway A g routes bindings
            }
          }
        }
      })"

end
