(* ===== verification/Gateway_Adapter_Steps.thy ===== *)
theory Gateway_Adapter_Steps
  imports Gateway_Adapter
begin

text \<open>
  What the Gateway adapter may write.  \<open>adapter_safe\<close> says of each write which object the adapter must have read
  before, what of it the write may change, and why; every operation of the adapter, and hence a
  reconciliation, issues only such writes, whatever the services answer.
\<close>

section \<open>What was read\<close>

text \<open>The objects in front of the adapter came from the server: they are answers to its own requests.\<close>

definition route_listed :: "'w adapter \<Rightarrow> udp_route \<Rightarrow> bool" where
  "route_listed A route \<longleftrightarrow> (\<exists>routes. answers (gk_ListRoutes (ad_Client A) (ad_Namespace A)) (Inr routes) \<and> route \<in> set routes)"

definition binding_listed :: "'w adapter \<Rightarrow> tunnel_binding \<Rightarrow> bool" where
  "binding_listed A b \<longleftrightarrow> (\<exists>bs. answers (gk_ListBindings (ad_Client A) (ad_Namespace A)) (Inr bs) \<and> b \<in> set bs)"

definition binding_seen :: "'w adapter \<Rightarrow> tunnel_binding \<Rightarrow> bool" where
  "binding_seen A b \<longleftrightarrow>
     binding_listed A b \<or> (\<exists>k. answers (gk_GetBinding (ad_Client A) k) (Inr b)) \<or> (\<exists>q. answers (gk_PatchBinding (ad_Client A) q) (Inr b))"

definition pool_seen :: "'w adapter \<Rightarrow> nlb_pool \<Rightarrow> bool" where
  "pool_seen A p \<longleftrightarrow>
     (\<exists>k. answers (gk_GetPool (ad_Client A) k) (Inr p)) \<or> (\<exists>q. answers (gk_CreatePool (ad_Client A) q) (Inr p)) \<or>
     (\<exists>q. answers (gk_UpdateNlbPool (ad_Client A) q) (Inr p))"

text \<open>The Gateway of the request, or what the server sent back when the pool was recorded on it.\<close>

definition gateway_read :: "'w adapter \<Rightarrow> object_key \<Rightarrow> gateway \<Rightarrow> bool" where
  "gateway_read A req g \<longleftrightarrow> answers (gk_GetGateway (ad_Client A) req) (Inr g) \<or> (\<exists>q. answers (gk_PatchGateway (ad_Client A) q) (Inr g))"

text \<open>The Gateway in memory; the annotation stays on it when its patch fails.\<close>

definition gateway_held :: "'w adapter \<Rightarrow> object_key \<Rightarrow> gateway \<Rightarrow> bool" where
  "gateway_held A req g \<longleftrightarrow>
     gateway_read A req g \<or>
     (\<exists>g0 uid. gateway_read A req g0 \<and> annotation (gw_Meta g0) poolUIDAnnotation = '''' \<and> g = annotatePool uid g0)"

definition pool_absent :: "'w adapter \<Rightarrow> gateway \<Rightarrow> bool" where
  "pool_absent A g \<longleftrightarrow>
     (\<exists>e. is_not_found e \<and> answers (gk_GetPool (ad_Client A) (om_Namespace (gw_Meta g), PoolName (om_UID (gw_Meta g)))) (Inl e))"

lemma seenI:
  "answers (gk_GetPool (ad_Client A) k) (Inr p) \<Longrightarrow> pool_seen A p" "answers (gk_CreatePool (ad_Client A) q) (Inr p) \<Longrightarrow> pool_seen A p"
  "answers (gk_UpdateNlbPool (ad_Client A) q) (Inr p) \<Longrightarrow> pool_seen A p"
  "answers (gk_GetBinding (ad_Client A) k) (Inr b) \<Longrightarrow> binding_seen A b" "answers (gk_PatchBinding (ad_Client A) c) (Inr b) \<Longrightarrow> binding_seen A b"
  "is_not_found e \<Longrightarrow> answers (gk_GetPool (ad_Client A) (om_Namespace (gw_Meta g), PoolName (om_UID (gw_Meta g)))) (Inl e) \<Longrightarrow> pool_absent A g"
  unfolding pool_seen_def binding_seen_def pool_absent_def by blast+

section \<open>Safe writes\<close>

text \<open>The Gateway may be let go: what the adapter must have read.\<close>

definition references_gateway :: "string \<Rightarrow> tunnel_binding \<Rightarrow> bool" where
  "references_gateway uid b \<longleftrightarrow> bs_Pool (tb_Spec b) = PoolName uid \<or> label (tb_Meta b) GatewayUIDLabel = uid"

definition retired_archive :: "'w adapter \<Rightarrow> gateway \<Rightarrow> config_map \<Rightarrow> bool" where
  "retired_archive A g c \<longleftrightarrow> archiveSealed A g c \<and>
     (\<exists>p. archivedPool A c = Inr p \<and> om_UID (np_Meta p) = annotation (gw_Meta g) poolUIDAnnotation \<and>
        ownsObject A (np_Meta p) (om_UID (gw_Meta g)) \<and> st_PendingWork (np_Status p) = '''' \<and>
        (\<forall>a \<in> set (map_values (pool_allocations p)). al_Tombstone a))"

definition releasable :: "'w adapter \<Rightarrow> gateway \<Rightarrow> bool" where
  "releasable A g \<longleftrightarrow> om_Deleting (gw_Meta g) \<and> pool_absent A g \<and>
     (\<exists>bs. answers (gk_ListBindings (ad_Client A) (ad_Namespace A)) (Inr bs) \<and> (\<forall>b \<in> set bs. \<not> references_gateway (om_UID (gw_Meta g)) b)) \<and>
     (annotation (gw_Meta g) poolUIDAnnotation \<noteq> '''' \<longrightarrow>
        (\<exists>c. answers (gk_GetConfigMap (ad_Client A) (archiveKey g)) (Inr c) \<and> retired_archive A g c))"

text \<open>The pool is the Gateway's own, and done: no pending work and only retired leases.\<close>

definition pool_done :: "'w adapter \<Rightarrow> gateway \<Rightarrow> nlb_pool \<Rightarrow> bool" where
  "pool_done A g p \<longleftrightarrow>
     om_Deleting (gw_Meta g) \<and> pool_seen A p \<and> ownsObject A (np_Meta p) (om_UID (gw_Meta g)) \<and> st_PendingWork (np_Status p) = '''' \<and>
     (\<forall>a \<in> set (map_values (pool_allocations p)). al_Tombstone a)"

text \<open>Its ledger is in an archive: a sealed one with the same ledger was read, or the server accepted a new one.\<close>

definition archived :: "'w adapter \<Rightarrow> gateway \<Rightarrow> nlb_pool \<Rightarrow> bool" where
  "archived A g p \<longleftrightarrow>
     (\<exists>c prior. answers (gk_GetConfigMap (ad_Client A) (archiveKey g)) (Inr c) \<and> archiveSealed A g c \<and> archivedPool A c = Inr prior \<and> sameLedger prior p) \<or>
     (\<exists>raw. marshalPool (ad_Json A) p = Inr raw \<and> answers (gk_Submit (ad_Client A) (CreateConfigMap (newArchive A g raw))) None)"

text \<open>
  The specification is the one the policy describes for the route on this Gateway, with a Service of the
  listing, and the pool has no lease of the listener's port for another route.
\<close>

definition exclusive_listener :: "'w adapter \<Rightarrow> gateway \<Rightarrow> udp_route \<Rightarrow> binding_spec \<Rightarrow> bool" where
  "exclusive_listener A g route spec \<longleftrightarrow>
     (\<exists>l svc services pool. listenerFor route g = Inr l \<and> answers (gk_ListServices (ad_Client A) (ad_Namespace A)) (Inr services) \<and>
        svc \<in> set services \<and> desiredBinding route g l svc = Inr spec \<and> pool_seen A pool \<and>
        (\<forall>a \<in> set (map_values (pool_allocations pool)). al_Port a = gl_Port l \<longrightarrow>
           al_BindingName a = BindingName (om_UID (gw_Meta g)) (om_UID (ur_Meta route))))"

definition route_bound :: "'w adapter \<Rightarrow> object_key \<Rightarrow> gateway \<Rightarrow> udp_route \<Rightarrow> binding_spec \<Rightarrow> bool" where
  "route_bound A req g route spec \<longleftrightarrow>
     gateway_read A req g \<and> route_listed A route \<and> \<not> om_Deleting (ur_Meta route) \<and> finalized A RouteFinalizer (ur_Meta route) \<and>
     exclusive_listener A g route spec"

text \<open>The entries of a route's status that other controllers or other Gateways account for.\<close>

definition foreign_parents :: "'w adapter \<Rightarrow> gateway \<Rightarrow> udp_route \<Rightarrow> parent_status list" where
  "foreign_parents A g route =
     filter (\<lambda>p. rp_ControllerName p \<noteq> ad_ControllerName A \<or> \<not> parentMatches (rp_ParentRef p) (om_Name (gw_Meta g)) (om_Namespace (ur_Meta route)))
       (ur_Parents route)"

fun adapter_safe :: "'w adapter \<Rightarrow> object_key \<Rightarrow> gw_write \<Rightarrow> bool" where
  "adapter_safe A req (CreateBinding b) \<longleftrightarrow>
     (\<exists>g route e. route_bound A req g route (tb_Spec b) \<and> b = newRouteBinding A g route (tb_Spec b) \<and> is_not_found e \<and>
        answers (gk_GetBinding (ad_Client A) (om_Namespace (gw_Meta g), om_Name (tb_Meta b))) (Inl e))"
| "adapter_safe A req (PatchBinding b) \<longleftrightarrow>
     (\<exists>b0. binding_seen A b0 \<and> ownsBinding A b0 \<and> \<not> om_Deleting (tb_Meta b0) \<and> b = b0\<lparr>tb_Spec := tb_Spec b\<rparr> \<and>
        (tb_Spec b = (tb_Spec b0)\<lparr>bs_Suspended := True\<rparr> \<or>
         (\<exists>g route. route_bound A req g route (tb_Spec b) \<and> label (tb_Meta b0) RouteUIDLabel = om_UID (ur_Meta route) \<and>
            sameBindingTarget (tb_Spec b0) (tb_Spec b))))"
| "adapter_safe A req (DeleteBinding b) \<longleftrightarrow>
     binding_listed A b \<and> ownsBinding A b \<and> binding_uid b \<noteq> '''' \<and> \<not> om_Deleting (tb_Meta b) \<and>
     ((\<exists>routes. answers (gk_ListRoutes (ad_Client A) (ad_Namespace A)) (Inr routes) \<and> \<not> attachedTo routes b) \<or>
      (\<exists>g. gateway_read A req g \<and> om_Deleting (gw_Meta g) \<and> label (tb_Meta b) GatewayUIDLabel = om_UID (gw_Meta g)))"
| "adapter_safe A req (CreatePool p) \<longleftrightarrow>
     (\<exists>g n c. gateway_read A req g \<and> gatewayWorkers g = Inr (n, c) \<and> annotation (gw_Meta g) poolUIDAnnotation = '''' \<and> pool_absent A g \<and>
        p = newPool A g (gatewayPoolSpec A n c))"
| "adapter_safe A req (UpdateNlbPool p) \<longleftrightarrow>
     (\<exists>g p0. gateway_read A req g \<and> pool_seen A p0 \<and> ownsObject A (np_Meta p0) (om_UID (gw_Meta g)) \<and>
        (p = p0\<lparr>np_Meta := finalize A PoolArchiveFinalizer (np_Meta p0)\<rparr> \<and> \<not> om_Deleting (np_Meta p0) \<or>
         p = p0\<lparr>np_Meta := unfinalize A PoolArchiveFinalizer (np_Meta p0)\<rparr> \<and> om_Deleting (np_Meta p0) \<and> pool_done A g p0 \<and> archived A g p0))"
| "adapter_safe A req (DeletePool p) \<longleftrightarrow>
     (\<exists>g. gateway_read A req g \<and> pool_done A g p \<and> archived A g p) \<and> om_UID (np_Meta p) \<noteq> ''''"
| "adapter_safe A req (UpdateGateway g') \<longleftrightarrow>
     (\<exists>g. gateway_read A req g \<and> \<not> om_Deleting (gw_Meta g) \<and> g' = g\<lparr>gw_Meta := finalize A GatewayFinalizer (gw_Meta g)\<rparr>) \<or>
     (\<exists>g. gateway_read A req g \<and> g' = g\<lparr>gw_Meta := unfinalize A GatewayFinalizer (gw_Meta g)\<rparr> \<and> releasable A g)"
| "adapter_safe A req (PatchGateway g') \<longleftrightarrow>
     (\<exists>g p. gateway_read A req g \<and> annotation (gw_Meta g) poolUIDAnnotation = '''' \<and> pool_seen A p \<and> g' = annotatePool (om_UID (np_Meta p)) g)"
| "adapter_safe A req (PatchGatewayStatus g') \<longleftrightarrow> (\<exists>g. gateway_held A req g \<and> g' = g\<lparr>gw_Status := gw_Status g'\<rparr>)"
| "adapter_safe A req (PatchClassStatus c) \<longleftrightarrow>
     (\<exists>c0. answers (gk_GetClass (ad_Client A) (ad_GatewayClassName A)) (Inr c0) \<and> gc_ControllerName c0 = ad_ControllerName A \<and>
        c = c0\<lparr>gc_Conditions := gc_Conditions c, gc_SupportedFeatures := []\<rparr>)"
| "adapter_safe A req (UpdateRoute r) \<longleftrightarrow>
     (\<exists>route. route_listed A route \<and>
        (r = route\<lparr>ur_Meta := finalize A RouteFinalizer (ur_Meta route)\<rparr> \<and> \<not> om_Deleting (ur_Meta route) \<or>
         r = route\<lparr>ur_Meta := unfinalize A RouteFinalizer (ur_Meta route)\<rparr> \<and> (om_Deleting (ur_Meta route) \<or> ur_ParentRefs route = []) \<and>
         (\<exists>bs ps. answers (gk_ListBindings (ad_Client A) (ad_Namespace A)) (Inr bs) \<and> answers (gk_ListPools (ad_Client A) (ad_Namespace A)) (Inr ps) \<and>
            \<not> routePending A bs ps route)))"
| "adapter_safe A req (PatchRouteStatus r) \<longleftrightarrow>
     (\<exists>g route. gateway_read A req g \<and> route_listed A route \<and> r = route\<lparr>ur_Parents := ur_Parents r\<rparr> \<and>
        foreign_parents A g r = foreign_parents A g route)"
| "adapter_safe A req (CreateConfigMap c) \<longleftrightarrow>
     (\<exists>g p raw. gateway_read A req g \<and> pool_done A g p \<and> marshalPool (ad_Json A) p = Inr raw \<and> c = newArchive A g raw)"
| "adapter_safe A req _ \<longleftrightarrow> False"

declare adapter_safe.simps [simp del]

abbreviation safely :: "'w adapter \<Rightarrow> object_key \<Rightarrow> ('w, 'a) gw_op \<Rightarrow> bool" where
  "safely A req m \<equiv> emits_all (adapter_safe A req) m"

lemmas safe_intros = emits_all_return emits_all_bind emits_all_tryM emits_all_call_then emits_all_call_tryM

lemma safe_submit: "adapter_safe A req e \<Longrightarrow> safely A req (submit K e)"
  unfolding submit_def by (rule emits_all_issue)

section \<open>The operations\<close>

lemma safe_deleteExact: "(om_UID m \<noteq> '''' \<Longrightarrow> adapter_safe A req e) \<Longrightarrow> safely A req (deleteExact A m e)"
  unfolding deleteExact_def by (auto intro!: safe_intros safe_submit)

lemma safe_disableBinding:
  assumes "binding_seen A b"
  shows "safely A req (disableBinding A b)"
proof -
  have "adapter_safe A req (PatchBinding (b\<lparr>tb_Spec := (tb_Spec b)\<lparr>bs_Suspended := True\<rparr>\<rparr>))" if "ownsBinding A b" "\<not> om_Deleting (tb_Meta b)"
    unfolding adapter_safe.simps by (rule exI [of _ b]) (use assms that in simp)
  then show ?thesis unfolding disableBinding_def Let_def by (auto intro!: emits_all_return emits_all_issue)
qed

lemma disableBinding_seen:
  assumes "binding_seen A b"
  shows "yields (disableBinding A b) (\<lambda>r. \<forall>b'. r = Inr b' \<longrightarrow> binding_seen A b')"
proof -
  let ?q = "b\<lparr>tb_Spec := (tb_Spec b)\<lparr>bs_Suspended := True\<rparr>\<rparr>"
  have "yields (issue (PatchBinding ?q) (gk_PatchBinding (ad_Client A) ?q)) (\<lambda>r. \<forall>b'. r = Inr b' \<longrightarrow> binding_seen A b')"
    by (rule yields_mono [OF yields_issue]) (auto intro: seenI)
  with assms show ?thesis unfolding disableBinding_def Let_def by (auto intro!: yields_return)
qed

lemma foreign_parents_kept:
  "foreign_parents A g (route\<lparr>ur_Parents := filter (\<lambda>p. rp_ControllerName p \<noteq> ad_ControllerName A \<or>
       \<not> parentMatches (rp_ParentRef p) (om_Name (gw_Meta g)) (om_Namespace (ur_Meta route))) (ur_Parents route) @
     map (parentStatus A route accepted resolved programmed reason message)
       (filter (\<lambda>p. parentMatches p (om_Name (gw_Meta g)) (om_Namespace (ur_Meta route))) (ur_ParentRefs route))\<rparr>) = foreign_parents A g route"
  by (auto simp: foreign_parents_def filter_empty_conv parentStatus_def Let_def)

lemma safe_routeStatus:
  assumes "gateway_read A req g" "route_listed A route"
  shows "safely A req (routeStatus A g route accepted resolved programmed reason message)"
proof -
  have "adapter_safe A req (PatchRouteStatus (route\<lparr>ur_Parents := ps\<rparr>))" if "foreign_parents A g (route\<lparr>ur_Parents := ps\<rparr>) = foreign_parents A g route" for ps
    unfolding adapter_safe.simps using assms that by (intro exI [of _ g] exI [of _ route]) simp
  note patch = this
  show ?thesis unfolding routeStatus_def Let_def by (intro emits_all_if emits_all_return safe_submit patch foreign_parents_kept)
qed

lemma safe_rejectRoutes:
  assumes "gateway_read A req g" "\<forall>route \<in> set routes. route_listed A route"
  shows "safely A req (rejectRoutes A g routes message)"
  using assms(2) by (induction routes) (auto intro!: emits_all_return emits_all_bind safe_routeStatus assms(1) split: option.split)

lemma safe_gatewayStatus: "gateway_held A req g \<Longrightarrow> safely A req (gatewayStatus A g p states problem)"
  unfolding gatewayStatus_def Let_def
  by (auto intro!: emits_all_return safe_submit exI [of _ g] simp: adapter_safe.simps)

subsection \<open>Cleanup\<close>

lemma safe_cleanupBindings:
  assumes "answers (gk_ListRoutes (ad_Client A) (ad_Namespace A)) (Inr routes)" "\<forall>b \<in> set bs. binding_listed A b"
  shows "safely A req (cleanupBindings A routes bs)"
  using assms(2) by (induction bs) (use assms(1) in \<open>auto intro!: emits_all_return emits_all_bind safe_deleteExact simp: adapter_safe.simps\<close>)

lemma safe_releaseRoutes:
  assumes "answers (gk_ListBindings (ad_Client A) (ad_Namespace A)) (Inr bs)" "answers (gk_ListPools (ad_Client A) (ad_Namespace A)) (Inr ps)"
    "\<forall>route \<in> set routes. route_listed A route"
  shows "safely A req (releaseRoutes A bs ps routes)"
  using assms(3)
proof (induction routes)
  case (Cons route routes)
  have "adapter_safe A req (UpdateRoute (route\<lparr>ur_Meta := unfinalize A RouteFinalizer (ur_Meta route)\<rparr>))"
    if "om_Deleting (ur_Meta route) \<or> ur_ParentRefs route = []" "\<not> routePending A bs ps route"
    unfolding adapter_safe.simps by (rule exI [of _ route]) (use Cons.prems that assms(1,2) in auto)
  with Cons show ?case by (auto intro!: emits_all_return emits_all_bind safe_submit)
qed (simp add: emits_all_return)

text \<open>What the listings returned.\<close>

definition listed :: "'w adapter \<Rightarrow> udp_route list \<Rightarrow> tunnel_binding list \<Rightarrow> nlb_pool list \<Rightarrow> bool" where
  "listed A routes bs ps \<longleftrightarrow>
     answers (gk_ListRoutes (ad_Client A) (ad_Namespace A)) (Inr routes) \<and> answers (gk_ListBindings (ad_Client A) (ad_Namespace A)) (Inr bs) \<and>
     answers (gk_ListPools (ad_Client A) (ad_Namespace A)) (Inr ps)"

lemma listedD:
  assumes "listed A routes bs ps"
  shows "\<forall>route \<in> set routes. route_listed A route" "\<forall>b \<in> set bs. binding_listed A b" "\<forall>b \<in> set bs. binding_seen A b"
    "answers (gk_ListRoutes (ad_Client A) (ad_Namespace A)) (Inr routes)" "answers (gk_ListBindings (ad_Client A) (ad_Namespace A)) (Inr bs)"
    "answers (gk_ListPools (ad_Client A) (ad_Namespace A)) (Inr ps)"
  using assms unfolding listed_def route_listed_def binding_listed_def binding_seen_def by blast+

lemma safe_cleanupRoutes: "listed A routes bs ps \<Longrightarrow> safely A req (cleanupRoutes A routes bs ps)"
  unfolding cleanupRoutes_def
  by (auto intro!: emits_all_return emits_all_bind safe_cleanupBindings safe_releaseRoutes simp: listedD split: option.split)

subsection \<open>Retirement\<close>

lemma retirementProved_None: "retirementProved A g c = None \<Longrightarrow> retired_archive A g c"
  by (auto simp: retirementProved_def retired_archive_def list_ex_iff split: sum.splits if_splits)

lemma safe_retireAbsent:
  assumes "gateway_read A req g" "om_Deleting (gw_Meta g)" "pool_absent A g"
    "answers (gk_ListBindings (ad_Client A) (ad_Namespace A)) (Inr bs)" "\<forall>b \<in> set bs. \<not> references_gateway (om_UID (gw_Meta g)) b"
  shows "safely A req (retireAbsent A g)"
proof -
  have rel: "safely A req (releaseGateway A g)" if "releasable A g"
    unfolding releaseGateway_def by (intro safe_submit) (use that assms(1) in \<open>auto simp: adapter_safe.simps\<close>)
  show ?thesis
  proof (cases "annotation (gw_Meta g) poolUIDAnnotation = ''''")
    case True
    then have "releasable A g" using assms unfolding releasable_def by blast
    with True show ?thesis by (simp add: retireAbsent_def rel)
  next
    case False
    have "releasable A g" if "answers (gk_GetConfigMap (ad_Client A) (archiveKey g)) (Inr c)" "retirementProved A g c = None" for c
      using assms that(1) retirementProved_None [OF that(2)] unfolding releasable_def by blast
    with False show ?thesis
      by (auto simp: retireAbsent_def intro!: emits_all_call_then emits_all_return rel split: sum.split option.split)
  qed
qed

lemma safe_ensureArchive:
  assumes "gateway_read A req g" "pool_done A g p" "marshalPool (ad_Json A) p = Inr raw"
  shows "safely A req (ensureArchive A g p raw)"
proof -
  have "adapter_safe A req (CreateConfigMap (newArchive A g raw))" unfolding adapter_safe.simps using assms by blast
  then show ?thesis unfolding ensureArchive_def by (auto intro!: emits_all_call_then emits_all_return safe_submit split: sum.split)
qed

lemma ensureArchive_archived:
  assumes "marshalPool (ad_Json A) p = Inr raw"
  shows "yields (ensureArchive A g p raw) (\<lambda>r. r = None \<longrightarrow> archived A g p)"
proof -
  have create: "yields (submit (ad_Client A) (CreateConfigMap (newArchive A g raw))) (\<lambda>r. r = None \<longrightarrow> archived A g p)"
    unfolding submit_def by (rule yields_mono [OF yields_issue]) (use assms in \<open>auto simp: archived_def\<close>)
  show ?thesis
    unfolding ensureArchive_def
  proof (rule yields_bind [OF yields_call])
    fix r assume r: "answers (gk_GetConfigMap (ad_Client A) (archiveKey g)) r"
    show "yields (case r of
         Inl e \<Rightarrow> if is_not_found e then submit (ad_Client A) (CreateConfigMap (newArchive A g raw)) else State_Monad.return (Some e)
       | Inr archive \<Rightarrow> State_Monad.return (case archivedPool A archive of
             Inl e \<Rightarrow> Some (Errorf ''retired archive collision or ledger changed; refusing overwrite'')
           | Inr prior \<Rightarrow> if archiveSealed A g archive \<and> sameLedger prior p then None
               else Some (Errorf ''retired archive collision or ledger changed; refusing overwrite'')))
       (\<lambda>r. r = None \<longrightarrow> archived A g p)"
      using r create by (cases r) (auto intro!: yields_return simp: archived_def split: sum.splits)
  qed
qed

lemma safe_pool_finalizers:
  assumes "gateway_read A req g" "pool_seen A p" "ownsObject A (np_Meta p) (om_UID (gw_Meta g))"
  shows "\<not> om_Deleting (np_Meta p) \<Longrightarrow> adapter_safe A req (UpdateNlbPool (p\<lparr>np_Meta := finalize A PoolArchiveFinalizer (np_Meta p)\<rparr>))"
    and "om_Deleting (np_Meta p) \<Longrightarrow> pool_done A g p \<Longrightarrow> archived A g p \<Longrightarrow>
      adapter_safe A req (UpdateNlbPool (p\<lparr>np_Meta := unfinalize A PoolArchiveFinalizer (np_Meta p)\<rparr>))"
  unfolding adapter_safe.simps using assms by blast+

lemma safe_retirePool:
  assumes g: "gateway_read A req g" "om_Deleting (gw_Meta g)" and p: "pool_seen A p"
  shows "safely A req (retirePool A g p)"
proof (cases "ownsObject A (np_Meta p) (om_UID (gw_Meta g))")
  case True
  note finalizers = safe_pool_finalizers [OF g(1) p True]
  let ?rest = "\<lambda>e. case e of Some x \<Rightarrow> State_Monad.return (Some x)
      | None \<Rightarrow> (if \<not> om_Deleting (np_Meta p) then deleteExact A (np_Meta p) (DeletePool p)
          else if finalized A PoolArchiveFinalizer (np_Meta p)
          then submit (ad_Client A) (UpdateNlbPool (p\<lparr>np_Meta := unfinalize A PoolArchiveFinalizer (np_Meta p)\<rparr>))
          else State_Monad.return None)"
  have finish: "safely A req (State_Monad.bind (ensureArchive A g p raw) ?rest)" if raw: "marshalPool (ad_Json A) p = Inr raw" and pd: "pool_done A g p" for raw
  proof (rule emits_all_bind_yields [OF safe_ensureArchive [OF g(1) pd raw] ensureArchive_archived [OF raw]])
    fix e :: "go_error option" assume "e = None \<longrightarrow> archived A g p"
    then show "safely A req (?rest e)"
      using pd g(1) by (cases e) (auto intro!: emits_all_return safe_deleteExact safe_submit finalizers simp: adapter_safe.simps(6))
  qed
  have "pool_done A g p" if "st_PendingWork (np_Status p) = ''''" "\<not> list_ex (\<lambda>a. \<not> al_Tombstone a) (map_values (pool_allocations p))"
    using g p True that by (auto simp: pool_done_def list_ex_iff)
  with finish show ?thesis
    unfolding retirePool_def by (auto intro!: emits_all_return safe_submit finalizers(1) split: sum.split)
qed (simp add: retirePool_def emits_all_return)

lemma references_gateway_fold:
  "(\<lambda>b. bs_Pool (tb_Spec b) = PoolName uid \<or> label (tb_Meta b) GatewayUIDLabel = uid) = references_gateway uid"
  by (simp add: fun_eq_iff references_gateway_def)

lemma safe_retireGateway:
  assumes g: "gateway_read A req g" "om_Deleting (gw_Meta g)" and bs: "answers (gk_ListBindings (ad_Client A) (ad_Namespace A)) (Inr bs)"
  shows "safely A req (retireGateway A g bs)"
proof (cases "find (references_gateway (om_UID (gw_Meta g))) bs")
  case None
  then have none: "\<forall>b \<in> set bs. \<not> references_gateway (om_UID (gw_Meta g)) b" by (auto simp: find_None_iff)
  show ?thesis
    unfolding retireGateway_def Let_def references_gateway_fold None
    by (auto intro!: emits_all_return emits_all_call_then safe_retirePool [OF g] safe_retireAbsent [OF g _ bs none]
        intro: seenI split: sum.split)
next
  case (Some b)
  then have "binding_listed A b" using bs by (auto simp: binding_listed_def find_Some_iff)
  with Some g show ?thesis
    unfolding retireGateway_def Let_def references_gateway_fold Some
    by (auto intro!: emits_all_return safe_deleteExact simp: adapter_safe.simps)
qed

subsection \<open>Pools and bindings\<close>

lemma safe_recordPool:
  assumes "gateway_read A req g" "pool_seen A p"
  shows "safely A req (recordPool A g p)"
proof -
  have "adapter_safe A req (PatchGateway (annotatePool (om_UID (np_Meta p)) g))" if "annotation (gw_Meta g) poolUIDAnnotation = ''''"
    unfolding adapter_safe.simps using assms that by blast
  then show ?thesis unfolding recordPool_def Let_def by (auto intro!: emits_all_return emits_all_bind emits_all_issue)
qed

text \<open>The Gateway and the pool that the rest goes on with.\<close>

definition ensured :: "'w adapter \<Rightarrow> object_key \<Rightarrow> gateway \<times> (go_error + nlb_pool) \<Rightarrow> bool" where
  "ensured A req r \<longleftrightarrow> gateway_held A req (fst r) \<and> (\<forall>p. snd r = Inr p \<longrightarrow> gateway_read A req (fst r) \<and> pool_seen A p)"

lemma recordPool_ensured:
  assumes "gateway_read A req g" "pool_seen A p"
  shows "yields (recordPool A g p) (ensured A req)"
proof (cases "annotation (gw_Meta g) poolUIDAnnotation = ''''")
  case True
  let ?g = "annotatePool (om_UID (np_Meta p)) g"
  have "ensured A req (case r of Inl e \<Rightarrow> (?g, Inl e) | Inr g'' \<Rightarrow> (g'', Inr p))" if "answers (gk_PatchGateway (ad_Client A) ?g) r" for r
    using that assms True by (cases r) (auto simp: ensured_def gateway_held_def gateway_read_def)
  with True show ?thesis unfolding recordPool_def Let_def by (auto intro!: yields_bind [OF yields_issue] yields_return)
qed (use assms in \<open>auto simp: recordPool_def ensured_def gateway_held_def intro!: yields_return\<close>)

lemma safe_acceptPool:
  assumes "gateway_read A req g" "pool_seen A p"
  shows "safely A req (acceptPool A g spec p)" and "yields (acceptPool A g spec p) (ensured A req)"
proof -
  let ?p = "p\<lparr>np_Meta := finalize A PoolArchiveFinalizer (np_Meta p)\<rparr>"
  have held: "ensured A req (g, Inl e)" for e using assms(1) by (simp add: ensured_def gateway_held_def)
  show "yields (acceptPool A g spec p) (ensured A req)"
    unfolding acceptPool_def Let_def
    by (auto intro!: yields_return held recordPool_ensured [OF assms(1)] assms(2) seenI(3) yields_bind [OF yields_issue] split: sum.split)
  show "safely A req (acceptPool A g spec p)"
    unfolding acceptPool_def Let_def
    by (auto intro!: emits_all_return safe_recordPool [OF assms(1)] assms(2) seenI(3) emits_all_issue safe_pool_finalizers(1) [OF assms]
        emits_all_bind_yields [OF _ yields_issue] split: sum.split)
qed

lemma safe_ensurePool:
  assumes "gateway_read A req g"
  shows "safely A req (ensurePool A g)" and "yields (ensurePool A g) (ensured A req)"
proof -
  have held: "ensured A req (g, Inl e)" for e using assms by (simp add: ensured_def gateway_held_def)
  have create: "adapter_safe A req (CreatePool (newPool A g (gatewayPoolSpec A n c)))"
    if "gatewayWorkers g = Inr (n, c)" "annotation (gw_Meta g) poolUIDAnnotation = ''''" "is_not_found e"
      "answers (gk_GetPool (ad_Client A) (om_Namespace (gw_Meta g), PoolName (om_UID (gw_Meta g)))) (Inl e)" for n c e
    unfolding adapter_safe.simps using that(1,2) seenI(6) [OF that(3,4)] assms by blast
  show "yields (ensurePool A g) (ensured A req)"
    unfolding ensurePool_def Let_def
    by (auto intro!: yields_return held safe_acceptPool(2) [OF assms] yields_bind [OF yields_issue] yields_bind [OF yields_call]
        split: sum.split) (blast intro: seenI)+
  show "safely A req (ensurePool A g)"
    unfolding ensurePool_def Let_def
    by (auto intro!: emits_all_return emits_all_call_then safe_acceptPool(1) [OF assms] emits_all_issue create
        emits_all_bind_yields [OF _ yields_issue] split: sum.split) (blast intro: seenI)+
qed

lemma safe_ensureBinding:
  assumes "route_bound A req g route spec"
  shows "safely A req (ensureBinding A g route spec)"
proof -
  have create: "adapter_safe A req (CreateBinding (newRouteBinding A g route spec))"
    if "is_not_found e" "answers (gk_GetBinding (ad_Client A) (om_Namespace (gw_Meta g), BindingName (om_UID (gw_Meta g)) (om_UID (ur_Meta route)))) (Inl e)" for e
    unfolding adapter_safe.simps by (rule exI [of _ g], rule exI [of _ route]) (use assms that in \<open>auto simp: newRouteBinding_def generated_meta_def\<close>)
  have patch: "adapter_safe A req (PatchBinding (b\<lparr>tb_Spec := spec\<rparr>))"
    if "answers (gk_GetBinding (ad_Client A) k) (Inr b)" "ownsBinding A b" "\<not> om_Deleting (tb_Meta b)" "label (tb_Meta b) RouteUIDLabel = om_UID (ur_Meta route)"
      "sameBindingTarget (tb_Spec b) spec" for b k
    unfolding adapter_safe.simps by (rule exI [of _ b]) (use assms that seenI(4) [OF that(1)] in auto)
  show ?thesis
    unfolding ensureBinding_def Let_def
    by (auto intro!: emits_all_return emits_all_tryM emits_all_issue emits_all_call_then create patch safe_disableBinding
        intro: seenI split: sum.split)
qed

subsection \<open>Routes\<close>

lemma safe_disableNamed: "\<forall>b \<in> set bs. binding_seen A b \<Longrightarrow> safely A req (disableNamed A n bs)"
  by (induction bs) (auto intro!: emits_all_return emits_all_tryM safe_disableBinding)

lemma disableNamed_seen:
  "\<forall>b \<in> set bs. binding_seen A b \<Longrightarrow> yields (disableNamed A n bs) (\<lambda>r. \<forall>bs'. r = Inr bs' \<longrightarrow> (\<forall>b \<in> set bs'. binding_seen A b))"
proof (induction bs)
  case (Cons b bs)
  then have rest: "yields (disableNamed A n bs) (\<lambda>r. \<forall>bs'. r = Inr bs' \<longrightarrow> (\<forall>b \<in> set bs'. binding_seen A b))" and b: "binding_seen A b" by simp_all
  have "yields (tryM (disableNamed A n bs) (\<lambda>bs'. State_Monad.return (Inr (x # bs')))) (\<lambda>r. \<forall>bs'. r = Inr bs' \<longrightarrow> (\<forall>b \<in> set bs'. binding_seen A b))"
    if "binding_seen A x" for x
    by (rule yields_tryM [OF rest]) (use that in \<open>auto intro!: yields_return\<close>)
  then show ?case using b by (auto intro!: yields_return yields_tryM [OF disableBinding_seen])
qed (simp add: yields_return)

lemma safe_finishRoute:
  "gateway_read A req g \<Longrightarrow> route_listed A route \<Longrightarrow> safely A req (finishRoute A g route v programmed reason message rr)"
  unfolding finishRoute_def by (auto intro!: emits_all_return emits_all_bind safe_routeStatus)

lemma judgeRoute_accepts:
  assumes ok: "vd_error (judgeRoute g pool (last_with (\<lambda>s. om_Name (sv_Meta s)) services) claimed route) = None" and pool: "pool_seen A pool"
    and services: "answers (gk_ListServices (ad_Client A) (ad_Namespace A)) (Inr services)"
  shows "exclusive_listener A g route (vd_spec (judgeRoute g pool (last_with (\<lambda>s. om_Name (sv_Meta s)) services) claimed route))"
proof -
  let ?svcs = "last_with (\<lambda>s. om_Name (sv_Meta s)) services"
  obtain l where l: "listenerFor route g = Inr l" using ok by (auto simp: judgeRoute_def refuse_def split: sum.splits)
  obtain spec where spec: "bindingFor g ?svcs route l = Inr spec" and claimed: "gl_Name l \<notin> set claimed"
    and free: "\<not> leasedElsewhere pool (bs_RequestedPort spec) (BindingName (om_UID (gw_Meta g)) (om_UID (ur_Meta route)))"
    using ok l by (auto simp: judgeRoute_def refuse_def split: sum.splits if_splits)
  obtain svc where svc: "desiredBinding route g l svc = Inr spec" "svc \<in> set services"
    using spec by (auto simp: bindingFor_def last_with_def find_Some_iff split: sum.splits option.splits) (metis nth_mem length_rev set_rev)
  have "bs_RequestedPort spec = gl_Port l"
    using svc(1) by (auto simp: desiredBinding_def Let_def split: sum.splits if_splits)
  moreover have "vd_spec (judgeRoute g pool ?svcs claimed route) = spec"
    by (simp add: judgeRoute_def l spec claimed free)
  ultimately show ?thesis
    using l svc free pool services unfolding exclusive_listener_def leasedElsewhere_def by (auto simp: list_ex_iff)
qed

lemma safe_add:
  assumes "route_listed A route" "\<not> om_Deleting (ur_Meta route)"
  shows "safely A req (submit K (UpdateRoute (route\<lparr>ur_Meta := finalize A RouteFinalizer (ur_Meta route)\<rparr>)))"
  by (rule safe_submit) (use assms in \<open>auto simp: adapter_safe.simps\<close>)

lemma safe_acceptRoute:
  assumes g: "gateway_read A req g" and route: "route_listed A route" "\<not> om_Deleting (ur_Meta route)" and spec: "exclusive_listener A g route (vd_spec v)"
  shows "safely A req (acceptRoute A g pool route v rr)"
proof -
  have bound: "route_bound A req g route (vd_spec v)" if "finalized A RouteFinalizer (ur_Meta route)"
    using that assms by (simp add: route_bound_def)
  show ?thesis
    unfolding acceptRoute_def Let_def
    by (auto intro!: emits_all_return emits_all_bind safe_add [OF route] safe_ensureBinding bound safe_routeStatus [OF g route(1)] safe_finishRoute [OF g route(1)]
        split: sum.split go_error.split)
qed

text \<open>The bindings that the loop over the routes carries along came from the server.\<close>

definition run_seen :: "'w adapter \<Rightarrow> route_run \<Rightarrow> bool" where
  "run_seen A rr \<longleftrightarrow> (\<forall>b \<in> set (rr_bindings rr). binding_seen A b)"

lemma run_seen_simps [simp]:
  "run_seen A (rr\<lparr>rr_claimed := x\<rparr>) = run_seen A rr" "run_seen A (rr\<lparr>rr_states := y\<rparr>) = run_seen A rr"
  "run_seen A (rr\<lparr>rr_bindings := bs\<rparr>) \<longleftrightarrow> (\<forall>b \<in> set bs. binding_seen A b)"
  by (simp_all add: run_seen_def)

abbreviation yields_seen :: "'w adapter \<Rightarrow> ('w, answer + route_run) gw_op \<Rightarrow> bool" where
  "yields_seen A m \<equiv> yields m (\<lambda>r. \<forall>rr. r = Inr rr \<longrightarrow> run_seen A rr)"

lemma finishRoute_seen:
  assumes "gateway_read A req g" "route_listed A route" "run_seen A rr"
  shows "yields_seen A (finishRoute A g route v programmed reason message rr)"
  unfolding finishRoute_def
  by (rule yields_bind [OF yields_emits [OF safe_routeStatus [OF assms(1,2)]]])
     (use assms(3) in \<open>auto intro!: yields_return split: option.splits if_splits\<close>)

lemma acceptRoute_seen:
  assumes g: "gateway_read A req g" and route: "route_listed A route" "\<not> om_Deleting (ur_Meta route)" and spec: "exclusive_listener A g route (vd_spec v)"
    and seen: "run_seen A rr"
  shows "yields_seen A (acceptRoute A g pool route v rr)"
proof -
  note any = yields_emits [OF safe_ensureBinding] yields_emits [OF safe_routeStatus [OF g route(1)]] yields_emits [OF safe_add [OF route]]
  have bound: "route_bound A req g route (vd_spec v)" if "finalized A RouteFinalizer (ur_Meta route)"
    using that assms by (simp add: route_bound_def)
  show ?thesis
    unfolding acceptRoute_def Let_def
    by (auto intro!: any [THEN yields_bind] bound yields_return finishRoute_seen [OF g route(1)] seen split: sum.split option.splits go_error.split)
qed

lemma processRoute_seen:
  assumes g: "gateway_read A req g" and pool: "pool_seen A pool" and services: "answers (gk_ListServices (ad_Client A) (ad_Namespace A)) (Inr services)"
    and route: "route_listed A route" and seen: "run_seen A rr"
  shows "yields_seen A (processRoute A g pool (last_with (\<lambda>s. om_Name (sv_Meta s)) services) route rr)"
proof -
  have bindings: "\<forall>b \<in> set (rr_bindings rr'). binding_seen A b" if "run_seen A rr'" for rr' using that by (simp add: run_seen_def)
  show ?thesis
    unfolding processRoute_def Let_def
    by (auto intro!: yields_return acceptRoute_seen [OF g route] judgeRoute_accepts [OF _ pool services]
        yields_bind [OF disableNamed_seen [OF bindings]] finishRoute_seen [OF g route] simp: seen split: option.split sum.split)
qed

lemma safe_processRoute:
  assumes g: "gateway_read A req g" and pool: "pool_seen A pool" and services: "answers (gk_ListServices (ad_Client A) (ad_Namespace A)) (Inr services)"
    and route: "route_listed A route" and seen: "run_seen A rr"
  shows "safely A req (processRoute A g pool (last_with (\<lambda>s. om_Name (sv_Meta s)) services) route rr)"
proof -
  have "binding_seen A b" if "b \<in> set (rr_bindings rr)" for b using that seen by (simp add: run_seen_def)
  then show ?thesis
    unfolding processRoute_def Let_def
    by (auto intro!: emits_all_return emits_all_bind safe_acceptRoute [OF g route] judgeRoute_accepts [OF _ pool services] safe_disableNamed
        safe_finishRoute [OF g route] split: option.split sum.split)
qed

lemma safe_processRoutes:
  assumes g: "gateway_read A req g" and pool: "pool_seen A pool" and services: "answers (gk_ListServices (ad_Client A) (ad_Namespace A)) (Inr services)"
    and "\<forall>route \<in> set routes. route_listed A route" "run_seen A rr"
  shows "safely A req (processRoutes A g pool (last_with (\<lambda>s. om_Name (sv_Meta s)) services) routes rr)"
  using assms(4,5)
proof (induction routes arbitrary: rr)
  case (Cons route routes)
  show ?case
    unfolding processRoutes.simps
    by (rule emits_all_bind_yields [OF safe_processRoute [OF g pool services] processRoute_seen [OF g pool services]])
       (use Cons in \<open>auto intro!: emits_all_return split: sum.split\<close>)
qed (simp add: emits_all_return)

section \<open>The reconciliation\<close>

lemma safe_serveRoutes:
  assumes g: "gateway_read A req g" and pool: "pool_seen A pool" and routes: "\<forall>route \<in> set routes. route_listed A route"
    and bindings: "\<forall>b \<in> set bindings. binding_seen A b"
  shows "safely A req (serveRoutes A g pool routes bindings)"
proof -
  have "gateway_held A req g" using g by (simp add: gateway_held_def)
  moreover have "run_seen A \<lparr>rr_claimed = [], rr_states = [], rr_bindings = bindings\<rparr>" using bindings by (simp add: run_seen_def)
  ultimately show ?thesis
    unfolding serveRoutes_def using routes
    by (auto intro!: emits_all_return emits_all_call_then emits_all_bind safe_processRoutes [OF g pool] safe_gatewayStatus split: sum.split)
qed

lemma safe_serveGateway:
  assumes g: "gateway_read A req g" "\<not> om_Deleting (gw_Meta g)" and routes: "\<forall>route \<in> set routes. route_listed A route"
    and bindings: "\<forall>b \<in> set bindings. binding_seen A b"
  shows "safely A req (serveGateway A g routes bindings)"
proof -
  have add: "adapter_safe A req (UpdateGateway (g\<lparr>gw_Meta := finalize A GatewayFinalizer (gw_Meta g)\<rparr>))"
    unfolding adapter_safe.simps using g by blast
  have "safely A req (State_Monad.bind (ensurePool A g) (\<lambda>(g', r). case r of
          Inl e \<Rightarrow> do { s \<leftarrow> gatewayStatus A g' None [] (Some e); State_Monad.return (later (case s of Some x \<Rightarrow> Some x | None \<Rightarrow> Some e)) }
        | Inr pool \<Rightarrow> serveRoutes A g' pool routes bindings))"
    by (rule emits_all_bind_yields [OF safe_ensurePool [OF g(1)]])
       (auto intro!: emits_all_bind emits_all_return safe_gatewayStatus safe_serveRoutes routes bindings simp: ensured_def split: sum.split prod.split)
  then show ?thesis unfolding serveGateway_def by (auto intro!: emits_all_bind emits_all_return safe_submit add)
qed

lemma safe_checkClass: "safely A req (checkClass A g)"
proof -
  have "safely A req (acceptClass A c problem)"
    if "answers (gk_GetClass (ad_Client A) (ad_GatewayClassName A)) (Inr c)" "gc_ControllerName c = ad_ControllerName A" for c problem
    unfolding acceptClass_def Let_def
    by (auto intro!: emits_all_return emits_all_bind safe_submit exI [of _ c] that simp: adapter_safe.simps)
  then show ?thesis
    unfolding checkClass_def Let_def by (auto intro!: emits_all_return emits_all_call_then split: sum.split)
qed

lemma safe_disableAll: "\<forall>b \<in> set bs. binding_seen A b \<Longrightarrow> safely A req (disableAll A uid bs)"
  by (induction bs) (auto intro!: emits_all_return emits_all_bind safe_disableBinding split: sum.split)

lemma safe_rejectGateway:
  assumes "gateway_read A req g" "\<forall>route \<in> set routes. route_listed A route" "\<forall>b \<in> set bindings. binding_seen A b"
  shows "safely A req (rejectGateway A g routes bindings problem)"
  unfolding rejectGateway_def
  by (auto intro!: emits_all_return emits_all_bind safe_disableAll safe_rejectRoutes safe_gatewayStatus assms split: option.split)
     (simp add: gateway_held_def assms(1))

lemma safe_reconcileGateway:
  assumes "gateway_read A req g" "listed A routes bindings pools"
  shows "safely A req (reconcileGateway A g routes bindings)"
  unfolding reconcileGateway_def
  by (auto intro!: emits_all_return emits_all_bind safe_rejectRoutes safe_retireGateway safe_checkClass safe_rejectGateway safe_serveGateway
      assms(1) listedD [OF assms(2)] split: option.split sum.split)

lemma readObjects_listed:
  "yields (readObjects A) (\<lambda>r. \<forall>routes bindings pools. r = Inr (routes, bindings, pools) \<longrightarrow> listed A routes bindings pools)"
  unfolding readObjects_def by (auto intro!: yields_tryM [OF yields_call] yields_return simp: listed_def)

lemma silent_readObjects [silent_ops]: "silent (readObjects A)"
  unfolding readObjects_def by (intro silent_ops)

lemma safe_adapterReconcile: "safely A req (adapterReconcile A req)"
proof -
  have "safely A req (State_Monad.bind (readObjects A) (\<lambda>r. case r of Inl e \<Rightarrow> State_Monad.return (later (Some e))
      | Inr (routes, bindings, pools) \<Rightarrow> do {
            (changed, err) \<leftarrow> cleanupRoutes A routes bindings pools;
            if changed \<or> err \<noteq> None then State_Monad.return (later err)
            else do {
              x \<leftarrow> call (gk_GetGateway (ad_Client A) req);
              case x of Inl e \<Rightarrow> State_Monad.return (later (ignoreNotFound (Some e))) | Inr g \<Rightarrow> reconcileGateway A g routes bindings
            }
          }))"
    by (rule emits_all_bind_yields [OF emits_all_silent [OF silent_readObjects] readObjects_listed])
       (auto intro!: emits_all_return emits_all_bind emits_all_call_then safe_cleanupRoutes safe_reconcileGateway simp: gateway_read_def split: sum.split)
  note body = this
  show ?thesis
    unfolding adapterReconcile_def
  proof (intro emits_all_if emits_all_return emits_all_bind [OF emits_all_silent [OF silent_gets]], goal_cases)
    case (1 cancelled)
    then show ?case using body by (cases cancelled) (simp_all only: option.case emits_all_return)
  qed
qed

end
