(* ===== verification/Gateway_Compose.thy ===== *)
theory Gateway_Compose
  imports Gateway_Fleet_Properties Gateway_Adapter Endpoints
begin

text \<open>
  How the three controllers fit together: the Gateway pool controller writes Gateways and parent
  references, the adapter reads them and writes pools and bindings, and the engine reads those.  The
  theorems say that what one writes the next accepts, with the endpoint the ledger promised.
\<close>

section \<open>Generated Gateways are accepted\<close>

lemma find_by_key: "distinct (map f xs) \<Longrightarrow> x \<in> set xs \<Longrightarrow> find (\<lambda>y. f y = f x) xs = Some x"
  by (induction xs) (auto simp: image_iff)

lemma leaseListener_simps [simp]:
  "gl_Name (leaseListener a) = ga_ListenerName a" "gl_Port (leaseListener a) = ga_Port a"
  "gl_Name \<circ> leaseListener = ga_ListenerName" "gl_Port \<circ> leaseListener = ga_Port"
  by (simp_all add: leaseListener_def fun_eq_iff)

lemma leaseListener_profile: "ga_ListenerName a \<noteq> '''' \<Longrightarrow> 1 \<le> ga_Port a \<Longrightarrow> ga_Port a \<le> 65535 \<Longrightarrow> listener_profile (leaseListener a)"
  by (simp add: listener_profile_def leaseListener_def routes_profile_def)

lemma desiredGateway_workers:
  assumes "fleet_spec_ok (gp_Spec p)"
  shows "asked_workers (desiredGateway p name inst) = Some (effectiveWorkers (gp_Spec p))"
proof (cases "gs_MaxWorkers (gp_Spec p) = 0")
  case True
  then show ?thesis by (simp add: asked_workers_def desiredGateway_def effectiveWorkers_def)
next
  case False
  with assms have r: "1 \<le> gs_MaxWorkers (gp_Spec p)" "gs_MaxWorkers (gp_Spec p) \<le> 512"
    by (simp_all add: fleet_spec_ok_def effectiveWorkers_def)
  then have "atoi (itoa (gs_MaxWorkers (gp_Spec p))) = Some (gs_MaxWorkers (gp_Spec p))"
    by (intro atoi_itoa) (simp add: is_int64_def)
  moreover have "itoa (gs_MaxWorkers (gp_Spec p)) \<noteq> []" by (simp add: itoa_def)
  ultimately have "atoi (itoa (gs_MaxWorkers (gp_Spec p))) = Some (gs_MaxWorkers (gp_Spec p)) \<and> itoa (gs_MaxWorkers (gp_Spec p)) \<noteq> []" ..
  with False r show ?thesis
    by (simp add: asked_workers_def desiredGateway_def effectiveWorkers_def WorkersAnnotation_def MaxWorkersAnnotation_def)
qed

lemma desiredGateway_spec:
  "gy_Addresses (gw_Spec (desiredGateway p name inst)) = []" "gy_Infrastructure (gw_Spec (desiredGateway p name inst)) = None"
  "gy_AllowedListeners (gw_Spec (desiredGateway p name inst)) = None" "gy_TLS (gw_Spec (desiredGateway p name inst)) = None"
  "gy_DefaultScope (gw_Spec (desiredGateway p name inst)) = ''''" "om_Name (gw_Meta (desiredGateway p name inst)) = name"
  by (simp_all add: desiredGateway_def)

text \<open>
  C17. Every Gateway that the pool controller generates passes the adapter's validation.  For a pool with a
  sound ledger and any of its leases, retired leases included, the Gateway of the lease's shard has between
  one and fifty listeners, within the backend budget that the adapter computes from the worker annotation
  the controller wrote, and distinct names and ports.  Listener names are truncated SHA-256 hashes of
  route UIDs, which must not collide within the pool.
\<close>

theorem desiredGateway_accepted:
  assumes ok: "fleet_ok p" and hash: "route_hashes_distinct p" and a: "a \<in> snd ` set (fleet_leases p)"
  shows "validateGateway (desiredGateway p (ga_GatewayName a) inst) = None"
proof -
  let ?bs = "chosen (fleet_leases p) (ga_GatewayName a)" and ?w = "effectiveWorkers (gp_Spec p)"
  note spec = fleet_ok_parts(1) [OF ok]
  have n: "1 \<le> length ?bs" using chosen_nonempty [OF a] by (cases ?bs) simp_all
  have len: "int (length ?bs) \<le> gs_Occupancy (gp_Spec p)" by (rule chosen_length [OF ok])
  have "int (length ?bs) * ?w \<le> gs_Occupancy (gp_Spec p) * ?w"
    using len spec by (intro mult_right_mono) (simp_all add: fleet_spec_ok_def)
  also have "\<dots> \<le> 1024" using spec by (simp add: fleet_spec_ok_def)
  finally have budget: "int (length ?bs) * ?w \<le> 1024" .
  have fifty: "int (length ?bs) \<le> 50" using spec len by (simp add: fleet_spec_ok_def)
  have "listener_profile (leaseListener b)" if "b \<in> set ?bs" for b
    using fleet_ok_port(3-5) [OF ok, of b] chosen_set [OF that] by (intro leaseListener_profile) simp_all
  then have "list_all listener_profile (map leaseListener ?bs)" by (auto simp: list_all_iff)
  then show ?thesis
    unfolding validateGateway_profile gateway_profile_def Let_def
    using n budget fifty chosen_ports [OF ok] chosen_names [OF ok hash] desiredGateway_workers [OF spec]
    by (simp add: desiredListeners_chosen desiredGateway_spec)
qed

text \<open>A pool with one lease.\<close>

definition single_lease :: gateway_allocation where
  "single_lease = newLease new_fleet (demo_route ''r1'') (plain_service ''s1'') 5000 8080 0 20000"

definition single_fleet :: gateway_pool where
  "single_fleet = put_gateway_allocation ''r1'' single_lease new_fleet"

lemma single_fleet_facts:
  "fleet_ok single_fleet" "route_hashes_distinct single_fleet" "map_of (fleet_leases single_fleet) ''r1'' = Some single_lease"
  "single_lease \<in> snd ` set (fleet_leases single_fleet)" "\<not> ga_Tombstone single_lease"
  by (auto simp: fleet_ok_def fleet_spec_ok_def effectiveWorkers_def ledger_ok_def wf_map_def fleet_slot_def fleet_slots_def
      fleet_ports_unique_def lease_named_def map_values_def demo_fleet_defs single_fleet_def single_lease_def route_hashes_distinct_def)

theorem desiredGateway_accepted_witness:
  "validateGateway (desiredGateway single_fleet (ga_GatewayName single_lease) ''inst'') = None"
  by (rule desiredGateway_accepted [OF single_fleet_facts(1,2,4)])

text \<open>
  C19. The parent reference leads back to the lease.  When the controller attaches a route to its active lease,
  the reference it writes is the one it accepts on later reconciliations, and the adapter resolves it, on
  the Gateway generated for the shard, to exactly the listener of the lease, hence to the leased port.
\<close>

theorem leased_route_resolves:
  assumes ok: "fleet_ok p" and hash: "route_hashes_distinct p"
    and a: "map_of (fleet_leases p) (route_uid route) = Some a" "\<not> ga_Tombstone a"
    and default: "ur_UseDefaultGateways route = '''' \<or> ur_UseDefaultGateways route = ''None''"
  shows "matchesParent (attachedRoute L a route) a \<and>
    listenerFor (attachedRoute L a route) (desiredGateway p (ga_GatewayName a) inst) = Inr (leaseListener a) \<and>
    gl_Port (leaseListener a) = ga_Port a"
proof -
  let ?bs = "chosen (fleet_leases p) (ga_GatewayName a)"
  have mem: "a \<in> snd ` set (fleet_leases p)" using map_of_SomeD [OF a(1)] by force
  have "distinct (map gl_Name (map leaseListener ?bs))" using chosen_names [OF ok hash, of "ga_GatewayName a"] by simp
  moreover have "leaseListener a \<in> set (map leaseListener ?bs)" using chosen_live [OF mem a(2)] by simp
  ultimately have "find (\<lambda>l. gl_Name l = gl_Name (leaseListener a)) (map leaseListener ?bs) = Some (leaseListener a)"
    by (rule find_by_key)
  moreover have "ga_ListenerName a \<noteq> ''''" by (rule fleet_ok_port(5) [OF ok mem])
  ultimately show ?thesis
    using default
    by (auto simp: matchesParent_def listenerFor_def parentMatches_def attachedRoute_def leaseParent_def desiredGateway_spec
        desiredListeners_chosen)
qed

theorem leased_route_resolves_witness:
  "listenerFor (attachedRoute list_lib single_lease (demo_route ''r1'')) (desiredGateway single_fleet (ga_GatewayName single_lease) ''inst'')
     = Inr (leaseListener single_lease) \<and> gl_Port (leaseListener single_lease) = 20000"
proof -
  have uid: "route_uid (demo_route ''r1'') = ''r1''" and default: "ur_UseDefaultGateways (demo_route ''r1'') = ''''"
    and port: "ga_Port single_lease = 20000"
    by (simp_all add: demo_route_def meta_named_def single_lease_def newLease_def)
  have "map_of (fleet_leases single_fleet) (route_uid (demo_route ''r1'')) = Some single_lease" unfolding uid by (rule single_fleet_facts(3))
  from leased_route_resolves [OF single_fleet_facts(1,2) this single_fleet_facts(5) disjI1 [OF default]] port
  show ?thesis by simp
qed

section \<open>The scan of a Service's ports\<close>

text \<open>The values of the local variables after the loop, without the loop.\<close>

definition last_or :: "'b \<Rightarrow> ('a \<Rightarrow> 'b) \<Rightarrow> 'a list \<Rightarrow> 'b" where
  "last_or d f xs = (if xs = [] then d else f (last xs))"

definition scan_result :: "string \<Rightarrow> int \<Rightarrow> int \<Rightarrow> service_port list \<Rightarrow> port_scan \<Rightarrow> port_scan" where
  "scan_result mode port hp ps sc =
     \<lparr>sc_selected = last_or (sc_selected sc) sp_Name (filter (selectsPort port) ps),
      sc_matches = sc_matches sc + length (filter (selectsPort port) ps),
      sc_healthFound = (sc_healthFound sc \<or> list_ex (\<lambda>p. isLocalHealth mode hp p \<or> isPodHealth mode hp p) ps),
      sc_healthMatches = sc_healthMatches sc + length (filter (isLocalHealth mode hp) ps),
      sc_healthNodePort = last_or (sc_healthNodePort sc) sp_NodePort (filter (isLocalHealth mode hp) ps)\<rparr>"

lemma scanPorts_result:
  assumes "\<forall>p \<in> set ps. (selectsPort port p \<longrightarrow> usesNodePort mode \<longrightarrow> \<not> noNodePort p) \<and> (isLocalHealth mode hp p \<longrightarrow> \<not> noNodePort p)"
  shows "scanPorts mode port hp ps sc = Inr (scan_result mode port hp ps sc)"
  using assms
proof (induction ps arbitrary: sc)
  case Nil
  then show ?case by (simp add: scan_result_def last_or_def)
next
  case (Cons p ps)
  let ?sc1 = "if selectsPort port p then sc\<lparr>sc_selected := sp_Name p, sc_matches := Suc (sc_matches sc)\<rparr> else sc"
  let ?sc2 = "if isLocalHealth mode hp p
    then ?sc1\<lparr>sc_healthFound := True, sc_healthMatches := Suc (sc_healthMatches ?sc1), sc_healthNodePort := sp_NodePort p\<rparr> else ?sc1"
  let ?sc3 = "if isPodHealth mode hp p then ?sc2\<lparr>sc_healthFound := True\<rparr> else ?sc2"
  have "\<not> (selectsPort port p \<and> usesNodePort mode \<and> noNodePort p)" "\<not> (isLocalHealth mode hp p \<and> noNodePort p)"
    using Cons.prems by auto
  then have "scanPorts mode port hp (p # ps) sc = scanPorts mode port hp ps ?sc3"
    by (simp only: scanPorts.simps Let_def if_False)
  also have "\<dots> = Inr (scan_result mode port hp ps ?sc3)" using Cons by simp
  also have "scan_result mode port hp ps ?sc3 = scan_result mode port hp (p # ps) sc"
    by (simp add: scan_result_def last_or_def)
  finally show ?case .
qed

section \<open>A leased route is admitted by all three controllers\<close>

text \<open>What the API server guarantees of a Service, and that it returns the object asked for.\<close>

definition service_wellformed :: "service \<Rightarrow> bool" where
  "service_wellformed svc \<longleftrightarrow>
     om_UID (sv_Meta svc) \<noteq> '''' \<and> distinct (map (\<lambda>p. (sp_Protocol p, sp_Port p)) (sv_Ports svc)) \<and> distinct (map sp_Name (sv_Ports svc)) \<and>
     (\<forall>p \<in> set (sv_Ports svc). 1 \<le> sp_Port p \<and> sp_Port p \<le> 65535 \<and> (is_Type (sp_TargetPort p) = 1 \<longrightarrow> is_StrVal (sp_TargetPort p) \<noteq> ''''))"

definition services_served :: "'w gw_client \<Rightarrow> bool" where
  "services_served K \<longleftrightarrow> (\<forall>k w svc w'. gk_GetService K k w = (Inr svc, w') \<longrightarrow> key_of (sv_Meta svc) = k \<and> service_wellformed svc)"

lemma filter_by_key: "distinct (map f xs) \<Longrightarrow> x \<in> set xs \<Longrightarrow> filter (\<lambda>y. f y = f x) xs = [x]"
  by (induction xs) (auto simp: filter_empty_conv image_iff)

lemma filter_single:
  assumes "filter P xs = [u]"
  shows "u \<in> set xs" "P u" "q \<in> set xs \<Longrightarrow> P q \<Longrightarrow> q = u"
proof -
  have "set (filter P xs) = {u}" using assms by simp
  then show "u \<in> set xs" "P u" "q \<in> set xs \<Longrightarrow> P q \<Longrightarrow> q = u" by auto
qed

lemma selected_port:
  assumes "service_wellformed svc" "u \<in> set (sv_Ports svc)" "sp_Protocol u = ''UDP''"
  shows "filter (selectsPort (sp_Port u)) (sv_Ports svc) = [u]"
  using filter_by_key [of "\<lambda>p. (sp_Protocol p, sp_Port p)" "sv_Ports svc" u] assms
  by (simp add: service_wellformed_def selectsPort_def [abs_def])

lemma soleUdpPort_unique:
  assumes "distinct (map sp_Name ps)" "u \<in> set ps" "sp_Protocol u = ''UDP''"
  shows "soleUdpPort ps (sp_Name u) None = Inr (Some u)"
proof -
  have other: "soleUdpPort qs n x = Inr x" if "n \<notin> sp_Name ` set qs" for qs n x
    using that by (induction qs n x rule: soleUdpPort.induct) auto
  show ?thesis using assms by (induction ps) (auto simp: other)
qed

lemma parse_int_widen: "parse_int 32 s = Some v \<Longrightarrow> atoi s = Some v"
  by (auto simp: parse_int_def atoi_def Let_def split: if_splits)

text \<open>Both packages read the same annotations.\<close>

lemma same_annotations: "HealthPortAnnotation = HealthAnnotation" "backendMode route = routeMode route"
  by (simp_all add: HealthPortAnnotation_def HealthAnnotation_def backendMode_def routeMode_def BackendModeAnnotation_def ModeAnnotation_def)

lemma annotatedHealth_agrees:
  assumes "annotatedHealth route = Inr hp"
  shows "routeHealth route (routeMode route) = Inr hp" "1 \<le> hp" "hp \<le> 65535" "knownMode (routeMode route)"
    "routeMode route = ''NodePortCluster'' \<Longrightarrow> hp = 10256"
  using assms parse_int_widen
  by (auto simp: annotatedHealth_def routeHealth_def same_annotations Let_def split: if_splits option.splits)

lemma routeBackend_agrees:
  assumes "routeBackend route = Inr (name, port)" "1 \<le> port" "port \<le> 65535"
  shows "backendService route = Inr (name, port)"
  using assms by (auto simp: routeBackend_def backendService_def split: if_splits list.splits option.splits)

text \<open>A Service that the pool controller accepts, as the adapter's scan sees it.\<close>

lemma checked_service_scan:
  assumes chk: "checkRouteService mode port hp svc = Inr (svc', port', hp')" and wf: "service_wellformed svc" and known: "knownMode mode"
  obtains u sc where "u \<in> set (sv_Ports svc)" "sp_Protocol u = ''UDP''" "sp_Port u = port" "sp_Name u \<noteq> ''''"
    "scanPorts mode port hp (sv_Ports svc) no_scan = Inr sc" "sc_matches sc = 1" "sc_selected sc = sp_Name u"
    "mode \<noteq> ''NodePortCluster'' \<longrightarrow> sc_healthFound sc"
    "mode = ''NodePortLocal'' \<longrightarrow> sc_healthMatches sc = 1 \<and> 1 \<le> sc_healthNodePort sc \<and> sc_healthNodePort sc \<le> 65535 \<and>
       (\<exists>v \<in> set (sv_Ports svc). sp_Protocol v = ''TCP'' \<and> sp_Port v = hp \<and> sp_NodePort v = sc_healthNodePort sc)"
proof -
  let ?ports = "sv_Ports svc"
  obtain u where u: "find (namedUdp port) ?ports = Some u" and np: "usesNodePort mode \<longrightarrow> \<not> noNodePort u" and h: "healthError mode hp svc = None"
    using chk by (auto simp: checkRouteService_def split: if_splits option.splits)
  have mem: "u \<in> set ?ports" "sp_Protocol u = ''UDP''" "sp_Port u = port" "sp_Name u \<noteq> ''''"
    using u by (auto simp: find_Some_iff namedUdp_def)
  have sel: "filter (selectsPort port) ?ports = [u]" using selected_port [OF wf mem(1,2)] mem(3) by simp
  have local: "\<exists>v. filter (isLocalHealth mode hp) ?ports = [v] \<and> \<not> noNodePort v" if m: "mode = ''NodePortLocal''"
  proof -
    obtain v where v: "v \<in> set ?ports" "exposesLocal hp v"
      using h m by (auto simp: healthError_def Let_def filter_empty_conv split: if_splits)
    then have "filter (\<lambda>y. (sp_Protocol y, sp_Port y) = (sp_Protocol v, sp_Port v)) ?ports = [v]"
      using wf by (intro filter_by_key) (auto simp: service_wellformed_def)
    moreover have "isLocalHealth mode hp = (\<lambda>y. (sp_Protocol y, sp_Port y) = (sp_Protocol v, sp_Port v))"
      using v(2) m by (auto simp: isLocalHealth_def exposesLocal_def fun_eq_iff)
    ultimately show ?thesis using v(2) by (auto simp: noNodePort_def exposesLocal_def)
  qed
  have none: "filter (isLocalHealth mode hp) ?ports = []" if "mode \<noteq> ''NodePortLocal''"
    using that by (simp add: isLocalHealth_def)
  have "q = u" if "q \<in> set ?ports" "selectsPort port q" for q
    using filter_single(3) [OF sel that] .
  moreover have "\<not> noNodePort q" if q: "q \<in> set ?ports" "isLocalHealth mode hp q" for q
  proof -
    obtain v where v: "filter (isLocalHealth mode hp) ?ports = [v]" "\<not> noNodePort v" using local q(2) by (auto simp: isLocalHealth_def)
    with filter_single(3) [OF v(1) q] show ?thesis by simp
  qed
  ultimately have scan: "scanPorts mode port hp ?ports no_scan = Inr (scan_result mode port hp ?ports no_scan)"
    using np by (intro scanPorts_result) blast
  show thesis
  proof (rule that [OF mem scan])
    show "sc_matches (scan_result mode port hp ?ports no_scan) = 1" "sc_selected (scan_result mode port hp ?ports no_scan) = sp_Name u"
      by (simp_all add: scan_result_def sel last_or_def no_scan_def)
    show "mode = ''NodePortLocal'' \<longrightarrow> sc_healthMatches (scan_result mode port hp ?ports no_scan) = 1 \<and>
        1 \<le> sc_healthNodePort (scan_result mode port hp ?ports no_scan) \<and> sc_healthNodePort (scan_result mode port hp ?ports no_scan) \<le> 65535 \<and>
        (\<exists>v \<in> set ?ports. sp_Protocol v = ''TCP'' \<and> sp_Port v = hp \<and> sp_NodePort v = sc_healthNodePort (scan_result mode port hp ?ports no_scan))"
    proof
      assume "mode = ''NodePortLocal''"
      with local obtain v where v: "filter (isLocalHealth mode hp) ?ports = [v]" "\<not> noNodePort v" by blast
      have "v \<in> set ?ports" "isLocalHealth mode hp v" by (rule filter_single [OF v(1)])+
      with v show "sc_healthMatches (scan_result mode port hp ?ports no_scan) = 1 \<and>
        1 \<le> sc_healthNodePort (scan_result mode port hp ?ports no_scan) \<and> sc_healthNodePort (scan_result mode port hp ?ports no_scan) \<le> 65535 \<and>
        (\<exists>v \<in> set ?ports. sp_Protocol v = ''TCP'' \<and> sp_Port v = hp \<and> sp_NodePort v = sc_healthNodePort (scan_result mode port hp ?ports no_scan))"
        by (auto simp: scan_result_def last_or_def no_scan_def noNodePort_def isLocalHealth_def)
    qed
    show "mode \<noteq> ''NodePortCluster'' \<longrightarrow> sc_healthFound (scan_result mode port hp ?ports no_scan)"
    proof
      assume m: "mode \<noteq> ''NodePortCluster''"
      show "sc_healthFound (scan_result mode port hp ?ports no_scan)"
      proof (cases "mode = ''NodePortLocal''")
        case True
        with local obtain v where "filter (isLocalHealth mode hp) ?ports = [v]" by blast
        then have "v \<in> set ?ports" "isLocalHealth mode hp v" by (rule filter_single)+
        then show ?thesis by (auto simp: scan_result_def list_ex_iff)
      next
        case False
        with m known have pod: "mode = ''PodIP''" by (simp add: knownMode_def)
        with h obtain v where v: "v \<in> set ?ports" "exposesTarget hp v" by (auto simp: healthError_def Let_def list_ex_iff split: if_splits)
        then have "isPodHealth mode hp v" using wf pod by (auto simp: exposesTarget_def isPodHealth_def service_wellformed_def split: if_splits)
        with v(1) show ?thesis by (auto simp: scan_result_def list_ex_iff)
      qed
    qed
  qed
qed

lemma checked_service_facts:
  assumes "checkRouteService mode port hp svc = Inr (svc', port', hp')"
  shows "\<not> om_Deleting (sv_Meta svc)" "fleetServiceOK mode svc" "\<not> sv_PublishNotReadyAddresses svc" "sv_Selector svc \<noteq> []"
    "svc' = svc" "port' = port" "hp' = hp"
  using assms by (auto simp: checkRouteService_def namedUdp_def find_Some_iff split: if_splits option.splits)

lemma routeService_Inr:
  assumes "run_state (routeService F route) s = (Inr (svc, port, hp), s')"
  obtains name w where "routeBackend route = Inr (name, port)" "annotatedHealth route = Inr hp"
    "gk_GetService (fl_Client F) (om_Namespace (ur_Meta route), name) (world s) = (Inr svc, w)"
    "checkRouteService (routeMode route) port hp svc = Inr (svc, port, hp)"
proof -
  obtain name q h where b: "routeBackend route = Inr (name, q)" "annotatedHealth route = Inr h"
    using assms by (auto simp: routeService_def split: sum.splits)
  obtain r w where g: "gk_GetService (fl_Client F) (om_Namespace (ur_Meta route), name) (world s) = (r, w)" by fastforce
  with assms b obtain v where r: "r = Inr v" and chk: "checkRouteService (routeMode route) q h v = Inr (svc, port, hp)"
    by (cases r) (auto simp: routeService_def tryM_def call_def)
  have "v = svc" "q = port" "h = hp" using checked_service_facts(5-7) [OF chk] by simp_all
  with b g r chk show thesis by (intro that [of name w]) simp_all
qed

text \<open>
  C16. A route whose Service the pool controller accepts is accepted down the line.  If the API server returns
  the Service asked for, in the form its own validation guarantees, then for every listener and Gateway the
  adapter turns the route into a binding for that listener's port, in the mode the route asks for
  (\<^verbatim>\<open>NodePortLocal\<close> is the engine's \<^verbatim>\<open>NodePort\<close>) and with the health port the pool controller checked (for
  \<^verbatim>\<open>NodePortLocal\<close> the node port of the Service's TCP port with that number); and the engine admits the binding with
  that Service, whose traffic policy is the one of the mode, and the named UDP port it looks for is the one the route names.
\<close>

theorem leased_route_admitted:
  assumes run: "run_state (routeService F route) s = (Inr (svc, port, hp), s')" and api: "services_served (fl_Client F)"
  shows "\<exists>spec u. desiredBinding route g l svc = Inr spec \<and> bs_RequestedPort spec = gl_Port l \<and> bs_Service spec = om_Name (sv_Meta svc) \<and>
    bs_Pool spec = PoolName (om_UID (gw_Meta g)) \<and> \<not> bs_Suspended spec \<and>
    bs_Mode spec = (if routeMode route = ''NodePortLocal'' then ''NodePort'' else routeMode route) \<and>
    (if routeMode route = ''NodePortLocal''
     then \<exists>v \<in> set (sv_Ports svc). sp_Protocol v = ''TCP'' \<and> sp_Port v = hp \<and> sp_NodePort v = bs_HealthPort spec
     else bs_HealthPort spec = hp) \<and>
    (bs_Mode spec = ''NodePort'' \<longrightarrow> sv_ExternalTrafficPolicy svc = ''Local'') \<and> (bs_Mode spec = ''NodePortCluster'' \<longrightarrow> sv_ExternalTrafficPolicy svc = ''Cluster'') \<and>
    validateBindingService (b\<lparr>tb_Spec := spec\<rparr>) svc False = None \<and>
    soleUdpPort (sv_Ports svc) (bs_PortName spec) None = Inr (Some u) \<and> sp_Port u = port"
proof -
  obtain name w where ref: "routeBackend route = Inr (name, port)" and hl: "annotatedHealth route = Inr hp"
    and got: "gk_GetService (fl_Client F) (om_Namespace (ur_Meta route), name) (world s) = (Inr svc, w)"
    and chk: "checkRouteService (routeMode route) port hp svc = Inr (svc, port, hp)"
    by (rule routeService_Inr [OF run])
  have wf: "service_wellformed svc" and key: "om_Namespace (sv_Meta svc) = om_Namespace (ur_Meta route)" "om_Name (sv_Meta svc) = name"
    using api got unfolding services_served_def key_of_def by (metis, metis prod.inject, metis prod.inject)
  note h = annotatedHealth_agrees [OF hl] and facts = checked_service_facts(1-4) [OF chk]
  obtain u sc where u: "u \<in> set (sv_Ports svc)" "sp_Protocol u = ''UDP''" "sp_Port u = port" "sp_Name u \<noteq> ''''"
    and sc: "scanPorts (routeMode route) port hp (sv_Ports svc) no_scan = Inr sc" "sc_matches sc = 1" "sc_selected sc = sp_Name u"
    "routeMode route \<noteq> ''NodePortCluster'' \<longrightarrow> sc_healthFound sc"
    "routeMode route = ''NodePortLocal'' \<longrightarrow> sc_healthMatches sc = 1 \<and> 1 \<le> sc_healthNodePort sc \<and> sc_healthNodePort sc \<le> 65535 \<and>
       (\<exists>v \<in> set (sv_Ports svc). sp_Protocol v = ''TCP'' \<and> sp_Port v = hp \<and> sp_NodePort v = sc_healthNodePort sc)"
    by (rule checked_service_scan [OF chk wf h(4)])
  have "1 \<le> port" "port \<le> 65535" using wf u(1,3) by (auto simp: service_wellformed_def)
  note ref' = routeBackend_agrees [OF ref this]
  have sole: "soleUdpPort (sv_Ports svc) (sp_Name u) None = Inr (Some u)"
    using wf u by (intro soleUdpPort_unique) (simp_all add: service_wellformed_def)
  let ?spec = "\<lparr>bs_Pool = PoolName (om_UID (gw_Meta g)), bs_Service = name, bs_PortName = sp_Name u,
      bs_Mode = (if routeMode route = ''NodePortLocal'' then ''NodePort'' else routeMode route),
      bs_HealthPort = (if routeMode route = ''NodePortLocal'' then sc_healthNodePort sc else hp),
      bs_RequestedPort = gl_Port l, bs_Suspended = False\<rparr>"
  have kind: "serviceTypeOK (routeMode route) svc" using facts(2) by (auto simp: fleetServiceOK_def serviceTypeOK_def)
  have uid: "om_UID (sv_Meta svc) \<noteq> ''''" using wf by (simp add: service_wellformed_def)
  have "desiredBinding route g l svc = Inr ?spec"
    using h(4) facts key uid kind sc u(4)
    by (auto simp: desiredBinding_def ref' h(1) same_annotations Let_def knownMode_def)
  moreover have "validateBindingService (b\<lparr>tb_Spec := ?spec\<rparr>) svc False = None"
    using h(2-5) facts sc(5) by (auto simp: validateBindingService_def Let_def knownMode_def fleetServiceOK_def)
  moreover have "(bs_Mode ?spec = ''NodePort'' \<longrightarrow> sv_ExternalTrafficPolicy svc = ''Local'') \<and> (bs_Mode ?spec = ''NodePortCluster'' \<longrightarrow> sv_ExternalTrafficPolicy svc = ''Cluster'')"
    using facts(2) h(4) by (auto simp: fleetServiceOK_def knownMode_def)
  ultimately show ?thesis using sole u(3) key(2) sc(5) by (intro exI [of _ ?spec] exI [of _ u]) simp
qed

text \<open>A Service with a game port and a health port, and a route to it.\<close>

definition game_service :: service where
  "game_service = \<lparr>sv_Meta = meta_named ''ns'' ''game'' ''game-uid'', sv_Type = ''ClusterIP'', sv_ExternalTrafficPolicy = '''',
     sv_PublishNotReadyAddresses = False, sv_Selector = [(''app'', ''game'')],
     sv_Ports = [\<lparr>sp_Name = ''udp'', sp_Protocol = ''UDP'', sp_Port = 5000, sp_TargetPort = \<lparr>is_Type = 0, is_IntVal = 5000, is_StrVal = ''''\<rparr>, sp_NodePort = 0\<rparr>,
       \<lparr>sp_Name = ''tcp'', sp_Protocol = ''TCP'', sp_Port = 8080, sp_TargetPort = \<lparr>is_Type = 0, is_IntVal = 8080, is_StrVal = ''''\<rparr>, sp_NodePort = 0\<rparr>]\<rparr>"

definition game_route :: udp_route where
  "game_route = (demo_route ''r1'')\<lparr>ur_Meta := (ur_Meta (demo_route ''r1''))\<lparr>om_Annotations := [(PoolAnnotation, ''fleet''), (HealthAnnotation, ''8080'')]\<rparr>,
     ur_Rules := [[\<lparr>br_Group = None, br_Kind = None, br_Namespace = None, br_Name = ''game'', br_Port = Some 5000, br_Weight = None\<rparr>]]\<rparr>"

definition game_controller :: "unit fleet" where
  "game_controller = (demo_controller new_fleet)\<lparr>fl_Client := empty_api\<lparr>gk_GetService :=
     (\<lambda>k w. if k = (''ns'', ''game'') then (Inr game_service, w) else (Inl (NotFound (snd k)), w))\<rparr>\<rparr>"

lemma parse_8080: "parse_int 32 ''8080'' = Some 8080"
  by (simp add: parse_int_def digits_val_def digit_val_def is_digit_def)

lemma game_route_mode: "routeMode game_route = ''PodIP''"
  by (simp add: routeMode_def game_route_def ModeAnnotation_def PoolAnnotation_def HealthAnnotation_def)

lemma game_route_health: "annotatedHealth game_route = Inr 8080"
  unfolding annotatedHealth_def game_route_mode Let_def
  by (simp add: game_route_def parse_8080 knownMode_def PoolAnnotation_def HealthAnnotation_def)

lemma game_service_checked: "checkRouteService ''PodIP'' 5000 8080 game_service = Inr (game_service, 5000, 8080)"
  by (simp add: checkRouteService_def fleetServiceOK_def healthError_def exposesLocal_def exposesTarget_def namedUdp_def usesNodePort_def
      game_service_def meta_named_def)

theorem leased_route_admitted_witness:
  "\<exists>spec. desiredBinding game_route (desiredGateway single_fleet (ga_GatewayName single_lease) ''inst'') (leaseListener single_lease) game_service = Inr spec \<and>
     bs_RequestedPort spec = 20000 \<and> bs_Mode spec = ''PodIP'' \<and> bs_HealthPort spec = 8080 \<and> validateBindingService ((demo_binding ''b'' ''game'' 20000)\<lparr>tb_Spec := spec\<rparr>) game_service False = None"
proof -
  have "routeBackend game_route = Inr (''game'', 5000)" "om_Namespace (ur_Meta game_route) = ''ns''"
    by (simp_all add: routeBackend_def game_route_def demo_route_def meta_named_def)
  then have "run_state (routeService game_controller game_route) idle = (Inr (game_service, 5000, 8080), idle)"
    by (simp add: routeService_def game_route_health game_route_mode game_controller_def tryM_def call_def game_service_checked)
  moreover have "services_served (fl_Client game_controller)"
    by (auto simp: services_served_def game_controller_def service_wellformed_def game_service_def meta_named_def key_of_def split: if_splits)
  moreover have "gl_Port (leaseListener single_lease) = 20000" by (simp add: single_lease_def newLease_def)
  ultimately show ?thesis
    using leased_route_admitted [of game_controller game_route idle game_service 5000 8080 idle
      "desiredGateway single_fleet (ga_GatewayName single_lease) ''inst''" "leaseListener single_lease" "demo_binding ''b'' ''game'' 20000"]
    by (simp only: game_route_mode) fastforce
qed

section \<open>The pool of a Gateway holds its listeners\<close>

lemma gatewayPoolSpec_ok:
  assumes "gatewayWorkers g = Inr (n, capacity)" "ad_Compartment A \<noteq> ''''" "ad_Subnet A \<noteq> ''''"
  shows "pool_spec_ok (gatewayPoolSpec A n capacity)"
proof -
  obtain w where w: "capacity = min 50 (1024 div w)" "1 \<le> w" "w \<le> 512"
    "n = (if annotation (gw_Meta g) MaxWorkersAnnotation = '''' then 0 else w)" and asked: "asked_workers g = Some w"
    using assms(1) unfolding gatewayWorkers_Inr by blast
  have limit: "workerLimit (gatewayPoolSpec A n capacity) = w"
    using w asked by (auto simp: workerLimit_def gatewayPoolSpec_def asked_workers_def)
  have "capacity * w \<le> 1024" using budget_iff [OF w(2), of capacity] w(1) by simp
  moreover have "1 \<le> 1024 div w" using budget_iff [OF w(2), of 1] w(3) by simp
  ultimately show ?thesis
    unfolding pool_spec_ok_def limit using w assms(2,3) by (auto simp: gatewayPoolSpec_def)
qed

text \<open>Leases on declared ports only, with one declared port free, leave room.\<close>

lemma room_for_listener:
  assumes ok: "pool_ok p" and explicit: "ps_AllocationMode (np_Spec p) = ''Explicit''"
    and ports: "al_Port ` snd ` set (pool_allocations p) \<subseteq> set qs - {q}" and q: "q \<in> set qs"
  shows "length (pool_allocations p) < length qs"
proof -
  let ?m = "pool_allocations p"
  have slots: "alloc_slot a = (0, al_Port a)" if "a \<in> snd ` set ?m" for a
    using ok explicit that by (force simp: pool_ok_def pool_slots_def alloc_slot_def)
  have "length ?m = card (alloc_slot ` snd ` set ?m)"
    using ok distinct_card [of "map (alloc_slot \<circ> snd) ?m"] by (simp add: pool_ok_def ledger_ok_def image_comp)
  also have "alloc_slot ` snd ` set ?m = Pair 0 ` al_Port ` snd ` set ?m"
    using slots by (force simp: image_comp)
  also have "card \<dots> \<le> card (Pair (0 :: int) ` (set qs - {q}))" by (intro card_mono image_mono ports) simp
  also have "\<dots> = card (set qs - {q})" by (intro card_image) (simp add: inj_on_def)
  also have "\<dots> < card (set qs)" using q by (intro psubset_card_mono) auto
  also have "\<dots> \<le> length qs" by (rule card_length)
  finally show ?thesis .
qed

text \<open>
  C18. The pool that the adapter makes for a valid Gateway can lease every declared listener.  Its specification
  satisfies the engine's validation, and as long as its leases are for other declared listeners, a request
  for the port of a declared listener, from a binding without a lease and for a Service port that is not
  leased, is granted by the engine's allocator at exactly that port.
\<close>

theorem declared_listener_leased:
  assumes valid: "validateGateway g = None" and workers: "gatewayWorkers g = Inr (n, capacity)"
    and cfg: "ad_Compartment A \<noteq> ''''" "ad_Subnet A \<noteq> ''''"
    and pool: "pool_ok p" "np_Spec p = gatewayPoolSpec A n capacity"
    and listener: "l \<in> set (gy_Listeners (gw_Spec g))"
    and leased: "al_Port ` snd ` set (pool_allocations p) \<subseteq> gl_Port ` set (gy_Listeners (gw_Spec g)) - {gl_Port l}"
    and b: "bs_RequestedPort (tb_Spec b) = gl_Port l" "\<not> bs_Suspended (tb_Spec b)" "binding_uid b \<noteq> ''''" "u \<noteq> ''''"
      "map_of (pool_allocations p) (binding_uid b) = None"
      "\<forall>c \<in> snd ` set (pool_allocations p). al_Tombstone c \<or> al_ServiceUID c \<noteq> u \<or> al_PortName c \<noteq> bs_PortName (tb_Spec b)"
  shows "ValidatePool (gatewayPoolSpec A n capacity) = None \<and> (\<exists>a p'. Allocate p b u = Inr (a, p') \<and> alloc_slot a = (0, gl_Port l))"
proof -
  let ?ls = "gy_Listeners (gw_Spec g)" and ?m = "pool_allocations p"
  note spec = gatewayPoolSpec_ok [OF workers cfg]
  have explicit: "ps_AllocationMode (np_Spec p) = ''Explicit''" and occ: "ps_Occupancy (np_Spec p) = capacity"
    by (simp_all add: pool(2) gatewayPoolSpec_def)
  have fits: "int (length ?ls) \<le> capacity"
    using valid workers by (auto simp: validateGateway_def Let_def split: if_splits)
  have "listener_profile l" using valid listener by (auto simp: validateGateway_profile gateway_profile_def Let_def list_all_iff)
  then have port: "requestedPortError p b = None" by (simp add: requestedPortError_def explicit b(1) listener_profile_def)
  have eq: "Allocate p b u = allocateSlot p b u (rev (map (alloc_slot \<circ> snd) ?m))"
    by (rule Allocate_unfold_fresh [OF _ b(2-4) port b(5,6)]) (simp add: pool(2) spec)
  have "length ?m < length (map gl_Port ?ls)"
    using leased listener by (intro room_for_listener [OF pool(1) explicit, of _ "gl_Port l"]) auto
  then have room: "\<not> ps_Occupancy (np_Spec p) \<le> int (length ?m)" using fits by (simp add: occ)
  have free: "(0, gl_Port l) \<notin> set (rev (map (alloc_slot \<circ> snd) ?m))"
    using leased by (auto simp: alloc_slot_def)
  have "Allocate p b u = Inr (newAllocation b u 0 (gl_Port l), put_allocation (binding_uid b) (newAllocation b u 0 (gl_Port l)) p)"
    unfolding eq allocateSlot_def Let_def using explicit free room by (simp add: b(1))
  then show ?thesis using pool_spec_ok_valid [OF spec] by simp
qed

text \<open>The generated Gateway of the pool with one lease, and the empty pool of the adapter.\<close>

definition demo_adapter :: "unit adapter" where
  "demo_adapter = \<lparr>ad_Client = empty_api, ad_Lib = list_lib, ad_Json = no_json, ad_Namespace = ''ns'', ad_GatewayClassName = ''nlb'',
     ad_ControllerName = ''ctl'', ad_Installation = ''inst'', ad_Compartment = ''comp'', ad_Subnet = ''subnet''\<rparr>"

theorem declared_listener_leased_witness:
  "\<exists>a p'. Allocate (newPool demo_adapter (desiredGateway single_fleet (ga_GatewayName single_lease) ''inst'') (gatewayPoolSpec demo_adapter 0 50))
     (demo_binding ''b'' ''s1'' 20000) ''svc'' = Inr (a, p') \<and> alloc_slot a = (0, 20000)"
proof -
  let ?g = "desiredGateway single_fleet (ga_GatewayName single_lease) ''inst''"
  have ls: "gy_Listeners (gw_Spec ?g) = [leaseListener single_lease]" and w: "gatewayWorkers ?g = Inr (0, 50)"
    by (simp_all add: desiredListeners_def single_fleet_def demo_fleet_defs single_lease_def map_values_def gatewayWorkers_def
        desiredGateway_def MaxWorkersAnnotation_def)
  have port: "gl_Port (leaseListener single_lease) = 20000" by (simp add: single_lease_def newLease_def)
  have "listener_profile (leaseListener single_lease)"
    by (rule leaseListener_profile) (simp_all add: single_lease_def newLease_def)
  then have "validateListeners [leaseListener single_lease] [] [] = None" by (simp only: validateListeners_None) simp
  then have v: "validateGateway ?g = None"
    unfolding validateGateway_def w Let_def ls by (simp add: desiredGateway_spec del: validateListeners.simps)
  have cfg: "ad_Compartment demo_adapter \<noteq> ''''" "ad_Subnet demo_adapter \<noteq> ''''" by (simp_all add: demo_adapter_def)
  let ?p = "newPool demo_adapter ?g (gatewayPoolSpec demo_adapter 0 50)"
  have p: "np_Spec ?p = gatewayPoolSpec demo_adapter 0 50" "pool_allocations ?p = []" by (simp_all add: newPool_def empty_status_def)
  have "pool_ok ?p" by (rule pool_ok_empty) (simp_all add: p gatewayPoolSpec_ok [OF w cfg])
  then show ?thesis
    using declared_listener_leased [OF v w cfg, of ?p "leaseListener single_lease" "demo_binding ''b'' ''s1'' 20000" "''svc''"]
    unfolding ls port by (simp add: p demo_binding_def meta_named_def)
qed

end
