(* ===== verification/Gateway_Adapter_Properties.thy ===== *)
theory Gateway_Adapter_Properties
  imports Gateway_Adapter_Steps Gateway_Compose
begin

text \<open>
  The contract of a reconciliation of the Gateway adapter: what it may write, when it lets a Gateway go, and
  that it writes nothing on a partial view.
\<close>

section \<open>A concrete adapter\<close>

text \<open>A Gateway under deletion whose pool is gone and archived.\<close>

definition dying_gateway :: gateway where
  "dying_gateway =
     \<lparr>gw_Meta = (meta_named ''ns'' ''gw'' ''gw-uid'')\<lparr>om_Deleting := True, om_Finalizers := [GatewayFinalizer],
        om_Annotations := [(poolUIDAnnotation, ''pool-uid'')]\<rparr>,
      gw_Spec = \<lparr>gy_GatewayClassName = ''nlb'', gy_Listeners = [], gy_Addresses = [], gy_Infrastructure = None, gy_AllowedListeners = None,
        gy_TLS = None, gy_DefaultScope = ''''\<rparr>,
      gw_Status = \<lparr>gu_Addresses = [], gu_Listeners = [], gu_Conditions = []\<rparr>\<rparr>"

definition old_pool :: nlb_pool where
  "old_pool = \<lparr>np_Meta = (meta_named ''ns'' ''pool'' ''pool-uid'')\<lparr>om_Labels := [(GatewayUIDLabel, ''gw-uid''), (InstallationLabel, ''inst'')],
       om_OwnerReferences := [gatewayOwner dying_gateway]\<rparr>, np_Spec = demo_spec,
     np_Status = empty_status\<lparr>st_Allocations := [(''b'', demo_lease ''b'' ''s'' 0 20000 True)]\<rparr>\<rparr>"

definition dying_adapter :: "unit adapter" where
  "dying_adapter = demo_adapter\<lparr>ad_Json := no_json\<lparr>unmarshalPool := (\<lambda>s. Inr old_pool)\<rparr>,
     ad_Client := empty_api\<lparr>gk_GetGateway := (\<lambda>k w. (Inr dying_gateway, w)),
       gk_GetConfigMap := (\<lambda>k w. (Inr (newArchive demo_adapter dying_gateway ''pool''), w))\<rparr>\<rparr>"

lemmas adapter_eval = dying_adapter_def dying_gateway_def demo_adapter_def empty_api_def no_json_def idle_def list_lib_def meta_named_def
  adapterReconcile_def readObjects_def tryM_def call_def cleanupRoutes_def reconcileGateway_def retireGateway_def retireAbsent_def
  releaseGateway_def submit_def issue_def emit_def modify_def gets_def is_not_found_def later_def unfinalize_def Let_def

text \<open>A route that another controller serves as well.\<close>

definition other_status :: parent_status where
  "other_status = \<lparr>rp_ParentRef = \<lparr>pr_Group = None, pr_Kind = None, pr_Namespace = None, pr_Name = ''gw'', pr_SectionName = None, pr_Port = None\<rparr>,
     rp_ControllerName = ''other'', rp_Conditions = []\<rparr>"

definition shared_route :: udp_route where
  "shared_route = (demo_route ''r1'')\<lparr>ur_ParentRefs := [rp_ParentRef other_status], ur_Parents := [other_status]\<rparr>"

definition shared_adapter :: "unit adapter" where
  "shared_adapter = dying_adapter\<lparr>ad_Client := (ad_Client dying_adapter)\<lparr>gk_ListRoutes := (\<lambda>ns w. (Inr [shared_route], w))\<rparr>\<rparr>"

section \<open>Every write\<close>

text \<open>
  C14. The adapter touches only what is its own, and only objects it has read.  Whatever the services answer, every
  write of a reconciliation is one of these.  It creates, for a listed route with the adapter's finalizer that
  its Gateway resolves to a listener, the binding that the policy describes with a listed Service, if no
  binding of that name was found and the pool the server returned has no lease of that listener's port for
  another route.  It patches a binding that it read, that is not being deleted and that passes the exact
  ownership check, only to suspend it or to the described specification of the same target.  It deletes a listed binding
  that passes that check, whose route is not attached or whose Gateway is being deleted, and a pool of a
  deleted Gateway that has no pending work, only retired leases and an archive.  It changes nothing but the
  archive finalizer of a pool it owns and has read, nothing but the finalizer of the Gateway and of a listed
  route, nothing but the pool annotation of a Gateway that has none, and of the class only the status.  And the
  status it writes for a listed route keeps, in order, every entry of other controllers and other Gateways.
\<close>

theorem adapter_writes_owned:
  assumes "run_state (adapterReconcile A req) s = (ans, s')"
  shows "\<exists>ws. writes s' = writes s @ ws \<and> list_all (adapter_safe A req) ws"
  using emits_run [OF safe_adapterReconcile [unfolded emits_all_def] assms] .

theorem adapter_writes_owned_witness:
  "\<exists>ans s' r. run_state (adapterReconcile shared_adapter (''ns'', ''gw'')) idle = (ans, s') \<and> PatchRouteStatus r \<in> set (writes s') \<and>
     other_status \<in> set (ur_Parents r) \<and> ur_Parents r \<noteq> [other_status]"
proof -
  obtain ans s' where run: "run_state (adapterReconcile shared_adapter (''ns'', ''gw'')) idle = (ans, s')" by fastforce
  have "\<exists>r. PatchRouteStatus r \<in> set (writes s') \<and> ur_Parents r \<noteq> [other_status]"
    using run by (auto simp: adapter_eval shared_adapter_def shared_route_def demo_route_def other_status_def targets_def parentMatches_def
        routeStatus_def RouteFinalizer_def GatewayFinalizer_def split: option.splits sum.splits)
  then obtain r where r: "PatchRouteStatus r \<in> set (writes s')" "ur_Parents r \<noteq> [other_status]" by blast
  have "writes idle = []" by (simp add: idle_def)
  with adapter_writes_owned [OF run] r(1) have "adapter_safe shared_adapter (''ns'', ''gw'') (PatchRouteStatus r)" by (auto simp: list_all_iff)
  then obtain g route where "route_listed shared_adapter route" "foreign_parents shared_adapter g r = foreign_parents shared_adapter g route"
    unfolding adapter_safe.simps by blast
  moreover have "route = shared_route" using calculation(1) by (simp add: route_listed_def answers_def shared_adapter_def)
  moreover have "other_status \<in> set (foreign_parents shared_adapter g shared_route)"
    by (simp add: foreign_parents_def shared_route_def other_status_def shared_adapter_def dying_adapter_def demo_adapter_def)
  moreover have "set (foreign_parents shared_adapter g r) \<subseteq> set (ur_Parents r)" by (auto simp: foreign_parents_def)
  ultimately have "other_status \<in> set (ur_Parents r)" by auto
  with run r show ?thesis by blast
qed

section \<open>Letting a Gateway go\<close>

text \<open>
  C15. The adapter gives up a Gateway only when nothing of it is left but its archive.  If a reconciliation writes a
  Gateway without the adapter's finalizer, then the Gateway is being deleted, the listing of bindings had
  none that refers to it, its pool was reported absent, and, if a pool was ever recorded on it, an
  immutable config map without owner was read back whose pool is the recorded one, belongs to this
  Gateway, has no pending work and only retired leases.
\<close>

theorem gateway_released_after_archive:
  assumes run: "run_state (adapterReconcile A req) s = (ans, s')" and laws: "finalizer_laws (ad_Lib A)"
  shows "\<exists>ws. writes s' = writes s @ ws \<and>
    (\<forall>g'. UpdateGateway g' \<in> set ws \<longrightarrow> \<not> finalized A GatewayFinalizer (gw_Meta g') \<longrightarrow>
       (\<exists>g. g' = g\<lparr>gw_Meta := unfinalize A GatewayFinalizer (gw_Meta g)\<rparr> \<and> om_Deleting (gw_Meta g) \<and>
          (\<exists>bs. answers (gk_ListBindings (ad_Client A) (ad_Namespace A)) (Inr bs) \<and>
             (\<forall>b \<in> set bs. bs_Pool (tb_Spec b) \<noteq> PoolName (om_UID (gw_Meta g)) \<and> label (tb_Meta b) GatewayUIDLabel \<noteq> om_UID (gw_Meta g))) \<and>
          (\<exists>e. is_not_found e \<and> answers (gk_GetPool (ad_Client A) (om_Namespace (gw_Meta g), PoolName (om_UID (gw_Meta g)))) (Inl e)) \<and>
          (annotation (gw_Meta g) poolUIDAnnotation \<noteq> '''' \<longrightarrow>
             (\<exists>c p. answers (gk_GetConfigMap (ad_Client A) (archiveKey g)) (Inr c) \<and> archiveSealed A g c \<and> archivedPool A c = Inr p \<and>
                om_UID (np_Meta p) = annotation (gw_Meta g) poolUIDAnnotation \<and> ownsObject A (np_Meta p) (om_UID (gw_Meta g)) \<and>
                st_PendingWork (np_Status p) = '''' \<and> (\<forall>a \<in> set (map_values (pool_allocations p)). al_Tombstone a)))))"
proof -
  obtain ws where ws: "writes s' = writes s @ ws" and safe: "list_all (adapter_safe A req) ws"
    using emits_run [OF safe_adapterReconcile [unfolded emits_all_def] run] by blast
  have "\<exists>g. g' = g\<lparr>gw_Meta := unfinalize A GatewayFinalizer (gw_Meta g)\<rparr> \<and> releasable A g"
    if "UpdateGateway g' \<in> set ws" "\<not> finalized A GatewayFinalizer (gw_Meta g')" for g'
  proof -
    have "adapter_safe A req (UpdateGateway g')" using safe that(1) unfolding list_all_iff by (rule bspec)
    moreover have "finalized A GatewayFinalizer (finalize A GatewayFinalizer m)" for m
      using laws by (simp add: finalizer_laws_def finalize_def)
    ultimately show ?thesis using that(2) unfolding adapter_safe.simps by auto
  qed
  then show ?thesis
    using ws unfolding releasable_def pool_absent_def retired_archive_def references_gateway_def de_Morgan_disj by (intro exI [of _ ws]) blast
qed

theorem gateway_released_after_archive_witness:
  "\<exists>ans s' g'. run_state (adapterReconcile dying_adapter (''ns'', ''gw'')) idle = (ans, s') \<and> writes s' = [UpdateGateway g'] \<and>
     om_Finalizers (gw_Meta g') = [] \<and>
     (\<exists>g. g' = g\<lparr>gw_Meta := unfinalize dying_adapter GatewayFinalizer (gw_Meta g)\<rparr> \<and> om_Deleting (gw_Meta g))"
proof -
  obtain ans s' where run: "run_state (adapterReconcile dying_adapter (''ns'', ''gw'')) idle = (ans, s')" by fastforce
  have proved: "retirementProved dying_adapter dying_gateway (newArchive demo_adapter dying_gateway ''pool'') = None"
    by (simp add: retirementProved_def archivedPool_def archiveSealed_def ownsObject_def newArchive_def adapterLabels_def old_pool_def
        gatewayOwner_def dying_adapter_def demo_adapter_def no_json_def dying_gateway_def meta_named_def map_values_def empty_status_def
        demo_lease_def GatewayUIDLabel_def InstallationLabel_def GatewayGroupVersion_def)
  have "\<exists>g'. writes s' = [UpdateGateway g'] \<and> om_Finalizers (gw_Meta g') = []"
    using run proved by (auto simp: adapter_eval)
  then obtain g' where g': "writes s' = [UpdateGateway g']" "om_Finalizers (gw_Meta g') = []" by blast
  have lib: "ad_Lib dying_adapter = list_lib" "writes idle = []" by (simp_all add: dying_adapter_def demo_adapter_def idle_def)
  have "\<not> containsFinalizer list_lib (om_Finalizers (gw_Meta g')) GatewayFinalizer" using g'(2) by (simp add: list_lib_def)
  with gateway_released_after_archive [OF run, unfolded lib, OF finalizer_laws_list_lib] g'
  have "\<exists>g. g' = g\<lparr>gw_Meta := unfinalize dying_adapter GatewayFinalizer (gw_Meta g)\<rparr> \<and> om_Deleting (gw_Meta g)" by auto
  with run g' show ?thesis by blast
qed

section \<open>Errors\<close>

text \<open>The first failure among the context and the three listings, in the order of the calls.\<close>

definition view_failure :: "'w adapter \<Rightarrow> 'w \<Rightarrow> go_error option" where
  "view_failure A w =
     (case gk_CtxErr (ad_Client A) w of Some e \<Rightarrow> Some e | None \<Rightarrow>
       (case gk_ListRoutes (ad_Client A) (ad_Namespace A) w of (Inl e, _) \<Rightarrow> Some e | (Inr _, w1) \<Rightarrow>
         (case gk_ListBindings (ad_Client A) (ad_Namespace A) w1 of (Inl e, _) \<Rightarrow> Some e | (Inr _, w2) \<Rightarrow>
           (case gk_ListPools (ad_Client A) (ad_Namespace A) w2 of (Inl e, _) \<Rightarrow> Some e | (Inr _, _) \<Rightarrow> None))))"

text \<open>
  C23. On a partial view of routes, bindings or pools the adapter does nothing.  If the context is cancelled or one of
  the listings of routes, bindings and pools fails, which come first, the reconciliation writes nothing at all,
  returns exactly that error, and asks to be run again: in particular no binding is deleted because a route is
  missing from a listing that failed.  (The listing of Services comes later, after writes to the class, the pool
  and the Gateway; it is not part of this claim.)
\<close>

theorem adapter_partial_view:
  assumes "fst req = ad_Namespace A" "view_failure A (world s) = Some e"
    and "run_state (adapterReconcile A req) s = (ans, s')"
  shows "ans = (RequeueLater, Some e) \<and> writes s' = writes s"
  using assms
  by (auto simp: view_failure_def adapterReconcile_def readObjects_def tryM_def call_def gets_def later_def split: option.splits prod.splits sum.splits)

definition blind_adapter :: "unit adapter" where
  "blind_adapter = demo_adapter\<lparr>ad_Client := empty_api\<lparr>gk_ListRoutes := (\<lambda>ns w. (Inr [demo_route ''r1''], w)),
     gk_ListBindings := (\<lambda>ns w. (Inl (ApiError ''timeout''), w))\<rparr>\<rparr>"

theorem adapter_partial_view_witness:
  "\<exists>s'. run_state (adapterReconcile blind_adapter (''ns'', ''gw'')) idle = ((RequeueLater, Some (ApiError ''timeout'')), s') \<and> writes s' = []"
proof -
  obtain ans s' where run: "run_state (adapterReconcile blind_adapter (''ns'', ''gw'')) idle = (ans, s')" by fastforce
  have "fst (''ns'', ''gw'') = ad_Namespace blind_adapter" "view_failure blind_adapter (world idle) = Some (ApiError ''timeout'')"
    by (simp_all add: view_failure_def blind_adapter_def demo_adapter_def empty_api_def)
  from adapter_partial_view [OF this run] run show ?thesis by (simp add: idle_def)
qed

end
