(* ===== verification/Generated_Names.thy ===== *)
theory Generated_Names
  imports Cloud Gateway_Adapter Gateway_Pool
begin

text \<open>
  The names the controllers make up: a fixed prefix, the hash of a UID in hexadecimal, sometimes a number.
  They are names of objects, listeners and backends, so Kubernetes and OCI must accept them.
\<close>

text \<open>What Kubernetes accepts as a label of a name (RFC 1123): at most 63 lower case letters, digits and hyphens, alphanumeric at both ends.\<close>

definition label_char :: "char \<Rightarrow> bool" where
  "label_char c \<longleftrightarrow> (let n = of_char c :: nat in 48 \<le> n \<and> n \<le> 57 \<or> 97 \<le> n \<and> n \<le> 122)"

definition dns_label :: "string \<Rightarrow> bool" where
  "dns_label s \<longleftrightarrow> s \<noteq> [] \<and> length s \<le> 63 \<and> list_all (\<lambda>c. label_char c \<or> c = CHR ''-'') s \<and> label_char (hd s) \<and> label_char (last s)"

lemma label_char_hex: "d < 16 \<Longrightarrow> label_char (hex_digit d)"
  by (simp add: label_char_def hex_digit_def)

lemma sha_hex12_label: "list_all label_char (sha_hex12 s)"
proof -
  have "b < 256" if "b \<in> set (sha256 s)" for b
    using that by (auto simp: sha256_def bytes_of_word_def)
  then have "b div 16 < 16" if "b \<in> set (take 12 (sha256 s))" for b
    using in_set_takeD [OF that] by (simp add: less_mult_imp_div_less)
  then have "list_all label_char (hex_byte b)" if "b \<in> set (take 12 (sha256 s))" for b
    using that by (simp add: hex_byte_def label_char_hex)
  then show ?thesis by (auto simp: sha_hex12_def list_all_iff)
qed

lemma nat_digits_label: "list_all label_char (nat_digits n)"
  using nat_digits_all [of n] by (auto simp: list_all_iff is_digit_def label_char_def Let_def)

lemma nat_digits_length: "n < 10 ^ Suc k \<Longrightarrow> length (nat_digits n) \<le> Suc k"
proof (induction k arbitrary: n)
  case 0
  then show ?case by (simp add: nat_digits.simps [of n])
next
  case (Suc k)
  then have "n div 10 < 10 ^ Suc k" by auto
  from Suc.IH [OF this] show ?case by (simp add: nat_digits.simps [of n])
qed

text \<open>A prefix, a hash, and perhaps a suffix.\<close>

lemma dns_label_hash:
  assumes "label_char (hd pre)" "pre \<noteq> []" "list_all (\<lambda>c. label_char c \<or> c = CHR ''-'') pre" "length pre + length post \<le> 39"
    and "list_all (\<lambda>c. label_char c \<or> c = CHR ''-'') post" "post = [] \<or> label_char (last post)"
  shows "dns_label (pre @ sha_hex12 s @ post)"
proof -
  have "label_char (last (sha_hex12 s))" "list_all (\<lambda>c. label_char c \<or> c = CHR ''-'') (sha_hex12 s)"
    using sha_hex12_label [of s] by (auto simp: list_all_iff)
  with assms show ?thesis by (auto simp: dns_label_def length_sha_hex12 hd_append last_append)
qed

lemma itoa_label:
  assumes "is_int64 i"
  shows "list_all (\<lambda>c. label_char c \<or> c = CHR ''-'') (itoa i)" "label_char (last (itoa i))" "length (itoa i) \<le> 20" "itoa i \<noteq> []"
proof -
  have digits: "list_all label_char (nat_digits n)" "label_char (last (nat_digits n))" for n
    using nat_digits_label [of n] by (auto simp: list_all_iff)
  have "length (nat_digits n) \<le> 19" if "n < 10 ^ 19" for n using nat_digits_length [of n 18] that by simp
  moreover have "nat (- i) < 10 ^ 19" "nat i < 10 ^ 19" using assms by (auto simp: is_int64_def nat_less_iff)
  ultimately have "length (nat_digits (nat (- i))) \<le> 19" "length (nat_digits (nat i)) \<le> 19" by blast+
  then show "length (itoa i) \<le> 20" by (simp add: itoa_def)
  show "list_all (\<lambda>c. label_char c \<or> c = CHR ''-'') (itoa i)" using digits(1) by (auto simp: itoa_def list_all_iff)
  show "label_char (last (itoa i))" "itoa i \<noteq> []" using digits(2) by (simp_all add: itoa_def)
qed

text \<open>
  C40. The names of the generated objects are names Kubernetes and OCI accept.  The names made from a hash, that is of the
  pools and bindings of the adapter, the Gateways, listeners and the archive of the pool controller, the
  objects of a lease and its backends, are labels of at most 63 lower case letters, digits and hyphens,
  whatever the UIDs they are made from.  The archive of the adapter, whose name contains the Gateway's UID as it is, has
  such a name if the UID is itself a label of at most 55 characters, as the UIDs of Kubernetes are.
\<close>

theorem generated_names_valid:
  assumes "is_int64 shard"
  shows "dns_label (PoolName uid) \<and> dns_label (BindingName uid route) \<and>
    dns_label (gatewayName uid shard) \<and> dns_label (listenerName route) \<and> dns_label (om_Name (cm_Meta (fleetArchive F p content))) \<and>
    dns_label (leaseName uid) \<and> dns_label (backendName (leaseName uid) b) \<and>
    (dns_label (om_UID (gw_Meta g)) \<longrightarrow> length (om_UID (gw_Meta g)) \<le> 55 \<longrightarrow> dns_label (om_Name (cm_Meta (newArchive A g raw))))"
proof -
  have plain: "dns_label (pre @ sha_hex12 s)"
    if "label_char (hd pre)" "pre \<noteq> []" "list_all (\<lambda>c. label_char c \<or> c = CHR ''-'') pre" "length pre \<le> 39" for pre s
    using dns_label_hash [of pre "[]" s] that by simp
  have "dns_label (''t-'' @ sha_hex12 uid @ ''-'' @ sha_hex12 s)" for s
    using plain [of "''t-'' @ sha_hex12 uid @ ''-''" s] sha_hex12_label [of uid]
    by (auto simp: length_sha_hex12 list_all_iff label_char_def)
  moreover have "dns_label (gatewayName uid shard)"
    unfolding gatewayName_def using itoa_label [OF assms] by (intro dns_label_hash) (simp_all add: label_char_def)
  moreover have "dns_label (om_UID (gw_Meta g)) \<longrightarrow> length (om_UID (gw_Meta g)) \<le> 55 \<longrightarrow> dns_label (om_Name (cm_Meta (newArchive A g raw)))"
    by (auto simp: newArchive_def archiveKey_def dns_label_def label_char_def)
  ultimately show ?thesis
    by (simp only: PoolName_def BindingName_def listenerName_def fleetArchive_def leaseName_def backendName_def append_assoc
        config_map.simps object_meta.simps) (intro conjI plain; simp add: label_char_def)
qed

definition plain_gateway :: gateway where
  "plain_gateway = \<lparr>gw_Meta = meta_named ''ns'' ''gw'' ''7f3a-11'',
     gw_Spec = \<lparr>gy_GatewayClassName = ''nlb'', gy_Listeners = [], gy_Addresses = [], gy_Infrastructure = None, gy_AllowedListeners = None,
       gy_TLS = None, gy_DefaultScope = ''''\<rparr>,
     gw_Status = \<lparr>gu_Addresses = [], gu_Listeners = [], gu_Conditions = []\<rparr>\<rparr>"

theorem generated_names_valid_witness:
  "is_int64 9223372036854775807 \<and> dns_label (gatewayName ''7f3a'' 9223372036854775807) \<and> dns_label (listenerName ''not a UID'') \<and>
   (\<forall>(A :: unit adapter) raw. dns_label (om_Name (cm_Meta (newArchive A plain_gateway raw))))"
proof -
  have n: "is_int64 9223372036854775807" by (simp add: is_int64_def)
  have uid: "dns_label (om_UID (gw_Meta plain_gateway))" "length (om_UID (gw_Meta plain_gateway)) \<le> 55"
    by (simp_all add: plain_gateway_def meta_named_def dns_label_def label_char_def)
  from n generated_names_valid [OF n, of "''7f3a''" "''not a UID''" _ _ _ _ plain_gateway] uid show ?thesis by blast
qed

end
