(* ===== verification/Process.thy ===== *)
theory Process
  imports Engine_Properties Gateway_Compose
begin

text \<open>
  \<^verbatim>\<open>cmd/controller/main.go\<close> and the \<^verbatim>\<open>Setup\<close> methods: how one process is put together from its flags, and
  which requests an observed change puts on the queue of each controller.

  What the libraries answer (authentication providers, clients, the manager, the registration of a
  controller) is the parameter \<open>process_env\<close>; a running process is the three reconcilers it serves.
\<close>

section \<open>Definitions\<close>

text \<open>\<^verbatim>\<open>attempt e k\<close>: \<^verbatim>\<open>if err != nil { return err }\<close> and the rest.\<close>

definition attempt :: "go_error option \<Rightarrow> go_error + 'a \<Rightarrow> go_error + 'a" where
  "attempt e k = (case e of Some x \<Rightarrow> Inl x | None \<Rightarrow> k)"

subsection \<open>Flags\<close>

record flags =
  fg_EnableGatewayAPI :: bool
  fg_GatewayClass :: string
  fg_CheckNLB :: string
  fg_Namespace :: string
  fg_Region :: string
  fg_Compartment :: string
  fg_Subnet :: string
  fg_Installation :: string
  fg_Auth :: string

definition default_flags :: flags where
  "default_flags = \<lparr>fg_EnableGatewayAPI = False, fg_GatewayClass = ''oci-native-udp'', fg_CheckNLB = '''',
     fg_Namespace = ''shared-nlb'', fg_Region = ''us-ashburn-1'', fg_Compartment = '''', fg_Subnet = '''',
     fg_Installation = '''', fg_Auth = ''workload''\<rparr>"

definition checkFlags :: "flags \<Rightarrow> go_error option" where
  "checkFlags F =
     (if fg_Compartment F = '''' \<or> fg_Subnet F = '''' \<or> fg_Installation F = ''''
      then Some (Errorf ''compartment, subnet and installation-id are required'') else None)"

subsection \<open>The libraries\<close>

record 'w process_env =
  pe_WorkloadProvider :: "go_error option"
  pe_InstanceProvider :: "go_error option"
  pe_OciClient :: "string \<Rightarrow> go_error + 'w oci_client"
  pe_NetClient :: "go_error option"
  pe_ReadNLB :: "string \<Rightarrow> go_error option"
  pe_Install :: "go_error option"
  pe_NewManager :: "go_error option"
  pe_Complete :: "string \<Rightarrow> go_error option"
  pe_Probe :: "string \<Rightarrow> go_error option"
  pe_Kube :: "'w kube_client"
  pe_Gateway :: "'w gw_client"
  pe_Lib :: kube_lib
  pe_Json :: json_lib
  pe_ServiceError :: "go_error \<Rightarrow> (int \<times> string \<times> string) option"
  pe_CtxErr :: "'w \<Rightarrow> go_error option"
  pe_PageFuel :: nat
  pe_Range :: "string list \<Rightarrow> string list"

record 'w process =
  pr_Engine :: "'w engine"
  pr_Gateway :: "('w adapter \<times> 'w fleet) option"

definition provider :: "'w process_env \<Rightarrow> string \<Rightarrow> go_error option" where
  "provider V authentication =
     (if authentication = ''workload'' then pe_WorkloadProvider V
      else if authentication = ''instance'' then pe_InstanceProvider V
      else if authentication = ''config'' then None
      else Some (Errorf ''unsupported authentication mode''))"

subsection \<open>The three reconcilers\<close>

definition engineOf :: "'w process_env \<Rightarrow> flags \<Rightarrow> 'w oci_client \<Rightarrow> 'w engine" where
  "engineOf V F c =
     \<lparr>en_Cloud = \<lparr>cd_Client = c, cd_Installation = fg_Installation F, cd_CtxErr = pe_CtxErr V, cd_PageFuel = pe_PageFuel V\<rparr>,
      en_Kube = pe_Kube V, en_Lib = pe_Lib V, en_ServiceError = pe_ServiceError V, en_Namespace = fg_Namespace F,
      en_Compartment = fg_Compartment F, en_Subnet = fg_Subnet F\<rparr>"

definition adapterOf :: "'w process_env \<Rightarrow> flags \<Rightarrow> 'w adapter" where
  "adapterOf V F =
     \<lparr>ad_Client = pe_Gateway V, ad_Lib = pe_Lib V, ad_Json = pe_Json V, ad_Namespace = fg_Namespace F,
      ad_GatewayClassName = fg_GatewayClass F, ad_ControllerName = ''nlb.independent.dev/native-udp'',
      ad_Installation = fg_Installation F, ad_Compartment = fg_Compartment F, ad_Subnet = fg_Subnet F\<rparr>"

definition fleetOf :: "'w process_env \<Rightarrow> flags \<Rightarrow> 'w fleet" where
  "fleetOf V F =
     \<lparr>fl_Client = pe_Gateway V, fl_Lib = pe_Lib V, fl_Json = pe_Json V, fl_Namespace = fg_Namespace F,
      fl_Installation = fg_Installation F, fl_ClassName = fg_GatewayClass F, fl_Range = pe_Range V\<rparr>"

text \<open>The configuration check at the head of the adapter's \<^verbatim>\<open>Setup\<close>.\<close>

definition adapterConfigured :: "'w adapter \<Rightarrow> go_error option" where
  "adapterConfigured A =
     (if ad_Namespace A = '''' \<or> ad_GatewayClassName A = '''' \<or> ad_ControllerName A = '''' \<or> ad_Installation A = '''' \<or>
         ad_Compartment A = '''' \<or> ad_Subnet A = ''''
      then Some (Errorf ''Gateway adapter configuration is incomplete'') else None)"

text \<open>From the manager on: \<^verbatim>\<open>Setup\<close> of the engine, of the two Gateway controllers if enabled, the probes.\<close>

definition setupGateway :: "'w process_env \<Rightarrow> flags \<Rightarrow> go_error + ('w adapter \<times> 'w fleet) option" where
  "setupGateway V F =
     (if fg_EnableGatewayAPI F then
        attempt (adapterConfigured (adapterOf V F))
       (attempt (pe_Complete V ''native-udp-gateway'')
       (attempt (pe_Complete V ''gatewaypool'')
         (Inr (Some (adapterOf V F, fleetOf V F)))))
      else Inr None)"

definition serve :: "'w process_env \<Rightarrow> flags \<Rightarrow> 'w oci_client \<Rightarrow> go_error + 'w process" where
  "serve V F c =
     attempt (pe_NewManager V)
    (attempt (pe_Complete V ''nlbpool'')
      (case setupGateway V F of Inl e \<Rightarrow> Inl e | Inr g \<Rightarrow>
        attempt (pe_Probe V ''healthz'')
       (attempt (pe_Probe V ''readyz'')
         (Inr \<lparr>pr_Engine = engineOf V F c, pr_Gateway = g\<rparr>))))"

text \<open>The scheme: \<^verbatim>\<open>AddToScheme\<close> and \<^verbatim>\<open>AddGatewayPoolToScheme\<close> do not fail.\<close>

definition checkScheme :: "'w process_env \<Rightarrow> flags \<Rightarrow> go_error option" where
  "checkScheme V F =
     (if \<not> fg_EnableGatewayAPI F then None
      else if fg_GatewayClass F = '''' then Some (Errorf ''gateway-class is required when Gateway API is enabled'')
      else pe_Install V)"

text \<open>
  \<^verbatim>\<open>run\<close> up to \<^verbatim>\<open>manager.Start\<close>: an error, nothing (the read-only diagnosis ended well), or the process
  that starts.
\<close>

definition startProcess :: "'w process_env \<Rightarrow> flags \<Rightarrow> go_error + 'w process option" where
  "startProcess V F =
     attempt (checkFlags F)
    (attempt (provider V (fg_Auth F))
      (case pe_OciClient V (fg_Region F) of Inl e \<Rightarrow> Inl e | Inr c \<Rightarrow>
        (if fg_CheckNLB F \<noteq> '''' then attempt (pe_NetClient V) (attempt (pe_ReadNLB V (fg_CheckNLB F)) (Inr None))
         else attempt (checkScheme V F)
           (case serve V F c of Inl e \<Rightarrow> Inl e | Inr p \<Rightarrow> Inr (Some p)))))"

subsection \<open>Requests for a change\<close>

text \<open>
  The closures \<^verbatim>\<open>enqueue\<close> of the three \<^verbatim>\<open>Setup\<close> methods, as functions of the listing they take: every pool
  of the namespace is looked at again, whatever object changed.  The adapter adds one request under a name
  no Gateway needs to have, so that its cleanup runs when no Gateway is left.
\<close>

definition enqueuePools :: "go_error + nlb_pool list \<Rightarrow> object_key list" where
  "enqueuePools found = (case found of Inl e \<Rightarrow> [] | Inr items \<Rightarrow> map (\<lambda>p. key_of (np_Meta p)) items)"

definition enqueueGateways :: "'w adapter \<Rightarrow> string \<Rightarrow> go_error + gateway list \<Rightarrow> object_key list" where
  "enqueueGateways A changedNamespace found =
     (if changedNamespace \<noteq> ad_Namespace A then []
      else (case found of
              Inl e \<Rightarrow> []
            | Inr items \<Rightarrow> (ad_Namespace A, ''gateway-cleanup-sweep'') # map (\<lambda>g. key_of (gw_Meta g)) items))"

definition enqueueFleets :: "go_error + gateway_pool list \<Rightarrow> object_key list" where
  "enqueueFleets found = (case found of Inl e \<Rightarrow> [] | Inr items \<Rightarrow> map (\<lambda>p. key_of (gp_Meta p)) items)"

section \<open>A process that starts\<close>

lemma attempt_Inr [simp]: "attempt e k = Inr x \<longleftrightarrow> e = None \<and> k = Inr x"
  by (cases e) (simp_all add: attempt_def)

lemma startProcess_engine:
  assumes "startProcess V F = Inr (Some P)"
  shows "\<exists>c. pe_OciClient V (fg_Region F) = Inr c \<and> pr_Engine P = engineOf V F c"
    "fg_Compartment F \<noteq> ''''" "fg_Subnet F \<noteq> ''''" "fg_Installation F \<noteq> ''''"
  using assms by (auto simp: startProcess_def serve_def checkFlags_def split: sum.splits if_splits)

lemma startProcess_gateway:
  assumes "startProcess V F = Inr (Some P)" "pr_Gateway P = Some (A, X)"
  shows "A = adapterOf V F" "X = fleetOf V F" "adapterConfigured A = None"
  using assms by (auto simp: startProcess_def serve_def setupGateway_def split: sum.splits if_splits)

text \<open>A fresh pool with a valid specification inside the engine's scope is frozen as it is.\<close>

lemma reconcilePool_freezes:
  assumes "ValidatePool (np_Spec q) = None" "ps_CompartmentID (np_Spec q) = en_Compartment E" "ps_SubnetID (np_Spec q) = en_Subnet E"
    and "st_FrozenSpec (np_Status q) = None" "has_finalizer E (np_Meta q)"
  shows "reconcilePool E q = saveAndReturn E (set_status (\<lambda>st. st\<lparr>st_FrozenSpec := Some (np_Spec q)\<rparr>) q)"
  using assms by (simp add: reconcilePool_def)

text \<open>
  C22. The controllers of one process agree on their scope.  If a process starts with the Gateway API enabled,
  then its three controllers serve the same namespace under the same installation, the pool controller makes
  Gateways of the class the adapter serves, and the engine accepts the pool the adapter asks for: for every
  Gateway whose worker annotation is valid, reading the new pool with its finalizer, the engine passes every
  check of its specification and, as its first write, saves that specification as the frozen one.
\<close>

theorem started_process_agrees:
  assumes started: "startProcess V F = Inr (Some P)" and gw: "pr_Gateway P = Some (A, X)"
    and workers: "gatewayWorkers g = Inr (n, capacity)"
    and fresh: "np_Spec q = np_Spec (newPool A g (gatewayPoolSpec A n capacity))" "np_Status q = empty_status"
      "has_finalizer (pr_Engine P) (np_Meta q)"
    and got: "kc_GetPool (pe_Kube V) (fg_Namespace F, name) (world s) = (Inr q, w)"
    and run: "run_state (Reconcile (pr_Engine P) (fg_Namespace F, name)) s = (ans, s')"
  shows "en_Namespace (pr_Engine P) = ad_Namespace A \<and> fl_Namespace X = ad_Namespace A \<and>
    fl_Installation X = ad_Installation A \<and> cd_Installation (en_Cloud (pr_Engine P)) = ad_Installation A \<and>
    fl_ClassName X = ad_GatewayClassName A \<and>
    (\<exists>q' tail. writes s' = writes s @ PoolStatusUpdate q' # tail \<and> st_FrozenSpec (np_Status q') = Some (np_Spec q) \<and>
       np_Spec q' = np_Spec q \<and> np_Meta q' = np_Meta q)"
proof -
  let ?E = "pr_Engine P"
  note e = startProcess_engine [OF started] and g = startProcess_gateway [OF started gw]
  obtain c where c: "?E = engineOf V F c" using e(1) by blast
  have spec: "np_Spec q = gatewayPoolSpec A n capacity" using fresh(1) by (simp add: newPool_def)
  have "pool_spec_ok (gatewayPoolSpec A n capacity)"
    by (rule gatewayPoolSpec_ok [OF workers]) (use e g(1) in \<open>simp_all add: adapterOf_def\<close>)
  then have valid: "ValidatePool (np_Spec q) = None" by (simp add: spec pool_spec_ok_valid)
  let ?q = "set_status (\<lambda>st. st\<lparr>st_FrozenSpec := Some (np_Spec q)\<rparr>) q"
  have freeze: "reconcilePool ?E q = saveAndReturn ?E ?q"
    by (rule reconcilePool_freezes [OF valid])
       (use fresh in \<open>simp_all add: spec gatewayPoolSpec_def g(1) c engineOf_def adapterOf_def empty_status_def\<close>)
  obtain f t tail where f: "run_state (reconcile ?E (fg_Namespace F, name)) (s\<lparr>snapshot := Some []\<rparr>) = (f, t)"
      "writes s' = writes t @ tail"
    by (rule Reconcile_run [OF run])
  have "run_state (saveAndReturn ?E ?q) (s\<lparr>snapshot := Some [], world := w\<rparr>) = (f, t)"
    using f(1) got freeze by (simp add: reconcile_def call_def c engineOf_def)
  then have "writes t = writes s @ [PoolStatusUpdate (account ?q)]"
    by (auto simp: saveAndReturn_def savePool_def issue_def emit_def modify_def call_def State_Monad.get_def State_Monad.set_def
        split: prod.splits)
  then have "writes s' = writes s @ PoolStatusUpdate (account ?q) # tail" using f(2) by simp
  moreover have "en_Namespace ?E = ad_Namespace A \<and> fl_Namespace X = ad_Namespace A \<and>
      fl_Installation X = ad_Installation A \<and> cd_Installation (en_Cloud ?E) = ad_Installation A \<and> fl_ClassName X = ad_GatewayClassName A"
    by (simp add: c g engineOf_def adapterOf_def fleetOf_def)
  ultimately show ?thesis by (intro conjI exI [of _ "account ?q"] exI [of _ tail]) simp_all
qed

text \<open>An installation that starts and serves the pool of a Gateway.\<close>

definition closed_oci :: "unit oci_client" where
  "closed_oci = \<lparr>oc_GetNLB = (\<lambda>i w. (Inl (NotFound i), w)), oc_ListNLBs = (\<lambda>i page w. (Inr ([], None), w)),
     oc_Mutate = (\<lambda>m w. (Inl (Errorf ''refused''), w)), oc_GetWorkRequest = (\<lambda>i w. (Inl (NotFound i), w))\<rparr>"

definition demo_env :: "nlb_pool \<Rightarrow> unit process_env" where
  "demo_env p = \<lparr>pe_WorkloadProvider = None, pe_InstanceProvider = None, pe_OciClient = (\<lambda>r. Inr closed_oci), pe_NetClient = None,
     pe_ReadNLB = (\<lambda>i. None), pe_Install = None, pe_NewManager = None, pe_Complete = (\<lambda>n. None), pe_Probe = (\<lambda>n. None),
     pe_Kube = fixed_kube p [], pe_Gateway = empty_api, pe_Lib = list_lib, pe_Json = no_json, pe_ServiceError = (\<lambda>e. None),
     pe_CtxErr = (\<lambda>w. None), pe_PageFuel = 1, pe_Range = (\<lambda>ks. ks)\<rparr>"

definition demo_flags :: flags where
  "demo_flags = default_flags\<lparr>fg_EnableGatewayAPI := True, fg_Compartment := ''comp'', fg_Subnet := ''subnet'', fg_Installation := ''inst''\<rparr>"

lemma demo_starts:
  "startProcess (demo_env p) demo_flags = Inr (Some \<lparr>pr_Engine = engineOf (demo_env p) demo_flags closed_oci,
     pr_Gateway = Some (adapterOf (demo_env p) demo_flags, fleetOf (demo_env p) demo_flags)\<rparr>)"
  by (simp add: startProcess_def serve_def setupGateway_def checkFlags_def checkScheme_def provider_def adapterConfigured_def
      demo_env_def demo_flags_def default_flags_def adapterOf_def attempt_def)

theorem started_process_agrees_witness:
  "\<exists>p P ans s' q' tail. startProcess (demo_env p) demo_flags = Inr (Some P) \<and>
     run_state (Reconcile (pr_Engine P) (''shared-nlb'', om_Name (np_Meta p))) \<lparr>world = (), writes = [], snapshot = None\<rparr> = (ans, s') \<and>
     writes s' = PoolStatusUpdate q' # tail \<and> st_FrozenSpec (np_Status q') = Some (np_Spec p) \<and> ps_CompartmentID (np_Spec p) = ''comp''"
proof -
  let ?g = "desiredGateway single_fleet (ga_GatewayName single_lease) ''inst''"
  let ?p = "newPool demo_adapter ?g (gatewayPoolSpec demo_adapter 0 50)"
  let ?A = "adapterOf (demo_env ?p) demo_flags" and ?X = "fleetOf (demo_env ?p) demo_flags"
  let ?P = "\<lparr>pr_Engine = engineOf (demo_env ?p) demo_flags closed_oci, pr_Gateway = Some (?A, ?X)\<rparr>"
  let ?s = "\<lparr>world = (), writes = [], snapshot = None\<rparr> :: unit engine_state"
  have w: "gatewayWorkers ?g = Inr (0, 50)"
    by (simp add: single_fleet_def demo_fleet_defs gatewayWorkers_def desiredGateway_def MaxWorkersAnnotation_def)
  have spec: "np_Spec ?p = np_Spec (newPool ?A ?g (gatewayPoolSpec ?A 0 50))" and comp: "ps_CompartmentID (np_Spec ?p) = ''comp''"
    by (simp_all add: newPool_def gatewayPoolSpec_def demo_adapter_def adapterOf_def demo_flags_def)
  have fin: "has_finalizer (pr_Engine ?P) (np_Meta ?p)"
    by (simp add: engineOf_def demo_env_def list_lib_def newPool_def generated_meta_def)
  have status: "np_Status ?p = empty_status" by (simp add: newPool_def)
  have gw: "pr_Gateway ?P = Some (?A, ?X)" by simp
  have got: "kc_GetPool (pe_Kube (demo_env ?p)) (fg_Namespace demo_flags, om_Name (np_Meta ?p)) (world ?s) = (Inr ?p, ())"
    by (simp add: demo_env_def fixed_kube_def)
  obtain ans s' where run: "run_state (Reconcile (pr_Engine ?P) (fg_Namespace demo_flags, om_Name (np_Meta ?p))) ?s = (ans, s')"
    by fastforce
  from started_process_agrees [OF demo_starts gw w spec status fin got run] obtain q' tail
    where "writes s' = PoolStatusUpdate q' # tail" "st_FrozenSpec (np_Status q') = Some (np_Spec ?p)" by auto
  moreover have "fg_Namespace demo_flags = ''shared-nlb''" by (simp add: demo_flags_def default_flags_def)
  ultimately show ?thesis using demo_starts [of ?p] run comp by fastforce
qed

section \<open>Queued requests\<close>

text \<open>
  Every request a change puts on a queue is inside the namespace its controller serves, if the API lists the
  objects of the namespace it was asked for, and a change inside the namespace wakes the adapter's sweep.
\<close>

lemma enqueue_scope:
  "\<forall>p \<in> set ps. om_Namespace (np_Meta p) = ns \<Longrightarrow> req \<in> set (enqueuePools (Inr ps)) \<Longrightarrow> fst req = ns"
  "\<forall>p \<in> set fs. om_Namespace (gp_Meta p) = ns \<Longrightarrow> req \<in> set (enqueueFleets (Inr fs)) \<Longrightarrow> fst req = ns"
  "\<forall>g \<in> set gs. om_Namespace (gw_Meta g) = ad_Namespace A \<Longrightarrow> req \<in> set (enqueueGateways A m (Inr gs)) \<Longrightarrow> fst req = ad_Namespace A"
  by (auto simp: enqueuePools_def enqueueFleets_def enqueueGateways_def key_of_def split: if_splits)

lemma enqueue_sweep: "(ad_Namespace A, ''gateway-cleanup-sweep'') \<in> set (enqueueGateways A (ad_Namespace A) (Inr gs))"
  by (simp add: enqueueGateways_def)

end
