(* ===== verification/Spec2Isabelle.thy ===== *)
theory Spec2Isabelle
  imports Engine_Settles Gateway_Settles Gateway_Adapter_Properties Generated_Names Process
begin

text \<open>
  \<^bold>\<open>The OCI shared NLB Gateway controller\<close>

  One process lets many UDP workloads share OCI network load balancers.  Three reconcilers work on the
  same namespace and talk to each other only through Kubernetes objects:

  \<^item> the \<^emph>\<open>engine\<close> (\<^verbatim>\<open>internalcontroller/\<close>) serves \<^verbatim>\<open>NLBPool\<close> objects.  It leases a shard and port of the
    pool to every \<^verbatim>\<open>TunnelBinding\<close>, finds the backends of the binding's Service, and brings the load
    balancer of the shard to the wanted state by one OCI mutation at a time;
  \<^item> the \<^emph>\<open>Gateway adapter\<close> (\<^verbatim>\<open>internalgateway/\<close>) serves Gateways of one class.  It keeps one explicit pool per
    Gateway and one binding per accepted UDP route, and archives the pool before a Gateway goes;
  \<^item> the \<^emph>\<open>Gateway pool controller\<close> (\<^verbatim>\<open>internalgatewaypool/\<close>) serves \<^verbatim>\<open>GatewayPool\<close> objects.  It leases a
    listener of a generated Gateway to every annotated route, stores the lease, and only then creates the
    Gateway and attaches the route.

  The safety of all three is a ledger that is kept in the status of an object: a lease is never moved or
  dropped, only retired, so a public address and port is never given to a second owner.

  \<^bold>\<open>Theories\<close>

  \<^item> \<open>Prelude\<close>: Go's integers with their wrap-around, maps, strings and errors, and the weakest
    preconditions of the state monad.  \<open>Calls\<close>: operations that call services, with the calculi
    \<open>emits\<close> (what an operation may write), \<open>silent\<close> and \<open>yields\<close>.  \<open>Sha256\<close>, \<open>Net_IP\<close>: the hash behind
    generated names, and IPv4 addresses.
  \<^item> \<open>Kube_Types\<close>, \<open>Api_Types\<close> (\<^verbatim>\<open>api/\<close>), \<open>Gateway_Types\<close>: the objects as records.
  \<^item> \<open>Lease_Ledger\<close>: the abstract register of slots and its steps (grant, retire), and the locales for a
    ledger that both allocators are interpretations of.
  \<^item> \<open>Allocation\<close> (\<^verbatim>\<open>allocation.go\<close>): \<open>ValidatePool\<close>, \<open>Allocate\<close>.
  \<^item> \<open>Services\<close>, \<open>Cloud\<close>, \<open>Cloud_Steps\<close> (\<^verbatim>\<open>cloud.go\<close>, \<^verbatim>\<open>cloud_cluster.go\<close>): ownership, \<open>EnsureShard\<close>, \<open>StepBackends\<close>
    and their properties.
  \<^item> \<open>Endpoints\<close>, \<open>Endpoints_Cluster\<close> (\<^verbatim>\<open>endpoint_snapshot.go\<close>, \<^verbatim>\<open>endpoints.go\<close>, \<^verbatim>\<open>endpoints_podip.go\<close>,
    \<^verbatim>\<open>endpoints_cluster.go\<close>): the snapshot of the cluster and the resolution of a binding to backends.
  \<^item> \<open>Engine\<close>, \<open>Effects\<close>, \<open>Engine_Steps\<close>, \<open>Engine_Properties\<close> (\<^verbatim>\<open>reconciler.go\<close>, \<^verbatim>\<open>metrics.go\<close>): one reconciliation,
    the published outcome, what they may write, and the history of a pool.
  \<^item> \<open>Gateway_Policy\<close> (\<^verbatim>\<open>internalgateway/policy.go\<close>), \<open>Gateway_Adapter\<close>, \<open>Gateway_Adapter_Steps\<close>,
    \<open>Gateway_Adapter_Properties\<close> (\<^verbatim>\<open>internalgateway/reconciler.go\<close>, \<^verbatim>\<open>cleanup.go\<close>): the adapter.  \<open>adapter_safe\<close> says
    which object the API must have returned for each write, and what of it the write may change.
  \<^item> \<open>Gateway_Pool\<close>, \<open>Gateway_Fleet\<close>, \<open>Gateway_Fleet_Steps\<close>, \<open>Gateway_Fleet_Properties\<close>
    (\<^verbatim>\<open>internalgatewaypool/reconciler.go\<close>): the Gateway pool controller and its ledger.
  \<^item> \<open>Settling\<close>: the locales of a level-triggered loop, with bounds on the passes until it rests.
    \<open>Gateway_Store\<close> is the API server as the pool controller sees it and what one reconciliation does to its
    contents; \<open>Gateway_Settles\<close> interprets the locale for the pool controller, \<open>Engine_Drains\<close> for an engine
    whose pool is being deleted, \<open>Engine_Settles\<close> for an engine at work.  For the latter \<open>Engine_Store\<close> says what is
    wanted for a binding, which contents of the services are sound and how much work they leave, and that every kind of change
    keeps them so; \<open>Engine_Serves\<close> goes through the operations of one reconciliation on such contents.
  \<^item> \<open>Generated_Names\<close>: the names made from hashes are valid labels, and so is that of the adapter's archive, which
    contains a UID as it is, for the UIDs Kubernetes gives.
  \<^item> \<open>Gateway_Compose\<close>: what one controller produces is what the next one accepts.
  \<^item> \<open>Process\<close> (\<^verbatim>\<open>cmd/controller/main.go\<close> and the \<^verbatim>\<open>Setup\<close> methods): the process built from its flags.

  \<^bold>\<open>How the model corresponds to the code\<close>

  A struct is a record with the source's field names behind a two-letter prefix, a Go map an association
  list, a returned error a value of \<open>go_error\<close>; an index out of range is the error \<open>RuntimePanic\<close>.  A
  method that calls a service is an operation of the state monad over the world and the list of writes
  issued so far; the engine's state also has the snapshot of load balancers.  A long method is cut at its
  early returns: in the engine a \<open>flow\<close> either returns or continues with the local variables, in the Gateway
  controllers \<open>Inl\<close> is an early return.  \<^verbatim>\<open>Reconcile\<close> of the engine is \<open>Reconcile\<close>, of the adapter
  \<open>adapterReconcile\<close>, of the pool controller \<open>fleetReconcile\<close>.

  The OCI and Kubernetes clients are records of functions over an unspecified world, so theorems without
  a hypothesis on them hold whatever the services answer and whatever others do in between.  Functions of the
  Kubernetes libraries (\<open>kube_lib\<close>), JSON (\<open>json_lib\<close>) and the OCI SDK's error test are parameters.
  Hypotheses on them are named: \<open>finalizer_laws\<close> (finalizers are a set), \<open>oci_reports\<close> (an accepted
  mutation names its work request), \<open>services_served\<close> (a Service read has the name asked for and what the
  API server validates).  The order in which Go visits a map is open: it is the order of an association list,
  or the function \<open>fl_Range\<close> where the map is built on the way.

  Only the theorems on repeated reconciliations assume services that work and that nobody else writes:
  \<open>store_api\<close> (a write against the current version is stored and read back, with a new version; \<open>orderly\<close> is
  what the starting contents satisfy) for C4, and \<open>drain_api\<close> (Kubernetes the same; OCI carries out a mutation it
  accepts within \<open>B\<close> polls of its work request, and deletes a backend set only after its listener; \<open>drain_ok\<close> is
  a valid pool in the engine's scope under deletion, with the engine's finalizer alone, that no binding names, on its own
  active load balancers without foreign objects) for C5.  C2, on live bindings, adds \<open>serve_api\<close>: the cluster is read as it is
  and stays so, bindings are stored as written, a listing shows every load balancer of the compartment within the engine's fuel
  of pages, and a created load balancer is there when its work request has ended.  Its \<open>serve_ok\<close> asks for a live, valid pool
  in the engine's scope and as frozen; for every shard at most one tagged load balancer, owned and active, with undrifted
  listeners and backend sets of leases in force only; leases in force of existing bindings only, none in cluster mode; and bindings that are not
  being deleted and not in cluster mode, whose destinations differ and are known: no read fails, and no endpoint gap has to be
  waited out.  What the engine does outside these conditions is said by the theorems on a single reconciliation, which
  have none of them.  The witnesses run on concrete services that satisfy all this.

  \<^bold>\<open>Bounds and fuel\<close>

  Every function is total.  The only loop without a bound in the source is the paging of load balancers in
  \<^verbatim>\<open>EnsureShard\<close>; its fuel is \<open>cd_PageFuel\<close>, and it is proved that a fuel not below the number of pages gives
  the answer.  Repeated reconciliations are counted: \<open>fleet_work\<close>, \<open>serve_work\<close> and \<open>drain_work\<close> add up what is left to do, and
  twice either of the first two plus one passes, or as many as the last, are enough.  Integers are unbounded with the 64-bit and 32-bit wrap-around written out where the source
  computes.

  \<^bold>\<open>What the groups of lemmas show\<close>

  \<^item> Ledgers: both allocators refine the abstract register; over any history an endpoint (C1) or a listener
    (C3) belongs to one owner for ever.
  \<^item> Progress: a live pool reaches a state in which every binding has its lease, its load balancer as wanted and its
    published address, or its refusal is published (C2); a Gateway pool one in which every route is served or its refusal is
    published (C4); a deleted pool leaves nothing behind on its load balancers (C5); and both controllers then write nothing.
  \<^item> Writes: what each reconciler may write, in which order and when (one mutation and then its work request;
    leases before Gateways; finalizers and archives last; status entries of other controllers kept), and that the
    published condition is truthful.
  \<^item> Cloud steps: a step is safe on what it has read, two steps converge, comparisons are exact.
  \<^item> Endpoints: backends are those of Pods and nodes that were read and verified for every routed endpoint, and a gap is
    reported only after the same checks; orders do not matter.
  \<^item> Composition: a generated Gateway is accepted by the adapter, an attached route resolves to its lease, its
    Service is admitted by the adapter and the engine, its port is granted, and the engine accepts the pool.

  \<^bold>\<open>Not modelled\<close>

  The registration of watches with the manager, leader election and the cache; the Prometheus collectors, the
  timing of calls, events and log lines, which no decision reads; scheme registration and deep copies; the
  timestamps of conditions.  Charts, deployment files, scripts and documents are not code of the controller;
  the bounds of the resource definitions appear as hypotheses.
\<close>

end
